(* ===== verification/Prelude.thy ===== *)
theory Prelude
  imports Main "HOL-Library.Word" "HOL-Library.Mapping"
begin

text \<open>
  What the components share: the machine integers of the Rust sources and their saturating and
  checked operations, UTF-8 strings as byte strings, the ASCII predicates of the standard library,
  results as sums (\<open>Inl\<close> an error, \<open>Inr\<close> a value), and the list, option and map facts the
  component proofs use. A Rust \<open>String\<close> is the list of its UTF-8 bytes (\<open>char\<close> is a byte), so
  \<open>length\<close> is \<open>str::len\<close>; \<open>str_chars\<close> decodes it into code points. \<open>usize\<close> values that are
  lengths or list positions are \<open>nat\<close>; integers whose wrap-around or saturation matters are words.
\<close>

type_synonym u8 = "8 word"
type_synonym u16 = "16 word"
type_synonym u32 = "32 word"
type_synonym u64 = "64 word"
type_synonym ('e, 'a) result = "'e + 'a"

named_theorems result_simps \<open>unfolding of the result combinators\<close>
named_theorems sat_simps \<open>values of the saturating and checked integer operations\<close>

section \<open>Results\<close>

definition rbind :: "('e, 'a) result \<Rightarrow> ('a \<Rightarrow> ('e, 'b) result) \<Rightarrow> ('e, 'b) result" where
  "rbind r f = (case r of Inl e \<Rightarrow> Inl e | Inr v \<Rightarrow> f v)"

definition fail_if :: "bool \<Rightarrow> 'e \<Rightarrow> ('e, unit) result" where
  "fail_if b e = (if b then Inl e else Inr ())"

definition ok_or :: "'a option \<Rightarrow> 'e \<Rightarrow> ('e, 'a) result" where
  "ok_or x e = (case x of None \<Rightarrow> Inl e | Some v \<Rightarrow> Inr v)"

definition map_err :: "('e \<Rightarrow> 'f) \<Rightarrow> ('e, 'a) result \<Rightarrow> ('f, 'a) result" where
  "map_err f r = (case r of Inl e \<Rightarrow> Inl (f e) | Inr v \<Rightarrow> Inr v)"

definition is_ok :: "('e, 'a) result \<Rightarrow> bool" where
  "is_ok r = (case r of Inl _ \<Rightarrow> False | Inr _ \<Rightarrow> True)"

lemma rbind_simps [simp]: "rbind (Inl e) f = Inl e" "rbind (Inr v) f = f v"
  by (simp_all add: rbind_def)

lemma rbind_eq_Inr [result_simps]: "rbind r f = Inr y \<longleftrightarrow> (\<exists>v. r = Inr v \<and> f v = Inr y)"
  by (cases r) auto

lemma rbind_eq_Inl [result_simps]:
  "rbind r f = Inl e \<longleftrightarrow> r = Inl e \<or> (\<exists>v. r = Inr v \<and> f v = Inl e)"
  by (cases r) auto

lemma fail_if_eq [result_simps]:
  "fail_if b e = Inr u \<longleftrightarrow> \<not> b" "fail_if b e = Inl e' \<longleftrightarrow> b \<and> e' = e"
  by (auto simp: fail_if_def)

lemma fail_if_simps [simp]: "fail_if True e = Inl e" "fail_if False e = Inr ()"
  by (simp_all add: fail_if_def)

lemma ok_or_simps [simp]: "ok_or None e = Inl e" "ok_or (Some v) e = Inr v"
  by (simp_all add: ok_or_def)

lemma ok_or_eq [result_simps]:
  "ok_or x e = Inr v \<longleftrightarrow> x = Some v" "ok_or x e = Inl e' \<longleftrightarrow> x = None \<and> e' = e"
  by (auto simp: ok_or_def split: option.splits)

lemma map_err_simps [simp]: "map_err f (Inl e) = Inl (f e)" "map_err f (Inr v) = Inr v"
  by (simp_all add: map_err_def)

lemma map_err_eq_Inr [result_simps]: "map_err f r = Inr v \<longleftrightarrow> r = Inr v"
  by (cases r) auto

lemma is_ok_simps [simp]: "is_ok (Inr v)" "\<not> is_ok (Inl e)"
  by (simp_all add: is_ok_def)

lemma is_ok_iff: "is_ok r \<longleftrightarrow> (\<exists>v. r = Inr v)"
  by (cases r) auto

section \<open>Machine integers\<close>

definition u32_max :: nat where "u32_max = 4294967295"
definition u64_max :: nat where "u64_max = 18446744073709551615"
definition usize_max :: nat where "usize_max = 18446744073709551615"

definition sat_add :: "'a::len word \<Rightarrow> 'a word \<Rightarrow> 'a word" where
  "sat_add a b = (if unat a + unat b < 2 ^ LENGTH('a) then a + b else - 1)"

definition sat_sub :: "'a::len word \<Rightarrow> 'a word \<Rightarrow> 'a word" where
  "sat_sub a b = (if b \<le> a then a - b else 0)"

definition checked_add :: "'a::len word \<Rightarrow> 'a word \<Rightarrow> 'a word option" where
  "checked_add a b = (if unat a + unat b < 2 ^ LENGTH('a) then Some (a + b) else None)"

definition checked_mul :: "'a::len word \<Rightarrow> 'a word \<Rightarrow> 'a word option" where
  "checked_mul a b = (if unat a * unat b < 2 ^ LENGTH('a) then Some (a * b) else None)"

definition checked_sub :: "'a::len word \<Rightarrow> 'a word \<Rightarrow> 'a word option" where
  "checked_sub a b = (if b \<le> a then Some (a - b) else None)"

text \<open>\<open>usize::saturating_add\<close> on positions, which are modelled as \<open>nat\<close>.\<close>

definition usize_sat_add :: "nat \<Rightarrow> nat \<Rightarrow> nat" where
  "usize_sat_add a b = min (a + b) usize_max"

lemma unat_sat_add [sat_simps]:
  "unat (sat_add a b) = min (unat a + unat b) (2 ^ LENGTH('a) - 1)" for a b :: "'a::len word"
proof (cases "unat a + unat b < 2 ^ LENGTH('a)")
  case True
  then show ?thesis by (simp add: sat_add_def unat_word_ariths)
next
  case False
  have "unat (- 1 :: 'a word) = 2 ^ LENGTH('a) - 1"
    by (simp add: unsigned_minus_1_eq_mask mask_eq_exp_minus_1)
  with False show ?thesis by (simp add: sat_add_def)
qed

lemma unat_sat_sub [sat_simps]: "unat (sat_sub a b) = unat a - unat b"
proof (cases "b \<le> a")
  case True
  then show ?thesis by (simp add: sat_sub_def unat_sub)
next
  case False
  then show ?thesis by (simp add: sat_sub_def word_le_nat_alt)
qed

lemma checked_add_Some [sat_simps]:
  "checked_add a b = Some c \<longleftrightarrow> unat c = unat a + unat b" for a b :: "'a::len word"
proof
  assume "checked_add a b = Some c"
  then show "unat c = unat a + unat b"
    by (auto simp: checked_add_def unat_word_ariths split: if_splits)
next
  assume eq: "unat c = unat a + unat b"
  have "unat c < 2 ^ LENGTH('a)" by (rule unsigned_less)
  with eq have lt: "unat a + unat b < 2 ^ LENGTH('a)" by simp
  then have "unat (a + b) = unat c" using eq by (simp add: unat_word_ariths)
  then have "a + b = c" by (simp add: word_unat_eq_iff)
  with lt show "checked_add a b = Some c" by (simp add: checked_add_def)
qed

lemma checked_mul_Some [sat_simps]:
  "checked_mul a b = Some c \<longleftrightarrow> unat c = unat a * unat b" for a b :: "'a::len word"
proof
  assume "checked_mul a b = Some c"
  then show "unat c = unat a * unat b"
    by (auto simp: checked_mul_def unat_word_ariths split: if_splits)
next
  assume eq: "unat c = unat a * unat b"
  have "unat c < 2 ^ LENGTH('a)" by (rule unsigned_less)
  with eq have lt: "unat a * unat b < 2 ^ LENGTH('a)" by simp
  then have "unat (a * b) = unat c" using eq by (simp add: unat_word_ariths)
  then have "a * b = c" by (simp add: word_unat_eq_iff)
  with lt show "checked_mul a b = Some c" by (simp add: checked_mul_def)
qed

lemma checked_sub_Some [sat_simps]: "checked_sub a b = Some c \<longleftrightarrow> b \<le> a \<and> c = a - b"
  by (auto simp: checked_sub_def)

lemma sat_add_mono: "a \<le> sat_add a b" for a b :: "'a::len word"
proof -
  have "unat a < 2 ^ LENGTH('a)" by (rule unsigned_less)
  then have "unat a \<le> 2 ^ LENGTH('a) - 1" by linarith
  then show ?thesis by (simp add: word_le_nat_alt unat_sat_add)
qed

lemma sat_sub_sat_add: "unat (sat_sub (sat_add a b) a) \<le> unat b"
  by (simp add: sat_simps)

section \<open>Little-endian fields\<close>

text \<open>\<open>from_le_bytes\<close> and \<open>to_le_bytes\<close>, as numbers: the bytes of \<open>n\<close> in \<open>k\<close> positions.\<close>

fun le_nat :: "u8 list \<Rightarrow> nat" where
  "le_nat [] = 0"
| "le_nat (b # bs) = unat b + 256 * le_nat bs"

fun le_bytes :: "nat \<Rightarrow> nat \<Rightarrow> u8 list" where
  "le_bytes 0 n = []"
| "le_bytes (Suc k) n = word_of_nat (n mod 256) # le_bytes k (n div 256)"

lemma length_le_bytes [simp]: "length (le_bytes k n) = k"
  by (induction k arbitrary: n) auto

lemma unat_byte [simp]: "unat (word_of_nat (n mod 256) :: u8) = n mod 256"
  by (simp add: unat_of_nat)

lemma le_nat_le_bytes: "le_nat (le_bytes k n) = n mod 256 ^ k"
proof (induction k arbitrary: n)
  case 0
  then show ?case by simp
next
  case (Suc k)
  have "n mod (256 * 256 ^ k) = 256 * (n div 256 mod 256 ^ k) + n mod 256"
    by (rule mod_mult2_eq)
  with Suc show ?case by simp
qed

lemma le_nat_less: "le_nat bs < 256 ^ length bs"
proof (induction bs)
  case Nil
  then show ?case by simp
next
  case (Cons b bs)
  have "unat b < 256" using unsigned_less [of b] by simp
  then have "unat b + 256 * le_nat bs < 256 * (le_nat bs + 1)" by simp
  also have "\<dots> \<le> 256 * 256 ^ length bs" using Cons by (intro mult_le_mono) auto
  finally show ?case by simp
qed

definition read_u32 :: "u8 list \<Rightarrow> nat \<Rightarrow> u32" where
  "read_u32 bs off = word_of_nat (le_nat (take 4 (drop off bs)))"

definition read_u64 :: "u8 list \<Rightarrow> nat \<Rightarrow> u64" where
  "read_u64 bs off = word_of_nat (le_nat (take 8 (drop off bs)))"

text \<open>Writing a slice in place: \<open>buf[off..off + len].copy_from_slice\<close>, in range.\<close>

definition put_slice :: "'a list \<Rightarrow> nat \<Rightarrow> 'a list \<Rightarrow> 'a list" where
  "put_slice buf off xs = take off buf @ xs @ drop (off + length xs) buf"

definition write_u32 :: "u8 list \<Rightarrow> nat \<Rightarrow> u32 \<Rightarrow> u8 list" where
  "write_u32 bs off v = put_slice bs off (le_bytes 4 (unat v))"

definition write_u64 :: "u8 list \<Rightarrow> nat \<Rightarrow> u64 \<Rightarrow> u8 list" where
  "write_u64 bs off v = put_slice bs off (le_bytes 8 (unat v))"

lemma length_put_slice [simp]: "off + length xs \<le> length buf \<Longrightarrow> length (put_slice buf off xs) = length buf"
  by (simp add: put_slice_def)

lemma length_write_u32 [simp]: "off + 4 \<le> length bs \<Longrightarrow> length (write_u32 bs off v) = length bs"
  by (simp add: write_u32_def)

lemma length_write_u64 [simp]: "off + 8 \<le> length bs \<Longrightarrow> length (write_u64 bs off v) = length bs"
  by (simp add: write_u64_def)

lemma word_of_nat_mod_exp: "k = 2 ^ LENGTH('a) \<Longrightarrow> word_of_nat (n mod k) = (word_of_nat n :: 'a::len word)"
  by (metis take_bit_eq_mod unsigned_of_nat word_unat_eq_iff take_bit_take_bit min.idem)

lemma put_slice_same:
  "off + length xs \<le> length buf \<Longrightarrow> take (length xs) (drop off (put_slice buf off xs)) = xs"
  by (simp add: put_slice_def)

lemma take_drop_put_slice_before:
  assumes "i + n \<le> off" "off + length xs \<le> length buf"
  shows "take n (drop i (put_slice buf off xs)) = take n (drop i buf)"
proof -
  have "take n (drop i (put_slice buf off xs)) = take n (drop i (take off buf))"
    using assms by (simp add: put_slice_def)
  also have "\<dots> = take n (drop i buf)" using assms by (simp add: drop_take)
  finally show ?thesis .
qed

lemma take_drop_put_slice_after:
  assumes "off + length xs \<le> i" "off + length xs \<le> length buf"
  shows "take n (drop i (put_slice buf off xs)) = take n (drop i buf)"
proof -
  have "drop (i - off - length xs) (drop (off + length xs) buf) = drop i buf"
    using assms by simp
  then show ?thesis using assms by (simp add: put_slice_def)
qed

lemma read_u32_write_u32: "off + 4 \<le> length bs \<Longrightarrow> read_u32 (write_u32 bs off v) off = v"
  by (simp add: read_u32_def write_u32_def put_slice_same [where xs = "le_bytes 4 _", simplified]
      le_nat_le_bytes word_of_nat_mod_exp)

lemma read_u64_write_u64: "off + 8 \<le> length bs \<Longrightarrow> read_u64 (write_u64 bs off v) off = v"
  by (simp add: read_u64_def write_u64_def put_slice_same [where xs = "le_bytes 8 _", simplified]
      le_nat_le_bytes word_of_nat_mod_exp)

lemma read_put_slice:
  assumes "off + length xs \<le> length bs"
  shows "i + 4 \<le> off \<or> off + length xs \<le> i \<Longrightarrow> read_u32 (put_slice bs off xs) i = read_u32 bs i"
    and "i + 8 \<le> off \<or> off + length xs \<le> i \<Longrightarrow> read_u64 (put_slice bs off xs) i = read_u64 bs i"
  using assms
  by (auto simp: read_u32_def read_u64_def take_drop_put_slice_before take_drop_put_slice_after)

lemma take_put_slice: "n \<le> off \<Longrightarrow> off + length xs \<le> length bs \<Longrightarrow> take n (put_slice bs off xs) = take n bs"
  using take_drop_put_slice_before [of 0 n off xs bs] by simp

lemma read_take:
  "i + 4 \<le> n \<Longrightarrow> read_u32 (take n bs) i = read_u32 bs i"
  "i + 8 \<le> n \<Longrightarrow> read_u64 (take n bs) i = read_u64 bs i"
  by (simp_all add: read_u32_def read_u64_def drop_take min_def)

lemma ucast_u32_u64: "unat (ucast x :: u64) = unat x" for x :: u32
proof -
  have "unat x < 2 ^ 64" using unsigned_less [of x, where 'a = nat] by simp
  then show ?thesis by (simp add: unsigned_ucast_eq take_bit_nat_eq_self)
qed

end
