(* ===== verification/Rust_Strings.thy ===== *)
theory Rust_Strings
  imports Prelude
begin

text \<open>
  Rust strings as lists of UTF-8 bytes: decoding (strict, as \<open>String::from_utf8\<close>, and lossy, as
  \<open>String::from_utf8_lossy\<close>), \<open>chars()\<close>, \<open>trim()\<close>, \<open>split\<close> on an ASCII byte, the ASCII case
  operations, and decimal formatting of unsigned integers.
\<close>

named_theorems str_simps \<open>facts about strings\<close>

section \<open>ASCII\<close>

definition byte_val :: "char \<Rightarrow> nat" where "byte_val c = of_char c"

lemma byte_val_less [simp]: "byte_val c < 256"
  by (simp add: byte_val_def)

definition is_ascii_digit :: "char \<Rightarrow> bool" where
  "is_ascii_digit c \<longleftrightarrow> 48 \<le> byte_val c \<and> byte_val c \<le> 57"

definition is_ascii_upper :: "char \<Rightarrow> bool" where
  "is_ascii_upper c \<longleftrightarrow> 65 \<le> byte_val c \<and> byte_val c \<le> 90"

definition is_ascii_lower :: "char \<Rightarrow> bool" where
  "is_ascii_lower c \<longleftrightarrow> 97 \<le> byte_val c \<and> byte_val c \<le> 122"

definition is_ascii_alphanumeric :: "char \<Rightarrow> bool" where
  "is_ascii_alphanumeric c \<longleftrightarrow> is_ascii_digit c \<or> is_ascii_upper c \<or> is_ascii_lower c"

text \<open>\<open>u8::is_ascii_whitespace\<close>: space, tab, line feed, form feed, carriage return.\<close>

definition is_ascii_whitespace :: "char \<Rightarrow> bool" where
  "is_ascii_whitespace c \<longleftrightarrow> byte_val c \<in> {32, 9, 10, 12, 13}"

definition ascii_lower_char :: "char \<Rightarrow> char" where
  "ascii_lower_char c = (if is_ascii_upper c then char_of (byte_val c + 32) else c)"

definition to_ascii_lowercase :: "string \<Rightarrow> string" where
  "to_ascii_lowercase s = map ascii_lower_char s"

definition eq_ignore_ascii_case :: "string \<Rightarrow> string \<Rightarrow> bool" where
  "eq_ignore_ascii_case a b \<longleftrightarrow> to_ascii_lowercase a = to_ascii_lowercase b"

lemma byte_val_char_of [simp]: "n < 256 \<Longrightarrow> byte_val (char_of n) = n"
  by (simp add: byte_val_def)

lemma ascii_lower_char_idem [simp]: "ascii_lower_char (ascii_lower_char c) = ascii_lower_char c"
  by (auto simp: ascii_lower_char_def is_ascii_upper_def)

lemma to_ascii_lowercase_idem [str_simps]:
  "to_ascii_lowercase (to_ascii_lowercase s) = to_ascii_lowercase s"
  by (simp add: to_ascii_lowercase_def)

lemma length_to_ascii_lowercase [str_simps]: "length (to_ascii_lowercase s) = length s"
  by (simp add: to_ascii_lowercase_def)

lemma to_ascii_lowercase_append [str_simps]:
  "to_ascii_lowercase (a @ b) = to_ascii_lowercase a @ to_ascii_lowercase b"
  by (simp add: to_ascii_lowercase_def)

lemma eq_ignore_ascii_case_refl [simp]: "eq_ignore_ascii_case s s"
  by (simp add: eq_ignore_ascii_case_def)

lemma eq_ignore_ascii_case_sym: "eq_ignore_ascii_case a b \<longleftrightarrow> eq_ignore_ascii_case b a"
  by (auto simp: eq_ignore_ascii_case_def)

section \<open>Pieces\<close>

text \<open>\<open>str::split\<close> on an ASCII character: always at least one piece.\<close>

fun split_on :: "char \<Rightarrow> string \<Rightarrow> string list" where
  "split_on d [] = [[]]"
| "split_on d (c # cs) =
     (if c = d then [] # split_on d cs
      else (case split_on d cs of [] \<Rightarrow> [[c]] | p # ps \<Rightarrow> (c # p) # ps))"

lemma split_on_neq_Nil [simp]: "split_on d s \<noteq> []"
  by (induction s) (auto split: list.splits)

definition starts_with :: "string \<Rightarrow> string \<Rightarrow> bool" where
  "starts_with s p \<longleftrightarrow> take (length p) s = p"

definition ends_with :: "string \<Rightarrow> string \<Rightarrow> bool" where
  "ends_with s p \<longleftrightarrow> length p \<le> length s \<and> drop (length s - length p) s = p"

lemma ends_with_iff: "ends_with s p \<longleftrightarrow> (\<exists>r. s = r @ p)"
  by (auto simp: ends_with_def) (metis append_take_drop_id)

lemma starts_with_iff: "starts_with s p \<longleftrightarrow> (\<exists>r. s = p @ r)"
  by (auto simp: starts_with_def) (metis append_take_drop_id)

text \<open>\<open>join\<close> of string slices.\<close>

fun str_join :: "string \<Rightarrow> string list \<Rightarrow> string" where
  "str_join sep [] = []"
| "str_join sep [s] = s"
| "str_join sep (s # ss) = s @ sep @ str_join sep ss"

lemma str_join_split_on: "str_join [d] (split_on d s) = s"
proof (induction s)
  case Nil
  then show ?case by simp
next
  case (Cons c cs)
  show ?case
  proof (cases "split_on d cs")
    case Nil
    then show ?thesis by simp
  next
    case (Cons p ps)
    with \<open>str_join [d] (split_on d cs) = cs\<close> show ?thesis by (cases ps) auto
  qed
qed

section \<open>UTF-8\<close>

text \<open>
  One decoding step: \<open>(Some cp, n)\<close> when the input starts with the \<open>n\<close>-byte encoding of the
  scalar value \<open>cp\<close>, and \<open>(None, n)\<close> when it starts with an ill-formed sequence whose maximal
  subpart has \<open>n\<close> bytes (overlong forms, surrogates and values above 10FFFF are ill-formed).
\<close>

definition cont_byte :: "nat \<Rightarrow> bool" where
  "cont_byte b \<longleftrightarrow> 128 \<le> b \<and> b < 192"

definition second_ok :: "nat \<Rightarrow> nat \<Rightarrow> bool" where
  "second_ok b c \<longleftrightarrow> cont_byte c \<and> (b = 224 \<longrightarrow> 160 \<le> c) \<and> (b = 237 \<longrightarrow> c < 160)
     \<and> (b = 240 \<longrightarrow> 144 \<le> c) \<and> (b = 244 \<longrightarrow> c < 144)"

fun utf8_step :: "nat list \<Rightarrow> nat option \<times> nat" where
  "utf8_step [] = (None, 0)"
| "utf8_step (b # bs) =
     (if b < 128 then (Some b, 1)
      else if 194 \<le> b \<and> b < 224 then
        (case bs of c # _ \<Rightarrow> if cont_byte c then (Some ((b - 192) * 64 + (c - 128)), 2) else (None, 1)
         | [] \<Rightarrow> (None, 1))
      else if 224 \<le> b \<and> b < 240 then
        (case bs of
           c # d # _ \<Rightarrow>
             if \<not> second_ok b c then (None, 1)
             else if cont_byte d then
               (Some ((b - 224) * 4096 + (c - 128) * 64 + (d - 128)), 3)
             else (None, 2)
         | [c] \<Rightarrow> if second_ok b c then (None, 2) else (None, 1)
         | [] \<Rightarrow> (None, 1))
      else if 240 \<le> b \<and> b < 245 then
        (case bs of
           c # d # e # _ \<Rightarrow>
             if \<not> second_ok b c then (None, 1)
             else if \<not> cont_byte d then (None, 2)
             else if cont_byte e then
               (Some ((b - 240) * 262144 + (c - 128) * 4096 + (d - 128) * 64 + (e - 128)), 4)
             else (None, 3)
         | [c, d] \<Rightarrow>
             if \<not> second_ok b c then (None, 1) else if cont_byte d then (None, 3) else (None, 2)
         | [c] \<Rightarrow> if second_ok b c then (None, 2) else (None, 1)
         | [] \<Rightarrow> (None, 1))
      else (None, 1))"

lemma utf8_step_pos: "bs \<noteq> [] \<Longrightarrow> 0 < snd (utf8_step bs)"
  by (cases bs) (auto split: list.splits)

lemma utf8_step_le: "snd (utf8_step bs) \<le> length bs"
  by (cases bs) (auto split: list.splits)

function utf8_chunks :: "nat list \<Rightarrow> nat option list" where
  "utf8_chunks bs =
     (if bs = [] then [] else fst (utf8_step bs) # utf8_chunks (drop (snd (utf8_step bs)) bs))"
  by pat_completeness auto
termination
proof (relation "measure length")
  fix bs :: "nat list"
  assume "bs \<noteq> []"
  then show "(drop (snd (utf8_step bs)) bs, bs) \<in> measure length"
    using utf8_step_pos [of bs] by (cases bs) auto
qed simp

declare utf8_chunks.simps [simp del]

lemma utf8_chunks_Nil [simp]: "utf8_chunks [] = []"
  by (simp add: utf8_chunks.simps)

fun utf8_encode :: "nat \<Rightarrow> nat list" where
  "utf8_encode cp =
     (if cp < 128 then [cp]
      else if cp < 2048 then [192 + cp div 64, 128 + cp mod 64]
      else if cp < 65536 then [224 + cp div 4096, 128 + cp div 64 mod 64, 128 + cp mod 64]
      else [240 + cp div 262144, 128 + cp div 4096 mod 64, 128 + cp div 64 mod 64, 128 + cp mod 64])"

declare utf8_encode.simps [simp del]

definition str_bytes :: "string \<Rightarrow> nat list" where "str_bytes s = map byte_val s"
definition bytes_str :: "nat list \<Rightarrow> string" where "bytes_str bs = map char_of bs"

text \<open>Between byte vectors and strings.\<close>

definition bytes_to_str :: "u8 list \<Rightarrow> string" where "bytes_to_str bs = map (\<lambda>b. char_of (unat b)) bs"

definition str_to_bytes :: "string \<Rightarrow> u8 list" where "str_to_bytes s = map (\<lambda>c. word_of_nat (byte_val c)) s"

lemma length_str_to_bytes [simp]: "length (str_to_bytes s) = length s"
  by (simp add: str_to_bytes_def)

definition chars_str :: "nat list \<Rightarrow> string" where
  "chars_str cps = bytes_str (concat (map utf8_encode cps))"

definition is_utf8 :: "string \<Rightarrow> bool" where
  "is_utf8 s \<longleftrightarrow> None \<notin> set (utf8_chunks (str_bytes s))"

text \<open>\<open>str::chars\<close>: an ill-formed part, which a Rust \<open>str\<close> cannot hold, reads as U+FFFD.\<close>

definition str_chars :: "string \<Rightarrow> nat list" where
  "str_chars s = map (\<lambda>x. case x of None \<Rightarrow> 65533 | Some cp \<Rightarrow> cp) (utf8_chunks (str_bytes s))"

definition from_utf8_lossy :: "string \<Rightarrow> string" where
  "from_utf8_lossy s = chars_str (str_chars s)"

text \<open>\<open>s.chars().take(n).collect()\<close>.\<close>

definition str_take_chars :: "nat \<Rightarrow> string \<Rightarrow> string" where
  "str_take_chars n s = chars_str (take n (str_chars s))"

text \<open>\<open>char::is_whitespace\<close> (Unicode White\_Space) and emptiness after \<open>trim()\<close>.\<close>

definition is_unicode_whitespace :: "nat \<Rightarrow> bool" where
  "is_unicode_whitespace cp \<longleftrightarrow>
     (9 \<le> cp \<and> cp \<le> 13) \<or> cp = 32 \<or> cp = 133 \<or> cp = 160 \<or> cp = 5760 \<or> (8192 \<le> cp \<and> cp \<le> 8202)
     \<or> cp = 8232 \<or> cp = 8233 \<or> cp = 8239 \<or> cp = 8287 \<or> cp = 12288"

definition trim_is_empty :: "string \<Rightarrow> bool" where
  "trim_is_empty s \<longleftrightarrow> list_all is_unicode_whitespace (str_chars s)"

text \<open>Encoding a scalar value and decoding it again: the step reads back exactly that value.\<close>

definition is_scalar :: "nat \<Rightarrow> bool" where
  "is_scalar cp \<longleftrightarrow> cp < 55296 \<or> (57344 \<le> cp \<and> cp < 1114112)"

lemma utf8_step_encode2:
  "\<not> cp < 128 \<Longrightarrow> cp < 2048 \<Longrightarrow> utf8_step (utf8_encode cp @ r) = (Some cp, 2)"
proof -
  assume "\<not> cp < 128" "cp < 2048"
  then have "2 \<le> cp div 64" "cp div 64 < 32" by auto
  then show ?thesis using \<open>\<not> cp < 128\<close> \<open>cp < 2048\<close>
    by (simp add: utf8_encode.simps cont_byte_def)
qed

lemma div_64_64: "n div 64 div 64 = n div 4096" for n :: nat
  by (simp add: div_mult2_eq [of n 64 64, simplified])

lemma div_4096_64: "n div 4096 div 64 = n div 262144" for n :: nat
  by (simp add: div_mult2_eq [of n 4096 64, simplified])

lemma div_mod_64: "n = n div 64 * 64 + n mod 64" for n :: nat
  by simp

lemma quotient_bound: "q = h * 64 + r \<Longrightarrow> h = k \<Longrightarrow> q < u \<Longrightarrow> r < u - k * 64" for q h r k u :: nat
  by simp

lemma radix_sum:
  "n = a * 64 + f \<Longrightarrow> a = b * 64 + e \<Longrightarrow> b = c * 64 + d
     \<Longrightarrow> c * 262144 + d * 4096 + e * 64 + f = n" for n a b c d e f :: nat
  by simp

lemma utf8_step_encode3:
  assumes "\<not> cp < 2048" "cp < 65536" "is_scalar cp"
  shows "utf8_step (utf8_encode cp @ r) = (Some cp, 3)"
proof -
  have hi: "cp div 4096 < 16" using assms(2) by auto
  have lo0: "cp div 4096 = 0 \<Longrightarrow> 32 \<le> cp div 64 mod 64" using assms(1) by auto
  have "cp div 4096 = 13 \<Longrightarrow> cp < 55296" using assms(3) by (auto simp: is_scalar_def)
  then have sur: "cp div 4096 = 13 \<Longrightarrow> cp div 64 mod 64 < 32"
  proof -
    assume *: "cp div 4096 = 13" "cp div 4096 = 13 \<Longrightarrow> cp < 55296"
    then have "cp div 64 < 864" by auto
    with * show ?thesis
      using quotient_bound [OF div_mod_64 [of "cp div 64"], of 13 864] by (simp add: div_64_64)
  qed
  have sum: "cp div 4096 * 4096 + cp div 64 mod 64 * 64 + cp mod 64 = cp"
    by (metis (no_types) add.assoc div_mult2_eq mod_mult2_eq mult.commute div_mult_mod_eq
        numeral_times_numeral semiring_norm(11) semiring_norm(13))
  show ?thesis using assms hi lo0 sur sum
    by (simp add: utf8_encode.simps cont_byte_def second_ok_def)
qed

lemma utf8_step_encode4:
  assumes "\<not> cp < 65536" "cp < 1114112"
  shows "utf8_step (utf8_encode cp @ r) = (Some cp, 4)"
proof -
  have hi: "cp div 262144 < 5" using assms(2) by auto
  have lo0: "cp div 262144 = 0 \<Longrightarrow> 16 \<le> cp div 4096 mod 64" using assms(1) by auto
  have top: "cp div 262144 = 4 \<Longrightarrow> cp div 4096 mod 64 < 16"
  proof -
    assume *: "cp div 262144 = 4"
    have "cp div 4096 < 272" using assms(2) by auto
    with * show ?thesis
      using quotient_bound [OF div_mod_64 [of "cp div 4096"], of 4 272] by (simp add: div_4096_64)
  qed
  have sum: "cp div 262144 * 262144 + cp div 4096 mod 64 * 4096 + cp div 64 mod 64 * 64 + cp mod 64 = cp"
    by (rule radix_sum [OF div_mod_64 div_mod_64 [of "cp div 64", unfolded div_64_64]
          div_mod_64 [of "cp div 4096", unfolded div_4096_64]])
  show ?thesis using assms hi lo0 top sum
    by (simp add: utf8_encode.simps cont_byte_def second_ok_def)
qed

lemma utf8_step_encode:
  assumes "is_scalar cp"
  shows "utf8_step (utf8_encode cp @ r) = (Some cp, length (utf8_encode cp))"
proof -
  consider "cp < 128" | "\<not> cp < 128" "cp < 2048" | "\<not> cp < 2048" "cp < 65536" | "\<not> cp < 65536"
    by linarith
  then show ?thesis
  proof cases
    case 1
    then show ?thesis by (simp add: utf8_encode.simps)
  next
    case 2
    then show ?thesis using utf8_step_encode2 [OF 2] by (simp add: utf8_encode.simps)
  next
    case 3
    then show ?thesis using utf8_step_encode3 [OF 3 assms] by (simp add: utf8_encode.simps)
  next
    case 4
    then show ?thesis using utf8_step_encode4 [OF 4] assms
      by (simp add: utf8_encode.simps is_scalar_def)
  qed
qed

lemma utf8_encode_neq_Nil [simp]: "utf8_encode cp \<noteq> []"
  by (simp add: utf8_encode.simps)

lemma utf8_encode_bytes: "is_scalar cp \<Longrightarrow> b \<in> set (utf8_encode cp) \<Longrightarrow> b < 256"
  by (auto simp: utf8_encode.simps is_scalar_def split: if_splits)

lemma utf8_chunks_encode:
  "list_all is_scalar cps \<Longrightarrow> utf8_chunks (concat (map utf8_encode cps)) = map Some cps"
proof (induction cps)
  case Nil
  then show ?case by simp
next
  case (Cons cp cps)
  then show ?case
    by (subst utf8_chunks.simps) (simp add: utf8_step_encode)
qed

lemma str_bytes_bytes_str: "list_all (\<lambda>b. b < 256) bs \<Longrightarrow> str_bytes (bytes_str bs) = bs"
  by (induction bs) (auto simp: str_bytes_def bytes_str_def)

lemma str_bytes_chars_str:
  "list_all is_scalar cps \<Longrightarrow> str_bytes (chars_str cps) = concat (map utf8_encode cps)"
  unfolding chars_str_def
  by (rule str_bytes_bytes_str) (auto simp: list_all_iff intro: utf8_encode_bytes)

lemma str_chars_chars_str: "list_all is_scalar cps \<Longrightarrow> str_chars (chars_str cps) = cps"
  by (simp add: str_chars_def str_bytes_chars_str utf8_chunks_encode comp_def)

lemma is_utf8_chars_str: "list_all is_scalar cps \<Longrightarrow> is_utf8 (chars_str cps)"
  by (auto simp: is_utf8_def str_bytes_chars_str utf8_chunks_encode)

text \<open>Every value a step decodes is a scalar value, so \<open>str_chars\<close> yields scalar values only.\<close>

lemma second_ok_range: "second_ok b c \<Longrightarrow> 128 \<le> c \<and> c < 192"
  by (simp add: second_ok_def cont_byte_def)

lemma utf8_step_scalar: "fst (utf8_step bs) = Some cp \<Longrightarrow> is_scalar cp"
proof (cases bs)
  case (Cons b r)
  assume eq: "fst (utf8_step bs) = Some cp"
  consider "b < 128" | "194 \<le> b" "b < 224" | "224 \<le> b" "b < 240" | "240 \<le> b" "b < 245"
    | "\<not> b < 128" "b < 194 \<or> 245 \<le> b" by linarith
  then show ?thesis
  proof cases
    case 1
    then show ?thesis using eq Cons by (auto simp: is_scalar_def)
  next
    case 2
    then show ?thesis using eq Cons
      by (auto simp: is_scalar_def cont_byte_def split: list.splits if_splits)
  next
    case 3
    then obtain c d r' where "r = c # d # r'" "second_ok b c" "cont_byte d"
      and cp: "cp = (b - 224) * 4096 + (c - 128) * 64 + (d - 128)"
      using eq Cons by (auto split: list.splits if_splits)
    then show ?thesis using 3
      by (cases "b = 237") (auto simp: is_scalar_def second_ok_def cont_byte_def)
  next
    case 4
    then obtain c d e r' where "r = c # d # e # r'" "second_ok b c" "cont_byte d" "cont_byte e"
      and cp: "cp = (b - 240) * 262144 + (c - 128) * 4096 + (d - 128) * 64 + (e - 128)"
      using eq Cons by (auto split: list.splits if_splits)
    then have "b - 240 \<le> 4" "c - 128 < 64" "d - 128 < 64" "e - 128 < 64"
      "b - 240 = 0 \<Longrightarrow> 16 \<le> c - 128" "b - 240 = 4 \<Longrightarrow> c - 128 < 16"
      using 4 by (auto simp: second_ok_def cont_byte_def)
    then have "65536 \<le> cp" "cp < 1114112" unfolding cp by linarith+
    then show ?thesis by (simp add: is_scalar_def)
  next
    case 5
    then show ?thesis using eq Cons by auto
  qed
qed simp

lemma utf8_chunks_scalar: "Some cp \<in> set (utf8_chunks bs) \<Longrightarrow> is_scalar cp"
proof (induction bs rule: utf8_chunks.induct)
  case (1 bs)
  then show ?case
    by (cases "bs = []") (auto simp: utf8_chunks.simps [of bs] intro: utf8_step_scalar [OF sym])
qed

lemma str_chars_scalar: "list_all is_scalar (str_chars s)"
proof -
  have "is_scalar 65533" by (simp add: is_scalar_def)
  then show ?thesis
    by (auto simp: str_chars_def list_all_iff split: option.splits intro: utf8_chunks_scalar)
qed

lemma is_utf8_lossy [str_simps]: "is_utf8 (from_utf8_lossy s)"
  by (simp add: from_utf8_lossy_def is_utf8_chars_str str_chars_scalar)

lemma str_chars_take [str_simps]: "str_chars (str_take_chars n s) = take n (str_chars s)"
proof -
  have "list_all is_scalar (take n (str_chars s))"
    using str_chars_scalar [of s] by (auto simp: list_all_iff dest: in_set_takeD)
  then show ?thesis by (simp add: str_take_chars_def str_chars_chars_str)
qed

lemma str_take_chars_idem [str_simps]: "str_take_chars n (str_take_chars n s) = str_take_chars n s"
  by (simp add: str_take_chars_def [of n "str_take_chars n s"] str_chars_take)
    (simp add: str_take_chars_def)

section \<open>Decimal numbers\<close>

definition digit_char :: "nat \<Rightarrow> char" where "digit_char d = char_of (48 + d)"

fun show_nat :: "nat \<Rightarrow> string" where
  "show_nat n = (if n < 10 then [digit_char n] else show_nat (n div 10) @ [digit_char (n mod 10)])"

declare show_nat.simps [simp del]

fun read_nat :: "string \<Rightarrow> nat \<Rightarrow> nat" where
  "read_nat [] acc = acc"
| "read_nat (c # cs) acc = read_nat cs (10 * acc + (byte_val c - 48))"

lemma read_nat_append: "read_nat (a @ b) acc = read_nat b (read_nat a acc)"
  by (induction a arbitrary: acc) auto

lemma read_show_nat: "read_nat (show_nat n) 0 = n"
proof (induction n rule: show_nat.induct)
  case (1 n)
  then show ?case
    by (cases "n < 10") (auto simp: show_nat.simps [of n] read_nat_append digit_char_def)
qed

lemma show_nat_inj [simp]: "show_nat a = show_nat b \<longleftrightarrow> a = b"
  by (metis read_show_nat)

lemma show_nat_neq_Nil [simp]: "show_nat n \<noteq> []"
  by (simp add: show_nat.simps)

lemma digit_char_is_digit: "d < 10 \<Longrightarrow> is_ascii_digit (digit_char d)"
  by (simp add: is_ascii_digit_def digit_char_def)

lemma show_nat_digits: "list_all is_ascii_digit (show_nat n)"
proof (induction n rule: show_nat.induct)
  case (1 n)
  then show ?case
    by (cases "n < 10") (auto simp: show_nat.simps [of n] digit_char_is_digit)
qed

end
