(* ===== verification/Playlist.thy ===== *)
theory Playlist
  imports Rust_Strings
begin

unbundle bit_operations_syntax

text \<open>
  \<open>crates/kwe-core/src/playlist.rs\<close>: playlists, their validation and editing operations, the choice
  of the next entry, and the playlist store with its atomic save. \<open>serde\_json\<close> is a parameter
  (\<open>ser\<close>, \<open>parse\<close>); the file system is a directory map together with the outcome of each call.
\<close>

section \<open>Data\<close>

definition max_entries :: nat where "max_entries = 1024"
definition max_playlists :: nat where "max_playlists = 256"
definition max_store_bytes :: nat where "max_store_bytes = 4 * 1024 * 1024"
definition min_duration_seconds :: u32 where "min_duration_seconds = 10"
definition max_duration_seconds :: u32 where "max_duration_seconds = 24 * 60 * 60"
definition default_duration_seconds :: u32 where "default_duration_seconds = 5 * 60"
definition max_transition_seconds :: u8 where "max_transition_seconds = 10"

lemmas playlist_limits =
  max_entries_def max_playlists_def max_store_bytes_def min_duration_seconds_def
  max_duration_seconds_def default_duration_seconds_def max_transition_seconds_def

datatype playlist_transition = NoTransition | Crossfade

record playlist =
  pl_id :: string
  pl_title :: string
  pl_entries :: "string list"
  pl_shuffle :: bool
  pl_repeat :: bool
  pl_duration_seconds :: u32
  pl_transition :: playlist_transition
  pl_transition_seconds :: u8

datatype playlist_error =
    InvalidIdentity | EntryLimit | InvalidEntries | InvalidTiming
  | InvalidWallpaperId | DurationBounds | TransitionBounds | DisabledTransition
  | StoreTooLarge | TooManyPlaylists | DuplicateIdentity | StoreIo | StoreParse

section \<open>Validation\<close>

text \<open>The loop of \<open>validate\<close> over the entries, with the set of entries already seen.\<close>

fun check_entries :: "string list \<Rightarrow> string list \<Rightarrow> (playlist_error, unit) result" where
  "check_entries seen [] = Inr ()"
| "check_entries seen (e # es) =
     (if e = [] \<or> 128 < length e \<or> e \<in> set seen then Inl InvalidEntries
      else check_entries (e # seen) es)"

definition playlist_validate :: "playlist \<Rightarrow> (playlist_error, unit) result" where
  "playlist_validate p =
     (if pl_id p = [] \<or> 128 < length (pl_id p) \<or> trim_is_empty (pl_title p)
          \<or> 256 < length (str_chars (pl_title p)) then Inl InvalidIdentity
      else if max_entries < length (pl_entries p) then Inl EntryLimit
      else rbind (check_entries [] (pl_entries p)) (\<lambda>_.
        if \<not> (min_duration_seconds \<le> pl_duration_seconds p \<and> pl_duration_seconds p \<le> max_duration_seconds)
            \<or> max_transition_seconds < pl_transition_seconds p
            \<or> (pl_transition p = NoTransition \<and> pl_transition_seconds p \<noteq> 0)
        then Inl InvalidTiming else Inr ()))"

definition entry_ok :: "string \<Rightarrow> bool" where
  "entry_ok e \<longleftrightarrow> e \<noteq> [] \<and> length e \<le> 128"

definition playlist_ok :: "playlist \<Rightarrow> bool" where
  "playlist_ok p \<longleftrightarrow>
     entry_ok (pl_id p) \<and> \<not> trim_is_empty (pl_title p) \<and> length (str_chars (pl_title p)) \<le> 256
     \<and> length (pl_entries p) \<le> max_entries \<and> list_all entry_ok (pl_entries p) \<and> distinct (pl_entries p)
     \<and> min_duration_seconds \<le> pl_duration_seconds p \<and> pl_duration_seconds p \<le> max_duration_seconds
     \<and> pl_transition_seconds p \<le> max_transition_seconds
     \<and> (pl_transition p = NoTransition \<longrightarrow> pl_transition_seconds p = 0)"

lemma check_entries_iff:
  "check_entries seen es = Inr () \<longleftrightarrow> list_all entry_ok es \<and> distinct es \<and> set es \<inter> set seen = {}"
  by (induction es arbitrary: seen) (auto simp: entry_ok_def)

lemma check_entries_err: "check_entries seen es = Inl e \<Longrightarrow> e = InvalidEntries"
  by (induction es arbitrary: seen) (auto split: if_splits)

text \<open>
  \<open>Playlist::validate\<close> accepts exactly the playlists within the bounds: identity of 1 to 128
  bytes, a title that is not blank and has at most 256 characters, at most 1024 distinct entries of
  1 to 128 bytes, a duration of 10 s to 24 h, and a transition of at most 10 s, zero when disabled.
\<close>

theorem playlist_validate_correct: "playlist_validate p = Inr () \<longleftrightarrow> playlist_ok p"
  by (auto simp: playlist_validate_def playlist_ok_def entry_ok_def [of "pl_id p"] check_entries_iff
      result_simps not_le not_less)

lemma playlist_validate_ok: "playlist_validate p = Inr u \<Longrightarrow> playlist_ok p"
  by (auto simp: playlist_validate_def playlist_ok_def entry_ok_def [of "pl_id p"] check_entries_iff
      result_simps not_le not_less split: if_splits)

lemma playlist_ok_validate: "playlist_ok p \<Longrightarrow> playlist_validate p = Inr ()"
  by (auto simp: playlist_validate_def playlist_ok_def entry_ok_def [of "pl_id p"] check_entries_iff
      result_simps not_le not_less)

section \<open>Editing\<close>

definition playlist_new :: "string \<Rightarrow> string \<Rightarrow> (playlist_error, playlist) result" where
  "playlist_new ident title =
     (if ident = [] \<or> 128 < length ident \<or> trim_is_empty title then Inl InvalidIdentity
      else Inr \<lparr>pl_id = ident, pl_title = str_take_chars 256 title, pl_entries = [],
                pl_shuffle = False, pl_repeat = True, pl_duration_seconds = default_duration_seconds,
                pl_transition = NoTransition, pl_transition_seconds = 0\<rparr>)"

definition playlist_add :: "playlist \<Rightarrow> string \<Rightarrow> (playlist_error, playlist) result" where
  "playlist_add p wid =
     (if wid = [] \<or> 128 < length wid then Inl InvalidWallpaperId
      else if wid \<in> set (pl_entries p) then Inr p
      else if max_entries \<le> length (pl_entries p) then Inl EntryLimit
      else Inr (p\<lparr>pl_entries := pl_entries p @ [wid]\<rparr>))"

definition playlist_set_timing ::
  "playlist \<Rightarrow> u32 \<Rightarrow> playlist_transition \<Rightarrow> u8 \<Rightarrow> (playlist_error, playlist) result" where
  "playlist_set_timing p dur tr secs =
     (if \<not> (min_duration_seconds \<le> dur \<and> dur \<le> max_duration_seconds) then Inl DurationBounds
      else if max_transition_seconds < secs then Inl TransitionBounds
      else if tr = NoTransition \<and> secs \<noteq> 0 then Inl DisabledTransition
      else Inr (p\<lparr>pl_duration_seconds := dur, pl_transition := tr, pl_transition_seconds := secs\<rparr>))"

text \<open>
  the editing operations keep a playlist valid: whatever \<open>add\<close> and \<open>set\_timing\<close> return for a
  valid playlist validates again, \<open>add\<close> leaves every earlier entry in place and adds none twice, and
  \<open>set\_timing\<close> leaves the entries alone.
\<close>

theorem playlist_edits_valid:
  assumes "playlist_ok p"
  shows "(\<forall>q. playlist_add p wid = Inr q \<longrightarrow>
            playlist_ok q \<and> set (pl_entries q) = insert wid (set (pl_entries p))
            \<and> take (length (pl_entries p)) (pl_entries q) = pl_entries p)
    \<and> (\<forall>q. playlist_set_timing p dur tr secs = Inr q \<longrightarrow>
            playlist_ok q \<and> pl_entries q = pl_entries p \<and> pl_duration_seconds q = dur)"
  using assms
  by (auto simp: playlist_add_def playlist_set_timing_def playlist_ok_def entry_ok_def
      split: if_splits)

definition sample_playlist :: playlist where
  "sample_playlist = \<lparr>pl_id = ''p'', pl_title = ''x'', pl_entries = [''a'', ''b'', ''c''], pl_shuffle = False,
     pl_repeat = True, pl_duration_seconds = 300, pl_transition = NoTransition, pl_transition_seconds = 0\<rparr>"

lemma title_x: "str_chars ''x'' = [120]"
  by (simp add: str_chars_def str_bytes_def byte_val_def utf8_chunks.simps)

lemma sample_playlist_ok: "playlist_ok sample_playlist"
  by (simp add: playlist_ok_def sample_playlist_def entry_ok_def playlist_limits trim_is_empty_def
      title_x is_unicode_whitespace_def)

lemma playlist_edits_valid_witness:
  "playlist_ok (sample_playlist\<lparr>pl_entries := [''a'', ''b'', ''c'', ''d'']\<rparr>)"
proof -
  have "playlist_add sample_playlist ''d'' = Inr (sample_playlist\<lparr>pl_entries := [''a'', ''b'', ''c'', ''d'']\<rparr>)"
    by (simp add: playlist_add_def sample_playlist_def playlist_limits)
  then show ?thesis
    using playlist_edits_valid [OF sample_playlist_ok, of "''d''" 10 Crossfade 1] by blast
qed

definition blank_title :: string where
  "blank_title = replicate 256 (CHR '' '') @ ''x''"

lemma str_bytes_blank: "str_bytes blank_title = concat (map utf8_encode (replicate 256 32 @ [120]))"
  by (simp add: str_bytes_def blank_title_def byte_val_def utf8_encode.simps)

lemma str_chars_blank: "str_chars blank_title = replicate 256 32 @ [120]"
proof -
  have "list_all is_scalar (replicate 256 32 @ [120])"
    by (simp add: list_all_iff is_scalar_def)
  then show ?thesis
    by (simp only: str_chars_def str_bytes_blank utf8_chunks_encode) (simp add: comp_def)
qed

text \<open>
  \<open>Playlist::new\<close> cuts the title to 256 characters after it tested the whole title for being
  blank; a title of 256 blanks and a letter gives a playlist that \<open>validate\<close> rejects.
\<close>

theorem playlist_new_blank_title:
  "\<exists>p. playlist_new ''a'' blank_title = Inr p \<and> playlist_validate p = Inl InvalidIdentity"
proof -
  have nb: "\<not> trim_is_empty blank_title"
    by (simp add: trim_is_empty_def str_chars_blank is_unicode_whitespace_def)
  have "str_chars (str_take_chars 256 blank_title) = replicate 256 32"
    by (simp add: str_chars_take str_chars_blank)
  then have "trim_is_empty (str_take_chars 256 blank_title)"
    by (simp add: trim_is_empty_def list_all_iff is_unicode_whitespace_def)
  with nb show ?thesis
    by (simp add: playlist_new_def playlist_validate_def)
qed

section \<open>The next entry\<close>

definition is_eligible :: "playlist \<Rightarrow> string list \<Rightarrow> nat \<Rightarrow> bool" where
  "is_eligible p excluded i \<longleftrightarrow> \<not> list_ex (\<lambda>x. x = pl_entries p ! i) (take max_entries excluded)"

definition shuffle_mix :: "u64 \<Rightarrow> u64" where
  "shuffle_mix seed = (seed XOR word_rotl 17 seed) * 0x9E3779B9"

text \<open>The loop over the offsets, with its break when the playlist does not repeat.\<close>

fun scan_offsets :: "bool \<Rightarrow> nat \<Rightarrow> nat \<Rightarrow> (nat \<Rightarrow> bool) \<Rightarrow> nat list \<Rightarrow> nat option" where
  "scan_offsets rep n start elig [] = None"
| "scan_offsets rep n start elig (off # offs) =
     (let unwrapped = usize_sat_add start off in
      if \<not> rep \<and> n \<le> unwrapped then None
      else let i = unwrapped mod n in
        if elig i then Some i else scan_offsets rep n start elig offs)"

definition option_filter :: "('a \<Rightarrow> bool) \<Rightarrow> 'a option \<Rightarrow> 'a option" where
  "option_filter P x = (case x of Some v \<Rightarrow> if P v then Some v else None | None \<Rightarrow> None)"

definition next_eligible_index ::
  "playlist \<Rightarrow> nat option \<Rightarrow> u64 \<Rightarrow> string list \<Rightarrow> nat option" where
  "next_eligible_index p current0 seed excluded =
     (let n = length (pl_entries p) in
      if n = 0 then None
      else let current = option_filter (\<lambda>i. i < n) current0 in
        if pl_shuffle p then
          (let alternatives = filter (\<lambda>i. Some i \<noteq> current \<and> is_eligible p excluded i) [0..<n] in
           if alternatives \<noteq> []
           then Some (alternatives ! (unat (shuffle_mix seed) mod length alternatives))
           else option_filter (\<lambda>i. pl_repeat p \<and> is_eligible p excluded i) current)
        else
          (let start = (case current of None \<Rightarrow> 0 | Some i \<Rightarrow> usize_sat_add i 1) in
           scan_offsets (pl_repeat p) n start (is_eligible p excluded) [0..<n]))"

definition next_index :: "playlist \<Rightarrow> nat \<Rightarrow> u64 \<Rightarrow> nat option" where
  "next_index p current seed = next_eligible_index p (Some current) seed []"

lemma option_filter_Some: "option_filter P x = Some v \<longleftrightarrow> x = Some v \<and> P v"
  by (auto simp: option_filter_def split: option.splits)

lemma option_filter_None: "option_filter P x = None \<longleftrightarrow> (\<forall>v. x = Some v \<longrightarrow> \<not> P v)"
  by (auto simp: option_filter_def split: option.splits)

lemma scan_offsets_Some:
  "scan_offsets rep n start elig offs = Some i \<Longrightarrow> 0 < n \<Longrightarrow> i < n \<and> elig i"
  by (induction offs) (auto simp: Let_def split: if_splits)

text \<open>With repetition the scan fails only when no offset leads to an eligible entry.\<close>

lemma scan_offsets_None_repeat:
  "scan_offsets True n start elig offs = None
     \<longleftrightarrow> (\<forall>off \<in> set offs. \<not> elig (usize_sat_add start off mod n))"
  by (induction offs) (auto simp: Let_def)

lemma scan_offsets_first:
  assumes "scan_offsets rep n start elig offs = Some i"
  shows "\<exists>k < length offs. i = usize_sat_add start (offs ! k) mod n \<and> elig i
           \<and> (\<forall>j < k. \<not> elig (usize_sat_add start (offs ! j) mod n))"
  using assms
proof (induction offs)
  case Nil
  then show ?case by simp
next
  case (Cons off offs)
  show ?case
  proof (cases "elig (usize_sat_add start off mod n)")
    case True
    with Cons.prems show ?thesis by (intro exI [of _ 0]) (auto simp: Let_def split: if_splits)
  next
    case False
    with Cons.prems have "scan_offsets rep n start elig offs = Some i"
      by (auto simp: Let_def split: if_splits)
    with Cons.IH obtain k where k: "k < length offs" "i = usize_sat_add start (offs ! k) mod n" "elig i"
      "\<forall>j < k. \<not> elig (usize_sat_add start (offs ! j) mod n)" by blast
    with False show ?thesis
      by (intro exI [of _ "Suc k"]) (auto simp: less_Suc_eq_0_disj)
  qed
qed

lemma next_eligible_index_sound:
  assumes "next_eligible_index p c seed ex = Some i"
  shows "i < length (pl_entries p)" "is_eligible p ex i"
proof -
  let ?n = "length (pl_entries p)"
  let ?c = "option_filter (\<lambda>i. i < ?n) c"
  have n: "0 < ?n" using assms by (auto simp: next_eligible_index_def Let_def split: if_splits)
  have "i < ?n \<and> is_eligible p ex i"
  proof (cases "pl_shuffle p")
    case False
    with assms n show ?thesis
      by (auto simp: next_eligible_index_def Let_def dest: scan_offsets_Some)
  next
    case True
    define alts where "alts = filter (\<lambda>i. Some i \<noteq> ?c \<and> is_eligible p ex i) [0..<?n]"
    show ?thesis
    proof (cases "alts = []")
      case True
      with assms n \<open>pl_shuffle p\<close> show ?thesis
        by (auto simp: next_eligible_index_def Let_def alts_def option_filter_Some)
    next
      case False
      then have "alts ! (unat (shuffle_mix seed) mod length alts) \<in> set alts" by simp
      moreover have "i = alts ! (unat (shuffle_mix seed) mod length alts)"
        using assms n True False by (simp add: next_eligible_index_def Let_def alts_def)
      ultimately show ?thesis by (simp add: alts_def)
    qed
  qed
  then show "i < ?n" "is_eligible p ex i" by auto
qed

lemma mod_shift_onto:
  assumes "0 < (n :: nat)" "i < n"
  shows "\<exists>off < n. (start + off) mod n = i"
proof -
  have "(start + (i + (n - start mod n)) mod n) mod n = (start mod n + (i + (n - start mod n))) mod n"
    by (simp add: mod_simps)
  also have "start mod n + (i + (n - start mod n)) = i + n"
    using assms mod_less_divisor [of n start] by linarith
  finally show ?thesis
    using assms by (intro exI [of _ "(i + (n - start mod n)) mod n"]) simp
qed

lemma scan_offsets_None_all:
  assumes "0 < n" "n \<le> max_entries" "start \<le> n"
  shows "scan_offsets True n start elig [0..<n] = None \<longleftrightarrow> (\<forall>i < n. \<not> elig i)"
proof -
  have eq: "usize_sat_add start off = start + off" if "off < n" for off
    using that assms by (simp add: usize_sat_add_def usize_max_def max_entries_def)
  have "(\<forall>off < n. \<not> elig ((start + off) mod n)) \<longleftrightarrow> (\<forall>i < n. \<not> elig i)"
    using assms(1) by (metis mod_less_divisor mod_shift_onto)
  then show ?thesis by (simp add: scan_offsets_None_repeat eq Ball_def)
qed

lemma next_eligible_index_None_repeat:
  assumes "pl_repeat p" and "length (pl_entries p) \<le> max_entries"
  shows "next_eligible_index p c seed ex = None \<longleftrightarrow> (\<forall>i < length (pl_entries p). \<not> is_eligible p ex i)"
proof -
  let ?n = "length (pl_entries p)"
  define d where "d = option_filter (\<lambda>i. i < ?n) c"
  have d: "d = None \<or> (\<exists>k < ?n. d = Some k)"
    by (auto simp: d_def option_filter_def split: option.splits)
  show ?thesis
  proof (cases "pl_shuffle p")
    case True
    with assms(1) d show ?thesis
      by (auto simp: next_eligible_index_def Let_def filter_empty_conv option_filter_None
          d_def [symmetric] Ball_def)
  next
    case False
    have "(case d of None \<Rightarrow> 0 | Some i \<Rightarrow> usize_sat_add i 1) \<le> ?n"
      using d by (auto simp: usize_sat_add_def)
    with False assms show ?thesis
      by (auto simp: next_eligible_index_def Let_def scan_offsets_None_all d_def [symmetric])
  qed
qed

lemma next_eligible_index_shuffle_moves:
  assumes "pl_shuffle p" "next_eligible_index p (Some c) seed ex = Some i"
    and "j < length (pl_entries p)" "j \<noteq> c" "is_eligible p ex j"
  shows "i \<noteq> c"
proof -
  let ?n = "length (pl_entries p)"
  define alts where
    "alts = filter (\<lambda>i. Some i \<noteq> option_filter (\<lambda>i. i < ?n) (Some c) \<and> is_eligible p ex i) [0..<?n]"
  have "j \<in> set alts" using assms by (auto simp: alts_def option_filter_def)
  then have ne: "alts \<noteq> []" by auto
  with assms(1-3) have "i = alts ! (unat (shuffle_mix seed) mod length alts)"
    by (auto simp: next_eligible_index_def Let_def alts_def split: if_splits)
  with ne have "i \<in> set alts" by simp
  then show ?thesis by (auto simp: alts_def option_filter_def split: if_splits)
qed

text \<open>
  the choice of the next entry is safe and complete: an index it returns is inside the playlist and
  not excluded; a repeating playlist of at most 1024 entries yields none only when every entry is
  excluded; and shuffle leaves the current entry whenever another entry is eligible.
\<close>

theorem next_eligible_index_correct:
  assumes "length (pl_entries p) \<le> max_entries"
  shows "(\<forall>i. next_eligible_index p c seed ex = Some i \<longrightarrow> i < length (pl_entries p) \<and> is_eligible p ex i)
    \<and> (pl_repeat p \<longrightarrow>
         (next_eligible_index p c seed ex = None
            \<longleftrightarrow> (\<forall>i < length (pl_entries p). \<not> is_eligible p ex i)))
    \<and> (\<forall>i k j. pl_shuffle p \<longrightarrow> c = Some k \<longrightarrow> next_eligible_index p c seed ex = Some i
         \<longrightarrow> j < length (pl_entries p) \<longrightarrow> j \<noteq> k \<longrightarrow> is_eligible p ex j \<longrightarrow> i \<noteq> k)"
  using assms next_eligible_index_sound next_eligible_index_None_repeat
    next_eligible_index_shuffle_moves
  by blast

lemma next_eligible_index_correct_witness:
  "next_eligible_index sample_playlist (Some 2) 0 [''a''] = Some 1 \<and> is_eligible sample_playlist [''a''] 1"
proof -
  have "length (pl_entries sample_playlist) \<le> max_entries"
    by (simp add: sample_playlist_def max_entries_def)
  moreover have "next_eligible_index sample_playlist (Some 2) 0 [''a''] = Some 1"
    by (simp add: next_eligible_index_def sample_playlist_def option_filter_def upt_rec is_eligible_def
        usize_sat_add_def usize_max_def max_entries_def)
  ultimately show ?thesis
    using next_eligible_index_correct [of sample_playlist "Some 2" 0 "[''a'']"] by blast
qed

section \<open>The interface of a selector\<close>

text \<open>
  What the playlist runtime relies on: the selector returns positions inside the playlist, and, for an
  exclusion list that it reads completely (at most 1024 entries), never an excluded entry.
\<close>

locale entry_selector =
  fixes sel :: "playlist \<Rightarrow> nat option \<Rightarrow> u64 \<Rightarrow> string list \<Rightarrow> nat option"
  assumes sel_in_range: "sel p c seed ex = Some i \<Longrightarrow> i < length (pl_entries p)"
    and sel_not_excluded:
      "sel p c seed ex = Some i \<Longrightarrow> length ex \<le> max_entries \<Longrightarrow> pl_entries p ! i \<notin> set ex"
begin

lemma sel_entry: "sel p c seed ex = Some i \<Longrightarrow> pl_entries p ! i \<in> set (pl_entries p)"
  by (simp add: sel_in_range)

lemma sel_avoids:
  assumes "sel p c seed (filter P (pl_entries p)) = Some i" "length (pl_entries p) \<le> max_entries"
  shows "\<not> P (pl_entries p ! i)"
proof -
  have "length (filter P (pl_entries p)) \<le> max_entries"
    using assms(2) length_filter_le [of P "pl_entries p"] by linarith
  then have "pl_entries p ! i \<notin> set (filter P (pl_entries p))"
    using assms(1) sel_not_excluded by blast
  then show ?thesis using sel_in_range [OF assms(1)] by simp
qed

end

interpretation playlist_sel: entry_selector next_eligible_index
proof
  show "next_eligible_index p c seed ex = Some i \<Longrightarrow> i < length (pl_entries p)" for p c seed ex i
    by (rule next_eligible_index_sound)
  show "next_eligible_index p c seed ex = Some i \<Longrightarrow> length ex \<le> max_entries
      \<Longrightarrow> pl_entries p ! i \<notin> set ex" for p c seed ex i
    using next_eligible_index_sound(2) [of p c seed ex i] by (auto simp: is_eligible_def list_ex_iff)
qed

section \<open>The store\<close>

text \<open>
  The directory that holds the store is a map from file names to contents. \<open>save_io\<close> is the outcome
  of each file system call of one save (\<open>sio_written = Some k\<close>: the write failed after \<open>k\<close> bytes);
  \<open>removable\<close> says which stale files the best-effort clean-up manages to delete.
\<close>

type_synonym directory = "string \<rightharpoonup> u8 list"

record save_io =
  sio_mkdir :: bool
  sio_open :: bool
  sio_written :: "nat option"
  sio_sync :: bool
  sio_rename :: bool
  sio_removable :: "string \<Rightarrow> bool"

datatype file_read = ReadNotFound | ReadFailed | ReadBytes "u8 list"

text \<open>\<open>Path::file\_stem\<close> and \<open>Path::with\_extension\<close> on a file name.\<close>

fun last_dot :: "string \<Rightarrow> nat \<Rightarrow> nat option" where
  "last_dot [] i = None"
| "last_dot (c # cs) i =
     (case last_dot cs (Suc i) of Some j \<Rightarrow> Some j | None \<Rightarrow> if c = CHR ''.'' then Some i else None)"

definition file_stem :: "string \<Rightarrow> string" where
  "file_stem name =
     (case last_dot name 0 of Some (Suc i) \<Rightarrow> take (Suc i) name | _ \<Rightarrow> name)"

definition temporary_name :: "string \<Rightarrow> nat \<Rightarrow> string" where
  "temporary_name name pid = file_stem name @ ''.tmp-'' @ show_nat pid"

fun check_playlists :: "string list \<Rightarrow> playlist list \<Rightarrow> (playlist_error, unit) result" where
  "check_playlists ids [] = Inr ()"
| "check_playlists ids (p # ps) =
     rbind (playlist_validate p) (\<lambda>_.
       if pl_id p \<in> set ids then Inl DuplicateIdentity else check_playlists (pl_id p # ids) ps)"

definition store_load ::
  "(u8 list \<Rightarrow> playlist list option) \<Rightarrow> file_read \<Rightarrow> (playlist_error, playlist list) result" where
  "store_load parse rd =
     (case rd of
        ReadNotFound \<Rightarrow> Inr []
      | ReadFailed \<Rightarrow> Inl StoreIo
      | ReadBytes bytes \<Rightarrow>
          if max_store_bytes < length bytes then Inl StoreTooLarge
          else rbind (ok_or (parse bytes) StoreParse) (\<lambda>ps.
            if max_playlists < length ps then Inl TooManyPlaylists
            else rbind (check_playlists [] ps) (\<lambda>_. Inr ps)))"

definition remove_stale_temporaries :: "(string \<Rightarrow> bool) \<Rightarrow> string \<Rightarrow> directory \<Rightarrow> directory" where
  "remove_stale_temporaries removable name dir =
     (\<lambda>f. if starts_with f (file_stem name @ ''.tmp-'') \<and> f \<noteq> name \<and> removable f then None else dir f)"

definition store_save ::
  "(playlist list \<Rightarrow> u8 list) \<Rightarrow> string \<Rightarrow> nat \<Rightarrow> save_io \<Rightarrow> playlist list \<Rightarrow> directory
     \<Rightarrow> (playlist_error, unit) result \<times> directory" where
  "store_save ser name pid sio ps dir =
     (if max_playlists < length ps then (Inl TooManyPlaylists, dir)
      else case check_playlists [] ps of
        Inl e \<Rightarrow> (Inl e, dir)
      | Inr _ \<Rightarrow>
          (let bytes = ser ps; temporary = temporary_name name pid in
           if max_store_bytes < length bytes then (Inl StoreTooLarge, dir)
           else if \<not> sio_mkdir sio then (Inl StoreIo, dir)
           else if \<not> sio_open sio then (Inl StoreIo, dir)
           else case sio_written sio of
             Some k \<Rightarrow> (Inl StoreIo, dir(temporary \<mapsto> take k bytes))
           | None \<Rightarrow>
               (let dir1 = dir(temporary \<mapsto> bytes) in
                if \<not> sio_sync sio then (Inl StoreIo, dir1)
                else if \<not> sio_rename sio then (Inl StoreIo, dir1)
                else (Inr (), remove_stale_temporaries (sio_removable sio) name
                                (dir1(temporary := None, name \<mapsto> bytes))))))"

lemma check_playlists_iff:
  "check_playlists ids ps = Inr ()
     \<longleftrightarrow> list_all playlist_ok ps \<and> distinct (map pl_id ps) \<and> set (map pl_id ps) \<inter> set ids = {}"
  by (induction ps arbitrary: ids) (auto simp: result_simps playlist_ok_validate dest: playlist_validate_ok)

text \<open>
  a save is all or nothing for the store file, whichever file system call fails (an interrupted
  write included): on an error the store's own file is what it was, and on success it holds the
  serialised playlists, which were all valid with distinct identities.
\<close>

theorem store_save_atomic:
  assumes "temporary_name name pid \<noteq> name" and "store_save ser name pid sio ps dir = (r, dir')"
  shows "(is_ok r \<longrightarrow> dir' name = Some (ser ps) \<and> list_all playlist_ok ps \<and> distinct (map pl_id ps))
    \<and> (\<not> is_ok r \<longrightarrow> dir' name = dir name)"
proof (cases "check_playlists [] ps")
  case (Inl e)
  then have "store_save ser name pid sio ps dir = (Inl (if max_playlists < length ps then TooManyPlaylists else e), dir)"
    by (simp add: store_save_def)
  with assms(2) show ?thesis by auto
next
  case (Inr u)
  then have ok: "list_all playlist_ok ps \<and> distinct (map pl_id ps)"
    using check_playlists_iff [of "[]" ps] by simp
  have "(r, dir') = store_save ser name pid sio ps dir" using assms(2) by simp
  also have "\<dots> =
     (if max_playlists < length ps then (Inl TooManyPlaylists, dir)
      else if max_store_bytes < length (ser ps) then (Inl StoreTooLarge, dir)
      else if \<not> sio_mkdir sio \<or> \<not> sio_open sio then (Inl StoreIo, dir)
      else case sio_written sio of
        Some k \<Rightarrow> (Inl StoreIo, dir(temporary_name name pid \<mapsto> take k (ser ps)))
      | None \<Rightarrow>
          if \<not> sio_sync sio \<or> \<not> sio_rename sio
          then (Inl StoreIo, dir(temporary_name name pid \<mapsto> ser ps))
          else (Inr (), remove_stale_temporaries (sio_removable sio) name
                          (dir(temporary_name name pid := None, name \<mapsto> ser ps))))"
    using Inr by (simp add: store_save_def Let_def split: option.splits)
  finally show ?thesis using ok assms(1)
    by (auto simp: remove_stale_temporaries_def split: if_splits option.splits)
qed

definition sample_save_io :: save_io where
  "sample_save_io = \<lparr>sio_mkdir = True, sio_open = True, sio_written = None, sio_sync = True,
     sio_rename = True, sio_removable = (\<lambda>_. True)\<rparr>"

lemma sample_store_name: "temporary_name ''p.json'' 1 = ''p.tmp-1''"
  by code_simp

lemma sample_store_check: "check_playlists [] [sample_playlist] = Inr ()"
  using check_playlists_iff [of "[]" "[sample_playlist]"] sample_playlist_ok by simp

lemma sample_store_validate: "playlist_validate sample_playlist = Inr ()"
  by (rule playlist_ok_validate [OF sample_playlist_ok])

lemma store_save_atomic_witness:
  "snd (store_save (\<lambda>_. [1, 2]) ''p.json'' 1 (sample_save_io\<lparr>sio_written := Some 1\<rparr>)
     [sample_playlist] [''p.json'' \<mapsto> [9]]) ''p.json'' = Some [9]"
proof -
  let ?out = "store_save (\<lambda>_. [1, 2]) ''p.json'' 1 (sample_save_io\<lparr>sio_written := Some 1\<rparr>)
     [sample_playlist] [''p.json'' \<mapsto> [9]]"
  have nok: "\<not> is_ok (fst ?out)"
    by (simp add: store_save_def sample_store_validate sample_save_io_def playlist_limits Let_def)
  have ne: "temporary_name ''p.json'' 1 \<noteq> ''p.json''" by (simp only: sample_store_name) simp
  have "snd ?out ''p.json'' = [''p.json'' \<mapsto> [9]] ''p.json''"
    using nok store_save_atomic [OF ne surjective_pairing] by blast
  then show ?thesis by simp
qed

text \<open>
  what a save wrote loads again: when the parser inverts the serialiser on these playlists, a
  successful save followed by a load returns the same playlists.
\<close>

theorem store_round_trip:
  assumes "temporary_name name pid \<noteq> name" and "parse (ser ps) = Some ps"
    and "store_save ser name pid sio ps dir = (Inr (), dir')"
  shows "store_load parse (ReadBytes (the (dir' name))) = Inr ps"
  using assms
  by (auto simp: store_save_def store_load_def Let_def remove_stale_temporaries_def
      split: if_splits sum.splits option.splits)

lemma store_round_trip_witness:
  "store_load (\<lambda>_. Some [sample_playlist]) (ReadBytes (the (snd (store_save (\<lambda>_. [1, 2]) ''p.json'' 1
     sample_save_io [sample_playlist] Map.empty) ''p.json''))) = Inr [sample_playlist]"
proof -
  let ?out = "store_save (\<lambda>_. [1, 2]) ''p.json'' 1 sample_save_io [sample_playlist] Map.empty"
  have "?out = (Inr (), snd ?out)"
    by (simp add: store_save_def sample_store_validate sample_save_io_def playlist_limits Let_def)
  then show ?thesis
    using store_round_trip [of "''p.json''" 1 "\<lambda>_. Some [sample_playlist]" "\<lambda>_. [1, 2]"] sample_store_name
    by fastforce
qed

end
