(* ===== verification/Playlist_Runtime.thy ===== *)
theory Playlist_Runtime
  imports Playlist
begin

text \<open>
  \<open>crates/kwe-core/src/playlist\_runtime.rs\<close>: the monotonic playlist clock. A runtime holds the
  current entry, its deadline or (while paused) its remaining time, and the history of shown entries;
  a snapshot stores durations only. Times are unsigned 64-bit milliseconds. Indexing the entry list
  out of range is the error \<open>RtPanic\<close>; the theorems show that no operation reaches it.
\<close>

section \<open>Data\<close>

definition max_runtime_entries :: nat where "max_runtime_entries = 1024"
definition snapshot_schema_version :: u32 where "snapshot_schema_version = 1"
definition max_snapshot_remaining_ms :: u64 where "max_snapshot_remaining_ms = 24 * 60 * 60 * 1000"

record runtime_snapshot =
  sn_schema_version :: u32
  sn_playlist_id :: string
  sn_seed :: u64
  sn_current_index :: "nat option"
  sn_current_wallpaper_id :: "string option"
  sn_remaining_ms :: "u64 option"
  sn_paused_remaining_ms :: "u64 option"
  sn_history :: "string list"

datatype rt_decision =
    Started string nat u64
  | Waiting string nat u64
  | Advanced string nat u64
  | Paused string nat u64
  | Exhausted
  | NoEligible

record playlist_runtime =
  rt_current_index :: "nat option"
  rt_current_wallpaper_id :: "string option"
  rt_deadline_ms :: "u64 option"
  rt_paused_remaining_ms :: "u64 option"
  rt_last_now_ms :: "u64 option"
  rt_seed :: u64
  rt_history :: "string list"

datatype rt_error =
    RtPlaylist playlist_error | SnapshotSchema | SnapshotIdentity | SnapshotHistory
  | SnapshotPosition | SnapshotPositionInconsistent | SnapshotTiming | SnapshotTimingBounds
  | SnapshotOtherPlaylist | TimeRegressed | UnavailableBounds | RtPanic

definition history_ok :: "string list \<Rightarrow> bool" where
  "history_ok h \<longleftrightarrow> length h \<le> max_runtime_entries \<and> list_all entry_ok h"

definition snapshot_validate :: "runtime_snapshot \<Rightarrow> (rt_error, unit) result" where
  "snapshot_validate s =
     rbind (fail_if (sn_schema_version s \<noteq> snapshot_schema_version) SnapshotSchema) (\<lambda>_.
     rbind (fail_if (sn_playlist_id s = [] \<or> 128 < length (sn_playlist_id s)) SnapshotIdentity) (\<lambda>_.
     rbind (fail_if (max_runtime_entries < length (sn_history s)
                      \<or> list_ex (\<lambda>e. e = [] \<or> 128 < length e) (sn_history s)) SnapshotHistory) (\<lambda>_.
     rbind (case (sn_current_index s, sn_current_wallpaper_id s) of
              (None, None) \<Rightarrow> Inr ()
            | (Some i, Some w) \<Rightarrow>
                fail_if (max_runtime_entries \<le> i \<or> w = [] \<or> 128 < length w) SnapshotPosition
            | _ \<Rightarrow> Inl SnapshotPositionInconsistent) (\<lambda>_.
     rbind (fail_if ((sn_current_index s \<noteq> None
                        \<and> ((sn_remaining_ms s \<noteq> None) = (sn_paused_remaining_ms s \<noteq> None)))
                      \<or> (sn_current_index s = None
                           \<and> (sn_remaining_ms s \<noteq> None \<or> sn_paused_remaining_ms s \<noteq> None)))
              SnapshotTiming) (\<lambda>_.
     fail_if ((case sn_remaining_ms s of Some r \<Rightarrow> max_snapshot_remaining_ms < r | None \<Rightarrow> False)
              \<or> (case sn_paused_remaining_ms s of Some r \<Rightarrow> max_snapshot_remaining_ms < r | None \<Rightarrow> False))
       SnapshotTimingBounds)))))"

definition rt_new :: "u64 \<Rightarrow> playlist_runtime" where
  "rt_new seed = \<lparr>rt_current_index = None, rt_current_wallpaper_id = None, rt_deadline_ms = None,
     rt_paused_remaining_ms = None, rt_last_now_ms = None, rt_seed = seed, rt_history = []\<rparr>"

definition validate_unavailable :: "string list \<Rightarrow> (rt_error, unit) result" where
  "validate_unavailable u =
     fail_if (max_runtime_entries < length u \<or> list_ex (\<lambda>e. e = [] \<or> 128 < length e) u) UnavailableBounds"

definition observe_time :: "playlist_runtime \<Rightarrow> u64 \<Rightarrow> (rt_error, playlist_runtime) result" where
  "observe_time rt now =
     (if (case rt_last_now_ms rt of Some previous \<Rightarrow> now < previous | None \<Rightarrow> False) then Inl TimeRegressed
      else Inr (rt\<lparr>rt_last_now_ms := Some now\<rparr>))"

text \<open>\<open>iter().position\<close>.\<close>

fun position_of :: "string \<Rightarrow> string list \<Rightarrow> nat option" where
  "position_of x [] = None"
| "position_of x (y # ys) = (if y = x then Some 0 else map_option Suc (position_of x ys))"

definition clear_current :: "playlist_runtime \<Rightarrow> playlist_runtime" where
  "clear_current rt = rt\<lparr>rt_current_index := None, rt_current_wallpaper_id := None,
     rt_deadline_ms := None, rt_paused_remaining_ms := None\<rparr>"

definition reconcile_current :: "playlist \<Rightarrow> playlist_runtime \<Rightarrow> playlist_runtime" where
  "reconcile_current p rt =
     (case rt_current_wallpaper_id rt of
        None \<Rightarrow> rt\<lparr>rt_current_index := None\<rparr>
      | Some w \<Rightarrow>
          (if (case rt_current_index rt of
                 Some i \<Rightarrow> i < length (pl_entries p) \<and> pl_entries p ! i = w | None \<Rightarrow> False)
           then rt
           else case position_of w (pl_entries p) of
             Some i \<Rightarrow> rt\<lparr>rt_current_index := Some i\<rparr>
           | None \<Rightarrow> clear_current rt))"

definition empty_decision :: "playlist \<Rightarrow> playlist_runtime \<Rightarrow> rt_decision" where
  "empty_decision p rt = (if \<not> pl_repeat p \<and> rt_history rt \<noteq> [] then Exhausted else NoEligible)"

definition entry_at :: "playlist \<Rightarrow> nat \<Rightarrow> (rt_error, string) result" where
  "entry_at p i = (if i < length (pl_entries p) then Inr (pl_entries p ! i) else Inl RtPanic)"

section \<open>Selection\<close>

definition exclusions :: "playlist \<Rightarrow> string list \<Rightarrow> string list \<Rightarrow> string list" where
  "exclusions p unavailable history =
     filter (\<lambda>e. e \<in> set unavailable \<or> (\<not> pl_repeat p \<and> e \<in> set history)) (pl_entries p)"

definition push_history :: "string \<Rightarrow> string list \<Rightarrow> string list" where
  "push_history w h = (let h' = h @ [w] in drop (length h' - max_runtime_entries) h')"

definition entry_deadline :: "playlist \<Rightarrow> u64 \<Rightarrow> u64" where
  "entry_deadline p now = sat_add now (ucast (pl_duration_seconds p) * 1000)"

text \<open>\<open>select\<close>, over the function that picks the entry.\<close>

definition rt_select_with ::
  "(playlist \<Rightarrow> nat option \<Rightarrow> u64 \<Rightarrow> string list \<Rightarrow> nat option)
     \<Rightarrow> playlist \<Rightarrow> u64 \<Rightarrow> string list \<Rightarrow> bool \<Rightarrow> playlist_runtime
     \<Rightarrow> (rt_error, rt_decision) result \<times> playlist_runtime" where
  "rt_select_with sel p now unavailable starting rt =
     (case sel p (rt_current_index rt) (rt_seed rt) (exclusions p unavailable (rt_history rt)) of
        None \<Rightarrow> (let rt' = clear_current rt in (Inr (empty_decision p rt'), rt'))
      | Some i \<Rightarrow>
          (case entry_at p i of
             Inl e \<Rightarrow> (Inl e, rt)
           | Inr w \<Rightarrow>
               (let deadline = entry_deadline p now;
                    rt' = rt\<lparr>rt_seed := rt_seed rt + 1, rt_current_index := Some i,
                             rt_current_wallpaper_id := Some w, rt_deadline_ms := Some deadline,
                             rt_paused_remaining_ms := None, rt_history := push_history w (rt_history rt)\<rparr>
                in (Inr (if starting then Started w i deadline else Advanced w i deadline), rt'))))"

definition rt_select ::
  "playlist \<Rightarrow> u64 \<Rightarrow> string list \<Rightarrow> bool \<Rightarrow> playlist_runtime
     \<Rightarrow> (rt_error, rt_decision) result \<times> playlist_runtime" where
  "rt_select = rt_select_with next_eligible_index"

section \<open>Operations\<close>

definition rt_start ::
  "playlist \<Rightarrow> u64 \<Rightarrow> string list \<Rightarrow> playlist_runtime \<Rightarrow> (rt_error, rt_decision) result \<times> playlist_runtime" where
  "rt_start p now unavailable rt =
     (case map_err RtPlaylist (playlist_validate p) of Inl e \<Rightarrow> (Inl e, rt) | Inr _ \<Rightarrow>
      case validate_unavailable unavailable of Inl e \<Rightarrow> (Inl e, rt) | Inr _ \<Rightarrow>
        rt_select p now unavailable True
          ((clear_current rt)\<lparr>rt_last_now_ms := Some now, rt_history := []\<rparr>))"

definition rt_tick ::
  "playlist \<Rightarrow> u64 \<Rightarrow> string list \<Rightarrow> playlist_runtime \<Rightarrow> (rt_error, rt_decision) result \<times> playlist_runtime" where
  "rt_tick p now unavailable rt0 =
     (case map_err RtPlaylist (playlist_validate p) of Inl e \<Rightarrow> (Inl e, rt0) | Inr _ \<Rightarrow>
      case validate_unavailable unavailable of Inl e \<Rightarrow> (Inl e, rt0) | Inr _ \<Rightarrow>
      case observe_time rt0 now of Inl e \<Rightarrow> (Inl e, rt0) | Inr rt1 \<Rightarrow>
        (let rt = reconcile_current p rt1 in
         case rt_current_index rt of
           None \<Rightarrow> rt_select p now unavailable False rt
         | Some i \<Rightarrow>
             (case entry_at p i of Inl e \<Rightarrow> (Inl e, rt) | Inr w \<Rightarrow>
                (case rt_paused_remaining_ms rt of
                   Some remaining \<Rightarrow> (Inr (Paused w i remaining), rt)
                 | None \<Rightarrow>
                     (case rt_deadline_ms rt of
                        None \<Rightarrow> rt_select p now unavailable False rt
                      | Some deadline \<Rightarrow>
                          if now < deadline \<and> w \<notin> set unavailable
                          then (Inr (Waiting w i (deadline - now)), rt)
                          else rt_select p now unavailable False rt)))))"

definition rt_pause ::
  "playlist \<Rightarrow> u64 \<Rightarrow> playlist_runtime \<Rightarrow> (rt_error, rt_decision) result \<times> playlist_runtime" where
  "rt_pause p now rt0 =
     (case map_err RtPlaylist (playlist_validate p) of Inl e \<Rightarrow> (Inl e, rt0) | Inr _ \<Rightarrow>
      case observe_time rt0 now of Inl e \<Rightarrow> (Inl e, rt0) | Inr rt1 \<Rightarrow>
        (let rt = reconcile_current p rt1 in
         case rt_current_index rt of
           None \<Rightarrow> (Inr (empty_decision p rt), rt)
         | Some i \<Rightarrow>
             (let remaining = (case rt_paused_remaining_ms rt of
                                 Some r \<Rightarrow> r
                               | None \<Rightarrow> sat_sub (case rt_deadline_ms rt of Some d \<Rightarrow> d | None \<Rightarrow> now) now);
                  rt' = rt\<lparr>rt_paused_remaining_ms := Some remaining\<rparr>
              in (case entry_at p i of Inl e \<Rightarrow> (Inl e, rt') | Inr w \<Rightarrow> (Inr (Paused w i remaining), rt')))))"

definition rt_resume ::
  "playlist \<Rightarrow> u64 \<Rightarrow> playlist_runtime \<Rightarrow> (rt_error, rt_decision) result \<times> playlist_runtime" where
  "rt_resume p now rt0 =
     (case map_err RtPlaylist (playlist_validate p) of Inl e \<Rightarrow> (Inl e, rt0) | Inr _ \<Rightarrow>
      case observe_time rt0 now of Inl e \<Rightarrow> (Inl e, rt0) | Inr rt1 \<Rightarrow>
        (let rt = reconcile_current p rt1 in
         case rt_current_index rt of
           None \<Rightarrow> (Inr (empty_decision p rt), rt)
         | Some i \<Rightarrow>
             (let rt' = (case rt_paused_remaining_ms rt of
                           Some r \<Rightarrow> rt\<lparr>rt_paused_remaining_ms := None, rt_deadline_ms := Some (sat_add now r)\<rparr>
                         | None \<Rightarrow> rt);
                  deadline = (case rt_deadline_ms rt' of Some d \<Rightarrow> d | None \<Rightarrow> now)
              in (case entry_at p i of
                    Inl e \<Rightarrow> (Inl e, rt') | Inr w \<Rightarrow> (Inr (Waiting w i (sat_sub deadline now)), rt')))))"

definition rt_snapshot ::
  "playlist \<Rightarrow> u64 \<Rightarrow> playlist_runtime \<Rightarrow> (rt_error, runtime_snapshot) result" where
  "rt_snapshot p now rt =
     rbind (map_err RtPlaylist (playlist_validate p)) (\<lambda>_.
     rbind (fail_if (case rt_last_now_ms rt of Some previous \<Rightarrow> now < previous | None \<Rightarrow> False) TimeRegressed) (\<lambda>_.
       (let timing = (if rt_paused_remaining_ms rt \<noteq> None then (None, rt_paused_remaining_ms rt)
                      else if rt_current_index rt \<noteq> None
                      then (map_option (\<lambda>d. sat_sub d now) (rt_deadline_ms rt), None)
                      else (None, None));
            s = \<lparr>sn_schema_version = snapshot_schema_version, sn_playlist_id = pl_id p, sn_seed = rt_seed rt,
                 sn_current_index = rt_current_index rt, sn_current_wallpaper_id = rt_current_wallpaper_id rt,
                 sn_remaining_ms = fst timing, sn_paused_remaining_ms = snd timing, sn_history = rt_history rt\<rparr>
        in rbind (snapshot_validate s) (\<lambda>_. Inr s))))"

definition rt_restore ::
  "runtime_snapshot \<Rightarrow> playlist \<Rightarrow> u64 \<Rightarrow> playlist_runtime \<Rightarrow> (rt_error, unit) result \<times> playlist_runtime" where
  "rt_restore s p now rt =
     (case snapshot_validate s of Inl e \<Rightarrow> (Inl e, rt) | Inr _ \<Rightarrow>
      case map_err RtPlaylist (playlist_validate p) of Inl e \<Rightarrow> (Inl e, rt) | Inr _ \<Rightarrow>
      if sn_playlist_id s \<noteq> pl_id p then (Inl SnapshotOtherPlaylist, rt)
      else (Inr (), reconcile_current p
              (rt\<lparr>rt_seed := sn_seed s, rt_history := sn_history s, rt_current_index := sn_current_index s,
                  rt_current_wallpaper_id := sn_current_wallpaper_id s,
                  rt_deadline_ms := map_option (sat_add now) (sn_remaining_ms s),
                  rt_paused_remaining_ms := sn_paused_remaining_ms s, rt_last_now_ms := Some now\<rparr>)))"

section \<open>What a selection does\<close>

definition started_state :: "playlist \<Rightarrow> u64 \<Rightarrow> nat \<Rightarrow> playlist_runtime \<Rightarrow> playlist_runtime" where
  "started_state p now i rt = rt\<lparr>rt_seed := rt_seed rt + 1, rt_current_index := Some i,
     rt_current_wallpaper_id := Some (pl_entries p ! i), rt_deadline_ms := Some (entry_deadline p now),
     rt_paused_remaining_ms := None, rt_history := push_history (pl_entries p ! i) (rt_history rt)\<rparr>"

context entry_selector
begin

lemma select_cases:
  assumes "rt_select_with sel p now u st rt = (r, rt')" "playlist_ok p"
  obtains (none) "r = Inr (empty_decision p rt)" "rt' = clear_current rt"
  | (entry) i where "i < length (pl_entries p)" "pl_entries p ! i \<notin> set u"
      "\<not> pl_repeat p \<Longrightarrow> pl_entries p ! i \<notin> set (rt_history rt)"
      "r = Inr ((if st then Started else Advanced) (pl_entries p ! i) i (entry_deadline p now))"
      "rt' = started_state p now i rt"
proof (cases "sel p (rt_current_index rt) (rt_seed rt) (exclusions p u (rt_history rt))")
  case None
  with assms(1) have "r = Inr (empty_decision p rt)" "rt' = clear_current rt"
    by (auto simp: rt_select_with_def Let_def empty_decision_def clear_current_def)
  then show thesis by (rule none)
next
  case (Some i)
  then have lt: "i < length (pl_entries p)" by (rule sel_in_range)
  have "\<not> (pl_entries p ! i \<in> set u \<or> (\<not> pl_repeat p \<and> pl_entries p ! i \<in> set (rt_history rt)))"
    using Some assms(2) unfolding exclusions_def
    by (intro sel_avoids) (auto simp: playlist_ok_def)
  moreover have "r = Inr ((if st then Started else Advanced) (pl_entries p ! i) i (entry_deadline p now))"
    "rt' = started_state p now i rt"
    using assms(1) Some lt
    by (auto simp: rt_select_with_def Let_def entry_at_def started_state_def)
  ultimately show thesis using lt by (intro entry) auto
qed

end

lemmas rt_select_cases =
  playlist_sel.select_cases [folded rt_select_def, consumes 2, case_names none entry]

section \<open>Positions\<close>

lemma position_of_Some: "position_of x ys = Some i \<Longrightarrow> i < length ys \<and> ys ! i = x"
  by (induction ys arbitrary: i) (auto split: if_splits)

lemma position_of_None: "position_of x ys = None \<longleftrightarrow> x \<notin> set ys"
  by (induction ys) auto

lemma position_of_nth: "distinct ys \<Longrightarrow> i < length ys \<Longrightarrow> position_of (ys ! i) ys = Some i"
proof (induction ys arbitrary: i)
  case Nil
  then show ?case by simp
next
  case (Cons y ys)
  then show ?case by (cases i) auto
qed

lemma reconcile_cases:
  obtains (none) "rt_current_index (reconcile_current p rt) = None"
      "reconcile_current p rt = clear_current rt
         \<or> (rt_current_wallpaper_id rt = None \<and> reconcile_current p rt = rt\<lparr>rt_current_index := None\<rparr>)"
  | (some) i where "i < length (pl_entries p)" "rt_current_wallpaper_id rt = Some (pl_entries p ! i)"
      "reconcile_current p rt = rt\<lparr>rt_current_index := Some i\<rparr>"
proof (cases "rt_current_wallpaper_id rt")
  case None
  then show thesis by (intro none) (simp_all add: reconcile_current_def)
next
  case (Some w)
  show thesis
  proof (cases "case rt_current_index rt of
                  Some i \<Rightarrow> i < length (pl_entries p) \<and> pl_entries p ! i = w | None \<Rightarrow> False")
    case True
    then obtain i where i: "rt_current_index rt = Some i" "i < length (pl_entries p)" "pl_entries p ! i = w"
      by (auto split: option.splits)
    then show thesis using Some by (intro some [of i]) (auto simp: reconcile_current_def)
  next
    case False
    show thesis
    proof (cases "position_of w (pl_entries p)")
      case None
      with Some False show thesis
        by (intro none) (auto simp: reconcile_current_def clear_current_def split: option.splits)
    next
      case pos: (Some i)
      then have "i < length (pl_entries p)" "pl_entries p ! i = w" by (auto dest: position_of_Some)
      with Some False pos show thesis
        by (intro some [of i]) (auto simp: reconcile_current_def split: option.splits)
    qed
  qed
qed

section \<open>The runtime invariant\<close>

text \<open>
  A runtime either has no current entry and no timing, or a current entry with a bounded remaining
  time: at most 24 hours, stored directly while paused and as a deadline from the last observed time
  otherwise.
\<close>

definition timing_ok :: "playlist_runtime \<Rightarrow> bool" where
  "timing_ok rt \<longleftrightarrow>
     (case rt_paused_remaining_ms rt of
        Some r \<Rightarrow> r \<le> max_snapshot_remaining_ms
      | None \<Rightarrow>
          (case (rt_deadline_ms rt, rt_last_now_ms rt) of
             (Some d, Some t) \<Rightarrow> unat d \<le> unat t + unat max_snapshot_remaining_ms
           | _ \<Rightarrow> False))"

definition rt_inv :: "playlist_runtime \<Rightarrow> bool" where
  "rt_inv rt \<longleftrightarrow>
     history_ok (rt_history rt)
     \<and> (case (rt_current_index rt, rt_current_wallpaper_id rt) of
          (None, None) \<Rightarrow> rt_deadline_ms rt = None \<and> rt_paused_remaining_ms rt = None
        | (Some i, Some w) \<Rightarrow> i < max_runtime_entries \<and> entry_ok w \<and> timing_ok rt
        | _ \<Rightarrow> False)"

lemma rt_inv_new: "rt_inv (rt_new seed)"
  by (simp add: rt_inv_def rt_new_def history_ok_def)

lemma rt_inv_clear: "rt_inv rt \<Longrightarrow> rt_inv (clear_current rt)"
  by (simp add: rt_inv_def clear_current_def)

lemma max_remaining_unat: "unat max_snapshot_remaining_ms = 86400000"
  by (simp add: max_snapshot_remaining_ms_def)

lemma max_duration_unat: "unat max_duration_seconds = 86400"
  by (simp add: max_duration_seconds_def)

lemma duration_ms:
  assumes "d \<le> max_duration_seconds"
  shows "unat (ucast d * 1000 :: u64) \<le> 86400000"
proof -
  have "unat d \<le> 86400" using assms max_duration_unat by (simp add: word_le_nat_alt)
  moreover have "unat d < 2 ^ 64"
    using unsigned_less [of d, where 'a = nat] by simp
  then have "unat (ucast d :: u64) = unat d"
    by (simp add: unsigned_ucast_eq take_bit_nat_eq_self)
  ultimately show ?thesis by (simp add: unat_word_ariths)
qed

lemma entry_deadline_le:
  assumes "playlist_ok p"
  shows "unat (entry_deadline p now) \<le> unat now + unat max_snapshot_remaining_ms"
proof -
  have "unat (ucast (pl_duration_seconds p) * 1000 :: u64) \<le> 86400000"
    using assms by (intro duration_ms) (simp add: playlist_ok_def)
  then show ?thesis
    by (simp add: entry_deadline_def sat_simps max_remaining_unat)
qed

lemma push_history_ok: "entry_ok w \<Longrightarrow> history_ok h \<Longrightarrow> history_ok (push_history w h)"
  by (auto simp: history_ok_def push_history_def Let_def list_all_iff dest: in_set_dropD)

lemma rt_inv_started:
  assumes "playlist_ok p" "i < length (pl_entries p)" "history_ok (rt_history rt)"
    "rt_last_now_ms rt = Some now"
  shows "rt_inv (started_state p now i rt)"
proof -
  have "entry_ok (pl_entries p ! i)" "i < max_runtime_entries"
    using assms(1,2) by (auto simp: playlist_ok_def list_all_iff max_entries_def max_runtime_entries_def)
  with assms show ?thesis
    by (simp add: rt_inv_def started_state_def push_history_ok timing_ok_def entry_deadline_le)
qed

lemma rt_inv_history: "rt_inv rt \<Longrightarrow> history_ok (rt_history rt)"
  by (simp add: rt_inv_def)

lemma rt_inv_select:
  assumes "rt_select p now u st rt = (r, rt')" "playlist_ok p" "rt_inv rt" "rt_last_now_ms rt = Some now"
  shows "rt_inv rt' \<and> r \<noteq> Inl RtPanic \<and> rt_last_now_ms rt' = Some now"
  using assms(1,2)
proof (cases rule: rt_select_cases)
  case none
  then show ?thesis using assms by (simp add: rt_inv_clear) (simp add: clear_current_def)
next
  case (entry i)
  then show ?thesis using assms
    by (auto simp: rt_inv_started rt_inv_history) (simp add: started_state_def)
qed

lemma rt_inv_reconcile:
  assumes "rt_inv rt" "playlist_ok p"
  shows "rt_inv (reconcile_current p rt)"
  by (cases rule: reconcile_cases [of p rt])
    (use assms in \<open>auto simp: rt_inv_def clear_current_def playlist_ok_def max_entries_def
       max_runtime_entries_def timing_ok_def split: option.splits\<close>)

lemma reconcile_last_now [simp]: "rt_last_now_ms (reconcile_current p rt) = rt_last_now_ms rt"
  by (auto simp: reconcile_current_def clear_current_def split: option.splits)

lemma observe_time_inv:
  assumes "observe_time rt now = Inr rt1" "rt_inv rt"
  shows "rt_inv rt1 \<and> rt_last_now_ms rt1 = Some now \<and> rt1 = rt\<lparr>rt_last_now_ms := Some now\<rparr>
    \<and> (\<forall>t. rt_last_now_ms rt = Some t \<longrightarrow> t \<le> now)"
proof -
  have eq: "rt1 = rt\<lparr>rt_last_now_ms := Some now\<rparr>" and le: "\<And>t. rt_last_now_ms rt = Some t \<Longrightarrow> t \<le> now"
    using assms(1) by (auto simp: observe_time_def not_less split: if_splits option.splits)
  have "timing_ok rt \<Longrightarrow> timing_ok rt1"
    using le by (fastforce simp: timing_ok_def eq word_le_nat_alt split: option.splits)
  then show ?thesis using assms(2) le by (auto simp: rt_inv_def eq split: option.splits)
qed

lemma observe_time_err: "observe_time rt now = Inl e \<Longrightarrow> e = TimeRegressed"
  by (auto simp: observe_time_def split: if_splits)

lemma entry_at_in: "i < length (pl_entries p) \<Longrightarrow> entry_at p i = Inr (pl_entries p ! i)"
  by (simp add: entry_at_def)

lemma validate_cases:
  obtains (err) e where "map_err RtPlaylist (playlist_validate p) = Inl (RtPlaylist e)" "\<not> playlist_ok p"
  | (ok) "map_err RtPlaylist (playlist_validate p) = Inr ()" "playlist_ok p"
proof (cases "playlist_validate p")
  case (Inl e)
  then have "\<not> playlist_ok p" using playlist_ok_validate [of p] by auto
  with Inl show thesis by (intro err) auto
next
  case (Inr u)
  then show thesis by (intro ok) (auto dest: playlist_validate_ok)
qed

lemma unavailable_err: "validate_unavailable u = Inl e \<Longrightarrow> e = UnavailableBounds"
  by (auto simp: validate_unavailable_def result_simps)

section \<open>Runs\<close>

datatype rt_op =
    OpStart playlist u64 "string list"
  | OpTick playlist u64 "string list"
  | OpPause playlist u64
  | OpResume playlist u64
  | OpRestore runtime_snapshot playlist u64

fun rt_step :: "rt_op \<Rightarrow> playlist_runtime \<Rightarrow> (rt_error, rt_decision option) result \<times> playlist_runtime" where
  "rt_step (OpStart p now u) rt = map_prod (map_sum id Some) id (rt_start p now u rt)"
| "rt_step (OpTick p now u) rt = map_prod (map_sum id Some) id (rt_tick p now u rt)"
| "rt_step (OpPause p now) rt = map_prod (map_sum id Some) id (rt_pause p now rt)"
| "rt_step (OpResume p now) rt = map_prod (map_sum id Some) id (rt_resume p now rt)"
| "rt_step (OpRestore s p now) rt = map_prod (map_sum id (\<lambda>_. None)) id (rt_restore s p now rt)"

fun rt_run :: "rt_op list \<Rightarrow> playlist_runtime \<Rightarrow> playlist_runtime" where
  "rt_run [] rt = rt"
| "rt_run (op # ops) rt = rt_run ops (snd (rt_step op rt))"

lemma rt_inv_start:
  assumes "rt_inv rt" "rt_start p now u rt = (r, rt')"
  shows "rt_inv rt' \<and> r \<noteq> Inl RtPanic"
proof (cases p rule: validate_cases)
  case (err e)
  with assms show ?thesis by (auto simp: rt_start_def)
next
  case ok
  let ?rt = "(clear_current rt)\<lparr>rt_last_now_ms := Some now, rt_history := []\<rparr>"
  have inv: "rt_inv ?rt" by (simp add: rt_inv_def clear_current_def history_ok_def)
  show ?thesis
  proof (cases "validate_unavailable u")
    case (Inl e)
    with assms ok show ?thesis by (auto simp: rt_start_def dest: unavailable_err)
  next
    case (Inr v)
    with assms ok have "rt_select p now u True ?rt = (r, rt')" by (simp add: rt_start_def)
    from rt_inv_select [OF this ok(2) inv] show ?thesis by simp
  qed
qed

text \<open>The state in which a tick, a pause or a resume decides: observed time, reconciled position.\<close>

lemma observed_cases:
  assumes "rt_inv rt" "playlist_ok p"
  obtains (late) "observe_time rt now = Inl TimeRegressed"
  | (on_time) rt1 where "observe_time rt now = Inr rt1" "rt_inv (reconcile_current p rt1)"
      "rt_last_now_ms (reconcile_current p rt1) = Some now"
      "\<And>i. rt_current_index (reconcile_current p rt1) = Some i \<Longrightarrow> i < length (pl_entries p)"
proof (cases "observe_time rt now")
  case (Inl e)
  then show thesis using observe_time_err by (intro late) auto
next
  case (Inr rt1)
  then have "rt_inv rt1" "rt_last_now_ms rt1 = Some now" using observe_time_inv assms(1) by auto
  moreover have "rt_current_index (reconcile_current p rt1) = Some i \<Longrightarrow> i < length (pl_entries p)" for i
    by (cases rule: reconcile_cases [of p rt1]) auto
  ultimately show thesis using Inr assms(2) by (intro on_time [of rt1]) (auto simp: rt_inv_reconcile)
qed

lemma rt_inv_tick:
  assumes "rt_inv rt" "rt_tick p now u rt = (r, rt')"
  shows "rt_inv rt' \<and> r \<noteq> Inl RtPanic"
proof (cases p rule: validate_cases)
  case (err e)
  with assms show ?thesis by (auto simp: rt_tick_def)
next
  case ok
  show ?thesis
  proof (cases "validate_unavailable u")
    case (Inl e)
    with assms ok show ?thesis by (auto simp: rt_tick_def dest: unavailable_err)
  next
    case (Inr v)
    from assms(1) ok(2) show ?thesis
    proof (cases rule: observed_cases [of rt p now])
      case late
      with assms ok Inr show ?thesis by (auto simp: rt_tick_def)
    next
      case (on_time rt1)
      let ?rt = "reconcile_current p rt1"
      have sel: "rt_select p now u False ?rt = (r, rt') \<Longrightarrow> ?thesis"
        using rt_inv_select [OF _ ok(2) on_time(2,3)] by blast
      from assms(2) ok Inr on_time(1,4) sel on_time(2) show ?thesis
        by (auto simp: rt_tick_def Let_def entry_at_in split: option.splits if_splits)
    qed
  qed
qed

lemma rt_inv_pause:
  assumes "rt_inv rt" "rt_pause p now rt = (r, rt')"
  shows "rt_inv rt' \<and> r \<noteq> Inl RtPanic"
proof (cases p rule: validate_cases)
  case (err e)
  with assms show ?thesis by (auto simp: rt_pause_def)
next
  case ok
  from assms(1) ok(2) show ?thesis
  proof (cases rule: observed_cases [of rt p now])
    case late
    with assms ok show ?thesis by (auto simp: rt_pause_def)
  next
    case (on_time rt1)
    let ?rt = "reconcile_current p rt1"
    have le: "rt_deadline_ms ?rt = Some d \<Longrightarrow> timing_ok ?rt \<Longrightarrow> rt_paused_remaining_ms ?rt = None
        \<Longrightarrow> sat_sub d now \<le> max_snapshot_remaining_ms" for d
      using on_time(3) by (auto simp: timing_ok_def word_le_nat_alt sat_simps)
    have no: "timing_ok ?rt \<Longrightarrow> rt_paused_remaining_ms ?rt = None \<Longrightarrow> rt_deadline_ms ?rt \<noteq> None"
      by (auto simp: timing_ok_def split: option.splits)
    from assms(2) ok on_time le no show ?thesis
      by (auto simp: rt_pause_def Let_def entry_at_in rt_inv_def timing_ok_def split: option.splits)
  qed
qed

lemma rt_inv_resume:
  assumes "rt_inv rt" "rt_resume p now rt = (r, rt')"
  shows "rt_inv rt' \<and> r \<noteq> Inl RtPanic"
proof (cases p rule: validate_cases)
  case (err e)
  with assms show ?thesis by (auto simp: rt_resume_def)
next
  case ok
  from assms(1) ok(2) show ?thesis
  proof (cases rule: observed_cases [of rt p now])
    case late
    with assms ok show ?thesis by (auto simp: rt_resume_def)
  next
    case (on_time rt1)
    have le: "unat (sat_add now r) \<le> unat now + unat max_snapshot_remaining_ms"
      if "r \<le> max_snapshot_remaining_ms" for r
      using that by (auto simp: sat_simps word_le_nat_alt)
    from assms(2) ok on_time le show ?thesis
      by (auto simp: rt_resume_def Let_def entry_at_in rt_inv_def timing_ok_def split: option.splits)
  qed
qed

lemma snapshot_validate_ok:
  "snapshot_validate s = Inr () \<longleftrightarrow>
     sn_schema_version s = snapshot_schema_version \<and> entry_ok (sn_playlist_id s) \<and> history_ok (sn_history s)
     \<and> (case (sn_current_index s, sn_current_wallpaper_id s) of
          (None, None) \<Rightarrow> sn_remaining_ms s = None \<and> sn_paused_remaining_ms s = None
        | (Some i, Some w) \<Rightarrow> i < max_runtime_entries \<and> entry_ok w
            \<and> (case (sn_remaining_ms s, sn_paused_remaining_ms s) of
                 (Some r, None) \<Rightarrow> r \<le> max_snapshot_remaining_ms
               | (None, Some r) \<Rightarrow> r \<le> max_snapshot_remaining_ms
               | _ \<Rightarrow> False)
        | _ \<Rightarrow> False)"
  by (auto simp: snapshot_validate_def result_simps entry_ok_def history_ok_def list_all_iff list_ex_iff
      not_less not_le split: option.splits)

lemma rt_inv_restore:
  assumes "rt_inv rt" "rt_restore s p now rt = (r, rt')"
  shows "rt_inv rt' \<and> r \<noteq> Inl RtPanic"
proof (cases "snapshot_validate s")
  case (Inl e)
  then have "e \<noteq> RtPanic"
    by (auto simp: snapshot_validate_def result_simps split: option.splits)
  with assms Inl show ?thesis by (auto simp: rt_restore_def)
next
  case (Inr v)
  then have s: "snapshot_validate s = Inr ()" by simp
  have le: "unat (sat_add now r) \<le> unat now + unat max_snapshot_remaining_ms"
    if "r \<le> max_snapshot_remaining_ms" for r
    using that by (auto simp: sat_simps word_le_nat_alt)
  let ?rt = "rt\<lparr>rt_seed := sn_seed s, rt_history := sn_history s, rt_current_index := sn_current_index s,
                  rt_current_wallpaper_id := sn_current_wallpaper_id s,
                  rt_deadline_ms := map_option (sat_add now) (sn_remaining_ms s),
                  rt_paused_remaining_ms := sn_paused_remaining_ms s, rt_last_now_ms := Some now\<rparr>"
  have "rt_inv ?rt"
    using s le by (auto simp: snapshot_validate_ok rt_inv_def timing_ok_def split: option.splits)
  then show ?thesis using assms Inr
    by (cases p rule: validate_cases) (auto simp: rt_restore_def rt_inv_reconcile split: if_splits)
qed

lemma rt_step_inv:
  assumes "rt_inv rt"
  shows "rt_inv (snd (rt_step op rt)) \<and> fst (rt_step op rt) \<noteq> Inl RtPanic"
proof -
  have P: "map_sum id f x \<noteq> Inl RtPanic \<longleftrightarrow> x \<noteq> Inl RtPanic"
    for f :: "'x \<Rightarrow> 'y" and x :: "(rt_error, 'x) result"
    by (cases x) auto
  note ops = rt_inv_start [OF assms surjective_pairing] rt_inv_tick [OF assms surjective_pairing]
    rt_inv_pause [OF assms surjective_pairing] rt_inv_resume [OF assms surjective_pairing]
    rt_inv_restore [OF assms surjective_pairing]
  show ?thesis using ops by (cases op) (simp_all add: P)
qed

lemma rt_run_inv: "rt_inv rt \<Longrightarrow> rt_inv (rt_run ops rt)"
  by (induction ops arbitrary: rt) (auto simp: rt_step_inv)

text \<open>
  C27: over any sequence of operations from a fresh runtime, with any playlists, clocks, unavailable
  entries and snapshots, the runtime stays well formed (bounded history of legal identifiers, position
  and timing present together, remaining time at most 24 hours) and the next operation never indexes
  the playlist out of range.
\<close>

theorem playlist_runtime_invariant:
  "rt_inv (rt_run ops (rt_new seed)) \<and> fst (rt_step op (rt_run ops (rt_new seed))) \<noteq> Inl RtPanic"
  using rt_run_inv [OF rt_inv_new] rt_step_inv by blast

section \<open>Snapshots\<close>

definition snapshot_of :: "playlist \<Rightarrow> u64 \<Rightarrow> playlist_runtime \<Rightarrow> runtime_snapshot" where
  "snapshot_of p now rt =
     \<lparr>sn_schema_version = snapshot_schema_version, sn_playlist_id = pl_id p, sn_seed = rt_seed rt,
      sn_current_index = rt_current_index rt, sn_current_wallpaper_id = rt_current_wallpaper_id rt,
      sn_remaining_ms = (if rt_paused_remaining_ms rt = None \<and> rt_current_index rt \<noteq> None
                         then map_option (\<lambda>d. sat_sub d now) (rt_deadline_ms rt) else None),
      sn_paused_remaining_ms = rt_paused_remaining_ms rt, sn_history = rt_history rt\<rparr>"

lemma rt_snapshot_eq:
  assumes "rt_inv rt" "playlist_ok p" "\<And>t. rt_last_now_ms rt = Some t \<Longrightarrow> t \<le> now"
  shows "rt_snapshot p now rt = Inr (snapshot_of p now rt)"
    and "snapshot_validate (snapshot_of p now rt) = Inr ()"
proof -
  have le: "sat_sub d now \<le> max_snapshot_remaining_ms"
    if "rt_last_now_ms rt = Some t" "unat d \<le> unat t + unat max_snapshot_remaining_ms" for d t
    using that assms(3) [of t] by (auto simp: sat_simps word_le_nat_alt)
  show valid: "snapshot_validate (snapshot_of p now rt) = Inr ()"
    using assms(1,2) le
    by (auto simp: snapshot_validate_ok snapshot_of_def rt_inv_def timing_ok_def playlist_ok_def
        split: option.splits)
  have "playlist_validate p = Inr ()" using assms(2) by (rule playlist_ok_validate)
  moreover have "\<not> (case rt_last_now_ms rt of None \<Rightarrow> False | Some previous \<Rightarrow> now < previous)"
    using assms(3) by (auto simp: not_less split: option.splits)
  moreover have "(let timing = (if rt_paused_remaining_ms rt \<noteq> None then (None, rt_paused_remaining_ms rt)
                      else if rt_current_index rt \<noteq> None
                      then (map_option (\<lambda>d. sat_sub d now) (rt_deadline_ms rt), None)
                      else (None, None))
      in \<lparr>sn_schema_version = snapshot_schema_version, sn_playlist_id = pl_id p, sn_seed = rt_seed rt,
          sn_current_index = rt_current_index rt, sn_current_wallpaper_id = rt_current_wallpaper_id rt,
          sn_remaining_ms = fst timing, sn_paused_remaining_ms = snd timing, sn_history = rt_history rt\<rparr>)
      = snapshot_of p now rt"
    by (auto simp: snapshot_of_def Let_def)
  ultimately show "rt_snapshot p now rt = Inr (snapshot_of p now rt)"
    using valid by (simp add: rt_snapshot_def Let_def)
qed

lemma rt_tick_state:
  assumes "playlist_ok p" "validate_unavailable u = Inr ()" "observe_time rt now = Inr rt1"
  shows "rt_tick p now u rt =
    (let rt' = reconcile_current p rt1 in
     case rt_current_index rt' of
       None \<Rightarrow> rt_select p now u False rt'
     | Some i \<Rightarrow>
         (case rt_paused_remaining_ms rt' of
            Some r \<Rightarrow> (Inr (Paused (pl_entries p ! i) i r), rt')
          | None \<Rightarrow>
              (case rt_deadline_ms rt' of
                 None \<Rightarrow> rt_select p now u False rt'
               | Some d \<Rightarrow>
                   if now < d \<and> pl_entries p ! i \<notin> set u
                   then (Inr (Waiting (pl_entries p ! i) i (d - now)), rt')
                   else rt_select p now u False rt')))"
proof -
  have "rt_current_index (reconcile_current p rt1) = Some i \<Longrightarrow> i < length (pl_entries p)" for i
    by (cases rule: reconcile_cases [of p rt1]) auto
  then show ?thesis
    using assms by (simp add: rt_tick_def Let_def playlist_ok_validate entry_at_in split: option.split)
qed

text \<open>The part of a state that a decision depends on, with the remaining time as a duration.\<close>

definition rt_view ::
  "u64 \<Rightarrow> playlist_runtime \<Rightarrow> nat option \<times> string option \<times> u64 option \<times> u64 option \<times> u64 \<times> string list" where
  "rt_view now rt = (rt_current_index rt, rt_current_wallpaper_id rt,
     (if rt_paused_remaining_ms rt = None then map_option (\<lambda>d. sat_sub d now) (rt_deadline_ms rt) else None),
     rt_paused_remaining_ms rt, rt_seed rt, rt_history rt)"

lemma reconcile_idem: "reconcile_current p (reconcile_current p rt) = reconcile_current p rt"
proof (cases rule: reconcile_cases [of p rt])
  case none
  then show ?thesis by (auto simp: reconcile_current_def clear_current_def)
next
  case (some i)
  then show ?thesis by (simp add: reconcile_current_def)
qed

lemma sat_sub_sat_add_same:
  "unat b + unat r < 2 ^ 64 \<Longrightarrow> sat_sub (sat_add b r) b = r" for b r :: u64
  by (simp add: word_unat_eq_iff sat_simps)

lemma snapshot_restore_view:
  assumes inv: "rt_inv rt" and "playlist_ok p"
    and "case rt_last_now_ms rt of Some t \<Rightarrow> t \<le> now | None \<Rightarrow> True"
    and "unat later + unat max_snapshot_remaining_ms < 2 ^ 64"
  shows "\<exists>s rt'. rt_snapshot p now rt = Inr s \<and> rt_restore s p later other = (Inr (), rt')
     \<and> rt_view later rt' = rt_view now (reconcile_current p rt)"
proof -
  have "\<And>t. rt_last_now_ms rt = Some t \<Longrightarrow> t \<le> now" using assms(3) by auto
  from rt_snapshot_eq [OF inv assms(2) this]
  have snap: "rt_snapshot p now rt = Inr (snapshot_of p now rt)"
    and valid: "snapshot_validate (snapshot_of p now rt) = Inr ()" by auto
  let ?s = "snapshot_of p now rt"
  let ?rt0 = "other\<lparr>rt_seed := sn_seed ?s, rt_history := sn_history ?s, rt_current_index := sn_current_index ?s,
                  rt_current_wallpaper_id := sn_current_wallpaper_id ?s,
                  rt_deadline_ms := map_option (sat_add later) (sn_remaining_ms ?s),
                  rt_paused_remaining_ms := sn_paused_remaining_ms ?s, rt_last_now_ms := Some later\<rparr>"
  have "rt_restore ?s p later other = (Inr (), reconcile_current p ?rt0)"
    using valid assms(2) by (simp add: rt_restore_def playlist_ok_validate) (simp add: snapshot_of_def)
  moreover have "rt_view later (reconcile_current p ?rt0) = rt_view now (reconcile_current p rt)"
  proof -
    have undo: "sat_sub (sat_add later r) later = r" if "r \<le> max_snapshot_remaining_ms" for r
      using that assms(4) by (intro sat_sub_sat_add_same) (simp add: word_le_nat_alt)
    have rem: "sat_sub d now \<le> max_snapshot_remaining_ms"
      if "rt_paused_remaining_ms rt = None" "rt_current_index rt \<noteq> None" "rt_deadline_ms rt = Some d" for d
      using valid that by (auto simp: snapshot_validate_ok snapshot_of_def split: option.splits)
    have id: "rt_current_wallpaper_id rt = None \<Longrightarrow> rt_current_index rt = None
          \<and> rt_deadline_ms rt = None \<and> rt_paused_remaining_ms rt = None"
      "rt_current_wallpaper_id rt \<noteq> None \<Longrightarrow> rt_current_index rt \<noteq> None"
      using inv by (auto simp: rt_inv_def split: option.splits)
    show ?thesis
    proof (cases "rt_current_wallpaper_id rt")
      case None
      with id(1) show ?thesis by (simp add: reconcile_current_def rt_view_def snapshot_of_def)
    next
      case (Some w)
      then obtain i where i: "rt_current_index rt = Some i" using id(2) by auto
      show ?thesis using Some i undo rem
        by (cases "i < length (pl_entries p) \<and> pl_entries p ! i = w";
            cases "rt_paused_remaining_ms rt"; cases "rt_deadline_ms rt")
          (auto simp: reconcile_current_def rt_view_def snapshot_of_def clear_current_def
            split: option.splits)
    qed
  qed
  ultimately show ?thesis using snap by blast
qed

text \<open>
  a snapshot of any reachable runtime against a valid playlist and a clock that did not regress
  succeeds, and restoring it later, at any time with no 64-bit overflow, into any runtime gives the
  same position, remaining time, seed and history as the original has after reconciliation.
\<close>

theorem snapshot_restore_round_trip:
  assumes "rt = rt_run ops (rt_new seed)" "playlist_ok p"
    and "case rt_last_now_ms rt of Some t \<Rightarrow> t \<le> now | None \<Rightarrow> True"
    and "unat later + unat max_snapshot_remaining_ms < 2 ^ 64"
  shows "\<exists>s rt'. rt_snapshot p now rt = Inr s \<and> rt_restore s p later other = (Inr (), rt')
     \<and> rt_view later rt' = rt_view now (reconcile_current p rt)"
proof -
  have "rt_inv rt" unfolding assms(1) by (rule rt_run_inv) (rule rt_inv_new)
  from snapshot_restore_view [OF this assms(2-4)] show ?thesis .
qed

section \<open>Time\<close>

text \<open>
  the clock of a runtime never runs backwards: a tick, a pause or a resume with an earlier time
  than the last observed one fails and leaves the state as it was, and whenever one of them succeeds
  its time is recorded as the last observed one.
\<close>

theorem playlist_time_monotone:
  assumes "op = OpTick p now u \<or> op = OpPause p now \<or> op = OpResume p now"
  shows "(\<forall>t. rt_last_now_ms rt = Some t \<longrightarrow> now < t \<longrightarrow>
            \<not> is_ok (fst (rt_step op rt)) \<and> snd (rt_step op rt) = rt)
    \<and> (is_ok (fst (rt_step op rt)) \<longrightarrow> rt_last_now_ms (snd (rt_step op rt)) = Some now)"
proof (cases p rule: validate_cases)
  case (err e)
  then show ?thesis using assms by (auto simp: rt_tick_def rt_pause_def rt_resume_def)
next
  case ok
  have sel: "rt_last_now_ms (snd (rt_select p now u False r)) = rt_last_now_ms r" for r
    using surjective_pairing [of "rt_select p now u False r"] ok(2)
    by (cases rule: rt_select_cases) (auto simp: clear_current_def started_state_def)
  show ?thesis
  proof (cases "observe_time rt now")
    case (Inl e)
    then show ?thesis using assms ok
      by (cases "validate_unavailable u") (auto simp: rt_tick_def rt_pause_def rt_resume_def)
  next
    case (Inr rt1)
    then have "rt_last_now_ms rt1 = Some now" "\<And>t. rt_last_now_ms rt = Some t \<Longrightarrow> \<not> now < t"
      by (auto simp: observe_time_def split: if_splits option.splits)
    with Inr show ?thesis using assms ok sel
      by (cases "validate_unavailable u")
        (auto simp: rt_tick_def rt_pause_def rt_resume_def Let_def entry_at_def split: option.splits)
  qed
qed

section \<open>Playlists that do not repeat\<close>

text \<open>The operations a session performs on one playlist (a restore may install any history).\<close>

fun plays :: "playlist \<Rightarrow> rt_op \<Rightarrow> bool" where
  "plays p (OpStart q _ _) = (q = p)"
| "plays p (OpTick q _ _) = (q = p)"
| "plays p (OpPause q _) = (q = p)"
| "plays p (OpResume q _) = (q = p)"
| "plays p (OpRestore _ _ _) = False"

definition once_inv :: "playlist \<Rightarrow> string list \<Rightarrow> bool" where
  "once_inv p h \<longleftrightarrow> distinct h \<and> set h \<subseteq> set (pl_entries p)"

lemma once_push:
  assumes "playlist_ok p" "once_inv p h" "w \<in> set (pl_entries p)" "w \<notin> set h"
  shows "push_history w h = h @ [w]" "once_inv p (push_history w h)"
proof -
  have "card (set (w # h)) \<le> card (set (pl_entries p))"
    using assms(2,3) by (intro card_mono) (auto simp: once_inv_def)
  also have "\<dots> \<le> length (pl_entries p)" by (rule card_length)
  also have "\<dots> \<le> max_runtime_entries"
    using assms(1) by (simp add: playlist_ok_def max_entries_def max_runtime_entries_def)
  finally have "length h + 1 \<le> max_runtime_entries"
    using assms(2,4) by (simp add: once_inv_def distinct_card)
  then show eq: "push_history w h = h @ [w]" by (simp add: push_history_def Let_def)
  show "once_inv p (push_history w h)" using assms by (auto simp: eq once_inv_def)
qed

lemma select_once:
  assumes "rt_select p now u st rt = (r, rt')" "playlist_ok p" "\<not> pl_repeat p" "once_inv p (rt_history rt)"
  shows "once_inv p (rt_history rt') \<and> (\<forall>w i d. r = Inr (Advanced w i d) \<longrightarrow>
           w \<notin> set (rt_history rt) \<and> w \<notin> set u \<and> i < length (pl_entries p) \<and> pl_entries p ! i = w
           \<and> rt_history rt' = rt_history rt @ [w])"
  using assms(1,2)
proof (cases rule: rt_select_cases)
  case none
  then show ?thesis using assms(4) by (simp add: clear_current_def empty_decision_def)
next
  case (entry i)
  with once_push [OF assms(2,4), of "pl_entries p ! i"] assms(3) show ?thesis
    by (simp add: started_state_def split: if_splits)
qed

lemma reconcile_history [simp]: "rt_history (reconcile_current p rt) = rt_history rt"
  by (auto simp: reconcile_current_def clear_current_def split: option.splits)

lemma observe_history: "observe_time rt now = Inr rt1 \<Longrightarrow> rt_history rt1 = rt_history rt"
  by (auto simp: observe_time_def split: if_splits)

lemma tick_once:
  assumes "rt_tick p now u rt = (r, rt')" "playlist_ok p" "\<not> pl_repeat p" "once_inv p (rt_history rt)"
  shows "once_inv p (rt_history rt') \<and> (\<forall>w i d. r = Inr (Advanced w i d) \<longrightarrow>
           w \<notin> set (rt_history rt) \<and> w \<notin> set u \<and> i < length (pl_entries p) \<and> pl_entries p ! i = w
           \<and> rt_history rt' = rt_history rt @ [w])"
proof (cases "\<exists>rt1. validate_unavailable u = Inr () \<and> observe_time rt now = Inr rt1")
  case True
  then obtain rt1 where rt1: "validate_unavailable u = Inr ()" "observe_time rt now = Inr rt1" by blast
  have h: "rt_history rt1 = rt_history rt" using rt1(2) by (rule observe_history)
  note sel = select_once [of p now u False "reconcile_current p rt1" r rt', OF _ assms(2,3)]
  show ?thesis using assms(1,4) sel
    unfolding rt_tick_state [OF assms(2) rt1]
    by (auto simp: Let_def h split: option.splits if_splits)
next
  case False
  then have "rt_history rt' = rt_history rt \<and> (\<exists>e. r = Inl e)"
    using assms(1,2) by (auto simp: rt_tick_def playlist_ok_validate split: sum.splits)
  then show ?thesis using assms(4) by auto
qed

lemma step_once:
  assumes "plays p op" "playlist_ok p" "\<not> pl_repeat p" "once_inv p (rt_history rt)"
  shows "once_inv p (rt_history (snd (rt_step op rt)))"
proof (cases op)
  case (OpStart q now u)
  have "once_inv p []" by (simp add: once_inv_def)
  then show ?thesis
    using OpStart assms select_once [OF surjective_pairing assms(2,3),
        where now = now and u = u and st = True
        and rt = "(clear_current rt)\<lparr>rt_last_now_ms := Some now, rt_history := []\<rparr>"]
    by (auto simp: rt_start_def playlist_ok_validate split: sum.splits)
next
  case (OpTick q now u)
  then show ?thesis using assms tick_once [OF surjective_pairing assms(2-4), where now = now and u = u] by simp
next
  case (OpPause q now)
  then show ?thesis using assms
    by (auto simp: rt_pause_def Let_def observe_history split: sum.splits option.splits)
next
  case (OpResume q now)
  then show ?thesis using assms
    by (auto simp: rt_resume_def Let_def observe_history split: sum.splits option.splits)
next
  case (OpRestore s q now)
  then show ?thesis using assms by simp
qed

lemma run_once:
  assumes "playlist_ok p" "\<not> pl_repeat p" "list_all (plays p) ops" "once_inv p (rt_history rt)"
  shows "once_inv p (rt_history (rt_run ops rt))"
  using assms(3,4) by (induction ops arbitrary: rt) (auto simp: step_once assms(1,2))

text \<open>
  C35: a playlist that does not repeat shows no entry twice: over any sequence of starts, ticks, pauses
  and resumes the history is a list of distinct entries of the playlist, and a tick that advances picks
  an available entry that is not in the history and appends it.
\<close>

theorem playlist_shows_once:
  assumes "playlist_ok p" "\<not> pl_repeat p" "list_all (plays p) ops" "rt = rt_run ops (rt_new seed)"
  shows "distinct (rt_history rt) \<and> set (rt_history rt) \<subseteq> set (pl_entries p)
    \<and> (\<forall>now u w i d rt'. rt_tick p now u rt = (Inr (Advanced w i d), rt') \<longrightarrow>
         w \<notin> set (rt_history rt) \<and> w \<notin> set u \<and> i < length (pl_entries p) \<and> pl_entries p ! i = w
         \<and> rt_history rt' = rt_history rt @ [w])"
proof -
  have "once_inv p (rt_history rt)"
    unfolding assms(4) by (rule run_once) (use assms in \<open>auto simp: once_inv_def rt_new_def\<close>)
  with tick_once [OF _ assms(1,2) this] show ?thesis unfolding once_inv_def by blast
qed

section \<open>Witnesses\<close>

definition sample_once :: playlist where "sample_once = sample_playlist\<lparr>pl_repeat := False\<rparr>"

lemma sample_once_ok: "playlist_ok sample_once"
  using sample_playlist_ok by (simp add: sample_once_def playlist_ok_def)

lemma sample_validate: "playlist_validate sample_playlist = Inr ()" "playlist_validate sample_once = Inr ()"
  by (simp_all add: playlist_ok_validate sample_playlist_ok sample_once_ok)

definition sample_started :: playlist_runtime where
  "sample_started = \<lparr>rt_current_index = Some 0, rt_current_wallpaper_id = Some ''a'',
     rt_deadline_ms = Some 301000, rt_paused_remaining_ms = None, rt_last_now_ms = Some 1000,
     rt_seed = 1, rt_history = [''a'']\<rparr>"

lemma sample_start:
  "rt_run [OpStart sample_playlist 1000 []] (rt_new 0) = sample_started"
  "rt_run [OpStart sample_once 1000 []] (rt_new 0) = sample_started"
  by (simp_all add: rt_start_def sample_validate validate_unavailable_def rt_select_def rt_select_with_def)
    (simp_all add: sample_once_def sample_playlist_def exclusions_def next_eligible_index_def
      option_filter_def upt_rec is_eligible_def usize_sat_add_def usize_max_def max_entries_def
      entry_at_def Let_def entry_deadline_def sat_add_def push_history_def max_runtime_entries_def
      sample_started_def rt_new_def clear_current_def)

lemma snapshot_restore_round_trip_witness:
  "\<exists>s rt'. rt_snapshot sample_playlist 2000 sample_started = Inr s
     \<and> rt_restore s sample_playlist 50000 (rt_new 9) = (Inr (), rt')
     \<and> rt_view 50000 rt' = (Some 0, Some ''a'', Some 299000, None, 1, [''a''])"
proof -
  have "case rt_last_now_ms sample_started of Some t \<Rightarrow> t \<le> 2000 | None \<Rightarrow> True"
    "unat (50000 :: u64) + unat max_snapshot_remaining_ms < 2 ^ 64"
    by (simp_all add: sample_started_def max_remaining_unat)
  moreover have "rt_view 2000 (reconcile_current sample_playlist sample_started)
      = (Some 0, Some ''a'', Some 299000, None, 1, [''a''])"
    by (simp add: rt_view_def reconcile_current_def sample_started_def sample_playlist_def sat_sub_def)
  ultimately show ?thesis
    using snapshot_restore_round_trip [OF sample_start(1) [symmetric] sample_playlist_ok,
        where now = 2000 and later = 50000 and other = "rt_new 9"]
    by simp
qed

lemma playlist_time_monotone_witness:
  "rt_step (OpPause sample_playlist 999) sample_started = (Inl TimeRegressed, sample_started)"
proof -
  have "rt_last_now_ms sample_started = Some 1000 \<and> (999 :: u64) < 1000" by (simp add: sample_started_def)
  then have "\<not> is_ok (fst (rt_step (OpPause sample_playlist 999) sample_started))
      \<and> snd (rt_step (OpPause sample_playlist 999) sample_started) = sample_started"
    using playlist_time_monotone [where op = "OpPause sample_playlist 999" and rt = sample_started
        and p = sample_playlist and now = 999]
    by blast
  then show ?thesis
    by (simp add: rt_pause_def sample_validate observe_time_def sample_started_def)
qed

lemma playlist_shows_once_witness:
  "distinct (rt_history sample_started) \<and> set (rt_history sample_started) \<subseteq> {''a'', ''b'', ''c''}"
proof -
  have "set (pl_entries sample_once) = {''a'', ''b'', ''c''}" "\<not> pl_repeat sample_once"
    by (simp_all add: sample_once_def sample_playlist_def)
  then show ?thesis
    using playlist_shows_once [OF sample_once_ok _ _ sample_start(2) [symmetric]] by simp
qed

end
