(* ===== verification/Policy.thy ===== *)
theory Policy
  imports Rust_Strings
begin

unbundle bit_operations_syntax

text \<open>
  \<open>crates/kwe-core/src/policy.rs\<close>: the playback policy, a bounded list of rules whose matching
  actions are combined by precedence. The evaluation is related to two specifications: the action of
  highest precedence among the matching rules, and, for a time window, an interval of the week.
\<close>

section \<open>Data\<close>

definition max_rules :: nat where "max_rules = 128"
definition max_id_bytes :: nat where "max_id_bytes = 128"

datatype playback_action = KeepRunning | Mute | PauseAction | Stop

fun precedence :: "playback_action \<Rightarrow> nat" where
  "precedence KeepRunning = 0"
| "precedence Mute = 1"
| "precedence PauseAction = 2"
| "precedence Stop = 3"

lemma precedence_inj [simp]: "precedence a = precedence b \<longleftrightarrow> a = b"
  by (cases a; cases b) auto

instantiation playback_action :: linorder
begin

definition less_eq_playback_action :: "playback_action \<Rightarrow> playback_action \<Rightarrow> bool" where
  "a \<le> b \<longleftrightarrow> precedence a \<le> precedence b"

definition less_playback_action :: "playback_action \<Rightarrow> playback_action \<Rightarrow> bool" where
  "a < b \<longleftrightarrow> precedence a < precedence b"

instance
  by standard (auto simp: less_eq_playback_action_def less_playback_action_def)

end

datatype policy_trigger =
    Fullscreen | Maximized | SessionLocked | Idle | OnBattery | PowerSaver
  | FocusedApplication string
  | TimeWindow u8 u16 u16

record policy_rule =
  pr_id :: string
  pr_trigger :: policy_trigger
  pr_action :: playback_action

record policy_snapshot =
  ps_fullscreen :: bool
  ps_maximized :: bool
  ps_session_locked :: bool
  ps_idle :: bool
  ps_on_battery :: bool
  ps_power_saver :: bool
  ps_focused_application :: "string option"
  ps_local_weekday :: "u8 option"
  ps_local_minute :: "u16 option"

record playback_policy =
  pp_default_action :: playback_action
  pp_rules :: "policy_rule list"

record policy_decision =
  pd_action :: playback_action
  pd_matched_rule_ids :: "string list"

datatype policy_error =
    RuleCount | RuleIdentity | ApplicationIdentity | WindowInvalid | FocusedIdentity | LocalTime

section \<open>Operations\<close>

definition valid_application_id :: "string \<Rightarrow> bool" where
  "valid_application_id v \<longleftrightarrow> v \<noteq> [] \<and> length v \<le> max_id_bytes
     \<and> list_all (\<lambda>c. is_ascii_alphanumeric c \<or> c = CHR ''.'' \<or> c = CHR ''_'' \<or> c = CHR ''-'') v"

definition trigger_valid :: "policy_trigger \<Rightarrow> (policy_error, unit) result" where
  "trigger_valid t =
     (case t of
        FocusedApplication a \<Rightarrow> fail_if (\<not> valid_application_id a) ApplicationIdentity
      | TimeWindow days start stop \<Rightarrow>
          fail_if (days = 0 \<or> days AND NOT 0x7f \<noteq> 0 \<or> 24 * 60 \<le> start \<or> 24 * 60 \<le> stop \<or> start = stop)
            WindowInvalid
      | _ \<Rightarrow> Inr ())"

fun check_rules :: "string list \<Rightarrow> policy_rule list \<Rightarrow> (policy_error, unit) result" where
  "check_rules ids [] = Inr ()"
| "check_rules ids (r # rs) =
     rbind (fail_if (pr_id r = [] \<or> max_id_bytes < length (pr_id r) \<or> pr_id r \<in> set ids) RuleIdentity) (\<lambda>_.
     rbind (trigger_valid (pr_trigger r)) (\<lambda>_. check_rules (pr_id r # ids) rs))"

definition policy_validate :: "playback_policy \<Rightarrow> (policy_error, unit) result" where
  "policy_validate p =
     rbind (fail_if (max_rules < length (pp_rules p)) RuleCount) (\<lambda>_. check_rules [] (pp_rules p))"

definition day_selected :: "u8 \<Rightarrow> u8 \<Rightarrow> bool" where
  "day_selected days weekday \<longleftrightarrow> days AND push_bit (unat weekday) 1 \<noteq> 0"

fun rule_matches :: "policy_trigger \<Rightarrow> policy_snapshot \<Rightarrow> bool" where
  "rule_matches Fullscreen s = ps_fullscreen s"
| "rule_matches Maximized s = ps_maximized s"
| "rule_matches SessionLocked s = ps_session_locked s"
| "rule_matches Idle s = ps_idle s"
| "rule_matches OnBattery s = ps_on_battery s"
| "rule_matches PowerSaver s = ps_power_saver s"
| "rule_matches (FocusedApplication d) s =
     (case ps_focused_application s of Some f \<Rightarrow> eq_ignore_ascii_case f d | None \<Rightarrow> False)"
| "rule_matches (TimeWindow days start stop) s =
     (case (ps_local_weekday s, ps_local_minute s) of
        (Some weekday, Some minute) \<Rightarrow>
          if start < stop then day_selected days weekday \<and> start \<le> minute \<and> minute < stop
          else (start \<le> minute \<and> day_selected days weekday)
               \<or> (minute < stop \<and> day_selected days ((weekday + 6) mod 7))
      | _ \<Rightarrow> False)"

definition match_step ::
  "policy_snapshot \<Rightarrow> playback_action option \<times> string list \<Rightarrow> policy_rule \<Rightarrow> playback_action option \<times> string list" where
  "match_step s acc r =
     (if rule_matches (pr_trigger r) s
      then (if (case fst acc of None \<Rightarrow> True | Some a \<Rightarrow> precedence a < precedence (pr_action r))
            then Some (pr_action r) else fst acc, snd acc @ [pr_id r])
      else acc)"

definition policy_evaluate :: "playback_policy \<Rightarrow> policy_snapshot \<Rightarrow> (policy_error, policy_decision) result" where
  "policy_evaluate p s =
     rbind (policy_validate p) (\<lambda>_.
     rbind (fail_if (case ps_focused_application s of Some a \<Rightarrow> \<not> valid_application_id a | None \<Rightarrow> False)
              FocusedIdentity) (\<lambda>_.
     rbind (fail_if ((case ps_local_weekday s of Some w \<Rightarrow> 7 \<le> w | None \<Rightarrow> False)
                      \<or> (case ps_local_minute s of Some m \<Rightarrow> 24 * 60 \<le> m | None \<Rightarrow> False)
                      \<or> (ps_local_weekday s \<noteq> None) \<noteq> (ps_local_minute s \<noteq> None)) LocalTime) (\<lambda>_.
       let acc = foldl (match_step s) (None, []) (pp_rules p) in
       Inr \<lparr>pd_action = (case fst acc of Some a \<Rightarrow> a | None \<Rightarrow> pp_default_action p),
            pd_matched_rule_ids = snd acc\<rparr>)))"

section \<open>Precedence\<close>

definition matching :: "playback_policy \<Rightarrow> policy_snapshot \<Rightarrow> policy_rule list" where
  "matching p s = filter (\<lambda>r. rule_matches (pr_trigger r) s) (pp_rules p)"

lemma match_fold:
  "foldl (match_step s) (a, ids) rs =
     (let ms = filter (\<lambda>r. rule_matches (pr_trigger r) s) rs in
      (fold (\<lambda>r x. Some (case x of None \<Rightarrow> pr_action r | Some y \<Rightarrow> max y (pr_action r))) ms a,
       ids @ map pr_id ms))"
proof (induction rs arbitrary: a ids)
  case Nil
  then show ?case by simp
next
  case (Cons r rs)
  have step: "match_step s (a, ids) r =
      (if rule_matches (pr_trigger r) s
       then (Some (case a of None \<Rightarrow> pr_action r | Some y \<Rightarrow> max y (pr_action r)), ids @ [pr_id r]) else (a, ids))"
    by (auto simp: match_step_def max_def less_eq_playback_action_def split: option.splits)
  show ?case by (simp add: step Cons.IH Let_def)
qed

lemma fold_max_Some:
  "fold (\<lambda>r x. Some (case x of None \<Rightarrow> f r | Some y \<Rightarrow> max y (f r))) ms (Some a)
     = Some (Max (insert a (f ` set ms)))" for f :: "'r \<Rightarrow> playback_action"
proof (induction ms arbitrary: a)
  case Nil
  then show ?case by simp
next
  case (Cons m ms)
  have "Max (insert (max a (f m)) (f ` set ms)) = Max (insert a (f ` set (m # ms)))"
  proof (cases "ms = []")
    case True
    then show ?thesis by simp
  next
    case False
    then show ?thesis by (simp add: max.assoc)
  qed
  with Cons [of "max a (f m)"] show ?case by simp
qed

lemma fold_max_None:
  "ms \<noteq> [] \<Longrightarrow> fold (\<lambda>r x. Some (case x of None \<Rightarrow> f r | Some y \<Rightarrow> max y (f r))) ms None
     = Some (Max (f ` set ms))" for f :: "'r \<Rightarrow> playback_action"
  by (cases ms) (simp_all add: fold_max_Some)

lemma check_rules_err: "check_rules ids rs = Inl e \<Longrightarrow> e \<in> {RuleIdentity, ApplicationIdentity, WindowInvalid}"
  by (induction rs arbitrary: ids)
    (auto simp: result_simps trigger_valid_def split: policy_trigger.splits)

text \<open>
  an evaluation that succeeds answers with the action of highest precedence (stop over pause over
  mute over keep running) among the matching rules, the default when none matches, and lists exactly
  the identities of the matching rules in rule order.
\<close>

theorem policy_evaluate_precedence:
  assumes "policy_evaluate p s = Inr d"
  shows "pd_action d = (if matching p s = [] then pp_default_action p
                        else Max (pr_action ` set (matching p s)))
    \<and> pd_matched_rule_ids d = map pr_id (matching p s)"
  using assms
  by (auto simp: policy_evaluate_def result_simps match_fold Let_def matching_def [symmetric]
      fold_max_None)

definition sample_policy :: playback_policy where
  "sample_policy = \<lparr>pp_default_action = KeepRunning, pp_rules =
     [\<lparr>pr_id = ''a'', pr_trigger = Idle, pr_action = Stop\<rparr>,
      \<lparr>pr_id = ''b'', pr_trigger = Fullscreen, pr_action = PauseAction\<rparr>,
      \<lparr>pr_id = ''c'', pr_trigger = Fullscreen, pr_action = Mute\<rparr>]\<rparr>"

definition sample_policy_snapshot :: policy_snapshot where
  "sample_policy_snapshot = \<lparr>ps_fullscreen = True, ps_maximized = False, ps_session_locked = False,
     ps_idle = False, ps_on_battery = False, ps_power_saver = False, ps_focused_application = None,
     ps_local_weekday = None, ps_local_minute = None\<rparr>"

lemma policy_evaluate_precedence_witness:
  "\<exists>d. policy_evaluate sample_policy sample_policy_snapshot = Inr d
     \<and> pd_action d = PauseAction \<and> pd_matched_rule_ids d = [''b'', ''c'']"
proof -
  have "\<exists>d. policy_evaluate sample_policy sample_policy_snapshot = Inr d"
    by (simp add: policy_evaluate_def policy_validate_def sample_policy_def sample_policy_snapshot_def
        trigger_valid_def max_id_bytes_def max_rules_def Let_def)
  then obtain d where d: "policy_evaluate sample_policy sample_policy_snapshot = Inr d" by blast
  have m: "matching sample_policy sample_policy_snapshot =
      [\<lparr>pr_id = ''b'', pr_trigger = Fullscreen, pr_action = PauseAction\<rparr>,
       \<lparr>pr_id = ''c'', pr_trigger = Fullscreen, pr_action = Mute\<rparr>]"
    by (simp add: matching_def sample_policy_def sample_policy_snapshot_def)
  from policy_evaluate_precedence [OF d] d show ?thesis
    by (simp add: m max_def less_eq_playback_action_def)
qed

section \<open>Time windows\<close>

text \<open>
  The specification of a window: an interval of the week, which has \<open>7 * 1440\<close> minutes, that starts on a
  selected day and lasts until the end minute next comes round; it may run into the following day.
\<close>

definition week_minutes :: nat where "week_minutes = 10080"

definition window_length :: "u16 \<Rightarrow> u16 \<Rightarrow> nat" where
  "window_length start stop = (unat stop + 1440 - unat start) mod 1440"

definition in_window :: "u8 \<Rightarrow> u16 \<Rightarrow> u16 \<Rightarrow> u8 \<Rightarrow> u16 \<Rightarrow> bool" where
  "in_window days start stop weekday minute \<longleftrightarrow>
     (\<exists>d < 7. bit days d
        \<and> (unat weekday * 1440 + unat minute + week_minutes - (d * 1440 + unat start)) mod week_minutes
            < window_length start stop)"

lemma day_selected_bit: "w < 8 \<Longrightarrow> day_selected days w \<longleftrightarrow> bit days (unat w)"
proof -
  assume "w < 8"
  then have "unat w < 8" by (simp add: word_less_nat_alt)
  have "days AND push_bit (unat w) 1 = (if bit days (unat w) then push_bit (unat w) 1 else 0)"
    by (rule bit_eqI) (auto simp: bit_simps)
  moreover have "push_bit (unat w) 1 \<noteq> (0 :: u8)"
    using \<open>unat w < 8\<close> by (auto simp: bit_eq_iff bit_simps intro!: exI [of _ "unat w"])
  ultimately show ?thesis by (simp add: day_selected_def)
qed

lemma previous_day: "w < 7 \<Longrightarrow> unat ((w + 6) mod 7 :: u8) = (unat w + 6) mod 7"
proof -
  assume "w < 7"
  then have "unat w < 7" by (simp add: word_less_nat_alt)
  then show ?thesis by (simp add: unat_mod unat_word_ariths)
qed

lemma mod_once: "x < 20160 \<Longrightarrow> x mod 10080 = (if x < 10080 then x else x - 10080)" for x :: nat
  by (simp add: mod_if)

lemma window_offset:
  fixes w d m s :: nat
  assumes "w < 7" "d < 7" "m < 1440" "s < 1440"
  shows "d = w \<Longrightarrow> w * 1440 + m + 10080 - (d * 1440 + s) = 10080 + m - s"
    and "d + 1 = w \<Longrightarrow> w * 1440 + m + 10080 - (d * 1440 + s) = 11520 + m - s"
    and "d + 2 \<le> w \<Longrightarrow> 11520 < w * 1440 + m + 10080 - (d * 1440 + s)"
    and "w = 0 \<Longrightarrow> d = 6 \<Longrightarrow> w * 1440 + m + 10080 - (d * 1440 + s) = 1440 + m - s"
    and "w < d \<Longrightarrow> d \<le> w + 5 \<Longrightarrow> 1440 < w * 1440 + m + 10080 - (d * 1440 + s)
           \<and> w * 1440 + m + 10080 - (d * 1440 + s) < 10080"
    and "w * 1440 + m + 10080 - (d * 1440 + s) < 20160"
  using assms by linarith+

lemma window_day:
  assumes "w < 7" "d < 7" "m < 1440" "s < 1440" "l < (1440 :: nat)"
  shows "(w * 1440 + m + 10080 - (d * 1440 + s)) mod 10080 < l
     \<longleftrightarrow> (d = w \<and> s \<le> m \<and> m < s + l) \<or> (d = (w + 6) mod 7 \<and> m < s \<and> m + 1440 < s + l)"
proof -
  note off = window_offset [OF assms(1-4)]
  define x where "x = w * 1440 + m + 10080 - (d * 1440 + s)"
  have x: "x mod 10080 = (if x < 10080 then x else x - 10080)"
    by (rule mod_once) (simp only: x_def off(6))
  have prev: "(w + 6) mod 7 = (if w = 0 then 6 else w - 1)" using assms(1) by (simp add: mod_if)
  consider "d = w" | "d + 1 = w" | "d + 2 \<le> w" | "w = 0" "d = 6" | "w < d" "d \<le> w + 5"
    using assms(1,2) by linarith
  then have "x mod 10080 < l \<longleftrightarrow>
     (d = w \<and> s \<le> m \<and> m < s + l) \<or> (d = (w + 6) mod 7 \<and> m < s \<and> m + 1440 < s + l)"
  proof cases
    case 1
    then have "x = 10080 + m - s" unfolding x_def by (rule off(1))
    moreover have "d \<noteq> (w + 6) mod 7" using 1 prev assms(1) by auto
    ultimately show ?thesis using 1 assms(3-5) unfolding x by (cases "s \<le> m") (simp_all, arith+)
  next
    case 2
    then have "x = 11520 + m - s" unfolding x_def by (rule off(2))
    moreover have "d = (w + 6) mod 7" "d \<noteq> w" using 2 prev by auto
    ultimately show ?thesis using assms(3-5) unfolding x by (cases "s \<le> m") (simp_all, arith+)
  next
    case 3
    then have "11520 < x" unfolding x_def by (rule off(3))
    moreover have "d \<noteq> w" "d \<noteq> (w + 6) mod 7" using 3 prev by auto
    ultimately show ?thesis using assms(5) unfolding x by simp
  next
    case 4
    then have "x = 1440 + m - s" unfolding x_def by (rule off(4))
    moreover have "d = (w + 6) mod 7" "d \<noteq> w" using 4 prev by auto
    ultimately show ?thesis using assms(3-5) unfolding x by (cases "s \<le> m") (simp_all, arith+)
  next
    case 5
    then have "1440 < x \<and> x < 10080" unfolding x_def by (rule off(5))
    moreover have "d \<noteq> w" "d \<noteq> (w + 6) mod 7" using 5 assms(2) prev by auto
    ultimately show ?thesis using assms(5) unfolding x by simp
  qed
  then show ?thesis by (simp only: x_def)
qed

lemma window_length_cases:
  "s < 1440 \<Longrightarrow> e < 1440 \<Longrightarrow> s \<noteq> e \<Longrightarrow>
     (e + 1440 - s) mod 1440 = (if s < e then e - s else e + 1440 - s)" for s e :: nat
  by (auto simp: mod_if)

lemma window_nat:
  assumes "w < 7" "m < 1440" "s < 1440" "e < 1440" "s \<noteq> (e :: nat)"
  shows "(\<exists>d < 7. P d \<and> (w * 1440 + m + 10080 - (d * 1440 + s)) mod 10080 < (e + 1440 - s) mod 1440)
    \<longleftrightarrow> (if s < e then P w \<and> s \<le> m \<and> m < e
         else (s \<le> m \<and> P w) \<or> (m < e \<and> P ((w + 6) mod 7)))"
proof -
  let ?l = "(e + 1440 - s) mod 1440"
  have "(\<exists>d < 7. P d \<and> (w * 1440 + m + 10080 - (d * 1440 + s)) mod 10080 < ?l)
     \<longleftrightarrow> (\<exists>d < 7. P d \<and> ((d = w \<and> s \<le> m \<and> m < s + ?l)
                       \<or> (d = (w + 6) mod 7 \<and> m < s \<and> m + 1440 < s + ?l)))"
    using assms window_day [of w _ m s ?l] by auto
  also have "\<dots> \<longleftrightarrow> (P w \<and> s \<le> m \<and> m < s + ?l)
      \<or> (P ((w + 6) mod 7) \<and> m < s \<and> m + 1440 < s + ?l)"
    using assms(1) by auto
  also have "\<dots> \<longleftrightarrow> (if s < e then P w \<and> s \<le> m \<and> m < e
         else (s \<le> m \<and> P w) \<or> (m < e \<and> P ((w + 6) mod 7)))"
    using assms window_length_cases [OF assms(3-5)] by auto
  finally show ?thesis .
qed

text \<open>
  a valid time window matches exactly the minutes of the week that lie in an interval starting on a
  selected day and ending when the end minute next comes round, also across midnight and across the
  end of the week.
\<close>

theorem time_window_correct:
  assumes "trigger_valid (TimeWindow days start stop) = Inr ()"
    and "ps_local_weekday s = Some weekday" "ps_local_minute s = Some minute"
    and "weekday < 7" "minute < 24 * 60"
  shows "rule_matches (TimeWindow days start stop) s \<longleftrightarrow> in_window days start stop weekday minute"
proof -
  have v: "start < 1440" "stop < 1440" "start \<noteq> stop"
    using assms(1) by (auto simp: trigger_valid_def result_simps not_le)
  have n: "unat weekday < 7" "unat minute < 1440" "unat start < 1440" "unat stop < 1440"
    "unat start \<noteq> unat stop"
    using v assms(4,5) by (auto simp: word_less_nat_alt word_unat_eq_iff)
  have w: "weekday < 8" using assms(4) by (simp add: word_less_nat_alt)
  have "unat ((weekday + 6) mod 7) < 8"
    using previous_day [OF assms(4)] mod_less_divisor [of 7 "unat weekday + 6"] by linarith
  then have p: "(weekday + 6) mod 7 < 8" by (simp add: word_less_nat_alt)
  show ?thesis
    using window_nat [OF n, of "bit days"] assms(2,3)
    by (simp add: in_window_def window_length_def week_minutes_def day_selected_bit [OF w] day_selected_bit [OF p]
        previous_day [OF assms(4)] word_less_nat_alt word_le_nat_alt conj_commute)
qed

lemma time_window_correct_witness:
  "in_window 0x40 1320 360 0 60"
proof -
  let ?s = "sample_policy_snapshot\<lparr>ps_local_weekday := Some 0, ps_local_minute := Some 60\<rparr>"
  have "trigger_valid (TimeWindow 0x40 1320 360) = Inr ()"
    by (simp add: trigger_valid_def)
  moreover have "rule_matches (TimeWindow 0x40 1320 360) ?s"
    by (simp add: day_selected_def)
  ultimately show ?thesis
    using time_window_correct [of "0x40" 1320 360 ?s 0 60] by simp
qed

end
