(* ===== verification/Key_Values.thy ===== *)
theory Key_Values
  imports Rust_Strings
begin

text \<open>
  \<open>crates/kwe-core/src/keyvalues.rs\<close>: the parser of Valve's key-value text. The tokenizer is the loop
  of the source as a partial function (\<open>None\<close>: it never returns), because a form feed where a token
  starts makes it loop; a \<open>BTreeMap\<close> is the association list in key order.
\<close>

section \<open>Data\<close>

definition max_vdf_bytes :: nat where "max_vdf_bytes = 8 * 1024 * 1024"
definition max_depth :: nat where "max_depth = 32"

datatype kv_value = KvString string | KvObject "(string \<times> kv_value) list"

datatype kv_error =
    TooLarge | UnterminatedString nat | InvalidEscape nat | MissingValue string nat
  | UnexpectedClose nat | UnclosedObject | TooDeep

datatype kv_token = Text string | Open | Close

type_synonym spanned_token = "kv_token \<times> nat"

fun kv_object :: "kv_value \<Rightarrow> (string \<times> kv_value) list option" where
  "kv_object (KvObject m) = Some m"
| "kv_object (KvString _) = None"

fun kv_string :: "kv_value \<Rightarrow> string option" where
  "kv_string (KvString s) = Some s"
| "kv_string (KvObject _) = None"

fun find_key :: "string \<Rightarrow> (string \<times> kv_value) list \<Rightarrow> kv_value option" where
  "find_key key [] = None"
| "find_key key ((k, v) # m) = (if eq_ignore_ascii_case k key then Some v else find_key key m)"

definition get_case_insensitive :: "kv_value \<Rightarrow> string \<Rightarrow> kv_value option" where
  "get_case_insensitive v key = Option.bind (kv_object v) (find_key key)"

text \<open>\<open>str\<close>'s order (bytewise lexicographic) and \<open>BTreeMap::insert\<close>.\<close>

fun str_less :: "string \<Rightarrow> string \<Rightarrow> bool" where
  "str_less [] [] = False"
| "str_less [] (_ # _) = True"
| "str_less (_ # _) [] = False"
| "str_less (a # x) (b # y) = (byte_val a < byte_val b \<or> (a = b \<and> str_less x y))"

fun btree_insert :: "string \<Rightarrow> 'v \<Rightarrow> (string \<times> 'v) list \<Rightarrow> (string \<times> 'v) list" where
  "btree_insert k v [] = [(k, v)]"
| "btree_insert k v ((k', v') # m) =
     (if k = k' then (k, v) # m
      else if str_less k k' then (k, v) # (k', v') # m
      else (k', v') # btree_insert k v m)"

section \<open>Tokens\<close>

definition latin1 :: "char \<Rightarrow> string" where "latin1 c = bytes_str (utf8_encode (byte_val c))"

text \<open>The quoted string from after its opening quote: its value, the next offset and the rest.\<close>

fun scan_quoted :: "nat \<Rightarrow> nat \<Rightarrow> string \<Rightarrow> string \<Rightarrow> (kv_error, string \<times> nat \<times> string) result" where
  "scan_quoted start off value [] = Inl (UnterminatedString start)"
| "scan_quoted start off value (c # cs) =
     (if c = CHR 0x22 then Inr (value, off + 1, cs)
      else if c = CHR 0x5C then
        (case cs of
           [] \<Rightarrow> Inl (InvalidEscape (off + 1))
         | e # es \<Rightarrow>
             scan_quoted start (off + 2)
               (value @ (if e = CHR 0x22 then [CHR 0x22]
                         else if e = CHR 0x5C then [CHR 0x5C]
                         else if e = CHR ''n'' then [CHR 0x0A]
                         else if e = CHR ''t'' then [CHR 0x09]
                         else CHR 0x5C # latin1 e)) es)
      else scan_quoted start (off + 1) (value @ latin1 c) cs)"

definition bare_char :: "char \<Rightarrow> bool" where
  "bare_char c \<longleftrightarrow> \<not> is_ascii_whitespace c \<and> c \<noteq> CHR ''{'' \<and> c \<noteq> CHR ''}''"

text \<open>One turn of the outer loop on non-empty input: at most one token, the next offset, the rest.\<close>

definition token_step :: "nat \<Rightarrow> string \<Rightarrow> (kv_error, spanned_token list \<times> nat \<times> string) result" where
  "token_step off s =
     (let c = hd s; cs = tl s in
      if c = CHR '' '' \<or> c = CHR 0x09 \<or> c = CHR 0x0D \<or> c = CHR 0x0A then Inr ([], off + 1, cs)
      else if c = CHR ''/'' \<and> cs \<noteq> [] \<and> hd cs = CHR ''/'' then
        (let skipped = takeWhile (\<lambda>x. x \<noteq> CHR 0x0A) (tl cs) in
         Inr ([], off + 2 + length skipped, drop (length skipped) (tl cs)))
      else if c = CHR ''{'' then Inr ([(Open, off)], off + 1, cs)
      else if c = CHR ''}'' then Inr ([(Close, off)], off + 1, cs)
      else if c = CHR 0x22 then
        rbind (scan_quoted off (off + 1) [] cs) (\<lambda>(value, off', rest). Inr ([(Text value, off)], off', rest))
      else
        (let bare = takeWhile bare_char s in
         Inr ([(Text bare, off)], off + length bare, drop (length bare) s)))"

partial_function (option) tokenize_loop ::
  "spanned_token list \<Rightarrow> nat \<Rightarrow> string \<Rightarrow> (kv_error, spanned_token list) result option" where
  "tokenize_loop acc off s =
     (if s = [] then Some (Inr acc)
      else case token_step off s of
        Inl e \<Rightarrow> Some (Inl e)
      | Inr (toks, off', rest) \<Rightarrow> tokenize_loop (acc @ toks) off' rest)"

definition tokenize :: "string \<Rightarrow> (kv_error, spanned_token list) result option" where
  "tokenize s = tokenize_loop [] 0 s"

section \<open>Objects\<close>

text \<open>
  The loop of \<open>parse\_object\<close> at one depth, with the map built so far; it returns the map and the
  tokens after the object.
\<close>

function (sequential) object_loop ::
  "nat \<Rightarrow> bool \<Rightarrow> (string \<times> kv_value) list \<Rightarrow> spanned_token list
     \<Rightarrow> (kv_error, (string \<times> kv_value) list \<times> spanned_token list) result" where
  "object_loop depth expect_close m [] = (if expect_close then Inl UnclosedObject else Inr (m, []))"
| "object_loop depth expect_close m ((Close, off) # ts) =
     (if expect_close then Inr (m, ts) else Inl (UnexpectedClose off))"
| "object_loop depth expect_close m ((Open, off) # ts) = Inl (MissingValue ''<object>'' off)"
| "object_loop depth expect_close m [(Text key, off)] = Inl (MissingValue key off)"
| "object_loop depth expect_close m ((Text key, off) # (Text v, _) # ts) =
     object_loop depth expect_close (btree_insert key (KvString v) m) ts"
| "object_loop depth expect_close m ((Text key, off) # (Close, off') # ts) = Inl (MissingValue key off')"
| "object_loop depth expect_close m ((Text key, off) # (Open, off') # ts) =
     (if max_depth < depth + 1 then Inl TooDeep
      else case object_loop (depth + 1) True [] ts of
        Inl e \<Rightarrow> Inl e
      | Inr (inner, rest) \<Rightarrow> object_loop depth expect_close (btree_insert key (KvObject inner) m) rest)"
  by pat_completeness auto

lemma object_loop_rest:
  "object_loop_dom (d, x, m, ts) \<Longrightarrow> object_loop d x m ts = Inr (m', rest) \<Longrightarrow> length rest \<le> length ts"
proof (induction arbitrary: m' rest rule: object_loop.pinduct)
  case (7 depth expect_close m key off off' ts)
  from "7.prems" "7.hyps" obtain inner r where
    "\<not> max_depth < depth + 1" "object_loop (depth + 1) True [] ts = Inr (inner, r)"
    "object_loop depth expect_close (btree_insert key (KvObject inner) m) r = Inr (m', rest)"
    by (auto simp: object_loop.psimps split: if_splits sum.splits)
  with "7.IH" show ?case by fastforce
qed (auto simp: object_loop.psimps split: if_splits)

termination object_loop
proof (relation "measure (\<lambda>(d, x, m, ts). length ts)", goal_cases)
  case (4 depth expect_close m key off off' ts x inner rest)
  then show ?case using object_loop_rest by fastforce
qed auto

definition parse_object ::
  "nat \<Rightarrow> bool \<Rightarrow> spanned_token list \<Rightarrow> (kv_error, (string \<times> kv_value) list \<times> spanned_token list) result" where
  "parse_object depth expect_close ts =
     (if max_depth < depth then Inl TooDeep else object_loop depth expect_close [] ts)"

definition parse_key_values :: "string \<Rightarrow> (kv_error, kv_value) result option" where
  "parse_key_values s =
     (if max_vdf_bytes < length s then Some (Inl TooLarge)
      else map_option (\<lambda>r. rbind r (\<lambda>ts. rbind (parse_object 0 False ts) (\<lambda>(root, rest).
        (case rest of
           [] \<Rightarrow> Inr (KvObject root)
         | (Close, off) # _ \<Rightarrow> Inl (UnexpectedClose off)
         | (_, off) # _ \<Rightarrow> Inl (MissingValue ''<root>'' off))))) (tokenize s))"

section \<open>Returning and not returning\<close>

lemma scan_quoted_rest:
  "scan_quoted start off v s = Inr (w, off', rest) \<Longrightarrow> length rest < length s \<and> set rest \<subseteq> set s"
  by (induction start off v s arbitrary: w off' rest rule: scan_quoted.induct)
    (fastforce split: if_splits list.splits)+

lemma whitespace_chars:
  "is_ascii_whitespace c \<longleftrightarrow> c \<in> {CHR '' '', CHR 0x09, CHR 0x0A, CHR 0x0C, CHR 0x0D}"
proof -
  have eq: "byte_val c = byte_val d \<longleftrightarrow> c = d" for d
    by (metis byte_val_def char_of_char)
  have "byte_val (CHR '' '') = 32" "byte_val (CHR 0x09) = 9" "byte_val (CHR 0x0A) = 10"
    "byte_val (CHR 0x0C) = 12" "byte_val (CHR 0x0D) = 13"
    by (simp_all add: byte_val_def)
  with eq show ?thesis unfolding is_ascii_whitespace_def by (metis insert_iff empty_iff)
qed

lemma token_step_rest:
  assumes "token_step off s = Inr (toks, off', rest)" "s \<noteq> []" "hd s \<noteq> CHR 0x0C"
  shows "length rest < length s \<and> set rest \<subseteq> set s"
proof -
  obtain c cs where s: "s = c # cs" using assms(2) by (cases s) auto
  consider "c \<in> {CHR '' '', CHR 0x09, CHR 0x0D, CHR 0x0A}"
    | "c = CHR ''/''" "cs \<noteq> []" "hd cs = CHR ''/''" | "c = CHR 0x22"
    | "c = CHR ''{'' \<or> c = CHR ''}''"
    | "bare_char c" "\<not> (c = CHR ''/'' \<and> cs \<noteq> [] \<and> hd cs = CHR ''/'')" "c \<noteq> CHR 0x22"
    using assms(3) s
    by (auto simp: bare_char_def whitespace_chars)
  then show ?thesis
  proof cases
    case 2
    then obtain d ds where "cs = d # ds" by (cases cs) auto
    with 2 assms(1) s show ?thesis
      by (auto simp: token_step_def Let_def dest: in_set_dropD)
  next
    case 3
    with assms(1) s show ?thesis
      by (auto simp: token_step_def Let_def result_simps dest!: scan_quoted_rest)
  next
    case 5
    then have "c \<noteq> CHR '' ''" "c \<noteq> CHR 0x09" "c \<noteq> CHR 0x0D" "c \<noteq> CHR 0x0A"
      "c \<noteq> CHR ''{''" "c \<noteq> CHR ''}''"
      by (auto simp: bare_char_def whitespace_chars)
    with 5 assms(1) s show ?thesis
      by (auto simp: token_step_def Let_def less_Suc_eq_le dest: in_set_dropD)
  qed (use assms(1) s in \<open>auto simp: token_step_def Let_def\<close>)
qed

lemma tokenize_loop_returns:
  "CHR 0x0C \<notin> set s \<Longrightarrow> \<exists>r. tokenize_loop acc off s = Some r"
proof (induction "length s" arbitrary: acc off s rule: less_induct)
  case less
  show ?case
  proof (cases "s = [] \<or> (\<exists>e. token_step off s = Inl e)")
    case True
    then show ?thesis by (auto simp: tokenize_loop.simps)
  next
    case False
    then obtain toks off' rest where st: "token_step off s = Inr (toks, off', rest)"
      by (cases "token_step off s") auto
    have "hd s \<noteq> CHR 0x0C" using less.prems False by (cases s) auto
    with token_step_rest [OF st] False less.prems have "length rest < length s" "CHR 0x0C \<notin> set rest"
      by auto
    from less.hyps [OF this] st show ?thesis using False by (subst tokenize_loop.simps) simp
  qed
qed

text \<open>
  the parser returns, with a value or an error, on every input without a form feed.
\<close>

theorem parse_key_values_returns:
  assumes "CHR 0x0C \<notin> set s"
  shows "\<exists>r. parse_key_values s = Some r"
  using tokenize_loop_returns [OF assms, of "[]" 0]
  by (auto simp: parse_key_values_def tokenize_def)

lemma parse_key_values_returns_witness: "\<exists>r. parse_key_values ''k {'' = Some r"
  by (rule parse_key_values_returns) simp

lemma tokenize_loop_form_feed:
  "tokenize_loop acc off s = Some r \<Longrightarrow> s \<noteq> [] \<Longrightarrow> hd s \<noteq> CHR 0x0C"
proof (induction acc off s r rule: tokenize_loop.raw_induct [rotated, consumes 1, case_names step])
  case (step loop acc off s r)
  show ?case
  proof
    assume ff: "hd s = CHR 0x0C"
    have "takeWhile bare_char s = []"
      using ff \<open>s \<noteq> []\<close> by (cases s) (auto simp: bare_char_def is_ascii_whitespace_def byte_val_def)
    then have "token_step off s = Inr ([(Text [], off)], off, s)"
      using ff by (simp add: token_step_def Let_def)
    with step.hyps step.prems have "loop (acc @ [(Text [], off)]) off s = Some r" by simp
    with step.IH ff \<open>s \<noteq> []\<close> show False by blast
  qed
qed

text \<open>
  C37: a form feed where a token starts makes the tokenizer loop for ever: \<open>is\_ascii\_whitespace\<close> ends a
  bare token before it, no branch skips it, and each turn pushes another empty token.
\<close>

theorem tokenize_form_feed_diverges: "tokenize (CHR 0x0C # rest) = None"
proof (cases "tokenize (CHR 0x0C # rest)")
  case (Some r)
  then show ?thesis
    unfolding tokenize_def by (auto dest: tokenize_loop_form_feed)
qed simp

section \<open>The grammar\<close>

text \<open>
  Key-value text as it is written: entries in the order of the text, where a key may come again. Its
  tokens, its nesting, and the map it stands for, in which a later entry replaces an earlier one.
\<close>

abbreviation entries_size :: "(string \<times> kv_value) list \<Rightarrow> nat" where
  "entries_size \<equiv> size_list (size_prod (\<lambda>_. 0) size)"

function kv_tokens :: "(string \<times> kv_value) list \<Rightarrow> kv_token list" where
  "kv_tokens [] = []"
| "kv_tokens ((k, KvString v) # w) = Text k # Text v # kv_tokens w"
| "kv_tokens ((k, KvObject inner) # w) = Text k # Open # kv_tokens inner @ Close # kv_tokens w"
  by pat_completeness auto
termination by (relation "measure entries_size") auto

function kv_nested :: "nat \<Rightarrow> (string \<times> kv_value) list \<Rightarrow> bool" where
  "kv_nested d [] = True"
| "kv_nested d ((k, KvString v) # w) = kv_nested d w"
| "kv_nested d ((k, KvObject inner) # w) = (0 < d \<and> kv_nested (d - 1) inner \<and> kv_nested d w)"
  by pat_completeness auto
termination by (relation "measure (\<lambda>(d, w). entries_size w)") auto

function kv_meaning :: "(string \<times> kv_value) list \<Rightarrow> (string \<times> kv_value) list \<Rightarrow> (string \<times> kv_value) list" where
  "kv_meaning m [] = m"
| "kv_meaning m ((k, KvString v) # w) = kv_meaning (btree_insert k (KvString v) m) w"
| "kv_meaning m ((k, KvObject inner) # w) = kv_meaning (btree_insert k (KvObject (kv_meaning [] inner)) m) w"
  by pat_completeness auto
termination by (relation "measure (\<lambda>(m, w). entries_size w)") auto

text \<open>The map is ordered, and the last entry of a key is the one that counts.\<close>

definition meaning_value :: "kv_value \<Rightarrow> kv_value" where
  "meaning_value v = (case v of KvString t \<Rightarrow> KvString t | KvObject inner \<Rightarrow> KvObject (kv_meaning [] inner))"

definition keys_ordered :: "(string \<times> 'v) list \<Rightarrow> bool" where
  "keys_ordered m = sorted_wrt str_less (map fst m)"

lemma str_less_trans: "str_less a b \<Longrightarrow> str_less b c \<Longrightarrow> str_less a c"
proof (induction a b arbitrary: c rule: str_less.induct)
  case (2 b y)
  then show ?case by (cases c) auto
next
  case (4 a x b y)
  then show ?case by (cases c) auto
qed auto

lemma byte_val_inj: "byte_val a = byte_val b \<Longrightarrow> a = b"
  by (metis byte_val_def char_of_char)

lemma str_less_total: "a \<noteq> b \<Longrightarrow> str_less a b \<or> str_less b a"
  by (induction a b rule: str_less.induct) (auto dest: byte_val_inj simp: linorder_neq_iff)

lemma str_less_asym: "str_less a b \<Longrightarrow> \<not> str_less b a \<and> a \<noteq> b"
  by (induction a b rule: str_less.induct) auto

lemma btree_insert_keys: "fst ` set (btree_insert k v m) = insert k (fst ` set m)"
  by (induction k v m rule: btree_insert.induct) auto

lemma btree_insert_ordered: "keys_ordered m \<Longrightarrow> keys_ordered (btree_insert k v m)"
proof (induction k v m rule: btree_insert.induct)
  case (2 k v k' v' m)
  then have tail: "keys_ordered m" "\<forall>x \<in> fst ` set m. str_less k' x" by (auto simp: keys_ordered_def)
  show ?case
  proof (cases "k = k' \<or> str_less k k'")
    case True
    then show ?thesis using 2(2) tail str_less_trans by (auto simp: keys_ordered_def)
  next
    case False
    then have "str_less k' k" using str_less_total by blast
    then show ?thesis using False 2 tail btree_insert_keys [of k v m] by (auto simp: keys_ordered_def)
  qed
qed (simp add: keys_ordered_def)

lemma btree_insert_map: "keys_ordered m \<Longrightarrow> map_of (btree_insert k v m) = (map_of m)(k \<mapsto> v)"
proof (induction k v m rule: btree_insert.induct)
  case (2 k v k' v' m)
  then show ?case by (auto simp: keys_ordered_def fun_eq_iff)
qed simp

lemma kv_meaning_map:
  "keys_ordered m \<Longrightarrow> keys_ordered (kv_meaning m w)
     \<and> map_of (kv_meaning m w) = map_of m ++ map_of (rev (map (\<lambda>(k, v). (k, meaning_value v)) w))"
  by (induction m w rule: kv_meaning.induct)
    (simp_all add: btree_insert_ordered btree_insert_map meaning_value_def map_add_upd_left [symmetric] fun_eq_iff
      map_add_def split: option.split)

lemma object_loop_complete:
  "kv_nested (max_depth - d) w \<Longrightarrow> map fst a = kv_tokens w \<Longrightarrow>
     object_loop d x m (a @ rest) = object_loop d x (kv_meaning m w) rest"
proof (induction m w arbitrary: d x a rest rule: kv_meaning.induct)
  case (2 m k v w)
  then obtain o1 o2 a' where a: "a = (Text k, o1) # (Text v, o2) # a'" "map fst a' = kv_tokens w"
    by (auto simp: map_eq_Cons_conv)
  with "2.IH" [of d a'] "2.prems" show ?case by simp
next
  case (3 m k inner w)
  then obtain o1 o2 o3 b c where a: "a = (Text k, o1) # (Open, o2) # b @ (Close, o3) # c"
    "map fst b = kv_tokens inner" "map fst c = kv_tokens w"
    by (auto simp: map_eq_Cons_conv map_eq_append_conv)
  have depth: "\<not> max_depth < d + 1" "kv_nested (max_depth - (d + 1)) inner" "kv_nested (max_depth - d) w"
    using "3.prems"(1) by auto
  have "object_loop (d + 1) True [] (b @ (Close, o3) # c @ rest) = Inr (kv_meaning [] inner, c @ rest)"
    using "3.IH"(1) [OF depth(2) a(2), of True "(Close, o3) # c @ rest"] by simp
  with "3.IH"(2) [OF depth(3) a(3)] a(1) depth(1) show ?case by simp
qed simp

lemma object_loop_sound:
  "object_loop d x m ts = Inr (m', rest) \<Longrightarrow>
     \<exists>w. kv_nested (max_depth - d) w \<and> m' = kv_meaning m w
       \<and> (if x then map fst ts = kv_tokens w @ Close # map fst rest else rest = [] \<and> map fst ts = kv_tokens w)"
proof (induction d x m ts arbitrary: m' rest rule: object_loop.induct)
  case (1 d x m)
  then show ?case by (intro exI [of _ "[]"]) (simp split: if_splits)
next
  case (2 d x m off ts)
  then show ?case by (intro exI [of _ "[]"]) (simp split: if_splits)
next
  case (5 d x m key off v off' ts)
  then obtain w where "kv_nested (max_depth - d) w" "m' = kv_meaning (btree_insert key (KvString v) m) w"
    "if x then map fst ts = kv_tokens w @ Close # map fst rest else rest = [] \<and> map fst ts = kv_tokens w"
    by fastforce
  then show ?case by (intro exI [of _ "(key, KvString v) # w"]) (simp split: if_splits)
next
  case (7 d x m key off off' ts)
  from "7.prems" obtain inner r where d: "\<not> max_depth < d + 1" and i: "object_loop (d + 1) True [] ts = Inr (inner, r)"
    and o: "object_loop d x (btree_insert key (KvObject inner) m) r = Inr (m', rest)"
    by (auto split: if_splits sum.splits)
  obtain u where u: "kv_nested (max_depth - (d + 1)) u" "inner = kv_meaning [] u"
    "map fst ts = kv_tokens u @ Close # map fst r"
    using "7.IH"(1) [OF d i] by auto
  obtain w where w: "kv_nested (max_depth - d) w" "m' = kv_meaning (btree_insert key (KvObject inner) m) w"
    "if x then map fst r = kv_tokens w @ Close # map fst rest else rest = [] \<and> map fst r = kv_tokens w"
    using "7.IH"(2) [OF d i _ o] by auto
  show ?case using u w d by (intro exI [of _ "(key, KvObject u) # w"]) (auto split: if_splits)
qed (auto split: if_splits)

text \<open>
  C36: the parser accepts exactly the key-value grammar. Of a text within the size bound that was split
  into tokens it returns an object exactly when the tokens are those of some entries, each a key with a
  string or with the entries of an object in braces, nested at most 32 deep, and then the object is the
  map of these entries, ordered by key, in which the last entry of a key counts; in every other case
  it returns an error.
\<close>

theorem key_values_grammar:
  assumes "tokenize s = Some (Inr toks)" "length s \<le> max_vdf_bytes"
  shows "(parse_key_values s = Some (Inr (KvObject m)) \<longleftrightarrow>
           (\<exists>w. map fst toks = kv_tokens w \<and> kv_nested max_depth w \<and> m = kv_meaning [] w))
    \<and> (\<forall>w. keys_ordered (kv_meaning [] w)
         \<and> map_of (kv_meaning [] w) = map_of (rev (map (\<lambda>(k, v). (k, meaning_value v)) w)))
    \<and> ((\<nexists>w. map fst toks = kv_tokens w \<and> kv_nested max_depth w) \<longrightarrow> (\<exists>e. parse_key_values s = Some (Inl e)))"
proof -
  have accept: "parse_object 0 False toks = Inr (kv_meaning [] w, [])"
    if "map fst toks = kv_tokens w" "kv_nested max_depth w" for w
    using object_loop_complete [of 0 w toks False "[]" "[]"] that by (simp add: parse_object_def)
  have only: "\<exists>w. map fst toks = kv_tokens w \<and> kv_nested max_depth w \<and> r = kv_meaning [] w \<and> rest = []"
    if "parse_object 0 False toks = Inr (r, rest)" for r rest
    using object_loop_sound [of 0 False "[]" toks r rest] that by (auto simp: parse_object_def)
  have parse: "parse_key_values s = Some (rbind (parse_object 0 False toks) (\<lambda>(root, rest).
        (case rest of [] \<Rightarrow> Inr (KvObject root) | (Close, off) # _ \<Rightarrow> Inl (UnexpectedClose off)
         | (_, off) # _ \<Rightarrow> Inl (MissingValue ''<root>'' off))))"
    using assms by (simp add: parse_key_values_def)
  have "parse_key_values s = Some (Inr (KvObject m)) \<longleftrightarrow>
           (\<exists>w. map fst toks = kv_tokens w \<and> kv_nested max_depth w \<and> m = kv_meaning [] w)"
  proof (cases "parse_object 0 False toks")
    case (Inl e)
    with accept have "\<not> (map fst toks = kv_tokens w \<and> kv_nested max_depth w)" for w by auto
    with Inl show ?thesis by (simp add: parse) blast
  next
    case (Inr x)
    obtain r rest where x: "x = (r, rest)" by (cases x)
    obtain w where w: "map fst toks = kv_tokens w" "kv_nested max_depth w" "r = kv_meaning [] w" "rest = []"
      using only [of r rest] Inr x by blast
    have "kv_meaning [] u = r" if "map fst toks = kv_tokens u" "kv_nested max_depth u" for u
      using accept [OF that] Inr x by simp
    then have "(\<exists>u. map fst toks = kv_tokens u \<and> kv_nested max_depth u \<and> m = kv_meaning [] u) \<longleftrightarrow> m = r"
      using w(1,2,3) by blast
    moreover have "parse_key_values s = Some (Inr (KvObject r))" by (simp add: parse Inr x w(4))
    ultimately show ?thesis by auto
  qed
  moreover have "\<exists>e. parse_key_values s = Some (Inl e)"
    if none: "\<nexists>w. map fst toks = kv_tokens w \<and> kv_nested max_depth w"
  proof (cases "parse_object 0 False toks")
    case (Inl e)
    then show ?thesis by (simp add: parse)
  next
    case (Inr x)
    with only [of "fst x" "snd x"] none show ?thesis by auto
  qed
  moreover have "keys_ordered ([] :: (string \<times> kv_value) list)" by (simp add: keys_ordered_def)
  ultimately show ?thesis using kv_meaning_map [of "[]"] by auto
qed

lemma sample_tokens: "tokenize ''a{b c}a 1'' = Some (Inr [(Text ''a'', 0), (Open, 1), (Text ''b'', 2), (Text ''c'', 4),
    (Close, 5), (Text ''a'', 6), (Text ''1'', 8)])"
  by (simp add: tokenize_def tokenize_loop.simps token_step_def Let_def bare_char_def is_ascii_whitespace_def byte_val_def)

lemma key_values_grammar_witness:
  "parse_key_values ''a{b c}a 1'' = Some (Inr (KvObject [(''a'', KvString ''1'')]))"
proof -
  let ?w = "[(''a'', KvObject [(''b'', KvString ''c'')]), (''a'', KvString ''1'')]"
  have "kv_nested max_depth ?w" "[(''a'', KvString ''1'')] = kv_meaning [] ?w" by (simp_all add: max_depth_def)
  then show ?thesis using key_values_grammar [OF sample_tokens, of "[(''a'', KvString ''1'')]"]
    by (simp add: max_vdf_bytes_def) (intro exI [of _ ?w], simp add: max_depth_def)
qed

text \<open>A quoted byte outside ASCII becomes its own character: the two bytes of U+00E9 become four.\<close>

lemma quoted_non_ascii:
  "scan_quoted 0 1 [] [CHR 0xC3, CHR 0xA9, CHR 0x22]
     = Inr ([CHR 0xC3, CHR 0x83, CHR 0xC2, CHR 0xA9], 4, [])"
  by code_simp

end
