(* ===== verification/Frame_Protocol.thy ===== *)
theory Frame_Protocol
  imports Rust_Strings
begin

text \<open>
  \<open>crates/kwe-frame-protocol/src/lib.rs\<close>: the shared-frame transport, a 64-byte header and two pixel
  slots in one mapping. The mapping is its list of bytes; the atomics are the little-endian fields at
  their offsets. An access past the end is an error: \<open>FramePanic\<close> for a checked slice, \<open>FrameOutside\<close> for
  one of the unsafe atomics. A snapshot is given the mapping as each of its accesses finds it; the theory
  \<open>Frame\_Seqlock\<close> interleaves a writer and a reader one access at a time. The system calls that create,
  open and map the file are not modelled.
\<close>

section \<open>Layout\<close>

definition frame_magic :: "u8 list" where "frame_magic = [0x4B, 0x57, 0x45, 0x46, 0x52, 0x4D, 0x31, 0]"
definition frame_version :: u32 where "frame_version = 1"
definition header_bytes :: nat where "header_bytes = 64"
definition slot_count :: u32 where "slot_count = 2"
definition bytes_per_pixel :: u32 where "bytes_per_pixel = 4"
definition pixel_format_bgra :: u32 where "pixel_format_bgra = 1"
definition max_dimension :: u32 where "max_dimension = 8192"
definition max_mapping_bytes :: u64 where "max_mapping_bytes = 512 * 1024 * 1024"
definition max_snapshot_attempts :: nat where "max_snapshot_attempts = 8"

definition offset_version :: nat where "offset_version = 8"
definition offset_header_bytes :: nat where "offset_header_bytes = 12"
definition offset_file_bytes :: nat where "offset_file_bytes = 16"
definition offset_width :: nat where "offset_width = 24"
definition offset_height :: nat where "offset_height = 28"
definition offset_stride :: nat where "offset_stride = 32"
definition offset_pixel_format :: nat where "offset_pixel_format = 36"
definition offset_slot_count :: nat where "offset_slot_count = 40"
definition offset_generation :: nat where "offset_generation = 48"
definition offset_active_slot :: nat where "offset_active_slot = 56"
definition offset_producer_state :: nat where "offset_producer_state = 60"

lemmas frame_offsets =
  offset_version_def offset_header_bytes_def offset_file_bytes_def offset_width_def offset_height_def
  offset_stride_def offset_pixel_format_def offset_slot_count_def offset_generation_def
  offset_active_slot_def offset_producer_state_def

lemmas frame_constants =
  frame_version_def header_bytes_def slot_count_def bytes_per_pixel_def pixel_format_bgra_def
  max_dimension_def max_mapping_bytes_def

datatype producer_state = StStarting | StRunning | StStopping | StFailed

fun producer_raw :: "producer_state \<Rightarrow> u32" where
  "producer_raw StStarting = 1"
| "producer_raw StRunning = 2"
| "producer_raw StStopping = 3"
| "producer_raw StFailed = 4"

definition producer_from_raw :: "u32 \<Rightarrow> producer_state option" where
  "producer_from_raw v =
     (if v = 1 then Some StStarting else if v = 2 then Some StRunning
      else if v = 3 then Some StStopping else if v = 4 then Some StFailed else None)"

lemma producer_from_raw_raw [simp]: "producer_from_raw (producer_raw s) = Some s"
  by (cases s) (simp_all add: producer_from_raw_def)

record frame_spec =
  fs_width :: u32
  fs_height :: u32
  fs_stride :: u32
  fs_slot_bytes :: u64
  fs_file_bytes :: u64

record snapshot_data =
  fn_spec :: frame_spec
  fn_sequence :: u64
  fn_producer_state :: producer_state
  fn_pixels :: "u8 list"

datatype frame_error =
    InvalidDimensions u32 u32 | SizeOverflow | MappingTooLarge u64 | TruncatedHeader | InvalidMagic
  | UnsupportedVersion u32 | HeaderSize | HeaderFormat | HeaderSlotCount | HeaderStride | HeaderFileSize
  | HeaderActiveSlot | HeaderProducerState | Busy | PixelLength nat nat | UnsafePath | FramePanic | FrameOutside

section \<open>Frame dimensions\<close>

definition frame_spec_new :: "u32 \<Rightarrow> u32 \<Rightarrow> (frame_error, frame_spec) result" where
  "frame_spec_new w h =
     rbind (fail_if (w = 0 \<or> h = 0 \<or> max_dimension < w \<or> max_dimension < h) (InvalidDimensions w h)) (\<lambda>_.
     rbind (ok_or (checked_mul w bytes_per_pixel) SizeOverflow) (\<lambda>stride.
     rbind (ok_or (checked_mul (ucast stride) (ucast h)) SizeOverflow) (\<lambda>slot_bytes.
     rbind (ok_or (checked_mul slot_bytes (ucast slot_count)) SizeOverflow) (\<lambda>both.
     rbind (ok_or (checked_add (word_of_nat header_bytes) both) SizeOverflow) (\<lambda>file_bytes.
     rbind (fail_if (max_mapping_bytes < file_bytes) (MappingTooLarge file_bytes)) (\<lambda>_.
       Inr \<lparr>fs_width = w, fs_height = h, fs_stride = stride, fs_slot_bytes = slot_bytes,
            fs_file_bytes = file_bytes\<rparr>))))))"

definition pixel_bytes :: "frame_spec \<Rightarrow> nat" where "pixel_bytes spec = unat (fs_slot_bytes spec)"

definition slot_offset :: "frame_spec \<Rightarrow> u32 \<Rightarrow> (frame_error, nat) result" where
  "slot_offset spec slot =
     rbind (fail_if (slot_count \<le> slot) HeaderActiveSlot) (\<lambda>_.
     rbind (ok_or (checked_mul (fs_slot_bytes spec) (ucast slot)) SizeOverflow) (\<lambda>b.
     rbind (ok_or (checked_add (word_of_nat header_bytes) b) SizeOverflow) (\<lambda>off. Inr (unat off))))"

section \<open>The header\<close>

definition initialize_header :: "frame_spec \<Rightarrow> u8 list" where
  "initialize_header spec =
     (let m = replicate (unat (fs_file_bytes spec)) 0;
          m = put_slice m 0 frame_magic;
          m = write_u32 m offset_version frame_version;
          m = write_u32 m offset_header_bytes (word_of_nat header_bytes);
          m = write_u64 m offset_file_bytes (fs_file_bytes spec);
          m = write_u32 m offset_width (fs_width spec);
          m = write_u32 m offset_height (fs_height spec);
          m = write_u32 m offset_stride (fs_stride spec);
          m = write_u32 m offset_pixel_format pixel_format_bgra;
          m = write_u32 m offset_slot_count slot_count;
          m = write_u64 m offset_generation 0;
          m = write_u32 m offset_active_slot 0
      in write_u32 m offset_producer_state (producer_raw StStarting))"

text \<open>A checked read of a field, and a read through the atomic at an offset of the mapped memory.\<close>

definition slice_bytes :: "u8 list \<Rightarrow> nat \<Rightarrow> nat \<Rightarrow> (frame_error, u8 list) result" where
  "slice_bytes m off n = (if length m < off + n then Inl FramePanic else Inr (take n (drop off m)))"

definition slice_u32 :: "u8 list \<Rightarrow> nat \<Rightarrow> (frame_error, u32) result" where
  "slice_u32 m off = (if length m < off + 4 then Inl FramePanic else Inr (read_u32 m off))"

definition slice_u64 :: "u8 list \<Rightarrow> nat \<Rightarrow> (frame_error, u64) result" where
  "slice_u64 m off = (if length m < off + 8 then Inl FramePanic else Inr (read_u64 m off))"

definition validate_header :: "u8 list \<Rightarrow> (frame_error, frame_spec) result" where
  "validate_header m =
     rbind (fail_if (length m < header_bytes) TruncatedHeader) (\<lambda>_.
     rbind (slice_bytes m 0 8) (\<lambda>magic.
     rbind (fail_if (magic \<noteq> frame_magic) InvalidMagic) (\<lambda>_.
     rbind (slice_u32 m offset_version) (\<lambda>version.
     rbind (fail_if (version \<noteq> frame_version) (UnsupportedVersion version)) (\<lambda>_.
     rbind (slice_u32 m offset_header_bytes) (\<lambda>header.
     rbind (fail_if (header \<noteq> word_of_nat header_bytes) HeaderSize) (\<lambda>_.
     rbind (slice_u32 m offset_pixel_format) (\<lambda>format.
     rbind (fail_if (format \<noteq> pixel_format_bgra) HeaderFormat) (\<lambda>_.
     rbind (slice_u32 m offset_slot_count) (\<lambda>slots.
     rbind (fail_if (slots \<noteq> slot_count) HeaderSlotCount) (\<lambda>_.
     rbind (slice_u32 m offset_width) (\<lambda>width.
     rbind (slice_u32 m offset_height) (\<lambda>height.
     rbind (frame_spec_new width height) (\<lambda>spec.
     rbind (slice_u32 m offset_stride) (\<lambda>stride.
     rbind (fail_if (stride \<noteq> fs_stride spec) HeaderStride) (\<lambda>_.
     rbind (slice_u64 m offset_file_bytes) (\<lambda>file_bytes.
     rbind (fail_if (file_bytes \<noteq> fs_file_bytes spec \<or> length m \<noteq> unat (fs_file_bytes spec)) HeaderFileSize) (\<lambda>_.
       Inr spec))))))))))))))))))"

text \<open>Behind its length check every slice of the header is in range.\<close>

lemma validate_header_reads:
  "validate_header m =
     rbind (fail_if (length m < header_bytes) TruncatedHeader) (\<lambda>_.
     rbind (fail_if (take 8 m \<noteq> frame_magic) InvalidMagic) (\<lambda>_.
     rbind (fail_if (read_u32 m offset_version \<noteq> frame_version)
              (UnsupportedVersion (read_u32 m offset_version))) (\<lambda>_.
     rbind (fail_if (read_u32 m offset_header_bytes \<noteq> word_of_nat header_bytes) HeaderSize) (\<lambda>_.
     rbind (fail_if (read_u32 m offset_pixel_format \<noteq> pixel_format_bgra) HeaderFormat) (\<lambda>_.
     rbind (fail_if (read_u32 m offset_slot_count \<noteq> slot_count) HeaderSlotCount) (\<lambda>_.
     rbind (frame_spec_new (read_u32 m offset_width) (read_u32 m offset_height)) (\<lambda>spec.
     rbind (fail_if (read_u32 m offset_stride \<noteq> fs_stride spec) HeaderStride) (\<lambda>_.
     rbind (fail_if (read_u64 m offset_file_bytes \<noteq> fs_file_bytes spec
                      \<or> length m \<noteq> unat (fs_file_bytes spec)) HeaderFileSize) (\<lambda>_.
       Inr spec)))))))))"
proof (cases "length m < header_bytes")
  case False
  then have "slice_u32 m off = Inr (read_u32 m off)" if "off + 4 \<le> 64" for off
    using that by (simp add: slice_u32_def header_bytes_def)
  moreover have "slice_u64 m off = Inr (read_u64 m off)" if "off + 8 \<le> 64" for off
    using False that by (simp add: slice_u64_def header_bytes_def)
  moreover have "slice_bytes m 0 8 = Inr (take 8 m)" using False by (simp add: slice_bytes_def header_bytes_def)
  ultimately show ?thesis by (simp add: validate_header_def frame_offsets)
qed (simp add: validate_header_def fail_if_def)

section \<open>Publishing and reading\<close>

definition generation :: "u8 list \<Rightarrow> u64" where "generation m = read_u64 m offset_generation"
definition active_slot :: "u8 list \<Rightarrow> u32" where "active_slot m = read_u32 m offset_active_slot"
definition raw_state :: "u8 list \<Rightarrow> u32" where "raw_state m = read_u32 m offset_producer_state"

definition load_u32 :: "u8 list \<Rightarrow> nat \<Rightarrow> (frame_error, u32) result" where
  "load_u32 m off = (if length m < off + 4 then Inl FrameOutside else Inr (read_u32 m off))"

definition load_generation :: "u8 list \<Rightarrow> (frame_error, u64) result" where
  "load_generation m =
     (if length m < offset_generation + 8 then Inl FrameOutside else Inr (read_u64 m offset_generation))"

definition load_active_slot :: "u8 list \<Rightarrow> (frame_error, u32) result" where
  "load_active_slot m = load_u32 m offset_active_slot"

definition load_state :: "u8 list \<Rightarrow> (frame_error, u32) result" where
  "load_state m = load_u32 m offset_producer_state"

lemma loads_in_range [simp]:
  "64 \<le> length m \<Longrightarrow> load_generation m = Inr (generation m)"
  "64 \<le> length m \<Longrightarrow> load_active_slot m = Inr (active_slot m)"
  "64 \<le> length m \<Longrightarrow> load_state m = Inr (raw_state m)"
  by (simp_all add: load_generation_def load_active_slot_def load_state_def load_u32_def generation_def
      active_slot_def raw_state_def frame_offsets)

definition odd_generation :: "u64 \<Rightarrow> u64" where
  "odd_generation g = (if unat g mod 2 = 0 then g + 1 else g + 2)"

definition next_slot :: "u32 \<Rightarrow> u32" where "next_slot s = (s + 1) mod slot_count"

definition frame_publish :: "frame_spec \<Rightarrow> u8 list \<Rightarrow> u8 list \<Rightarrow> (frame_error, u64) result \<times> u8 list" where
  "frame_publish spec pixels m =
     (if length pixels \<noteq> pixel_bytes spec then (Inl (PixelLength (length pixels) (pixel_bytes spec)), m)
      else
        (case load_generation m of Inl e \<Rightarrow> (Inl e, m) | Inr starting \<Rightarrow>
        (let odd = odd_generation starting;
             m = write_u64 m offset_generation odd
         in case load_active_slot m of Inl e \<Rightarrow> (Inl e, m) | Inr current \<Rightarrow>
            (let next = next_slot current in
             case slot_offset spec next of
              Inl e \<Rightarrow> (Inl e, m)
            | Inr off \<Rightarrow>
                if length m < off + length pixels then (Inl FramePanic, m)
                else
                  (let m = put_slice m off pixels;
                       m = write_u32 m offset_active_slot next;
                       m = write_u32 m offset_producer_state (producer_raw StRunning);
                       even = odd + 1
                   in (Inr (even div 2), write_u64 m offset_generation even))))))"

definition frame_set_state :: "producer_state \<Rightarrow> u8 list \<Rightarrow> u8 list" where
  "frame_set_state s m = write_u32 m offset_producer_state (producer_raw s)"

text \<open>
  \<open>SharedFrameReader::open\<close> on a file whose bytes are \<open>m\<close>: from then on every access finds a mapping of this
  length.
\<close>

definition reader_open :: "bool \<Rightarrow> u8 list \<Rightarrow> (frame_error, frame_spec) result" where
  "reader_open regular m =
     rbind (fail_if (\<not> regular) UnsafePath) (\<lambda>_.
     rbind (fail_if (length m < header_bytes) TruncatedHeader) (\<lambda>_.
     rbind (fail_if (unat max_mapping_bytes < length m) (MappingTooLarge (word_of_nat (length m)))) (\<lambda>_.
     validate_header m)))"

text \<open>
  One attempt of \<open>snapshot\<close>; \<open>None\<close> asks for a retry. The producer may write between any two accesses:
  \<open>v k\<close> is the mapping as access \<open>k\<close> finds it. A header or a pixel copy that is torn among several
  writes is the one of some mapping, since each of its bytes is read once.
\<close>

definition snapshot_attempt :: "(nat \<Rightarrow> u8 list) \<Rightarrow> (frame_error, snapshot_data option) result" where
  "snapshot_attempt v =
     rbind (load_generation (v 0)) (\<lambda>before.
      if unat before mod 2 \<noteq> 0 then Inr None
      else
        rbind (validate_header (v 1)) (\<lambda>spec.
        rbind (load_active_slot (v 2)) (\<lambda>slot.
        rbind (load_state (v 3)) (\<lambda>raw.
        rbind (ok_or (producer_from_raw raw) HeaderProducerState) (\<lambda>state.
        rbind (slot_offset spec slot) (\<lambda>off.
        rbind (slice_bytes (v 4) off (pixel_bytes spec)) (\<lambda>pixels.
        rbind (load_generation (v 5)) (\<lambda>after.
          if before = after \<and> unat after mod 2 = 0
          then Inr (Some \<lparr>fn_spec = spec, fn_sequence = after div 2, fn_producer_state = state,
                          fn_pixels = pixels\<rparr>)
          else Inr None))))))))"

text \<open>The bounded retry loop, over the mappings each attempt finds.\<close>

fun snapshot_retry :: "nat \<Rightarrow> (nat \<Rightarrow> nat \<Rightarrow> u8 list) \<Rightarrow> (frame_error, snapshot_data) result" where
  "snapshot_retry 0 vs = Inl Busy"
| "snapshot_retry (Suc n) vs =
     (case snapshot_attempt (vs 0) of
        Inl e \<Rightarrow> Inl e
      | Inr (Some s) \<Rightarrow> Inr s
      | Inr None \<Rightarrow> snapshot_retry n (\<lambda>k. vs (Suc k)))"

definition frame_snapshot :: "(nat \<Rightarrow> nat \<Rightarrow> u8 list) \<Rightarrow> (frame_error, snapshot_data) result" where
  "frame_snapshot vs = snapshot_retry max_snapshot_attempts vs"

text \<open>A snapshot of a mapping that nobody changes meanwhile.\<close>

abbreviation still :: "u8 list \<Rightarrow> nat \<Rightarrow> nat \<Rightarrow> u8 list" where
  "still m \<equiv> \<lambda>_ _. m"

section \<open>Sizes\<close>

lemma frame_spec_new_sizes:
  assumes "frame_spec_new w h = Inr spec"
  shows "fs_width spec = w" "fs_height spec = h"
    and "0 < unat w" "unat w \<le> 8192" "0 < unat h" "unat h \<le> 8192"
    and "unat (fs_stride spec) = 4 * unat w"
    and "unat (fs_slot_bytes spec) = 4 * unat w * unat h"
    and "unat (fs_file_bytes spec) = 64 + 2 * unat (fs_slot_bytes spec)"
    and "unat (fs_file_bytes spec) \<le> 536870912"
  using assms
  by (auto simp: frame_spec_new_def result_simps sat_simps ucast_u32_u64 frame_constants not_less
      word_le_nat_alt unat_gt_0)

lemma slot_product: "unat w \<le> 8192 \<Longrightarrow> unat h \<le> 8192 \<Longrightarrow> 4 * unat w * unat h \<le> 268435456"
  for w h :: u32
  using mult_le_mono [of "4 * unat w" 32768 "unat h" 8192] by simp

lemma frame_spec_new_total:
  assumes "0 < w" "w \<le> max_dimension" "0 < h" "h \<le> max_dimension"
  shows "(\<exists>spec. frame_spec_new w h = Inr spec) \<or> (\<exists>n. frame_spec_new w h = Inl (MappingTooLarge n))"
proof -
  have b: "unat w \<le> 8192" "unat h \<le> 8192"
    using assms by (simp_all add: max_dimension_def word_le_nat_alt)
  note prod = slot_product [OF b]
  define stride where "stride = w * bytes_per_pixel"
  have s: "checked_mul w bytes_per_pixel = Some stride" "unat stride = 4 * unat w"
    using b by (simp_all add: stride_def checked_mul_def bytes_per_pixel_def unat_word_ariths)
  define sb where "sb = (ucast stride * ucast h :: u64)"
  have sb: "checked_mul (ucast stride) (ucast h :: u64) = Some sb" "unat sb = 4 * unat w * unat h"
    using prod s(2) by (simp_all add: sb_def checked_mul_def ucast_u32_u64 unat_word_ariths)
  define both where "both = sb * ucast slot_count"
  have both: "checked_mul sb (ucast slot_count) = Some both" "unat both = 8 * unat w * unat h"
    using prod sb(2) by (simp_all add: both_def checked_mul_def slot_count_def unat_word_ariths)
  have "\<exists>fb. checked_add (word_of_nat header_bytes :: u64) both = Some fb"
    using prod both(2) by (simp add: checked_add_def header_bytes_def)
  then obtain fb where "checked_add (word_of_nat header_bytes :: u64) both = Some fb" ..
  with s(1) sb(1) both(1) assms show ?thesis
    by (cases "max_mapping_bytes < fb") (auto simp: frame_spec_new_def fail_if_def)
qed

lemma frame_spec_accepts:
  assumes "0 < unat w" "unat w \<le> 8192" "0 < unat h" "unat h \<le> 8192" "64 + 8 * unat w * unat h \<le> 536870912"
  shows "\<exists>spec. frame_spec_new w h = Inr spec"
proof -
  have "0 < w" "w \<le> max_dimension" "0 < h" "h \<le> max_dimension"
    using assms by (simp_all add: max_dimension_def word_le_nat_alt word_gt_0 unat_gt_0)
  from frame_spec_new_total [OF this] show ?thesis
  proof
    assume "\<exists>n. frame_spec_new w h = Inl (MappingTooLarge n)"
    then have "536870912 < 64 + 8 * unat w * unat h"
      by (auto simp: frame_spec_new_def result_simps sat_simps ucast_u32_u64 frame_constants
          word_less_nat_alt)
    with assms show ?thesis by simp
  qed
qed

text \<open>
  a frame specification exists exactly for dimensions of 1 to 8192 whose two slots and header fit in
  512 MiB; its stride, slot size and file size are the products as natural numbers, so the checked
  arithmetic never overflows.
\<close>

theorem frame_spec_new_correct:
  "(\<exists>spec. frame_spec_new w h = Inr spec \<and> unat (fs_stride spec) = 4 * unat w
       \<and> unat (fs_slot_bytes spec) = 4 * unat w * unat h
       \<and> unat (fs_file_bytes spec) = 64 + 8 * unat w * unat h)
     \<longleftrightarrow> 0 < unat w \<and> unat w \<le> 8192 \<and> 0 < unat h \<and> unat h \<le> 8192 \<and> 64 + 8 * unat w * unat h \<le> 536870912"
  (is "?L \<longleftrightarrow> ?R")
proof
  assume ?L
  then obtain spec where "frame_spec_new w h = Inr spec" by blast
  from frame_spec_new_sizes [OF this] show ?R by simp
next
  assume ?R
  then obtain spec where "frame_spec_new w h = Inr spec" using frame_spec_accepts [of w h] by blast
  with frame_spec_new_sizes [OF this] show ?L by simp
qed

section \<open>Fields\<close>

lemma write_as_put:
  "write_u32 m off v = put_slice m off (le_bytes 4 (unat v))"
  "write_u64 m off w = put_slice m off (le_bytes 8 (unat w))"
  by (simp_all add: write_u32_def write_u64_def)

lemma generation_puts [simp]:
  "64 \<le> length m \<Longrightarrow> generation (write_u64 m offset_generation g) = g"
  "64 \<le> length m \<Longrightarrow> generation (write_u32 m offset_active_slot s) = generation m"
  "64 \<le> length m \<Longrightarrow> generation (write_u32 m offset_producer_state s) = generation m"
  "64 \<le> off \<Longrightarrow> off + length xs \<le> length m \<Longrightarrow> generation (put_slice m off xs) = generation m"
  by (simp_all add: generation_def frame_offsets read_u64_write_u64)
    (simp_all add: write_as_put read_put_slice)

lemma active_slot_puts [simp]:
  "64 \<le> length m \<Longrightarrow> active_slot (write_u64 m offset_generation g) = active_slot m"
  "64 \<le> length m \<Longrightarrow> active_slot (write_u32 m offset_active_slot s) = s"
  "64 \<le> length m \<Longrightarrow> active_slot (write_u32 m offset_producer_state s) = active_slot m"
  "64 \<le> off \<Longrightarrow> off + length xs \<le> length m \<Longrightarrow> active_slot (put_slice m off xs) = active_slot m"
  by (auto simp: active_slot_def frame_offsets read_u32_write_u32 write_as_put(2) read_put_slice)
    (auto simp: write_as_put read_put_slice)

lemma raw_state_puts [simp]:
  "64 \<le> length m \<Longrightarrow> raw_state (write_u64 m offset_generation g) = raw_state m"
  "64 \<le> length m \<Longrightarrow> raw_state (write_u32 m offset_active_slot s) = raw_state m"
  "64 \<le> length m \<Longrightarrow> raw_state (write_u32 m offset_producer_state s) = s"
  "64 \<le> off \<Longrightarrow> off + length xs \<le> length m \<Longrightarrow> raw_state (put_slice m off xs) = raw_state m"
  by (auto simp: raw_state_def frame_offsets read_u32_write_u32 write_as_put(2) read_put_slice)
    (auto simp: write_as_put read_put_slice)

lemma header_puts [simp]:
  "64 \<le> length m \<Longrightarrow> take 48 (write_u64 m offset_generation g) = take 48 m"
  "64 \<le> length m \<Longrightarrow> take 48 (write_u32 m offset_active_slot s) = take 48 m"
  "64 \<le> length m \<Longrightarrow> take 48 (write_u32 m offset_producer_state s) = take 48 m"
  "64 \<le> off \<Longrightarrow> off + length xs \<le> length m \<Longrightarrow> take 48 (put_slice m off xs) = take 48 m"
  by (simp_all add: write_as_put frame_offsets take_put_slice)

lemma length_puts [simp]:
  "64 \<le> length m \<Longrightarrow> length (write_u64 m offset_generation g) = length m"
  "64 \<le> length m \<Longrightarrow> length (write_u32 m offset_active_slot s) = length m"
  "64 \<le> length m \<Longrightarrow> length (write_u32 m offset_producer_state s) = length m"
  by (simp_all add: frame_offsets)

definition slot_pixels :: "frame_spec \<Rightarrow> u8 list \<Rightarrow> u32 \<Rightarrow> u8 list" where
  "slot_pixels spec m slot = take (pixel_bytes spec) (drop (64 + unat slot * pixel_bytes spec) m)"

lemma slot_pixels_puts [simp]:
  "64 \<le> length m \<Longrightarrow> slot_pixels spec (write_u64 m offset_generation g) slot = slot_pixels spec m slot"
  "64 \<le> length m \<Longrightarrow> slot_pixels spec (write_u32 m offset_active_slot s) slot = slot_pixels spec m slot"
  "64 \<le> length m \<Longrightarrow> slot_pixels spec (write_u32 m offset_producer_state s) slot = slot_pixels spec m slot"
  by (auto simp: slot_pixels_def write_as_put frame_offsets take_drop_put_slice_after)

text \<open>The validity of a header depends only on its first 48 bytes and the length of the mapping.\<close>

lemma validate_header_cong:
  assumes "length m = length m'" "take 48 m = take 48 m'"
  shows "validate_header m = validate_header m'"
proof -
  have "read_u32 m i = read_u32 m' i" if "i + 4 \<le> 48" for i
    using that assms(2) by (metis read_take(1))
  moreover have "read_u64 m i = read_u64 m' i" if "i + 8 \<le> 48" for i
    using that assms(2) by (metis read_take(2))
  moreover have "take 8 m = take 8 m'"
    using arg_cong [OF assms(2), of "take 8"] by simp
  ultimately show ?thesis by (simp add: validate_header_reads assms(1) frame_offsets)
qed

lemma validate_header_sizes:
  assumes "validate_header m = Inr spec"
  shows "length m = 64 + 2 * pixel_bytes spec" "pixel_bytes spec \<le> 268435456" "0 < pixel_bytes spec"
proof -
  obtain w h where new: "frame_spec_new w h = Inr spec" and len: "length m = unat (fs_file_bytes spec)"
    using assms by (auto simp: validate_header_reads result_simps)
  note sz = frame_spec_new_sizes [OF new]
  show "length m = 64 + 2 * pixel_bytes spec" using sz len by (simp add: pixel_bytes_def)
  show "pixel_bytes spec \<le> 268435456" using sz by (simp add: pixel_bytes_def)
  show "0 < pixel_bytes spec" using sz by (simp add: pixel_bytes_def)
qed

lemma slot_offset_eq:
  assumes "pixel_bytes spec \<le> 268435456"
  shows "slot_offset spec slot = (if slot_count \<le> slot then Inl HeaderActiveSlot
           else Inr (64 + unat slot * pixel_bytes spec))"
proof (cases "slot_count \<le> slot")
  case False
  then have s: "unat slot < 2" by (simp add: slot_count_def word_less_nat_alt not_le)
  then have le: "pixel_bytes spec * unat slot \<le> 268435456"
    using assms mult_le_mono [of "pixel_bytes spec" 268435456 "unat slot" 1] by simp
  define b where "b = fs_slot_bytes spec * ucast slot"
  have b: "checked_mul (fs_slot_bytes spec) (ucast slot) = Some b" "unat b = pixel_bytes spec * unat slot"
    using le by (simp_all add: b_def checked_mul_def ucast_u32_u64 unat_word_ariths pixel_bytes_def)
  have "checked_add (word_of_nat header_bytes) b = Some (word_of_nat header_bytes + b)"
    "unat (word_of_nat header_bytes + b) = 64 + pixel_bytes spec * unat slot"
    using b(2) le by (simp_all add: checked_add_def header_bytes_def unat_word_ariths)
  with b False show ?thesis by (simp add: slot_offset_def)
qed (simp add: slot_offset_def)

section \<open>The header round trip\<close>

lemma read_write_other:
  "i + 4 \<le> length m \<Longrightarrow> j + 4 \<le> i \<or> i + 4 \<le> j \<Longrightarrow> read_u32 (write_u32 m i v) j = read_u32 m j"
  "i + 8 \<le> length m \<Longrightarrow> j + 4 \<le> i \<or> i + 8 \<le> j \<Longrightarrow> read_u32 (write_u64 m i w) j = read_u32 m j"
  "i + 4 \<le> length m \<Longrightarrow> j + 8 \<le> i \<or> i + 4 \<le> j \<Longrightarrow> read_u64 (write_u32 m i v) j = read_u64 m j"
  "i + 8 \<le> length m \<Longrightarrow> j + 8 \<le> i \<or> i + 8 \<le> j \<Longrightarrow> read_u64 (write_u64 m i w) j = read_u64 m j"
  by (simp_all add: write_as_put read_put_slice)

lemma take_write:
  "i + 4 \<le> length m \<Longrightarrow> n \<le> i \<Longrightarrow> take n (write_u32 m i v) = take n m"
  "i + 8 \<le> length m \<Longrightarrow> n \<le> i \<Longrightarrow> take n (write_u64 m i w) = take n m"
  by (simp_all add: write_as_put take_put_slice)

lemma drop_write:
  "i + 4 \<le> n \<Longrightarrow> n \<le> length m \<Longrightarrow> drop n (write_u32 m i v) = drop n m"
  "i + 8 \<le> n \<Longrightarrow> n \<le> length m \<Longrightarrow> drop n (write_u64 m i w) = drop n m"
  by (simp_all add: write_as_put put_slice_def)

lemma write_reads32:
  assumes "64 \<le> length m" "i + 4 \<le> 64"
  shows "j + 4 \<le> i \<or> i + 4 \<le> j \<Longrightarrow> read_u32 (write_u32 m i v) j = read_u32 m j"
    and "j + 8 \<le> i \<or> i + 4 \<le> j \<Longrightarrow> read_u64 (write_u32 m i v) j = read_u64 m j"
    and "n \<le> i \<Longrightarrow> take n (write_u32 m i v) = take n m"
    and "read_u32 (write_u32 m i v) i = v"
    and "drop 64 (write_u32 m i v) = drop 64 m"
  using assms by (simp_all add: read_write_other take_write read_u32_write_u32 drop_write)

lemma write_reads64:
  assumes "64 \<le> length m" "i + 8 \<le> 64"
  shows "j + 4 \<le> i \<or> i + 8 \<le> j \<Longrightarrow> read_u32 (write_u64 m i w) j = read_u32 m j"
    and "j + 8 \<le> i \<or> i + 8 \<le> j \<Longrightarrow> read_u64 (write_u64 m i w) j = read_u64 m j"
    and "n \<le> i \<Longrightarrow> take n (write_u64 m i w) = take n m"
    and "read_u64 (write_u64 m i w) i = w"
    and "drop 64 (write_u64 m i w) = drop 64 m"
  using assms by (simp_all add: read_write_other take_write read_u64_write_u64 drop_write)

lemma initialize_header_fields:
  assumes "64 \<le> unat (fs_file_bytes spec)"
  shows "length (initialize_header spec) = unat (fs_file_bytes spec)"
    and "take 8 (initialize_header spec) = frame_magic"
    and "read_u32 (initialize_header spec) offset_version = frame_version"
    and "read_u32 (initialize_header spec) offset_header_bytes = word_of_nat header_bytes"
    and "read_u64 (initialize_header spec) offset_file_bytes = fs_file_bytes spec"
    and "read_u32 (initialize_header spec) offset_width = fs_width spec"
    and "read_u32 (initialize_header spec) offset_height = fs_height spec"
    and "read_u32 (initialize_header spec) offset_stride = fs_stride spec"
    and "read_u32 (initialize_header spec) offset_pixel_format = pixel_format_bgra"
    and "read_u32 (initialize_header spec) offset_slot_count = slot_count"
    and "generation (initialize_header spec) = 0" "active_slot (initialize_header spec) = 0"
    and "raw_state (initialize_header spec) = 1"
    and "drop 64 (initialize_header spec) = replicate (unat (fs_file_bytes spec) - 64) 0"
proof -
  have m: "length (put_slice (replicate (unat (fs_file_bytes spec)) 0) 0 frame_magic)
      = unat (fs_file_bytes spec)"
    using assms by (simp add: frame_magic_def)
  have m8: "take 8 (put_slice (replicate (unat (fs_file_bytes spec)) 0) 0 frame_magic) = frame_magic"
    by (simp add: put_slice_def frame_magic_def)
  define m0 where "m0 = put_slice (replicate (unat (fs_file_bytes spec)) 0) 0 frame_magic"
  have l0: "64 \<le> length m0" "length m0 = unat (fs_file_bytes spec)" using m assms by (simp_all add: m0_def)
  define m1 where "m1 = write_u32 m0 8 frame_version"
  have l1: "64 \<le> length m1" "length m1 = unat (fs_file_bytes spec)" using l0 by (simp_all add: m1_def)
  note r1 = write_reads32 [OF l0(1), where i = 8 and v = "frame_version", folded m1_def, simplified]
  define m2 where "m2 = write_u32 m1 12 (word_of_nat header_bytes)"
  have l2: "64 \<le> length m2" "length m2 = unat (fs_file_bytes spec)" using l1 by (simp_all add: m2_def)
  note r2 = write_reads32 [OF l1(1), where i = 12 and v = "(word_of_nat header_bytes)", folded m2_def, simplified]
  define m3 where "m3 = write_u64 m2 16 (fs_file_bytes spec)"
  have l3: "64 \<le> length m3" "length m3 = unat (fs_file_bytes spec)" using l2 by (simp_all add: m3_def)
  note r3 = write_reads64 [OF l2(1), where i = 16 and w = "(fs_file_bytes spec)", folded m3_def, simplified]
  define m4 where "m4 = write_u32 m3 24 (fs_width spec)"
  have l4: "64 \<le> length m4" "length m4 = unat (fs_file_bytes spec)" using l3 by (simp_all add: m4_def)
  note r4 = write_reads32 [OF l3(1), where i = 24 and v = "(fs_width spec)", folded m4_def, simplified]
  define m5 where "m5 = write_u32 m4 28 (fs_height spec)"
  have l5: "64 \<le> length m5" "length m5 = unat (fs_file_bytes spec)" using l4 by (simp_all add: m5_def)
  note r5 = write_reads32 [OF l4(1), where i = 28 and v = "(fs_height spec)", folded m5_def, simplified]
  define m6 where "m6 = write_u32 m5 32 (fs_stride spec)"
  have l6: "64 \<le> length m6" "length m6 = unat (fs_file_bytes spec)" using l5 by (simp_all add: m6_def)
  note r6 = write_reads32 [OF l5(1), where i = 32 and v = "(fs_stride spec)", folded m6_def, simplified]
  define m7 where "m7 = write_u32 m6 36 pixel_format_bgra"
  have l7: "64 \<le> length m7" "length m7 = unat (fs_file_bytes spec)" using l6 by (simp_all add: m7_def)
  note r7 = write_reads32 [OF l6(1), where i = 36 and v = "pixel_format_bgra", folded m7_def, simplified]
  define m8 where "m8 = write_u32 m7 40 slot_count"
  have l8: "64 \<le> length m8" "length m8 = unat (fs_file_bytes spec)" using l7 by (simp_all add: m8_def)
  note r8 = write_reads32 [OF l7(1), where i = 40 and v = "slot_count", folded m8_def, simplified]
  define m9 where "m9 = write_u64 m8 48 0"
  have l9: "64 \<le> length m9" "length m9 = unat (fs_file_bytes spec)" using l8 by (simp_all add: m9_def)
  note r9 = write_reads64 [OF l8(1), where i = 48 and w = "0", folded m9_def, simplified]
  define m10 where "m10 = write_u32 m9 56 0"
  have l10: "64 \<le> length m10" "length m10 = unat (fs_file_bytes spec)" using l9 by (simp_all add: m10_def)
  note r10 = write_reads32 [OF l9(1), where i = 56 and v = "0", folded m10_def, simplified]
  define m11 where "m11 = write_u32 m10 60 1"
  have l11: "64 \<le> length m11" "length m11 = unat (fs_file_bytes spec)" using l10 by (simp_all add: m11_def)
  note r11 = write_reads32 [OF l10(1), where i = 60 and v = "1", folded m11_def, simplified]
  have ih: "initialize_header spec = m11"
    by (simp add: initialize_header_def Let_def frame_offsets m0_def m1_def m2_def m3_def m4_def m5_def m6_def m7_def m8_def m9_def m10_def m11_def)
  note fields = ih frame_offsets l11 r1 r2 r3 r4 r5 r6 r7 r8 r9 r10 r11
  show "length (initialize_header spec) = unat (fs_file_bytes spec)" by (simp add: fields)
  show "take 8 (initialize_header spec) = frame_magic" by (simp add: fields m8 [folded m0_def])
  show "read_u32 (initialize_header spec) offset_version = frame_version" by (simp add: fields)
  show "read_u32 (initialize_header spec) offset_header_bytes = word_of_nat header_bytes" by (simp add: fields)
  show "read_u64 (initialize_header spec) offset_file_bytes = fs_file_bytes spec" by (simp add: fields)
  show "read_u32 (initialize_header spec) offset_width = fs_width spec" by (simp add: fields)
  show "read_u32 (initialize_header spec) offset_height = fs_height spec" by (simp add: fields)
  show "read_u32 (initialize_header spec) offset_stride = fs_stride spec" by (simp add: fields)
  show "read_u32 (initialize_header spec) offset_pixel_format = pixel_format_bgra" by (simp add: fields)
  show "read_u32 (initialize_header spec) offset_slot_count = slot_count" by (simp add: fields)
  show "generation (initialize_header spec) = 0" by (simp add: fields generation_def)
  show "active_slot (initialize_header spec) = 0" by (simp add: fields active_slot_def)
  show "raw_state (initialize_header spec) = 1" by (simp add: fields raw_state_def)
  show "drop 64 (initialize_header spec) = replicate (unat (fs_file_bytes spec) - 64) 0"
    by (simp add: fields) (simp add: m0_def put_slice_def frame_magic_def)
qed

lemma validate_initialized:
  assumes "frame_spec_new w h = Inr spec"
  shows "validate_header (initialize_header spec) = Inr spec"
proof -
  note sz = frame_spec_new_sizes [OF assms]
  have "64 \<le> unat (fs_file_bytes spec)" using sz(9) by simp
  from initialize_header_fields [OF this] assms sz show ?thesis
    by (simp add: validate_header_reads header_bytes_def)
qed

text \<open>
  a fresh header is accepted by \<open>validate\_header\<close>, which reads back the specification it was
  written from; its generation is 0, its active slot 0 and its producer state Starting.
\<close>

theorem initialize_validate:
  assumes "frame_spec_new w h = Inr spec"
  shows "validate_header (initialize_header spec) = Inr spec \<and> generation (initialize_header spec) = 0
    \<and> active_slot (initialize_header spec) = 0
    \<and> producer_from_raw (raw_state (initialize_header spec)) = Some StStarting"
proof -
  note sz = frame_spec_new_sizes [OF assms]
  have "64 \<le> unat (fs_file_bytes spec)" using sz(9) by simp
  note f = initialize_header_fields [OF this]
  show ?thesis using f validate_initialized [OF assms] by (simp add: producer_from_raw_def)
qed

definition sample_spec :: frame_spec where
  "sample_spec = \<lparr>fs_width = 1, fs_height = 1, fs_stride = 4, fs_slot_bytes = 4, fs_file_bytes = 72\<rparr>"

lemma sample_spec_new: "frame_spec_new 1 1 = Inr sample_spec"
  by (simp add: frame_spec_new_def frame_constants checked_mul_def checked_add_def sample_spec_def)

lemma initialize_validate_witness: "validate_header (initialize_header sample_spec) = Inr sample_spec"
  using initialize_validate [OF sample_spec_new] by blast

section \<open>Publishing\<close>

lemma odd_even_generation:
  "unat g mod 2 = 0 \<Longrightarrow> odd_generation g + 1 = g + 2"
  "unat g mod 2 = 0 \<Longrightarrow> odd_generation g = g + 1"
  by (simp_all add: odd_generation_def add.commute)

lemma even_plus: "unat g mod 2 = 0 \<Longrightarrow> unat (g + 2) mod 2 = 0" for g :: u64
proof -
  assume "unat g mod 2 = 0"
  then have "(unat g + 2) mod 2 = 0" by simp
  then show ?thesis by (simp add: unat_word_ariths mod_mod_cancel)
qed

lemma even_plus_one: "unat g mod 2 = 0 \<Longrightarrow> unat (g + 1) mod 2 = 1" for g :: u64
proof -
  assume "unat g mod 2 = 0"
  then have "(unat g + 1) mod 2 = 1" by presburger
  then show ?thesis by (simp add: unat_word_ariths mod_mod_cancel)
qed

lemma next_slot_less: "next_slot s < slot_count"
proof -
  have "unat (next_slot s) < 2" by (simp add: next_slot_def slot_count_def unat_mod)
  then show ?thesis by (simp add: slot_count_def word_less_nat_alt)
qed

lemma next_slot_other: "s < slot_count \<Longrightarrow> next_slot s \<noteq> s"
proof -
  assume "s < slot_count"
  then have "unat s < 2" by (simp add: slot_count_def word_less_nat_alt)
  then have "unat s = 0 \<or> unat s = 1" by linarith
  then have "unat (next_slot s) \<noteq> unat s"
    by (elim disjE) (simp_all add: next_slot_def slot_count_def unat_mod unat_word_ariths)
  then show ?thesis by auto
qed

lemma slot_fits:
  assumes "validate_header m = Inr spec" "s < slot_count"
  shows "64 + unat s * pixel_bytes spec + pixel_bytes spec \<le> length m"
proof -
  have "unat s \<le> 1" using assms(2) by (simp add: slot_count_def word_less_nat_alt)
  then have "unat s * pixel_bytes spec \<le> 1 * pixel_bytes spec" by (rule mult_le_mono1)
  then show ?thesis using validate_header_sizes(1) [OF assms(1)] by simp
qed

lemma slot_pixels_put:
  assumes "length pixels = pixel_bytes spec" "a < slot_count" "b < slot_count"
    "length m = 64 + 2 * pixel_bytes spec"
  shows "slot_pixels spec (put_slice m (64 + unat b * pixel_bytes spec) pixels) a =
    (if a = b then pixels else slot_pixels spec m a)"
proof -
  have ab: "unat a = 0 \<or> unat a = 1" "unat b = 0 \<or> unat b = 1"
    using assms(2,3) by (auto simp: slot_count_def word_less_nat_alt)
  show ?thesis
  proof (cases "a = b")
    case True
    have "64 + unat b * pixel_bytes spec + length pixels \<le> length m"
      using ab(2) assms(1,4) by auto
    from put_slice_same [OF this] show ?thesis using True assms(1) by (simp add: slot_pixels_def)
  next
    case False
    then have "unat a \<noteq> unat b" by (simp add: word_unat_eq_iff)
    with ab consider "unat a = 0" "unat b = 1" | "unat a = 1" "unat b = 0" by auto
    then show ?thesis
    proof cases
      case 1
      then show ?thesis using assms(1,4) False
        by (simp add: slot_pixels_def take_drop_put_slice_before)
    next
      case 2
      have "take (pixel_bytes spec) (drop (64 + 1 * pixel_bytes spec) (put_slice m 64 pixels))
          = take (pixel_bytes spec) (drop (64 + 1 * pixel_bytes spec) m)"
        using assms(1,4) by (intro take_drop_put_slice_after) auto
      then show ?thesis using 2 False by (simp only: slot_pixels_def if_False mult_0 add_0_right)
    qed
  qed
qed

lemma snapshot_attempt_even:
  assumes "validate_header m = Inr spec" "unat (generation m) mod 2 = 0" "active_slot m < slot_count"
    "producer_from_raw (raw_state m) = Some st"
  shows "snapshot_attempt (\<lambda>_. m) = Inr (Some \<lparr>fn_spec = spec, fn_sequence = generation m div 2,
    fn_producer_state = st, fn_pixels = slot_pixels spec m (active_slot m)\<rparr>)"
proof -
  let ?off = "64 + unat (active_slot m) * pixel_bytes spec"
  have "slice_bytes m ?off (pixel_bytes spec) = Inr (slot_pixels spec m (active_slot m))"
    using slot_fits [OF assms(1,3)] by (simp add: slice_bytes_def slot_pixels_def)
  moreover have "slot_offset spec (active_slot m) = Inr ?off"
    using slot_offset_eq [OF validate_header_sizes(2) [OF assms(1)]] assms(3) by (simp add: not_le)
  moreover have "64 \<le> length m" using validate_header_sizes(1) [OF assms(1)] by simp
  ultimately show ?thesis using assms by (simp add: snapshot_attempt_def)
qed

lemma frame_publish_effect:
  assumes "validate_header m = Inr spec" "length pixels = pixel_bytes spec" "active_slot m < slot_count"
  shows "\<exists>m'. frame_publish spec pixels m = (Inr ((odd_generation (generation m) + 1) div 2), m')
     \<and> validate_header m' = Inr spec \<and> generation m' = odd_generation (generation m) + 1
     \<and> active_slot m' = next_slot (active_slot m) \<and> raw_state m' = 2
     \<and> slot_pixels spec m' (next_slot (active_slot m)) = pixels
     \<and> slot_pixels spec m' (active_slot m) = slot_pixels spec m (active_slot m)"
proof -
  note sz = validate_header_sizes [OF assms(1)]
  define n where "n = next_slot (active_slot m)"
  define m1 where "m1 = write_u64 m offset_generation (odd_generation (generation m))"
  define off where "off = 64 + unat n * pixel_bytes spec"
  define m2 where "m2 = put_slice m1 off pixels"
  define m3 where "m3 = write_u32 m2 offset_active_slot n"
  define m4 where "m4 = write_u32 m3 offset_producer_state (producer_raw StRunning)"
  define m5 where "m5 = write_u64 m4 offset_generation (odd_generation (generation m) + 1)"
  have n: "n < slot_count" "\<not> slot_count \<le> n" using next_slot_less [of "active_slot m"] by (auto simp: n_def)
  have len: "64 \<le> length m" using sz by simp
  then have l1: "length m1 = length m" by (simp add: m1_def)
  have fit: "off + length pixels \<le> length m1"
    using slot_fits [OF assms(1) n(1)] assms(2) l1 by (simp add: off_def)
  then have l2: "length m2 = length m" using l1 by (simp add: m2_def)
  have l3: "length m3 = length m" using l2 len by (simp add: m3_def)
  have l4: "length m4 = length m" using l3 len by (simp add: m4_def)
  have l5: "length m5 = length m" using l4 len by (simp add: m5_def)
  have o64: "64 \<le> off" by (simp add: off_def)
  have "take 48 m5 = take 48 m"
    using len l1 l2 l3 l4 fit o64 by (simp add: m5_def m4_def m3_def m2_def m1_def)
  then have "validate_header m5 = Inr spec" using validate_header_cong [OF l5] assms(1) by simp
  moreover have "generation m5 = odd_generation (generation m) + 1" using l4 len by (simp add: m5_def)
  moreover have "active_slot m5 = n" "raw_state m5 = 2"
    using len l2 l3 l4 by (simp_all add: m5_def m4_def m3_def)
  moreover have px: "slot_pixels spec m5 s = (if s = n then pixels else slot_pixels spec m s)"
    if "s < slot_count" for s
  proof -
    have "slot_pixels spec m5 s = slot_pixels spec m2 s"
      using len l2 l3 l4 by (simp add: m5_def m4_def m3_def)
    also have "\<dots> = (if s = n then pixels else slot_pixels spec m1 s)"
      unfolding m2_def off_def using assms(2) that n(1) sz(1) l1 by (intro slot_pixels_put) auto
    finally show ?thesis using len by (simp add: m1_def)
  qed
  moreover have "frame_publish spec pixels m = (Inr ((odd_generation (generation m) + 1) div 2), m5)"
  proof -
    have "active_slot m1 = active_slot m" using len by (simp add: m1_def)
    moreover have "slot_offset spec n = Inr off" using slot_offset_eq [OF sz(2), of n] n(2) by (simp add: off_def)
    moreover have "\<not> length m1 < off + length pixels" using fit by simp
    ultimately show ?thesis
      using assms(2) len l1 unfolding frame_publish_def Let_def m5_def m4_def m3_def m2_def
      by (simp add: m1_def [symmetric] n_def [symmetric])
  qed
  ultimately show ?thesis
    using n(1) assms(3) next_slot_other [OF assms(3)] by (auto simp: n_def)
qed

text \<open>
  publishing into a valid mapping at rest succeeds, numbers the frame with half the new generation,
  leaves the mapping valid and at rest and the previously shown slot untouched, and the next snapshot
  returns exactly the published pixels with that number.
\<close>

theorem publish_then_snapshot:
  assumes "validate_header m = Inr spec" "unat (generation m) mod 2 = 0" "active_slot m < slot_count"
    and "length pixels = pixel_bytes spec"
  shows "\<exists>m'. frame_publish spec pixels m = (Inr ((generation m + 2) div 2), m')
     \<and> frame_snapshot (still m') = Inr \<lparr>fn_spec = spec, fn_sequence = (generation m + 2) div 2,
         fn_producer_state = StRunning, fn_pixels = pixels\<rparr>
     \<and> slot_pixels spec m' (active_slot m) = slot_pixels spec m (active_slot m)
     \<and> unat (generation m') mod 2 = 0 \<and> active_slot m' < slot_count \<and> validate_header m' = Inr spec"
proof -
  note odd = odd_even_generation [OF assms(2)]
  obtain m' where m': "frame_publish spec pixels m = (Inr ((generation m + 2) div 2), m')"
    "validate_header m' = Inr spec" "generation m' = generation m + 2"
    "active_slot m' = next_slot (active_slot m)" "raw_state m' = 2"
    "slot_pixels spec m' (next_slot (active_slot m)) = pixels"
    "slot_pixels spec m' (active_slot m) = slot_pixels spec m (active_slot m)"
    using frame_publish_effect [OF assms(1,4,3)] unfolding odd(1) by blast
  have st: "producer_from_raw (raw_state m') = Some StRunning" by (simp add: m'(5) producer_from_raw_def)
  have "frame_snapshot (still m') = Inr \<lparr>fn_spec = spec, fn_sequence = (generation m + 2) div 2,
         fn_producer_state = StRunning, fn_pixels = pixels\<rparr>"
    using snapshot_attempt_even [OF m'(2) _ _ st] m'(3,4,6) even_plus [OF assms(2)] next_slot_less
    by (simp add: frame_snapshot_def max_snapshot_attempts_def numeral_eq_Suc)
  then show ?thesis using m' even_plus [OF assms(2)] next_slot_less by auto
qed

lemma publish_then_snapshot_witness:
  "\<exists>m'. frame_publish sample_spec [1, 2, 3, 4] (initialize_header sample_spec) = (Inr 1, m')
     \<and> frame_snapshot (still m') = Inr \<lparr>fn_spec = sample_spec, fn_sequence = 1,
         fn_producer_state = StRunning, fn_pixels = [1, 2, 3, 4]\<rparr>"
proof -
  have h: "64 \<le> unat (fs_file_bytes sample_spec)" by (simp add: sample_spec_def)
  note f = initialize_header_fields [OF h]
  have "unat (generation (initialize_header sample_spec)) mod 2 = 0"
    "active_slot (initialize_header sample_spec) < slot_count"
    "length [1, 2, 3, 4 :: u8] = pixel_bytes sample_spec"
    using f(11,12) by (simp_all add: slot_count_def pixel_bytes_def sample_spec_def)
  from publish_then_snapshot [OF validate_initialized [OF sample_spec_new] this]
  show ?thesis unfolding f(11) by auto
qed

lemma validate_header_in_range: "validate_header m \<noteq> Inl FramePanic" "validate_header m \<noteq> Inl FrameOutside"
  by (auto simp: validate_header_reads frame_spec_new_def result_simps)

lemma reader_open_length: "reader_open regular m = Inr spec \<Longrightarrow> 64 \<le> length m"
  by (simp add: reader_open_def result_simps header_bytes_def)

lemma reader_open_in_range: "reader_open regular m \<noteq> Inl FramePanic" "reader_open regular m \<noteq> Inl FrameOutside"
  using validate_header_in_range [of m] by (auto simp: reader_open_def result_simps fail_if_def)

text \<open>What a successful attempt has seen.\<close>

definition snapshot_seen :: "(nat \<Rightarrow> u8 list) \<Rightarrow> snapshot_data \<Rightarrow> bool" where
  "snapshot_seen v s \<longleftrightarrow>
     validate_header (v 1) = Inr (fn_spec s) \<and> active_slot (v 2) < slot_count
     \<and> producer_from_raw (raw_state (v 3)) = Some (fn_producer_state s)
     \<and> length (fn_pixels s) = pixel_bytes (fn_spec s)
     \<and> fn_pixels s = slot_pixels (fn_spec s) (v 4) (active_slot (v 2))
     \<and> generation (v 5) = generation (v 0) \<and> unat (generation (v 0)) mod 2 = 0
     \<and> fn_sequence s = generation (v 0) div 2"

lemma attempt_safe:
  assumes "\<And>k. length (v k) = n" "64 \<le> n"
  shows "snapshot_attempt v \<noteq> Inl FramePanic" "snapshot_attempt v \<noteq> Inl FrameOutside"
    and "snapshot_attempt v = Inr (Some s) \<Longrightarrow> snapshot_seen v s"
proof -
  have "snapshot_attempt v \<noteq> Inl FramePanic \<and> snapshot_attempt v \<noteq> Inl FrameOutside
      \<and> (snapshot_attempt v = Inr (Some s) \<longrightarrow> snapshot_seen v s)"
  proof (cases "validate_header (v 1)")
    case (Inl e)
    with validate_header_in_range [of "v 1"] show ?thesis by (auto simp: snapshot_attempt_def assms)
  next
    case (Inr spec)
    have header: "validate_header (v (Suc 0)) = Inr spec" using Inr by simp
    note so = slot_offset_eq [OF validate_header_sizes(2) [OF Inr], of "active_slot (v 2)"]
    show ?thesis
    proof (cases "active_slot (v 2) < slot_count")
      case True
      let ?off = "64 + unat (active_slot (v 2)) * pixel_bytes spec"
      have fits: "?off + pixel_bytes spec \<le> length (v 4)"
        using slot_fits [OF Inr True] by (simp add: assms(1))
      then have "slice_bytes (v 4) ?off (pixel_bytes spec) = Inr (slot_pixels spec (v 4) (active_slot (v 2)))"
        "length (slot_pixels spec (v 4) (active_slot (v 2))) = pixel_bytes spec"
        by (simp_all add: slice_bytes_def slot_pixels_def)
      with so True show ?thesis
        by (auto simp: snapshot_attempt_def assms header not_le snapshot_seen_def ok_or_def split: option.splits)
    next
      case False
      with so show ?thesis by (auto simp: snapshot_attempt_def assms header ok_or_def split: option.splits)
    qed
  qed
  then show "snapshot_attempt v \<noteq> Inl FramePanic" "snapshot_attempt v \<noteq> Inl FrameOutside"
    "snapshot_attempt v = Inr (Some s) \<Longrightarrow> snapshot_seen v s" by blast+
qed

lemma retry_safe:
  assumes "\<And>k i. length (vs k i) = n" "64 \<le> n"
  shows "snapshot_retry j vs \<noteq> Inl FramePanic \<and> snapshot_retry j vs \<noteq> Inl FrameOutside
    \<and> (snapshot_retry j vs = Inr s \<longrightarrow> (\<exists>k<j. snapshot_seen (vs k) s))"
  using assms
proof (induction j arbitrary: vs)
  case (Suc j)
  note first = attempt_safe [of "vs 0" n, OF Suc.prems]
  note rest = Suc.IH [of "\<lambda>k. vs (Suc k)", OF Suc.prems]
  show ?case
  proof (cases "snapshot_attempt (vs 0)")
    case (Inl e)
    with first(1,2) show ?thesis by auto
  next
    case (Inr x)
    with first(3) rest show ?thesis by (cases x) (fastforce simp: Suc_less_eq)+
  qed
qed simp

text \<open>
  C24: a reader is safe against any producer. Validating a header and opening a mapping of any length never
  read out of it. For a mapping that was opened, whatever the producer writes between any two accesses of
  any attempt, a snapshot never reads out of the mapping; and one that succeeds carries exactly the pixels
  of the slot it loaded, of a header it validated, under a generation that is even and the same before
  and after.
\<close>

theorem snapshot_safe:
  assumes "reader_open regular m = Inr spec" "\<And>k i. length (vs k i) = length m"
  shows "(\<forall>x b e. e \<in> {FramePanic, FrameOutside} \<longrightarrow> validate_header x \<noteq> Inl e \<and> reader_open b x \<noteq> Inl e)
    \<and> (\<forall>e \<in> {FramePanic, FrameOutside}. frame_snapshot vs \<noteq> Inl e)
    \<and> (\<forall>s. frame_snapshot vs = Inr s \<longrightarrow> (\<exists>k < max_snapshot_attempts. snapshot_seen (vs k) s))"
  using retry_safe [OF assms(2) reader_open_length [OF assms(1)]] validate_header_in_range reader_open_in_range
  by (auto simp: frame_snapshot_def)

text \<open>A producer that publishes between the accesses of the first attempt; the second one finds it at rest.\<close>

lemma sample_reader_open: "reader_open True (initialize_header sample_spec) = Inr sample_spec"
proof -
  have h: "64 \<le> unat (fs_file_bytes sample_spec)" by (simp add: sample_spec_def)
  show ?thesis using validate_initialized [OF sample_spec_new] initialize_header_fields(1) [OF h]
    by (simp add: reader_open_def sample_spec_def header_bytes_def max_mapping_bytes_def)
qed

definition sample_views :: "nat \<Rightarrow> nat \<Rightarrow> u8 list" where
  "sample_views k i = (if k = 0 \<and> i = 5 then write_u64 (initialize_header sample_spec) offset_generation 1
     else initialize_header sample_spec)"

lemma sample_retry: "frame_snapshot sample_views = Inr \<lparr>fn_spec = sample_spec, fn_sequence = 0,
    fn_producer_state = StStarting, fn_pixels = [0, 0, 0, 0]\<rparr>"
proof -
  let ?m = "initialize_header sample_spec"
  have h: "64 \<le> unat (fs_file_bytes sample_spec)" by (simp add: sample_spec_def)
  note f = initialize_header_fields [OF h]
  have len: "64 \<le> length ?m" using f(1) h by simp
  have v: "validate_header ?m = Inr sample_spec" by (rule validate_initialized [OF sample_spec_new])
  have off: "slot_offset sample_spec 0 = Inr 64"
    by (simp add: slot_offset_def sample_spec_def frame_constants checked_mul_def checked_add_def)
  have px: "slice_bytes ?m 64 4 = Inr [0, 0, 0, 0]"
  proof -
    have zeros: "drop 64 ?m = replicate 8 0" and long: "length ?m = 72"
      using f(1,14) by (simp_all add: sample_spec_def)
    have "take 4 (drop 64 ?m) = replicate 4 0" unfolding zeros by simp
    then show ?thesis by (simp add: slice_bytes_def long) (simp add: numeral_eq_Suc)
  qed
  have pb: "pixel_bytes sample_spec = 4" by (simp add: pixel_bytes_def sample_spec_def)
  have "snapshot_attempt (sample_views 0) = Inr None"
    by (simp add: snapshot_attempt_def sample_views_def len f(11,12,13) v off px pb producer_from_raw_def)
  moreover have "snapshot_attempt (sample_views (Suc 0)) = Inr (Some \<lparr>fn_spec = sample_spec, fn_sequence = 0,
      fn_producer_state = StStarting, fn_pixels = [0, 0, 0, 0]\<rparr>)"
    by (simp add: snapshot_attempt_def sample_views_def len f(11,12,13) v off px pb producer_from_raw_def)
  ultimately show ?thesis by (simp add: frame_snapshot_def max_snapshot_attempts_def numeral_eq_Suc)
qed

lemma snapshot_safe_witness:
  "\<exists>k < max_snapshot_attempts. snapshot_seen (sample_views k) \<lparr>fn_spec = sample_spec, fn_sequence = 0,
     fn_producer_state = StStarting, fn_pixels = [0, 0, 0, 0]\<rparr>"
proof -
  have h: "64 \<le> unat (fs_file_bytes sample_spec)" by (simp add: sample_spec_def)
  have "length (sample_views k i) = length (initialize_header sample_spec)" for k i
    using initialize_header_fields(1) [OF h] h by (simp add: sample_views_def)
  note safe = snapshot_safe [of True _ _ sample_views, OF sample_reader_open this]
  show ?thesis by (rule safe [THEN conjunct2, THEN conjunct2, THEN spec, THEN mp, OF sample_retry])
qed

end
