(* ===== verification/Frame_Seqlock.thy ===== *)
theory Frame_Seqlock
  imports Frame_Protocol
begin

text \<open>
  The seqlock of the shared-frame transport under interleaving: one writer running \<open>publish\<close> and one
  reader running \<open>snapshot\<close> take turns at every access to the mapping (each atomic access and each
  byte of a pixel copy is one step, in program order). The published frames are kept as a ghost log.
  The processor's weak memory order is not modelled: the fences of the source are what makes the
  accesses appear in this order.
\<close>

section \<open>Steps\<close>

datatype writer_pc =
    WIdle
  | WCopy "u8 list" u64 u32 nat
  | WState "u8 list" u64
  | WEven "u8 list" u64

datatype reader_pc =
    RIdle
  | RLoadSlot u64
  | RLoadState u64 u32
  | RCopy u64 u32 producer_state "u8 list"
  | RDone snapshot_data

record shared_frame =
  sf_map :: "u8 list"
  sf_writer :: writer_pc
  sf_reader :: reader_pc
  sf_log :: "u8 list list"

definition slot_base :: "frame_spec \<Rightarrow> u32 \<Rightarrow> nat" where
  "slot_base spec slot = 64 + unat slot * pixel_bytes spec"

inductive writer_step :: "frame_spec \<Rightarrow> shared_frame \<Rightarrow> shared_frame \<Rightarrow> bool" for spec where
  begin_publish:
    "sf_writer s = WIdle \<Longrightarrow> length pixels = pixel_bytes spec \<Longrightarrow> og = odd_generation (generation (sf_map s))
     \<Longrightarrow> writer_step spec s (s\<lparr>sf_map := write_u64 (sf_map s) offset_generation og,
           sf_writer := WCopy pixels og (next_slot (active_slot (sf_map s))) 0\<rparr>)"
| copy_byte:
    "sf_writer s = WCopy pixels og next k \<Longrightarrow> k < length pixels
     \<Longrightarrow> writer_step spec s (s\<lparr>sf_map := put_slice (sf_map s) (slot_base spec next + k) [pixels ! k],
           sf_writer := WCopy pixels og next (Suc k)\<rparr>)"
| store_slot:
    "sf_writer s = WCopy pixels og next k \<Longrightarrow> k = length pixels
     \<Longrightarrow> writer_step spec s (s\<lparr>sf_map := write_u32 (sf_map s) offset_active_slot next,
           sf_writer := WState pixels og\<rparr>)"
| store_state:
    "sf_writer s = WState pixels og
     \<Longrightarrow> writer_step spec s (s\<lparr>sf_map := write_u32 (sf_map s) offset_producer_state (producer_raw StRunning),
           sf_writer := WEven pixels og\<rparr>)"
| end_publish:
    "sf_writer s = WEven pixels og
     \<Longrightarrow> writer_step spec s (s\<lparr>sf_map := write_u64 (sf_map s) offset_generation (og + 1),
           sf_writer := WIdle, sf_log := sf_log s @ [pixels]\<rparr>)"
| set_state:
    "sf_writer s = WIdle
     \<Longrightarrow> writer_step spec s (s\<lparr>sf_map := frame_set_state st (sf_map s)\<rparr>)"

inductive reader_step :: "shared_frame \<Rightarrow> shared_frame \<Rightarrow> bool" where
  load_even:
    "sf_reader s = RIdle \<Longrightarrow> unat (generation (sf_map s)) mod 2 = 0
     \<Longrightarrow> reader_step s (s\<lparr>sf_reader := RLoadSlot (generation (sf_map s))\<rparr>)"
| load_slot:
    "sf_reader s = RLoadSlot before
     \<Longrightarrow> reader_step s (s\<lparr>sf_reader := RLoadState before (active_slot (sf_map s))\<rparr>)"
| load_state:
    "sf_reader s = RLoadState before slot \<Longrightarrow> producer_from_raw (raw_state (sf_map s)) = Some st
     \<Longrightarrow> slot < slot_count \<Longrightarrow> reader_step s (s\<lparr>sf_reader := RCopy before slot st []\<rparr>)"
| read_byte:
    "sf_reader s = RCopy before slot st buf \<Longrightarrow> validate_header (sf_map s) = Inr spec
     \<Longrightarrow> length buf < pixel_bytes spec
     \<Longrightarrow> reader_step s
           (s\<lparr>sf_reader := RCopy before slot st (buf @ [sf_map s ! (slot_base spec slot + length buf)])\<rparr>)"
| finish:
    "sf_reader s = RCopy before slot st buf \<Longrightarrow> validate_header (sf_map s) = Inr spec
     \<Longrightarrow> length buf = pixel_bytes spec
     \<Longrightarrow> reader_step s (s\<lparr>sf_reader :=
           (if before = generation (sf_map s)
            then RDone \<lparr>fn_spec = spec, fn_sequence = generation (sf_map s) div 2,
                        fn_producer_state = st, fn_pixels = buf\<rparr>
            else RIdle)\<rparr>)"
| again: "sf_reader s = RDone snap \<Longrightarrow> reader_step s (s\<lparr>sf_reader := RIdle\<rparr>)"

definition seqlock_start :: "frame_spec \<Rightarrow> shared_frame" where
  "seqlock_start spec = \<lparr>sf_map = initialize_header spec, sf_writer = WIdle, sf_reader = RIdle, sf_log = []\<rparr>"

inductive seqlock_reachable :: "frame_spec \<Rightarrow> shared_frame \<Rightarrow> bool" for spec where
  start: "seqlock_reachable spec (seqlock_start spec)"
| writer: "seqlock_reachable spec s \<Longrightarrow> writer_step spec s s' \<Longrightarrow> seqlock_reachable spec s'"
| reader: "seqlock_reachable spec s \<Longrightarrow> reader_step s s' \<Longrightarrow> seqlock_reachable spec s'"

inductive_cases writer_stepE: "writer_step spec s s'"
inductive_cases reader_stepE: "reader_step s s'"

section \<open>Invariant\<close>

text \<open>Frame 0 is the zeroed slot of a fresh mapping, frame \<open>i\<close> the \<open>i\<close>-th published one.\<close>

definition frame_number :: "frame_spec \<Rightarrow> u8 list list \<Rightarrow> nat \<Rightarrow> u8 list" where
  "frame_number spec log i = (if i = 0 then replicate (pixel_bytes spec) 0 else log ! (i - 1))"

definition shown :: "frame_spec \<Rightarrow> u8 list list \<Rightarrow> u8 list" where
  "shown spec log = frame_number spec log (length log)"

fun writer_inv :: "frame_spec \<Rightarrow> u8 list \<Rightarrow> u8 list list \<Rightarrow> writer_pc \<Rightarrow> bool" where
  "writer_inv spec m log WIdle \<longleftrightarrow>
     unat (generation m) = 2 * length log \<and> slot_pixels spec m (active_slot m) = shown spec log"
| "writer_inv spec m log (WCopy pixels og next k) \<longleftrightarrow>
     unat (generation m) = 2 * length log + 1 \<and> og = generation m
     \<and> next = next_slot (active_slot m) \<and> length pixels = pixel_bytes spec \<and> k \<le> length pixels
     \<and> take k (slot_pixels spec m next) = take k pixels"
| "writer_inv spec m log (WState pixels og) \<longleftrightarrow>
     unat (generation m) = 2 * length log + 1 \<and> og = generation m \<and> length pixels = pixel_bytes spec
     \<and> slot_pixels spec m (active_slot m) = pixels"
| "writer_inv spec m log (WEven pixels og) \<longleftrightarrow>
     unat (generation m) = 2 * length log + 1 \<and> og = generation m \<and> length pixels = pixel_bytes spec
     \<and> slot_pixels spec m (active_slot m) = pixels"

fun reader_inv :: "frame_spec \<Rightarrow> u8 list \<Rightarrow> u8 list list \<Rightarrow> reader_pc \<Rightarrow> bool" where
  "reader_inv spec m log RIdle \<longleftrightarrow> True"
| "reader_inv spec m log (RLoadSlot before) \<longleftrightarrow>
     unat before \<le> unat (generation m) \<and> unat before mod 2 = 0"
| "reader_inv spec m log (RLoadState before slot) \<longleftrightarrow>
     unat before \<le> unat (generation m) \<and> unat before mod 2 = 0
     \<and> (before = generation m \<longrightarrow> slot = active_slot m)"
| "reader_inv spec m log (RCopy before slot st buf) \<longleftrightarrow>
     unat before \<le> unat (generation m) \<and> unat before mod 2 = 0
     \<and> length buf \<le> pixel_bytes spec \<and> slot < slot_count
     \<and> (before = generation m \<longrightarrow> slot = active_slot m \<and> buf = take (length buf) (shown spec log))"
| "reader_inv spec m log (RDone snap) \<longleftrightarrow>
     fn_spec snap = spec \<and> unat (fn_sequence snap) \<le> length log
     \<and> fn_pixels snap = frame_number spec log (unat (fn_sequence snap))"

definition seqlock_inv :: "frame_spec \<Rightarrow> shared_frame \<Rightarrow> bool" where
  "seqlock_inv spec s \<longleftrightarrow>
     validate_header (sf_map s) = Inr spec \<and> active_slot (sf_map s) < slot_count
     \<and> writer_inv spec (sf_map s) (sf_log s) (sf_writer s)
     \<and> reader_inv spec (sf_map s) (sf_log s) (sf_reader s)"

lemma mapping_length: "validate_header m = Inr spec \<Longrightarrow> 64 \<le> length m"
  using validate_header_sizes by fastforce

lemma header_kept:
  assumes "validate_header m = Inr spec"
  shows "validate_header (write_u64 m offset_generation g) = Inr spec"
    and "validate_header (write_u32 m offset_active_slot a) = Inr spec"
    and "validate_header (write_u32 m offset_producer_state a) = Inr spec"
    and "64 \<le> off \<Longrightarrow> off + length xs \<le> length m \<Longrightarrow> validate_header (put_slice m off xs) = Inr spec"
proof -
  note len = mapping_length [OF assms]
  have K: "length m' = length m \<Longrightarrow> take 48 m' = take 48 m \<Longrightarrow> validate_header m' = Inr spec" for m'
    using validate_header_cong [of m' m] assms by simp
  show "validate_header (write_u64 m offset_generation g) = Inr spec" by (rule K) (simp_all add: len)
  show "validate_header (write_u32 m offset_active_slot a) = Inr spec" by (rule K) (simp_all add: len)
  show "validate_header (write_u32 m offset_producer_state a) = Inr spec" by (rule K) (simp_all add: len)
  show "validate_header (put_slice m off xs) = Inr spec"
    if "64 \<le> off" "off + length xs \<le> length m" by (rule K) (use that in simp_all)
qed

text \<open>A reader whose start generation is behind, or is about to be, no longer constrains the mapping.\<close>

lemma reader_inv_advance:
  assumes "reader_inv spec m log r" "unat (generation m) < unat (generation m')"
  shows "reader_inv spec m' log r"
  using assms by (cases r) (auto dest: arg_cong [where f = unat])

lemma reader_inv_odd:
  assumes "reader_inv spec m log r" "generation m' = generation m" "unat (generation m) mod 2 = 1"
  shows "reader_inv spec m' log r"
  using assms by (cases r) auto

lemma frame_number_append: "i \<le> length log \<Longrightarrow> frame_number spec (log @ [p]) i = frame_number spec log i"
  by (auto simp: frame_number_def nth_append)

lemma reader_inv_log:
  assumes "reader_inv spec m log r" "unat (generation m) mod 2 = 1"
  shows "reader_inv spec m (log @ [p]) r"
  using assms by (cases r) (auto simp: frame_number_append)

lemma even_unat: "unat g = 2 * n \<Longrightarrow> unat g mod 2 = 0"
  by simp

lemma gen_plus_one:
  "unat g = n \<Longrightarrow> n + 1 < 2 ^ 64 \<Longrightarrow> unat (g + 1) = n + 1" for g :: u64
  by (simp add: unat_word_ariths)

lemma slot_pixels_copy:
  assumes "validate_header m = Inr spec" "next < slot_count" "k < pixel_bytes spec"
    and "length pixels = pixel_bytes spec" "take k (slot_pixels spec m next) = take k pixels"
  shows "take (Suc k) (slot_pixels spec (put_slice m (slot_base spec next + k) [pixels ! k]) next)
    = take (Suc k) pixels"
proof -
  note sz = validate_header_sizes [OF assms(1)] and fit = slot_fits [OF assms(1,2)]
  let ?b = "slot_base spec next" and ?m = "put_slice m (slot_base spec next + k) [pixels ! k]"
  have b: "?b + pixel_bytes spec \<le> length m" using fit by (simp add: slot_base_def add.commute)
  have "take k (drop ?b ?m) = take k (drop ?b m)"
    using b assms(3) by (intro take_drop_put_slice_before) auto
  moreover have "take 1 (drop k (drop ?b ?m)) = [pixels ! k]"
    using put_slice_same [of "?b + k" "[pixels ! k]" m] b assms(3) by (simp add: add.commute)
  ultimately have "take (k + 1) (drop ?b ?m) = take k (drop ?b m) @ [pixels ! k]"
    by (simp only: take_add)
  moreover have "take k (slot_pixels spec m next) = take k (drop ?b m)"
    using assms(3) by (simp add: slot_pixels_def slot_base_def min_def)
  moreover have "take (Suc k) (slot_pixels spec ?m next) = take (k + 1) (drop ?b ?m)"
    using assms(3) by (simp add: slot_pixels_def slot_base_def min_def)
  moreover have "take (Suc k) pixels = take k pixels @ [pixels ! k]"
    using assms(3,4) by (simp add: take_Suc_conv_app_nth)
  ultimately show ?thesis using assms(5) by simp
qed

lemma reader_inv_same:
  assumes "reader_inv spec m log r" "generation m' = generation m" "active_slot m' = active_slot m"
  shows "reader_inv spec m' log r"
  using assms by (cases r) auto

lemma writer_inv_length: "writer_inv spec m log w \<Longrightarrow> unat (generation m) \<le> 2 * length log + 1"
  by (cases w) auto

lemma length_slot_pixels:
  "validate_header m = Inr spec \<Longrightarrow> a < slot_count \<Longrightarrow> length (slot_pixels spec m a) = pixel_bytes spec"
  using slot_fits [of m spec a] by (simp add: slot_pixels_def)

lemma writer_step_inv:
  assumes "writer_step spec s s'" "seqlock_inv spec s" "2 * length (sf_log s) + 2 < 2 ^ 64"
  shows "seqlock_inv spec s'"
proof -
  have v: "validate_header (sf_map s) = Inr spec" and a: "active_slot (sf_map s) < slot_count"
    and w: "writer_inv spec (sf_map s) (sf_log s) (sf_writer s)"
    and r: "reader_inv spec (sf_map s) (sf_log s) (sf_reader s)"
    using assms(2) by (auto simp: seqlock_inv_def)
  note len = mapping_length [OF v] and kept = header_kept [OF v]
  show ?thesis using assms(1)
  proof (cases rule: writer_step.cases)
    case (begin_publish pixels og)
    with w have g: "unat (generation (sf_map s)) = 2 * length (sf_log s)" by simp
    then have og: "og = generation (sf_map s) + 1" "unat og = 2 * length (sf_log s) + 1"
      using begin_publish(4) assms(3) gen_plus_one [OF g] by (simp_all add: odd_even_generation(2))
    have "reader_inv spec (write_u64 (sf_map s) offset_generation og) (sf_log s) (sf_reader s)"
      using g og len by (intro reader_inv_advance [OF r]) simp
    then show ?thesis using begin_publish kept(1) a len og g
      by (simp add: seqlock_inv_def)
  next
    case (copy_byte pixels og n k)
    let ?m = "put_slice (sf_map s) (slot_base spec n + k) [pixels ! k]"
    from copy_byte w have g: "unat (generation (sf_map s)) = 2 * length (sf_log s) + 1" "og = generation (sf_map s)"
      and n: "n = next_slot (active_slot (sf_map s))" "n < slot_count" and p: "length pixels = pixel_bytes spec"
      and t: "take k (slot_pixels spec (sf_map s) n) = take k pixels"
      using next_slot_less by auto
    have fit: "slot_base spec n + k + length [pixels ! k] \<le> length (sf_map s)" "64 \<le> slot_base spec n + k"
      using slot_fits [OF v n(2)] copy_byte(3) p by (simp_all add: slot_base_def)
    have gm: "generation ?m = generation (sf_map s)" "active_slot ?m = active_slot (sf_map s)"
      using fit by simp_all
    have "take (Suc k) (slot_pixels spec ?m n) = take (Suc k) pixels"
      using copy_byte(3) p t by (intro slot_pixels_copy [OF v n(2)]) auto
    moreover have "validate_header ?m = Inr spec" using fit kept(4) by blast
    moreover have "reader_inv spec ?m (sf_log s) (sf_reader s)"
      by (rule reader_inv_odd [OF r gm(1)]) (use g in presburger)
    ultimately show ?thesis using copy_byte g n p gm a by (simp add: seqlock_inv_def)
  next
    case (store_slot pixels og n k)
    let ?m = "write_u32 (sf_map s) offset_active_slot n"
    from store_slot w have g: "unat (generation (sf_map s)) = 2 * length (sf_log s) + 1" "og = generation (sf_map s)"
      and n: "n < slot_count" and p: "length pixels = pixel_bytes spec"
      and t: "take k (slot_pixels spec (sf_map s) n) = take k pixels"
      using next_slot_less by auto
    have "slot_pixels spec (sf_map s) n = pixels"
      using t store_slot(3) p length_slot_pixels [OF v n] by simp
    moreover have "reader_inv spec ?m (sf_log s) (sf_reader s)"
      by (rule reader_inv_odd [OF r]) (use g len in \<open>simp, presburger\<close>)
    ultimately show ?thesis using store_slot g n p len kept(2) by (simp add: seqlock_inv_def)
  next
    case (store_state pixels og)
    let ?m = "write_u32 (sf_map s) offset_producer_state (producer_raw StRunning)"
    from store_state w have g: "unat (generation (sf_map s)) = 2 * length (sf_log s) + 1"
      "og = generation (sf_map s)" by auto
    have "reader_inv spec ?m (sf_log s) (sf_reader s)"
      using len by (intro reader_inv_same [OF r]) simp_all
    then show ?thesis using store_state w a len kept(3) by (simp add: seqlock_inv_def)
  next
    case (end_publish pixels og)
    let ?m = "write_u64 (sf_map s) offset_generation (og + 1)"
    from end_publish w have g: "unat (generation (sf_map s)) = 2 * length (sf_log s) + 1" "og = generation (sf_map s)"
      and px: "slot_pixels spec (sf_map s) (active_slot (sf_map s)) = pixels" by auto
    have g1: "unat (og + 1) = 2 * length (sf_log s) + 2"
      using gen_plus_one [OF g(1)] g(2) assms(3) by simp
    have odd: "unat (generation (sf_map s)) mod 2 = 1" using g(1) by presburger
    have "reader_inv spec ?m (sf_log s @ [pixels]) (sf_reader s)"
      using g g1 len by (intro reader_inv_advance [OF reader_inv_log [OF r odd]]) simp
    moreover have "shown spec (sf_log s @ [pixels]) = pixels"
      by (simp add: shown_def frame_number_def)
    ultimately show ?thesis using end_publish px a len kept(1) g1 by (simp add: seqlock_inv_def)
  next
    case (set_state st)
    then show ?thesis using w a len kept(3) reader_inv_same [OF r]
      by (simp add: seqlock_inv_def frame_set_state_def)
  qed
qed

lemma writer_at_rest:
  assumes "writer_inv spec m log w" "unat (generation m) mod 2 = 0"
  shows "unat (generation m) = 2 * length log" "slot_pixels spec m (active_slot m) = shown spec log"
  using assms by (cases w; simp; presburger)+

lemma reader_step_inv:
  assumes "reader_step s s'" "seqlock_inv spec s"
  shows "seqlock_inv spec s' \<and> sf_log s' = sf_log s"
proof -
  have v: "validate_header (sf_map s) = Inr spec" and a: "active_slot (sf_map s) < slot_count"
    and w: "writer_inv spec (sf_map s) (sf_log s) (sf_writer s)"
    and r: "reader_inv spec (sf_map s) (sf_log s) (sf_reader s)"
    using assms(2) by (auto simp: seqlock_inv_def)
  show ?thesis using assms(1)
  proof (cases rule: reader_step.cases)
    case (read_byte before slot st buf spec')
    then have [simp]: "spec' = spec" using v by simp
    define buf' where "buf' = buf @ [sf_map s ! (slot_base spec slot + length buf)]"
    have len': "length buf' = Suc (length buf)" by (simp add: buf'_def)
    have "buf' = take (Suc (length buf)) (shown spec (sf_log s))
        \<and> min (length (shown spec (sf_log s))) (Suc (length buf)) = Suc (length buf)"
      if "before = generation (sf_map s)"
    proof -
      have "unat (generation (sf_map s)) mod 2 = 0" using r read_byte(2) that by simp
      note rest = writer_at_rest [OF w this]
      have sl: "slot = active_slot (sf_map s)" and buf: "buf = take (length buf) (shown spec (sf_log s))"
        using r read_byte(2) that by auto
      have len: "length buf < length (shown spec (sf_log s))"
        using read_byte(4) rest(2) [symmetric] length_slot_pixels [OF v a] by simp
      have "shown spec (sf_log s) ! length buf = sf_map s ! (slot_base spec slot + length buf)"
        using slot_fits [OF v a] read_byte(4)
        by (simp add: rest(2) [symmetric] slot_pixels_def slot_base_def sl)
      then show ?thesis using buf len by (simp add: buf'_def take_Suc_conv_app_nth)
    qed
    then have "reader_inv spec (sf_map s) (sf_log s) (RCopy before slot st buf')"
      using r read_byte(2,4) by (simp add: len')
    moreover have "sf_reader s' = RCopy before slot st buf'" "sf_map s' = sf_map s"
      "sf_log s' = sf_log s" "sf_writer s' = sf_writer s"
      using read_byte(1) by (simp_all add: buf'_def)
    ultimately show ?thesis using v a w unfolding seqlock_inv_def by (simp only: simp_thms)
  next
    case (finish before slot st buf spec')
    then have [simp]: "spec' = spec" using v by simp
    have "unat (generation (sf_map s) div 2) \<le> length (sf_log s)
        \<and> buf = frame_number spec (sf_log s) (unat (generation (sf_map s) div 2))"
      if "before = generation (sf_map s)"
    proof -
      have ev: "unat (generation (sf_map s)) mod 2 = 0" using r finish(2) that by simp
      note rest = writer_at_rest [OF w ev]
      have buf: "buf = take (length buf) (shown spec (sf_log s))"
        using r finish(2) that by auto
      have "length (shown spec (sf_log s)) = pixel_bytes spec"
        using rest(2) [symmetric] length_slot_pixels [OF v a] by simp
      with buf finish(4) have "buf = shown spec (sf_log s)" by simp
      then show ?thesis using rest(1) by (simp add: unat_div shown_def)
    qed
    then show ?thesis using finish v a w by (simp add: seqlock_inv_def)
  qed (use v a w r in \<open>auto simp: seqlock_inv_def\<close>)
qed

lemma writer_step_log: "writer_step spec s s' \<Longrightarrow> length (sf_log s) \<le> length (sf_log s')"
  by (auto elim: writer_stepE)

lemma seqlock_inv_start:
  assumes "frame_spec_new w h = Inr spec"
  shows "seqlock_inv spec (seqlock_start spec)"
proof -
  note sz = frame_spec_new_sizes [OF assms]
  have h64: "64 \<le> unat (fs_file_bytes spec)" using sz(9) by simp
  note f = initialize_header_fields [OF h64]
  have zero: "slot_pixels spec (initialize_header spec) 0 = replicate (pixel_bytes spec) 0"
  proof -
    have "slot_pixels spec (initialize_header spec) 0 = take (pixel_bytes spec) (drop 64 (initialize_header spec))"
      by (simp add: slot_pixels_def)
    also have "\<dots> = replicate (pixel_bytes spec) 0"
      using sz(9) by (simp add: f(14) pixel_bytes_def)
    finally show ?thesis .
  qed
  then show ?thesis using f validate_initialized [OF assms]
    by (simp add: seqlock_inv_def seqlock_start_def slot_count_def shown_def frame_number_def)
qed

lemma seqlock_reachable_inv:
  assumes "frame_spec_new w h = Inr spec" "seqlock_reachable spec s"
  shows "2 * length (sf_log s) + 2 < 2 ^ 64 \<Longrightarrow> seqlock_inv spec s"
  using assms(2)
proof (induction rule: seqlock_reachable.induct)
  case start
  show ?case by (rule seqlock_inv_start [OF assms(1)])
next
  case (writer s s')
  then have "2 * length (sf_log s) + 2 < 2 ^ 64" using writer_step_log by fastforce
  with writer writer_step_inv show ?case by blast
next
  case (reader s s')
  have "sf_log s' = sf_log s" using reader(2) by (auto elim: reader_stepE)
  with reader reader_step_inv show ?case by metis
qed

text \<open>
  C14: no torn frame: under every interleaving of the writer's and the reader's accesses, while fewer
  than \<open>2 ^ 63 - 1\<close> frames were published, a snapshot the reader returns holds exactly the pixels of the
  one published frame that its sequence number names (frame 0 is the zeroed mapping).
\<close>

theorem seqlock_no_tearing:
  assumes "frame_spec_new w h = Inr spec" "seqlock_reachable spec s"
    and "2 * length (sf_log s) + 2 < 2 ^ 64" "sf_reader s = RDone snap"
  shows "fn_spec snap = spec \<and> unat (fn_sequence snap) \<le> length (sf_log s)
    \<and> fn_pixels snap = frame_number spec (sf_log s) (unat (fn_sequence snap))"
  using seqlock_reachable_inv [OF assms(1-3)] assms(4) by (simp add: seqlock_inv_def)

lemma read_all_bytes:
  assumes "validate_header m = Inr spec"
  shows "length buf \<le> pixel_bytes spec
    \<Longrightarrow> seqlock_reachable spec \<lparr>sf_map = m, sf_writer = w, sf_reader = RCopy b slot st buf, sf_log = l\<rparr>
    \<Longrightarrow> \<exists>buf'. length buf' = pixel_bytes spec
      \<and> seqlock_reachable spec \<lparr>sf_map = m, sf_writer = w, sf_reader = RCopy b slot st buf', sf_log = l\<rparr>"
proof (induction "pixel_bytes spec - length buf" arbitrary: buf)
  case 0
  then show ?case by (intro exI [of _ buf]) simp
next
  case (Suc n)
  let ?s = "\<lparr>sf_map = m, sf_writer = w, sf_reader = RCopy b slot st buf, sf_log = l\<rparr>"
  have "reader_step ?s (?s\<lparr>sf_reader := RCopy b slot st (buf @ [sf_map ?s ! (slot_base spec slot + length buf)])\<rparr>)"
    using Suc.hyps(2) assms by (intro read_byte) auto
  then have "seqlock_reachable spec (?s\<lparr>sf_reader := RCopy b slot st
      (buf @ [sf_map ?s ! (slot_base spec slot + length buf)])\<rparr>)"
    by (rule seqlock_reachable.reader [OF Suc.prems(2)])
  then show ?case
    using Suc.hyps(1) [of "buf @ [m ! (slot_base spec slot + length buf)]"] Suc.hyps(2) by simp
qed

lemma seqlock_no_tearing_witness:
  "\<exists>s snap. seqlock_reachable sample_spec s \<and> sf_reader s = RDone snap
     \<and> fn_sequence snap = 0 \<and> fn_pixels snap = [0, 0, 0, 0]"
proof -
  let ?m = "initialize_header sample_spec"
  let ?st = "\<lambda>r. \<lparr>sf_map = ?m, sf_writer = WIdle, sf_reader = r, sf_log = []\<rparr>"
  have "64 \<le> unat (fs_file_bytes sample_spec)" by (simp add: sample_spec_def)
  note f = initialize_header_fields [OF this]
  note v = validate_initialized [OF sample_spec_new]
  have 0: "seqlock_reachable sample_spec (?st RIdle)"
    using seqlock_reachable.start [of sample_spec] by (simp add: seqlock_start_def)
  have 1: "seqlock_reachable sample_spec (?st (RLoadSlot 0))"
    using reader_step.load_even [of "?st RIdle"] f(11) by (intro seqlock_reachable.reader [OF 0]) simp
  have 2: "seqlock_reachable sample_spec (?st (RLoadState 0 0))"
    using reader_step.load_slot [of "?st (RLoadSlot 0)"] f(12) by (intro seqlock_reachable.reader [OF 1]) simp
  have 3: "seqlock_reachable sample_spec (?st (RCopy 0 0 StStarting []))"
    using reader_step.load_state [of "?st (RLoadState 0 0)" 0 0 StStarting] f(13)
    by (intro seqlock_reachable.reader [OF 2]) (simp add: producer_from_raw_def slot_count_def)
  then obtain buf where buf: "length buf = pixel_bytes sample_spec"
    "seqlock_reachable sample_spec (?st (RCopy 0 0 StStarting buf))"
    using read_all_bytes [OF v _ 3] by auto
  let ?snap = "\<lparr>fn_spec = sample_spec, fn_sequence = 0, fn_producer_state = StStarting, fn_pixels = buf\<rparr>"
  have 4: "seqlock_reachable sample_spec (?st (RDone ?snap))"
    using reader_step.finish [of "?st (RCopy 0 0 StStarting buf)" 0 0 StStarting buf sample_spec] buf v f(11)
    by (intro seqlock_reachable.reader [OF buf(2)]) simp
  have "2 * length (sf_log (?st (RDone ?snap))) + 2 < 2 ^ 64" by simp
  from seqlock_no_tearing [OF sample_spec_new 4 this]
  have "buf = replicate (pixel_bytes sample_spec) 0" by (simp add: frame_number_def)
  also have "pixel_bytes sample_spec = 4" by (simp add: pixel_bytes_def sample_spec_def)
  also have "replicate 4 (0 :: u8) = [0, 0, 0, 0]" by (simp add: numeral_eq_Suc)
  finally have "fn_pixels ?snap = [0, 0, 0, 0]" by simp
  with 4 show ?thesis by (intro exI [of _ "?st (RDone ?snap)"] exI [of _ ?snap]) simp
qed

end
