(* ===== verification/Cdp_Codec.thy ===== *)
theory Cdp_Codec
  imports Prelude
begin

text \<open>
  \<open>crates/kwe-cdp/src/codec.rs\<close>: the NUL-terminated framing of the Chromium debugging pipe. The
  decoder with its buffer, scan position and message queue is shown to implement a byte-at-a-time
  automaton, so that how the pipe cuts the stream into chunks does not matter.
\<close>

section \<open>The codec\<close>

definition default_max_message_bytes :: nat where "default_max_message_bytes = 4 * 1024 * 1024"

definition encode_message :: "u8 list \<Rightarrow> u8 list" where "encode_message body = body @ [0]"

record decoder =
  dc_max :: nat
  dc_buffer :: "u8 list"
  dc_scan_from :: nat
  dc_messages :: "u8 list list"

datatype codec_error = OversizedMessage nat

definition decoder_new :: "nat \<Rightarrow> decoder" where
  "decoder_new n = \<lparr>dc_max = n, dc_buffer = [], dc_scan_from = 0, dc_messages = []\<rparr>"

fun nul_position :: "u8 list \<Rightarrow> nat option" where
  "nul_position [] = None"
| "nul_position (b # bs) = (if b = 0 then Some 0 else map_option Suc (nul_position bs))"

lemma nul_position_Some: "nul_position bs = Some k \<Longrightarrow> k < length bs"
  by (induction bs arbitrary: k) (auto split: if_splits)

function push_loop :: "decoder \<Rightarrow> (codec_error, unit) result \<times> decoder" where
  "push_loop d =
     (case nul_position (drop (dc_scan_from d) (dc_buffer d)) of
        Some relative \<Rightarrow>
          (let stop = dc_scan_from d + relative in
           if dc_max d < stop then (Inl (OversizedMessage (dc_max d)), d)
           else push_loop (d\<lparr>dc_messages := dc_messages d @ [take stop (dc_buffer d)],
                             dc_buffer := drop (stop + 1) (dc_buffer d), dc_scan_from := 0\<rparr>))
      | None \<Rightarrow>
          if dc_max d < length (dc_buffer d) then (Inl (OversizedMessage (dc_max d)), d)
          else (Inr (), d\<lparr>dc_scan_from := length (dc_buffer d)\<rparr>))"
  by pat_completeness auto
termination
proof (relation "measure (length \<circ> dc_buffer)", goal_cases)
  case (2 d k stop)
  then have "drop (dc_scan_from d) (dc_buffer d) \<noteq> []" by auto
  then have "dc_buffer d \<noteq> []" by auto
  then show ?case by simp
qed simp

declare push_loop.simps [simp del]

definition decoder_push :: "decoder \<Rightarrow> u8 list \<Rightarrow> (codec_error, unit) result \<times> decoder" where
  "decoder_push d bytes =
     (if bytes = [] then (Inr (), d) else push_loop (d\<lparr>dc_buffer := dc_buffer d @ bytes\<rparr>))"

definition take_messages :: "decoder \<Rightarrow> u8 list list \<times> decoder" where
  "take_messages d = (dc_messages d, d\<lparr>dc_messages := []\<rparr>)"

definition buffered_bytes :: "decoder \<Rightarrow> nat" where "buffered_bytes d = length (dc_buffer d)"

section \<open>The automaton\<close>

text \<open>
  The specification reads one byte at a time: a NUL ends the message, any other byte extends it, and a
  message beyond the bound poisons the stream for good. A view is the poison flag, the pending tail
  (forgotten once poisoned) and the messages.
\<close>

type_synonym stream_view = "bool \<times> u8 list \<times> u8 list list"

fun feed_byte :: "nat \<Rightarrow> stream_view \<Rightarrow> u8 \<Rightarrow> stream_view" where
  "feed_byte n (True, tail, msgs) b = (True, [], msgs)"
| "feed_byte n (False, tail, msgs) b =
     (if b = 0 then (False, [], msgs @ [tail])
      else if n \<le> length tail then (True, [], msgs)
      else (False, tail @ [b], msgs))"

definition feed :: "nat \<Rightarrow> stream_view \<Rightarrow> u8 list \<Rightarrow> stream_view" where
  "feed n v bs = foldl (feed_byte n) v bs"

lemma feed_simps [simp]:
  "feed n v [] = v" "feed n v (b # bs) = feed n (feed_byte n v b) bs"
  "feed n v (a @ bs) = feed n (feed n v a) bs"
  by (simp_all add: feed_def)

lemma feed_poisoned: "feed n (True, [], msgs) bs = (True, [], msgs)"
  by (induction bs) simp_all

lemma feed_no_nul:
  "nul_position bs = None \<Longrightarrow> length tail \<le> n \<Longrightarrow>
     feed n (False, tail, msgs) bs =
       (if n < length tail + length bs then (True, [], msgs) else (False, tail @ bs, msgs))"
  by (induction bs arbitrary: tail) (auto simp: feed_poisoned split: if_splits)

lemma feed_nul:
  "nul_position bs = Some k \<Longrightarrow> length tail \<le> n \<Longrightarrow>
     feed n (False, tail, msgs) bs =
       (if n < length tail + k then (True, [], msgs)
        else feed n (False, [], msgs @ [tail @ take k bs]) (drop (Suc k) bs))"
proof (induction bs arbitrary: tail k)
  case Nil
  then show ?case by simp
next
  case (Cons b bs)
  show ?case
  proof (cases "b = 0")
    case True
    with Cons.prems show ?thesis by auto
  next
    case False
    with Cons.prems obtain j where j: "nul_position bs = Some j" "k = Suc j" by auto
    with False Cons.IH [OF j(1), of "tail @ [b]"] Cons.prems(2) show ?thesis
      by (auto simp: feed_poisoned)
  qed
qed

text \<open>The decoder's state at rest: no NUL before the scan position, which is the end of the buffer.\<close>

definition at_rest :: "decoder \<Rightarrow> bool" where
  "at_rest d \<longleftrightarrow> nul_position (dc_buffer d) = None \<and> dc_scan_from d = length (dc_buffer d)
     \<and> length (dc_buffer d) \<le> dc_max d"

definition push_view :: "(codec_error, unit) result \<times> decoder \<Rightarrow> stream_view" where
  "push_view rd = (if is_ok (fst rd) then (False, dc_buffer (snd rd), dc_messages (snd rd))
                   else (True, [], dc_messages (snd rd)))"

lemma nul_position_append:
  "nul_position (a @ b) = (case nul_position a of Some k \<Rightarrow> Some k
     | None \<Rightarrow> map_option (\<lambda>k. length a + k) (nul_position b))"
  by (induction a; cases "nul_position b") (auto split: option.splits)

lemma push_loop_feed:
  "nul_position (take (dc_scan_from d) (dc_buffer d)) = None \<Longrightarrow> dc_scan_from d \<le> length (dc_buffer d)
   \<Longrightarrow> push_view (push_loop d) = feed (dc_max d) (False, [], dc_messages d) (dc_buffer d)
     \<and> dc_max (snd (push_loop d)) = dc_max d
     \<and> (is_ok (fst (push_loop d)) \<longrightarrow> at_rest (snd (push_loop d)))"
proof (induction d rule: push_loop.induct)
  case (1 d)
  let ?b = "dc_buffer d" and ?s = "dc_scan_from d"
  have split: "nul_position ?b = map_option (\<lambda>k. ?s + k) (nul_position (drop ?s ?b))"
    using "1.prems" nul_position_append [of "take ?s ?b" "drop ?s ?b"] by simp
  show ?case
  proof (cases "nul_position (drop ?s ?b)")
    case None
    with split have "nul_position ?b = None" by simp
    with None feed_no_nul [of ?b "[]" "dc_max d"] show ?thesis
      by (simp add: push_loop.simps [of d] push_view_def at_rest_def)
  next
    case (Some k)
    with split have pos: "nul_position ?b = Some (?s + k)" by simp
    note fn = feed_nul [OF pos, of "[]" "dc_max d" "dc_messages d"]
    show ?thesis
    proof (cases "dc_max d < ?s + k")
      case True
      with Some fn show ?thesis by (simp add: push_loop.simps [of d] push_view_def)
    next
      case False
      let ?d = "d\<lparr>dc_messages := dc_messages d @ [take (?s + k) ?b],
                  dc_buffer := drop (?s + k + 1) ?b, dc_scan_from := 0\<rparr>"
      have "push_loop d = push_loop ?d" using Some False by (simp add: push_loop.simps [of d] Let_def)
      with "1.IH" [OF Some refl False] fn False show ?thesis by simp
    qed
  qed
qed

lemma decoder_push_feed:
  assumes "at_rest d"
  shows "push_view (decoder_push d bs) = feed (dc_max d) (False, dc_buffer d, dc_messages d) bs"
    and "dc_max (snd (decoder_push d bs)) = dc_max d"
    and "is_ok (fst (decoder_push d bs)) \<Longrightarrow> at_rest (snd (decoder_push d bs))"
proof -
  let ?d = "d\<lparr>dc_buffer := dc_buffer d @ bs\<rparr>"
  have pre: "nul_position (take (dc_scan_from ?d) (dc_buffer ?d)) = None" "dc_scan_from ?d \<le> length (dc_buffer ?d)"
    using assms by (simp_all add: at_rest_def)
  have "feed (dc_max d) (False, [], dc_messages d) (dc_buffer d) = (False, dc_buffer d, dc_messages d)"
    using feed_no_nul [of "dc_buffer d" "[]" "dc_max d"] assms by (simp add: at_rest_def)
  with push_loop_feed [OF pre] assms
  show "push_view (decoder_push d bs) = feed (dc_max d) (False, dc_buffer d, dc_messages d) bs"
    "dc_max (snd (decoder_push d bs)) = dc_max d"
    "is_ok (fst (decoder_push d bs)) \<Longrightarrow> at_rest (snd (decoder_push d bs))"
    by (auto simp: decoder_push_def push_view_def)
qed

section \<open>Chunks\<close>

text \<open>
  The interface of an incremental decoder: a state with an invariant, a step on a chunk, and a view
  that evolves byte by byte. Whatever satisfies it does not depend on the chunking.
\<close>

locale chunked_decoder =
  fixes step :: "'s \<Rightarrow> 'b list \<Rightarrow> 's"
    and inv :: "'s \<Rightarrow> bool"
    and view :: "'s \<Rightarrow> 'v"
    and auto :: "'v \<Rightarrow> 'b \<Rightarrow> 'v"
  assumes step_inv: "inv s \<Longrightarrow> inv (step s bs)"
    and step_view: "inv s \<Longrightarrow> view (step s bs) = foldl auto (view s) bs"
begin

lemma chunks_inv: "inv s \<Longrightarrow> inv (foldl step s cs)"
  by (induction cs arbitrary: s) (simp_all add: step_inv)

lemma chunks_view: "inv s \<Longrightarrow> view (foldl step s cs) = foldl auto (view s) (concat cs)"
  by (induction cs arbitrary: s) (simp_all add: step_inv step_view)

lemma chunks_irrelevant:
  "inv s \<Longrightarrow> concat cs = concat ds \<Longrightarrow> view (foldl step s cs) = view (foldl step s ds)"
  by (simp add: chunks_view)

end

text \<open>
  The connection: after an error the caller drops it, so a failed decoder takes no further input.
\<close>

definition connection_step :: "bool \<times> decoder \<Rightarrow> u8 list \<Rightarrow> bool \<times> decoder" where
  "connection_step c bs =
     (if fst c then c else (let r = decoder_push (snd c) bs in (\<not> is_ok (fst r), snd r)))"

definition connection_inv :: "nat \<Rightarrow> bool \<times> decoder \<Rightarrow> bool" where
  "connection_inv n c \<longleftrightarrow> dc_max (snd c) = n \<and> (\<not> fst c \<longrightarrow> at_rest (snd c))"

definition connection_view :: "bool \<times> decoder \<Rightarrow> stream_view" where
  "connection_view c = (fst c, if fst c then [] else dc_buffer (snd c), dc_messages (snd c))"

interpretation cdp: chunked_decoder connection_step "connection_inv n" connection_view "feed_byte n" for n
proof
  fix c :: "bool \<times> decoder" and bs
  assume inv: "connection_inv n c"
  show "connection_inv n (connection_step c bs)"
    using inv decoder_push_feed(2,3) [of "snd c" bs]
    by (auto simp: connection_inv_def connection_step_def Let_def)
  show "connection_view (connection_step c bs) = foldl (feed_byte n) (connection_view c) bs"
  proof (cases "fst c")
    case True
    then show ?thesis
      using feed_poisoned [of n "dc_messages (snd c)" bs]
      by (simp add: connection_view_def connection_step_def feed_def)
  next
    case False
    with inv decoder_push_feed(1) [of "snd c" bs] show ?thesis
      by (auto simp: connection_inv_def connection_view_def connection_step_def Let_def push_view_def
          feed_def [symmetric])
  qed
qed

lemma connection_new: "connection_inv n (False, decoder_new n)"
  by (simp add: connection_inv_def decoder_new_def at_rest_def)

text \<open>
  how the pipe cuts the byte stream does not matter: two ways of cutting the same bytes into chunks
  end in the same messages, the same pending tail and the same verdict (poisoned or not).
\<close>

theorem cdp_chunking_irrelevant:
  assumes "concat cs = concat ds"
  shows "connection_view (foldl connection_step (False, decoder_new n) cs)
       = connection_view (foldl connection_step (False, decoder_new n) ds)"
  by (rule cdp.chunks_irrelevant [OF connection_new assms])

lemma cdp_chunking_irrelevant_witness:
  "connection_view (foldl connection_step (False, decoder_new 4) [[1], [0, 2]])
     = connection_view (foldl connection_step (False, decoder_new 4) [[1, 0], [], [2]])"
  by (rule cdp_chunking_irrelevant) simp

lemma feed_messages:
  "list_all (\<lambda>m. nul_position m = None \<and> length m \<le> n) ms \<Longrightarrow>
     feed n (False, [], out) (concat (map encode_message ms)) = (False, [], out @ ms)"
proof (induction ms arbitrary: out)
  case Nil
  then show ?case by simp
next
  case (Cons m ms)
  then show ?case by (simp add: encode_message_def feed_no_nul)
qed

text \<open>
  encoding and decoding are inverse: messages without NUL bytes and within the bound, encoded one
  after the other and delivered in any chunks, are decoded to the same messages with nothing left over.
\<close>

theorem cdp_round_trip:
  assumes "list_all (\<lambda>m. 0 \<notin> set m \<and> length m \<le> n) ms"
    and "concat cs = concat (map encode_message ms)"
  shows "connection_view (foldl connection_step (False, decoder_new n) cs) = (False, [], ms)"
proof -
  have nul: "nul_position m = None \<longleftrightarrow> 0 \<notin> set m" for m
    by (induction m) auto
  have "connection_view (foldl connection_step (False, decoder_new n) cs)
      = feed n (False, [], []) (concat (map encode_message ms))"
    using cdp.chunks_view [OF connection_new, of n cs] assms(2)
    by (simp add: feed_def connection_view_def decoder_new_def)
  then show ?thesis using feed_messages [of n ms "[]"] assms(1) by (simp add: nul)
qed

lemma cdp_round_trip_witness:
  "connection_view (foldl connection_step (False, decoder_new 4) [[1, 2], [0, 3], [0]]) = (False, [], [[1, 2], [3]])"
  by (rule cdp_round_trip) (simp_all add: encode_message_def)

end
