(* ===== verification/Cdp_Transport.thy ===== *)
theory Cdp_Transport
  imports Cdp_Codec "HOL-Library.Sublist"
begin

text \<open>
  \<open>crates/kwe-cdp/src/transport.rs\<close>: the nonblocking pipe to the browser. Every system call takes its
  answer from a list, so a call that has no answer left is still waiting and the operation is None.
  The state holds the bytes the kernel has taken and has given so far instead of their mere counts
  \<open>written_bytes\<close> and \<open>read_bytes\<close>.
\<close>

section \<open>State\<close>

definition read_budget_bytes :: u64 where "read_budget_bytes = 64 * 1024"
definition max_write_backlog_bytes :: nat where "max_write_backlog_bytes = 4 * 1024 * 1024"
definition read_chunk_bytes :: nat where "read_chunk_bytes = 4096"

datatype io_kind = IoWouldBlock | IoWriteZero | IoUnexpectedEof | IoOther
datatype cdp_error = CdpTimeout | CdpParse string | CdpOversized nat | CdpIo io_kind

record transport =
  tr_max :: nat
  tr_decoder :: decoder
  tr_backlog :: "u8 list"
  tr_offset :: nat
  tr_source :: "u8 list"
  tr_wire :: "u8 list"
  tr_eof_seen :: bool

definition transport_new :: "nat \<Rightarrow> transport" where
  "transport_new n = \<lparr>tr_max = n, tr_decoder = decoder_new n, tr_backlog = [], tr_offset = 0,
     tr_source = [], tr_wire = [], tr_eof_seen = False\<rparr>"

definition pending_write_bytes :: "transport \<Rightarrow> nat" where
  "pending_write_bytes t = length (tr_backlog t) - tr_offset t"

section \<open>Writing\<close>

text \<open>
  What \<open>write(2)\<close> returned: a count (never more than was offered), an interruption, a full pipe, or an
  error; a full pipe while blocking is past the deadline, or polled again with or without an error.
\<close>

datatype full_pipe = PastDeadline | PollReturned | PollError
datatype write_answer = Wrote nat | WriteInterrupted | PipeFull full_pipe | WriteError

fun flush_writes :: "bool \<Rightarrow> write_answer list \<Rightarrow> transport \<Rightarrow> ((cdp_error, unit) result \<times> transport) option" where
  "flush_writes blocking answers t =
     (if length (tr_backlog t) \<le> tr_offset t then Some (Inr (), t\<lparr>tr_backlog := [], tr_offset := 0\<rparr>)
      else case answers of
        [] \<Rightarrow> None
      | Wrote n # rest \<Rightarrow>
          (let k = min n (pending_write_bytes t) in
           if k = 0 then Some (Inl (CdpIo IoWriteZero), t)
           else flush_writes blocking rest
                  (t\<lparr>tr_wire := tr_wire t @ take k (drop (tr_offset t) (tr_backlog t)), tr_offset := tr_offset t + k\<rparr>))
      | WriteInterrupted # rest \<Rightarrow> flush_writes blocking rest t
      | PipeFull w # rest \<Rightarrow>
          if \<not> blocking then Some (Inr (), t)
          else if w = PastDeadline then Some (Inl (CdpIo IoWouldBlock), t)
          else if w = PollError then Some (Inl (CdpIo IoOther), t)
          else flush_writes blocking rest t
      | WriteError # rest \<Rightarrow> Some (Inl (CdpIo IoOther), t))"

declare flush_writes.simps [simp del]

text \<open>The error of the immediate flush is ignored: the next poll meets it again.\<close>

definition transport_send :: "write_answer list \<Rightarrow> u8 list \<Rightarrow> transport \<Rightarrow> ((cdp_error, unit) result \<times> transport) option" where
  "transport_send answers body t =
     (if tr_max t < length body + 1 then Some (Inl (CdpOversized (tr_max t)), t)
      else if max_write_backlog_bytes < pending_write_bytes t + length body + 1
      then Some (Inl (CdpIo IoWouldBlock), t)
      else map_option (\<lambda>(_, t'). (Inr (), t'))
             (flush_writes False answers (t\<lparr>tr_backlog := tr_backlog t @ encode_message body\<rparr>)))"

section \<open>Reading\<close>

datatype read_answer = ReadBytes "u8 list" | ReadEof | ReadInterrupted | ReadBlocked | ReadError
datatype poll_answer = PollReady | PollExpired | PollFailed

text \<open>\<open>budget -= n\<close> on \<open>usize\<close>, which wraps around in a build without overflow checks.\<close>

fun read_loop :: "u64 \<Rightarrow> read_answer list \<Rightarrow> transport \<Rightarrow> ((cdp_error, unit) result \<times> transport) option" where
  "read_loop budget answers t =
     (if budget = 0 then Some (Inr (), t)
      else case answers of
        [] \<Rightarrow> None
      | ReadBytes bs # rest \<Rightarrow>
          (case decoder_push (tr_decoder t) bs of
             (Inl (OversizedMessage m), d) \<Rightarrow>
               Some (Inl (CdpOversized m), t\<lparr>tr_decoder := d, tr_source := tr_source t @ bs\<rparr>)
           | (Inr _, d) \<Rightarrow>
               read_loop (budget - word_of_nat (length bs)) rest
                 (t\<lparr>tr_decoder := d, tr_source := tr_source t @ bs\<rparr>))
      | ReadEof # rest \<Rightarrow> Some (Inr (), t\<lparr>tr_eof_seen := True\<rparr>)
      | ReadInterrupted # rest \<Rightarrow> read_loop budget rest t
      | ReadBlocked # rest \<Rightarrow> Some (Inr (), t)
      | ReadError # rest \<Rightarrow> Some (Inl (CdpIo IoOther), t))"

declare read_loop.simps [simp del]

record transport_calls =
  tc_write :: "write_answer list"
  tc_expired :: bool
  tc_poll :: poll_answer
  tc_read :: "read_answer list"

definition read_available :: "bool \<Rightarrow> transport_calls \<Rightarrow> transport \<Rightarrow> ((cdp_error, unit) result \<times> transport) option" where
  "read_available wait c t =
     (if wait \<and> tc_poll c = PollFailed then Some (Inl (CdpIo IoOther), t)
      else if wait \<and> tc_poll c = PollExpired then Some (Inr (), t)
      else read_loop read_budget_bytes (tc_read c) t)"

definition transport_poll ::
  "bool \<Rightarrow> transport_calls \<Rightarrow> transport \<Rightarrow> ((cdp_error, u8 list list) result \<times> transport) option" where
  "transport_poll blocking c t =
     (if tr_eof_seen t then Some (Inl (CdpIo IoUnexpectedEof), t)
      else case flush_writes blocking (tc_write c) t of
        None \<Rightarrow> None
      | Some (Inl e, t1) \<Rightarrow> Some (Inl e, t1)
      | Some (Inr _, t1) \<Rightarrow>
          (case read_available (blocking \<and> \<not> tc_expired c) c t1 of
             None \<Rightarrow> None
           | Some (Inl e, t2) \<Rightarrow> Some (Inl e, t2)
           | Some (Inr _, t2) \<Rightarrow>
               (case take_messages (tr_decoder t2) of (ms, d) \<Rightarrow> Some (Inr ms, t2\<lparr>tr_decoder := d\<rparr>))))"

section \<open>What is written\<close>

text \<open>What the kernel took and what waits are together the frames that were accepted.\<close>

definition stream_ok :: "u8 list list \<Rightarrow> transport \<Rightarrow> bool" where
  "stream_ok sent t \<longleftrightarrow>
     tr_wire t @ drop (tr_offset t) (tr_backlog t) = concat (map encode_message sent)
     \<and> tr_offset t \<le> length (tr_backlog t) \<and> pending_write_bytes t \<le> max_write_backlog_bytes
     \<and> list_all (\<lambda>m. length m < tr_max t) sent"

lemma stream_new: "stream_ok [] (transport_new n)"
  by (simp add: stream_ok_def transport_new_def pending_write_bytes_def)

text \<open>What flushing keeps.\<close>

definition flushed :: "transport \<Rightarrow> transport \<Rightarrow> bool" where
  "flushed t t' \<longleftrightarrow>
     tr_wire t' @ drop (tr_offset t') (tr_backlog t') = tr_wire t @ drop (tr_offset t) (tr_backlog t)
     \<and> pending_write_bytes t' \<le> pending_write_bytes t
     \<and> (tr_offset t \<le> length (tr_backlog t) \<longrightarrow> tr_offset t' \<le> length (tr_backlog t'))
     \<and> tr_max t' = tr_max t \<and> tr_decoder t' = tr_decoder t \<and> tr_source t' = tr_source t
     \<and> tr_eof_seen t' = tr_eof_seen t"

lemma flushed_refl: "flushed t t" by (simp add: flushed_def)

lemma flush_writes_flushed:
  "flush_writes blocking answers t = Some (r, t') \<Longrightarrow> flushed t t'"
proof (induction answers arbitrary: t)
  case Nil
  then show ?case
    by (auto simp: flush_writes.simps [of _ "[]"] flushed_def pending_write_bytes_def split: if_splits)
next
  case (Cons a answers)
  show ?case
  proof (cases "length (tr_backlog t) \<le> tr_offset t")
    case True
    then show ?thesis
      using Cons.prems by (auto simp: flush_writes.simps [of _ "_ # _"] flushed_def pending_write_bytes_def)
  next
    case False
    show ?thesis
    proof (cases a)
      case (Wrote n)
      let ?k = "min n (pending_write_bytes t)"
      let ?t = "t\<lparr>tr_wire := tr_wire t @ take ?k (drop (tr_offset t) (tr_backlog t)), tr_offset := tr_offset t + ?k\<rparr>"
      have step: "flushed t ?t"
        by (auto simp: flushed_def pending_write_bytes_def add.commute [of "tr_offset t"] simp flip: drop_drop)
      show ?thesis
      proof (cases "?k = 0")
        case True
        then show ?thesis
          using Cons.prems False Wrote flushed_refl by (auto simp: flush_writes.simps [of _ "_ # _"])
      next
        case k: False
        then have "flush_writes blocking answers ?t = Some (r, t')"
          using Cons.prems False Wrote by (auto simp: flush_writes.simps [of _ "_ # _"] Let_def split: if_splits)
        from Cons.IH [OF this] step show ?thesis by (auto simp: flushed_def)
      qed
    qed (use Cons.prems Cons.IH False in
        \<open>auto simp: flush_writes.simps [of _ "_ # _"] flushed_refl split: if_splits\<close>)
  qed
qed

lemma read_loop_keeps:
  "read_loop budget answers t = Some (r, t') \<Longrightarrow> tr_wire t' = tr_wire t \<and> tr_backlog t' = tr_backlog t
     \<and> tr_offset t' = tr_offset t \<and> tr_max t' = tr_max t"
proof (induction answers arbitrary: budget t)
  case (Cons a answers)
  show ?case
  proof (cases "budget = 0")
    case False
    then show ?thesis
      using Cons.prems Cons.IH
      by (cases a) (fastforce simp: read_loop.simps [of budget "_ # _"] split: prod.splits sum.splits codec_error.splits)+
  qed (use Cons.prems in \<open>simp add: read_loop.simps\<close>)
qed (simp add: read_loop.simps split: if_splits)

lemma stream_flushed: "stream_ok sent t \<Longrightarrow> flushed t t' \<Longrightarrow> stream_ok sent t'"
  by (auto simp: stream_ok_def flushed_def)

lemma send_stream:
  assumes "transport_send answers body t = Some (r, t')" "stream_ok sent t"
  shows "stream_ok (if r = Inr () then sent @ [body] else sent) t'"
proof (cases "r = Inr ()")
  case False
  then show ?thesis using assms by (auto simp: transport_send_def split: if_splits)
next
  case True
  let ?t = "t\<lparr>tr_backlog := tr_backlog t @ encode_message body\<rparr>"
  from True assms(1) obtain q where f: "flush_writes False answers ?t = Some (q, t')"
    and b: "length body < tr_max t" "pending_write_bytes t + length body + 1 \<le> max_write_backlog_bytes"
    by (auto simp: transport_send_def split: if_splits)
  have "stream_ok (sent @ [body]) ?t"
    using assms(2) b by (auto simp: stream_ok_def pending_write_bytes_def encode_message_def)
  with True flush_writes_flushed [OF f] show ?thesis by (simp add: stream_flushed)
qed

lemma read_available_keeps:
  "read_available wait c t = Some (r, t') \<Longrightarrow> tr_wire t' = tr_wire t \<and> tr_backlog t' = tr_backlog t
     \<and> tr_offset t' = tr_offset t \<and> tr_max t' = tr_max t"
  by (auto simp: read_available_def dest: read_loop_keeps split: if_splits)

lemma poll_keeps:
  assumes "transport_poll blocking c t = Some (r, t')"
  shows "\<exists>t1. flushed t t1 \<and> tr_wire t' = tr_wire t1 \<and> tr_backlog t' = tr_backlog t1
    \<and> tr_offset t' = tr_offset t1 \<and> tr_max t' = tr_max t1"
proof (cases "tr_eof_seen t")
  case True
  then show ?thesis using assms flushed_refl by (auto simp: transport_poll_def)
next
  case False
  then obtain q t1 where f: "flush_writes blocking (tc_write c) t = Some (q, t1)"
    using assms by (auto simp: transport_poll_def split: option.splits)
  have "tr_wire t' = tr_wire t1 \<and> tr_backlog t' = tr_backlog t1 \<and> tr_offset t' = tr_offset t1 \<and> tr_max t' = tr_max t1"
  proof (cases q)
    case (Inl e)
    then show ?thesis using assms False f by (simp add: transport_poll_def)
  next
    case (Inr u)
    then obtain q2 t2 where a: "read_available (blocking \<and> \<not> tc_expired c) c t1 = Some (q2, t2)"
      using assms False f by (auto simp: transport_poll_def split: option.splits)
    with read_available_keeps [OF a] Inr show ?thesis
      using assms False f by (cases q2) (auto simp: transport_poll_def take_messages_def)
  qed
  with flush_writes_flushed [OF f] show ?thesis by blast
qed

lemma poll_stream:
  assumes "transport_poll blocking c t = Some (r, t')" "stream_ok sent t"
  shows "stream_ok sent t'"
proof -
  obtain t1 where "flushed t t1" and same: "tr_wire t' = tr_wire t1" "tr_backlog t' = tr_backlog t1"
    "tr_offset t' = tr_offset t1" "tr_max t' = tr_max t1"
    using poll_keeps [OF assms(1)] by blast
  with stream_flushed [OF assms(2)] show ?thesis by (simp add: stream_ok_def pending_write_bytes_def)
qed

section \<open>Runs\<close>

datatype transport_op = Send "u8 list" "write_answer list" | Poll bool transport_calls

text \<open>
  Beside the transport, the bodies that were accepted, the messages that were delivered, and whether a
  message beyond the bound was met, after which the caller drops the transport.
\<close>

type_synonym transport_trace = "u8 list list \<times> u8 list list \<times> bool \<times> transport"

definition oversized :: "(cdp_error, 'a) result \<Rightarrow> bool" where
  "oversized r \<longleftrightarrow> (\<exists>n. r = Inl (CdpOversized n))"

fun transport_run :: "transport_op list \<Rightarrow> transport_trace \<Rightarrow> transport_trace option" where
  "transport_run [] s = Some s"
| "transport_run (Send body answers # ops) (sent, got, bad, t) =
     (case transport_send answers body t of
        None \<Rightarrow> None
      | Some (r, t') \<Rightarrow> transport_run ops (if r = Inr () then sent @ [body] else sent, got, bad, t'))"
| "transport_run (Poll blocking c # ops) (sent, got, bad, t) =
     (case transport_poll blocking c t of
        None \<Rightarrow> None
      | Some (r, t') \<Rightarrow>
          transport_run ops (sent, (case r of Inr ms \<Rightarrow> got @ ms | Inl _ \<Rightarrow> got), bad \<or> oversized r, t'))"

lemma run_stream:
  "transport_run ops (sent, got, bad, t) = Some (sent', got', bad', t') \<Longrightarrow> stream_ok sent t \<Longrightarrow> stream_ok sent' t'"
proof (induction ops arbitrary: sent got bad t)
  case (Cons a ops)
  show ?case
  proof (cases a)
    case (Send body answers)
    then show ?thesis
      using Cons.prems Cons.IH send_stream [of answers body t _ _ sent] by (auto split: option.splits)
  next
    case (Poll blocking c)
    then show ?thesis
      using Cons.prems Cons.IH poll_stream [of blocking c t _ _ sent] by (auto split: option.splits)
  qed
qed simp

lemma poll_max: "transport_poll blocking c t = Some (r, t') \<Longrightarrow> tr_max t' = tr_max t"
  using poll_keeps unfolding flushed_def by metis

lemma send_max: "transport_send answers body t = Some (r, t') \<Longrightarrow> tr_max t' = tr_max t"
  using flush_writes_flushed [of False answers "t\<lparr>tr_backlog := tr_backlog t @ encode_message body\<rparr>"]
  by (auto simp: transport_send_def flushed_def split: if_splits)

lemma run_max: "transport_run ops s = Some s' \<Longrightarrow> tr_max (snd (snd (snd s'))) = tr_max (snd (snd (snd s)))"
  by (induction ops s rule: transport_run.induct)
    (auto dest: poll_max send_max split: option.splits)

text \<open>The browser's side: what it decodes from the bytes it was given.\<close>

lemma feed_prefix:
  "w @ rest = concat (map encode_message ms) \<Longrightarrow> list_all (\<lambda>m. 0 \<notin> set m \<and> length m \<le> n) ms \<Longrightarrow>
     \<exists>k tail. feed n (False, [], out) w = (False, tail, out @ take k ms)"
proof (induction ms arbitrary: w out)
  case (Cons m ms)
  have nul: "nul_position m = None" using Cons.prems(2) by (induction m) auto
  have eq: "w @ rest = m @ 0 # concat (map encode_message ms)" using Cons.prems(1) by (simp add: encode_message_def [of m])
  show ?case
  proof (cases "length w \<le> length m")
    case True
    then have "w = take (length w) m" using eq by (metis append_eq_append_conv_if append_eq_conv_conj)
    then obtain z where m: "m = w @ z" by (metis append_take_drop_id)
    then have "nul_position w = None" using nul by (induction w arbitrary: m) (auto split: if_splits)
    with m Cons.prems(2) show ?thesis
      by (intro exI [of _ 0] exI [of _ w]) (simp add: feed_no_nul)
  next
    case False
    then obtain u where u: "w = m @ u" "u @ rest = 0 # concat (map encode_message ms)"
      using eq by (auto simp: append_eq_append_conv2)
    with False obtain v where w: "w = m @ 0 # v" "v @ rest = concat (map encode_message ms)"
      by (cases u) auto
    from Cons.IH [OF w(2), of "out @ [m]"] Cons.prems(2) obtain k tail where
      "feed n (False, [], out @ [m]) v = (False, tail, (out @ [m]) @ take k ms)" by auto
    with w(1) nul Cons.prems(2) show ?thesis
      by (intro exI [of _ "Suc k"] exI [of _ tail]) (simp add: feed_no_nul)
  qed
qed (auto intro: exI [of _ 0])

text \<open>
  requests reach the browser whole and in order: after any sends and polls, with any partial writes,
  interruptions and errors, the bytes the kernel took are a prefix of the frames of the accepted bodies
  and the rest is waiting, at most 4 MiB of it; and the decoder at the other end, fed with those bytes,
  is never poisoned and has decoded a prefix of the bodies that were accepted.
\<close>

theorem transport_sends_whole_frames:
  assumes "transport_run ops ([], [], False, transport_new n) = Some (sent, got, bad, t)"
  shows "tr_wire t @ drop (tr_offset t) (tr_backlog t) = concat (map encode_message sent)
    \<and> pending_write_bytes t \<le> max_write_backlog_bytes
    \<and> (list_all (\<lambda>m. 0 \<notin> set m) sent \<longrightarrow>
         (\<exists>k tail. feed n (False, [], []) (tr_wire t) = (False, tail, take k sent)))"
proof -
  have "stream_ok sent t" by (rule run_stream [OF assms stream_new])
  moreover have "tr_max t = n" using run_max [OF assms] by (simp add: transport_new_def)
  ultimately show ?thesis
    using feed_prefix [of "tr_wire t" "drop (tr_offset t) (tr_backlog t)" sent n "[]"]
    by (auto simp: stream_ok_def list_all_iff less_imp_le)
qed

lemma transport_sends_whole_frames_witness:
  "\<exists>k tail. feed 9 (False, [], []) [7, 7] = (False, tail, take k [[7, 7, 7]])"
proof -
  have "transport_run [Send [7, 7, 7] [Wrote 2, PipeFull PollReturned]] ([], [], False, transport_new 9)
      = Some ([[7, 7, 7]], [], False, (transport_new 9)\<lparr>tr_backlog := [7, 7, 7, 0], tr_offset := 2, tr_wire := [7, 7]\<rparr>)"
    by (simp add: transport_send_def transport_new_def pending_write_bytes_def max_write_backlog_bytes_def
        encode_message_def flush_writes.simps Let_def)
  from transport_sends_whole_frames [OF this] show ?thesis by (simp add: transport_new_def)
qed

section \<open>What is read\<close>

definition decoded_ok :: "u8 list list \<Rightarrow> transport \<Rightarrow> bool" where
  "decoded_ok got t \<longleftrightarrow>
     at_rest (tr_decoder t) \<and> dc_max (tr_decoder t) = tr_max t
     \<and> feed (tr_max t) (False, [], []) (tr_source t)
       = (False, dc_buffer (tr_decoder t), got @ dc_messages (tr_decoder t))"

lemma decoded_new: "decoded_ok [] (transport_new n)"
  by (simp add: decoded_ok_def transport_new_def decoder_new_def at_rest_def)

lemma decoded_flushed: "decoded_ok got t \<Longrightarrow> flushed t t' \<Longrightarrow> decoded_ok got t'"
  by (simp add: decoded_ok_def flushed_def)

lemma flush_decoded: "flush_writes blocking answers t = Some (r, t') \<Longrightarrow> decoded_ok got t \<Longrightarrow> decoded_ok got t'"
  by (rule decoded_flushed [OF _ flush_writes_flushed])

lemma feed_out: "feed n (False, tail, out) bs = (p, tail', out') \<Longrightarrow> feed n (False, tail, got @ out) bs = (p, tail', got @ out')"
proof (induction bs arbitrary: tail out)
  case (Cons b bs)
  then show ?case by (auto simp: feed_poisoned split: if_splits)
qed simp

lemma push_decoded:
  assumes "decoded_ok got t" "decoder_push (tr_decoder t) bs = (Inr u, d)"
  shows "decoded_ok got (t\<lparr>tr_decoder := d, tr_source := tr_source t @ bs\<rparr>)"
proof -
  have r: "at_rest (tr_decoder t)" "dc_max (tr_decoder t) = tr_max t" using assms(1) by (simp_all add: decoded_ok_def)
  note p = decoder_push_feed [OF r(1), of bs, unfolded assms(2)]
  from p(1) have "feed (tr_max t) (False, dc_buffer (tr_decoder t), dc_messages (tr_decoder t)) bs
      = (False, dc_buffer d, dc_messages d)"
    by (simp add: push_view_def r(2))
  from feed_out [OF this, of got] assms(1) p(2,3) r(2) show ?thesis by (simp add: decoded_ok_def)
qed

lemma read_loop_decoded:
  "read_loop budget answers t = Some (r, t') \<Longrightarrow> decoded_ok got t \<Longrightarrow> \<not> oversized r \<Longrightarrow> decoded_ok got t'"
proof (induction answers arbitrary: budget t)
  case (Cons a answers)
  show ?case
  proof (cases "budget = 0")
    case False
    show ?thesis
    proof (cases a)
      case (ReadBytes bs)
      obtain q d where p: "decoder_push (tr_decoder t) bs = (q, d)" by (cases "decoder_push (tr_decoder t) bs") simp
      show ?thesis
      proof (cases q)
        case (Inl e)
        then show ?thesis
          using Cons.prems False ReadBytes p
          by (cases e) (auto simp: read_loop.simps [of budget "_ # _"] oversized_def)
      next
        case (Inr u)
        then show ?thesis
          using Cons.prems False ReadBytes p push_decoded [OF Cons.prems(2), of bs u d] Cons.IH
          by (simp add: read_loop.simps [of budget "_ # _"])
      qed
    next
      case ReadInterrupted
      then show ?thesis using Cons False by (simp add: read_loop.simps [of budget "_ # _"])
    qed (use Cons.prems False in \<open>auto simp: read_loop.simps [of budget "_ # _"] decoded_ok_def\<close>)
  qed (use Cons.prems in \<open>simp add: read_loop.simps\<close>)
qed (simp add: read_loop.simps split: if_splits)

lemma poll_decoded:
  assumes "transport_poll blocking c t = Some (r, t')" "decoded_ok got t" "\<not> oversized r"
  shows "decoded_ok (case r of Inr ms \<Rightarrow> got @ ms | Inl _ \<Rightarrow> got) t'
    \<and> (r = Inr ms \<longrightarrow> dc_messages (tr_decoder t') = [])"
proof (cases "tr_eof_seen t")
  case True
  then show ?thesis using assms by (auto simp: transport_poll_def)
next
  case False
  then obtain q t1 where f: "flush_writes blocking (tc_write c) t = Some (q, t1)"
    using assms(1) by (auto simp: transport_poll_def split: option.splits)
  have d1: "decoded_ok got t1" by (rule decoded_flushed [OF assms(2) flush_writes_flushed [OF f]])
  show ?thesis
  proof (cases q)
    case (Inl e)
    then show ?thesis using assms(1) False f d1 by (auto simp: transport_poll_def)
  next
    case (Inr u)
    obtain q2 t2 where a: "read_available (blocking \<and> \<not> tc_expired c) c t1 = Some (q2, t2)"
      using assms(1) False f Inr by (auto simp: transport_poll_def split: option.splits)
    have "decoded_ok got t2" if "\<not> oversized q2"
      using a that d1 read_loop_decoded by (auto simp: read_available_def split: if_splits)
    then show ?thesis
      using assms(1,3) False f Inr a
      by (cases q2) (auto simp: transport_poll_def take_messages_def decoded_ok_def at_rest_def oversized_def)
  qed
qed

lemma send_decoded:
  assumes "transport_send answers body t = Some (r, t')" "decoded_ok got t"
  shows "decoded_ok got t'"
proof -
  have "decoded_ok got (t\<lparr>tr_backlog := b\<rparr>)" for b using assms(2) by (simp add: decoded_ok_def)
  from flush_decoded [OF _ this] show ?thesis
    using assms by (auto simp: transport_send_def split: if_splits)
qed

lemma run_decoded:
  "transport_run ops (sent, got, bad, t) = Some (sent', got', bad', t') \<Longrightarrow> \<not> bad' \<Longrightarrow> (\<not> bad \<longrightarrow> decoded_ok got t) \<Longrightarrow>
     decoded_ok got' t'"
proof (induction ops arbitrary: sent got bad t)
  case Nil
  then show ?case by simp
next
  case (Cons a ops)
  show ?case
  proof (cases a)
    case (Send body answers)
    then show ?thesis
      using Cons.prems Cons.IH send_decoded [of answers body t _ _ got] by (fastforce split: option.splits)
  next
    case (Poll blocking c)
    then obtain r u where r: "transport_poll blocking c t = Some (r, u)"
      and run: "transport_run ops (sent, (case r of Inr ms \<Rightarrow> got @ ms | Inl _ \<Rightarrow> got), bad \<or> oversized r, u)
        = Some (sent', got', bad', t')"
      using Cons.prems(1) by (auto split: option.splits)
    show ?thesis
      by (rule Cons.IH [OF run Cons.prems(2)]) (use r Cons.prems(3) poll_decoded in blast)
  qed
qed

section \<open>What a poll delivers\<close>

text \<open>The bytes the pipe has ready: what the reads give before the first one that finds nothing.\<close>

fun offered :: "read_answer list \<Rightarrow> u8 list" where
  "offered (ReadBytes bs # rest) = bs @ offered rest"
| "offered (ReadInterrupted # rest) = offered rest"
| "offered _ = []"

lemma read_loop_takes:
  "read_loop budget answers t = Some (Inr u, t') \<Longrightarrow> length (offered answers) < unat budget \<Longrightarrow>
     tr_source t' = tr_source t @ offered answers"
proof (induction answers arbitrary: budget t)
  case Nil
  then show ?case by (auto simp: read_loop.simps split: if_splits)
next
  case (Cons a answers)
  have pos: "budget \<noteq> 0" using Cons.prems(2) by auto
  show ?case
  proof (cases a)
    case (ReadBytes bs)
    obtain q d where p: "decoder_push (tr_decoder t) bs = (q, d)" by (cases "decoder_push (tr_decoder t) bs") simp
    have len: "length bs + length (offered answers) < unat budget" using Cons.prems(2) ReadBytes by simp
    moreover have "unat budget < 2 ^ 64" using unsigned_less [of budget] by simp
    ultimately have small: "length bs < 2 ^ 64" by linarith
    then have "unat (budget - word_of_nat (length bs)) = unat budget - length bs"
      using len small by (subst unat_sub) (simp_all add: word_le_nat_alt unat_of_nat)
    then have left: "length (offered answers) < unat (budget - word_of_nat (length bs))" using len by simp
    show ?thesis
    proof (cases q)
      case (Inl e)
      then show ?thesis
        using Cons.prems(1) ReadBytes p pos by (cases e) (auto simp: read_loop.simps [of budget "_ # _"])
    next
      case (Inr v)
      then show ?thesis
        using Cons.prems(1) ReadBytes p pos Cons.IH [OF _ left]
        by (auto simp: read_loop.simps [of budget "_ # _"])
    qed
  next
    case ReadInterrupted
    then show ?thesis using Cons pos by (auto simp: read_loop.simps [of budget "_ # _"])
  qed (use Cons.prems pos in \<open>auto simp: read_loop.simps [of budget "_ # _"]\<close>)
qed

text \<open>Whether this poll reads at all: a blocking one waits for the pipe first.\<close>

definition poll_reads :: "bool \<Rightarrow> transport_calls \<Rightarrow> bool" where
  "poll_reads blocking c \<longleftrightarrow> \<not> blocking \<or> tc_expired c \<or> tc_poll c = PollReady"

lemma poll_takes:
  assumes "transport_poll blocking c t = Some (Inr ms, t')" "poll_reads blocking c"
    and "length (offered (tc_read c)) < 64 * 1024"
  shows "tr_source t' = tr_source t @ offered (tc_read c)"
proof -
  obtain u t1 where f: "flush_writes blocking (tc_write c) t = Some (Inr u, t1)" "\<not> tr_eof_seen t"
    using assms(1) by (auto simp: transport_poll_def split: option.splits sum.splits if_splits)
  obtain v t2 where a: "read_available (blocking \<and> \<not> tc_expired c) c t1 = Some (Inr v, t2)"
    using assms(1) f by (auto simp: transport_poll_def split: option.splits sum.splits)
  have "read_loop read_budget_bytes (tc_read c) t1 = Some (Inr v, t2)"
    using a assms(2) by (auto simp: read_available_def poll_reads_def split: if_splits)
  moreover have "length (offered (tc_read c)) < unat read_budget_bytes" using assms(3) by (simp add: read_budget_bytes_def)
  ultimately have "tr_source t2 = tr_source t1 @ offered (tc_read c)" by (rule read_loop_takes)
  moreover have "tr_source t1 = tr_source t" using flush_writes_flushed [OF f(1)] by (simp add: flushed_def)
  moreover have "tr_source t' = tr_source t2"
    using assms(1) f a by (auto simp: transport_poll_def take_messages_def)
  ultimately show ?thesis by simp
qed

text \<open>A closed pipe leaves nothing undelivered.\<close>

definition eof_empty :: "transport \<Rightarrow> bool" where
  "eof_empty t \<longleftrightarrow> (tr_eof_seen t \<longrightarrow> dc_messages (tr_decoder t) = [])"

lemma read_loop_error_eof: "read_loop budget answers t = Some (Inl e, t') \<Longrightarrow> tr_eof_seen t' = tr_eof_seen t"
proof (induction answers arbitrary: budget t)
  case (Cons a answers)
  then show ?case
    by (cases a) (auto simp: read_loop.simps [of budget "_ # _"] split: if_splits prod.splits sum.splits codec_error.splits)
qed (auto simp: read_loop.simps split: if_splits)

lemma poll_eof_empty:
  assumes "transport_poll blocking c t = Some (r, t')" "eof_empty t"
  shows "eof_empty t' \<and> (\<forall>ms. r = Inr ms \<longrightarrow> dc_messages (tr_decoder t') = [])"
proof (cases "tr_eof_seen t")
  case True
  then show ?thesis using assms by (auto simp: transport_poll_def)
next
  case False
  then obtain q t1 where f: "flush_writes blocking (tc_write c) t = Some (q, t1)"
    using assms(1) by (auto simp: transport_poll_def split: option.splits)
  have e1: "\<not> tr_eof_seen t1" using flush_writes_flushed [OF f] False by (simp add: flushed_def)
  show ?thesis
  proof (cases q)
    case (Inl e)
    then show ?thesis using assms(1) False f e1 by (auto simp: transport_poll_def eof_empty_def)
  next
    case (Inr u)
    obtain q2 t2 where a: "read_available (blocking \<and> \<not> tc_expired c) c t1 = Some (q2, t2)"
      using assms(1) False f Inr by (auto simp: transport_poll_def split: option.splits)
    have "\<not> tr_eof_seen t2" if "q2 = Inl e" for e
      using a e1 that read_loop_error_eof by (fastforce simp: read_available_def split: if_splits)
    then show ?thesis
      using assms(1) False f Inr a
      by (cases q2) (auto simp: transport_poll_def take_messages_def eof_empty_def)
  qed
qed

lemma send_eof_empty:
  assumes "transport_send answers body t = Some (r, t')" "eof_empty t"
  shows "eof_empty t'"
  using assms flush_writes_flushed [of False answers "t\<lparr>tr_backlog := tr_backlog t @ encode_message body\<rparr>"]
  by (auto simp: transport_send_def eof_empty_def flushed_def split: if_splits)

lemma run_eof_empty:
  "transport_run ops (sent, got, bad, t) = Some (sent', got', bad', t') \<Longrightarrow> eof_empty t \<Longrightarrow> eof_empty t'"
proof (induction ops arbitrary: sent got bad t)
  case (Cons a ops)
  show ?case
  proof (cases a)
    case (Send body answers)
    then show ?thesis
      using Cons.prems Cons.IH send_eof_empty by (fastforce split: option.splits)
  next
    case (Poll blocking c)
    then obtain r u where r: "transport_poll blocking c t = Some (r, u)"
      and run: "transport_run ops (sent, (case r of Inr ms \<Rightarrow> got @ ms | Inl _ \<Rightarrow> got), bad \<or> oversized r, u)
        = Some (sent', got', bad', t')"
      using Cons.prems(1) by (auto split: option.splits)
    show ?thesis by (rule Cons.IH [OF run]) (use poll_eof_empty [OF r Cons.prems(2)] in simp)
  qed
qed simp

text \<open>
  C38: messages are delivered exactly once and in order. After any sends and polls, whichever chunks the pipe
  cut and whichever calls failed in between, as long as no message broke the size bound, what was delivered
  and what is queued are together the messages of all bytes read, and only the unfinished message is
  buffered. A poll that succeeds delivers all of them and leaves the queue empty, and it has read
  everything the pipe had ready when that is less than 64 KiB. Once the peer has closed the pipe nothing
  is left undelivered and every further poll reports it.
\<close>

theorem transport_delivers_once:
  assumes "transport_run ops ([], [], False, transport_new n) = Some (sent, got, False, t)"
  shows "feed n (False, [], []) (tr_source t) = (False, dc_buffer (tr_decoder t), got @ dc_messages (tr_decoder t))
    \<and> length (dc_buffer (tr_decoder t)) \<le> n
    \<and> (\<forall>blocking c ms t'. transport_poll blocking c t = Some (Inr ms, t') \<longrightarrow>
         feed n (False, [], []) (tr_source t') = (False, dc_buffer (tr_decoder t'), got @ ms)
         \<and> dc_messages (tr_decoder t') = []
         \<and> (poll_reads blocking c \<and> length (offered (tc_read c)) < 64 * 1024 \<longrightarrow>
              tr_source t' = tr_source t @ offered (tc_read c)))
    \<and> (tr_eof_seen t \<longrightarrow> dc_messages (tr_decoder t) = []
         \<and> (\<forall>blocking c. transport_poll blocking c t = Some (Inl (CdpIo IoUnexpectedEof), t)))"
proof -
  have n: "tr_max t = n" using run_max [OF assms] by (simp add: transport_new_def)
  have d: "decoded_ok got t" by (rule run_decoded [OF assms]) (simp_all add: decoded_new)
  have e: "eof_empty t" by (rule run_eof_empty [OF assms]) (simp add: eof_empty_def transport_new_def)
  have poll: "feed n (False, [], []) (tr_source t') = (False, dc_buffer (tr_decoder t'), got @ ms)
      \<and> dc_messages (tr_decoder t') = []" if "transport_poll blocking c t = Some (Inr ms, t')" for blocking c ms t'
  proof -
    have "\<not> oversized (Inr ms)" by (simp add: oversized_def)
    with poll_decoded [OF that d] poll_max [OF that] n show ?thesis by (simp add: decoded_ok_def)
  qed
  have now: "feed n (False, [], []) (tr_source t) = (False, dc_buffer (tr_decoder t), got @ dc_messages (tr_decoder t))"
    "length (dc_buffer (tr_decoder t)) \<le> n"
    using n d by (simp_all add: decoded_ok_def at_rest_def)
  have closed: "tr_eof_seen t \<longrightarrow> dc_messages (tr_decoder t) = []
      \<and> (\<forall>blocking c. transport_poll blocking c t = Some (Inl (CdpIo IoUnexpectedEof), t))"
    using e by (simp add: eof_empty_def transport_poll_def)
  show ?thesis
  proof (intro conjI allI impI now closed)
    fix blocking c ms t' assume p: "transport_poll blocking c t = Some (Inr ms, t')"
    show "feed n (False, [], []) (tr_source t') = (False, dc_buffer (tr_decoder t'), got @ ms)"
      "dc_messages (tr_decoder t') = []" using poll [OF p] by simp_all
    show "tr_source t' = tr_source t @ offered (tc_read c)"
      if "poll_reads blocking c \<and> length (offered (tc_read c)) < 64 * 1024" using poll_takes [OF p] that by blast
  qed (use closed in blast)+
qed

lemma transport_delivers_once_witness:
  "feed 9 (False, [], []) [5, 0, 6, 0] = (False, [], [[5], [6]])"
proof -
  have run: "transport_run [Poll False \<lparr>tc_write = [], tc_expired = True, tc_poll = PollReady,
        tc_read = [ReadBytes [5], ReadInterrupted, ReadBytes [0, 6], ReadBlocked]\<rparr>] ([], [], False, transport_new 9)
      = Some ([], [[5]], False, (transport_new 9)\<lparr>tr_source := [5, 0, 6],
          tr_decoder := \<lparr>dc_max = 9, dc_buffer = [6], dc_scan_from = 1, dc_messages = []\<rparr>\<rparr>)"
    by (simp add: transport_poll_def transport_new_def read_available_def read_budget_bytes_def
        flush_writes.simps read_loop.simps decoder_push_def decoder_new_def push_loop.simps take_messages_def
        oversized_def Let_def)
  have "transport_poll False \<lparr>tc_write = [], tc_expired = True, tc_poll = PollReady,
        tc_read = [ReadBytes [0], ReadEof]\<rparr> ((transport_new 9)\<lparr>tr_source := [5, 0, 6],
          tr_decoder := \<lparr>dc_max = 9, dc_buffer = [6], dc_scan_from = 1, dc_messages = []\<rparr>\<rparr>)
      = Some (Inr [[6]], (transport_new 9)\<lparr>tr_source := [5, 0, 6, 0], tr_eof_seen := True,
          tr_decoder := \<lparr>dc_max = 9, dc_buffer = [], dc_scan_from = 0, dc_messages = []\<rparr>\<rparr>)"
    by (simp add: transport_poll_def transport_new_def read_available_def read_budget_bytes_def
        flush_writes.simps read_loop.simps decoder_push_def push_loop.simps take_messages_def Let_def)
  with transport_delivers_once [OF run] show ?thesis by fastforce
qed

section \<open>Bounds that do not hold\<close>

text \<open>
  The read budget is not a bound: after a short read the budget is no multiple of the chunk size, and a full
  chunk then takes it below zero, where it wraps around (or panics in a checked build).
\<close>

lemma read_budget_wraps:
  assumes "decoder_push (tr_decoder t) bs = (Inr (), d)" "length bs = 4096"
  shows "read_loop 16 (ReadBytes bs # rest) t
    = read_loop (- 4080) rest (t\<lparr>tr_decoder := d, tr_source := tr_source t @ bs\<rparr>)"
  using assms by (simp add: read_loop.simps [of 16])

text \<open>
  The backlog buffer is not bounded by the backlog limit: it is emptied only when everything in it was
  written, so a peer that always leaves one byte makes it grow with every request.
\<close>

lemma backlog_grows:
  assumes "tr_backlog t = pre @ [0]" "tr_offset t = length pre" "2 \<le> tr_max t"
  shows "transport_send [Wrote 2, PipeFull PollReturned] [1] t
    = Some (Inr (), t\<lparr>tr_backlog := pre @ [0, 1, 0], tr_offset := length (pre @ [0, 1]), tr_wire := tr_wire t @ [0, 1]\<rparr>)"
  using assms
  by (simp add: transport_send_def pending_write_bytes_def max_write_backlog_bytes_def encode_message_def
      flush_writes.simps Let_def)

end
