(* ===== verification/Cdp_Connection.thy ===== *)
theory Cdp_Connection
  imports Cdp_Transport "HOL-Library.Multiset"
begin

text \<open>
  \<open>crates/kwe-cdp/src/connection.rs\<close> and \<open>client.rs\<close>: requests and their responses matched over the pipe,
  a bounded queue of events, and the client's blocking request. The JSON codec is a parameter: its values
  are the cases of \<open>serde\_json::Value\<close> that the code looks at.
\<close>

section \<open>State\<close>

datatype json = JNull | JBool bool | JUnsigned u64 | JNumber | JString string | JArray "json list"
  | JObject "(string \<times> json) list"

fun json_get :: "string \<Rightarrow> json \<Rightarrow> json option" where
  "json_get k (JObject kvs) = map_of kvs k"
| "json_get k _ = None"

fun as_str :: "json \<Rightarrow> string option" where
  "as_str (JString s) = Some s"
| "as_str _ = None"

fun as_u64 :: "json \<Rightarrow> u64 option" where
  "as_u64 (JUnsigned n) = Some n"
| "as_u64 _ = None"

definition event_queue_limit :: nat where "event_queue_limit = 64"
definition max_in_flight :: nat where "max_in_flight = 64"

record response =
  re_id :: u32
  re_session :: "string option"
  re_result :: "json option"
  re_error :: "json option"

record cdp_event =
  ev_method :: string
  ev_params :: json
  ev_session :: "string option"

record pending_request =
  pq_id :: u32
  pq_session :: "string option"
  pq_response :: "response option"

record connection =
  cn_transport :: transport
  cn_next_id :: u32
  cn_pending :: "pending_request list"
  cn_events :: "cdp_event list"
  cn_dropped :: u64

definition cdp_connection_new :: "nat \<Rightarrow> connection" where
  "cdp_connection_new n = \<lparr>cn_transport = transport_new n, cn_next_id = 0, cn_pending = [], cn_events = [], cn_dropped = 0\<rparr>"

section \<open>Operations\<close>

definition alloc_id :: "connection \<Rightarrow> u32 \<times> connection" where
  "alloc_id c = (let rid = (if cn_next_id c + 1 = 0 then 1 else cn_next_id c + 1) in (rid, c\<lparr>cn_next_id := rid\<rparr>))"

definition request_json :: "u32 \<Rightarrow> string \<Rightarrow> json \<Rightarrow> string option \<Rightarrow> json" where
  "request_json rid m params session =
     JObject ([(''id'', JUnsigned (ucast rid)), (''method'', JString m), (''params'', params)]
       @ (case session of Some s \<Rightarrow> [(''sessionId'', JString s)] | None \<Rightarrow> []))"

definition send_request ::
  "(json \<Rightarrow> u8 list option) \<Rightarrow> write_answer list \<Rightarrow> string \<Rightarrow> json \<Rightarrow> string option \<Rightarrow> connection
     \<Rightarrow> ((cdp_error, u32) result \<times> connection) option" where
  "send_request ser answers m params session c =
     (if max_in_flight \<le> length (cn_pending c) then Some (Inl (CdpIo IoWouldBlock), c)
      else case alloc_id c of (rid, c1) \<Rightarrow>
        (case ser (request_json rid m params session) of
           None \<Rightarrow> Some (Inl (CdpParse []), c1)
         | Some body \<Rightarrow>
             (case transport_send answers body (cn_transport c1) of
                None \<Rightarrow> None
              | Some (Inl e, t) \<Rightarrow> Some (Inl e, c1\<lparr>cn_transport := t\<rparr>)
              | Some (Inr _, t) \<Rightarrow>
                  Some (Inr rid, c1\<lparr>cn_transport := t, cn_pending := cn_pending c1 @
                    [\<lparr>pq_id = rid, pq_session = session, pq_response = None\<rparr>]\<rparr>))))"

definition enqueue_event :: "cdp_event \<Rightarrow> connection \<Rightarrow> connection" where
  "enqueue_event ev c =
     (if event_queue_limit \<le> length (cn_events c)
      then c\<lparr>cn_events := tl (cn_events c) @ [ev], cn_dropped := cn_dropped c + 1\<rparr>
      else c\<lparr>cn_events := cn_events c @ [ev]\<rparr>)"

text \<open>The first slot with this id and session takes the response.\<close>

fun fill_slot :: "response \<Rightarrow> pending_request list \<Rightarrow> pending_request list" where
  "fill_slot r [] = []"
| "fill_slot r (p # ps) =
     (if pq_id p = re_id r \<and> pq_session p = re_session r then p\<lparr>pq_response := Some r\<rparr> # ps
      else p # fill_slot r ps)"

definition route_message ::
  "(u8 list \<Rightarrow> json option) \<Rightarrow> u8 list \<Rightarrow> connection \<Rightarrow> (cdp_error, unit) result \<times> connection" where
  "route_message parse body c =
     (case parse body of
        None \<Rightarrow> (Inl (CdpParse []), c)
      | Some v \<Rightarrow>
          (let session = Option.bind (json_get ''sessionId'' v) as_str in
           case json_get ''id'' v of
             Some i \<Rightarrow>
               (case as_u64 i of
                  None \<Rightarrow> (Inl (CdpParse ''response id is not an integer''), c)
                | Some n \<Rightarrow>
                    if u32_max < unat n then (Inl (CdpParse ''response id out of range''), c)
                    else (Inr (), c\<lparr>cn_pending := fill_slot \<lparr>re_id = ucast n, re_session = session,
                           re_result = json_get ''result'' v, re_error = json_get ''error'' v\<rparr> (cn_pending c)\<rparr>))
           | None \<Rightarrow>
               (case Option.bind (json_get ''method'' v) as_str of
                  None \<Rightarrow> (Inl (CdpParse ''message has neither id nor method''), c)
                | Some m \<Rightarrow>
                    (Inr (), enqueue_event \<lparr>ev_method = m,
                       ev_params = (case json_get ''params'' v of Some p \<Rightarrow> p | None \<Rightarrow> JNull),
                       ev_session = session\<rparr> c))))"

text \<open>An error ends the loop, and the messages after it in the batch are gone.\<close>

fun route_all ::
  "(u8 list \<Rightarrow> json option) \<Rightarrow> u8 list list \<Rightarrow> connection \<Rightarrow> (cdp_error, unit) result \<times> connection" where
  "route_all parse [] c = (Inr (), c)"
| "route_all parse (b # bs) c =
     (case route_message parse b c of (Inl e, c') \<Rightarrow> (Inl e, c') | (Inr _, c') \<Rightarrow> route_all parse bs c')"

definition connection_poll ::
  "(u8 list \<Rightarrow> json option) \<Rightarrow> bool \<Rightarrow> transport_calls \<Rightarrow> connection \<Rightarrow> ((cdp_error, unit) result \<times> connection) option" where
  "connection_poll parse blocking calls c =
     (case transport_poll blocking calls (cn_transport c) of
        None \<Rightarrow> None
      | Some (Inl e, t) \<Rightarrow> Some (Inl e, c\<lparr>cn_transport := t\<rparr>)
      | Some (Inr ms, t) \<Rightarrow> Some (route_all parse ms (c\<lparr>cn_transport := t\<rparr>)))"

text \<open>\<open>Vec::swap\_remove\<close> and \<open>Iterator::position\<close>.\<close>

definition swap_remove :: "nat \<Rightarrow> 'a list \<Rightarrow> 'a list" where
  "swap_remove i xs = (if Suc i = length xs then butlast xs else (butlast xs)[i := last xs])"

fun slot_position :: "u32 \<Rightarrow> pending_request list \<Rightarrow> nat option" where
  "slot_position rid [] = None"
| "slot_position rid (p # ps) = (if pq_id p = rid then Some 0 else map_option Suc (slot_position rid ps))"

definition take_response :: "u32 \<Rightarrow> connection \<Rightarrow> response option \<times> connection" where
  "take_response rid c =
     (case slot_position rid (cn_pending c) of
        None \<Rightarrow> (None, c)
      | Some i \<Rightarrow>
          (case pq_response (cn_pending c ! i) of
             None \<Rightarrow> (None, c)
           | Some r \<Rightarrow> (Some r, c\<lparr>cn_pending := swap_remove i (cn_pending c)\<rparr>)))"

definition discard_pending :: "u32 \<Rightarrow> connection \<Rightarrow> connection" where
  "discard_pending rid c =
     (case slot_position rid (cn_pending c) of
        None \<Rightarrow> c
      | Some i \<Rightarrow> c\<lparr>cn_pending := swap_remove i (cn_pending c)\<rparr>)"

definition next_event :: "connection \<Rightarrow> cdp_event option \<times> connection" where
  "next_event c = (case cn_events c of [] \<Rightarrow> (None, c) | e # es \<Rightarrow> (Some e, c\<lparr>cn_events := es\<rparr>))"

section \<open>The client's request\<close>

text \<open>
  One element of the list is one turn of the loop: whether the deadline has passed, and the calls of the
  poll. A request that has used up the list is still waiting.
\<close>

fun request_loop ::
  "(u8 list \<Rightarrow> json option) \<Rightarrow> u32 \<Rightarrow> (bool \<times> transport_calls) list \<Rightarrow> connection
     \<Rightarrow> ((cdp_error, response) result \<times> connection) option" where
  "request_loop parse rid [] c = None"
| "request_loop parse rid ((late, calls) # turns) c =
     (if late then Some (Inl CdpTimeout, discard_pending rid c)
      else case connection_poll parse True calls c of
        None \<Rightarrow> None
      | Some (Inl e, c1) \<Rightarrow> Some (Inl e, c1)
      | Some (Inr _, c1) \<Rightarrow>
          (case take_response rid c1 of
             (Some r, c2) \<Rightarrow> Some (Inr r, c2)
           | (None, c2) \<Rightarrow> request_loop parse rid turns c2))"

definition client_request ::
  "(json \<Rightarrow> u8 list option) \<Rightarrow> (u8 list \<Rightarrow> json option) \<Rightarrow> write_answer list \<Rightarrow> (bool \<times> transport_calls) list
     \<Rightarrow> string option \<Rightarrow> string \<Rightarrow> json \<Rightarrow> connection \<Rightarrow> ((cdp_error, response) result \<times> connection) option" where
  "client_request ser parse answers turns session m params c =
     (case send_request ser answers m params session c of
        None \<Rightarrow> None
      | Some (Inl e, c1) \<Rightarrow> Some (Inl e, c1)
      | Some (Inr rid, c1) \<Rightarrow> request_loop parse rid turns c1)"

section \<open>The invariant\<close>

definition slot_ok :: "pending_request \<Rightarrow> bool" where
  "slot_ok p \<longleftrightarrow> (\<forall>r. pq_response p = Some r \<longrightarrow> re_id r = pq_id p \<and> re_session r = pq_session p)"

text \<open>After \<open>n\<close> requests: ids count up from 1 without repetition, as long as they do not wrap around.\<close>

definition cdp_inv :: "nat \<Rightarrow> connection \<Rightarrow> bool" where
  "cdp_inv n c \<longleftrightarrow> length (cn_pending c) \<le> max_in_flight \<and> length (cn_events c) \<le> event_queue_limit
     \<and> list_all slot_ok (cn_pending c)
     \<and> (n \<le> u32_max \<longrightarrow> unat (cn_next_id c) = n \<and> distinct (map pq_id (cn_pending c))
          \<and> list_all (\<lambda>i. 0 < unat i \<and> unat i \<le> n) (map pq_id (cn_pending c)))"

lemma cdp_new: "cdp_inv 0 (cdp_connection_new n)"
  by (simp add: cdp_inv_def cdp_connection_new_def)

lemma cdp_transport_inv [simp]: "cdp_inv n (c\<lparr>cn_transport := t\<rparr>) = cdp_inv n c"
  by (simp add: cdp_inv_def)

lemma alloc_next:
  assumes "cdp_inv n c" "alloc_id c = (rid, c1)"
  shows "cdp_inv (Suc n) c1" "cn_pending c1 = cn_pending c" "Suc n \<le> u32_max \<Longrightarrow> unat rid = Suc n"
    "rid \<noteq> 0" "cn_transport c1 = cn_transport c" "cn_events c1 = cn_events c"
proof -
  have rid: "rid = (if cn_next_id c + 1 = 0 then 1 else cn_next_id c + 1)" and c1: "c1 = c\<lparr>cn_next_id := rid\<rparr>"
    using assms(2) by (auto simp: alloc_id_def Let_def)
  show "cn_pending c1 = cn_pending c" "rid \<noteq> 0" "cn_transport c1 = cn_transport c" "cn_events c1 = cn_events c"
    using rid c1 by auto
  show next_id: "unat rid = Suc n" if n: "Suc n \<le> u32_max"
  proof -
    have u: "unat (cn_next_id c) = n" using assms(1) n by (simp add: cdp_inv_def)
    then have "unat (cn_next_id c + 1) = Suc n"
      using n by (simp add: unat_word_ariths u32_max_def)
    then show ?thesis using rid by (metis unat_0 nat.distinct(1))
  qed
  show "cdp_inv (Suc n) c1" using assms(1) next_id c1 by (auto simp: cdp_inv_def list_all_iff)
qed

lemma send_request_inv:
  assumes "send_request ser answers m params session c = Some (r, c')" "cdp_inv n c"
  shows "\<exists>k \<le> Suc n. cdp_inv k c'"
proof (cases "max_in_flight \<le> length (cn_pending c)")
  case True
  then show ?thesis using assms by (auto simp: send_request_def intro!: exI [of _ n])
next
  case False
  obtain rid c1 where a: "alloc_id c = (rid, c1)" by (cases "alloc_id c") simp
  note n = alloc_next [OF assms(2) a]
  have "cdp_inv (Suc n) (c1\<lparr>cn_transport := t, cn_pending := cn_pending c1 @
      [\<lparr>pq_id = rid, pq_session = session, pq_response = None\<rparr>]\<rparr>)" for t
    using n(1-3) assms(2) False by (auto simp: cdp_inv_def slot_ok_def list_all_iff)
  with n(1) show ?thesis
    using assms(1) False a by (fastforce simp: send_request_def split: option.splits sum.splits prod.splits)
qed

lemma fill_slot_keeps:
  "map pq_id (fill_slot r ps) = map pq_id ps" "map pq_session (fill_slot r ps) = map pq_session ps"
  "list_all slot_ok ps \<Longrightarrow> list_all slot_ok (fill_slot r ps)"
  by (induction ps) (auto simp: slot_ok_def)

lemma fill_slot_length [simp]: "length (fill_slot r ps) = length ps"
  by (metis fill_slot_keeps(1) length_map)

lemma fill_inv: "cdp_inv n c \<Longrightarrow> cdp_inv n (c\<lparr>cn_pending := fill_slot r (cn_pending c)\<rparr>)"
  by (simp add: cdp_inv_def fill_slot_keeps)

lemma enqueue_inv: "cdp_inv n c \<Longrightarrow> cdp_inv n (enqueue_event ev c)"
  by (auto simp: cdp_inv_def enqueue_event_def event_queue_limit_def)

lemma route_inv: "cdp_inv n c \<Longrightarrow> cdp_inv n (snd (route_message parse b c))"
  by (auto simp: route_message_def Let_def enqueue_inv fill_inv split: option.split)

lemma route_all_inv: "cdp_inv n c \<Longrightarrow> cdp_inv n (snd (route_all parse bs c))"
proof (induction bs arbitrary: c)
  case (Cons b bs)
  then show ?case
    using route_inv [OF Cons.prems, of parse b]
    by (auto split: prod.split sum.split)
qed simp

lemma connection_poll_inv:
  assumes "connection_poll parse blocking calls c = Some (r, c')" "cdp_inv n c"
  shows "cdp_inv n c'"
proof -
  obtain q t where t: "transport_poll blocking calls (cn_transport c) = Some (q, t)"
    using assms(1) by (auto simp: connection_poll_def split: option.splits)
  show ?thesis
  proof (cases q)
    case (Inr ms)
    then show ?thesis
      using assms t route_all_inv [of n "c\<lparr>cn_transport := t\<rparr>" parse ms] by (simp add: connection_poll_def)
  qed (use assms t in \<open>auto simp: connection_poll_def\<close>)
qed

lemma slot_position_some:
  "slot_position rid ps = Some i \<Longrightarrow> i < length ps \<and> pq_id (ps ! i) = rid"
  by (induction ps arbitrary: i) (auto split: if_splits)

lemma slot_position_none: "slot_position rid ps = None \<longleftrightarrow> rid \<notin> pq_id ` set ps"
  by (induction ps) auto

lemma mset_swap_remove:
  assumes "i < length xs"
  shows "mset (swap_remove i xs) = mset xs - {#xs ! i#}"
proof (cases "Suc i = length xs")
  case True
  then have "xs = butlast xs @ [xs ! i]" using assms by (metis append_butlast_last_id last_conv_nth length_greater_0_conv less_nat_zero_code diff_Suc_1 gr_zeroI)
  then have "mset xs = mset (butlast xs) + {#xs ! i#}" by (metis mset_append mset_single_iff_right)
  then show ?thesis using True by (simp add: swap_remove_def)
next
  case False
  have xs: "xs = butlast xs @ [last xs]" using assms by (metis append_butlast_last_id less_nat_zero_code list.size(3))
  have i: "i < length (butlast xs)" using False assms by simp
  then have n: "butlast xs ! i = xs ! i" by (simp add: nth_butlast)
  have "mset xs = mset (butlast xs) + {#last xs#}" by (metis xs mset_append mset_single_iff_right)
  moreover have "xs ! i \<in># mset (butlast xs)" using i n by (metis nth_mem set_mset_mset)
  ultimately show ?thesis using False i n by (simp add: swap_remove_def mset_update diff_union_swap2)
qed

lemma distinct_submset:
  assumes "mset ys \<subseteq># mset xs" "distinct xs"
  shows "distinct ys"
proof -
  have "count (mset ys) a = (if a \<in> set ys then 1 else 0)" for a
  proof (cases "a \<in> set ys")
    case True
    have "count (mset ys) a \<le> count (mset xs) a" using assms(1) by (rule mset_subset_eq_count)
    also have "\<dots> \<le> 1" using assms(2) by (simp add: distinct_count_atmost_1)
    finally have "count (mset ys) a \<le> 1" .
    moreover have "0 < count (mset ys) a" using True by simp
    ultimately have "count (mset ys) a = 1" by linarith
    with True show ?thesis by simp
  qed simp
  then show ?thesis by (simp add: distinct_count_atmost_1)
qed

lemma swap_remove_inv:
  assumes "cdp_inv n c" "i < length (cn_pending c)"
  shows "cdp_inv n (c\<lparr>cn_pending := swap_remove i (cn_pending c)\<rparr>)"
proof -
  let ?q = "swap_remove i (cn_pending c)"
  have m: "mset ?q = mset (cn_pending c) - {#cn_pending c ! i#}" by (rule mset_swap_remove [OF assms(2)])
  then have sub: "mset ?q \<subseteq># mset (cn_pending c)" by simp
  then have "mset (map pq_id ?q) \<subseteq># mset (map pq_id (cn_pending c))" by (simp add: image_mset_subseteq_mono)
  then have "distinct (map pq_id ?q)" if "distinct (map pq_id (cn_pending c))"
    using that by (rule distinct_submset)
  moreover have "set ?q \<subseteq> set (cn_pending c)" using sub by (metis set_mset_mono set_mset_mset)
  moreover have "length ?q \<le> length (cn_pending c)" using sub by (metis size_mset size_mset_mono)
  ultimately show ?thesis using assms(1) by (auto simp: cdp_inv_def list_all_iff)
qed

lemma take_response_inv: "cdp_inv n c \<Longrightarrow> cdp_inv n (snd (take_response rid c))"
  by (auto simp: take_response_def swap_remove_inv dest: slot_position_some split: option.split)

lemma discard_inv: "cdp_inv n c \<Longrightarrow> cdp_inv n (discard_pending rid c)"
  by (auto simp: discard_pending_def swap_remove_inv dest: slot_position_some split: option.split)

lemma next_event_inv: "cdp_inv n c \<Longrightarrow> cdp_inv n (snd (next_event c))"
  by (auto simp: next_event_def cdp_inv_def split: list.split)

section \<open>Runs\<close>

datatype cdp_op =
    CdpSend "write_answer list" string json "string option" | CdpPoll bool transport_calls
  | CdpTake u32 | CdpDiscard u32 | CdpEvent

fun cdp_step ::
  "(json \<Rightarrow> u8 list option) \<Rightarrow> (u8 list \<Rightarrow> json option) \<Rightarrow> cdp_op \<Rightarrow> connection \<Rightarrow> connection option" where
  "cdp_step ser parse (CdpSend answers m params session) c = map_option snd (send_request ser answers m params session c)"
| "cdp_step ser parse (CdpPoll blocking calls) c = map_option snd (connection_poll parse blocking calls c)"
| "cdp_step ser parse (CdpTake rid) c = Some (snd (take_response rid c))"
| "cdp_step ser parse (CdpDiscard rid) c = Some (discard_pending rid c)"
| "cdp_step ser parse CdpEvent c = Some (snd (next_event c))"

fun cdp_run ::
  "(json \<Rightarrow> u8 list option) \<Rightarrow> (u8 list \<Rightarrow> json option) \<Rightarrow> cdp_op list \<Rightarrow> connection \<Rightarrow> connection option" where
  "cdp_run ser parse [] c = Some c"
| "cdp_run ser parse (a # ops) c = Option.bind (cdp_step ser parse a c) (cdp_run ser parse ops)"

lemma cdp_step_inv:
  assumes "cdp_step ser parse a c = Some c'" "cdp_inv n c"
  shows "\<exists>k \<le> Suc n. cdp_inv k c'"
proof (cases a)
  case (CdpSend answers m params session)
  then show ?thesis using assms send_request_inv [of ser answers m params session c _ c' n] by auto
next
  case (CdpPoll blocking calls)
  then obtain r where "connection_poll parse blocking calls c = Some (r, c')" using assms(1) by auto
  from connection_poll_inv [OF this assms(2)] show ?thesis by (intro exI [of _ n]) simp
qed (use assms take_response_inv discard_inv next_event_inv in \<open>fastforce intro: exI [of _ n]\<close>)+

lemma cdp_run_inv:
  "cdp_run ser parse ops c = Some c' \<Longrightarrow> cdp_inv n c \<Longrightarrow> \<exists>k \<le> n + length ops. cdp_inv k c'"
proof (induction ops arbitrary: c n)
  case (Cons a ops)
  then obtain c1 where c1: "cdp_step ser parse a c = Some c1" "cdp_run ser parse ops c1 = Some c'"
    by (auto simp: Option.bind_eq_Some_conv)
  from cdp_step_inv [OF c1(1) Cons.prems(2)] obtain k where k: "k \<le> Suc n" "cdp_inv k c1" by blast
  from Cons.IH [OF c1(2) k(2)] k(1) show ?case by (metis add_Suc_right add_Suc add_le_mono1 le_trans list.size(4) One_nat_def add.right_neutral)
qed auto

section \<open>The blocking request\<close>

text \<open>The slots in flight, by id and session.\<close>

definition slot_keys :: "connection \<Rightarrow> (u32 \<times> string option) list" where
  "slot_keys c = map (\<lambda>p. (pq_id p, pq_session p)) (cn_pending c)"

definition in_flight :: "connection \<Rightarrow> (u32 \<times> string option) multiset" where
  "in_flight c = mset (slot_keys c)"

lemma slot_keys_transport [simp]: "slot_keys (c\<lparr>cn_transport := t\<rparr>) = slot_keys c"
  by (simp add: slot_keys_def)

lemma fill_slot_keys: "map (\<lambda>p. (pq_id p, pq_session p)) (fill_slot r ps) = map (\<lambda>p. (pq_id p, pq_session p)) ps"
  by (induction ps) auto

lemma route_keys: "slot_keys (snd (route_all parse bs c)) = slot_keys c"
proof (induction bs arbitrary: c)
  case (Cons b bs)
  have "slot_keys (snd (route_message parse b c)) = slot_keys c"
    by (auto simp: route_message_def Let_def slot_keys_def enqueue_event_def fill_slot_keys split: option.split)
  then show ?case using Cons.IH by (auto split: prod.split sum.split)
qed simp

lemma poll_keys:
  assumes "connection_poll parse blocking calls c = Some (r, c')"
  shows "slot_keys c' = slot_keys c"
proof -
  obtain q t where t: "transport_poll blocking calls (cn_transport c) = Some (q, t)"
    using assms by (auto simp: connection_poll_def split: option.splits)
  then show ?thesis
    using assms route_keys [of parse _ "c\<lparr>cn_transport := t\<rparr>"]
    by (cases q) (auto simp: connection_poll_def, metis snd_conv slot_keys_transport)
qed

lemma remove_slot:
  assumes "slot_position rid (cn_pending c) = Some i" "distinct (map pq_id (cn_pending c))"
    and "in_flight c = add_mset (rid, session) old"
  shows "in_flight (c\<lparr>cn_pending := swap_remove i (cn_pending c)\<rparr>) = old" "pq_session (cn_pending c ! i) = session"
proof -
  let ?ps = "cn_pending c" and ?f = "\<lambda>p. (pq_id p, pq_session p)"
  have i: "i < length ?ps" "pq_id (?ps ! i) = rid" using slot_position_some [OF assms(1)] by auto
  have "(rid, session) \<in># in_flight c" using assms(3) by simp
  then obtain p where p: "p \<in> set ?ps" "pq_id p = rid" "pq_session p = session"
    by (auto simp: in_flight_def slot_keys_def)
  then have "p = ?ps ! i"
    using assms(2) i by (metis distinct_map inj_on_eq_iff nth_mem)
  with p show s: "pq_session (?ps ! i) = session" by simp
  have "in_flight (c\<lparr>cn_pending := swap_remove i ?ps\<rparr>) = image_mset ?f (mset ?ps - {#?ps ! i#})"
    by (simp add: in_flight_def slot_keys_def mset_swap_remove [OF i(1)])
  also have "\<dots> = image_mset ?f (mset ?ps) - {#?f (?ps ! i)#}"
    using i(1) by (simp add: image_mset_Diff)
  also have "\<dots> = in_flight c - {#(rid, session)#}" using i s by (simp add: in_flight_def slot_keys_def)
  finally show "in_flight (c\<lparr>cn_pending := swap_remove i ?ps\<rparr>) = old" using assms(3) by simp
qed

lemma position_present: "in_flight c = add_mset (rid, session) old \<Longrightarrow> \<exists>i. slot_position rid (cn_pending c) = Some i"
proof (rule ccontr)
  assume m: "in_flight c = add_mset (rid, session) old" and "\<nexists>i. slot_position rid (cn_pending c) = Some i"
  then have "rid \<notin> pq_id ` set (cn_pending c)" by (simp add: slot_position_none [symmetric])
  moreover have "(rid, session) \<in># in_flight c" by (simp add: m)
  ultimately show False by (auto simp: in_flight_def slot_keys_def)
qed

lemma request_loop_spec:
  "request_loop parse rid turns c = Some (r, c') \<Longrightarrow> cdp_inv n c \<Longrightarrow> n \<le> u32_max \<Longrightarrow>
     in_flight c = add_mset (rid, session) old \<Longrightarrow>
     (case r of Inr resp \<Rightarrow> re_id resp = rid \<and> re_session resp = session \<and> in_flight c' = old
      | Inl e \<Rightarrow> (e = CdpTimeout \<and> in_flight c' = old) \<or> in_flight c' = add_mset (rid, session) old)"
proof (induction parse rid turns c rule: request_loop.induct)
  case (2 parse rid late calls turns c)
  obtain i where i: "slot_position rid (cn_pending c) = Some i" using position_present [OF "2.prems"(4)] by blast
  have dist: "distinct (map pq_id (cn_pending c))" using "2.prems"(2,3) by (simp add: cdp_inv_def)
  show ?case
  proof (cases late)
    case True
    then show ?thesis
      using "2.prems"(1) remove_slot [OF i dist "2.prems"(4)] i by (auto simp: discard_pending_def)
  next
    case False
    then obtain q c1 where p: "connection_poll parse True calls c = Some (q, c1)"
      using "2.prems"(1) by (auto split: option.splits)
    have inv1: "cdp_inv n c1" by (rule connection_poll_inv [OF p "2.prems"(2)])
    have fl1: "in_flight c1 = add_mset (rid, session) old"
      using poll_keys [OF p] "2.prems"(4) by (simp add: in_flight_def)
    show ?thesis
    proof (cases q)
      case (Inl e)
      then show ?thesis using "2.prems"(1) False p fl1 by auto
    next
      case (Inr u)
      obtain j where j: "slot_position rid (cn_pending c1) = Some j" using position_present [OF fl1] by blast
      have dist1: "distinct (map pq_id (cn_pending c1))" using inv1 "2.prems"(3) by (simp add: cdp_inv_def)
      note rem = remove_slot [OF j dist1 fl1]
      show ?thesis
      proof (cases "pq_response (cn_pending c1 ! j)")
        case None
        then have "request_loop parse rid turns c1 = Some (r, c')"
          using "2.prems"(1) False p Inr j by (auto simp: take_response_def)
        then show ?thesis
          using "2.IH" [of "(q, c1)" q c1 u None c1] None False p Inr inv1 fl1 "2.prems"(3) j
          by (auto simp: take_response_def)
      next
        case (Some resp)
        have "slot_ok (cn_pending c1 ! j)"
          using inv1 slot_position_some [OF j] by (auto simp: cdp_inv_def list_all_length)
        then show ?thesis
          using "2.prems"(1) False p Inr j Some rem slot_position_some [OF j]
          by (auto simp: take_response_def slot_ok_def)
      qed
    qed
  qed
qed simp

text \<open>
  a blocking request returns its own answer: what it returns carries the id just allocated and its
  session, and its slot is gone, as it is after a timeout; requests of others stay in flight. When a poll
  fails, for instance because some message of the browser was no valid envelope, the slot stays behind
  for ever, which with 64 of them refuses every further request.
\<close>

theorem client_request_correct:
  assumes "cdp_run ser0 parse0 ops (cdp_connection_new k) = Some c" "length ops < u32_max"
    and "send_request ser answers m params session c = Some (Inr rid, c1)"
    and "client_request ser parse answers turns session m params c = Some (r, c')"
  shows "rid \<noteq> 0 \<and> rid \<notin> pq_id ` set (cn_pending c)
    \<and> (case r of
         Inr resp \<Rightarrow> re_id resp = rid \<and> re_session resp = session \<and> in_flight c' = in_flight c
       | Inl e \<Rightarrow> (e = CdpTimeout \<and> in_flight c' = in_flight c) \<or> in_flight c' = add_mset (rid, session) (in_flight c))"
proof -
  obtain n where n: "n < u32_max" "cdp_inv n c"
    using cdp_run_inv [OF assms(1) cdp_new] assms(2) by (metis add_0 le_less_trans)
  obtain c0 where a: "alloc_id c = (rid, c0)"
    and c1: "\<exists>t. c1 = c0\<lparr>cn_transport := t, cn_pending := cn_pending c0 @
      [\<lparr>pq_id = rid, pq_session = session, pq_response = None\<rparr>]\<rparr>"
    using assms(3) by (auto simp: send_request_def split: if_splits prod.splits option.splits sum.splits)
  note al = alloc_next [OF n(2) a]
  have fresh: "rid \<notin> pq_id ` set (cn_pending c)"
    using n al(3) by (fastforce simp: cdp_inv_def list_all_iff)
  have fl: "in_flight c1 = add_mset (rid, session) (in_flight c)"
    using c1 al(2) by (auto simp: in_flight_def slot_keys_def)
  obtain i where i: "i \<le> Suc n" "cdp_inv i c1" using send_request_inv [OF assms(3) n(2)] by blast
  have run: "request_loop parse rid turns c1 = Some (r, c')" using assms(3,4) by (simp add: client_request_def)
  from request_loop_spec [OF run i(2) _ fl] i(1) n(1) al(4) fresh show ?thesis by (simp add: Suc_leI le_trans)
qed

definition idle_calls :: transport_calls where
  "idle_calls = \<lparr>tc_write = [], tc_expired = True, tc_poll = PollExpired, tc_read = [ReadBlocked]\<rparr>"

lemma client_request_correct_witness:
  "in_flight (snd (the (client_request (\<lambda>_. Some [7]) (\<lambda>_. None) [Wrote 2] [(False, idle_calls), (True, idle_calls)]
     None ''m'' JNull (cdp_connection_new 9)))) \<in> {{#}, {#(1, None)#}}"
proof -
  let ?c = "cdp_connection_new 9"
  let ?c1 = "?c\<lparr>cn_next_id := 1, cn_pending := [\<lparr>pq_id = 1, pq_session = None, pq_response = None\<rparr>],
    cn_transport := (transport_new 9)\<lparr>tr_wire := [7, 0]\<rparr>\<rparr>"
  have send: "send_request (\<lambda>_. Some [7]) [Wrote 2] ''m'' JNull None ?c = Some (Inr 1, ?c1)"
    by (simp add: send_request_def cdp_connection_new_def alloc_id_def Let_def max_in_flight_def transport_send_def
        transport_new_def pending_write_bytes_def max_write_backlog_bytes_def encode_message_def flush_writes.simps)
  have req: "client_request (\<lambda>_. Some [7]) (\<lambda>_. None) [Wrote 2] [(False, idle_calls), (True, idle_calls)] None ''m'' JNull ?c
      = Some (Inl CdpTimeout, ?c1\<lparr>cn_pending := []\<rparr>)"
    by (simp add: client_request_def send connection_poll_def transport_poll_def read_available_def idle_calls_def
        transport_new_def flush_writes.simps read_loop.simps read_budget_bytes_def take_messages_def decoder_new_def
        take_response_def discard_pending_def swap_remove_def)
  from client_request_correct [OF _ _ send req, of "\<lambda>_. None" "\<lambda>_. None" "[]" 9]
  have "in_flight (?c1\<lparr>cn_pending := []\<rparr>) = in_flight ?c \<or> in_flight (?c1\<lparr>cn_pending := []\<rparr>) = add_mset (1, None) (in_flight ?c)"
    by (simp add: u32_max_def)
  moreover have "in_flight ?c = {#}" by (simp add: in_flight_def slot_keys_def cdp_connection_new_def)
  ultimately show ?thesis unfolding req by simp
qed

text \<open>
  Taking an answer: it is the one that was routed to the slot of exactly this id, in the session of the
  request, and only that slot goes.
\<close>

lemma take_response_own:
  assumes "cdp_inv n c" "take_response rid c = (Some r, c')"
  shows "re_id r = rid" "mset (cn_pending c) = add_mset \<lparr>pq_id = rid, pq_session = re_session r, pq_response = Some r\<rparr> (mset (cn_pending c'))"
    "cn_events c' = cn_events c" "cn_transport c' = cn_transport c"
proof -
  obtain i where i: "slot_position rid (cn_pending c) = Some i" "pq_response (cn_pending c ! i) = Some r"
    "c' = c\<lparr>cn_pending := swap_remove i (cn_pending c)\<rparr>"
    using assms(2) by (auto simp: take_response_def split: option.splits)
  note pos = slot_position_some [OF i(1)]
  have ok: "slot_ok (cn_pending c ! i)" using assms(1) pos by (auto simp: cdp_inv_def list_all_length)
  with i(2) pos show "re_id r = rid" by (simp add: slot_ok_def)
  have "cn_pending c ! i = \<lparr>pq_id = rid, pq_session = re_session r, pq_response = Some r\<rparr>"
    using ok i(2) pos by (simp add: slot_ok_def)
  moreover have "cn_pending c ! i \<in># mset (cn_pending c)" using pos by simp
  ultimately show "mset (cn_pending c) = add_mset \<lparr>pq_id = rid, pq_session = re_session r, pq_response = Some r\<rparr> (mset (cn_pending c'))"
    using mset_swap_remove [of i "cn_pending c"] pos i(3) by simp
  show "cn_events c' = cn_events c" "cn_transport c' = cn_transport c" using i(3) by simp_all
qed

lemma take_response_waits: "take_response rid c = (None, c') \<Longrightarrow> c' = c
    \<and> (distinct (map pq_id (cn_pending c)) \<longrightarrow> (\<forall>p \<in> set (cn_pending c). pq_id p = rid \<longrightarrow> pq_response p = None))"
proof (cases "slot_position rid (cn_pending c)")
  case None
  then show "take_response rid c = (None, c') \<Longrightarrow> ?thesis"
    using slot_position_none [of rid "cn_pending c"] by (auto simp: take_response_def)
next
  case (Some i)
  note pos = slot_position_some [OF Some]
  have "p = cn_pending c ! i" if "distinct (map pq_id (cn_pending c))" "p \<in> set (cn_pending c)" "pq_id p = rid" for p
    using that pos by (metis distinct_map inj_on_eq_iff nth_mem)
  then show "take_response rid c = (None, c') \<Longrightarrow> ?thesis"
    using Some by (auto simp: take_response_def split: option.splits)
qed

text \<open>
  C39: answers reach the request they belong to. Over any use of a connection, whatever the browser sends, at
  most 64 requests are in flight and at most 64 events are queued, and for the first \<open>2 ^ 32 - 1\<close>
  operations no id is given twice and none is 0. Taking the answer to an id gives the response routed to
  the one slot of this id, which carries this id and the session of the request, and removes only that
  slot; without an answer nothing changes. And the response a blocking request returns carries the id it
  was sent with, new among those in flight, and its session, and the other requests stay in flight.
\<close>

theorem cdp_connection_invariant:
  assumes "cdp_run ser parse ops (cdp_connection_new m) = Some c" "length ops < u32_max"
  shows "length (cn_pending c) \<le> 64 \<and> length (cn_events c) \<le> 64
    \<and> distinct (map pq_id (cn_pending c)) \<and> 0 \<notin> pq_id ` set (cn_pending c)
    \<and> (\<forall>rid r c'. take_response rid c = (Some r, c') \<longrightarrow>
         re_id r = rid
         \<and> mset (cn_pending c) = add_mset \<lparr>pq_id = rid, pq_session = re_session r, pq_response = Some r\<rparr> (mset (cn_pending c')))
    \<and> (\<forall>rid c'. take_response rid c = (None, c') \<longrightarrow>
         c' = c \<and> (\<forall>p \<in> set (cn_pending c). pq_id p = rid \<longrightarrow> pq_response p = None))
    \<and> (\<forall>answers turns session command_name params rid c1 resp c'.
         send_request ser answers command_name params session c = Some (Inr rid, c1)
         \<and> client_request ser parse answers turns session command_name params c = Some (Inr resp, c') \<longrightarrow>
           rid \<noteq> 0 \<and> rid \<notin> pq_id ` set (cn_pending c)
           \<and> re_id resp = rid \<and> re_session resp = session \<and> in_flight c' = in_flight c)"
proof -
  obtain k where k: "k \<le> length ops" "cdp_inv k c" using cdp_run_inv [OF assms(1) cdp_new] by auto
  then have dist: "distinct (map pq_id (cn_pending c))" "0 \<notin> pq_id ` set (cn_pending c)"
    using assms(2) by (auto simp: cdp_inv_def list_all_iff)
  have request: "rid \<noteq> 0 \<and> rid \<notin> pq_id ` set (cn_pending c)
           \<and> re_id resp = rid \<and> re_session resp = session \<and> in_flight c' = in_flight c"
    if "send_request ser answers command_name params session c = Some (Inr rid, c1)"
      "client_request ser parse answers turns session command_name params c = Some (Inr resp, c')"
    for answers turns session command_name params rid c1 resp c'
    using client_request_correct [OF assms that] by simp
  have "length (cn_pending c) \<le> 64" "length (cn_events c) \<le> 64"
    using k(2) by (simp_all add: cdp_inv_def max_in_flight_def event_queue_limit_def)
  with dist request take_response_own(1,2) [OF k(2)] take_response_waits show ?thesis by blast
qed

text \<open>Two requests are sent; the browser answers the second one first.\<close>

definition sample_cdp_parse :: "u8 list \<Rightarrow> json option" where
  "sample_cdp_parse body = (if body = [8] then Some (JObject [(''id'', JUnsigned 2), (''result'', JNull)]) else None)"

definition answering_calls :: transport_calls where
  "answering_calls = \<lparr>tc_write = [], tc_expired = True, tc_poll = PollReady, tc_read = [ReadBytes [8, 0], ReadBlocked]\<rparr>"

definition sample_cdp_answer :: response where
  "sample_cdp_answer = \<lparr>re_id = 2, re_session = None, re_result = Some JNull, re_error = None\<rparr>"

definition sample_waiting :: connection where
  "sample_waiting = \<lparr>cn_transport = (transport_new 9)\<lparr>tr_wire := [7, 0, 7, 0], tr_source := [8, 0]\<rparr>, cn_next_id = 2,
     cn_pending = [\<lparr>pq_id = 1, pq_session = None, pq_response = None\<rparr>,
                   \<lparr>pq_id = 2, pq_session = None, pq_response = Some sample_cdp_answer\<rparr>],
     cn_events = [], cn_dropped = 0\<rparr>"

lemma sample_answered:
  "cdp_run (\<lambda>_. Some [7]) sample_cdp_parse [CdpSend [Wrote 2] ''m'' JNull None, CdpSend [Wrote 2] ''m'' JNull None,
     CdpPoll False answering_calls] (cdp_connection_new 9) = Some sample_waiting"
  by (simp add: send_request_def cdp_connection_new_def alloc_id_def Let_def max_in_flight_def transport_send_def
      transport_new_def pending_write_bytes_def max_write_backlog_bytes_def encode_message_def flush_writes.simps
      connection_poll_def transport_poll_def read_available_def answering_calls_def read_loop.simps
      read_budget_bytes_def take_messages_def decoder_new_def decoder_push_def push_loop.simps sample_cdp_parse_def
      route_message_def u32_max_def sample_waiting_def sample_cdp_answer_def)

lemma cdp_connection_invariant_witness:
  "re_id (the (fst (take_response 2 sample_waiting))) = 2
   \<and> fst (take_response 1 sample_waiting) = None \<and> snd (take_response 1 sample_waiting) = sample_waiting"
proof -
  have "\<exists>c'. take_response 2 sample_waiting = (Some sample_cdp_answer, c')" "\<exists>c'. take_response 1 sample_waiting = (None, c')"
    by (simp_all add: take_response_def sample_waiting_def)
  then obtain c2 c1 where takes: "take_response 2 sample_waiting = (Some sample_cdp_answer, c2)"
    "take_response 1 sample_waiting = (None, c1)" by blast
  show ?thesis
    using cdp_connection_invariant [OF sample_answered] takes by (simp add: u32_max_def)
qed

text \<open>The rest of a batch is lost with a message that is no valid envelope.\<close>

lemma route_error_drops_rest:
  "route_message parse b c = (Inl e, c') \<Longrightarrow> route_all parse (b # bs) c = (Inl e, c')"
  by simp

section \<open>The event queue\<close>

datatype queue_op = Enqueue cdp_event | Dequeue

fun queue_run :: "queue_op list \<Rightarrow> cdp_event list \<times> connection \<Rightarrow> cdp_event list \<times> connection" where
  "queue_run [] s = s"
| "queue_run (Enqueue e # ops) (popped, c) = queue_run ops (popped, enqueue_event e c)"
| "queue_run (Dequeue # ops) (popped, c) =
     (case next_event c of (None, c') \<Rightarrow> queue_run ops (popped, c') | (Some e, c') \<Rightarrow> queue_run ops (popped @ [e], c'))"

definition enqueued :: "queue_op list \<Rightarrow> cdp_event list" where
  "enqueued ops = concat (map (\<lambda>a. case a of Enqueue e \<Rightarrow> [e] | Dequeue \<Rightarrow> []) ops)"

lemma enqueued_simps [simp]:
  "enqueued [] = []" "enqueued (Enqueue e # ops) = e # enqueued ops" "enqueued (Dequeue # ops) = enqueued ops"
  by (simp_all add: enqueued_def)

text \<open>The queue is the end of what arrived, and what was taken comes from the part before it.\<close>

definition queue_ok :: "cdp_event list \<Rightarrow> cdp_event list \<Rightarrow> connection \<Rightarrow> bool" where
  "queue_ok es popped c \<longleftrightarrow>
     length (cn_events c) \<le> event_queue_limit
     \<and> (\<exists>past. es = past @ cn_events c \<and> subseq popped past
          \<and> cn_dropped c = word_of_nat (length past - length popped))"

lemma enqueue_queue_ok:
  assumes "queue_ok es popped c"
  shows "queue_ok (es @ [e]) popped (enqueue_event e c)"
proof -
  obtain past where p: "es = past @ cn_events c" "subseq popped past"
    "cn_dropped c = word_of_nat (length past - length popped)" "length (cn_events c) \<le> event_queue_limit"
    using assms by (auto simp: queue_ok_def)
  have len: "length popped \<le> length past" using p(2) by (rule list_emb_length)
  show ?thesis
  proof (cases "event_queue_limit \<le> length (cn_events c)")
    case True
    then obtain x xs where q: "cn_events c = x # xs" by (cases "cn_events c") (auto simp: event_queue_limit_def)
    with p len True show ?thesis
      by (auto simp: queue_ok_def enqueue_event_def Suc_diff_le intro!: exI [of _ "past @ [x]"] subseq_rev_drop_many)
  next
    case False
    with p show ?thesis by (auto simp: queue_ok_def enqueue_event_def)
  qed
qed

lemma dequeue_queue_ok:
  assumes "queue_ok es popped c" "next_event c = (r, c')"
  shows "queue_ok es (case r of None \<Rightarrow> popped | Some e \<Rightarrow> popped @ [e]) c'"
proof (cases "cn_events c")
  case Nil
  then show ?thesis using assms by (simp add: next_event_def)
next
  case (Cons x xs)
  then have r: "r = Some x" "c' = c\<lparr>cn_events := xs\<rparr>" using assms(2) by (simp_all add: next_event_def)
  obtain past where p: "es = past @ x # xs" "subseq popped past" "length (x # xs) \<le> event_queue_limit"
    "cn_dropped c = word_of_nat (length past - length popped)"
    using assms(1) Cons by (auto simp: queue_ok_def)
  then show ?thesis
    by (auto simp: queue_ok_def r intro!: exI [of _ "past @ [x]"])
qed

lemma queue_run_ok:
  "queue_ok es popped c \<Longrightarrow> queue_run ops (popped, c) = (popped', c') \<Longrightarrow> queue_ok (es @ enqueued ops) popped' c'"
proof (induction ops arbitrary: es popped c)
  case (Cons a ops)
  show ?case
  proof (cases a)
    case (Enqueue e)
    then show ?thesis using Cons.IH [OF enqueue_queue_ok [OF Cons.prems(1), of e]] Cons.prems(2) by simp
  next
    case Dequeue
    obtain r d where r: "next_event c = (r, d)" by (cases "next_event c") simp
    then show ?thesis
      using Cons.IH [OF dequeue_queue_ok [OF Cons.prems(1) r]] Cons.prems(2) Dequeue by (cases r) simp_all
  qed
qed simp

text \<open>
  the event queue forgets only the oldest events and counts them: after any interleaving of arrivals and
  takes, the queue is the newest part of what arrived, at most 64 events, what was taken is an in-order
  subsequence of the part before it, and the drop counter is the number of events in neither.
\<close>

theorem event_queue_exact:
  assumes "queue_run ops ([], cdp_connection_new m) = (popped, c)"
  shows "\<exists>past. enqueued ops = past @ cn_events c \<and> subseq popped past \<and> length (cn_events c) \<le> 64
    \<and> cn_dropped c = word_of_nat (length (enqueued ops) - length (cn_events c) - length popped)"
proof -
  have "queue_ok [] [] (cdp_connection_new m)" by (simp add: queue_ok_def cdp_connection_new_def)
  from queue_run_ok [OF this assms] show ?thesis by (auto simp: queue_ok_def event_queue_limit_def)
qed

definition sample_event :: cdp_event where
  "sample_event = \<lparr>ev_method = ''m'', ev_params = JNull, ev_session = None\<rparr>"

lemma event_queue_exact_witness:
  "\<exists>past. [sample_event, sample_event]
     = past @ cn_events (snd (queue_run [Enqueue sample_event, Dequeue, Enqueue sample_event] ([], cdp_connection_new 9)))"
  using event_queue_exact [of "[Enqueue sample_event, Dequeue, Enqueue sample_event]" 9, OF surjective_pairing] by auto

end
