(* ===== verification/Input_Protocol.thy ===== *)
theory Input_Protocol
  imports Rust_Strings
begin

text \<open>
  \<open>crates/kwe-input-protocol/src/lib.rs\<close>: the bounded input lines between the daemon and a renderer:
  pointer positions, acknowledgements, audio bands and media state. \<open>serde\_json\<close> is a parameter.
  A float is its value: not a number, an infinity, or \<open>mantissa * 2 ^ exponent\<close>; the product of a
  coordinate with 65535 is rounded to 53 bits, ties to even, before it is rounded to an integer.
\<close>

section \<open>Floats\<close>

datatype float = NaN | Infinite bool | Finite int int

fun bit_length :: "nat \<Rightarrow> nat" where
  "bit_length n = (if n = 0 then 0 else Suc (bit_length (n div 2)))"

declare bit_length.simps [simp del]

lemma bit_length_le: "n < 2 ^ k \<Longrightarrow> bit_length n \<le> k"
proof (induction k arbitrary: n)
  case 0
  then show ?case by (simp add: bit_length.simps)
next
  case (Suc k)
  then have "n div 2 < 2 ^ k" by auto
  with Suc.IH show ?case by (simp add: bit_length.simps [of n])
qed

text \<open>Comparisons with 0 and with a bound that is a natural number.\<close>

fun float_in_range :: "nat \<Rightarrow> float \<Rightarrow> bool" where
  "float_in_range bound (Finite m e) =
     (0 \<le> m \<and> (if 0 \<le> e then m * 2 ^ nat e \<le> int bound else m \<le> int bound * 2 ^ nat (- e)))"
| "float_in_range bound _ = False"

fun is_finite :: "float \<Rightarrow> bool" where
  "is_finite (Finite m e) = True"
| "is_finite _ = False"

text \<open>Dropping \<open>d\<close> low bits, to nearest, ties to even.\<close>

definition round_even :: "nat \<Rightarrow> nat \<Rightarrow> nat" where
  "round_even p d =
     (let q = p div 2 ^ d; r = p mod 2 ^ d in
      if d = 0 then p
      else if 2 * r < 2 ^ d \<or> (2 * r = 2 ^ d \<and> q mod 2 = 0) then q else q + 1)"

text \<open>The double nearest to \<open>p * 2 ^ e\<close>, as mantissa and exponent.\<close>

definition round_double :: "nat \<Rightarrow> int \<Rightarrow> nat \<times> int" where
  "round_double p e = (let d = bit_length p - 53 in (round_even p d, e + int d))"

text \<open>\<open>f64::round\<close> of \<open>q * 2 ^ e\<close>, half away from zero, and the saturating cast to \<open>u16\<close>.\<close>

definition round_to_nat :: "nat \<times> int \<Rightarrow> nat" where
  "round_to_nat x = (case x of (q, e) \<Rightarrow>
     if 0 \<le> e then q * 2 ^ nat e else (2 * q + 2 ^ nat (- e)) div 2 ^ (nat (- e) + 1))"

definition to_u16 :: "nat \<Rightarrow> u16" where "to_u16 n = word_of_nat (min n 65535)"

section \<open>Messages\<close>

definition input_version :: u32 where "input_version = 1"
definition max_message_bytes :: nat where "max_message_bytes = 4096"
definition coordinate_max :: nat where "coordinate_max = 65535"

datatype pointer_phase = Enter | Move | Leave | Down | Up
datatype pointer_button = Primary | Secondary | Middle

record pointer_message =
  pm_version :: u32
  pm_type :: string
  pm_sequence :: u64
  pm_phase :: pointer_phase
  pm_x :: u16
  pm_y :: u16
  pm_button :: "pointer_button option"

record input_ack =
  ia_version :: u32
  ia_type :: string
  ia_sequence :: u64

record audio_frame =
  af_version :: u32
  af_type :: string
  af_sequence :: u64
  af_left :: "float list"
  af_right :: "float list"

record media_state =
  md_version :: u32
  md_type :: string
  md_sequence :: u64
  md_playback :: string
  md_title :: "string option"
  md_artist :: "string option"
  md_album :: "string option"
  md_position_seconds :: "float option"
  md_duration_seconds :: "float option"

datatype input_error =
    MessageTooLarge | InvalidFraming | UnsupportedVersion u32 | UnexpectedMessageType | InvalidSequence
  | InvalidCoordinate | InvalidAudioBands | InvalidAudioValue | InvalidButtonPhase | InvalidMediaState
  | InvalidJson

definition quantize_coordinate :: "float \<Rightarrow> (input_error, u16) result" where
  "quantize_coordinate v =
     (if \<not> is_finite v \<or> \<not> float_in_range 1 v then Inl InvalidCoordinate
      else case v of
        Finite m e \<Rightarrow> Inr (to_u16 (round_to_nat (round_double (nat m * coordinate_max) e)))
      | _ \<Rightarrow> Inl InvalidCoordinate)"

definition from_normalized ::
  "u64 \<Rightarrow> pointer_phase \<Rightarrow> float \<Rightarrow> float \<Rightarrow> (input_error, pointer_message) result" where
  "from_normalized seq ph x y =
     (if seq = 0 then Inl InvalidSequence
      else rbind (quantize_coordinate x) (\<lambda>qx. rbind (quantize_coordinate y) (\<lambda>qy.
        Inr \<lparr>pm_version = input_version, pm_type = ''pointer_position'', pm_sequence = seq, pm_phase = ph,
             pm_x = qx, pm_y = qy, pm_button = None\<rparr>)))"

definition button_phase :: "pointer_phase \<Rightarrow> bool" where
  "button_phase ph \<longleftrightarrow> ph = Down \<or> ph = Up"

definition button_event ::
  "u64 \<Rightarrow> pointer_phase \<Rightarrow> pointer_button \<Rightarrow> float \<Rightarrow> float \<Rightarrow> (input_error, pointer_message) result" where
  "button_event seq ph b x y =
     (if \<not> button_phase ph then Inl InvalidButtonPhase
      else rbind (from_normalized seq ph x y) (\<lambda>m. Inr (m\<lparr>pm_button := Some b\<rparr>)))"

definition pointer_validate :: "pointer_message \<Rightarrow> (input_error, unit) result" where
  "pointer_validate m =
     rbind (fail_if (pm_version m \<noteq> input_version) (UnsupportedVersion (pm_version m))) (\<lambda>_.
     rbind (fail_if (pm_type m \<noteq> ''pointer_position'') UnexpectedMessageType) (\<lambda>_.
     rbind (fail_if (pm_sequence m = 0) InvalidSequence) (\<lambda>_.
     fail_if (button_phase (pm_phase m) \<noteq> (pm_button m \<noteq> None)) InvalidButtonPhase)))"

definition ack_new :: "u64 \<Rightarrow> (input_error, input_ack) result" where
  "ack_new seq =
     (if seq = 0 then Inl InvalidSequence
      else Inr \<lparr>ia_version = input_version, ia_type = ''input_ack'', ia_sequence = seq\<rparr>)"

definition ack_validate :: "input_ack \<Rightarrow> (input_error, unit) result" where
  "ack_validate a =
     rbind (fail_if (ia_version a \<noteq> input_version) (UnsupportedVersion (ia_version a))) (\<lambda>_.
     rbind (fail_if (ia_type a \<noteq> ''input_ack'') UnexpectedMessageType) (\<lambda>_.
     fail_if (ia_sequence a = 0) InvalidSequence))"

definition audio_new :: "u64 \<Rightarrow> float list \<Rightarrow> float list \<Rightarrow> (input_error, audio_frame) result" where
  "audio_new seq l r =
     (if seq = 0 \<or> length l \<noteq> length r \<or> \<not> (length l = 16 \<or> length l = 32 \<or> length l = 64)
      then Inl InvalidAudioBands
      else if list_ex (\<lambda>v. \<not> is_finite v \<or> \<not> float_in_range 1 v) (l @ r) then Inl InvalidAudioValue
      else Inr \<lparr>af_version = input_version, af_type = ''audio_bands'', af_sequence = seq,
                af_left = l, af_right = r\<rparr>)"

definition truncate_text :: "string option \<Rightarrow> string option" where
  "truncate_text t = map_option (str_take_chars 512) t"

definition media_new ::
  "u64 \<Rightarrow> string \<Rightarrow> string option \<Rightarrow> string option \<Rightarrow> string option \<Rightarrow> float option \<Rightarrow> float option
     \<Rightarrow> (input_error, media_state) result" where
  "media_new seq playback title artist album position duration =
     (if seq = 0 \<or> playback \<notin> {''playing'', ''paused'', ''stopped''} then Inl InvalidMediaState
      else if list_ex (\<lambda>v. case v of Some x \<Rightarrow> \<not> is_finite x \<or> \<not> float_in_range 86400 x | None \<Rightarrow> False)
                [position, duration] then Inl InvalidMediaState
      else Inr \<lparr>md_version = input_version, md_type = ''media_state'', md_sequence = seq,
                md_playback = playback, md_title = truncate_text title, md_artist = truncate_text artist,
                md_album = truncate_text album, md_position_seconds = position,
                md_duration_seconds = duration\<rparr>)"

section \<open>Lines\<close>

definition newline :: u8 where "newline = 10"
definition carriage_return :: u8 where "carriage_return = 13"

definition encode_line :: "u8 list option \<Rightarrow> (input_error, u8 list) result" where
  "encode_line json =
     rbind (ok_or json InvalidJson) (\<lambda>bytes.
       if max_message_bytes < length (bytes @ [newline]) then Inl MessageTooLarge
       else Inr (bytes @ [newline]))"

definition validate_framing :: "u8 list \<Rightarrow> (input_error, u8 list) result" where
  "validate_framing bytes =
     (if bytes = [] \<or> max_message_bytes < length bytes
      then Inl (if max_message_bytes < length bytes then MessageTooLarge else InvalidFraming)
      else (let payload = (if last bytes = newline then butlast bytes else bytes) in
        if payload = [] \<or> newline \<in> set payload \<or> carriage_return \<in> set payload then Inl InvalidFraming
        else Inr payload))"

definition encode_pointer_line ::
  "(pointer_message \<Rightarrow> u8 list option) \<Rightarrow> pointer_message \<Rightarrow> (input_error, u8 list) result" where
  "encode_pointer_line ser m = rbind (pointer_validate m) (\<lambda>_. encode_line (ser m))"

definition decode_pointer_line ::
  "(u8 list \<Rightarrow> pointer_message option) \<Rightarrow> u8 list \<Rightarrow> (input_error, pointer_message) result" where
  "decode_pointer_line parse bytes =
     rbind (validate_framing bytes) (\<lambda>payload.
     rbind (ok_or (parse payload) InvalidJson) (\<lambda>m.
     rbind (pointer_validate m) (\<lambda>_. Inr m)))"

definition encode_ack_line :: "(input_ack \<Rightarrow> u8 list option) \<Rightarrow> input_ack \<Rightarrow> (input_error, u8 list) result" where
  "encode_ack_line ser a = rbind (ack_validate a) (\<lambda>_. encode_line (ser a))"

definition decode_ack_line :: "(u8 list \<Rightarrow> input_ack option) \<Rightarrow> u8 list \<Rightarrow> (input_error, input_ack) result" where
  "decode_ack_line parse bytes =
     rbind (validate_framing bytes) (\<lambda>payload.
     rbind (ok_or (parse payload) InvalidJson) (\<lambda>a.
     rbind (ack_validate a) (\<lambda>_. Inr a)))"

definition encode_audio_frame ::
  "(audio_frame \<Rightarrow> u8 list option) \<Rightarrow> audio_frame \<Rightarrow> (input_error, u8 list) result" where
  "encode_audio_frame ser f =
     (if af_version f \<noteq> input_version \<or> af_type f \<noteq> ''audio_bands'' then Inl UnexpectedMessageType
      else rbind (audio_new (af_sequence f) (af_left f) (af_right f)) (\<lambda>_. encode_line (ser f)))"

definition decode_audio_frame ::
  "(u8 list \<Rightarrow> audio_frame option) \<Rightarrow> u8 list \<Rightarrow> (input_error, audio_frame) result" where
  "decode_audio_frame parse bytes =
     rbind (validate_framing bytes) (\<lambda>payload.
     rbind (ok_or (parse payload) InvalidJson) (\<lambda>f.
       if af_version f \<noteq> input_version \<or> af_type f \<noteq> ''audio_bands'' then Inl UnexpectedMessageType
       else audio_new (af_sequence f) (af_left f) (af_right f)))"

definition encode_media_state ::
  "(media_state \<Rightarrow> u8 list option) \<Rightarrow> media_state \<Rightarrow> (input_error, u8 list) result" where
  "encode_media_state ser s =
     rbind (media_new (md_sequence s) (md_playback s) (md_title s) (md_artist s) (md_album s)
              (md_position_seconds s) (md_duration_seconds s)) (\<lambda>_. encode_line (ser s))"

definition decode_media_state ::
  "(u8 list \<Rightarrow> media_state option) \<Rightarrow> u8 list \<Rightarrow> (input_error, media_state) result" where
  "decode_media_state parse bytes =
     rbind (validate_framing bytes) (\<lambda>payload.
     rbind (ok_or (parse payload) InvalidJson) (\<lambda>s.
       if md_version s \<noteq> input_version \<or> md_type s \<noteq> ''media_state'' then Inl UnexpectedMessageType
       else media_new (md_sequence s) (md_playback s) (md_title s) (md_artist s) (md_album s)
              (md_position_seconds s) (md_duration_seconds s)))"

section \<open>Properties\<close>

text \<open>
  The contract of the JSON text of one message: compact JSON escapes control characters, so it holds
  neither a line feed nor a carriage return, and it is never empty.
\<close>

definition json_line :: "u8 list \<Rightarrow> bool" where
  "json_line bytes \<longleftrightarrow> bytes \<noteq> [] \<and> newline \<notin> set bytes \<and> carriage_return \<notin> set bytes"

lemma framing_encoded:
  "json_line bytes \<Longrightarrow> encode_line (Some bytes) = Inr line \<Longrightarrow> validate_framing line = Inr bytes"
  by (auto simp: encode_line_def validate_framing_def json_line_def split: if_splits)

lemma encode_line_Inr: "encode_line json = Inr line \<Longrightarrow> \<exists>bytes. json = Some bytes"
  by (auto simp: encode_line_def result_simps)

lemma audio_new_keeps:
  "audio_new s l r = Inr f \<Longrightarrow> f = \<lparr>af_version = input_version, af_type = ''audio_bands'', af_sequence = s,
     af_left = l, af_right = r\<rparr>"
  by (auto simp: audio_new_def split: if_splits)

text \<open>
  C33: an encoded pointer line, acknowledgement or audio frame decodes to the message it was made from,
  for any serialiser and parser that are inverse on that message and write one non-empty line.
\<close>

theorem input_lines_round_trip:
  assumes "\<forall>b. ser_p m = Some b \<longrightarrow> parse_p b = Some m \<and> json_line b"
    and "\<forall>b. ser_a a = Some b \<longrightarrow> parse_a b = Some a \<and> json_line b"
    and "\<forall>b. ser_f f = Some b \<longrightarrow> parse_f b = Some f \<and> json_line b"
  shows "(\<forall>line. encode_pointer_line ser_p m = Inr line \<longrightarrow> decode_pointer_line parse_p line = Inr m)
    \<and> (\<forall>line. encode_ack_line ser_a a = Inr line \<longrightarrow> decode_ack_line parse_a line = Inr a)
    \<and> (\<forall>line. encode_audio_frame ser_f f = Inr line \<longrightarrow> decode_audio_frame parse_f line = Inr f)"
proof (intro conjI allI impI)
  fix line
  assume e: "encode_pointer_line ser_p m = Inr line"
  then obtain b where "ser_p m = Some b" "encode_line (Some b) = Inr line" "pointer_validate m = Inr ()"
    using encode_line_Inr by (fastforce simp: encode_pointer_line_def result_simps)
  with assms(1) framing_encoded show "decode_pointer_line parse_p line = Inr m"
    by (fastforce simp: decode_pointer_line_def)
next
  fix line
  assume e: "encode_ack_line ser_a a = Inr line"
  then obtain b where "ser_a a = Some b" "encode_line (Some b) = Inr line" "ack_validate a = Inr ()"
    using encode_line_Inr by (fastforce simp: encode_ack_line_def result_simps)
  with assms(2) framing_encoded show "decode_ack_line parse_a line = Inr a"
    by (fastforce simp: decode_ack_line_def)
next
  fix line
  assume e: "encode_audio_frame ser_f f = Inr line"
  then obtain b f' where b: "ser_f f = Some b" "encode_line (Some b) = Inr line"
    "audio_new (af_sequence f) (af_left f) (af_right f) = Inr f'"
    "af_version f = input_version" "af_type f = ''audio_bands''"
    using encode_line_Inr by (fastforce simp: encode_audio_frame_def result_simps split: if_splits)
  then have "f' = f" using audio_new_keeps by fastforce
  with b assms(3) framing_encoded show "decode_audio_frame parse_f line = Inr f"
    by (fastforce simp: decode_audio_frame_def)
qed

definition sample_pointer :: pointer_message where
  "sample_pointer = \<lparr>pm_version = 1, pm_type = ''pointer_position'', pm_sequence = 7, pm_phase = Down,
     pm_x = 1, pm_y = 2, pm_button = Some Primary\<rparr>"

definition sample_ack :: input_ack where
  "sample_ack = \<lparr>ia_version = 1, ia_type = ''input_ack'', ia_sequence = 7\<rparr>"

definition sample_audio :: audio_frame where
  "sample_audio = \<lparr>af_version = 1, af_type = ''audio_bands'', af_sequence = 7,
     af_left = replicate 16 (Finite 1 (- 1)), af_right = replicate 16 (Finite 0 0)\<rparr>"

lemma input_lines_round_trip_witness:
  "decode_pointer_line (\<lambda>_. Some sample_pointer) [123, newline] = Inr sample_pointer"
proof -
  have "encode_pointer_line (\<lambda>_. Some [123]) sample_pointer = Inr [123, newline]"
    by (simp add: encode_pointer_line_def pointer_validate_def sample_pointer_def input_version_def
        button_phase_def encode_line_def max_message_bytes_def)
  then show ?thesis
    using input_lines_round_trip [of "\<lambda>_. Some [123]" sample_pointer "\<lambda>_. Some sample_pointer"
        "\<lambda>_. Some [123]" sample_ack "\<lambda>_. Some sample_ack" "\<lambda>_. Some [123]" sample_audio "\<lambda>_. Some sample_audio"]
    by (simp add: json_line_def newline_def carriage_return_def)
qed

text \<open>The ends of the coordinate range are exact, and everything outside it is refused.\<close>

lemma round_double_exact: "p < 2 ^ 53 \<Longrightarrow> round_double p e = (p, e)"
  using bit_length_le [of p 53] by (simp add: round_double_def round_even_def)

lemma quantize_ends:
  "quantize_coordinate (Finite 0 0) = Inr 0"
  "quantize_coordinate (Finite 1 0) = Inr 65535"
  "quantize_coordinate (Finite 1 (- 1)) = Inr 32768"
  by (simp_all add: quantize_coordinate_def coordinate_max_def round_double_exact round_to_nat_def to_u16_def)

lemma quantize_refuses:
  "quantize_coordinate v = Inl InvalidCoordinate \<longleftrightarrow> \<not> (is_finite v \<and> float_in_range 1 v)"
  by (cases v) (auto simp: quantize_coordinate_def)

text \<open>Whatever the decoders accept is a well-formed message.\<close>

lemma decode_pointer_valid:
  "decode_pointer_line parse bytes = Inr m \<Longrightarrow> pointer_validate m = Inr () \<and> pm_sequence m \<noteq> 0
     \<and> length bytes \<le> max_message_bytes"
  by (auto simp: decode_pointer_line_def validate_framing_def pointer_validate_def result_simps Let_def
      not_less split: if_splits)

end
