(* ===== verification/Persist.thy ===== *)
theory Persist
  imports Rust_Strings "HOL-Library.List_Lexorder" "HOL-Library.Char_ord"
begin

text \<open>
  \<open>crates/kwe-daemon/src/persist.rs\<close>: the atomic write of a state file and the quarantine of an invalid
  one, over a directory (a finite map from names to contents) and the outcome of each system call; and
  the identity check of \<open>supervisor.rs\<close> that all stores share.
\<close>

type_synonym state_dir = "(string, u8 list) mapping"

section \<open>Identities\<close>

definition validate_identity_part :: "string \<Rightarrow> bool" where
  "validate_identity_part v \<longleftrightarrow> v \<noteq> [] \<and> length v \<le> 128
     \<and> list_all (\<lambda>c. is_ascii_alphanumeric c \<or> c = CHR ''.'' \<or> c = CHR ''_'' \<or> c = CHR ''-'') v"

definition truncate_detail :: "string \<Rightarrow> string" where
  "truncate_detail d = str_take_chars 256 d"

section \<open>Private directories\<close>

record dir_facts =
  df_created :: bool
  df_metadata :: bool
  df_symlink :: bool
  df_directory :: bool
  df_owned :: bool
  df_chmod :: bool

datatype persist_error = NotCreated | NoMetadata | NotARealDirectory | NotOwned | NotPrivate
  | WriteFailed | RenameFailed | SyncFailed

definition ensure_private_dir :: "dir_facts \<Rightarrow> (persist_error, unit) result" where
  "ensure_private_dir d =
     rbind (fail_if (\<not> df_created d) NotCreated) (\<lambda>_.
     rbind (fail_if (\<not> df_metadata d) NoMetadata) (\<lambda>_.
     rbind (fail_if (df_symlink d \<or> \<not> df_directory d) NotARealDirectory) (\<lambda>_.
     rbind (fail_if (\<not> df_owned d) NotOwned) (\<lambda>_.
     fail_if (\<not> df_chmod d) NotPrivate))))"

section \<open>Atomic writes\<close>

text \<open>The calls of one write: \<open>aw\_written = Some k\<close> means the write stopped after \<open>k\<close> bytes.\<close>

record write_io =
  aw_dir :: dir_facts
  aw_pid :: nat
  aw_nanos :: nat
  aw_open :: bool
  aw_written :: "nat option"
  aw_sync :: bool
  aw_rename :: bool
  aw_parent_sync :: bool

definition write_temporary :: "string \<Rightarrow> nat \<Rightarrow> nat \<Rightarrow> string" where
  "write_temporary name pid nanos =
     ''.'' @ name @ ''.tmp-'' @ show_nat pid @ ''-'' @ show_nat nanos"

definition atomic_write ::
  "string \<Rightarrow> u8 list \<Rightarrow> write_io \<Rightarrow> state_dir \<Rightarrow> (persist_error, unit) result \<times> state_dir" where
  "atomic_write name contents io d =
     (let tmp = write_temporary name (aw_pid io) (aw_nanos io) in
      case ensure_private_dir (aw_dir io) of Inl e \<Rightarrow> (Inl e, d) | Inr _ \<Rightarrow>
      if \<not> aw_open io \<or> Mapping.lookup d tmp \<noteq> None then (Inl WriteFailed, d)
      else case aw_written io of
        Some k \<Rightarrow> (Inl WriteFailed, Mapping.update tmp (take k contents) d)
      | None \<Rightarrow>
          (let d1 = Mapping.update tmp contents d in
           if \<not> aw_sync io then (Inl SyncFailed, d1)
           else if \<not> aw_rename io then (Inl RenameFailed, d1)
           else (let d2 = Mapping.update name contents (Mapping.delete tmp d1) in
             if \<not> aw_parent_sync io then (Inl SyncFailed, d2) else (Inr (), d2))))"

lemma write_temporary_neq: "write_temporary name pid nanos \<noteq> name"
proof
  assume "write_temporary name pid nanos = name"
  then have "length (write_temporary name pid nanos) = length name" by simp
  then show False by (simp add: write_temporary_def)
qed

text \<open>
  The interface of a state file: a write either succeeds and the file holds the new contents, or fails
  and the file holds what it held or the new contents, never a part of them.
\<close>

locale state_file =
  fixes wr :: "u8 list \<Rightarrow> 'io \<Rightarrow> 'd \<Rightarrow> ('e, unit) result \<times> 'd"
    and contents :: "'d \<Rightarrow> u8 list option"
  assumes write_ok: "wr bs io d = (Inr u, d') \<Longrightarrow> contents d' = Some bs"
    and write_failed: "wr bs io d = (Inl e, d') \<Longrightarrow> contents d' = contents d \<or> contents d' = Some bs"
begin

lemma write_never_partial: "wr bs io d = (r, d') \<Longrightarrow> contents d' = contents d \<or> contents d' = Some bs"
  by (cases r) (auto dest: write_ok write_failed)

end

lemma lookup_simps [simp]:
  "Mapping.lookup (Mapping.update k v m) x = (if x = k then Some v else Mapping.lookup m x)"
  "Mapping.lookup (Mapping.delete k m) x = (if x = k then None else Mapping.lookup m x)"
  by (transfer, simp)+

interpretation daemon_file: state_file "atomic_write name" "\<lambda>d. Mapping.lookup d name" for name
proof
  fix bs io d u e d'
  show "atomic_write name bs io d = (Inr u, d') \<Longrightarrow> Mapping.lookup d' name = Some bs"
    by (auto simp: atomic_write_def Let_def split: if_splits option.splits sum.splits)
  show "atomic_write name bs io d = (Inl e, d') \<Longrightarrow>
      Mapping.lookup d' name = Mapping.lookup d name \<or> Mapping.lookup d' name = Some bs"
    using write_temporary_neq [of name "aw_pid io" "aw_nanos io"]
    by (auto simp: atomic_write_def Let_def split: if_splits option.splits sum.splits)
qed

section \<open>Quarantine\<close>

definition max_invalid_siblings :: nat where "max_invalid_siblings = 8"

definition invalid_prefix :: "string \<Rightarrow> string" where "invalid_prefix name = name @ ''.invalid-''"

definition quarantine_name :: "string \<Rightarrow> nat \<Rightarrow> nat \<Rightarrow> string" where
  "quarantine_name name secs nanos = invalid_prefix name @ show_nat secs @ ''-'' @ show_nat nanos"

fun prune_siblings :: "(string \<Rightarrow> bool) \<Rightarrow> string list \<Rightarrow> state_dir \<Rightarrow> state_dir" where
  "prune_siblings removable [] d = d"
| "prune_siblings removable (oldest # rest) d =
     (if max_invalid_siblings < length (oldest # rest)
      then prune_siblings removable rest (if removable oldest then Mapping.delete oldest d else d)
      else d)"

definition sibling_names :: "string \<Rightarrow> state_dir \<Rightarrow> string set" where
  "sibling_names name d = {n \<in> Mapping.keys d. starts_with n (invalid_prefix name)}"

text \<open>\<open>listed\<close>: the directory could be read.\<close>

definition quarantine_invalid_state ::
  "string \<Rightarrow> nat \<Rightarrow> nat \<Rightarrow> bool \<Rightarrow> bool \<Rightarrow> (string \<Rightarrow> bool) \<Rightarrow> state_dir \<Rightarrow> state_dir" where
  "quarantine_invalid_state name secs nanos renamed listed removable d =
     (case Mapping.lookup d name of
        None \<Rightarrow> d
      | Some c \<Rightarrow>
          if \<not> renamed then d
          else (let d1 = Mapping.update (quarantine_name name secs nanos) c (Mapping.delete name d) in
            if \<not> listed then d1
            else prune_siblings removable (sorted_list_of_set (sibling_names name d1)) d1))"

lemma prune_keys:
  "Mapping.keys (prune_siblings (\<lambda>_. True) ns d) =
     Mapping.keys d - set (take (length ns - max_invalid_siblings) ns)"
  by (induction ns arbitrary: d)
    (auto simp: Suc_diff_le not_less less_Suc_eq_le)

lemma prune_lookup:
  "Mapping.lookup (prune_siblings removable ns d) n =
     (if n \<in> set (filter removable (take (length ns - max_invalid_siblings) ns)) then None
      else Mapping.lookup d n)"
  by (induction ns arbitrary: d) (auto simp: Suc_diff_le not_less less_Suc_eq_le)

lemma keys_lookup: "n \<in> Mapping.keys d \<longleftrightarrow> Mapping.lookup d n \<noteq> None"
  by (transfer) (auto simp: dom_def)

lemma quarantine_not_name: "quarantine_name name secs nanos \<noteq> name"
proof
  assume "quarantine_name name secs nanos = name"
  then have "length (quarantine_name name secs nanos) = length name" by simp
  then show False by (simp add: quarantine_name_def invalid_prefix_def)
qed

lemma name_not_prefixed: "\<not> starts_with name (invalid_prefix name)"
proof
  assume "starts_with name (invalid_prefix name)"
  then obtain r where "name = invalid_prefix name @ r" by (auto simp: starts_with_iff)
  then have "length name = length (invalid_prefix name @ r)" by simp
  then show False by (simp add: invalid_prefix_def)
qed

text \<open>
  quarantining an invalid state file consumes it, keeps its contents under a new name, never touches
  a file that is not a quarantined sibling, and, when every deletion succeeds, leaves at most 8 siblings,
  each greater by name than every earlier sibling that it removed.
\<close>

theorem quarantine_bounded:
  assumes "finite (Mapping.keys d)" "Mapping.lookup d name = Some c"
    and "d' = quarantine_invalid_state name secs nanos True True (\<lambda>_. True) d"
  shows "Mapping.lookup d' name = None \<and> card (sibling_names name d') \<le> max_invalid_siblings
    \<and> (\<forall>n. n \<noteq> name \<longrightarrow> \<not> starts_with n (invalid_prefix name) \<longrightarrow> Mapping.lookup d' n = Mapping.lookup d n)
    \<and> (\<forall>kept \<in> sibling_names name d'. \<forall>gone \<in> sibling_names name d - sibling_names name d'.
         gone < kept)"
proof -
  let ?q = "quarantine_name name secs nanos"
  define d1 where "d1 = Mapping.update ?q c (Mapping.delete name d)"
  define ns where "ns = sorted_list_of_set (sibling_names name d1)"
  define cut where "cut = length ns - max_invalid_siblings"
  have d': "d' = prune_siblings (\<lambda>_. True) ns d1"
    using assms(2,3) by (simp add: quarantine_invalid_state_def d1_def ns_def Let_def)
  have keys1: "Mapping.keys d1 = insert ?q (Mapping.keys d - {name})" by (simp add: d1_def)
  have fin: "finite (sibling_names name d1)" using assms(1) keys1 by (simp add: sibling_names_def)
  have ns: "set ns = sibling_names name d1" "distinct ns" "sorted ns" using fin by (simp_all add: ns_def)
  have gone: "set (take cut ns) \<subseteq> sibling_names name d1" using ns(1) set_take_subset by fast
  have look: "Mapping.lookup d' n = (if n \<in> set (take cut ns) then None else Mapping.lookup d1 n)" for n
    by (simp add: d' prune_lookup cut_def)
  have "Mapping.keys d' = Mapping.keys d1 - set (take cut ns)" unfolding d' cut_def by (rule prune_keys)
  then have sib: "sibling_names name d' = set ns - set (take cut ns)"
    using ns(1) by (auto simp: sibling_names_def)
  have split: "set ns = set (take cut ns) \<union> set (drop cut ns)" by (metis append_take_drop_id set_append)
  moreover have "set (take cut ns) \<inter> set (drop cut ns) = {}"
    using ns(2) by (simp add: set_take_disj_set_drop_if_distinct)
  ultimately have sib': "sibling_names name d' = set (drop cut ns)" using sib by blast
  have "card (sibling_names name d') \<le> length (drop cut ns)" unfolding sib' by (rule card_length)
  then have card: "card (sibling_names name d') \<le> max_invalid_siblings"
    by (simp add: cut_def)
  have "Mapping.lookup d' name = None"
    using look [of name] quarantine_not_name [of name secs nanos] by (simp add: d1_def)
  moreover have "Mapping.lookup d' n = Mapping.lookup d n"
    if n: "n \<noteq> name" "\<not> starts_with n (invalid_prefix name)" for n
  proof -
    have "n \<notin> set (take cut ns)" using gone n(2) by (auto simp: sibling_names_def)
    moreover have "n \<noteq> ?q" using n(2) by (auto simp: quarantine_name_def starts_with_iff)
    ultimately show ?thesis using look [of n] n(1) by (simp add: d1_def)
  qed
  moreover have "g < k"
    if "k \<in> sibling_names name d'" "g \<in> sibling_names name d - sibling_names name d'" for g k
  proof -
    have "g \<in> Mapping.keys d" "starts_with g (invalid_prefix name)" using that(2) by (auto simp: sibling_names_def)
    moreover have "g \<noteq> name" using calculation(2) name_not_prefixed by auto
    ultimately have "g \<in> set ns" using keys1 by (simp add: ns(1) sibling_names_def)
    then have "g \<in> set (take cut ns)" using that(2) sib by blast
    moreover have "k \<in> set (drop cut ns)" using that(1) sib' by simp
    ultimately have "g \<le> k" using ns(3) by (metis append_take_drop_id sorted_append)
    moreover have "g \<noteq> k" using that by blast
    ultimately show ?thesis by simp
  qed
  ultimately show ?thesis using card by blast
qed

lemma quarantine_bounded_witness:
  "Mapping.lookup (quarantine_invalid_state ''s'' 1 2 True True (\<lambda>_. True)
     (Mapping.update ''s'' [1] Mapping.empty)) ''s'' = None"
proof -
  have "finite (Mapping.keys (Mapping.update ''s'' [1 :: u8] Mapping.empty))" by simp
  from quarantine_bounded [OF this, of "''s''" "[1]" _ 1 2] show ?thesis by simp
qed

end
