(* ===== verification/Supervisor_Config.thy ===== *)
theory Supervisor_Config
  imports Frame_Protocol Persist
begin

text \<open>
  \<open>crates/kwe-daemon/src/supervisor.rs\<close>, the data the supervisor is started with: renderer kinds, the
  configuration and its validation, and the start specification of a wallpaper with its validation and
  its two identities. Durations are natural numbers of nanoseconds, a path is a string, a \<open>BTreeMap\<close>
  over renderer kinds is a map that is visited in the order of the kinds. What the file system says
  of a path and what a preflight says of a content are parameters.
\<close>

section \<open>Renderer kinds\<close>

datatype renderer_kind = KindTest | KindVideo | KindWeb | KindScene

fun kind_index :: "renderer_kind \<Rightarrow> nat" where
  "kind_index KindTest = 0"
| "kind_index KindVideo = 1"
| "kind_index KindWeb = 2"
| "kind_index KindScene = 3"

lemma kind_index_inj: "kind_index a = kind_index b \<Longrightarrow> a = b"
  by (cases a; cases b) auto

instantiation renderer_kind :: linorder
begin

definition less_eq_renderer_kind :: "renderer_kind \<Rightarrow> renderer_kind \<Rightarrow> bool" where
  "a \<le> b \<longleftrightarrow> kind_index a \<le> kind_index b"

definition less_renderer_kind :: "renderer_kind \<Rightarrow> renderer_kind \<Rightarrow> bool" where
  "a < b \<longleftrightarrow> kind_index a < kind_index b"

instance
  by standard (auto simp: less_eq_renderer_kind_def less_renderer_kind_def dest: kind_index_inj)

end

fun kind_str :: "renderer_kind \<Rightarrow> string" where
  "kind_str KindTest = ''test''"
| "kind_str KindVideo = ''video''"
| "kind_str KindWeb = ''web''"
| "kind_str KindScene = ''scene''"

definition all_kinds :: "renderer_kind list" where
  "all_kinds = [KindTest, KindVideo, KindWeb, KindScene]"

lemma all_kinds_sorted: "sorted all_kinds" "k \<in> set all_kinds"
  by (simp_all add: all_kinds_def less_eq_renderer_kind_def) (cases k; simp)

section \<open>Configuration\<close>

record renderer_limits =
  rl_address_space_mib :: u64
  rl_file_size_mib :: u64
  rl_open_files :: u64
  rl_processes :: u64
  rl_core_dump_bytes :: u64

record supervisor_config =
  cfg_renderer_paths :: "renderer_kind \<rightharpoonup> string"
  cfg_runtime_dir :: string
  cfg_state_dir :: string
  cfg_startup_timeout_ms :: "renderer_kind \<rightharpoonup> u64"
  cfg_frame_timeout :: nat
  cfg_stop_grace :: nat
  cfg_restart_delay :: nat
  cfg_canary_duration :: nat
  cfg_handoff_timeout :: nat
  cfg_max_failures :: u32
  cfg_web_heartbeat_ms :: u64
  cfg_web_heartbeat_max_failures :: u32
  cfg_resource_limits :: "renderer_kind \<rightharpoonup> renderer_limits"
  cfg_scene_assets_dir :: "string option"
  cfg_shader_helper_path :: "string option"

datatype config_error =
    NotARegularFile renderer_kind | CannotResolve renderer_kind | DeadlinesUnbounded | HeartbeatUnbounded
  | StartupTimeoutRange renderer_kind | MissingStartupTimeout renderer_kind
  | MissingLimits renderer_kind | LimitsRange renderer_kind | PrivateDir persist_error
  | NoRenderer renderer_kind

definition limits_validate :: "renderer_limits \<Rightarrow> bool" where
  "limits_validate l \<longleftrightarrow>
     \<not> (\<not> (256 \<le> rl_address_space_mib l \<and> rl_address_space_mib l \<le> 262144)
      \<or> \<not> (129 \<le> rl_file_size_mib l \<and> rl_file_size_mib l \<le> 1024)
      \<or> \<not> (32 \<le> rl_open_files l \<and> rl_open_files l \<le> 4096)
      \<or> \<not> (64 \<le> rl_processes l \<and> rl_processes l \<le> 32768)
      \<or> rl_core_dump_bytes l \<noteq> 0)"

text \<open>What \<open>fs::canonicalize\<close> gives for a path: the real path and whether it is a regular file.\<close>

datatype resolution = Resolved string bool | ResolveNotFound | ResolveError

fun resolve_paths ::
  "(string \<Rightarrow> resolution) \<Rightarrow> (renderer_kind \<rightharpoonup> string) \<Rightarrow> renderer_kind list
     \<Rightarrow> (config_error, renderer_kind \<rightharpoonup> string) result" where
  "resolve_paths canon paths [] = Inr Map.empty"
| "resolve_paths canon paths (k # ks) =
     (case paths k of
        None \<Rightarrow> resolve_paths canon paths ks
      | Some p \<Rightarrow>
          (case canon p of
             Resolved real regular \<Rightarrow>
               if \<not> regular then Inl (NotARegularFile k)
               else rbind (resolve_paths canon paths ks) (\<lambda>m. Inr (m(k \<mapsto> real)))
           | ResolveNotFound \<Rightarrow> rbind (resolve_paths canon paths ks) (\<lambda>m. Inr (m(k \<mapsto> p)))
           | ResolveError \<Rightarrow> Inl (CannotResolve k)))"

fun check_timeouts :: "(renderer_kind \<rightharpoonup> u64) \<Rightarrow> renderer_kind list \<Rightarrow> (config_error, unit) result" where
  "check_timeouts m [] = Inr ()"
| "check_timeouts m (k # ks) =
     rbind (fail_if (case m k of Some t \<Rightarrow> \<not> (100 \<le> t \<and> t \<le> 30000) | None \<Rightarrow> False) (StartupTimeoutRange k))
       (\<lambda>_. check_timeouts m ks)"

fun check_present ::
  "(renderer_kind \<rightharpoonup> u64) \<Rightarrow> (renderer_kind \<rightharpoonup> renderer_limits) \<Rightarrow> renderer_kind list
     \<Rightarrow> (config_error, unit) result" where
  "check_present m l [] = Inr ()"
| "check_present m l (k # ks) =
     rbind (fail_if (m k = None) (MissingStartupTimeout k)) (\<lambda>_.
     rbind (fail_if (l k = None) (MissingLimits k)) (\<lambda>_. check_present m l ks))"

fun check_limits ::
  "(renderer_kind \<rightharpoonup> renderer_limits) \<Rightarrow> renderer_kind list \<Rightarrow> (config_error, unit) result" where
  "check_limits m [] = Inr ()"
| "check_limits m (k # ks) =
     rbind (fail_if (case m k of Some l \<Rightarrow> \<not> limits_validate l | None \<Rightarrow> False) (LimitsRange k))
       (\<lambda>_. check_limits m ks)"

definition config_validate ::
  "(string \<Rightarrow> resolution) \<Rightarrow> dir_facts \<Rightarrow> dir_facts \<Rightarrow> supervisor_config
     \<Rightarrow> (config_error, supervisor_config) result" where
  "config_validate canon runtime state c =
     rbind (resolve_paths canon (cfg_renderer_paths c) all_kinds) (\<lambda>paths.
     rbind (fail_if (cfg_frame_timeout c = 0 \<or> cfg_stop_grace c = 0 \<or> cfg_canary_duration c = 0
              \<or> cfg_handoff_timeout c = 0 \<or> cfg_max_failures c = 0 \<or> 10 < cfg_max_failures c)
            DeadlinesUnbounded) (\<lambda>_.
     rbind (fail_if (\<not> (250 \<le> cfg_web_heartbeat_ms c \<and> cfg_web_heartbeat_ms c \<le> 60000)
              \<or> \<not> (1 \<le> cfg_web_heartbeat_max_failures c \<and> cfg_web_heartbeat_max_failures c \<le> 10))
            HeartbeatUnbounded) (\<lambda>_.
     rbind (check_timeouts (cfg_startup_timeout_ms c) all_kinds) (\<lambda>_.
     rbind (check_present (cfg_startup_timeout_ms c) (cfg_resource_limits c) all_kinds) (\<lambda>_.
     rbind (check_limits (cfg_resource_limits c) all_kinds) (\<lambda>_.
     rbind (map_err PrivateDir (ensure_private_dir runtime)) (\<lambda>_.
     rbind (map_err PrivateDir (ensure_private_dir state)) (\<lambda>_.
       Inr (c\<lparr>cfg_renderer_paths := paths\<rparr>)))))))))"

definition renderer_path_for :: "supervisor_config \<Rightarrow> renderer_kind \<Rightarrow> (config_error, string) result" where
  "renderer_path_for c k = ok_or (cfg_renderer_paths c k) (NoRenderer k)"

text \<open>The two indexing operators panic (\<open>None\<close>) on a missing kind.\<close>

definition startup_timeout_for :: "supervisor_config \<Rightarrow> renderer_kind \<Rightarrow> nat option" where
  "startup_timeout_for c k = map_option (\<lambda>ms. unat ms * 1000000) (cfg_startup_timeout_ms c k)"

definition resource_limits_for :: "supervisor_config \<Rightarrow> renderer_kind \<Rightarrow> renderer_limits option" where
  "resource_limits_for c k = cfg_resource_limits c k"

section \<open>Start specifications\<close>

datatype scaling_mode = Aspect | Fill | Stretch

fun scaling_str :: "scaling_mode \<Rightarrow> string" where
  "scaling_str Aspect = ''aspect''"
| "scaling_str Fill = ''fill''"
| "scaling_str Stretch = ''stretch''"

datatype content_spec = ContentVideo string | ContentWeb string | ContentScene string

datatype test_fault =
    StartupHang | Hang u64 | Corrupt u64 | ExitFault u64 | IgnoreTermHang u64 | MemoryPressure u64 u64

record start_spec =
  ss_wallpaper_id :: string
  ss_content_hash :: string
  ss_width :: u32
  ss_height :: u32
  ss_fps :: u32
  ss_kind :: renderer_kind
  ss_content :: "content_spec option"
  ss_test_fault :: "test_fault option"
  ss_stderr_lines :: "u32 option"
  ss_scaling :: scaling_mode
  ss_capability_limitations :: "string list"

datatype start_error =
    BadWallpaperId | BadContentHash | BadFrameSpec frame_error | MappingOverBudget | FpsRange
  | FaultFrameRange | MemoryPressureRange | StderrLinesKind | StderrLinesRange
  | PreflightRejected | ContentMismatch | ContentUnresolved

definition max_supervised_mapping_bytes :: u64 where "max_supervised_mapping_bytes = 128 * 1024 * 1024"

fun fault_frame :: "test_fault \<Rightarrow> u64 option" where
  "fault_frame StartupHang = None"
| "fault_frame (Hang n) = Some n"
| "fault_frame (Corrupt n) = Some n"
| "fault_frame (ExitFault n) = Some n"
| "fault_frame (IgnoreTermHang n) = Some n"
| "fault_frame (MemoryPressure n _) = Some n"

definition fault_validate :: "test_fault \<Rightarrow> (start_error, unit) result" where
  "fault_validate f =
     (case fault_frame f of
        None \<Rightarrow> Inr ()
      | Some n \<Rightarrow>
          rbind (fail_if (\<not> (1 \<le> n \<and> n \<le> 100000)) FaultFrameRange) (\<lambda>_.
          case f of MemoryPressure _ mib \<Rightarrow> fail_if (\<not> (1 \<le> mib \<and> mib \<le> 4096)) MemoryPressureRange
                  | _ \<Rightarrow> Inr ()))"

text \<open>The verdicts of the three preflights on a path (\<open>report.safe\<close>).\<close>

record preflights =
  pre_video :: "string \<Rightarrow> bool"
  pre_web :: "string \<Rightarrow> bool"
  pre_scene :: "string \<Rightarrow> string option \<Rightarrow> bool"

definition content_validate ::
  "preflights \<Rightarrow> string option \<Rightarrow> renderer_kind \<Rightarrow> content_spec option \<Rightarrow> (start_error, unit) result" where
  "content_validate pre assets kind content =
     (case (kind, content) of
        (KindTest, None) \<Rightarrow> Inr ()
      | (KindVideo, Some (ContentVideo p)) \<Rightarrow> fail_if (\<not> pre_video pre p) PreflightRejected
      | (KindWeb, Some (ContentWeb r)) \<Rightarrow> fail_if (\<not> pre_web pre r) PreflightRejected
      | (KindScene, Some (ContentScene p)) \<Rightarrow> fail_if (\<not> pre_scene pre p assets) PreflightRejected
      | _ \<Rightarrow> Inl ContentMismatch)"

definition start_validate ::
  "preflights \<Rightarrow> string option \<Rightarrow> start_spec \<Rightarrow> (start_error, unit) result" where
  "start_validate pre assets s =
     rbind (fail_if (\<not> validate_identity_part (ss_wallpaper_id s)) BadWallpaperId) (\<lambda>_.
     rbind (fail_if (\<not> validate_identity_part (ss_content_hash s)) BadContentHash) (\<lambda>_.
     rbind (map_err BadFrameSpec (frame_spec_new (ss_width s) (ss_height s))) (\<lambda>spec.
     rbind (fail_if (max_supervised_mapping_bytes < fs_file_bytes spec) MappingOverBudget) (\<lambda>_.
     rbind (fail_if (\<not> (1 \<le> ss_fps s \<and> ss_fps s \<le> 240)) FpsRange) (\<lambda>_.
     rbind (case ss_test_fault s of Some f \<Rightarrow> fault_validate f | None \<Rightarrow> Inr ()) (\<lambda>_.
     rbind (fail_if (ss_stderr_lines s \<noteq> None \<and> ss_kind s \<noteq> KindTest) StderrLinesKind) (\<lambda>_.
     rbind (fail_if (case ss_stderr_lines s of Some n \<Rightarrow> \<not> (1 \<le> n \<and> n \<le> 4096) | None \<Rightarrow> False)
              StderrLinesRange) (\<lambda>_.
     content_validate pre assets (ss_kind s) (ss_content s)))))))))"

definition into_validated ::
  "preflights \<Rightarrow> (string \<Rightarrow> string option) \<Rightarrow> string option \<Rightarrow> start_spec \<Rightarrow> (start_error, start_spec) result" where
  "into_validated pre canon assets s =
     rbind (start_validate pre assets s) (\<lambda>_.
     case (ss_kind s, ss_content s) of
       (KindVideo, Some (ContentVideo p)) \<Rightarrow>
         rbind (ok_or (canon p) ContentUnresolved) (\<lambda>real. Inr (s\<lparr>ss_content := Some (ContentVideo real)\<rparr>))
     | _ \<Rightarrow> Inr s)"

definition spec_identity :: "start_spec \<Rightarrow> string" where
  "spec_identity s = ss_wallpaper_id s @ '':'' @ ss_content_hash s @ '':'' @ kind_str (ss_kind s)"

definition legacy_identity :: "start_spec \<Rightarrow> string" where
  "legacy_identity s = ss_wallpaper_id s @ '':'' @ ss_content_hash s"

section \<open>A validated configuration\<close>

lemma resolve_paths_ok:
  assumes "resolve_paths canon paths ks = Inr m"
  shows "(m k = Some p) = (k \<in> set ks \<and> (\<exists>q. paths k = Some q
           \<and> (canon q = Resolved p True \<or> canon q = ResolveNotFound \<and> p = q)))"
  using assms
proof (induction ks arbitrary: m)
  case (Cons j js)
  show ?case
  proof (cases "paths j")
    case None
    with Cons show ?thesis by auto
  next
    case (Some q)
    then obtain m' r where "resolve_paths canon paths js = Inr m'" "m = m'(j \<mapsto> r)"
      "canon q = Resolved r True \<or> canon q = ResolveNotFound \<and> r = q"
      using Cons.prems by (auto simp: result_simps split: resolution.splits if_splits)
    with Cons.IH Some show ?thesis by auto
  qed
qed simp

lemma check_timeouts_ok:
  "check_timeouts m ks = Inr u \<longleftrightarrow> (\<forall>k \<in> set ks. \<forall>t. m k = Some t \<longrightarrow> 100 \<le> t \<and> t \<le> 30000)"
  by (induction ks) (auto simp: result_simps split: option.splits)

lemma check_present_ok:
  "check_present m l ks = Inr u \<longleftrightarrow> (\<forall>k \<in> set ks. m k \<noteq> None \<and> l k \<noteq> None)"
  by (induction ks) (auto simp: result_simps)

lemma check_limits_ok:
  "check_limits m ks = Inr u \<longleftrightarrow> (\<forall>k \<in> set ks. \<forall>l. m k = Some l \<longrightarrow> limits_validate l)"
  by (induction ks) (auto simp: result_simps split: option.splits)

definition config_ok :: "supervisor_config \<Rightarrow> bool" where
  "config_ok c \<longleftrightarrow>
     (\<forall>k \<in> set all_kinds. \<exists>t l. startup_timeout_for c k = Some t \<and> 100000000 \<le> t \<and> t \<le> 30000000000
        \<and> resource_limits_for c k = Some l \<and> limits_validate l)
     \<and> 0 < cfg_frame_timeout c \<and> 0 < cfg_stop_grace c \<and> 0 < cfg_canary_duration c
     \<and> 0 < cfg_handoff_timeout c \<and> 1 \<le> cfg_max_failures c \<and> cfg_max_failures c \<le> 10
     \<and> 250 \<le> cfg_web_heartbeat_ms c \<and> cfg_web_heartbeat_ms c \<le> 60000
     \<and> 1 \<le> cfg_web_heartbeat_max_failures c \<and> cfg_web_heartbeat_max_failures c \<le> 10"

text \<open>
  a configuration that validates is total and bounded: no indexing by kind panics later, every startup
  timeout is 100 ms to 30 s, every deadline is positive, the failure budget is 1 to 10, and each renderer
  path left in it is the canonical path of a regular file or names a file that does not exist yet.
\<close>

theorem config_validate_sound:
  assumes "config_validate canon runtime state c = Inr c'"
  shows "config_ok c'
    \<and> (\<forall>k p. renderer_path_for c' k = Inr p \<longleftrightarrow>
         (\<exists>q. cfg_renderer_paths c k = Some q \<and> (canon q = Resolved p True \<or> canon q = ResolveNotFound \<and> p = q)))"
proof -
  obtain paths where p: "resolve_paths canon (cfg_renderer_paths c) all_kinds = Inr paths"
    and c': "c' = c\<lparr>cfg_renderer_paths := paths\<rparr>"
    and t: "\<forall>k \<in> set all_kinds. \<forall>t. cfg_startup_timeout_ms c k = Some t \<longrightarrow> 100 \<le> t \<and> t \<le> 30000"
    and some: "\<forall>k \<in> set all_kinds. cfg_startup_timeout_ms c k \<noteq> None \<and> cfg_resource_limits c k \<noteq> None"
    and l: "\<forall>k \<in> set all_kinds. \<forall>l. cfg_resource_limits c k = Some l \<longrightarrow> limits_validate l"
    and b: "0 < cfg_frame_timeout c" "0 < cfg_stop_grace c" "0 < cfg_canary_duration c"
      "0 < cfg_handoff_timeout c" "cfg_max_failures c \<noteq> 0" "cfg_max_failures c \<le> 10"
      "250 \<le> cfg_web_heartbeat_ms c" "cfg_web_heartbeat_ms c \<le> 60000"
      "1 \<le> cfg_web_heartbeat_max_failures c" "cfg_web_heartbeat_max_failures c \<le> 10"
    using assms
    by (auto simp: config_validate_def result_simps not_less check_timeouts_ok check_present_ok check_limits_ok)
  have "1 \<le> cfg_max_failures c" using b(5) by (simp add: word_le_nat_alt unat_eq_zero Suc_le_eq unat_gt_0)
  then have "config_ok c'"
    using t some l b unfolding config_ok_def c'
    by (fastforce simp: startup_timeout_for_def resource_limits_for_def word_le_nat_alt)
  moreover have "\<forall>k p. paths k = Some p \<longleftrightarrow> (\<exists>q. cfg_renderer_paths c k = Some q
      \<and> (canon q = Resolved p True \<or> canon q = ResolveNotFound \<and> p = q))"
    using resolve_paths_ok [OF p] all_kinds_sorted(2) by blast
  ultimately show ?thesis by (simp add: c' renderer_path_for_def result_simps)
qed

definition sample_limits :: renderer_limits where
  "sample_limits = \<lparr>rl_address_space_mib = 1024, rl_file_size_mib = 256, rl_open_files = 64,
     rl_processes = 64, rl_core_dump_bytes = 0\<rparr>"

definition sample_config :: supervisor_config where
  "sample_config = \<lparr>cfg_renderer_paths = [KindTest \<mapsto> ''/r''], cfg_runtime_dir = ''/run'', cfg_state_dir = ''/s'',
     cfg_startup_timeout_ms = (\<lambda>_. Some 1000), cfg_frame_timeout = 1, cfg_stop_grace = 1,
     cfg_restart_delay = 1, cfg_canary_duration = 1, cfg_handoff_timeout = 5, cfg_max_failures = 3,
     cfg_web_heartbeat_ms = 1000, cfg_web_heartbeat_max_failures = 3,
     cfg_resource_limits = (\<lambda>_. Some sample_limits), cfg_scene_assets_dir = None,
     cfg_shader_helper_path = None\<rparr>"

definition private_dir :: dir_facts where
  "private_dir = \<lparr>df_created = True, df_metadata = True, df_symlink = False, df_directory = True,
     df_owned = True, df_chmod = True\<rparr>"

lemma config_validate_sound_witness: "config_ok (sample_config\<lparr>cfg_renderer_paths := [KindTest \<mapsto> ''/real'']\<rparr>)"
proof -
  have "config_validate (\<lambda>_. Resolved ''/real'' True) private_dir private_dir sample_config
      = Inr (sample_config\<lparr>cfg_renderer_paths := [KindTest \<mapsto> ''/real'']\<rparr>)"
    by (simp add: config_validate_def sample_config_def all_kinds_def ensure_private_dir_def
        private_dir_def limits_validate_def sample_limits_def)
  from config_validate_sound [OF this] show ?thesis by blast
qed

section \<open>Validated start specifications\<close>

lemma frame_spec_bytes:
  "(\<exists>spec. frame_spec_new w h = Inr spec \<and> fs_file_bytes spec \<le> max_supervised_mapping_bytes)
     \<longleftrightarrow> 0 < unat w \<and> unat w \<le> 8192 \<and> 0 < unat h \<and> unat h \<le> 8192
         \<and> 64 + 8 * unat w * unat h \<le> 134217728"
proof -
  have "(\<exists>spec. frame_spec_new w h = Inr spec \<and> fs_file_bytes spec \<le> max_supervised_mapping_bytes)
     \<longleftrightarrow> (\<exists>spec. frame_spec_new w h = Inr spec) \<and> 64 + 8 * unat w * unat h \<le> 134217728"
    using frame_spec_new_sizes [of w h]
    by (fastforce simp: max_supervised_mapping_bytes_def word_le_nat_alt)
  moreover have "(\<exists>spec. frame_spec_new w h = Inr spec)
      \<longleftrightarrow> 0 < unat w \<and> unat w \<le> 8192 \<and> 0 < unat h \<and> unat h \<le> 8192 \<and> 64 + 8 * unat w * unat h \<le> 536870912"
    using frame_spec_new_sizes [of w h] frame_spec_accepts [of w h] by fastforce
  ultimately show ?thesis by auto
qed

fun fault_ok :: "test_fault \<Rightarrow> bool" where
  "fault_ok StartupHang = True"
| "fault_ok (MemoryPressure n mib) = (unat n \<in> {1..100000} \<and> unat mib \<in> {1..4096})"
| "fault_ok (Hang n) = (unat n \<in> {1..100000})"
| "fault_ok (Corrupt n) = (unat n \<in> {1..100000})"
| "fault_ok (ExitFault n) = (unat n \<in> {1..100000})"
| "fault_ok (IgnoreTermHang n) = (unat n \<in> {1..100000})"

definition content_ok :: "preflights \<Rightarrow> string option \<Rightarrow> start_spec \<Rightarrow> bool" where
  "content_ok pre assets s \<longleftrightarrow>
     ss_kind s = KindTest \<and> ss_content s = None
     \<or> (\<exists>p. ss_kind s = KindVideo \<and> ss_content s = Some (ContentVideo p) \<and> pre_video pre p)
     \<or> (\<exists>p. ss_kind s = KindWeb \<and> ss_content s = Some (ContentWeb p) \<and> pre_web pre p)
     \<or> (\<exists>p. ss_kind s = KindScene \<and> ss_content s = Some (ContentScene p) \<and> pre_scene pre p assets)"

definition start_ok :: "start_spec \<Rightarrow> bool" where
  "start_ok s \<longleftrightarrow> validate_identity_part (ss_wallpaper_id s) \<and> validate_identity_part (ss_content_hash s)
     \<and> 0 < unat (ss_width s) \<and> unat (ss_width s) \<le> 8192 \<and> 0 < unat (ss_height s) \<and> unat (ss_height s) \<le> 8192
     \<and> 64 + 8 * unat (ss_width s) * unat (ss_height s) \<le> 134217728
     \<and> unat (ss_fps s) \<in> {1..240}
     \<and> pred_option fault_ok (ss_test_fault s)
     \<and> pred_option (\<lambda>n. ss_kind s = KindTest \<and> unat n \<in> {1..4096}) (ss_stderr_lines s)"

lemma fault_validate_iff: "fault_validate f = Inr () \<longleftrightarrow> fault_ok f"
  by (cases f) (auto simp: fault_validate_def result_simps word_le_nat_alt)

lemma content_validate_iff:
  "content_validate pre assets (ss_kind s) (ss_content s) = Inr () \<longleftrightarrow> content_ok pre assets s"
  by (auto simp: content_validate_def content_ok_def result_simps
      split: renderer_kind.splits option.splits content_spec.splits)

text \<open>
  \<open>StartSpec::validate\<close> accepts exactly the specifications with legal identity parts, a frame mapping of
  at most 128 MiB, 1 to 240 frames a second, bounded test faults, diagnostics lines only for the test
  kind, and the content its kind needs, cleared by that kind's own preflight.
\<close>

theorem start_validate_correct:
  "start_validate pre assets s = Inr () \<longleftrightarrow> start_ok s \<and> content_ok pre assets s"
proof -
  have "start_validate pre assets s = Inr () \<longleftrightarrow>
      validate_identity_part (ss_wallpaper_id s) \<and> validate_identity_part (ss_content_hash s)
      \<and> (\<exists>spec. frame_spec_new (ss_width s) (ss_height s) = Inr spec
            \<and> fs_file_bytes spec \<le> max_supervised_mapping_bytes)
      \<and> 1 \<le> ss_fps s \<and> ss_fps s \<le> 240 \<and> pred_option (\<lambda>f. fault_validate f = Inr ()) (ss_test_fault s)
      \<and> pred_option (\<lambda>n. ss_kind s = KindTest \<and> 1 \<le> n \<and> n \<le> 4096) (ss_stderr_lines s)
      \<and> content_validate pre assets (ss_kind s) (ss_content s) = Inr ()"
    by (auto simp: start_validate_def result_simps not_less split: option.splits)
  then show ?thesis
    unfolding frame_spec_bytes fault_validate_iff content_validate_iff start_ok_def
    by (auto simp: word_le_nat_alt)
qed

section \<open>Identities\<close>

lemma identity_no_colon: "validate_identity_part v \<Longrightarrow> CHR '':'' \<notin> set v"
  by (auto simp: validate_identity_part_def list_all_iff is_ascii_alphanumeric_def is_ascii_digit_def
      is_ascii_upper_def is_ascii_lower_def byte_val_def)

lemma append_colon_inj:
  "CHR '':'' \<notin> set a \<Longrightarrow> CHR '':'' \<notin> set b \<Longrightarrow> a @ CHR '':'' # x = b @ CHR '':'' # y \<longleftrightarrow> a = b \<and> x = y"
  by (auto simp: append_eq_append_conv2 append_eq_Cons_conv Cons_eq_append_conv)

lemma kind_str_inj: "kind_str a = kind_str b \<longleftrightarrow> a = b"
  by (cases a; cases b) auto

text \<open>
  the quarantine keys of validated specifications do not collide: two specifications share a key
  exactly when wallpaper, content hash and kind agree, and no legacy key (without the kind) equals a
  kind-qualified one.
\<close>

theorem identity_injective:
  assumes "start_ok s" "start_ok t"
  shows "(spec_identity s = spec_identity t \<longleftrightarrow>
           ss_wallpaper_id s = ss_wallpaper_id t \<and> ss_content_hash s = ss_content_hash t \<and> ss_kind s = ss_kind t)
    \<and> spec_identity s \<noteq> legacy_identity t"
proof -
  note nc = assms [unfolded start_ok_def, THEN conjunct1, THEN identity_no_colon]
  have h: "CHR '':'' \<notin> set (ss_content_hash s)" "CHR '':'' \<notin> set (ss_content_hash t)"
    using assms identity_no_colon by (auto simp: start_ok_def)
  have "spec_identity s \<noteq> legacy_identity t"
  proof
    assume "spec_identity s = legacy_identity t"
    then have "ss_content_hash t = ss_content_hash s @ CHR '':'' # kind_str (ss_kind s)"
      using nc by (auto simp: spec_identity_def legacy_identity_def append_colon_inj)
    then show False using h by simp
  qed
  then show ?thesis using nc h by (auto simp: spec_identity_def append_colon_inj kind_str_inj)
qed

definition sample_start :: start_spec where
  "sample_start = \<lparr>ss_wallpaper_id = ''w1'', ss_content_hash = ''h1'', ss_width = 1, ss_height = 1, ss_fps = 30,
     ss_kind = KindTest, ss_content = None, ss_test_fault = None, ss_stderr_lines = None,
     ss_scaling = Aspect, ss_capability_limitations = []\<rparr>"

lemma sample_start_ok: "start_ok sample_start"
  by (simp add: start_ok_def sample_start_def validate_identity_part_def is_ascii_alphanumeric_def
      is_ascii_digit_def is_ascii_upper_def is_ascii_lower_def byte_val_def)

lemma identity_injective_witness:
  "spec_identity sample_start \<noteq> spec_identity (sample_start\<lparr>ss_content_hash := ''w1''\<rparr>)
   \<and> spec_identity sample_start \<noteq> legacy_identity sample_start"
proof -
  have "start_ok (sample_start\<lparr>ss_content_hash := ''w1''\<rparr>)"
    using sample_start_ok by (simp add: start_ok_def sample_start_def)
  from identity_injective [OF sample_start_ok this] identity_injective [OF sample_start_ok sample_start_ok]
  show ?thesis by (simp add: sample_start_def)
qed

end
