(* ===== verification/Grants.thy ===== *)
theory Grants
  imports Persist
begin

text \<open>
  \<open>crates/kwe-daemon/src/grants.rs\<close>: the per-wallpaper permission grants and their state file. The JSON
  codec is a parameter; the stored map is a \<open>mapping\<close> from wallpaper identities to grants.
\<close>

section \<open>Data\<close>

definition max_grants :: nat where "max_grants = 256"
definition max_grant_bytes :: nat where "max_grant_bytes = 1024 * 1024"
definition grants_file :: string where "grants_file = ''permissions-v1.json''"

record grant =
  gr_network :: bool
  gr_audio :: bool
  gr_pointer :: bool

record grant_patch =
  gp_network :: "bool option"
  gp_audio :: "bool option"
  gp_pointer :: "bool option"

record persisted_grants =
  pg_schema_version :: u32
  pg_grants :: "(string, grant) mapping"

datatype grant_error = InvalidWallpaperId | TooManyGrants | GrantBytes | GrantWrite persist_error

definition grant_defaults :: grant where
  "grant_defaults = \<lparr>gr_network = False, gr_audio = False, gr_pointer = True\<rparr>"

definition default_grants :: persisted_grants where
  "default_grants = \<lparr>pg_schema_version = 1, pg_grants = Mapping.empty\<rparr>"

definition unwrap_or :: "'a \<Rightarrow> 'a option \<Rightarrow> 'a" where
  "unwrap_or d x = (case x of Some v \<Rightarrow> v | None \<Rightarrow> d)"

lemma unwrap_or_simps [simp]: "unwrap_or d None = d" "unwrap_or d (Some v) = v"
  by (simp_all add: unwrap_or_def)

definition patch_apply :: "grant_patch \<Rightarrow> grant \<Rightarrow> grant" where
  "patch_apply p g =
     \<lparr>gr_network = unwrap_or (gr_network g) (gp_network p), gr_audio = unwrap_or (gr_audio g) (gp_audio p),
      gr_pointer = unwrap_or (gr_pointer g) (gp_pointer p)\<rparr>"

section \<open>Operations\<close>

definition grant_of :: "persisted_grants \<Rightarrow> string \<Rightarrow> grant" where
  "grant_of s w = unwrap_or grant_defaults (Mapping.lookup (pg_grants s) w)"

definition grants_save ::
  "(persisted_grants \<Rightarrow> u8 list) \<Rightarrow> persisted_grants \<Rightarrow> write_io \<Rightarrow> state_dir
     \<Rightarrow> (grant_error, unit) result \<times> state_dir" where
  "grants_save ser s io d =
     (let bytes = ser s in
      if max_grant_bytes < length bytes then (Inl GrantBytes, d)
      else (let (r, d') = atomic_write grants_file bytes io d in (map_err GrantWrite r, d')))"

definition grants_set ::
  "(persisted_grants \<Rightarrow> u8 list) \<Rightarrow> write_io \<Rightarrow> string \<Rightarrow> grant_patch \<Rightarrow> persisted_grants \<times> state_dir
     \<Rightarrow> (grant_error, grant) result \<times> persisted_grants \<times> state_dir" where
  "grants_set ser io w p sd =
     (case sd of (s, d) \<Rightarrow>
      if \<not> validate_identity_part w then (Inl InvalidWallpaperId, s, d)
      else
        (let next = patch_apply p (grant_of s w) in
         if Mapping.lookup (pg_grants s) w = None \<and> max_grants \<le> Mapping.size (pg_grants s)
         then (Inl TooManyGrants, s, d)
         else
           (let s' = s\<lparr>pg_grants := Mapping.update w next (pg_grants s)\<rparr> in
            case grants_save ser s' io d of
              (Inl e, d') \<Rightarrow> (Inl e, s, d')
            | (Inr _, d') \<Rightarrow> (Inr next, s', d'))))"

text \<open>What reading the file gives: absent, unreadable (open, metadata, size or read), or its bytes.\<close>

datatype state_read = StateAbsent | StateUnreadable | StateBytes "u8 list"

definition grants_valid :: "persisted_grants \<Rightarrow> bool" where
  "grants_valid s \<longleftrightarrow> pg_schema_version s = 1 \<and> Mapping.size (pg_grants s) \<le> max_grants
     \<and> (\<forall>w \<in> Mapping.keys (pg_grants s). validate_identity_part w)"

text \<open>The second component says whether the file was quarantined.\<close>

definition grants_load ::
  "(u8 list \<Rightarrow> persisted_grants option) \<Rightarrow> state_read \<Rightarrow> persisted_grants \<times> bool" where
  "grants_load parse rd =
     (case rd of
        StateAbsent \<Rightarrow> (default_grants, False)
      | StateUnreadable \<Rightarrow> (default_grants, True)
      | StateBytes bytes \<Rightarrow>
          if max_grant_bytes < length bytes then (default_grants, True)
          else (case parse bytes of
            Some s \<Rightarrow> if grants_valid s then (s, False) else (default_grants, True)
          | None \<Rightarrow> (default_grants, True)))"

section \<open>The interface of a grant source\<close>

text \<open>
  What the launch of a worker and the delivery of audio rely on: a successful change is exactly the patch
  of one wallpaper's grant, and a failed one changes nothing.
\<close>

locale grant_source =
  fixes granted :: "'s \<Rightarrow> string \<Rightarrow> grant"
    and revise :: "'io \<Rightarrow> string \<Rightarrow> grant_patch \<Rightarrow> 's \<Rightarrow> ('e, grant) result \<times> 's"
  assumes revise_ok: "revise io w p s = (Inr g, s') \<Longrightarrow>
      g = patch_apply p (granted s w) \<and> granted s' w = g \<and> (\<forall>v. v \<noteq> w \<longrightarrow> granted s' v = granted s v)"
    and revise_failed: "revise io w p s = (Inl e, s') \<Longrightarrow> granted s' = granted s"
begin

lemma revoke_network:
  assumes "revise io w p s = (Inr g, s')" "gp_network p = Some False"
  shows "\<not> gr_network (granted s' w)"
  using revise_ok [OF assms(1)] assms(2) by (simp add: patch_apply_def)

lemma untouched_wallpaper: "revise io w p s = (r, s') \<Longrightarrow> v \<noteq> w \<Longrightarrow> granted s' v = granted s v"
  by (cases r) (auto dest: revise_ok revise_failed)

end

lemma grants_set_cases:
  assumes "grants_set ser io w p (s, d) = (r, s', d')"
  obtains (failed) e where "r = Inl e" "s' = s"
  | (changed) "r = Inr (patch_apply p (grant_of s w))" "validate_identity_part w"
      "s' = s\<lparr>pg_grants := Mapping.update w (patch_apply p (grant_of s w)) (pg_grants s)\<rparr>"
      "Mapping.lookup (pg_grants s) w \<noteq> None \<or> Mapping.size (pg_grants s) < max_grants"
      "Mapping.lookup d' grants_file = Some (ser s')"
proof (cases r)
  case (Inl e)
  then have "s' = s" using assms by (auto simp: grants_set_def Let_def split: if_splits sum.splits prod.splits)
  with Inl show thesis by (rule failed)
next
  case (Inr g)
  let ?s = "s\<lparr>pg_grants := Mapping.update w (patch_apply p (grant_of s w)) (pg_grants s)\<rparr>"
  have v: "validate_identity_part w" "Mapping.lookup (pg_grants s) w \<noteq> None \<or> Mapping.size (pg_grants s) < max_grants"
    and sv: "grants_save ser ?s io d = (Inr (), d')"
    and eq: "s' = ?s" "g = patch_apply p (grant_of s w)"
    using assms Inr by (auto simp: grants_set_def Let_def split: if_splits sum.splits prod.splits)
  have "atomic_write grants_file (ser ?s) io d = (Inr (), d')"
    using sv by (auto simp: grants_save_def Let_def map_err_def split: if_splits prod.splits sum.splits)
  then have "Mapping.lookup d' grants_file = Some (ser s')"
    unfolding eq by (rule daemon_file.write_ok)
  with v eq Inr show thesis by (intro changed) auto
qed

interpretation daemon_grants: grant_source "\<lambda>sd. grant_of (fst sd)" "grants_set ser" for ser
proof
  fix io w p s g s' e
  show "grants_set ser io w p s = (Inr g, s') \<Longrightarrow>
      g = patch_apply p (grant_of (fst s) w) \<and> grant_of (fst s') w = g
      \<and> (\<forall>v. v \<noteq> w \<longrightarrow> grant_of (fst s') v = grant_of (fst s) v)"
    by (cases s; cases s') (auto elim!: grants_set_cases simp: grant_of_def)
  show "grants_set ser io w p s = (Inl e, s') \<Longrightarrow> (\<lambda>v. grant_of (fst s') v) = (\<lambda>v. grant_of (fst s) v)"
    by (cases s; cases s') (auto elim!: grants_set_cases)
qed

section \<open>Properties\<close>

definition grants_bounded :: "persisted_grants \<Rightarrow> bool" where
  "grants_bounded s \<longleftrightarrow> finite (Mapping.keys (pg_grants s)) \<and> Mapping.size (pg_grants s) \<le> max_grants
     \<and> (\<forall>w \<in> Mapping.keys (pg_grants s). validate_identity_part w)"

lemma size_keys: "Mapping.size m = card (Mapping.keys m)"
  by (simp add: Mapping.size_def)

lemma update_bounded:
  assumes "grants_bounded s" "validate_identity_part w"
    "Mapping.lookup (pg_grants s) w \<noteq> None \<or> Mapping.size (pg_grants s) < max_grants"
  shows "grants_bounded (s\<lparr>pg_grants := Mapping.update w g (pg_grants s)\<rparr>)"
proof -
  have "card (insert w (Mapping.keys (pg_grants s))) \<le> max_grants"
    using assms by (auto simp: grants_bounded_def size_keys keys_lookup card_insert_if)
  then show ?thesis using assms by (auto simp: grants_bounded_def size_keys)
qed

text \<open>
  changing a grant is exact and bounded: on success the wallpaper's grant is the patched one, every
  other wallpaper's is unchanged and the state file holds the new store; on failure the grants in force
  are unchanged; and the store never exceeds 256 records nor holds an invalid identity.
\<close>

theorem grants_set_correct:
  assumes "grants_bounded s" "grants_set ser io w p (s, d) = (r, s', d')"
  shows "grants_bounded s'
    \<and> (\<forall>v. v \<noteq> w \<longrightarrow> grant_of s' v = grant_of s v)
    \<and> (\<forall>g. r = Inr g \<longrightarrow> grant_of s' w = g \<and> g = patch_apply p (grant_of s w)
           \<and> Mapping.lookup d' grants_file = Some (ser s'))
    \<and> (\<forall>e. r = Inl e \<longrightarrow> s' = s)"
  using assms(2)
proof (cases rule: grants_set_cases)
  case (failed e)
  then show ?thesis using assms(1) by simp
next
  case changed
  then show ?thesis using update_bounded [OF assms(1)] by (simp add: grant_of_def)
qed

definition sample_dir_facts :: dir_facts where
  "sample_dir_facts = \<lparr>df_created = True, df_metadata = True, df_symlink = False, df_directory = True,
     df_owned = True, df_chmod = True\<rparr>"

definition sample_write_io :: write_io where
  "sample_write_io = \<lparr>aw_dir = sample_dir_facts, aw_pid = 1, aw_nanos = 2, aw_open = True,
     aw_written = None, aw_sync = True, aw_rename = True, aw_parent_sync = True\<rparr>"

lemma default_grants_bounded: "grants_bounded default_grants"
  by (simp add: grants_bounded_def default_grants_def size_keys max_grants_def)

lemma grants_set_correct_witness:
  "grant_of (fst (snd (grants_set (\<lambda>_. [1]) sample_write_io ''w'' \<lparr>gp_network = Some True, gp_audio = None,
     gp_pointer = None\<rparr> (default_grants, Mapping.empty)))) ''w''
   = \<lparr>gr_network = True, gr_audio = False, gr_pointer = True\<rparr>"
proof -
  let ?p = "\<lparr>gp_network = Some True, gp_audio = None, gp_pointer = None\<rparr>"
  let ?out = "grants_set (\<lambda>_. [1]) sample_write_io ''w'' ?p (default_grants, Mapping.empty)"
  have w: "validate_identity_part ''w''"
    by (simp add: validate_identity_part_def is_ascii_alphanumeric_def is_ascii_lower_def byte_val_def)
  have g: "grant_of default_grants ''w'' = grant_defaults"
    by (simp add: grant_of_def default_grants_def)
  have "\<exists>g. fst ?out = Inr g"
    by (simp add: grants_set_def w grants_save_def max_grant_bytes_def atomic_write_def sample_write_io_def
        sample_dir_facts_def ensure_private_dir_def default_grants_def size_keys max_grants_def Let_def)
  then obtain g' where "fst ?out = Inr g'" ..
  then have "?out = (Inr g', fst (snd ?out), snd (snd ?out))" by (simp add: prod_eq_iff)
  from grants_set_correct [OF default_grants_bounded this]
  have "grant_of (fst (snd ?out)) ''w'' = patch_apply ?p grant_defaults" by (simp add: g)
  then show ?thesis by (simp add: patch_apply_def grant_defaults_def)
qed

text \<open>Loading never fails: what it returns is bounded, whatever bytes the file holds.\<close>

lemma grants_load_bounded:
  assumes "\<And>bs s. parse bs = Some s \<Longrightarrow> finite (Mapping.keys (pg_grants s))"
  shows "grants_bounded (fst (grants_load parse rd))"
  using assms default_grants_bounded
  by (auto simp: grants_load_def grants_bounded_def grants_valid_def split: state_read.splits option.splits)

text \<open>
  A write whose parent directory sync fails reports an error after the rename: the grants in force are
  the old ones while the file already holds the new ones, which the next start of the daemon loads.
\<close>

lemma grants_set_error_on_disk:
  assumes "validate_identity_part w" "length (ser (default_grants\<lparr>pg_grants := Mapping.update w
      (patch_apply p grant_defaults) Mapping.empty\<rparr>)) \<le> max_grant_bytes"
  shows "grants_set ser (sample_write_io\<lparr>aw_parent_sync := False\<rparr>) w p (default_grants, Mapping.empty)
    = (Inl (GrantWrite SyncFailed), default_grants,
       Mapping.update grants_file (ser (default_grants\<lparr>pg_grants := Mapping.update w
         (patch_apply p grant_defaults) Mapping.empty\<rparr>))
       (Mapping.delete (write_temporary grants_file 1 2) (Mapping.update (write_temporary grants_file 1 2)
         (ser (default_grants\<lparr>pg_grants := Mapping.update w (patch_apply p grant_defaults) Mapping.empty\<rparr>))
         Mapping.empty)))"
  using assms
  by (simp add: grants_set_def grants_save_def atomic_write_def sample_write_io_def sample_dir_facts_def
      ensure_private_dir_def grant_of_def default_grants_def size_keys max_grants_def Let_def not_less)

end
