(* ===== verification/Supervisor_Store.thy ===== *)
theory Supervisor_Store
  imports Supervisor_Config Grants
begin

text \<open>
  \<open>crates/kwe-daemon/src/supervisor.rs\<close>, the supervisor's state on disk: failure records and the last good
  frame, their state file, the fallback images it names, and the strike of a failure. The directory
  is that of \<open>Persist\<close>; the JSON codec and the daemon's version are parameters.
\<close>

section \<open>Data\<close>

datatype failure_kind =
    StartupTimeout | FrameTimeout | InvalidFrame | ProcessExit | LaunchFailed | ResourceLimit | Refused

record failure_record =
  fr_wallpaper_id :: string
  fr_content_hash :: string
  fr_failures :: u32
  fr_quarantined :: bool
  fr_last_failure :: failure_kind
  fr_last_detail :: string
  fr_updated_unix_seconds :: u64

record last_good_record =
  lg_wallpaper_id :: string
  lg_content_hash :: string
  lg_width :: u32
  lg_height :: u32
  lg_sequence :: u64
  lg_file :: string
  lg_updated_unix_seconds :: u64

record persisted_state =
  st_schema_version :: u32
  st_forced_kill_count :: u64
  st_records :: "(string, failure_record) mapping"
  st_last_good :: "last_good_record option"
  st_build_id :: "string option"

datatype store_error =
    StateDir persist_error | StateUnread | StateUnbounded | StateUnparsed | StateUnsupported | StateTooLarge
  | StateWrite persist_error | PixelLengthChanged

definition max_records :: nat where "max_records = 256"
definition max_state_bytes :: nat where "max_state_bytes = 1024 * 1024"
definition state_file_name :: string where "state_file_name = ''supervisor-v1.json''"

definition fresh_state :: persisted_state where
  "fresh_state = \<lparr>st_schema_version = 1, st_forced_kill_count = 0, st_records = Mapping.empty,
     st_last_good = None, st_build_id = None\<rparr>"

section \<open>The state file\<close>

text \<open>
  \<open>StateUnreadable\<close> stands for the failed calls, \<open>StateBytes\<close> for the contents of the file behind the
  descriptor; \<open>bounded\<close> says whether its metadata named a regular file.
\<close>

definition state_load ::
  "(u8 list \<Rightarrow> persisted_state option) \<Rightarrow> bool \<Rightarrow> state_read \<Rightarrow> (store_error, persisted_state) result" where
  "state_load parse regular rd =
     (case rd of
        StateAbsent \<Rightarrow> Inr fresh_state
      | StateUnreadable \<Rightarrow> Inl StateUnread
      | StateBytes bytes \<Rightarrow>
          rbind (fail_if (\<not> regular \<or> max_state_bytes < length bytes) StateUnbounded) (\<lambda>_.
          rbind (ok_or (parse bytes) StateUnparsed) (\<lambda>s.
          rbind (fail_if (st_schema_version s \<noteq> 1 \<or> max_records < Mapping.size (st_records s)) StateUnsupported)
            (\<lambda>_. Inr s))))"

definition state_save ::
  "(persisted_state \<Rightarrow> u8 list) \<Rightarrow> persisted_state \<Rightarrow> write_io \<Rightarrow> state_dir
     \<Rightarrow> (store_error, unit) result \<times> state_dir" where
  "state_save ser s io d =
     (let bytes = ser s in
      if max_state_bytes < length bytes then (Inl StateTooLarge, d)
      else (case atomic_write state_file_name bytes io d of (r, d') \<Rightarrow> (map_err StateWrite r, d')))"

definition state_open ::
  "(u8 list \<Rightarrow> persisted_state option) \<Rightarrow> dir_facts \<Rightarrow> bool \<Rightarrow> state_read \<Rightarrow> (store_error, persisted_state) result" where
  "state_open parse facts regular rd =
     rbind (map_err StateDir (ensure_private_dir facts)) (\<lambda>_. state_load parse regular rd)"

definition open_for_build ::
  "(u8 list \<Rightarrow> persisted_state option) \<Rightarrow> (persisted_state \<Rightarrow> u8 list) \<Rightarrow> dir_facts \<Rightarrow> bool \<Rightarrow> state_read
     \<Rightarrow> write_io \<Rightarrow> string \<Rightarrow> state_dir \<Rightarrow> (store_error, persisted_state) result \<times> state_dir" where
  "open_for_build parse ser facts regular rd io build d =
     (case state_open parse facts regular rd of
        Inl e \<Rightarrow> (Inl e, d)
      | Inr s \<Rightarrow>
          if st_build_id s \<noteq> Some build
          then (let s' = s\<lparr>st_records := Mapping.empty, st_build_id := Some build\<rparr> in
            case state_save ser s' io d of
              (Inl e, d') \<Rightarrow> (Inl e, d')
            | (Inr _, d') \<Rightarrow> (Inr s', d'))
          else (Inr s, d))"

text \<open>
  The identity of the running build: \<open>stamp\<close> is the size and modification time of a file (\<open>missing\<close> when it
  has no metadata), \<open>exe\<close> the daemon's own executable.
\<close>

definition build_identity ::
  "string \<Rightarrow> (string \<Rightarrow> (nat \<times> nat) option) \<Rightarrow> string option \<Rightarrow> supervisor_config \<Rightarrow> string" where
  "build_identity version stamp exe c =
     (let text = (\<lambda>p. case stamp p of
                    Some (len, mtime) \<Rightarrow> show_nat len @ '':'' @ show_nat mtime
                  | None \<Rightarrow> ''missing'');
          daemon = ''daemon='' @ version @ '':'' @ (case exe of Some p \<Rightarrow> text p | None \<Rightarrow> ''unknown'');
          kinds = concat (map (\<lambda>k. case cfg_renderer_paths c k of
                    Some p \<Rightarrow> [kind_str k @ ''='' @ text p] | None \<Rightarrow> []) all_kinds)
      in str_join '';'' (daemon # kinds))"

section \<open>The fallback image\<close>

fun rgb_of :: "u8 list \<Rightarrow> u8 list" where
  "rgb_of (b # g # r # a # rest) = r # g # b # rgb_of rest"
| "rgb_of _ = []"

definition ppm_header :: "frame_spec \<Rightarrow> u8 list" where
  "ppm_header spec = str_to_bytes (''P6'' @ [CHR 0x0A] @ show_nat (unat (fs_width spec)) @ '' ''
     @ show_nat (unat (fs_height spec)) @ [CHR 0x0A] @ ''255'' @ [CHR 0x0A])"

definition encode_ppm :: "snapshot_data \<Rightarrow> (store_error, u8 list) result" where
  "encode_ppm s =
     (if length (fn_pixels s) \<noteq> pixel_bytes (fn_spec s) then Inl PixelLengthChanged
      else Inr (ppm_header (fn_spec s) @ rgb_of (fn_pixels s)))"

definition last_good_a :: string where "last_good_a = ''last-good-a.ppm''"
definition last_good_b :: string where "last_good_b = ''last-good-b.ppm''"

definition next_last_good :: "string option \<Rightarrow> string" where
  "next_last_good current = (if current = Some last_good_a then last_good_b else last_good_a)"

definition save_last_good ::
  "snapshot_data \<Rightarrow> string option \<Rightarrow> write_io \<Rightarrow> state_dir \<Rightarrow> (store_error, string) result \<times> state_dir" where
  "save_last_good snap current io d =
     (let name = next_last_good current in
      case encode_ppm snap of
        Inl e \<Rightarrow> (Inl e, d)
      | Inr ppm \<Rightarrow>
          (case atomic_write name ppm io d of
             (Inl e, d') \<Rightarrow> (Inl (StateWrite e), d')
           | (Inr _, d') \<Rightarrow> (Inr name, d')))"

definition persist_last_good ::
  "(persisted_state \<Rightarrow> u8 list) \<Rightarrow> start_spec \<Rightarrow> snapshot_data \<Rightarrow> u64 \<Rightarrow> write_io \<Rightarrow> write_io
     \<Rightarrow> persisted_state \<times> state_dir \<Rightarrow> (store_error, unit) result \<times> persisted_state \<times> state_dir" where
  "persist_last_good ser spec snap unix io_image io_state sd =
     (case sd of (s, d) \<Rightarrow>
        let previous = st_last_good s in
        case save_last_good snap (map_option lg_file previous) io_image d of
          (Inl e, d') \<Rightarrow> (Inl e, s, d')
        | (Inr file, d') \<Rightarrow>
            (let s' = s\<lparr>st_last_good := Some \<lparr>lg_wallpaper_id = ss_wallpaper_id spec,
                       lg_content_hash = ss_content_hash spec, lg_width = fs_width (fn_spec snap),
                       lg_height = fs_height (fn_spec snap), lg_sequence = fn_sequence snap,
                       lg_file = file, lg_updated_unix_seconds = unix\<rparr>\<rparr> in
             case state_save ser s' io_state d' of
               (Inl e, d'') \<Rightarrow> (Inl e, s, d'')
             | (Inr _, d'') \<Rightarrow> (Inr (), s', d'')))"

section \<open>Strikes\<close>

definition record_of :: "persisted_state \<Rightarrow> start_spec \<Rightarrow> failure_record option" where
  "record_of s spec =
     (case Mapping.lookup (st_records s) (spec_identity spec) of
        Some r \<Rightarrow> Some r
      | None \<Rightarrow> Mapping.lookup (st_records s) (legacy_identity spec))"

text \<open>The key of the record updated longest ago, the first in key order among equals.\<close>

definition oldest_key :: "(string, failure_record) mapping \<Rightarrow> string" where
  "oldest_key m = arg_min_list (\<lambda>k. fr_updated_unix_seconds (the (Mapping.lookup m k)))
     (sorted_list_of_set (Mapping.keys m))"

definition migrate_legacy ::
  "start_spec \<Rightarrow> (string, failure_record) mapping \<Rightarrow> (string, failure_record) mapping" where
  "migrate_legacy spec m =
     (case Mapping.lookup m (legacy_identity spec) of
        None \<Rightarrow> m
      | Some r \<Rightarrow>
          (let m' = Mapping.delete (legacy_identity spec) m in
           if Mapping.lookup m' (spec_identity spec) = None then Mapping.update (spec_identity spec) r m' else m'))"

definition evict_oldest ::
  "start_spec \<Rightarrow> (string, failure_record) mapping \<Rightarrow> (string, failure_record) mapping" where
  "evict_oldest spec m =
     (if Mapping.lookup m (spec_identity spec) = None \<and> max_records \<le> Mapping.size m
      then Mapping.delete (oldest_key m) m else m)"

definition fresh_record :: "failure_kind \<Rightarrow> start_spec \<Rightarrow> failure_record" where
  "fresh_record kind spec = \<lparr>fr_wallpaper_id = ss_wallpaper_id spec, fr_content_hash = ss_content_hash spec,
     fr_failures = 0, fr_quarantined = False, fr_last_failure = kind, fr_last_detail = [],
     fr_updated_unix_seconds = 0\<rparr>"

definition strike_record :: "u32 \<Rightarrow> failure_kind \<Rightarrow> string \<Rightarrow> u64 \<Rightarrow> failure_record \<Rightarrow> failure_record" where
  "strike_record max_failures kind detail unix r =
     (let n = sat_add (fr_failures r) 1 in
      r\<lparr>fr_failures := n, fr_quarantined := max_failures \<le> n, fr_last_failure := kind,
        fr_last_detail := truncate_detail detail, fr_updated_unix_seconds := unix\<rparr>)"

text \<open>The new records and the record of this failure.\<close>

definition strike ::
  "u32 \<Rightarrow> failure_kind \<Rightarrow> string \<Rightarrow> u64 \<Rightarrow> start_spec \<Rightarrow> (string, failure_record) mapping
     \<Rightarrow> (string, failure_record) mapping \<times> failure_record" where
  "strike max_failures kind detail unix spec m =
     (let m2 = evict_oldest spec (migrate_legacy spec m);
          r = strike_record max_failures kind detail unix
                (unwrap_or (fresh_record kind spec) (Mapping.lookup m2 (spec_identity spec)))
      in (Mapping.update (spec_identity spec) r m2, r))"

definition clear_records :: "start_spec \<Rightarrow> (string, failure_record) mapping \<Rightarrow> (string, failure_record) mapping" where
  "clear_records spec m = Mapping.delete (legacy_identity spec) (Mapping.delete (spec_identity spec) m)"

definition quarantined_ids :: "(string, failure_record) mapping \<Rightarrow> string set" where
  "quarantined_ids m = (\<lambda>k. fr_wallpaper_id (the (Mapping.lookup m k))) `
     Set.filter (\<lambda>k. fr_quarantined (the (Mapping.lookup m k))) (Mapping.keys m)"

section \<open>A new build starts with a clean slate\<close>

text \<open>
  opening the store under a build drops exactly the failure records of another build: what it returns
  carries the running build's identity, the same last good frame and kill count as the file, and the
  file's records when the build is unchanged, none otherwise; records dropped are dropped on disk too.
\<close>

theorem open_for_build_correct:
  assumes "open_for_build parse ser facts regular rd io build d = (Inr s', d')"
  shows "\<exists>s. state_open parse facts regular rd = Inr s
    \<and> st_build_id s' = Some build \<and> st_last_good s' = st_last_good s
    \<and> st_forced_kill_count s' = st_forced_kill_count s
    \<and> st_records s' = (if st_build_id s = Some build then st_records s else Mapping.empty)
    \<and> (st_build_id s \<noteq> Some build \<longrightarrow> Mapping.lookup d' state_file_name = Some (ser s'))
    \<and> Mapping.size (st_records s') \<le> max_records"
proof -
  obtain s where s: "state_open parse facts regular rd = Inr s"
    using assms by (cases "state_open parse facts regular rd") (auto simp: open_for_build_def)
  have "Mapping.size (st_records s) \<le> max_records"
    using s by (auto simp: state_open_def state_load_def result_simps fresh_state_def max_records_def
        split: state_read.splits)
  moreover have "Mapping.lookup d' state_file_name = Some (ser s')" if "st_build_id s \<noteq> Some build"
  proof -
    from that s assms have "state_save ser s' io d = (Inr (), d')"
      by (auto simp: open_for_build_def Let_def split: prod.splits sum.splits)
    then show ?thesis
      using daemon_file.write_ok [of state_file_name "ser s'" io d]
      by (auto simp: state_save_def Let_def result_simps split: if_splits prod.splits)
  qed
  ultimately show ?thesis
    using assms s by (intro exI [of _ s])
      (auto simp: open_for_build_def Let_def split: prod.splits sum.splits if_splits)
qed

section \<open>The image holds the frame\<close>

lemma rgb_of_nth:
  "length px = 4 * n \<Longrightarrow> length (rgb_of px) = 3 * n \<and>
     (\<forall>i < n. rgb_of px ! (3 * i) = px ! (4 * i + 2) \<and> rgb_of px ! (3 * i + 1) = px ! (4 * i + 1)
        \<and> rgb_of px ! (3 * i + 2) = px ! (4 * i))"
proof (induction px arbitrary: n rule: rgb_of.induct)
  case (1 b g r a rest)
  then obtain m where n: "n = Suc m" by (cases n) auto
  then have "length rest = 4 * m" using 1(2) by simp
  note ih = 1(1) [OF this]
  show ?case
  proof (intro conjI allI impI)
    show "length (rgb_of (b # g # r # a # rest)) = 3 * n" using ih n by simp
    fix i assume "i < n"
    then show "rgb_of (b # g # r # a # rest) ! (3 * i) = (b # g # r # a # rest) ! (4 * i + 2)"
      "rgb_of (b # g # r # a # rest) ! (3 * i + 1) = (b # g # r # a # rest) ! (4 * i + 1)"
      "rgb_of (b # g # r # a # rest) ! (3 * i + 2) = (b # g # r # a # rest) ! (4 * i)"
      using ih n by (cases i; simp)+
  qed
qed auto

lemma encode_ppm_pixels:
  assumes "encode_ppm s = Inr ppm" "length (fn_pixels s) = 4 * n" "i < n"
  shows "length ppm = length (ppm_header (fn_spec s)) + 3 * n"
    and "take 3 (drop (length (ppm_header (fn_spec s)) + 3 * i) ppm)
       = [fn_pixels s ! (4 * i + 2), fn_pixels s ! (4 * i + 1), fn_pixels s ! (4 * i)]"
proof -
  have p: "ppm = ppm_header (fn_spec s) @ rgb_of (fn_pixels s)"
    using assms(1) by (simp add: encode_ppm_def split: if_splits)
  note r = rgb_of_nth [OF assms(2)]
  show "length ppm = length (ppm_header (fn_spec s)) + 3 * n" using r by (simp add: p)
  have "3 * i + 2 < length (rgb_of (fn_pixels s))" using r assms(3) by simp
  then have "take 3 (drop (3 * i) (rgb_of (fn_pixels s))) = [rgb_of (fn_pixels s) ! (3 * i),
      rgb_of (fn_pixels s) ! (3 * i + 1), rgb_of (fn_pixels s) ! (3 * i + 2)]"
    by (simp add: Cons_nth_drop_Suc [symmetric] numeral_3_eq_3)
  then show "take 3 (drop (length (ppm_header (fn_spec s)) + 3 * i) ppm)
       = [fn_pixels s ! (4 * i + 2), fn_pixels s ! (4 * i + 1), fn_pixels s ! (4 * i)]"
    using r assms(3) by (simp add: p)
qed

section \<open>The fallback survives every failure\<close>

text \<open>The image is the whole encoding of a frame, of the very frame the record describes when \<open>exact\<close>.\<close>

definition frame_of_record :: "snapshot_data \<Rightarrow> last_good_record \<Rightarrow> bool" where
  "frame_of_record snap lg \<longleftrightarrow> fs_width (fn_spec snap) = lg_width lg \<and> fs_height (fn_spec snap) = lg_height lg
     \<and> fn_sequence snap = lg_sequence lg"

definition complete_image :: "bool \<Rightarrow> state_dir \<Rightarrow> last_good_record \<Rightarrow> bool" where
  "complete_image exact d lg \<longleftrightarrow> lg_file lg \<in> {last_good_a, last_good_b}
     \<and> (\<exists>snap ppm. encode_ppm snap = Inr ppm \<and> Mapping.lookup d (lg_file lg) = Some ppm
          \<and> (exact \<longrightarrow> frame_of_record snap lg))"

definition names_complete :: "bool \<Rightarrow> state_dir \<Rightarrow> persisted_state \<Rightarrow> bool" where
  "names_complete exact d s \<longleftrightarrow> pred_option (complete_image exact d) (st_last_good s)"

lemma names_weaken: "names_complete exact d s \<Longrightarrow> names_complete False d s"
  unfolding names_complete_def complete_image_def by (cases "st_last_good s") (simp, simp, blast)

text \<open>What a restarted daemon would find: no state file, or one whose last good frame is a complete image.\<close>

definition disk_complete :: "(u8 list \<Rightarrow> persisted_state option) \<Rightarrow> state_dir \<Rightarrow> bool" where
  "disk_complete parse d \<longleftrightarrow>
     pred_option (\<lambda>bytes. pred_option (names_complete False d) (parse bytes)) (Mapping.lookup d state_file_name)"

text \<open>What the parser reads back from a serialised state has the last good record that was written.\<close>

definition keeps_last_good ::
  "(persisted_state \<Rightarrow> u8 list) \<Rightarrow> (u8 list \<Rightarrow> persisted_state option) \<Rightarrow> bool" where
  "keeps_last_good ser parse \<longleftrightarrow> (\<forall>x y. parse (ser x) = Some y \<longrightarrow> st_last_good y = st_last_good x)"

lemma atomic_write_other:
  "atomic_write name bs io d = (r, d') \<Longrightarrow> n \<noteq> name \<Longrightarrow> hd n \<noteq> CHR ''.'' \<Longrightarrow> Mapping.lookup d' n = Mapping.lookup d n"
  by (auto simp: atomic_write_def write_temporary_def Let_def split: if_splits option.splits sum.splits)

lemma file_names:
  "last_good_a \<noteq> state_file_name" "last_good_b \<noteq> state_file_name" "last_good_a \<noteq> last_good_b"
  "hd last_good_a \<noteq> CHR ''.''" "hd last_good_b \<noteq> CHR ''.''" "hd state_file_name \<noteq> CHR ''.''"
  by (simp_all add: last_good_a_def last_good_b_def state_file_name_def)

lemma atomic_write_or:
  "atomic_write name bs io d = (r, d') \<Longrightarrow> Mapping.lookup d' name = Mapping.lookup d name \<or> Mapping.lookup d' name = Some bs"
  by (rule daemon_file.write_never_partial)

lemma state_save_complete:
  assumes "state_save ser s io d = (r, d')" "keeps_last_good ser parse"
    and "disk_complete parse d" "names_complete exact d s"
  shows "disk_complete parse d' \<and> (\<forall>x. names_complete exact d' x = names_complete exact d x)
    \<and> (r = Inr () \<longrightarrow> Mapping.lookup d' state_file_name = Some (ser s))"
proof (cases "max_state_bytes < length (ser s)")
  case True
  then show ?thesis using assms(1,3) by (auto simp: state_save_def Let_def)
next
  case False
  then obtain q where w: "atomic_write state_file_name (ser s) io d = (q, d')" "r = map_err StateWrite q"
    using assms(1) by (auto simp: state_save_def Let_def split: prod.splits)
  have same: "Mapping.lookup d' n = Mapping.lookup d n" if "n \<in> {last_good_a, last_good_b}" for n
    using atomic_write_other [OF w(1), of n] that file_names by auto
  then have names: "names_complete e d' x = names_complete e d x" for x e
    by (cases "st_last_good x") (auto simp: names_complete_def complete_image_def)
  then have "names_complete False d' = names_complete False d" by blast
  then have "disk_complete parse d'"
    using atomic_write_or [OF w(1)] assms(2,3) names_weaken [OF assms(4)]
    by (cases "parse (ser s)") (auto simp: disk_complete_def names_complete_def keeps_last_good_def)
  moreover have "r = Inr () \<longrightarrow> Mapping.lookup d' state_file_name = Some (ser s)"
    using w daemon_file.write_ok [of state_file_name "ser s" io d] by (cases q) auto
  ultimately show ?thesis using names by blast
qed

lemma save_last_good_complete:
  assumes "save_last_good snap (map_option lg_file (st_last_good s)) io d = (r, d')"
    and "disk_complete parse d" "names_complete exact d s"
  shows "disk_complete parse d' \<and> names_complete exact d' s
    \<and> (\<forall>name. r = Inr name \<longrightarrow> name \<in> {last_good_a, last_good_b}
         \<and> (\<exists>ppm. encode_ppm snap = Inr ppm \<and> Mapping.lookup d' name = Some ppm))"
proof (cases "encode_ppm snap")
  case (Inl e)
  then show ?thesis using assms by (auto simp: save_last_good_def Let_def)
next
  case (Inr ppm)
  define name where "name = next_last_good (map_option lg_file (st_last_good s))"
  obtain q where w: "atomic_write name ppm io d = (q, d')" "r = map_err StateWrite (map_sum id (\<lambda>_. name) q)"
    using assms(1) Inr
    by (cases "atomic_write name ppm io d") (auto simp: save_last_good_def Let_def name_def split: sum.splits)
  have n: "name \<in> {last_good_a, last_good_b}" by (auto simp: name_def next_last_good_def)
  have other: "Mapping.lookup d' x = Mapping.lookup d x"
    if "x \<noteq> name" "x \<in> {last_good_a, last_good_b, state_file_name}" for x
    using atomic_write_other [OF w(1), of x] that file_names by auto
  have "complete_image False d lg \<Longrightarrow> complete_image False d' lg" for lg
    using other [of "lg_file lg"] atomic_write_or [OF w(1)] Inr
    by (cases "lg_file lg = name") (auto simp: complete_image_def)
  then have names: "names_complete False d x \<Longrightarrow> names_complete False d' x" for x
    by (cases "st_last_good x") (auto simp: names_complete_def)
  have kept: "names_complete exact d' s"
  proof (cases "st_last_good s")
    case (Some lg)
    then have "lg_file lg \<noteq> name" using file_names by (simp add: name_def next_last_good_def)
    then show ?thesis
      using other [of "lg_file lg"] assms(3) Some by (auto simp: names_complete_def complete_image_def)
  qed (simp add: names_complete_def)
  have "Mapping.lookup d' state_file_name = Mapping.lookup d state_file_name"
    using other [of state_file_name] n file_names by auto
  then have "disk_complete parse d'"
    using assms(2) names by (auto simp: disk_complete_def option.pred_set)
  moreover have "Mapping.lookup d' name = Some ppm" if "q = Inr u" for u
    using daemon_file.write_ok [of name ppm io d] w(1) that by auto
  ultimately show ?thesis using n kept w(2) Inr by (cases q) auto
qed

lemma persist_last_good_complete:
  assumes "persist_last_good ser spec snap unix io_image io_state (s, d) = (r, s', d')"
    and "keeps_last_good ser parse" "disk_complete parse d" "names_complete exact d s"
  shows "disk_complete parse d' \<and> names_complete exact d' s'
    \<and> (r = Inr () \<longrightarrow> Mapping.lookup d' state_file_name = Some (ser s')
         \<and> (\<exists>lg ppm. st_last_good s' = Some lg \<and> lg_wallpaper_id lg = ss_wallpaper_id spec
              \<and> encode_ppm snap = Inr ppm \<and> Mapping.lookup d' (lg_file lg) = Some ppm))
    \<and> (r \<noteq> Inr () \<longrightarrow> s' = s)"
proof -
  obtain q d1 where i: "save_last_good snap (map_option lg_file (st_last_good s)) io_image d = (q, d1)"
    by (cases "save_last_good snap (map_option lg_file (st_last_good s)) io_image d") simp
  note c1 = save_last_good_complete [OF i assms(3,4)]
  show ?thesis
  proof (cases q)
    case (Inl e)
    then show ?thesis using assms(1) i c1 by (auto simp: persist_last_good_def)
  next
    case (Inr name)
    define lg where "lg = \<lparr>lg_wallpaper_id = ss_wallpaper_id spec, lg_content_hash = ss_content_hash spec,
      lg_width = fs_width (fn_spec snap), lg_height = fs_height (fn_spec snap), lg_sequence = fn_sequence snap,
      lg_file = name, lg_updated_unix_seconds = unix\<rparr>"
    define s1 where "s1 = s\<lparr>st_last_good := Some lg\<rparr>"
    obtain q' d2 where w: "state_save ser s1 io_state d1 = (q', d2)"
      by (cases "state_save ser s1 io_state d1") simp
    obtain ppm where ppm: "name \<in> {last_good_a, last_good_b}" "encode_ppm snap = Inr ppm"
      "Mapping.lookup d1 name = Some ppm"
      using c1 Inr by auto
    have "names_complete exact d1 s1" using ppm by (auto simp: names_complete_def complete_image_def frame_of_record_def s1_def lg_def)
    note c2 = state_save_complete [OF w assms(2) _ this]
    have d2: "Mapping.lookup d2 name = Some ppm"
    proof -
      have "Mapping.lookup d2 name = Mapping.lookup d1 name"
        using w ppm(1) file_names atomic_write_other [of state_file_name "ser s1" io_state d1 _ d2 name]
        by (auto simp: state_save_def Let_def split: if_splits prod.splits)
      then show ?thesis using ppm(3) by simp
    qed
    have "persist_last_good ser spec snap unix io_image io_state (s, d)
        = (case q' of Inl e \<Rightarrow> (Inl e, s, d2) | Inr _ \<Rightarrow> (Inr (), s1, d2))"
      using i w Inr by (cases q') (simp_all add: persist_last_good_def Let_def s1_def lg_def)
    with assms(1) have out: "(case q' of Inl e \<Rightarrow> (Inl e, s, d2) | Inr _ \<Rightarrow> (Inr (), s1, d2)) = (r, s', d')"
      by simp
    show ?thesis
      using c1 c2 out ppm(2) d2 \<open>names_complete exact d1 s1\<close> by (cases q') (auto simp: s1_def lg_def)
  qed
qed

lemma persist_last_good_ok:
  assumes "persist_last_good ser spec snap unix io_image io_state (s, d) = (Inr (), s', d')"
  shows "\<exists>lg ppm. st_last_good s' = Some lg \<and> lg_wallpaper_id lg = ss_wallpaper_id spec
    \<and> encode_ppm snap = Inr ppm \<and> Mapping.lookup d' (lg_file lg) = Some ppm
    \<and> Mapping.lookup d' state_file_name = Some (ser s')"
proof -
  obtain name d1 where i: "save_last_good snap (map_option lg_file (st_last_good s)) io_image d = (Inr name, d1)"
    and w: "state_save ser s' io_state d1 = (Inr (), d')"
    and s': "\<exists>lg. st_last_good s' = Some lg \<and> lg_wallpaper_id lg = ss_wallpaper_id spec \<and> lg_file lg = name"
    using assms
    by (fastforce simp: persist_last_good_def Let_def split: prod.splits sum.splits)
  obtain ppm where ppm: "encode_ppm snap = Inr ppm" "atomic_write name ppm io_image d = (Inr (), d1)"
    "name \<in> {last_good_a, last_good_b}"
    using i by (auto simp: save_last_good_def next_last_good_def Let_def split: prod.splits sum.splits if_splits)
  have "atomic_write state_file_name (ser s') io_state d1 = (Inr (), d')"
    using w by (auto simp: state_save_def Let_def result_simps split: if_splits prod.splits)
  moreover have "Mapping.lookup d1 name = Some ppm" using ppm(2) by (rule daemon_file.write_ok)
  ultimately have "Mapping.lookup d' name = Some ppm" "Mapping.lookup d' state_file_name = Some (ser s')"
    using atomic_write_other [of state_file_name "ser s'" io_state d1 _ d' name] ppm(3) file_names
      daemon_file.write_ok [of state_file_name "ser s'" io_state d1]
    by auto
  with s' ppm(1) show ?thesis by auto
qed

definition sample_snapshot :: snapshot_data where
  "sample_snapshot = \<lparr>fn_spec = sample_spec, fn_sequence = 3, fn_producer_state = StRunning,
     fn_pixels = [1, 2, 3, 255]\<rparr>"

lemma sample_snapshot_ppm: "encode_ppm sample_snapshot = Inr (ppm_header sample_spec @ [3, 2, 1])"
  by (simp add: encode_ppm_def sample_snapshot_def sample_spec_def pixel_bytes_def)

definition sample_last_good :: last_good_record where
  "sample_last_good = \<lparr>lg_wallpaper_id = ''w1'', lg_content_hash = ''h1'', lg_width = 1, lg_height = 1,
     lg_sequence = 3, lg_file = last_good_a, lg_updated_unix_seconds = 9\<rparr>"

lemma open_for_build_correct_witness:
  "st_records (fresh_state\<lparr>st_build_id := Some ''b2''\<rparr>) = Mapping.empty"
proof -
  let ?old = "fresh_state\<lparr>st_build_id := Some ''b1''\<rparr>"
  let ?out = "open_for_build (\<lambda>_. Some ?old) (\<lambda>_. [7]) sample_dir_facts True (StateBytes [1]) sample_write_io ''b2''
      Mapping.empty"
  have "fst ?out = Inr (fresh_state\<lparr>st_build_id := Some ''b2''\<rparr>)"
    by (simp add: open_for_build_def state_open_def state_load_def state_save_def fresh_state_def
        ensure_private_dir_def sample_dir_facts_def sample_write_io_def atomic_write_def max_state_bytes_def
        max_records_def Mapping.size_def Let_def)
  then have "?out = (Inr (fresh_state\<lparr>st_build_id := Some ''b2''\<rparr>), snd ?out)" by (metis prod.collapse)
  from open_for_build_correct [OF this]
  show ?thesis
    by (auto simp: state_open_def state_load_def result_simps ensure_private_dir_def sample_dir_facts_def
        fresh_state_def max_state_bytes_def max_records_def split: if_splits)
qed

section \<open>Strikes\<close>

lemma lookup_size_pos: "finite (Mapping.keys m) \<Longrightarrow> 0 < Mapping.size m \<Longrightarrow> Mapping.keys m \<noteq> {}"
  by (auto simp: Mapping.size_def)

lemma arg_min_list_least: "xs \<noteq> [] \<Longrightarrow> arg_min_list f xs \<in> set xs \<and> (\<forall>y \<in> set xs. f (arg_min_list f xs) \<le> f y)"
  for f :: "'a \<Rightarrow> 'b::linorder"
  using arg_min_list_in [of xs f] f_arg_min_list_f [of xs f] by fastforce

lemma oldest_key_least:
  assumes "finite (Mapping.keys m)" "Mapping.keys m \<noteq> {}"
  shows "oldest_key m \<in> Mapping.keys m"
    and "k \<in> Mapping.keys m \<Longrightarrow> fr_updated_unix_seconds (the (Mapping.lookup m (oldest_key m)))
           \<le> fr_updated_unix_seconds (the (Mapping.lookup m k))"
proof -
  have "sorted_list_of_set (Mapping.keys m) \<noteq> []" using assms by simp
  from arg_min_list_least [OF this, of "\<lambda>k. fr_updated_unix_seconds (the (Mapping.lookup m k))"]
  show "oldest_key m \<in> Mapping.keys m"
    and "k \<in> Mapping.keys m \<Longrightarrow> fr_updated_unix_seconds (the (Mapping.lookup m (oldest_key m)))
           \<le> fr_updated_unix_seconds (the (Mapping.lookup m k))"
    using assms(1) unfolding oldest_key_def by simp_all
qed

definition records_bounded :: "(string, failure_record) mapping \<Rightarrow> bool" where
  "records_bounded m \<longleftrightarrow> finite (Mapping.keys m) \<and> Mapping.size m \<le> max_records"

lemma identity_neq_legacy: "spec_identity spec \<noteq> legacy_identity spec"
  by (simp add: spec_identity_def legacy_identity_def)

lemma records_bounded_delete: "records_bounded m \<Longrightarrow> records_bounded (Mapping.delete k m)"
  using card_Diff1_le [of "Mapping.keys m" k] by (auto simp: records_bounded_def Mapping.size_def)

lemma records_bounded_update:
  assumes "records_bounded m" "Mapping.lookup m k \<noteq> None \<or> Mapping.size m < max_records"
  shows "records_bounded (Mapping.update k r m)"
proof -
  have "card (insert k (Mapping.keys m)) \<le> max_records"
    using assms by (auto simp: records_bounded_def Mapping.size_def keys_lookup card_insert_if)
  then show ?thesis using assms by (simp add: records_bounded_def Mapping.size_def)
qed

lemma records_bounded_clear: "records_bounded m \<Longrightarrow> records_bounded (clear_records spec m)"
  by (simp add: clear_records_def records_bounded_delete)

lemma migrate_lookup:
  "Mapping.lookup (migrate_legacy spec m) k =
     (if k = legacy_identity spec then None
      else if k = spec_identity spec then
        (case Mapping.lookup m k of Some r \<Rightarrow> Some r | None \<Rightarrow> Mapping.lookup m (legacy_identity spec))
      else Mapping.lookup m k)"
  using identity_neq_legacy [of spec]
  by (auto simp: migrate_legacy_def Let_def split: option.splits)

lemma migrate_bounded:
  assumes "records_bounded m"
  shows "records_bounded (migrate_legacy spec m)"
proof (cases "Mapping.lookup m (legacy_identity spec)")
  case (Some r)
  let ?m = "Mapping.delete (legacy_identity spec) m"
  have "legacy_identity spec \<in> Mapping.keys m" using Some by (simp add: keys_lookup)
  then have "Mapping.size ?m < max_records"
    using assms card_Diff1_less [of "Mapping.keys m" "legacy_identity spec"]
    by (auto simp: records_bounded_def Mapping.size_def)
  then show ?thesis
    using Some records_bounded_delete [OF assms] records_bounded_update [of ?m]
    by (simp add: migrate_legacy_def Let_def)
qed (simp add: migrate_legacy_def assms)

lemma migrate_same:
  "Mapping.lookup m (legacy_identity spec) = None \<Longrightarrow> migrate_legacy spec m = m"
  by (simp add: migrate_legacy_def)

lemma evict_room:
  assumes "records_bounded m"
  shows "records_bounded (evict_oldest spec m)"
    and "Mapping.lookup (evict_oldest spec m) (spec_identity spec) \<noteq> None
      \<or> Mapping.size (evict_oldest spec m) < max_records"
proof -
  show "records_bounded (evict_oldest spec m)"
    using assms by (simp add: evict_oldest_def records_bounded_delete)
  show "Mapping.lookup (evict_oldest spec m) (spec_identity spec) \<noteq> None
      \<or> Mapping.size (evict_oldest spec m) < max_records"
  proof (cases "Mapping.lookup m (spec_identity spec) = None \<and> max_records \<le> Mapping.size m")
    case True
    then have "Mapping.keys m \<noteq> {}" by (auto simp: Mapping.size_def max_records_def)
    then have "oldest_key m \<in> Mapping.keys m" using oldest_key_least(1) assms records_bounded_def by blast
    then show ?thesis
      using True assms card_Diff1_less [of "Mapping.keys m" "oldest_key m"]
      by (auto simp: evict_oldest_def records_bounded_def Mapping.size_def)
  next
    case False
    then show ?thesis by (auto simp: evict_oldest_def)
  qed
qed

lemma evict_lookup:
  assumes "records_bounded m" "Mapping.lookup (evict_oldest spec m) k \<noteq> Mapping.lookup m k"
  shows "Mapping.lookup (evict_oldest spec m) k = None \<and> Mapping.lookup m (spec_identity spec) = None
    \<and> max_records \<le> Mapping.size m
    \<and> (\<forall>j q. Mapping.lookup m j = Some q \<longrightarrow>
         fr_updated_unix_seconds (the (Mapping.lookup m k)) \<le> fr_updated_unix_seconds q)"
proof -
  have c: "Mapping.lookup m (spec_identity spec) = None" "max_records \<le> Mapping.size m" "k = oldest_key m"
    using assms(2) by (auto simp: evict_oldest_def split: if_splits)
  have "fr_updated_unix_seconds (the (Mapping.lookup m k)) \<le> fr_updated_unix_seconds q"
    if "Mapping.lookup m j = Some q" for j q
  proof -
    have "j \<in> Mapping.keys m" using that by (simp add: keys_lookup)
    with oldest_key_least(2) [of m j] assms(1) that show ?thesis
      unfolding c(3) records_bounded_def by fastforce
  qed
  with c show ?thesis by (simp add: evict_oldest_def)
qed

text \<open>What a strike counts from: the record under either key.\<close>

definition known_record :: "start_spec \<Rightarrow> (string, failure_record) mapping \<Rightarrow> failure_record option" where
  "known_record spec m =
     (case Mapping.lookup m (spec_identity spec) of
        Some q \<Rightarrow> Some q | None \<Rightarrow> Mapping.lookup m (legacy_identity spec))"

lemma record_of_known: "record_of s spec = known_record spec (st_records s)"
  by (simp add: record_of_def known_record_def)

lemma strike_lookup:
  assumes "records_bounded m"
  shows "Mapping.lookup (evict_oldest spec (migrate_legacy spec m)) (spec_identity spec) = known_record spec m"
    and "Mapping.lookup (evict_oldest spec (migrate_legacy spec m)) (legacy_identity spec) = None"
proof -
  note e = evict_lookup [OF migrate_bounded [OF assms], of spec spec]
  have id: "Mapping.lookup (migrate_legacy spec m) (spec_identity spec) = known_record spec m"
    using identity_neq_legacy [of spec] by (simp add: migrate_lookup known_record_def)
  show "Mapping.lookup (evict_oldest spec (migrate_legacy spec m)) (spec_identity spec) = known_record spec m"
    using e [of "spec_identity spec"] id by metis
  show "Mapping.lookup (evict_oldest spec (migrate_legacy spec m)) (legacy_identity spec) = None"
    using e [of "legacy_identity spec"] by (metis migrate_lookup)
qed

lemma strike_counts:
  assumes "records_bounded m" "strike mx kind detail unix spec m = (m', r)"
  shows "known_record spec m' = Some r"
    and "Mapping.lookup m' (spec_identity spec) = Some r" "Mapping.lookup m' (legacy_identity spec) = None"
    and "fr_failures r = sat_add (case known_record spec m of Some q \<Rightarrow> fr_failures q | None \<Rightarrow> 0) 1"
    and "fr_quarantined r \<longleftrightarrow> mx \<le> fr_failures r"
    and "fr_last_failure r = kind" "fr_last_detail r = truncate_detail detail"
  using assms(2) strike_lookup [OF assms(1), of spec] identity_neq_legacy [of spec]
  by (cases "known_record spec m";
      auto simp: strike_def Let_def strike_record_def fresh_record_def known_record_def)+

text \<open>
  a failure is one strike against exactly one identity: the count of its record (or of the record under
  its legacy key, which moves) grows by one, it is quarantined exactly when the count has reached the
  budget, at most 256 records remain, and any other record is untouched, except that a new identity
  evicts the record updated longest ago when 256 exist.
\<close>

theorem strike_correct:
  assumes "records_bounded m" "strike mx kind detail unix spec m = (m', r)"
    and "previous = known_record spec m"
  shows "records_bounded m' \<and> Mapping.lookup m' (spec_identity spec) = Some r
    \<and> Mapping.lookup m' (legacy_identity spec) = None
    \<and> fr_failures r = sat_add (case previous of Some q \<Rightarrow> fr_failures q | None \<Rightarrow> 0) 1
    \<and> (fr_quarantined r \<longleftrightarrow> mx \<le> fr_failures r)
    \<and> (\<forall>k. k \<noteq> spec_identity spec \<longrightarrow> k \<noteq> legacy_identity spec \<longrightarrow> Mapping.lookup m' k \<noteq> Mapping.lookup m k \<longrightarrow>
         Mapping.lookup m' k = None \<and> previous = None \<and> max_records \<le> Mapping.size m
         \<and> (\<forall>j q. Mapping.lookup m j = Some q \<longrightarrow>
              fr_updated_unix_seconds (the (Mapping.lookup m k)) \<le> fr_updated_unix_seconds q))"
proof -
  define m1 where "m1 = migrate_legacy spec m"
  define m2 where "m2 = evict_oldest spec m1"
  have m': "m' = Mapping.update (spec_identity spec) r m2"
    and r: "r = strike_record mx kind detail unix (unwrap_or (fresh_record kind spec) (Mapping.lookup m2 (spec_identity spec)))"
    using assms(2) by (auto simp: strike_def Let_def m1_def m2_def)
  have b1: "records_bounded m1" using assms(1) by (simp add: m1_def migrate_bounded)
  note room = evict_room [OF b1, of spec, folded m2_def]
  have "records_bounded m'" unfolding m' using room by (intro records_bounded_update)
  moreover have "Mapping.lookup m' k = None \<and> previous = None \<and> max_records \<le> Mapping.size m
         \<and> (\<forall>j q. Mapping.lookup m j = Some q \<longrightarrow>
              fr_updated_unix_seconds (the (Mapping.lookup m k)) \<le> fr_updated_unix_seconds q)"
    if k: "k \<noteq> spec_identity spec" "k \<noteq> legacy_identity spec" "Mapping.lookup m' k \<noteq> Mapping.lookup m k" for k
  proof -
    have k1: "Mapping.lookup m1 k = Mapping.lookup m k" using k by (simp add: m1_def migrate_lookup)
    then have "Mapping.lookup m2 k \<noteq> Mapping.lookup m1 k" using k by (simp add: m')
    note e = evict_lookup [OF b1 this [unfolded m2_def], folded m2_def]
    then have none: "previous = None"
      using assms(3) identity_neq_legacy [of spec] by (simp add: m1_def migrate_lookup known_record_def)
    then have "Mapping.lookup m (legacy_identity spec) = None"
      using assms(3) by (auto simp: known_record_def split: option.splits)
    then have "m1 = m" by (simp add: m1_def migrate_same)
    with e none k show ?thesis by (simp add: m')
  qed
  ultimately show ?thesis using strike_counts [OF assms(1,2)] assms(3) by blast
qed

lemma strike_correct_witness:
  "fr_quarantined (snd (strike 1 ProcessExit ''exit'' 5 sample_start Mapping.empty))
   \<and> \<not> fr_quarantined (snd (strike 3 ProcessExit ''exit'' 5 sample_start Mapping.empty))"
proof -
  have b: "records_bounded Mapping.empty" by (simp add: records_bounded_def Mapping.size_def)
  have "fr_failures (snd (strike mx ProcessExit ''exit'' 5 sample_start Mapping.empty)) = 1
      \<and> (fr_quarantined (snd (strike mx ProcessExit ''exit'' 5 sample_start Mapping.empty)) \<longleftrightarrow> mx \<le> 1)" for mx
    using strike_correct [OF b surjective_pairing refl, of mx ProcessExit "''exit''" 5 sample_start]
    by (simp add: sat_add_def known_record_def)
  then show ?thesis by (simp add: word_le_nat_alt)
qed

end
