(* ===== verification/Worker_Pipes.thy ===== *)
theory Worker_Pipes
  imports Input_Protocol Persist "HOL-Library.Sublist"
begin

text \<open>
  \<open>crates/kwe-daemon/src/supervisor.rs\<close>, the three pipes of a worker: the bounded ring of its diagnostics,
  the latest-wins queue of control messages onto its input, and the acknowledgements it writes back.
  The result of each \<open>read\<close> and \<open>write\<close> call is a value; a list of reads that ends stands for a pipe
  that would block.
\<close>

section \<open>Diagnostics\<close>

definition stderr_ring_lines :: nat where "stderr_ring_lines = 64"
definition stderr_ring_bytes :: nat where "stderr_ring_bytes = 16384"

record stderr_ring =
  sr_tail :: "string list"
  sr_tail_bytes :: nat
  sr_dropped_bytes :: u64
  sr_pending :: "u8 list"

definition ring_default :: stderr_ring where
  "ring_default = \<lparr>sr_tail = [], sr_tail_bytes = 0, sr_dropped_bytes = 0, sr_pending = []\<rparr>"

definition over_budget :: "stderr_ring \<Rightarrow> bool" where
  "over_budget r \<longleftrightarrow> stderr_ring_lines < length (sr_tail r)
     \<or> stderr_ring_bytes < sr_tail_bytes r + length (sr_pending r)"

function enforce_budget :: "stderr_ring \<Rightarrow> stderr_ring" where
  "enforce_budget r =
     (if \<not> over_budget r then r
      else case sr_tail r of
        [] \<Rightarrow> r\<lparr>sr_dropped_bytes := sat_add (sr_dropped_bytes r) (word_of_nat (length (sr_pending r))),
              sr_pending := []\<rparr>
      | evicted # rest \<Rightarrow>
          enforce_budget (r\<lparr>sr_tail := rest, sr_tail_bytes := sr_tail_bytes r - length evicted,
            sr_dropped_bytes := sat_add (sr_dropped_bytes r) (word_of_nat (length evicted))\<rparr>))"
  by auto

termination enforce_budget
  by (relation "measure (\<lambda>r. length (sr_tail r))") auto

declare enforce_budget.simps [simp del]

definition push_line :: "u8 list \<Rightarrow> stderr_ring \<Rightarrow> stderr_ring" where
  "push_line line r =
     (let text = from_utf8_lossy (bytes_to_str (butlast line)) in
      enforce_budget (r\<lparr>sr_tail_bytes := sr_tail_bytes r + length text, sr_tail := sr_tail r @ [text]\<rparr>))"

lemma enforce_pending: "length (sr_pending (enforce_budget r)) \<le> length (sr_pending r)"
  by (induction r rule: enforce_budget.induct) (subst enforce_budget.simps, auto split: list.splits)

lemma push_line_pending: "length (sr_pending (push_line line r)) \<le> length (sr_pending r)"
  using enforce_pending by (fastforce simp: push_line_def Let_def intro: order_trans)

text \<open>The loop that drains the complete lines of the pending bytes.\<close>

function push_lines :: "stderr_ring \<Rightarrow> stderr_ring" where
  "push_lines r =
     (if newline \<in> set (sr_pending r)
      then push_lines (push_line (takeWhile (\<lambda>b. b \<noteq> newline) (sr_pending r) @ [newline])
             (r\<lparr>sr_pending := tl (dropWhile (\<lambda>b. b \<noteq> newline) (sr_pending r))\<rparr>))
      else r)"
  by auto

lemma dropWhile_shorter:
  "x \<in> set xs \<Longrightarrow> length (tl (dropWhile (\<lambda>b. b \<noteq> x) xs)) < length xs"
  by (induction xs) (auto simp: less_Suc_eq)

termination push_lines
proof (relation "measure (\<lambda>r. length (sr_pending r))", goal_cases)
  case (2 r)
  let ?r = "r\<lparr>sr_pending := tl (dropWhile (\<lambda>b. b \<noteq> newline) (sr_pending r))\<rparr>"
  show ?case
    using push_line_pending [of "takeWhile (\<lambda>b. b \<noteq> newline) (sr_pending r) @ [newline]" ?r]
      dropWhile_shorter [OF 2] by simp
qed simp

declare push_lines.simps [simp del]

definition push_bytes :: "u8 list \<Rightarrow> stderr_ring \<Rightarrow> stderr_ring" where
  "push_bytes bytes r = enforce_budget (push_lines (r\<lparr>sr_pending := sr_pending r @ bytes\<rparr>))"

datatype pipe_read = PipeBytes "u8 list" | PipeBlocked | PipeFailed

definition chunk_bytes :: nat where "chunk_bytes = 512"
definition stderr_read_bytes_per_tick :: nat where "stderr_read_bytes_per_tick = 65536"

fun drain_loop :: "nat \<Rightarrow> nat \<Rightarrow> pipe_read list \<Rightarrow> stderr_ring \<Rightarrow> stderr_ring" where
  "drain_loop budget done_bytes [] r = r"
| "drain_loop budget done_bytes (rd # rds) r =
     (if budget \<le> done_bytes then r
      else case rd of
        PipeBytes bs \<Rightarrow>
          (let chunk = take chunk_bytes bs in
           if chunk = [] then r
           else drain_loop budget (done_bytes + length chunk) rds (push_bytes chunk r))
      | _ \<Rightarrow> r)"

definition drain_stderr :: "nat \<Rightarrow> pipe_read list \<Rightarrow> stderr_ring \<Rightarrow> stderr_ring" where
  "drain_stderr budget reads r = drain_loop budget 0 reads r"

definition append_stderr_tail :: "string \<Rightarrow> stderr_ring \<Rightarrow> string" where
  "append_stderr_tail detail r =
     (if sr_tail r = [] then detail
      else detail @ '' stderr=['' @ truncate_detail (str_join '' | '' (rev (take 8 (rev (sr_tail r))))) @ '']'')"

section \<open>The ring is bounded\<close>

definition ring_counts :: "stderr_ring \<Rightarrow> bool" where
  "ring_counts r \<longleftrightarrow> sr_tail_bytes r = sum_list (map length (sr_tail r))"

definition ring_ok :: "stderr_ring \<Rightarrow> bool" where
  "ring_ok r \<longleftrightarrow> ring_counts r \<and> length (sr_tail r) \<le> 64 \<and> sr_tail_bytes r + length (sr_pending r) \<le> 16384
     \<and> newline \<notin> set (sr_pending r)"

lemma enforce_counts: "ring_counts r \<Longrightarrow> ring_counts (enforce_budget r)"
proof (induction r rule: enforce_budget.induct)
  case (1 r)
  then show ?case
    by (subst enforce_budget.simps) (auto simp: ring_counts_def split: list.splits)
qed

lemma enforce_within: "ring_counts r \<Longrightarrow> \<not> over_budget (enforce_budget r)"
proof (induction r rule: enforce_budget.induct)
  case (1 r)
  show ?case
  proof (cases "over_budget r")
    case True
    show ?thesis
    proof (cases "sr_tail r")
      case Nil
      then show ?thesis using True 1(2)
        by (subst enforce_budget.simps) (simp add: over_budget_def ring_counts_def)
    next
      case (Cons e es)
      then have "ring_counts (r\<lparr>sr_tail := es, sr_tail_bytes := sr_tail_bytes r - length e,
          sr_dropped_bytes := sat_add (sr_dropped_bytes r) (word_of_nat (length e))\<rparr>)"
        using 1(2) by (simp add: ring_counts_def)
      from 1(1) [OF _ Cons this] True Cons show ?thesis by (subst enforce_budget.simps) simp
    qed
  next
    case False
    then show ?thesis by (subst enforce_budget.simps) simp
  qed
qed

lemma enforce_drops: "\<exists>k. sr_tail (enforce_budget r) = drop k (sr_tail r)"
proof (induction r rule: enforce_budget.induct)
  case (1 r)
  show ?case
  proof (cases "over_budget r \<and> sr_tail r \<noteq> []")
    case True
    then obtain e es where es: "sr_tail r = e # es" by (cases "sr_tail r") auto
    have "\<exists>k. sr_tail (enforce_budget r) = drop k es"
      using 1 [OF _ es] True es by (subst enforce_budget.simps) simp
    then show ?thesis unfolding es by (metis drop_Suc_Cons)
  next
    case False
    then show ?thesis by (subst enforce_budget.simps) (auto intro: exI [of _ 0] split: list.splits)
  qed
qed

lemma enforce_keeps_pending:
  "ring_counts r \<Longrightarrow> length (sr_pending r) \<le> 16384 \<Longrightarrow> sr_pending (enforce_budget r) = sr_pending r"
proof (induction r rule: enforce_budget.induct)
  case (1 r)
  show ?case
  proof (cases "over_budget r \<and> sr_tail r \<noteq> []")
    case True
    then obtain e es where es: "sr_tail r = e # es" by (cases "sr_tail r") auto
    then have "ring_counts (r\<lparr>sr_tail := es, sr_tail_bytes := sr_tail_bytes r - length e,
        sr_dropped_bytes := sat_add (sr_dropped_bytes r) (word_of_nat (length e))\<rparr>)"
      using 1(2) by (simp add: ring_counts_def)
    from 1(1) [OF _ es this] True 1(3) es show ?thesis by (subst enforce_budget.simps) simp
  next
    case False
    then show ?thesis using 1(2,3)
      by (subst enforce_budget.simps)
        (auto simp: over_budget_def ring_counts_def stderr_ring_bytes_def stderr_ring_lines_def split: list.splits)
  qed
qed

lemma enforce_pending_cases: "sr_pending (enforce_budget r) = sr_pending r \<or> sr_pending (enforce_budget r) = []"
proof (induction r rule: enforce_budget.induct)
  case (1 r)
  then show ?case by (subst (1 2) enforce_budget.simps) (auto split: list.splits)
qed

lemma ring_counts_pending [simp]: "ring_counts (r\<lparr>sr_pending := x\<rparr>) \<longleftrightarrow> ring_counts r"
  by (simp add: ring_counts_def)

lemma push_line_counts: "ring_counts r \<Longrightarrow> ring_counts (push_line line r)"
  unfolding push_line_def Let_def by (rule enforce_counts) (simp add: ring_counts_def)

lemma push_lines_counts: "ring_counts r \<Longrightarrow> ring_counts (push_lines r) \<and> newline \<notin> set (sr_pending (push_lines r))"
proof (induction r rule: push_lines.induct)
  case (1 r)
  then show ?case
    by (cases "newline \<in> set (sr_pending r)")
      (simp_all add: push_lines.simps [of r] push_line_counts)
qed

lemma push_bytes_ok:
  assumes "ring_ok r"
  shows "ring_ok (push_bytes bs r)"
proof -
  have "ring_counts (r\<lparr>sr_pending := sr_pending r @ bs\<rparr>)"
    using assms by (simp add: ring_ok_def ring_counts_def)
  from push_lines_counts [OF this] show ?thesis
    using enforce_counts enforce_within enforce_pending_cases [of "push_lines (r\<lparr>sr_pending := sr_pending r @ bs\<rparr>)"]
    by (auto simp: push_bytes_def ring_ok_def over_budget_def stderr_ring_lines_def
        stderr_ring_bytes_def not_less)
qed

lemma drain_ok: "ring_ok r \<Longrightarrow> ring_ok (drain_loop budget n reads r)"
  by (induction reads arbitrary: n r) (auto simp: Let_def push_bytes_ok split: pipe_read.splits)

lemma ring_default_ok: "ring_ok ring_default"
  by (simp add: ring_ok_def ring_counts_def ring_default_def)

text \<open>The complete lines of a byte sequence and what follows the last newline.\<close>

fun lines_of :: "u8 list \<Rightarrow> u8 list list \<times> u8 list" where
  "lines_of [] = ([], [])"
| "lines_of (b # bs) =
     (case lines_of bs of (ls, rest) \<Rightarrow>
        if b = newline then ([] # ls, rest)
        else case ls of [] \<Rightarrow> ([], b # rest) | l # ls' \<Rightarrow> ((b # l) # ls', rest))"

lemma lines_of_none: "newline \<notin> set bs \<Longrightarrow> lines_of bs = ([], bs)"
  by (induction bs) auto

lemma lines_of_line:
  "newline \<in> set bs \<Longrightarrow> lines_of bs =
     (takeWhile (\<lambda>b. b \<noteq> newline) bs # fst (lines_of (tl (dropWhile (\<lambda>b. b \<noteq> newline) bs))),
      snd (lines_of (tl (dropWhile (\<lambda>b. b \<noteq> newline) bs))))"
  by (induction bs) (auto split: prod.splits)

lemma length_lines_rest: "length (snd (lines_of xs)) \<le> length xs"
  by (induction xs) (auto split: prod.splits list.splits)

definition line_text :: "u8 list \<Rightarrow> string" where "line_text l = from_utf8_lossy (bytes_to_str l)"

lemma push_line_effect:
  assumes "ring_counts r" "length (sr_pending r) \<le> 16384"
  shows "sr_pending (push_line (l @ [newline]) r) = sr_pending r"
    and "\<exists>k. sr_tail (push_line (l @ [newline]) r) = drop k (sr_tail r @ [line_text l])"
proof -
  let ?t = "line_text l"
  let ?r = "r\<lparr>sr_tail_bytes := sr_tail_bytes r + length ?t, sr_tail := sr_tail r @ [?t]\<rparr>"
  have e: "push_line (l @ [newline]) r = enforce_budget ?r" by (simp add: push_line_def line_text_def Let_def)
  have c: "ring_counts ?r" "length (sr_pending ?r) \<le> 16384" using assms by (simp_all add: ring_counts_def)
  from enforce_keeps_pending [OF c] show "sr_pending (push_line (l @ [newline]) r) = sr_pending r" by (simp add: e)
  from enforce_drops [of ?r] show "\<exists>k. sr_tail (push_line (l @ [newline]) r) = drop k (sr_tail r @ [?t])"
    by (simp add: e)
qed

lemma push_lines_effect:
  "ring_counts r \<Longrightarrow> length (sr_pending r) \<le> 16384 \<Longrightarrow>
     sr_pending (push_lines r) = snd (lines_of (sr_pending r))
     \<and> (\<exists>k. sr_tail (push_lines r) = drop k (sr_tail r @ map line_text (fst (lines_of (sr_pending r)))))"
proof (induction r rule: push_lines.induct)
  case (1 r)
  show ?case
  proof (cases "newline \<in> set (sr_pending r)")
    case True
    define l where "l = takeWhile (\<lambda>b. b \<noteq> newline) (sr_pending r)"
    define r1 where "r1 = r\<lparr>sr_pending := tl (dropWhile (\<lambda>b. b \<noteq> newline) (sr_pending r))\<rparr>"
    have r1: "ring_counts r1" "length (sr_pending r1) \<le> 16384"
      using 1(2,3) dropWhile_shorter [OF True] by (simp_all add: r1_def)
    note eff = push_line_effect [OF r1, of l]
    obtain k1 where k1: "sr_tail (push_line (l @ [newline]) r1) = drop k1 (sr_tail r @ [line_text l])"
      using eff(2) by (auto simp: r1_def)
    have step: "push_lines r = push_lines (push_line (l @ [newline]) r1)"
      using True by (simp add: push_lines.simps [of r] l_def r1_def)
    have "ring_counts (push_line (l @ [newline]) r1)" using r1(1) by (rule push_line_counts)
    then obtain k2 where k2: "sr_tail (push_lines r)
        = drop k2 (drop k1 (sr_tail r @ [line_text l]) @ map line_text (fst (lines_of (sr_pending r1))))"
      and p2: "sr_pending (push_lines r) = snd (lines_of (sr_pending r1))"
      using 1(1) [OF True] r1(2) eff(1) k1 unfolding step l_def r1_def by auto
    have "drop k2 (drop k1 xs @ ys) = drop (k2 + min k1 (length xs)) (xs @ ys)" for xs ys :: "string list"
      by (cases "k1 \<le> length xs") (simp_all add: min_def)
    then obtain k where k: "sr_tail (push_lines r)
        = drop k (sr_tail r @ line_text l # map line_text (fst (lines_of (sr_pending r1))))"
      using k2 by (metis append.assoc append_Cons append_Nil)
    have "lines_of (sr_pending r) = (l # fst (lines_of (sr_pending r1)), snd (lines_of (sr_pending r1)))"
      using lines_of_line [OF True] by (simp add: l_def r1_def)
    with k p2 show ?thesis by auto
  next
    case False
    then show ?thesis by (auto simp: push_lines.simps [of r] lines_of_none intro: exI [of _ 0])
  qed
qed

text \<open>
  the diagnostics ring stays within 64 lines and 16 KiB whatever is pushed, its byte count is exact
  (so its subtraction never underflows), and while the unterminated line fits the budget it holds the
  newest lines: the old lines followed by the pushed ones with only a prefix evicted.
\<close>

theorem stderr_ring_bounded:
  assumes "ring_ok r"
  shows "ring_ok (push_bytes bs r) \<and> ring_ok (drain_stderr budget reads r)
    \<and> (length (sr_pending r @ bs) \<le> 16384 \<longrightarrow>
        sr_pending (push_bytes bs r) = snd (lines_of (sr_pending r @ bs))
        \<and> (\<exists>k. sr_tail (push_bytes bs r) = drop k (sr_tail r @ map line_text (fst (lines_of (sr_pending r @ bs))))))"
proof (intro conjI impI)
  show "ring_ok (push_bytes bs r)" by (rule push_bytes_ok [OF assms])
  show "ring_ok (drain_stderr budget reads r)" unfolding drain_stderr_def by (rule drain_ok [OF assms])
next
  assume le: "length (sr_pending r @ bs) \<le> 16384"
  let ?r = "r\<lparr>sr_pending := sr_pending r @ bs\<rparr>"
  have c: "ring_counts ?r" using assms by (simp add: ring_ok_def)
  have "length (sr_pending ?r) \<le> 16384" using le by simp
  note eff = push_lines_effect [OF c this]
  have "length (sr_pending (push_lines ?r)) \<le> 16384"
    using eff le length_lines_rest [of "sr_pending r @ bs"] by simp
  with push_lines_counts [OF c] have keep: "sr_pending (push_bytes bs r) = sr_pending (push_lines ?r)"
    using enforce_keeps_pending by (simp add: push_bytes_def)
  then show "sr_pending (push_bytes bs r) = snd (lines_of (sr_pending r @ bs))" using eff by simp
  obtain k1 k2 where "sr_tail (push_lines ?r) = drop k1 (sr_tail r @ map line_text (fst (lines_of (sr_pending r @ bs))))"
    "sr_tail (push_bytes bs r) = drop k2 (sr_tail (push_lines ?r))"
    using eff enforce_drops [of "push_lines ?r"] by (auto simp: push_bytes_def)
  then show "\<exists>k. sr_tail (push_bytes bs r)
      = drop k (sr_tail r @ map line_text (fst (lines_of (sr_pending r @ bs))))"
    by (metis drop_drop)
qed

lemma stderr_ring_bounded_witness:
  "ring_ok (push_bytes [104, 105, 10, 33] ring_default) \<and> sr_pending (push_bytes [104, 105, 10, 33] ring_default) = [33]"
  using stderr_ring_bounded [OF ring_default_ok, of "[104, 105, 10, 33]" 0 "[]"]
  by (simp add: ring_default_def newline_def)

section \<open>Control messages\<close>

datatype write_call = Wrote nat | WriteBlocked | WriteError

datatype pipe_write = Written | WouldBlock

datatype pipe_error = OutsideBound | PartialWrite | PipeBroken

definition try_write_input :: "u8 list \<Rightarrow> write_call \<Rightarrow> (pipe_error, pipe_write) result" where
  "try_write_input bytes call =
     (if bytes = [] \<or> max_message_bytes < length bytes then Inl OutsideBound
      else case call of
        Wrote n \<Rightarrow> if n = length bytes then Inr Written else Inl PartialWrite
      | WriteBlocked \<Rightarrow> Inr WouldBlock
      | WriteError \<Rightarrow> Inl PipeBroken)"

text \<open>The result, the pending message and the count of coalesced messages.\<close>

definition queue_control_message ::
  "write_call \<Rightarrow> u8 list \<Rightarrow> u8 list option \<Rightarrow> u64
     \<Rightarrow> (pipe_error, unit) result \<times> u8 list option \<times> u64" where
  "queue_control_message call bytes pending coalesced =
     (let coalesced' = (if pending \<noteq> None then sat_add coalesced 1 else coalesced) in
      case try_write_input bytes call of
        Inl e \<Rightarrow> (Inl e, None, coalesced')
      | Inr Written \<Rightarrow> (Inr (), None, coalesced')
      | Inr WouldBlock \<Rightarrow> (Inr (), Some bytes, coalesced'))"

definition flush_pending :: "write_call \<Rightarrow> u8 list option \<Rightarrow> u64 \<Rightarrow> u8 list option \<times> u64" where
  "flush_pending call pending errors =
     (case pending of
        None \<Rightarrow> (None, errors)
      | Some bytes \<Rightarrow>
          (case try_write_input bytes call of
             Inr Written \<Rightarrow> (None, errors)
           | Inr WouldBlock \<Rightarrow> (Some bytes, errors)
           | Inl _ \<Rightarrow> (None, sat_add errors 1)))"

text \<open>
  One stream of a worker over time: messages are queued and the pending one is flushed. Beside the
  fields of the code the state records the messages offered, those the pipe took, and those lost to a
  failed write.
\<close>

datatype channel_op = OpQueue "u8 list" write_call | OpFlush write_call

record channel =
  cn_pending :: "u8 list option"
  cn_coalesced :: u64
  cn_errors :: u64
  cn_offered :: "u8 list list"
  cn_taken :: "u8 list list"
  cn_failed :: nat

definition taken_by :: "u8 list \<Rightarrow> write_call \<Rightarrow> u8 list list" where
  "taken_by bytes call = (if try_write_input bytes call = Inr Written then [bytes] else [])"

definition failed_by :: "u8 list \<Rightarrow> write_call \<Rightarrow> nat" where
  "failed_by bytes call = (case try_write_input bytes call of Inl _ \<Rightarrow> 1 | Inr _ \<Rightarrow> 0)"

fun channel_step :: "channel \<Rightarrow> channel_op \<Rightarrow> channel" where
  "channel_step c (OpQueue bytes call) =
     (case queue_control_message call bytes (cn_pending c) (cn_coalesced c) of (_, p, n) \<Rightarrow>
        c\<lparr>cn_pending := p, cn_coalesced := n, cn_offered := cn_offered c @ [bytes],
          cn_taken := cn_taken c @ taken_by bytes call, cn_failed := cn_failed c + failed_by bytes call\<rparr>)"
| "channel_step c (OpFlush call) =
     (case flush_pending call (cn_pending c) (cn_errors c) of (p, n) \<Rightarrow>
        (case cn_pending c of
           None \<Rightarrow> c\<lparr>cn_pending := p, cn_errors := n\<rparr>
         | Some bytes \<Rightarrow>
             c\<lparr>cn_pending := p, cn_errors := n, cn_taken := cn_taken c @ taken_by bytes call,
               cn_failed := cn_failed c + failed_by bytes call\<rparr>))"

definition channel_start :: channel where
  "channel_start = \<lparr>cn_pending = None, cn_coalesced = 0, cn_errors = 0, cn_offered = [], cn_taken = [],
     cn_failed = 0\<rparr>"

definition pending_list :: "u8 list option \<Rightarrow> u8 list list" where
  "pending_list p = (case p of None \<Rightarrow> [] | Some m \<Rightarrow> [m])"

text \<open>Taken messages and the pending one are offered messages in order; a pending one is the newest.\<close>

definition channel_inv :: "channel \<Rightarrow> bool" where
  "channel_inv c \<longleftrightarrow>
     subseq (cn_taken c) (if cn_pending c = None then cn_offered c else butlast (cn_offered c))
     \<and> (\<forall>m. cn_pending c = Some m \<longrightarrow> cn_offered c \<noteq> [] \<and> last (cn_offered c) = m)
     \<and> (length (cn_offered c) < 2 ^ 64 \<longrightarrow>
          length (cn_offered c) = length (cn_taken c) + length (pending_list (cn_pending c))
            + unat (cn_coalesced c) + cn_failed c)"

lemma try_write_cases:
  obtains (written) "try_write_input bytes call = Inr Written" "taken_by bytes call = [bytes]" "failed_by bytes call = 0"
  | (blocked) "try_write_input bytes call = Inr WouldBlock" "taken_by bytes call = []" "failed_by bytes call = 0"
  | (error) e where "try_write_input bytes call = Inl e" "taken_by bytes call = []" "failed_by bytes call = 1"
proof (cases "try_write_input bytes call")
  case (Inl e)
  then show ?thesis using error by (simp add: taken_by_def failed_by_def)
next
  case (Inr w)
  then show ?thesis using written blocked by (cases w) (simp_all add: taken_by_def failed_by_def)
qed

lemma subseq_butlast: "xs \<noteq> [] \<Longrightarrow> subseq ys (butlast xs) \<Longrightarrow> subseq (ys @ [last xs]) xs"
  by (metis append_butlast_last_id subseq_append)

lemma subseq_butlast': "subseq ys (butlast xs) \<Longrightarrow> subseq ys xs"
  by (cases xs rule: rev_cases) (auto intro: subseq_rev_drop_many)

lemma channel_step_inv: "channel_inv c \<Longrightarrow> channel_inv (channel_step c op)"
proof (cases op)
  case (OpQueue bytes call)
  assume inv: "channel_inv c"
  have sub: "subseq (cn_taken c) (cn_offered c)"
    using inv subseq_butlast' by (auto simp: channel_inv_def split: if_splits)
  have sub': "subseq (cn_taken c) (cn_offered c @ [bytes])" using sub by (simp add: subseq_rev_drop_many)
  have co: "unat (sat_add (cn_coalesced c) 1) = unat (cn_coalesced c) + 1"
    if "length (cn_offered c) + 1 < 2 ^ 64" "cn_pending c \<noteq> None"
  proof -
    have "unat (cn_coalesced c) + 1 < 2 ^ 64" using inv that by (auto simp: channel_inv_def pending_list_def)
    then show ?thesis by (simp add: unat_sat_add)
  qed
  show ?thesis
    by (cases bytes call rule: try_write_cases; cases "cn_pending c")
      (use inv sub sub' co in \<open>auto simp: OpQueue channel_inv_def queue_control_message_def Let_def pending_list_def\<close>)
next
  case (OpFlush call)
  assume inv: "channel_inv c"
  show ?thesis
  proof (cases "cn_pending c")
    case None
    then show ?thesis using inv by (simp add: OpFlush channel_inv_def flush_pending_def)
  next
    case (Some m)
    then show ?thesis
      by (cases m call rule: try_write_cases)
        (use inv subseq_butlast subseq_butlast' in
          \<open>auto simp: OpFlush channel_inv_def flush_pending_def pending_list_def\<close>)
  qed
qed

lemma channel_run_inv: "channel_inv c \<Longrightarrow> channel_inv (foldl channel_step c ops)"
  by (induction ops arbitrary: c) (simp_all add: channel_step_inv)

text \<open>
  the queue of control messages is latest-wins and loses nothing silently: over any sequence of queued
  and flushed messages, what the pipe took is in the order offered, a pending message is the newest one
  offered, and every message is taken, pending, counted as coalesced or lost to a failed write.
\<close>

theorem control_queue_latest_wins:
  assumes "c = foldl channel_step channel_start ops" "length (cn_offered c) < 2 ^ 64"
  shows "subseq (cn_taken c @ pending_list (cn_pending c)) (cn_offered c)
    \<and> (\<forall>m. cn_pending c = Some m \<longrightarrow> m = last (cn_offered c))
    \<and> length (cn_offered c) = length (cn_taken c) + length (pending_list (cn_pending c))
        + unat (cn_coalesced c) + cn_failed c"
proof -
  have "channel_inv channel_start" by (simp add: channel_inv_def channel_start_def pending_list_def)
  from channel_run_inv [OF this, of ops] have inv: "channel_inv c" by (simp add: assms(1))
  then have "subseq (cn_taken c @ pending_list (cn_pending c)) (cn_offered c)"
    using subseq_butlast [of "cn_offered c" "cn_taken c"]
    by (cases "cn_pending c") (auto simp: channel_inv_def pending_list_def)
  with inv assms(2) show ?thesis by (auto simp: channel_inv_def)
qed

lemma control_queue_latest_wins_witness:
  "subseq (cn_taken (foldl channel_step channel_start [OpQueue [1] WriteBlocked, OpQueue [2] WriteBlocked, OpFlush (Wrote 1)]))
     [[1], [2]]"
proof -
  let ?ops = "[OpQueue [1] WriteBlocked, OpQueue [2] WriteBlocked, OpFlush (Wrote 1)]"
  have "foldl channel_step channel_start ?ops = \<lparr>cn_pending = None, cn_coalesced = 1, cn_errors = 0,
      cn_offered = [[1], [2]], cn_taken = [[2]], cn_failed = 0\<rparr>"
    by (simp add: channel_start_def queue_control_message_def flush_pending_def try_write_input_def
        taken_by_def failed_by_def Input_Protocol.max_message_bytes_def sat_add_def Let_def)
  from control_queue_latest_wins [OF this [symmetric]] show ?thesis
    by (simp add: channel_start_def queue_control_message_def flush_pending_def try_write_input_def
        taken_by_def failed_by_def Input_Protocol.max_message_bytes_def sat_add_def Let_def pending_list_def)
qed

section \<open>Acknowledgements\<close>

definition max_ack_buffer_bytes :: nat where "max_ack_buffer_bytes = 1024"
definition max_ack_read_bytes_per_tick :: nat where "max_ack_read_bytes_per_tick = 4096"

definition raise_ack_ceiling :: "u64 \<Rightarrow> u64 \<Rightarrow> u64" where
  "raise_ack_ceiling input_sequence seq = max input_sequence seq"

record ack_state =
  ak_buffer :: "u8 list"
  ak_sequence :: u64
  ak_errors :: u64

definition ack_line :: "(u8 list \<Rightarrow> input_ack option) \<Rightarrow> u64 \<Rightarrow> ack_state \<Rightarrow> u8 list \<Rightarrow> ack_state" where
  "ack_line parse ceiling a line =
     (case decode_ack_line parse (line @ [newline]) of
        Inr ack \<Rightarrow>
          if ia_sequence ack \<le> ceiling then a\<lparr>ak_sequence := ia_sequence ack\<rparr>
          else a\<lparr>ak_errors := sat_add (ak_errors a) 1\<rparr>
      | Inl _ \<Rightarrow> a\<lparr>ak_errors := sat_add (ak_errors a) 1\<rparr>)"

definition ack_chunk :: "(u8 list \<Rightarrow> input_ack option) \<Rightarrow> u64 \<Rightarrow> u8 list \<Rightarrow> ack_state \<Rightarrow> ack_state" where
  "ack_chunk parse ceiling chunk a =
     (case lines_of (ak_buffer a @ chunk) of (lines, rest) \<Rightarrow>
        let b = foldl (ack_line parse ceiling) (a\<lparr>ak_buffer := rest\<rparr>) lines in
        if max_ack_buffer_bytes < length (ak_buffer b)
        then b\<lparr>ak_buffer := [], ak_errors := sat_add (ak_errors b) 1\<rparr> else b)"

fun ack_loop ::
  "(u8 list \<Rightarrow> input_ack option) \<Rightarrow> u64 \<Rightarrow> nat \<Rightarrow> pipe_read list \<Rightarrow> ack_state \<Rightarrow> ack_state" where
  "ack_loop parse ceiling got [] a = a"
| "ack_loop parse ceiling got (rd # rds) a =
     (if max_ack_read_bytes_per_tick \<le> got then a
      else case rd of
        PipeBytes bs \<Rightarrow>
          (let chunk = take chunk_bytes bs in
           if chunk = [] then a
           else ack_loop parse ceiling (got + length chunk) rds (ack_chunk parse ceiling chunk a))
      | PipeBlocked \<Rightarrow> a
      | PipeFailed \<Rightarrow> a\<lparr>ak_errors := sat_add (ak_errors a) 1\<rparr>)"

definition drain_input_acks ::
  "(u8 list \<Rightarrow> input_ack option) \<Rightarrow> u64 \<Rightarrow> pipe_read list \<Rightarrow> ack_state \<Rightarrow> ack_state" where
  "drain_input_acks parse ceiling reads a = ack_loop parse ceiling 0 reads a"

definition ack_ok :: "u64 \<Rightarrow> ack_state \<Rightarrow> bool" where
  "ack_ok ceiling a \<longleftrightarrow> ak_sequence a \<le> ceiling \<and> length (ak_buffer a) \<le> max_ack_buffer_bytes"

lemma ack_line_bound:
  "ak_sequence a \<le> ceiling \<Longrightarrow> ak_sequence (ack_line parse ceiling a l) \<le> ceiling"
  "ak_buffer (ack_line parse ceiling a l) = ak_buffer a"
  by (auto simp: ack_line_def split: sum.splits)

lemma ack_lines_bound:
  "ak_sequence a \<le> ceiling \<Longrightarrow> ak_sequence (foldl (ack_line parse ceiling) a ls) \<le> ceiling"
  "ak_buffer (foldl (ack_line parse ceiling) a ls) = ak_buffer a"
  by (induction ls arbitrary: a) (auto simp: ack_line_bound)

lemma ack_chunk_ok: "ack_ok ceiling a \<Longrightarrow> ack_ok ceiling (ack_chunk parse ceiling chunk a)"
  by (auto simp: ack_ok_def ack_chunk_def Let_def ack_lines_bound not_less split: prod.splits)

lemma ack_loop_ok: "ack_ok ceiling a \<Longrightarrow> ack_ok ceiling (ack_loop parse ceiling n reads a)"
  by (induction reads arbitrary: n a)
    (auto simp: Let_def ack_chunk_ok split: pipe_read.splits, auto simp: ack_ok_def)

lemma drain_input_acks_ok: "ack_ok ceiling a \<Longrightarrow> ack_ok ceiling (drain_input_acks parse ceiling reads a)"
  by (simp add: drain_input_acks_def ack_loop_ok)

lemma ack_ok_raise: "ack_ok ceiling a \<Longrightarrow> ack_ok (raise_ack_ceiling ceiling g) a"
  by (auto simp: ack_ok_def raise_ack_ceiling_def max_def)

end
