(* ===== verification/Worker_Launch.thy ===== *)
theory Worker_Launch
  imports Supervisor_Store Worker_Pipes
begin

text \<open>
  \<open>crates/kwe-daemon/src/supervisor.rs\<close>, the launch of a worker process and its end: the command line, the
  environment, the resource limits, the worker record a launch creates, and the bounded termination.
  What the operating system answers to the calls is a parameter of each operation.
\<close>

section \<open>Paths\<close>

text \<open>\<open>Path::join\<close> of a relative name.\<close>

definition path_join :: "string \<Rightarrow> string \<Rightarrow> string" where
  "path_join dir name = (if dir = [] \<or> last dir = CHR ''/'' then dir @ name else dir @ ''/'' @ name)"

definition frame_path_of :: "supervisor_config \<Rightarrow> nat \<Rightarrow> u64 \<Rightarrow> string" where
  "frame_path_of cfg pid serial = path_join (cfg_runtime_dir cfg)
     (''frame-'' @ show_nat pid @ ''-'' @ show_nat (unat serial) @ ''.bin'')"

definition home_path_of :: "supervisor_config \<Rightarrow> u64 \<Rightarrow> string" where
  "home_path_of cfg serial = path_join (cfg_runtime_dir cfg) (''home-'' @ show_nat (unat serial))"

section \<open>The command line\<close>

text \<open>The arguments in order, each flag with its values.\<close>

fun content_path :: "content_spec \<Rightarrow> string" where
  "content_path (ContentVideo p) = p"
| "content_path (ContentScene p) = p"
| "content_path (ContentWeb r) = r"

fun fault_flags :: "test_fault \<Rightarrow> (string \<times> string list) list" where
  "fault_flags StartupHang = [(''--startup-hang'', [])]"
| "fault_flags (Hang n) = [(''--hang-after'', [show_nat (unat n)])]"
| "fault_flags (Corrupt n) = [(''--corrupt-after'', [show_nat (unat n)])]"
| "fault_flags (ExitFault n) = [(''--exit-after'', [show_nat (unat n)])]"
| "fault_flags (IgnoreTermHang n) = [(''--hang-after'', [show_nat (unat n)]), (''--ignore-term'', [])]"
| "fault_flags (MemoryPressure n mib) =
     [(''--memory-pressure-after'', [show_nat (unat n)]), (''--memory-pressure-mib'', [show_nat (unat mib)])]"

definition optional_flag :: "bool \<Rightarrow> string \<Rightarrow> string option \<Rightarrow> (string \<times> string list) list" where
  "optional_flag applies flag v = (case v of Some x \<Rightarrow> if applies then [(flag, [x])] else [] | None \<Rightarrow> [])"

definition worker_flags ::
  "supervisor_config \<Rightarrow> persisted_grants \<Rightarrow> string \<Rightarrow> start_spec \<Rightarrow> (string \<times> string list) list" where
  "worker_flags cfg grants frame_path s =
     [(''--output'', [frame_path]), (''--width'', [show_nat (unat (ss_width s))]),
      (''--height'', [show_nat (unat (ss_height s))]), (''--fps'', [show_nat (unat (ss_fps s))]),
      (''--scaling'', [scaling_str (ss_scaling s)])]
     @ optional_flag True ''--content'' (map_option content_path (ss_content s))
     @ optional_flag (ss_kind s = KindScene) ''--assets-dir'' (cfg_scene_assets_dir cfg)
     @ optional_flag (ss_kind s = KindScene) ''--shader-helper'' (cfg_shader_helper_path cfg)
     @ optional_flag True ''--stderr-lines'' (map_option (\<lambda>n. show_nat (unat n)) (ss_stderr_lines s))
     @ (if ss_kind s = KindWeb
        then [(''--web-heartbeat-ms'', [show_nat (unat (cfg_web_heartbeat_ms cfg))]),
              (''--web-heartbeat-max-failures'', [show_nat (unat (cfg_web_heartbeat_max_failures cfg))])]
             @ (if gr_network (grant_of grants (ss_wallpaper_id s)) then [(''--allow-network'', [])] else [])
        else [])
     @ (case ss_test_fault s of Some f \<Rightarrow> fault_flags f | None \<Rightarrow> [])"

definition worker_args ::
  "supervisor_config \<Rightarrow> persisted_grants \<Rightarrow> string \<Rightarrow> start_spec \<Rightarrow> string list" where
  "worker_args cfg grants frame_path s = concat (map (\<lambda>(f, vs). f # vs) (worker_flags cfg grants frame_path s))"

section \<open>The environment\<close>

definition worker_path :: "bool \<Rightarrow> string" where
  "worker_path macos = (if macos then ''/opt/homebrew/bin:/usr/local/bin:/usr/bin:/usr/sbin:/bin''
     else ''/usr/bin:/usr/sbin:/bin'')"

definition passthrough_names :: "string list" where
  "passthrough_names = [''DYLD_FALLBACK_LIBRARY_PATH'', ''VK_ICD_FILENAMES'', ''VK_DRIVER_FILES'', ''TMPDIR'',
     ''KWE_CHROMIUM'', ''KWE_WEB_SANDBOX'', ''KWE_AUDIO_DEVICE'', ''KWE_FFMPEG'']"

definition macos_env_passthrough :: "bool \<Rightarrow> (string \<Rightarrow> string option) \<Rightarrow> (string \<times> string) list" where
  "macos_env_passthrough macos env =
     (if macos
      then concat (map (\<lambda>n. case env n of Some v \<Rightarrow> [(n, from_utf8_lossy v)] | None \<Rightarrow> []) passthrough_names)
      else [])"

definition env_allowlist_with_runtime ::
  "bool \<Rightarrow> (string \<Rightarrow> string option) \<Rightarrow> renderer_kind \<Rightarrow> string \<Rightarrow> string option \<Rightarrow> (string \<times> string) list" where
  "env_allowlist_with_runtime macos env kind home runtime =
     [(''HOME'', from_utf8_lossy home), (''PATH'', worker_path macos)]
     @ (case runtime of
          Some r \<Rightarrow> if kind = KindWeb then [(''XDG_RUNTIME_DIR'', from_utf8_lossy r)] else []
        | None \<Rightarrow> [])
     @ macos_env_passthrough macos env"

definition env_allowlist ::
  "bool \<Rightarrow> (string \<Rightarrow> string option) \<Rightarrow> renderer_kind \<Rightarrow> string \<Rightarrow> (string \<times> string) list" where
  "env_allowlist macos env kind home = env_allowlist_with_runtime macos env kind home (env ''XDG_RUNTIME_DIR'')"

section \<open>Resource limits\<close>

datatype rlimit = LimitAs | LimitFsize | LimitNofile | LimitNproc | LimitCore

text \<open>\<open>hard\<close> is the inherited hard limit, \<open>None\<close> when it is infinite or \<open>getrlimit\<close> fails.\<close>

definition clamped_limit :: "bool \<Rightarrow> u64 option \<Rightarrow> u64 \<Rightarrow> u64" where
  "clamped_limit macos hard v = (case hard of Some h \<Rightarrow> if macos \<and> h < v then h else v | None \<Rightarrow> v)"

definition limit_requests :: "bool \<Rightarrow> renderer_limits \<Rightarrow> (rlimit \<times> u64) list" where
  "limit_requests as_enforced l =
     (let mib = 1024 * 1024 in
      (if as_enforced then [(LimitAs, rl_address_space_mib l * mib)] else [])
      @ [(LimitFsize, rl_file_size_mib l * mib), (LimitNofile, rl_open_files l),
         (LimitNproc, rl_processes l), (LimitCore, rl_core_dump_bytes l)])"

text \<open>The limits set, in order; the first refused call fails the launch (\<open>Inl\<close> its resource).\<close>

fun set_limits ::
  "bool \<Rightarrow> (rlimit \<Rightarrow> u64 option) \<Rightarrow> (rlimit \<Rightarrow> bool) \<Rightarrow> (rlimit \<times> u64) list
     \<Rightarrow> (rlimit, (rlimit \<times> u64) list) result" where
  "set_limits macos hard accepts [] = Inr []"
| "set_limits macos hard accepts ((res, v) # rest) =
     (if accepts res
      then rbind (set_limits macos hard accepts rest) (\<lambda>done_limits.
             Inr ((res, clamped_limit macos (hard res) v) # done_limits))
      else Inl res)"

definition apply_resource_limits ::
  "bool \<Rightarrow> bool \<Rightarrow> (rlimit \<Rightarrow> u64 option) \<Rightarrow> (rlimit \<Rightarrow> bool) \<Rightarrow> renderer_limits
     \<Rightarrow> (rlimit, (rlimit \<times> u64) list) result" where
  "apply_resource_limits as_enforced macos hard accepts l =
     set_limits macos hard accepts (limit_requests as_enforced l)"

section \<open>Workers\<close>

record active_worker =
  wk_spec :: start_spec
  wk_pid :: nat
  wk_args :: "string list"
  wk_env :: "(string \<times> string) list"
  wk_home_path :: string
  wk_frame_path :: string
  wk_reader :: bool
  wk_started :: nat
  wk_last_progress :: nat
  wk_last_resident_check :: nat
  wk_last_snapshot_saved :: "nat option"
  wk_sequence :: u64
  wk_ack :: ack_state
  wk_input_sequence :: u64
  wk_pending_input :: "u8 list option"
  wk_input_coalesced :: u64
  wk_pointer_inside :: bool
  wk_pointer_x :: u16
  wk_pointer_y :: u16
  wk_pending_audio :: "u8 list option"
  wk_audio_coalesced :: u64
  wk_pending_media :: "u8 list option"
  wk_media_coalesced :: u64
  wk_stderr_ring :: stderr_ring

text \<open>
  What the calls of a launch give: the home directory cannot be created or protected, the spawn fails
  (the limits are part of it), the pipes cannot be set up (the child is then terminated and reaped), or
  a child runs.
\<close>

datatype launch_call = HomeNotCreated | HomeNotProtected | SpawnRefused | PipesUnavailable string | Launched nat

record launch_env =
  le_daemon_pid :: nat
  le_macos :: bool
  le_env :: "string \<Rightarrow> string option"

definition new_worker ::
  "start_spec \<Rightarrow> nat \<Rightarrow> string list \<Rightarrow> (string \<times> string) list \<Rightarrow> string \<Rightarrow> string \<Rightarrow> nat \<Rightarrow> active_worker" where
  "new_worker s pid args env home frame now =
     \<lparr>wk_spec = s, wk_pid = pid, wk_args = args, wk_env = env, wk_home_path = home, wk_frame_path = frame,
      wk_reader = False, wk_started = now, wk_last_progress = now, wk_last_resident_check = now,
      wk_last_snapshot_saved = None, wk_sequence = 0,
      wk_ack = \<lparr>ak_buffer = [], ak_sequence = 0, ak_errors = 0\<rparr>, wk_input_sequence = 0,
      wk_pending_input = None, wk_input_coalesced = 0, wk_pointer_inside = False, wk_pointer_x = 0,
      wk_pointer_y = 0, wk_pending_audio = None, wk_audio_coalesced = 0, wk_pending_media = None,
      wk_media_coalesced = 0, wk_stderr_ring = ring_default\<rparr>"

text \<open>The error is the text of its outermost context, which becomes the failure's detail.\<close>

definition spawn_worker ::
  "supervisor_config \<Rightarrow> launch_env \<Rightarrow> persisted_grants \<Rightarrow> u64 \<Rightarrow> launch_call \<Rightarrow> nat \<Rightarrow> start_spec
     \<Rightarrow> (string, active_worker) result" where
  "spawn_worker cfg le grants serial call now s =
     (case cfg_renderer_paths cfg (ss_kind s) of
        None \<Rightarrow> Inl (''no renderer binary configured for kind '' @ kind_str (ss_kind s))
      | Some renderer \<Rightarrow>
          (let home = home_path_of cfg serial; frame = frame_path_of cfg (le_daemon_pid le) serial in
           if call = HomeNotCreated then Inl (''create renderer home '' @ home)
           else if call = HomeNotProtected then Inl (''protect renderer home '' @ home)
           else if 2 ^ 31 \<le> le_daemon_pid le then Inl ''daemon pid overflow''
           else case call of
             PipesUnavailable text \<Rightarrow> Inl text
           | Launched pid \<Rightarrow>
               Inr (new_worker s pid (worker_args cfg grants frame s)
                      (env_allowlist (le_macos le) (le_env le) (ss_kind s) home) home frame now)
           | _ \<Rightarrow> Inl (''launch renderer '' @ renderer)))"

section \<open>Termination\<close>

datatype group_signal = SigTerm | SigKill

text \<open>
  \<open>gone\<close>: the child had already exited; \<open>polls\<close>: the answers of the polls made before the deadline. The
  result is whether the child was killed, with the signals its process group received; the child is
  reaped in every case.
\<close>

definition terminate_and_reap :: "bool \<Rightarrow> bool list \<Rightarrow> bool \<times> group_signal list" where
  "terminate_and_reap gone polls =
     (if gone then (False, [])
      else if list_ex id polls then (False, [SigTerm])
      else (True, [SigTerm, SigKill]))"

definition signal_process_group :: "nat \<Rightarrow> int option" where
  "signal_process_group pid = (if pid < 2 ^ 31 then Some (- int pid) else None)"

text \<open>Whether a worker's home is gone after the cleanup.\<close>

datatype home_facts = PlainDirectory bool | NotPlain | HomeMissing | HomeUnknown

definition cleanup_renderer_home :: "home_facts \<Rightarrow> bool" where
  "cleanup_renderer_home h =
     (case h of PlainDirectory removed \<Rightarrow> removed | NotPlain \<Rightarrow> False | HomeMissing \<Rightarrow> True | HomeUnknown \<Rightarrow> False)"

section \<open>Containment\<close>

lemma fault_flags_names: "fst ` set (fault_flags f) \<subseteq> {''--startup-hang'', ''--hang-after'', ''--corrupt-after'',
    ''--exit-after'', ''--ignore-term'', ''--memory-pressure-after'', ''--memory-pressure-mib''}"
  by (cases f) auto

lemma fault_flags_no_network: "(''--allow-network'', vs) \<notin> set (fault_flags f)"
  by (cases f) auto

lemma optional_flag_mem: "(g, vs) \<in> set (optional_flag applies f v) \<longleftrightarrow> g = f \<and> applies \<and> (\<exists>x. v = Some x \<and> vs = [x])"
  by (auto simp: optional_flag_def split: option.splits)

lemma network_flag:
  "(''--allow-network'', vs) \<in> set (worker_flags cfg grants frame s)
     \<longleftrightarrow> vs = [] \<and> ss_kind s = KindWeb \<and> gr_network (grant_of grants (ss_wallpaper_id s))"
  by (auto simp: worker_flags_def optional_flag_mem fault_flags_no_network split: option.splits)

lemma passthrough_mem:
  "(n, v) \<in> set (macos_env_passthrough macos env)
     \<longleftrightarrow> macos \<and> n \<in> set passthrough_names \<and> (\<exists>x. env n = Some x \<and> v = from_utf8_lossy x)"
  by (auto simp: macos_env_passthrough_def split: option.splits; metis)

text \<open>
  C25: a launch is contained: the flag that opens the network is passed exactly to a web worker whose
  wallpaper has the network grant at that moment, the environment is the fixed allow list (the daemon's
  runtime directory for web workers only), and after a revocation succeeded no launch passes the flag.
\<close>

theorem launch_contained:
  assumes "spawn_worker cfg le grants serial call now s = Inr w"
  shows "wk_args w = worker_args cfg grants (wk_frame_path w) s
    \<and> ((''--allow-network'', []) \<in> set (worker_flags cfg grants (wk_frame_path w) s)
         \<longleftrightarrow> ss_kind s = KindWeb \<and> gr_network (grant_of grants (ss_wallpaper_id s)))
    \<and> (\<forall>n v. (n, v) \<in> set (wk_env w) \<longrightarrow>
         n \<in> {''HOME'', ''PATH''} \<union> (if ss_kind s = KindWeb then {''XDG_RUNTIME_DIR''} else {}) \<union> set passthrough_names)
    \<and> (\<forall>io p g ser d grants' d' cfg' frame' s'. gp_network p = Some False \<longrightarrow>
         grants_set ser io (ss_wallpaper_id s') p (grants, d) = (Inr g, grants', d') \<longrightarrow>
         (''--allow-network'', []) \<notin> set (worker_flags cfg' grants' frame' s'))"
proof -
  have w: "w = new_worker s (wk_pid w) (worker_args cfg grants (wk_frame_path w) s)
      (env_allowlist (le_macos le) (le_env le) (ss_kind s) (wk_home_path w)) (wk_home_path w) (wk_frame_path w) now"
    using assms
    by (auto simp: spawn_worker_def Let_def new_worker_def split: option.splits if_splits launch_call.splits)
  then have env: "wk_env w = env_allowlist (le_macos le) (le_env le) (ss_kind s) (wk_home_path w)"
    and args: "wk_args w = worker_args cfg grants (wk_frame_path w) s"
    by (metis new_worker_def active_worker.select_convs)+
  have "n \<in> {''HOME'', ''PATH''} \<union> (if ss_kind s = KindWeb then {''XDG_RUNTIME_DIR''} else {}) \<union> set passthrough_names"
    if "(n, v) \<in> set (wk_env w)" for n v
    using that unfolding env env_allowlist_def env_allowlist_with_runtime_def
    by (auto simp: passthrough_mem split: option.splits if_splits)
  then show ?thesis using args daemon_grants.revoke_network by (auto simp: network_flag)
qed

definition sample_web :: start_spec where
  "sample_web = sample_start\<lparr>ss_kind := KindWeb, ss_content := Some (ContentWeb ''/c'')\<rparr>"

definition sample_launch_env :: launch_env where
  "sample_launch_env = \<lparr>le_daemon_pid = 7, le_macos = False, le_env = (\<lambda>_. None)\<rparr>"

lemma launch_contained_witness:
  "\<exists>w. spawn_worker (sample_config\<lparr>cfg_renderer_paths := [KindWeb \<mapsto> ''/web'']\<rparr>) sample_launch_env default_grants 1
       (Launched 42) 0 sample_web = Inr w
     \<and> (''--allow-network'', []) \<notin> set (worker_flags (sample_config\<lparr>cfg_renderer_paths := [KindWeb \<mapsto> ''/web'']\<rparr>)
          default_grants (wk_frame_path w) sample_web)"
proof -
  let ?cfg = "sample_config\<lparr>cfg_renderer_paths := [KindWeb \<mapsto> ''/web'']\<rparr>"
  obtain w where w: "spawn_worker ?cfg sample_launch_env default_grants 1 (Launched 42) 0 sample_web = Inr w"
    by (simp add: spawn_worker_def sample_launch_env_def sample_web_def Let_def)
  have "\<not> gr_network (grant_of default_grants (ss_wallpaper_id sample_web))"
    by (simp add: grant_of_def default_grants_def grant_defaults_def)
  with launch_contained [OF w] w show ?thesis by blast
qed

end
