(* ===== verification/Worker_Inspect.thy ===== *)
theory Worker_Inspect
  imports Worker_Launch
begin

text \<open>
  \<open>crates/kwe-daemon/src/supervisor.rs\<close>, one observation of a worker (\<open>inspect\_worker\<close>): its exit, its
  resident memory, its frames and its deadlines, and the servicing of the active worker's pipes. What
  the calls of one observation answer is a record.
\<close>

section \<open>One observation\<close>

definition macos_resident_budget_mib :: u64 where "macos_resident_budget_mib = 2048"
definition resident_check_interval :: nat where "resident_check_interval = 1000000000"
definition exit_backend_reject :: int where "exit_backend_reject = 73"
definition exit_no_drawable_content :: int where "exit_no_drawable_content = 74"
definition signal_file_size :: int where "signal_file_size = 25"

datatype wait_status = Exited int | Signaled int | UnknownExit | StillRunning | WaitFailed string

record inspect_calls =
  in_wait :: wait_status
  in_stderr :: "pipe_read list"
  in_as_enforced :: bool
  in_check_now :: nat
  in_resident :: "u64 option"
  in_now :: nat
  in_open :: bool
  in_snapshot :: "(frame_error, snapshot_data) result"
  in_snapshot_text :: string

datatype worker_observation = Progress snapshot_data | Failure failure_kind string

fun show_int :: "int \<Rightarrow> string" where
  "show_int i = (if i < 0 then ''-'' @ show_nat (nat (- i)) else show_nat (nat i))"

definition exit_detail :: "wait_status \<Rightarrow> string" where
  "exit_detail st =
     (case st of
        Exited code \<Rightarrow> ''exit_code_'' @ show_int code
      | Signaled sig \<Rightarrow> ''signal_'' @ show_int sig
      | _ \<Rightarrow> ''unknown_exit'')"

text \<open>The failure of a worker that has exited, from the drained ring.\<close>

definition exit_failure :: "wait_status \<Rightarrow> stderr_ring \<Rightarrow> worker_observation" where
  "exit_failure st ring =
     (if st = Exited 71 then Failure ResourceLimit ''memory_allocation_denied''
      else if st = Signaled signal_file_size then Failure ResourceLimit ''file_size_limit_exceeded''
      else Failure (if st = Exited exit_backend_reject \<or> st = Exited exit_no_drawable_content
                    then Refused else ProcessExit)
             (append_stderr_tail (exit_detail st) ring))"

definition resident_budget :: "supervisor_config \<Rightarrow> renderer_kind \<Rightarrow> u64" where
  "resident_budget cfg k =
     (let mib = min (rl_address_space_mib (the (resource_limits_for cfg k))) macos_resident_budget_mib in
      case checked_mul mib (1024 * 1024) of Some b \<Rightarrow> b | None \<Rightarrow> -1)"

text \<open>The resident-set watchdog: the time of the check it made, and the failure it found.\<close>

definition resident_check ::
  "supervisor_config \<Rightarrow> inspect_calls \<Rightarrow> active_worker \<Rightarrow> active_worker \<times> worker_observation option" where
  "resident_check cfg c w =
     (if \<not> in_as_enforced c \<and> resident_check_interval \<le> in_check_now c - wk_last_resident_check w
      then
        (let w' = w\<lparr>wk_last_resident_check := in_check_now c\<rparr>;
             budget = resident_budget cfg (ss_kind (wk_spec w)); mib = 1024 * 1024 in
         case (if wk_pid w < 2 ^ 31 then in_resident c else None) of
           Some resident \<Rightarrow>
             if budget < resident
             then (w', Some (Failure ResourceLimit (''resident_set_exceeded:'' @ show_nat (unat (resident div mib))
                     @ ''MiB>'' @ show_nat (unat (budget div mib)) @ ''MiB'')))
             else (w', None)
         | None \<Rightarrow> (w', None))
      else (w, None))"

definition started_out :: "supervisor_config \<Rightarrow> inspect_calls \<Rightarrow> active_worker \<Rightarrow> bool" where
  "started_out cfg c w \<longleftrightarrow>
     the (startup_timeout_for cfg (ss_kind (wk_spec w))) \<le> in_now c - wk_started w"

definition deadline_check :: "supervisor_config \<Rightarrow> inspect_calls \<Rightarrow> active_worker \<Rightarrow> worker_observation option" where
  "deadline_check cfg c w =
     (if wk_sequence w = 0 \<and> started_out cfg c w then Some (Failure StartupTimeout ''no_valid_frame'')
      else if 0 < wk_sequence w \<and> cfg_frame_timeout cfg \<le> in_now c - wk_last_progress w
      then Some (Failure FrameTimeout ''frame_sequence_stalled'')
      else None)"

definition frame_check ::
  "supervisor_config \<Rightarrow> inspect_calls \<Rightarrow> active_worker \<Rightarrow> active_worker \<times> worker_observation option" where
  "frame_check cfg c w =
     (let w = w\<lparr>wk_reader := wk_reader w \<or> in_open c\<rparr> in
      if \<not> wk_reader w then (w, deadline_check cfg c w)
      else case in_snapshot c of
        Inr snap \<Rightarrow>
          if wk_sequence w < fn_sequence snap
          then (w\<lparr>wk_sequence := fn_sequence snap, wk_last_progress := in_now c\<rparr>, Some (Progress snap))
          else (w, deadline_check cfg c w)
      | Inl e \<Rightarrow>
          if e = Busy then (w, deadline_check cfg c w)
          else if wk_sequence w = 0
          then (if started_out cfg c w then (w, Some (Failure StartupTimeout (in_snapshot_text c)))
                else (w, deadline_check cfg c w))
          else (w, Some (Failure InvalidFrame (in_snapshot_text c))))"

definition inspect_worker ::
  "supervisor_config \<Rightarrow> inspect_calls \<Rightarrow> active_worker \<Rightarrow> active_worker \<times> worker_observation option" where
  "inspect_worker cfg c w =
     (case in_wait c of
        StillRunning \<Rightarrow>
          (let w1 = w\<lparr>wk_stderr_ring := drain_stderr stderr_read_bytes_per_tick (in_stderr c) (wk_stderr_ring w)\<rparr> in
           case resident_check cfg c w1 of
             (w2, Some failure) \<Rightarrow> (w2, Some failure)
           | (w2, None) \<Rightarrow> frame_check cfg c w2)
      | WaitFailed text \<Rightarrow>
          (let ring = drain_stderr stderr_read_bytes_per_tick (in_stderr c) (wk_stderr_ring w) in
           (w\<lparr>wk_stderr_ring := ring\<rparr>,
            Some (Failure ProcessExit (append_stderr_tail (''wait_error:'' @ text) ring))))
      | st \<Rightarrow>
          (let ring = drain_stderr usize_max (in_stderr c) (wk_stderr_ring w) in
           (w\<lparr>wk_stderr_ring := ring\<rparr>, Some (exit_failure st ring))))"

section \<open>Servicing the pipes\<close>

record service_calls =
  sc_acks :: "pipe_read list"
  sc_input :: write_call
  sc_audio :: write_call
  sc_media :: write_call

definition flush_errors :: "write_call \<Rightarrow> u8 list option \<Rightarrow> ack_state \<Rightarrow> u8 list option \<times> ack_state" where
  "flush_errors call pending a =
     (case flush_pending call pending (ak_errors a) of (p, n) \<Rightarrow> (p, a\<lparr>ak_errors := n\<rparr>))"

definition service_input ::
  "(u8 list \<Rightarrow> input_ack option) \<Rightarrow> service_calls \<Rightarrow> active_worker \<Rightarrow> active_worker" where
  "service_input parse c w =
     (let a0 = drain_input_acks parse (wk_input_sequence w) (sc_acks c) (wk_ack w);
          (input, a1) = flush_errors (sc_input c) (wk_pending_input w) a0;
          (audio, a2) = flush_errors (sc_audio c) (wk_pending_audio w) a1;
          (media, a3) = flush_errors (sc_media c) (wk_pending_media w) a2
      in w\<lparr>wk_ack := a3, wk_pending_input := input, wk_pending_audio := audio, wk_pending_media := media\<rparr>)"

section \<open>What an observation keeps\<close>

definition worker_ok :: "active_worker \<Rightarrow> bool" where
  "worker_ok w \<longleftrightarrow> ring_ok (wk_stderr_ring w) \<and> ack_ok (wk_input_sequence w) (wk_ack w)"

lemma new_worker_ok: "worker_ok (new_worker s pid args env home frame now)"
  by (simp add: worker_ok_def new_worker_def ring_default_ok ack_ok_def)

lemma new_worker_spec:
  "wk_spec (new_worker s pid args env home frame now) = s" "wk_pid (new_worker s pid args env home frame now) = pid"
  by (simp_all add: new_worker_def)

lemma spawn_worker_ok:
  "spawn_worker cfg le grants serial call now s = Inr w \<Longrightarrow>
     worker_ok w \<and> wk_spec w = s \<and> call = Launched (wk_pid w)"
  by (auto simp: spawn_worker_def Let_def new_worker_ok new_worker_spec split: option.splits if_splits launch_call.splits)

lemma drain_stderr_ok: "ring_ok r \<Longrightarrow> ring_ok (drain_stderr budget reads r)"
  by (simp add: drain_stderr_def drain_ok)

lemma resident_check_keeps:
  "resident_check cfg c w = (w', r) \<Longrightarrow> \<exists>t. w' = w\<lparr>wk_last_resident_check := t\<rparr>"
  by (cases w) (auto simp: resident_check_def Let_def split: if_splits option.splits)

lemma frame_check_keeps:
  "frame_check cfg c w = (w', r) \<Longrightarrow>
     \<exists>b n t. w' = w\<lparr>wk_reader := b, wk_sequence := n, wk_last_progress := t\<rparr>"
  by (cases w) (auto simp: frame_check_def Let_def split: if_splits sum.splits)

text \<open>An observation changes what was observed and nothing that identifies the worker.\<close>

definition same_worker :: "active_worker \<Rightarrow> active_worker \<Rightarrow> bool" where
  "same_worker w w' \<longleftrightarrow> wk_pid w' = wk_pid w \<and> wk_spec w' = wk_spec w \<and> wk_args w' = wk_args w
     \<and> wk_frame_path w' = wk_frame_path w \<and> wk_home_path w' = wk_home_path w
     \<and> wk_input_sequence w' = wk_input_sequence w \<and> wk_ack w' = wk_ack w \<and> wk_started w' = wk_started w"

lemma inspect_keeps:
  assumes "inspect_worker cfg c w = (w', r)"
  shows "same_worker w w' \<and> (worker_ok w \<longrightarrow> worker_ok w')"
proof (cases "in_wait c")
  case StillRunning
  let ?w = "w\<lparr>wk_stderr_ring := drain_stderr stderr_read_bytes_per_tick (in_stderr c) (wk_stderr_ring w)\<rparr>"
  obtain w2 f where r2: "resident_check cfg c ?w = (w2, f)" by (cases "resident_check cfg c ?w") simp
  obtain t where t: "w2 = ?w\<lparr>wk_last_resident_check := t\<rparr>" using resident_check_keeps [OF r2] by blast
  show ?thesis
  proof (cases f)
    case None
    then have "frame_check cfg c w2 = (w', r)" using assms StillRunning r2 by (simp add: inspect_worker_def)
    from frame_check_keeps [OF this] show ?thesis
      by (auto simp: t same_worker_def worker_ok_def drain_stderr_ok)
  next
    case (Some x)
    then have "w' = w2" using assms StillRunning r2 by (simp add: inspect_worker_def)
    then show ?thesis by (auto simp: t same_worker_def worker_ok_def drain_stderr_ok)
  qed
qed (use assms in \<open>auto simp: inspect_worker_def Let_def same_worker_def worker_ok_def drain_stderr_ok\<close>)

lemma exit_failure_fails: "\<exists>k d. exit_failure st ring = Failure k d"
  by (auto simp: exit_failure_def)

lemma exit_failure_progress [simp]: "exit_failure st ring \<noteq> Progress snap"
  using exit_failure_fails [of st ring] by auto

lemma exit_failure_refused: "exit_failure st ring = Failure Refused d \<Longrightarrow> st = Exited 73 \<or> st = Exited 74"
  by (auto simp: exit_failure_def exit_backend_reject_def exit_no_drawable_content_def split: if_splits)

lemma inspect_progress:
  assumes "inspect_worker cfg c w = (w', Some (Progress snap))"
  shows "in_wait c = StillRunning \<and> in_snapshot c = Inr snap \<and> wk_sequence w < fn_sequence snap
    \<and> wk_sequence w' = fn_sequence snap"
proof (cases "in_wait c")
  case StillRunning
  let ?w = "w\<lparr>wk_stderr_ring := drain_stderr stderr_read_bytes_per_tick (in_stderr c) (wk_stderr_ring w)\<rparr>"
  obtain w2 f where r2: "resident_check cfg c ?w = (w2, f)" by (cases "resident_check cfg c ?w") simp
  obtain t where t: "w2 = ?w\<lparr>wk_last_resident_check := t\<rparr>" using resident_check_keeps [OF r2] by blast
  have "f \<noteq> Some (Progress x)" for x
    using r2 by (auto simp: resident_check_def Let_def split: if_splits option.splits)
  then have "frame_check cfg c w2 = (w', Some (Progress snap))"
    using assms StillRunning r2 by (cases f) (auto simp: inspect_worker_def)
  then show ?thesis
    using StillRunning by (auto simp: frame_check_def Let_def t deadline_check_def split: if_splits sum.splits)
qed (use assms in \<open>auto simp: inspect_worker_def Let_def\<close>)

lemma inspect_refused:
  assumes "inspect_worker cfg c w = (w', Some (Failure Refused detail))"
  shows "in_wait c = Exited 73 \<or> in_wait c = Exited 74"
proof (cases "in_wait c")
  case StillRunning
  let ?w = "w\<lparr>wk_stderr_ring := drain_stderr stderr_read_bytes_per_tick (in_stderr c) (wk_stderr_ring w)\<rparr>"
  obtain w2 f where r2: "resident_check cfg c ?w = (w2, f)" by (cases "resident_check cfg c ?w") simp
  have "f \<noteq> Some (Failure Refused d)" for d
    using r2 by (auto simp: resident_check_def Let_def split: if_splits option.splits)
  then have "frame_check cfg c w2 = (w', Some (Failure Refused detail))"
    using assms StillRunning r2 by (cases f) (auto simp: inspect_worker_def)
  then show ?thesis by (auto simp: frame_check_def Let_def deadline_check_def split: if_splits sum.splits)
qed (use assms in \<open>auto simp: inspect_worker_def Let_def dest: exit_failure_refused\<close>)

lemma inspect_stopped:
  "inspect_worker cfg c w = (w', r) \<Longrightarrow> in_wait c \<noteq> StillRunning \<Longrightarrow> \<exists>kind detail. r = Some (Failure kind detail)"
  using exit_failure_fails by (cases "in_wait c") (auto simp: inspect_worker_def Let_def)

lemma inspect_silent:
  assumes "inspect_worker cfg c w = (w', r)" "in_wait c = StillRunning" "in_as_enforced c" "in_snapshot c = Inl Busy"
  shows "r = (if wk_sequence w = 0
              then (if the (startup_timeout_for cfg (ss_kind (wk_spec w))) \<le> in_now c - wk_started w
                    then Some (Failure StartupTimeout ''no_valid_frame'') else None)
              else (if cfg_frame_timeout cfg \<le> in_now c - wk_last_progress w
                    then Some (Failure FrameTimeout ''frame_sequence_stalled'') else None))"
proof -
  let ?w = "w\<lparr>wk_stderr_ring := drain_stderr stderr_read_bytes_per_tick (in_stderr c) (wk_stderr_ring w)\<rparr>"
  have "resident_check cfg c ?w = (?w, None)" using assms(3) by (simp add: resident_check_def)
  then have "frame_check cfg c ?w = (w', r)" using assms(1,2) by (simp add: inspect_worker_def)
  then have "r = deadline_check cfg c ?w"
    using assms(4) by (auto simp: frame_check_def deadline_check_def started_out_def Let_def split: if_splits)
  then show ?thesis by (simp add: deadline_check_def started_out_def word_gt_0)
qed

lemma service_keeps:
  "wk_pid (service_input parse c w) = wk_pid w" "wk_spec (service_input parse c w) = wk_spec w"
  "wk_input_sequence (service_input parse c w) = wk_input_sequence w"
  "wk_stderr_ring (service_input parse c w) = wk_stderr_ring w"
  by (simp_all add: service_input_def Let_def split_beta)

lemma flush_errors_ok: "ack_ok n a \<Longrightarrow> ack_ok n (snd (flush_errors call p a))"
  by (simp add: flush_errors_def ack_ok_def split_beta)

lemma service_ok: "worker_ok w \<Longrightarrow> worker_ok (service_input parse c w)"
  unfolding worker_ok_def service_keeps
  by (simp add: service_input_def Let_def split_beta flush_errors_ok drain_input_acks_ok)

section \<open>The table of observations\<close>

definition fails_as :: "worker_observation option \<Rightarrow> failure_kind \<Rightarrow> bool" where
  "fails_as r k \<longleftrightarrow> (\<exists>detail. r = Some (Failure k detail))"

lemma fails_as_simps [simp]:
  "fails_as (Some (Failure k d)) k' \<longleftrightarrow> k = k'" "\<not> fails_as None k'" "\<not> fails_as (Some (Progress s)) k'"
  by (auto simp: fails_as_def)

text \<open>The resident set was looked at, and is over the budget.\<close>

definition over_resident_budget :: "supervisor_config \<Rightarrow> inspect_calls \<Rightarrow> active_worker \<Rightarrow> bool" where
  "over_resident_budget cfg c w \<longleftrightarrow> \<not> in_as_enforced c
     \<and> resident_check_interval \<le> in_check_now c - wk_last_resident_check w \<and> wk_pid w < 2 ^ 31
     \<and> (case in_resident c of Some resident \<Rightarrow> resident_budget cfg (ss_kind (wk_spec w)) < resident | None \<Rightarrow> False)"

text \<open>What the mapping of the worker shows: a newer frame, an invalid one, or nothing new.\<close>

datatype frame_view = NewFrame snapshot_data | BadFrame | NothingNew

definition view_frame :: "inspect_calls \<Rightarrow> active_worker \<Rightarrow> frame_view" where
  "view_frame c w =
     (if \<not> (wk_reader w \<or> in_open c) then NothingNew
      else case in_snapshot c of
        Inr snap \<Rightarrow> if wk_sequence w < fn_sequence snap then NewFrame snap else NothingNew
      | Inl e \<Rightarrow> if e = Busy then NothingNew else BadFrame)"

definition startup_due :: "supervisor_config \<Rightarrow> inspect_calls \<Rightarrow> active_worker \<Rightarrow> bool" where
  "startup_due cfg c w \<longleftrightarrow> wk_sequence w = 0 \<and> started_out cfg c w"

definition frame_due :: "supervisor_config \<Rightarrow> inspect_calls \<Rightarrow> active_worker \<Rightarrow> bool" where
  "frame_due cfg c w \<longleftrightarrow> 0 < wk_sequence w \<and> cfg_frame_timeout cfg \<le> in_now c - wk_last_progress w"

lemma resident_check_result:
  "(\<exists>w' f. resident_check cfg c w = (w', Some f) \<and> fails_as (Some f) ResourceLimit \<and> over_resident_budget cfg c w)
   \<or> (\<exists>t. resident_check cfg c w = (w\<lparr>wk_last_resident_check := t\<rparr>, None) \<and> \<not> over_resident_budget cfg c w)"
proof (cases "\<not> in_as_enforced c \<and> resident_check_interval \<le> in_check_now c - wk_last_resident_check w")
  case False
  then have "resident_check cfg c w = (w\<lparr>wk_last_resident_check := wk_last_resident_check w\<rparr>, None)"
    by (auto simp: resident_check_def)
  moreover have "\<not> over_resident_budget cfg c w" using False by (auto simp: over_resident_budget_def)
  ultimately show ?thesis by blast
next
  case True
  then show ?thesis by (auto simp: resident_check_def over_resident_budget_def Let_def fails_as_def split: option.split)
qed

text \<open>The observation of a running worker whose memory is within the budget.\<close>

lemma frame_check_result:
  "snd (frame_check cfg c w) =
     (case view_frame c w of
        NewFrame snap \<Rightarrow> Some (Progress snap)
      | BadFrame \<Rightarrow>
          if wk_sequence w = 0
          then (if started_out cfg c w then Some (Failure StartupTimeout (in_snapshot_text c)) else None)
          else Some (Failure InvalidFrame (in_snapshot_text c))
      | NothingNew \<Rightarrow>
          if startup_due cfg c w then Some (Failure StartupTimeout ''no_valid_frame'')
          else if frame_due cfg c w then Some (Failure FrameTimeout ''frame_sequence_stalled'') else None)"
  by (auto simp: frame_check_def view_frame_def deadline_check_def started_out_def startup_due_def frame_due_def
      Let_def split: sum.split)

lemma inspect_running:
  assumes "inspect_worker cfg c w = (w', r)" "in_wait c = StillRunning"
  shows "over_resident_budget cfg c w \<longrightarrow> fails_as r ResourceLimit"
    "\<not> over_resident_budget cfg c w \<longrightarrow> r = snd (frame_check cfg c w)"
proof -
  let ?w = "w\<lparr>wk_stderr_ring := drain_stderr stderr_read_bytes_per_tick (in_stderr c) (wk_stderr_ring w)\<rparr>"
  have same: "over_resident_budget cfg c ?w = over_resident_budget cfg c w" by (simp add: over_resident_budget_def split: option.split)
  have frame: "snd (frame_check cfg c (?w\<lparr>wk_last_resident_check := t\<rparr>)) = snd (frame_check cfg c w)" for t
  proof -
    have "view_frame c (?w\<lparr>wk_last_resident_check := t\<rparr>) = view_frame c w"
      by (simp add: view_frame_def split: sum.split)
    then show ?thesis
      by (simp add: frame_check_result started_out_def startup_due_def frame_due_def split: frame_view.split)
  qed
  show "over_resident_budget cfg c w \<longrightarrow> fails_as r ResourceLimit" "\<not> over_resident_budget cfg c w \<longrightarrow> r = snd (frame_check cfg c w)"
    using resident_check_result [of cfg c ?w] assms frame
    by (auto simp: inspect_worker_def same, metis snd_conv)
qed

text \<open>
  C26: an observation is exactly what the table says. A worker that has exited fails, with a resource limit
  for code 71 and for the file size signal, with a refusal for codes 73 and 74, and as an exited process
  for any other code or signal; so does one that cannot be waited for. A running one fails with a resource
  limit when its resident memory was looked at and is over the budget; otherwise it makes progress exactly
  with a newer frame, its frame is invalid exactly when a snapshot fails after a first frame, and it runs
  into the startup or the frame deadline exactly when that has passed and nothing new was seen. No
  observation changes which process, content or command line the worker has.
\<close>

theorem inspect_correct:
  assumes "inspect_worker cfg c w = (w', r)"
  shows "same_worker w w'
    \<and> (in_wait c \<noteq> StillRunning \<longrightarrow>
         fails_as r (case in_wait c of
             Exited code \<Rightarrow> if code = 71 then ResourceLimit else if code = 73 \<or> code = 74 then Refused else ProcessExit
           | Signaled sig \<Rightarrow> if sig = 25 then ResourceLimit else ProcessExit
           | _ \<Rightarrow> ProcessExit))
    \<and> (in_wait c = StillRunning \<longrightarrow> over_resident_budget cfg c w \<longrightarrow> fails_as r ResourceLimit)
    \<and> (in_wait c = StillRunning \<longrightarrow> \<not> over_resident_budget cfg c w \<longrightarrow>
         (case view_frame c w of
            NewFrame snap \<Rightarrow> r = Some (Progress snap)
          | BadFrame \<Rightarrow>
              if 0 < wk_sequence w then fails_as r InvalidFrame
              else if startup_due cfg c w then fails_as r StartupTimeout else r = None
          | NothingNew \<Rightarrow>
              if startup_due cfg c w then fails_as r StartupTimeout
              else if frame_due cfg c w then fails_as r FrameTimeout else r = None))"
proof -
  have exited: "fails_as r (case in_wait c of
             Exited code \<Rightarrow> if code = 71 then ResourceLimit else if code = 73 \<or> code = 74 then Refused else ProcessExit
           | Signaled sig \<Rightarrow> if sig = 25 then ResourceLimit else ProcessExit
           | _ \<Rightarrow> ProcessExit)" if "in_wait c \<noteq> StillRunning"
    using assms that
    by (auto simp: inspect_worker_def Let_def exit_failure_def exit_backend_reject_def exit_no_drawable_content_def
        signal_file_size_def split: wait_status.splits)
  have "case view_frame c w of
            NewFrame snap \<Rightarrow> r = Some (Progress snap)
          | BadFrame \<Rightarrow>
              if 0 < wk_sequence w then fails_as r InvalidFrame
              else if startup_due cfg c w then fails_as r StartupTimeout else r = None
          | NothingNew \<Rightarrow>
              if startup_due cfg c w then fails_as r StartupTimeout
              else if frame_due cfg c w then fails_as r FrameTimeout else r = None"
    if "in_wait c = StillRunning" "\<not> over_resident_budget cfg c w"
    using inspect_running(2) [OF assms that(1)] that(2)
    by (auto simp: frame_check_result startup_due_def word_gt_0 split: frame_view.split)
  with exited inspect_running(1) [OF assms] inspect_keeps [OF assms] show ?thesis by blast
qed

definition sample_calls :: inspect_calls where
  "sample_calls = \<lparr>in_wait = StillRunning, in_stderr = [], in_as_enforced = True, in_check_now = 0,
     in_resident = None, in_now = 2000000000, in_open = False, in_snapshot = Inl Busy, in_snapshot_text = []\<rparr>"

lemma inspect_correct_witness:
  "fails_as (snd (inspect_worker sample_config sample_calls (new_worker sample_start 42 [] [] ''/h'' ''/f'' 0))) StartupTimeout
   \<and> fails_as (snd (inspect_worker sample_config (sample_calls\<lparr>in_wait := Exited 73\<rparr>)
         (new_worker sample_start 42 [] [] ''/h'' ''/f'' 0))) Refused"
  using inspect_correct [where cfg = sample_config and c = sample_calls
      and w = "new_worker sample_start 42 [] [] ''/h'' ''/f'' 0", OF surjective_pairing]
    inspect_correct [where cfg = sample_config and c = "sample_calls\<lparr>in_wait := Exited 73\<rparr>"
      and w = "new_worker sample_start 42 [] [] ''/h'' ''/f'' 0", OF surjective_pairing]
  by (simp add: sample_calls_def new_worker_def over_resident_budget_def view_frame_def startup_due_def started_out_def
      startup_timeout_for_def sample_config_def)

end
