(* ===== verification/Supervisor.thy ===== *)
theory Supervisor
  imports Worker_Inspect
begin

text \<open>
  \<open>crates/kwe-daemon/src/supervisor.rs\<close>, the supervisor itself: its state, the commands it serves and the tick
  that follows each of them. The outside world is a stream of answers: every operation that asks the
  operating system takes the answer of the next event, so a run over any stream is a run under any
  behaviour of processes, clocks, pipes and disks. Beside the fields of the code the state holds the
  state directory and the child processes that exist and have not been reaped.
\<close>

section \<open>State\<close>

datatype worker_phase =
    Idle | Starting | Canary | Live | Restarting | AwaitingAck | RolledBack | Stopped | Quarantined

record pending_restart =
  pn_spec :: start_spec
  pn_at :: nat

record retired_worker =
  rw_worker :: active_worker
  rw_generation :: u64
  rw_deadline :: nat
  rw_snapshot :: snapshot_data

record supervisor =
  sv_persisted :: persisted_state
  sv_grants :: persisted_grants
  sv_audio_grant_dropped :: u64
  sv_active :: "active_worker option"
  sv_candidate :: "active_worker option"
  sv_retired :: "retired_worker option"
  sv_pending :: "pending_restart option"
  sv_requested :: "start_spec option"
  sv_phase :: worker_phase
  sv_restart_count :: u32
  sv_last_failure :: "(failure_kind \<times> string) option"
  sv_launch_serial :: u64
  sv_display_generation :: u64
  sv_disk :: state_dir
  sv_children :: "nat list"
  sv_events :: nat

record os_answer =
  os_now :: nat
  os_unix :: u64
  os_launch :: launch_call
  os_gone :: bool
  os_polls :: "bool list"
  os_write :: write_io
  os_pipe :: write_call
  os_inspect :: inspect_calls
  os_service :: service_calls

record sv_context =
  cx_config :: supervisor_config
  cx_launch :: launch_env
  cx_state_json :: "persisted_state \<Rightarrow> u8 list"
  cx_grants_json :: "persisted_grants \<Rightarrow> u8 list"
  cx_pointer_json :: "pointer_message \<Rightarrow> u8 list option"
  cx_audio_json :: "audio_frame \<Rightarrow> u8 list option"
  cx_media_json :: "media_state \<Rightarrow> u8 list option"
  cx_parse_ack :: "u8 list \<Rightarrow> input_ack option"
  cx_error_text :: "store_error \<Rightarrow> string"
  cx_os :: "nat \<Rightarrow> os_answer"

datatype sv_error =
    HandoffPending | SaveFailed store_error | GenerationMismatch u64 | NoActiveRenderer
  | PromotionNotPersisted store_error | StaleGeneration | NothingPromoted | SequenceExhausted
  | InputRejected input_error | PipeRejected pipe_error | GrantRejected grant_error

definition supervisor_new ::
  "persisted_state \<Rightarrow> persisted_grants \<Rightarrow> state_dir \<Rightarrow> supervisor" where
  "supervisor_new persisted grants disk =
     \<lparr>sv_persisted = persisted, sv_grants = grants, sv_audio_grant_dropped = 0, sv_active = None,
      sv_candidate = None, sv_retired = None, sv_pending = None, sv_requested = None, sv_phase = Idle,
      sv_restart_count = 0, sv_last_failure = None, sv_launch_serial = 0, sv_display_generation = 0,
      sv_disk = disk, sv_children = [], sv_events = 0\<rparr>"

section \<open>The outside world\<close>

definition answer :: "sv_context \<Rightarrow> supervisor \<Rightarrow> os_answer" where
  "answer cx s = cx_os cx (sv_events s)"

definition asked :: "supervisor \<Rightarrow> supervisor" where
  "asked s = s\<lparr>sv_events := Suc (sv_events s)\<rparr>"

definition save_state :: "sv_context \<Rightarrow> supervisor \<Rightarrow> (store_error, unit) result \<times> supervisor" where
  "save_state cx s =
     (case state_save (cx_state_json cx) (sv_persisted s) (os_write (answer cx s)) (sv_disk s) of
        (r, d) \<Rightarrow> (r, asked s\<lparr>sv_disk := d\<rparr>))"

definition persist_good ::
  "sv_context \<Rightarrow> start_spec \<Rightarrow> snapshot_data \<Rightarrow> supervisor \<Rightarrow> (store_error, unit) result \<times> supervisor" where
  "persist_good cx spec snap s =
     (case persist_last_good (cx_state_json cx) spec snap (os_unix (answer cx s)) (os_write (answer cx s))
             (os_write (answer cx (asked s))) (sv_persisted s, sv_disk s) of
        (r, p, d) \<Rightarrow> (r, asked (asked s)\<lparr>sv_persisted := p, sv_disk := d\<rparr>))"

definition add_forced_kill :: "bool \<Rightarrow> persisted_state \<Rightarrow> persisted_state" where
  "add_forced_kill b p = (if b then p\<lparr>st_forced_kill_count := sat_add (st_forced_kill_count p) 1\<rparr> else p)"

definition stop_worker :: "sv_context \<Rightarrow> active_worker \<Rightarrow> bool \<Rightarrow> supervisor \<Rightarrow> supervisor" where
  "stop_worker cx w count_forced s =
     (let forced = fst (terminate_and_reap (os_gone (answer cx s)) (os_polls (answer cx s))) in
      asked s\<lparr>sv_children := remove1 (wk_pid w) (sv_children s),
        sv_persisted := add_forced_kill (forced \<and> count_forced) (sv_persisted s)\<rparr>)"

definition stop_candidate :: "sv_context \<Rightarrow> bool \<Rightarrow> supervisor \<Rightarrow> supervisor" where
  "stop_candidate cx count_forced s =
     (case sv_candidate s of
        Some w \<Rightarrow> stop_worker cx w count_forced (s\<lparr>sv_candidate := None\<rparr>)
      | None \<Rightarrow> s)"

definition stop_retired :: "sv_context \<Rightarrow> bool \<Rightarrow> supervisor \<Rightarrow> supervisor" where
  "stop_retired cx count_forced s =
     (case sv_retired s of
        Some r \<Rightarrow> stop_worker cx (rw_worker r) count_forced (s\<lparr>sv_retired := None\<rparr>)
      | None \<Rightarrow> s)"

definition stop_active :: "sv_context \<Rightarrow> bool \<Rightarrow> supervisor \<Rightarrow> supervisor" where
  "stop_active cx count_forced s =
     (case sv_active s of
        Some w \<Rightarrow> stop_worker cx w count_forced (s\<lparr>sv_active := None\<rparr>)
      | None \<Rightarrow> s)"

definition stop_all :: "sv_context \<Rightarrow> bool \<Rightarrow> supervisor \<Rightarrow> supervisor" where
  "stop_all cx count_forced s =
     stop_active cx count_forced (stop_retired cx count_forced (stop_candidate cx count_forced s))"

definition launch :: "sv_context \<Rightarrow> start_spec \<Rightarrow> supervisor \<Rightarrow> (string, active_worker) result \<times> supervisor" where
  "launch cx spec s =
     (let s1 = asked s\<lparr>sv_launch_serial := sv_launch_serial s + 1\<rparr>;
          r = spawn_worker (cx_config cx) (cx_launch cx) (sv_grants s) (sv_launch_serial s1)
                (os_launch (answer cx s)) (os_now (answer cx s)) spec
      in (r, case r of Inr w \<Rightarrow> s1\<lparr>sv_children := wk_pid w # sv_children s1\<rparr> | Inl _ \<Rightarrow> s1))"

section \<open>Failures\<close>

definition next_generation :: "u64 \<Rightarrow> u64" where "next_generation g = max (g + 1) 1"

definition clear_success_record :: "sv_context \<Rightarrow> start_spec \<Rightarrow> supervisor \<Rightarrow> supervisor" where
  "clear_success_record cx spec s =
     snd (save_state cx (s\<lparr>sv_persisted := (sv_persisted s)\<lparr>st_records := clear_records spec (st_records (sv_persisted s))\<rparr>,
        sv_last_failure := None\<rparr>))"

definition record_failure ::
  "sv_context \<Rightarrow> failure_kind \<Rightarrow> string \<Rightarrow> start_spec \<Rightarrow> supervisor \<Rightarrow> bool \<times> supervisor" where
  "record_failure cx kind detail spec s =
     (case strike (cfg_max_failures (cx_config cx)) kind detail (os_unix (answer cx s)) spec
             (st_records (sv_persisted s)) of
        (m, r) \<Rightarrow>
          (fr_quarantined r,
           snd (save_state cx (s\<lparr>sv_persisted := (sv_persisted s)\<lparr>st_records := m\<rparr>,
             sv_last_failure := Some (kind, fr_last_detail r)\<rparr>))))"

text \<open>The restart that both failure handlers schedule.\<close>

definition schedule_restart :: "sv_context \<Rightarrow> start_spec \<Rightarrow> supervisor \<Rightarrow> supervisor" where
  "schedule_restart cx spec s =
     asked s\<lparr>sv_restart_count := sat_add (sv_restart_count s) 1, sv_phase := Restarting,
       sv_pending := Some \<lparr>pn_spec = spec, pn_at = os_now (answer cx s) + cfg_restart_delay (cx_config cx)\<rparr>\<rparr>"

definition handle_candidate_failure ::
  "sv_context \<Rightarrow> failure_kind \<Rightarrow> string \<Rightarrow> start_spec \<Rightarrow> supervisor \<Rightarrow> supervisor" where
  "handle_candidate_failure cx kind detail spec s =
     (if kind = Refused
      then s\<lparr>sv_last_failure := Some (kind, truncate_detail detail), sv_pending := None,
             sv_requested := Some spec,
             sv_phase := (if sv_active s \<noteq> None then RolledBack else Stopped)\<rparr>
      else case record_failure cx kind detail spec s of
        (quarantined, s1) \<Rightarrow>
          if quarantined
          then s1\<lparr>sv_phase := (if sv_active s1 \<noteq> None then RolledBack else Quarantined), sv_pending := None\<rparr>
          else schedule_restart cx spec s1)"

definition handle_active_failure ::
  "sv_context \<Rightarrow> failure_kind \<Rightarrow> string \<Rightarrow> supervisor \<Rightarrow> supervisor" where
  "handle_active_failure cx kind0 detail s =
     (case sv_active s of
        None \<Rightarrow> s
      | Some w \<Rightarrow>
          (let kind = (if kind0 = Refused then ProcessExit else kind0);
               spec = wk_spec w;
               s1 = stop_worker cx w False (s\<lparr>sv_active := None\<rparr>) in
           case sv_retired s1 of
             Some r \<Rightarrow>
               (case record_failure cx kind detail spec
                       (s1\<lparr>sv_retired := None, sv_active := Some (rw_worker r),
                           sv_display_generation := next_generation (sv_display_generation s1),
                           sv_requested := Some spec\<rparr>) of
                  (quarantined, s2) \<Rightarrow>
                    if quarantined then s2\<lparr>sv_phase := RolledBack, sv_pending := None\<rparr>
                    else schedule_restart cx spec s2)
           | None \<Rightarrow>
               (case record_failure cx kind detail spec s1 of
                  (quarantined, s2) \<Rightarrow>
                    if sv_candidate s2 \<noteq> None then s2\<lparr>sv_phase := Starting\<rparr>
                    else if quarantined then s2\<lparr>sv_requested := Some spec, sv_phase := Quarantined\<rparr>
                    else schedule_restart cx spec (s2\<lparr>sv_requested := Some spec\<rparr>))))"

definition launch_candidate :: "sv_context \<Rightarrow> start_spec \<Rightarrow> supervisor \<Rightarrow> supervisor" where
  "launch_candidate cx spec s =
     (case launch cx spec s of
        (Inr w, s1) \<Rightarrow> s1\<lparr>sv_candidate := Some w, sv_phase := (if sv_active s1 \<noteq> None then Canary else Starting)\<rparr>
      | (Inl text, s1) \<Rightarrow> handle_candidate_failure cx LaunchFailed text spec s1)"

section \<open>Commands\<close>

definition start_selected ::
  "sv_context \<Rightarrow> start_spec \<Rightarrow> bool \<Rightarrow> supervisor \<Rightarrow> (sv_error, unit) result \<times> supervisor" where
  "start_selected cx spec clear_failure s =
     (if sv_retired s \<noteq> None then (Inl HandoffPending, s)
      else
        (let s1 = (stop_candidate cx False s)\<lparr>sv_pending := None, sv_restart_count := 0, sv_last_failure := None\<rparr> in
         if clear_failure
         then (case save_state cx (s1\<lparr>sv_persisted := (sv_persisted s1)\<lparr>st_records :=
                      clear_records spec (st_records (sv_persisted s1))\<rparr>\<rparr>) of
                 (Inl e, s2) \<Rightarrow> (Inl (SaveFailed e), s2)
               | (Inr _, s2) \<Rightarrow> (Inr (), launch_candidate cx spec (s2\<lparr>sv_requested := Some spec\<rparr>)))
         else (case record_of (sv_persisted s1) spec of
                 Some r \<Rightarrow>
                   if fr_quarantined r
                   then (Inr (), s1\<lparr>sv_last_failure := Some (fr_last_failure r, fr_last_detail r),
                          sv_requested := Some spec,
                          sv_phase := (if sv_active s1 \<noteq> None then RolledBack else Quarantined)\<rparr>)
                   else (Inr (), launch_candidate cx spec (s1\<lparr>sv_requested := Some spec\<rparr>))
               | None \<Rightarrow> (Inr (), launch_candidate cx spec (s1\<lparr>sv_requested := Some spec\<rparr>)))))"

definition stop_selected :: "sv_context \<Rightarrow> supervisor \<Rightarrow> (sv_error, unit) result \<times> supervisor" where
  "stop_selected cx s =
     (case save_state cx ((stop_all cx True (s\<lparr>sv_pending := None\<rparr>))\<lparr>sv_phase := Stopped\<rparr>) of
        (r, s1) \<Rightarrow> (map_err SaveFailed r, s1))"

definition go_live :: "supervisor \<Rightarrow> supervisor" where
  "go_live s = (if sv_active s \<noteq> None \<and> sv_candidate s = None then s\<lparr>sv_phase := Live\<rparr> else s)"

definition acknowledge_display ::
  "sv_context \<Rightarrow> u64 \<Rightarrow> supervisor \<Rightarrow> (sv_error, unit) result \<times> supervisor" where
  "acknowledge_display cx g s =
     (let expected = (case sv_retired s of Some r \<Rightarrow> rw_generation r | None \<Rightarrow> sv_display_generation s) in
      if g \<noteq> expected then (Inl (GenerationMismatch expected), s)
      else case sv_retired s of
        None \<Rightarrow> (Inr (), go_live s)
      | Some r \<Rightarrow>
          (case sv_active s of
             None \<Rightarrow> (Inl NoActiveRenderer, s)
           | Some w \<Rightarrow>
               (case persist_good cx (wk_spec w) (rw_snapshot r) (s\<lparr>sv_retired := None\<rparr>) of
                  (Inl e, s1) \<Rightarrow> (Inl (PromotionNotPersisted e), s1\<lparr>sv_retired := Some r\<rparr>)
                | (Inr _, s1) \<Rightarrow>
                    (Inr (), go_live (clear_success_record cx (wk_spec w) (stop_worker cx (rw_worker r) True s1))))))"

definition current_generation :: "u64 \<Rightarrow> supervisor \<Rightarrow> bool" where
  "current_generation g s \<longleftrightarrow> \<not> (g = 0 \<or> g \<noteq> sv_display_generation s)"

definition forward_pointer_input ::
  "sv_context \<Rightarrow> u64 \<Rightarrow> pointer_phase \<Rightarrow> float \<Rightarrow> float \<Rightarrow> pointer_button option \<Rightarrow> supervisor
     \<Rightarrow> (sv_error, unit) result \<times> supervisor" where
  "forward_pointer_input cx g ph x y button s =
     (if \<not> current_generation g s then (Inl StaleGeneration, s)
      else case sv_active s of
        None \<Rightarrow> (Inl NothingPromoted, s)
      | Some w \<Rightarrow>
          (case rbind (ok_or (checked_add (wk_input_sequence w) 1) SequenceExhausted) (\<lambda>seq.
                rbind (map_err InputRejected
                  (case button of Some b \<Rightarrow> button_event seq ph b x y | None \<Rightarrow> from_normalized seq ph x y)) (\<lambda>m.
                rbind (map_err InputRejected (encode_pointer_line (cx_pointer_json cx) m)) (\<lambda>bytes.
                  Inr (seq, m, bytes)))) of
             Inl e \<Rightarrow> (Inl e, s)
           | Inr (seq, m, bytes) \<Rightarrow>
               (case queue_control_message (os_pipe (answer cx s)) bytes (wk_pending_input w) (wk_input_coalesced w) of
                  (r, p, n) \<Rightarrow>
                    (let w1 = w\<lparr>wk_pending_input := p, wk_input_coalesced := n\<rparr> in
                     case r of
                       Inl e \<Rightarrow> (Inl (PipeRejected e), asked s\<lparr>sv_active := Some w1\<rparr>)
                     | Inr _ \<Rightarrow> (Inr (), asked s\<lparr>sv_active := Some (w1\<lparr>wk_input_sequence := seq,
                         wk_pointer_inside := (ph \<noteq> Leave), wk_pointer_x := pm_x m, wk_pointer_y := pm_y m\<rparr>)\<rparr>)))))"

definition forward_audio_frame ::
  "sv_context \<Rightarrow> u64 \<Rightarrow> audio_frame \<Rightarrow> supervisor \<Rightarrow> (sv_error, unit) result \<times> supervisor" where
  "forward_audio_frame cx g frame s =
     (if \<not> current_generation g s then (Inl StaleGeneration, s)
      else case sv_active s of
        None \<Rightarrow> (Inl NothingPromoted, s)
      | Some w \<Rightarrow>
          if \<not> gr_audio (grant_of (sv_grants s) (ss_wallpaper_id (wk_spec w)))
          then (Inr (), s\<lparr>sv_audio_grant_dropped := sat_add (sv_audio_grant_dropped s) 1\<rparr>)
          else (case encode_audio_frame (cx_audio_json cx) frame of
             Inl e \<Rightarrow> (Inl (InputRejected e), s)
           | Inr bytes \<Rightarrow>
               (case queue_control_message (os_pipe (answer cx s)) bytes (wk_pending_audio w) (wk_audio_coalesced w) of
                  (r, p, n) \<Rightarrow>
                    (let w1 = w\<lparr>wk_pending_audio := p, wk_audio_coalesced := n\<rparr> in
                     case r of
                       Inl e \<Rightarrow> (Inl (PipeRejected e), asked s\<lparr>sv_active := Some w1\<rparr>)
                     | Inr _ \<Rightarrow> (Inr (), asked s\<lparr>sv_active := Some (w1\<lparr>wk_input_sequence :=
                         raise_ack_ceiling (wk_input_sequence w) g\<rparr>)\<rparr>)))))"

definition forward_media_state ::
  "sv_context \<Rightarrow> u64 \<Rightarrow> media_state \<Rightarrow> supervisor \<Rightarrow> (sv_error, unit) result \<times> supervisor" where
  "forward_media_state cx g state s =
     (if \<not> current_generation g s then (Inl StaleGeneration, s)
      else case sv_active s of
        None \<Rightarrow> (Inl NothingPromoted, s)
      | Some w \<Rightarrow>
          (case encode_media_state (cx_media_json cx) state of
             Inl e \<Rightarrow> (Inl (InputRejected e), s)
           | Inr bytes \<Rightarrow>
               (case queue_control_message (os_pipe (answer cx s)) bytes (wk_pending_media w) (wk_media_coalesced w) of
                  (r, p, n) \<Rightarrow>
                    (let w1 = w\<lparr>wk_pending_media := p, wk_media_coalesced := n\<rparr> in
                     case r of
                       Inl e \<Rightarrow> (Inl (PipeRejected e), asked s\<lparr>sv_active := Some w1\<rparr>)
                     | Inr _ \<Rightarrow> (Inr (), asked s\<lparr>sv_active := Some (w1\<lparr>wk_input_sequence :=
                         raise_ack_ceiling (wk_input_sequence w) g\<rparr>)\<rparr>)))))"

definition permissions_set ::
  "sv_context \<Rightarrow> string \<Rightarrow> grant_patch \<Rightarrow> supervisor \<Rightarrow> (sv_error, grant) result \<times> supervisor" where
  "permissions_set cx wid patch s =
     (case grants_set (cx_grants_json cx) (os_write (answer cx s)) wid patch (sv_grants s, sv_disk s) of
        (r, g, d) \<Rightarrow> (map_err GrantRejected r, asked s\<lparr>sv_grants := g, sv_disk := d\<rparr>))"

section \<open>The tick\<close>

definition complete_handoff_timeout :: "sv_context \<Rightarrow> supervisor \<Rightarrow> supervisor" where
  "complete_handoff_timeout cx s =
     (case sv_retired s of
        None \<Rightarrow> s
      | Some r \<Rightarrow>
          (case sv_active s of
             None \<Rightarrow> s\<lparr>sv_retired := None, sv_active := Some (rw_worker r), sv_phase := RolledBack\<rparr>
           | Some w \<Rightarrow>
               (case persist_good cx (wk_spec w) (rw_snapshot r) (s\<lparr>sv_retired := None\<rparr>) of
                  (Inr _, s1) \<Rightarrow>
                    (clear_success_record cx (wk_spec w) (stop_worker cx (rw_worker r) True s1))\<lparr>sv_phase := Live\<rparr>
                | (Inl e, s1) \<Rightarrow>
                    (let s2 = stop_active cx False s1 in
                     handle_candidate_failure cx InvalidFrame (''persist_last_good:'' @ cx_error_text cx e) (wk_spec w)
                       (s2\<lparr>sv_active := Some (rw_worker r),
                           sv_display_generation := next_generation (sv_display_generation s2)\<rparr>)))))"

text \<open>The promotion after the first worker's frame was persisted or a previous worker exists.\<close>

definition install_promoted ::
  "sv_context \<Rightarrow> active_worker \<Rightarrow> active_worker option \<Rightarrow> snapshot_data \<Rightarrow> supervisor \<Rightarrow> supervisor" where
  "install_promoted cx promoted previous snap s =
     (let s1 = s\<lparr>sv_active := Some promoted, sv_display_generation := next_generation (sv_display_generation s),
               sv_pending := None, sv_restart_count := 0\<rparr> in
      case previous of
        Some w \<Rightarrow> asked s1\<lparr>sv_retired := Some \<lparr>rw_worker = w, rw_generation = sv_display_generation s1,
                   rw_deadline = os_now (answer cx s1) + cfg_handoff_timeout (cx_config cx), rw_snapshot = snap\<rparr>,
                 sv_phase := AwaitingAck\<rparr>
      | None \<Rightarrow> (clear_success_record cx (wk_spec promoted) s1)\<lparr>sv_phase := Live\<rparr>)"

definition promote_candidate :: "sv_context \<Rightarrow> snapshot_data \<Rightarrow> supervisor \<Rightarrow> supervisor" where
  "promote_candidate cx snap s =
     (case sv_candidate s of
        None \<Rightarrow> s
      | Some w \<Rightarrow>
          (let promoted = w\<lparr>wk_last_snapshot_saved := Some (os_now (answer cx s))\<rparr>;
               previous = sv_active s;
               s1 = asked s\<lparr>sv_candidate := None, sv_active := None\<rparr> in
           case previous of
             Some v \<Rightarrow> install_promoted cx promoted (Some v) snap s1
           | None \<Rightarrow>
               (case persist_good cx (wk_spec w) snap s1 of
                  (Inl e, s2) \<Rightarrow>
                    handle_candidate_failure cx InvalidFrame (''persist_last_good:'' @ cx_error_text cx e) (wk_spec w)
                      (stop_worker cx promoted False s2)
                | (Inr _, s2) \<Rightarrow> install_promoted cx promoted None snap s2)))"

definition tick_service :: "sv_context \<Rightarrow> supervisor \<Rightarrow> supervisor" where
  "tick_service cx s =
     (case sv_active s of
        None \<Rightarrow> s
      | Some w \<Rightarrow> asked s\<lparr>sv_active := Some (service_input (cx_parse_ack cx) (os_service (answer cx s)) w)\<rparr>)"

definition tick_handoff :: "sv_context \<Rightarrow> supervisor \<Rightarrow> supervisor" where
  "tick_handoff cx s =
     (case sv_retired s of
        None \<Rightarrow> s
      | Some r \<Rightarrow>
          if rw_deadline r \<le> os_now (answer cx s) then complete_handoff_timeout cx (asked s) else asked s)"

definition tick_pending :: "sv_context \<Rightarrow> supervisor \<Rightarrow> supervisor" where
  "tick_pending cx s =
     (if sv_candidate s \<noteq> None then s
      else case sv_pending s of
        None \<Rightarrow> s
      | Some p \<Rightarrow>
          if os_now (answer cx s) < pn_at p then asked s
          else launch_candidate cx (pn_spec p) (asked s\<lparr>sv_pending := None\<rparr>))"

definition snapshot_interval :: nat where "snapshot_interval = 30000000000"

definition save_due :: "nat \<Rightarrow> active_worker \<Rightarrow> bool" where
  "save_due now w =
     (case wk_last_snapshot_saved w of None \<Rightarrow> True | Some t \<Rightarrow> snapshot_interval \<le> now - t)"

definition tick_active :: "sv_context \<Rightarrow> supervisor \<Rightarrow> supervisor" where
  "tick_active cx s =
     (case sv_active s of
        None \<Rightarrow> s
      | Some w0 \<Rightarrow>
          (case inspect_worker (cx_config cx) (os_inspect (answer cx s)) w0 of
             (w, obs) \<Rightarrow>
               (let s1 = asked s\<lparr>sv_active := Some w\<rparr> in
                case obs of
                  None \<Rightarrow> s1
                | Some (Failure kind detail) \<Rightarrow> handle_active_failure cx kind detail s1
                | Some (Progress snap) \<Rightarrow>
                    (let now = os_now (answer cx s1); s2 = asked s1 in
                     if sv_retired s2 = None \<and> save_due now w
                     then snd (persist_good cx (wk_spec w) snap
                                 (s2\<lparr>sv_active := Some (w\<lparr>wk_last_snapshot_saved := Some now\<rparr>)\<rparr>))
                     else s2))))"

definition tick_candidate :: "sv_context \<Rightarrow> supervisor \<Rightarrow> supervisor" where
  "tick_candidate cx s =
     (case sv_candidate s of
        None \<Rightarrow> s
      | Some w0 \<Rightarrow>
          (case inspect_worker (cx_config cx) (os_inspect (answer cx s)) w0 of
             (w, obs) \<Rightarrow>
               (let s1 = asked s\<lparr>sv_candidate := Some w\<rparr> in
                case obs of
                  None \<Rightarrow> s1
                | Some (Failure kind detail) \<Rightarrow>
                    handle_candidate_failure cx kind detail (wk_spec w) (stop_candidate cx False s1)
                | Some (Progress snap) \<Rightarrow>
                    (let now = os_now (answer cx s1); s2 = asked s1 in
                     if 3 \<le> wk_sequence w \<and> cfg_canary_duration (cx_config cx) \<le> now - wk_started w
                     then promote_candidate cx snap s2
                     else if sv_active s2 \<noteq> None then s2\<lparr>sv_phase := Canary\<rparr>
                     else s2))))"

definition tick :: "sv_context \<Rightarrow> supervisor \<Rightarrow> supervisor" where
  "tick cx s = tick_candidate cx (tick_active cx (tick_pending cx (tick_handoff cx (tick_service cx s))))"

section \<open>Status\<close>

record worker_status =
  ws_phase :: worker_phase
  ws_kind :: renderer_kind
  ws_wallpaper_id :: "string option"
  ws_content_hash :: "string option"
  ws_pid :: "nat option"
  ws_frame_file :: "string option"
  ws_last_good_file :: "string option"
  ws_sequence :: u64
  ws_failures :: u32
  ws_restart_count :: u32
  ws_forced_kill_count :: u64
  ws_last_failure :: "failure_kind option"
  ws_last_failure_detail :: "string option"
  ws_quarantined :: bool
  ws_scaling :: scaling_mode
  ws_requested_wallpaper_id :: "string option"
  ws_requested_content_hash :: "string option"
  ws_candidate_pid :: "nat option"
  ws_candidate_frame_file :: "string option"
  ws_candidate_sequence :: u64
  ws_previous_pid :: "nat option"
  ws_previous_frame_file :: "string option"
  ws_display_generation :: u64
  ws_awaiting_display_ack :: bool
  ws_resource_limits :: renderer_limits
  ws_input_sequence :: u64
  ws_input_ack_sequence :: u64
  ws_input_pending :: bool
  ws_input_coalesced :: u64
  ws_input_protocol_errors :: u64
  ws_pointer_inside :: bool
  ws_pointer_x :: u16
  ws_pointer_y :: u16
  ws_audio_pending :: bool
  ws_audio_coalesced :: u64
  ws_audio_grant_dropped :: u64
  ws_media_pending :: bool
  ws_media_coalesced :: u64
  ws_stderr_tail :: "string list"
  ws_stderr_dropped_bytes :: u64
  ws_capability_limitations :: "string list"

text \<open>\<open>Option::map\_or\<close> and a field of the active spec or, without one, of the requested one.\<close>

definition map_or :: "'b \<Rightarrow> ('a \<Rightarrow> 'b) \<Rightarrow> 'a option \<Rightarrow> 'b" where
  "map_or d f x = (case x of Some v \<Rightarrow> f v | None \<Rightarrow> d)"

definition shown_spec :: "supervisor \<Rightarrow> start_spec option" where
  "shown_spec s = (case sv_active s of Some w \<Rightarrow> Some (wk_spec w) | None \<Rightarrow> sv_requested s)"

definition supervisor_status :: "sv_context \<Rightarrow> supervisor \<Rightarrow> worker_status" where
  "supervisor_status cx s =
     (let active = sv_active s; requested = sv_requested s; candidate = sv_candidate s;
          record = Option.bind requested (record_of (sv_persisted s));
          status_kind = map_or KindTest ss_kind (shown_spec s) in
      \<lparr>ws_phase = sv_phase s, ws_kind = status_kind,
       ws_wallpaper_id = map_option (ss_wallpaper_id \<circ> wk_spec) active,
       ws_content_hash = map_option (ss_content_hash \<circ> wk_spec) active,
       ws_pid = map_option wk_pid active, ws_frame_file = map_option wk_frame_path active,
       ws_last_good_file = map_option (\<lambda>lg. path_join (cfg_state_dir (cx_config cx)) (lg_file lg))
         (st_last_good (sv_persisted s)),
       ws_sequence = map_or 0 wk_sequence active, ws_failures = map_or 0 fr_failures record,
       ws_restart_count = sv_restart_count s,
       ws_forced_kill_count = st_forced_kill_count (sv_persisted s),
       ws_last_failure = map_option fst (sv_last_failure s),
       ws_last_failure_detail = map_option snd (sv_last_failure s),
       ws_quarantined = map_or False fr_quarantined record,
       ws_scaling = map_or Aspect ss_scaling (shown_spec s),
       ws_requested_wallpaper_id = map_option ss_wallpaper_id requested,
       ws_requested_content_hash = map_option ss_content_hash requested,
       ws_candidate_pid = map_option wk_pid candidate,
       ws_candidate_frame_file = map_option wk_frame_path candidate,
       ws_candidate_sequence = map_or 0 wk_sequence candidate,
       ws_previous_pid = map_option (wk_pid \<circ> rw_worker) (sv_retired s),
       ws_previous_frame_file = map_option (wk_frame_path \<circ> rw_worker) (sv_retired s),
       ws_display_generation = sv_display_generation s,
       ws_awaiting_display_ack = (sv_retired s \<noteq> None),
       ws_resource_limits = the (resource_limits_for (cx_config cx) status_kind),
       ws_input_sequence = map_or 0 wk_input_sequence active,
       ws_input_ack_sequence = map_or 0 (ak_sequence \<circ> wk_ack) active,
       ws_input_pending = map_or False (\<lambda>w. wk_pending_input w \<noteq> None) active,
       ws_input_coalesced = map_or 0 wk_input_coalesced active,
       ws_input_protocol_errors = map_or 0 (ak_errors \<circ> wk_ack) active,
       ws_pointer_inside = map_or False wk_pointer_inside active,
       ws_pointer_x = map_or 0 wk_pointer_x active, ws_pointer_y = map_or 0 wk_pointer_y active,
       ws_audio_pending = map_or False (\<lambda>w. wk_pending_audio w \<noteq> None) active,
       ws_audio_coalesced = map_or 0 wk_audio_coalesced active,
       ws_audio_grant_dropped = sv_audio_grant_dropped s,
       ws_media_pending = map_or False (\<lambda>w. wk_pending_media w \<noteq> None) active,
       ws_media_coalesced = map_or 0 wk_media_coalesced active,
       ws_stderr_tail = map_or [] (sr_tail \<circ> wk_stderr_ring) active,
       ws_stderr_dropped_bytes = map_or 0 (sr_dropped_bytes \<circ> wk_stderr_ring) active,
       ws_capability_limitations = map_or [] ss_capability_limitations (shown_spec s)\<rparr>)"

section \<open>The loop\<close>

text \<open>The messages of the command channel; \<open>CmdTimeout\<close> is a poll interval without one.\<close>

datatype sv_command =
    CmdStart start_spec | CmdRetry start_spec | CmdStop | CmdStatus | CmdAcknowledge u64
  | CmdPointer u64 pointer_phase float float "pointer_button option"
  | CmdAudio u64 audio_frame | CmdMedia u64 media_state
  | CmdPermissionsGet string | CmdPermissionsSet string grant_patch | CmdPermissionsList
  | CmdQuarantinedIds | CmdTimeout

datatype sv_reply =
    ReplyStatus "(sv_error, worker_status) result" | ReplyGrant "(sv_error, grant) result"
  | ReplyGrants "(string, grant) mapping" | ReplyIds "string set" | NoReply

definition status_reply :: "sv_context \<Rightarrow> (sv_error, unit) result \<times> supervisor \<Rightarrow> sv_reply \<times> supervisor" where
  "status_reply cx rs = (case rs of (r, s) \<Rightarrow> (ReplyStatus (rbind r (\<lambda>_. Inr (supervisor_status cx s))), s))"

fun handle_command :: "sv_context \<Rightarrow> sv_command \<Rightarrow> supervisor \<Rightarrow> sv_reply \<times> supervisor" where
  "handle_command cx (CmdStart spec) s = status_reply cx (start_selected cx spec False s)"
| "handle_command cx (CmdRetry spec) s = status_reply cx (start_selected cx spec True s)"
| "handle_command cx CmdStop s = status_reply cx (stop_selected cx s)"
| "handle_command cx CmdStatus s = status_reply cx (Inr (), s)"
| "handle_command cx (CmdAcknowledge g) s = status_reply cx (acknowledge_display cx g s)"
| "handle_command cx (CmdPointer g ph x y b) s = status_reply cx (forward_pointer_input cx g ph x y b s)"
| "handle_command cx (CmdAudio g f) s = status_reply cx (forward_audio_frame cx g f s)"
| "handle_command cx (CmdMedia g m) s = status_reply cx (forward_media_state cx g m s)"
| "handle_command cx (CmdPermissionsGet w) s = (ReplyGrant (Inr (grant_of (sv_grants s) w)), s)"
| "handle_command cx (CmdPermissionsSet w p) s = (case permissions_set cx w p s of (r, s') \<Rightarrow> (ReplyGrant r, s'))"
| "handle_command cx CmdPermissionsList s = (ReplyGrants (pg_grants (sv_grants s)), s)"
| "handle_command cx CmdQuarantinedIds s = (ReplyIds (quarantined_ids (st_records (sv_persisted s))), s)"
| "handle_command cx CmdTimeout s = (NoReply, s)"

definition supervisor_step :: "sv_context \<Rightarrow> supervisor \<Rightarrow> sv_command \<Rightarrow> supervisor" where
  "supervisor_step cx s cmd = tick cx (snd (handle_command cx cmd s))"

definition supervisor_serve :: "sv_context \<Rightarrow> sv_command list \<Rightarrow> supervisor \<Rightarrow> supervisor" where
  "supervisor_serve cx cmds s = foldl (supervisor_step cx) s cmds"

text \<open>The whole life of the thread: the commands until the shutdown (or the last sender's drop).\<close>

definition supervisor_run :: "sv_context \<Rightarrow> sv_command list \<Rightarrow> supervisor \<Rightarrow> supervisor" where
  "supervisor_run cx cmds s = stop_all cx False (supervisor_serve cx cmds s)"

section \<open>A sample world\<close>

text \<open>Every call succeeds: launches give children, writes complete, each observation shows a newer frame.\<close>

definition sample_answer :: "nat \<Rightarrow> os_answer" where
  "sample_answer n =
     \<lparr>os_now = n * 1000000000, os_unix = 9, os_launch = Launched (40 + n), os_gone = True, os_polls = [],
      os_write = sample_write_io\<lparr>aw_nanos := n\<rparr>, os_pipe = WriteBlocked,
      os_inspect = sample_calls\<lparr>in_open := True, in_snapshot := Inr (sample_snapshot\<lparr>fn_sequence := word_of_nat n\<rparr>)\<rparr>,
      os_service = \<lparr>sc_acks = [], sc_input = WriteBlocked, sc_audio = WriteBlocked, sc_media = WriteBlocked\<rparr>\<rparr>"

definition sample_context :: sv_context where
  "sample_context =
     \<lparr>cx_config = sample_config, cx_launch = sample_launch_env,
      cx_state_json = (\<lambda>x. if st_last_good x = Some sample_last_good then [1] else [0]),
      cx_grants_json = (\<lambda>_. [2]), cx_pointer_json = (\<lambda>_. Some [3]), cx_audio_json = (\<lambda>_. Some [4]),
      cx_media_json = (\<lambda>_. Some [5]), cx_parse_ack = (\<lambda>_. None), cx_error_text = (\<lambda>_. []),
      cx_os = sample_answer\<rparr>"

end
