(* ===== verification/Playlist_Session.thy ===== *)
theory Playlist_Session
  imports Playlist_Runtime Persist Supervisor
begin

text \<open>
  \<open>crates/kwe-daemon/src/playlist\_session.rs\<close>: the daemon's playlist session. It holds the playlist
  definitions, one runtime for each playlist that was activated, the snapshots of the runtime-state file, and
  the state of the apply lane: a worker thread with a request queue and a completion queue of one place
  each. An event is a command, a tick or a step of the worker; a record of answers holds what the clock,
  the supervisor, the file system and the apply transaction returned during it. The two files of the
  session live in one directory; as no operation on one touches the other they are kept apart here
  (\<open>se_defs\<close>, \<open>se_disk\<close>). \<open>serde\_json\<close> is a parameter. Log lines are not modelled.
\<close>

section \<open>Constants\<close>

definition waiting_persist_interval_ms :: nat where "waiting_persist_interval_ms = 30 * 1000"
definition max_runtime_state_bytes :: nat where "max_runtime_state_bytes = 4 * 1024 * 1024"
definition max_snapshot_entries :: nat where "max_snapshot_entries = 256"
definition max_clock_skip_ms :: u64 where "max_clock_skip_ms = 60 * 60 * 1000"
definition runtime_state_schema_version :: u32 where "runtime_state_schema_version = 1"
definition runtime_state_file :: string where "runtime_state_file = ''playlist-runtime-v1.json''"
definition definitions_file :: string where "definitions_file = ''playlists-v1.json''"
definition apply_backoff_base_ms :: nat where "apply_backoff_base_ms = 1000"
definition apply_backoff_max_ms :: nat where "apply_backoff_max_ms = 30 * 1000"
definition apply_queue_capacity :: nat where "apply_queue_capacity = 1"

section \<open>Data\<close>

text \<open>The errors of an apply transaction (\<open>apply.rs\<close>).\<close>

datatype apply_error =
    ApInvalid string | ApUnknownWallpaper string | ApIncompatible string | ApOutputMissing string
  | ApBusy | ApYielded string | ApShellUnreachable string | ApDisplayUnavailable string
  | ApTransaction string | ApQuarantined string | ApRestoreFailed string
  | ApCapabilityGate string "string list" "string option"

datatype invalid_detail = InvalidPlaylist playlist_error | InvalidCount | InvalidClockSkip

datatype session_error =
    SessionNotFound string
  | SessionImportBlocked
  | SessionStoreUnavailable playlist_error
  | SessionInvalid invalid_detail
  | SessionBusy string

record import_playlist =
  im_title :: string
  im_entries :: "string list"
  im_shuffle :: bool
  im_repeat :: bool
  im_duration_seconds :: u32
  im_transition :: string
  im_transition_seconds :: u8

datatype import_error = UnknownTransition string | ImportRejected playlist_error

record import_summary =
  is_imported :: nat
  is_rejected :: nat

record persisted_session =
  ps_schema_version :: u32
  ps_active :: "string option"
  ps_snapshots :: "(string, runtime_snapshot) mapping"

record apply_request =
  ar_output :: "string option"
  ar_wallpaper_id :: string
  ar_entries :: "string set"
  ar_applied :: "string option"

record apply_outcome =
  ao_wallpaper_id :: string
  ao_result :: "(apply_error, unit) result"

text \<open>The worker thread; \<open>WorkerGone\<close> is a thread that has ended, its channel ends dropped.\<close>

datatype apply_worker = WorkerIdle | WorkerBusy apply_request | WorkerGone

record apply_lane =
  al_requests :: "apply_request list"
  al_worker :: apply_worker
  al_done :: "apply_outcome list"

record session =
  se_supervisor :: bool
  se_output :: "string option"
  se_lane :: "apply_lane option"
  se_playlists :: "playlist list"
  se_store_error :: "playlist_error option"
  se_runtimes :: "(string, playlist_runtime) mapping"
  se_snapshots :: "(string, runtime_snapshot) mapping"
  se_active :: "string option"
  se_last_decision :: "rt_decision option"
  se_last_waiting_persist :: nat
  se_valid_ids :: "string set"
  se_quarantined_ids :: "string set"
  se_gate_refused_ids :: "string set"
  se_applied_wallpaper :: "string option"
  se_apply_failures :: u32
  se_next_apply_retry :: nat
  se_apply_in_flight :: bool
  se_last_status_error :: "string option"
  se_clock_offset_ms :: u64
  se_clock_skipped_ms :: u64
  se_defs :: directory
  se_disk :: state_dir

text \<open>
  What the calls of one event returned. \<open>sa_elapsed\<close> is the elapsed time since the start of the session
  in milliseconds (\<open>sa_elapsed_after\<close> at the second reading of a clock skip); the three instants of a
  tick are those of the fold, of the waiting check and of the verdict.
\<close>

record session_answer =
  sa_elapsed :: u64
  sa_elapsed_after :: u64
  sa_fold_at :: nat
  sa_persist_at :: nat
  sa_verdict_at :: nat
  sa_quarantined :: "(string, string set) result"
  sa_status :: "(string, worker_status) result"
  sa_save :: save_io
  sa_write :: write_io

record session_env =
  sx_pid :: nat
  sx_ser_playlists :: "playlist list \<Rightarrow> u8 list"
  sx_parse_playlists :: "u8 list \<Rightarrow> playlist list option"
  sx_ser_state :: "persisted_session \<Rightarrow> u8 list"
  sx_parse_state :: "u8 list \<Rightarrow> persisted_session option"

section \<open>Decisions and verdicts\<close>

fun decision_wallpaper_id :: "rt_decision \<Rightarrow> string option" where
  "decision_wallpaper_id (Started w i d) = Some w"
| "decision_wallpaper_id (Waiting w i r) = Some w"
| "decision_wallpaper_id (Advanced w i d) = Some w"
| "decision_wallpaper_id (Paused w i r) = Some w"
| "decision_wallpaper_id Exhausted = None"
| "decision_wallpaper_id NoEligible = None"

fun decision_signature :: "rt_decision \<Rightarrow> nat \<times> string \<times> nat" where
  "decision_signature (Started w i d) = (0, w, i)"
| "decision_signature (Waiting w i r) = (1, w, i)"
| "decision_signature (Advanced w i d) = (2, w, i)"
| "decision_signature (Paused w i r) = (3, w, i)"
| "decision_signature Exhausted = (4, [], 0)"
| "decision_signature NoEligible = (5, [], 0)"

fun is_waiting :: "rt_decision \<Rightarrow> bool" where
  "is_waiting (Waiting w i r) = True"
| "is_waiting _ = False"

definition phase_has_live_worker :: "worker_phase \<Rightarrow> bool" where
  "phase_has_live_worker ph \<longleftrightarrow>
     (case ph of Starting \<Rightarrow> True | Canary \<Rightarrow> True | Live \<Rightarrow> True | AwaitingAck \<Rightarrow> True
      | Restarting \<Rightarrow> True | RolledBack \<Rightarrow> True | _ \<Rightarrow> False)"

datatype verdict = VerdictSatisfied | VerdictYield | VerdictHold | VerdictWait | VerdictApply

definition apply_verdict :: "string option \<Rightarrow> string \<Rightarrow> worker_status \<Rightarrow> bool \<Rightarrow> verdict" where
  "apply_verdict applied desired status retry_ready =
     (if ws_requested_wallpaper_id status = Some desired \<and> phase_has_live_worker (ws_phase status) then
        (if (ws_phase status = RolledBack \<or> ws_phase status = Restarting)
             \<and> ws_wallpaper_id status \<noteq> Some desired
         then VerdictWait else VerdictSatisfied)
      else if phase_has_live_worker (ws_phase status) then
        (if ws_requested_wallpaper_id status = applied
         then (if retry_ready then VerdictApply else VerdictHold)
         else VerdictYield)
      else if retry_ready then VerdictApply else VerdictHold)"

definition foreign_renderer_live :: "worker_status \<Rightarrow> string \<Rightarrow> string option \<Rightarrow> bool" where
  "foreign_renderer_live status desired applied \<longleftrightarrow>
     phase_has_live_worker (ws_phase status)
     \<and> ws_requested_wallpaper_id status \<noteq> Some desired
     \<and> ws_requested_wallpaper_id status \<noteq> applied"

definition apply_backoff :: "u32 \<Rightarrow> nat" where
  "apply_backoff failures =
     min (apply_backoff_base_ms * 2 ^ min (unat (sat_sub failures 1)) 5) apply_backoff_max_ms"

section \<open>Queries\<close>

definition find_playlist :: "string \<Rightarrow> playlist list \<Rightarrow> playlist option" where
  "find_playlist ident ps = List.find (\<lambda>p. pl_id p = ident) ps"

definition now_ms :: "u64 \<Rightarrow> session \<Rightarrow> u64" where
  "now_ms elapsed s = elapsed + se_clock_offset_ms s"

definition entry_unavailable :: "session \<Rightarrow> string \<Rightarrow> bool" where
  "entry_unavailable s e \<longleftrightarrow>
     e \<notin> se_valid_ids s \<or> e \<in> se_quarantined_ids s \<or> e \<in> se_gate_refused_ids s"

definition unavailable_for :: "session \<Rightarrow> playlist \<Rightarrow> string list" where
  "unavailable_for s p = remdups_adj (sort (filter (entry_unavailable s) (pl_entries p)))"

definition definitions_health :: "session \<Rightarrow> nat \<times> string" where
  "definitions_health s =
     (length (se_playlists s), if se_store_error s \<noteq> None then ''corrupt'' else ''ok'')"

record session_status =
  st_active :: bool
  st_playlist_id :: "string option"
  st_decision :: "rt_decision option"
  st_unavailable_ids :: "string list"
  st_definitions :: "nat \<times> string"
  st_clock_skipped_ms :: u64

definition session_status :: "session \<Rightarrow> session_status" where
  "session_status s =
     \<lparr>st_active = (se_active s \<noteq> None), st_playlist_id = se_active s, st_decision = se_last_decision s,
      st_unavailable_ids =
        (case Option.bind (se_active s) (\<lambda>i. find_playlist i (se_playlists s)) of
           Some p \<Rightarrow> unavailable_for s p | None \<Rightarrow> []),
      st_definitions = definitions_health s,
      st_clock_skipped_ms = se_clock_skipped_ms s\<rparr>"

text \<open>The snapshot of the runtime of a playlist, when both exist and it can be taken.\<close>

definition current_snapshot :: "u64 \<Rightarrow> string \<Rightarrow> session \<Rightarrow> runtime_snapshot option" where
  "current_snapshot now ident s =
     (case find_playlist ident (se_playlists s) of
        None \<Rightarrow> None
      | Some p \<Rightarrow>
          (case Mapping.lookup (se_runtimes s) ident of
             None \<Rightarrow> None
           | Some rt \<Rightarrow> (case rt_snapshot p now rt of Inr sn \<Rightarrow> Some sn | Inl _ \<Rightarrow> None)))"

section \<open>Persistence\<close>

definition persisted_state :: "session \<Rightarrow> persisted_session" where
  "persisted_state s = \<lparr>ps_schema_version = runtime_state_schema_version, ps_active = se_active s,
     ps_snapshots = se_snapshots s\<rparr>"

definition encode_state :: "session_env \<Rightarrow> session \<Rightarrow> u8 list" where
  "encode_state cx s = sx_ser_state cx (persisted_state s)"

text \<open>The eviction loop, over the keys of the snapshots in order without the active one.\<close>

fun evict_snapshots :: "session_env \<Rightarrow> string list \<Rightarrow> session \<Rightarrow> session" where
  "evict_snapshots cx [] s = s"
| "evict_snapshots cx (k # ks) s =
     (if max_runtime_state_bytes < length (encode_state cx s)
      then evict_snapshots cx ks (s\<lparr>se_snapshots := Mapping.delete k (se_snapshots s)\<rparr>)
      else s)"

definition persist_state :: "session_env \<Rightarrow> write_io \<Rightarrow> session \<Rightarrow> session" where
  "persist_state cx io s0 =
     (let s = evict_snapshots cx
                (filter (\<lambda>k. Some k \<noteq> se_active s0) (Mapping.ordered_keys (se_snapshots s0))) s0;
          bytes = encode_state cx s
      in if max_runtime_state_bytes < length bytes then s
         else s\<lparr>se_disk := snd (atomic_write runtime_state_file bytes io (se_disk s))\<rparr>)"

definition maybe_persist ::
  "session_env \<Rightarrow> session_answer \<Rightarrow> string \<Rightarrow> rt_decision \<Rightarrow> u64 \<Rightarrow> session \<Rightarrow> session" where
  "maybe_persist cx a ident decision now s =
     (let changed = (map_option decision_signature (se_last_decision s) \<noteq> Some (decision_signature decision));
          s1 = s\<lparr>se_last_decision := Some decision\<rparr>;
          refresh = (is_waiting decision
                     \<and> waiting_persist_interval_ms \<le> sa_persist_at a - se_last_waiting_persist s)
      in if \<not> changed \<and> \<not> refresh then s1
         else (let s2 = (case current_snapshot now ident s1 of
                           Some sn \<Rightarrow> s1\<lparr>se_snapshots := Mapping.update ident sn (se_snapshots s1)\<rparr>
                         | None \<Rightarrow> s1)
               in persist_state cx (sa_write a) (s2\<lparr>se_last_waiting_persist := sa_persist_at a\<rparr>)))"

section \<open>The apply lane\<close>

definition reset_backoff :: "nat \<Rightarrow> session \<Rightarrow> session" where
  "reset_backoff now s = s\<lparr>se_apply_failures := 0, se_next_apply_retry := now\<rparr>"

definition yield_to_foreign :: "nat \<Rightarrow> session \<Rightarrow> session" where
  "yield_to_foreign now s = reset_backoff now (s\<lparr>se_applied_wallpaper := None\<rparr>)"

definition reset_apply :: "nat \<Rightarrow> session \<Rightarrow> session" where
  "reset_apply now s =
     (reset_backoff now (s\<lparr>se_applied_wallpaper := None\<rparr>))\<lparr>se_gate_refused_ids := {}\<rparr>"

definition fold_outcome :: "nat \<Rightarrow> apply_outcome \<Rightarrow> session \<Rightarrow> session" where
  "fold_outcome now outcome s0 =
     (let s = s0\<lparr>se_apply_in_flight := False\<rparr>; w = ao_wallpaper_id outcome in
      case ao_result outcome of
        Inr _ \<Rightarrow> reset_backoff now (s\<lparr>se_applied_wallpaper := Some w\<rparr>)
      | Inl ApBusy \<Rightarrow> yield_to_foreign now s
      | Inl (ApYielded _) \<Rightarrow> yield_to_foreign now s
      | Inl (ApCapabilityGate _ _ _) \<Rightarrow> s\<lparr>se_gate_refused_ids := insert w (se_gate_refused_ids s)\<rparr>
      | Inl _ \<Rightarrow>
          (let failures = sat_add (se_apply_failures s) 1
           in s\<lparr>se_apply_failures := failures, se_next_apply_retry := now + apply_backoff failures\<rparr>))"

definition fold_apply_completions :: "nat \<Rightarrow> session \<Rightarrow> session" where
  "fold_apply_completions now s =
     (case se_lane s of
        None \<Rightarrow> s
      | Some l \<Rightarrow> (fold (fold_outcome now) (al_done l) s)\<lparr>se_lane := Some (l\<lparr>al_done := []\<rparr>)\<rparr>)"

text \<open>\<open>try\_send\<close>: a full queue and a worker that is gone leave the session as it is.\<close>

definition dispatch_apply :: "string \<Rightarrow> string set \<Rightarrow> session \<Rightarrow> session" where
  "dispatch_apply w entries s =
     (case se_lane s of
        None \<Rightarrow> s
      | Some l \<Rightarrow>
          if al_worker l = WorkerGone \<or> apply_queue_capacity \<le> length (al_requests l) then s
          else s\<lparr>se_lane := Some (l\<lparr>al_requests := al_requests l @
                   [\<lparr>ar_output = se_output s, ar_wallpaper_id = w, ar_entries = entries,
                     ar_applied = se_applied_wallpaper s\<rparr>]\<rparr>),
                 se_apply_in_flight := True\<rparr>)"

definition maybe_apply :: "session_answer \<Rightarrow> playlist \<Rightarrow> rt_decision \<Rightarrow> session \<Rightarrow> session" where
  "maybe_apply a p decision s =
     (case decision_wallpaper_id decision of
        None \<Rightarrow> s
      | Some w \<Rightarrow>
          if \<not> se_supervisor s then s
          else case sa_status a of
            Inl detail \<Rightarrow> s\<lparr>se_last_status_error := Some detail\<rparr>
          | Inr status \<Rightarrow>
              (let s1 = s\<lparr>se_last_status_error := None\<rparr>; now = sa_verdict_at a in
               case apply_verdict (se_applied_wallpaper s1) w status (se_next_apply_retry s1 \<le> now) of
                 VerdictSatisfied \<Rightarrow> reset_backoff now (s1\<lparr>se_applied_wallpaper := Some w\<rparr>)
               | VerdictYield \<Rightarrow> yield_to_foreign now s1
               | VerdictHold \<Rightarrow> s1
               | VerdictWait \<Rightarrow> s1
               | VerdictApply \<Rightarrow>
                   if se_apply_in_flight s1 then s1 else dispatch_apply w (set (pl_entries p)) s1))"

section \<open>The tick\<close>

definition refresh_quarantine :: "session_answer \<Rightarrow> session \<Rightarrow> session" where
  "refresh_quarantine a s =
     (if \<not> se_supervisor s then s
      else case sa_quarantined a of Inr ids \<Rightarrow> s\<lparr>se_quarantined_ids := ids\<rparr> | Inl _ \<Rightarrow> s)"

text \<open>\<open>entry().or\_insert\_with\<close>: the runtime of a playlist, a new one when there is none.\<close>

definition runtime_entry :: "string \<Rightarrow> session \<Rightarrow> playlist_runtime" where
  "runtime_entry ident s =
     (case Mapping.lookup (se_runtimes s) ident of Some rt \<Rightarrow> rt | None \<Rightarrow> rt_new 0)"

definition put_runtime :: "string \<Rightarrow> playlist_runtime \<Rightarrow> session \<Rightarrow> session" where
  "put_runtime ident rt s = s\<lparr>se_runtimes := Mapping.update ident rt (se_runtimes s)\<rparr>"

definition tick_active_playlist ::
  "session_env \<Rightarrow> session_answer \<Rightarrow> playlist \<Rightarrow> session \<Rightarrow> (rt_error, rt_decision) result \<times> session" where
  "tick_active_playlist cx a p s =
     (let now = now_ms (sa_elapsed a) s in
      case rt_tick p now (unavailable_for s p) (runtime_entry (pl_id p) s) of (r, rt) \<Rightarrow>
        (let s1 = put_runtime (pl_id p) rt s in
         case r of
           Inl e \<Rightarrow> (Inl e, s1)
         | Inr decision \<Rightarrow>
             (Inr decision, maybe_apply a p decision (maybe_persist cx a (pl_id p) decision now s1))))"

definition tick_session :: "session_env \<Rightarrow> session_answer \<Rightarrow> session \<Rightarrow> session" where
  "tick_session cx a s0 =
     (let s = fold_apply_completions (sa_fold_at a) (refresh_quarantine a s0) in
      case se_active s of
        None \<Rightarrow> s
      | Some ident \<Rightarrow>
          (case find_playlist ident (se_playlists s) of
             None \<Rightarrow>
               persist_state cx (sa_write a)
                 (reset_apply (sa_verdict_at a) (s\<lparr>se_active := None, se_last_decision := None\<rparr>))
           | Some p \<Rightarrow> snd (tick_active_playlist cx a p s)))"

section \<open>Commands\<close>

definition store_list :: "session \<Rightarrow> (session_error, playlist list) result" where
  "store_list s = (case se_store_error s of Some e \<Rightarrow> Inl (SessionStoreUnavailable e) | None \<Rightarrow> Inr (se_playlists s))"

text \<open>\<open>PlaylistStore::save\<close> on the definitions file.\<close>

definition save_definitions ::
  "session_env \<Rightarrow> save_io \<Rightarrow> playlist list \<Rightarrow> session \<Rightarrow> (playlist_error, unit) result \<times> session" where
  "save_definitions cx io ps s =
     (case store_save (sx_ser_playlists cx) definitions_file (sx_pid cx) io ps (se_defs s) of
        (r, d) \<Rightarrow> (r, s\<lparr>se_defs := d\<rparr>))"

definition put_playlist ::
  "session_env \<Rightarrow> save_io \<Rightarrow> playlist \<Rightarrow> session \<Rightarrow> (session_error, playlist) result \<times> session" where
  "put_playlist cx io p s =
     (case se_store_error s of Some e \<Rightarrow> (Inl (SessionStoreUnavailable e), s) | None \<Rightarrow>
      case playlist_validate p of Inl e \<Rightarrow> (Inl (SessionInvalid (InvalidPlaylist e)), s) | Inr _ \<Rightarrow>
        (let updated = filter (\<lambda>q. pl_id q \<noteq> pl_id p) (se_playlists s) @ [p] in
         case save_definitions cx io updated s of
           (Inl e, s1) \<Rightarrow> (Inl (SessionInvalid (InvalidPlaylist e)), s1)
         | (Inr _, s1) \<Rightarrow> (Inr p, s1\<lparr>se_playlists := updated\<rparr>)))"

definition remove_playlist ::
  "session_env \<Rightarrow> session_answer \<Rightarrow> string \<Rightarrow> session \<Rightarrow> (session_error, string) result \<times> session" where
  "remove_playlist cx a ident s =
     (case se_store_error s of Some e \<Rightarrow> (Inl (SessionStoreUnavailable e), s) | None \<Rightarrow>
      if \<not> list_ex (\<lambda>p. pl_id p = ident) (se_playlists s) then (Inl (SessionNotFound ident), s)
      else (let updated = filter (\<lambda>p. pl_id p \<noteq> ident) (se_playlists s) in
        case save_definitions cx (sa_save a) updated s of
          (Inl e, s1) \<Rightarrow> (Inl (SessionInvalid (InvalidPlaylist e)), s1)
        | (Inr _, s1) \<Rightarrow>
            (let s2 = s1\<lparr>se_playlists := updated, se_runtimes := Mapping.delete ident (se_runtimes s1),
                         se_snapshots := Mapping.delete ident (se_snapshots s1)\<rparr>;
                 s3 = (if se_active s2 = Some ident then s2\<lparr>se_active := None, se_last_decision := None\<rparr>
                       else s2)
             in (Inr ident, persist_state cx (sa_write a) s3))))"

definition decision_or_none :: "(rt_error, rt_decision) result \<Rightarrow> rt_decision" where
  "decision_or_none r = (case r of Inr d \<Rightarrow> d | Inl _ \<Rightarrow> NoEligible)"

text \<open>How an activation starts its runtime: from its snapshot if that restores, afresh otherwise.\<close>

definition activate_runtime ::
  "playlist \<Rightarrow> u64 \<Rightarrow> string list \<Rightarrow> runtime_snapshot option \<Rightarrow> playlist_runtime
     \<Rightarrow> bool \<times> rt_decision \<times> playlist_runtime" where
  "activate_runtime p now unavailable saved rt =
     (case saved of
        None \<Rightarrow> (case rt_start p now unavailable rt of (r, rt') \<Rightarrow> (False, decision_or_none r, rt'))
      | Some sn \<Rightarrow>
          (case rt_restore sn p now rt of
             (Inr _, rt1) \<Rightarrow>
               (case rt_tick p now unavailable rt1 of (r, rt') \<Rightarrow> (False, decision_or_none r, rt'))
           | (Inl _, rt1) \<Rightarrow>
               (case rt_start p now unavailable rt1 of (r, rt') \<Rightarrow> (True, decision_or_none r, rt'))))"

definition activate_playlist ::
  "session_env \<Rightarrow> session_answer \<Rightarrow> string option \<Rightarrow> session
     \<Rightarrow> (session_error, session_status) result \<times> session" where
  "activate_playlist cx a ident0 s =
     (case se_store_error s of Some e \<Rightarrow> (Inl (SessionStoreUnavailable e), s) | None \<Rightarrow>
      case ident0 of
        None \<Rightarrow>
          (let s1 = persist_state cx (sa_write a)
                 (reset_apply (sa_verdict_at a) (s\<lparr>se_active := None, se_last_decision := None\<rparr>))
           in (Inr (session_status s1), s1))
      | Some ident \<Rightarrow>
          (case find_playlist ident (se_playlists s) of
             None \<Rightarrow> (Inl (SessionNotFound ident), s)
           | Some p \<Rightarrow>
               if se_active s = Some ident then (Inr (session_status s), s)
               else
                 (let s1 = reset_apply (sa_verdict_at a) s;
                      now = now_ms (sa_elapsed a) s1 in
                  case activate_runtime p now (unavailable_for s1 p) (Mapping.lookup (se_snapshots s1) ident)
                         (runtime_entry ident s1) of
                    (unusable, decision, rt) \<Rightarrow>
                      (let s2 = put_runtime ident rt s1;
                           s3 = (if unusable then s2\<lparr>se_snapshots := Mapping.delete ident (se_snapshots s2)\<rparr>
                                 else s2);
                           s4 = s3\<lparr>se_active := Some ident, se_last_decision := Some decision\<rparr>;
                           s5 = (case rt_snapshot p now rt of
                                   Inr sn \<Rightarrow> s4\<lparr>se_snapshots := Mapping.update ident sn (se_snapshots s4)\<rparr>
                                 | Inl _ \<Rightarrow> s4);
                           s6 = persist_state cx (sa_write a) s5
                       in (Inr (session_status s6), s6)))))"

section \<open>Import\<close>

text \<open>\<open>str::trim\<close> on code points.\<close>

definition trim_chars :: "nat list \<Rightarrow> nat list" where
  "trim_chars cs = rev (dropWhile is_unicode_whitespace (rev (dropWhile is_unicode_whitespace cs)))"

definition import_base :: "string \<Rightarrow> string" where
  "import_base title = chars_str (take 124 (trim_chars (str_chars title)))"

text \<open>The loop that makes an identity unique; None when the collision limit is reached.\<close>

function import_identity :: "string \<Rightarrow> string list \<Rightarrow> string \<Rightarrow> nat \<Rightarrow> string option" where
  "import_identity base used ident number =
     (if ident \<noteq> [] \<and> ident \<notin> set used then Some ident
      else if 256 < number then None
      else import_identity base used (base @ ''-'' @ show_nat number) (number + 1))"
  by pat_completeness auto
termination by (relation "measure (\<lambda>(_, _, _, number). 257 - number)") auto

definition into_playlist :: "import_playlist \<Rightarrow> string \<Rightarrow> (import_error, playlist) result" where
  "into_playlist im ident =
     rbind (if im_transition im = ''none'' then Inr NoTransition
            else if im_transition im = ''crossfade'' then Inr Crossfade
            else Inl (UnknownTransition (im_transition im))) (\<lambda>transition.
     rbind (map_err ImportRejected (playlist_new ident (im_title im))) (\<lambda>p0.
       (let p = p0\<lparr>pl_entries := im_entries im, pl_shuffle := im_shuffle im, pl_repeat := im_repeat im\<rparr> in
        rbind (map_err ImportRejected
                 (playlist_set_timing p (im_duration_seconds im) transition (im_transition_seconds im))) (\<lambda>q.
        rbind (map_err ImportRejected (playlist_validate q)) (\<lambda>_. Inr q)))))"

fun import_loop ::
  "import_playlist list \<Rightarrow> string list \<Rightarrow> playlist list \<Rightarrow> nat \<Rightarrow> playlist list \<times> nat" where
  "import_loop [] used imported rejected = (imported, rejected)"
| "import_loop (e # es) used imported rejected =
     (let base = import_base (im_title e) in
      case import_identity base used base 2 of
        None \<Rightarrow> import_loop es used imported (rejected + 1)
      | Some ident \<Rightarrow>
          (case into_playlist e ident of
             Inr p \<Rightarrow> import_loop es (ident # used) (imported @ [p]) rejected
           | Inl _ \<Rightarrow> import_loop es used imported (rejected + 1)))"

definition import_playlists ::
  "session_env \<Rightarrow> save_io \<Rightarrow> import_playlist list \<Rightarrow> session
     \<Rightarrow> (session_error, import_summary) result \<times> session" where
  "import_playlists cx io legacy s =
     (case se_store_error s of Some e \<Rightarrow> (Inl (SessionStoreUnavailable e), s) | None \<Rightarrow>
      if se_playlists s \<noteq> [] then (Inl SessionImportBlocked, s)
      else (case import_loop legacy [] [] 0 of (imported, rejected) \<Rightarrow>
        if 256 < length imported then (Inl (SessionInvalid InvalidCount), s)
        else (case save_definitions cx io imported s of
          (Inl e, s1) \<Rightarrow> (Inl (SessionInvalid (InvalidPlaylist e)), s1)
        | (Inr _, s1) \<Rightarrow>
            (Inr \<lparr>is_imported = length imported, is_rejected = rejected\<rparr>, s1\<lparr>se_playlists := imported\<rparr>))))"

section \<open>The clock skip, shutdown and the command loop\<close>

definition debug_clock_skip ::
  "session_answer \<Rightarrow> u64 \<Rightarrow> session \<Rightarrow> (session_error, session_status) result \<times> session" where
  "debug_clock_skip a ms s =
     (if \<not> (1 \<le> ms \<and> ms \<le> max_clock_skip_ms) then (Inl (SessionInvalid InvalidClockSkip), s)
      else
        (let frozen = Option.bind (se_active s) (\<lambda>i. current_snapshot (now_ms (sa_elapsed a) s) i s);
             s1 = s\<lparr>se_clock_offset_ms := se_clock_offset_ms s + ms,
                    se_clock_skipped_ms := se_clock_skipped_ms s + ms\<rparr>;
             s2 = (case (se_active s1, frozen) of
                     (Some ident, Some sn) \<Rightarrow>
                       (case find_playlist ident (se_playlists s1) of
                          None \<Rightarrow> s1
                        | Some p \<Rightarrow>
                            (let now = now_ms (sa_elapsed_after a) s1 in
                             case Mapping.lookup (se_runtimes s1) ident of
                               None \<Rightarrow> s1
                             | Some rt \<Rightarrow>
                                 (case rt_restore sn p now rt of
                                    (Inl _, rt1) \<Rightarrow> put_runtime ident rt1 s1
                                  | (Inr _, rt1) \<Rightarrow>
                                      (case rt_tick p now (unavailable_for s1 p) rt1 of
                                         (Inl _, rt2) \<Rightarrow> put_runtime ident rt2 s1
                                       | (Inr d, rt2) \<Rightarrow>
                                           (put_runtime ident rt2 s1)\<lparr>se_last_decision := Some d\<rparr>))))
                   | _ \<Rightarrow> s1)
         in (Inr (session_status s2), s2)))"

definition session_shutdown :: "session_env \<Rightarrow> session_answer \<Rightarrow> session \<Rightarrow> session" where
  "session_shutdown cx a s =
     (let s1 = (case se_active s of
                  None \<Rightarrow> s
                | Some ident \<Rightarrow>
                    (case current_snapshot (now_ms (sa_elapsed a) s) ident s of
                       Some sn \<Rightarrow> s\<lparr>se_snapshots := Mapping.update ident sn (se_snapshots s)\<rparr>
                     | None \<Rightarrow> s))
      in persist_state cx (sa_write a) s1)"

datatype session_command =
    SessionList | SessionPut playlist | SessionRemove string | SessionActivate "string option"
  | SessionStatus | SessionImport "import_playlist list" | SessionClockSkip u64
  | SessionAvailability "string set"

datatype session_reply =
    ReplyPlaylists "(session_error, playlist list) result"
  | ReplyPlaylist "(session_error, playlist) result"
  | ReplyRemoved "(session_error, string) result"
  | ReplySession "(session_error, session_status) result"
  | ReplyImport "(session_error, import_summary) result"
  | NoReply

fun run_command ::
  "session_env \<Rightarrow> session_answer \<Rightarrow> session_command \<Rightarrow> session \<Rightarrow> session_reply \<times> session" where
  "run_command cx a SessionList s = (ReplyPlaylists (store_list s), s)"
| "run_command cx a (SessionPut p) s = map_prod ReplyPlaylist id (put_playlist cx (sa_save a) p s)"
| "run_command cx a (SessionRemove i) s = map_prod ReplyRemoved id (remove_playlist cx a i s)"
| "run_command cx a (SessionActivate i) s = map_prod ReplySession id (activate_playlist cx a i s)"
| "run_command cx a SessionStatus s = (ReplySession (Inr (session_status s)), s)"
| "run_command cx a (SessionImport ps) s = map_prod ReplyImport id (import_playlists cx (sa_save a) ps s)"
| "run_command cx a (SessionClockSkip ms) s = map_prod ReplySession id (debug_clock_skip a ms s)"
| "run_command cx a (SessionAvailability ids) s = (NoReply, s\<lparr>se_valid_ids := ids\<rparr>)"

text \<open>
  The round trip of a client: what \<open>try\_send\<close> and then \<open>recv\_timeout\<close> (None: no reply in time) return.
\<close>

datatype send_answer = SendTaken | SendFull | SendDisconnected

definition session_request ::
  "send_answer \<Rightarrow> (session_error, 'a) result option \<Rightarrow> (session_error, 'a) result" where
  "session_request sent reply =
     (case sent of
        SendFull \<Rightarrow> Inl (SessionBusy ''playlist command queue is full'')
      | SendDisconnected \<Rightarrow> Inl (SessionBusy ''playlist session is unavailable'')
      | SendTaken \<Rightarrow> (case reply of Some r \<Rightarrow> r | None \<Rightarrow> Inl (SessionBusy ''playlist command timed out'')))"

text \<open>What \<open>recv\_timeout\<close> returned in one turn of the loop.\<close>

datatype session_receive =
  ReceivedCommand session_command | ReceivedShutdown | ReceivedTimeout | ReceivedDisconnected

text \<open>One turn: the session after it, and whether the loop goes on.\<close>

fun session_turn :: "session_env \<Rightarrow> session_answer \<Rightarrow> session_receive \<Rightarrow> session \<Rightarrow> bool \<times> session" where
  "session_turn cx a (ReceivedCommand c) s = (True, snd (run_command cx a c s))"
| "session_turn cx a ReceivedShutdown s = (False, session_shutdown cx a s)"
| "session_turn cx a ReceivedDisconnected s = (False, s)"
| "session_turn cx a ReceivedTimeout s = (True, tick_session cx a s)"

section \<open>The apply worker\<close>

text \<open>
  The steps of the worker thread: it takes a request, posts the outcome of its transaction when the
  completion queue has room, or ends. A step that is not enabled changes nothing.
\<close>

datatype worker_event = WorkerTakes | WorkerFinishes "(apply_error, unit) result" | WorkerEnds

fun worker_turn :: "worker_event \<Rightarrow> apply_lane \<Rightarrow> apply_lane" where
  "worker_turn WorkerTakes l =
     (case (al_worker l, al_requests l) of
        (WorkerIdle, r # rs) \<Rightarrow> l\<lparr>al_worker := WorkerBusy r, al_requests := rs\<rparr>
      | _ \<Rightarrow> l)"
| "worker_turn (WorkerFinishes result) l =
     (case al_worker l of
        WorkerBusy r \<Rightarrow>
          if apply_queue_capacity \<le> length (al_done l) then l
          else l\<lparr>al_worker := WorkerIdle,
                 al_done := al_done l @ [\<lparr>ao_wallpaper_id = ar_wallpaper_id r, ao_result = result\<rparr>]\<rparr>
      | _ \<Rightarrow> l)"
| "worker_turn WorkerEnds l = l\<lparr>al_worker := WorkerGone, al_requests := []\<rparr>"

definition worker_step :: "worker_event \<Rightarrow> session \<Rightarrow> session" where
  "worker_step e s = s\<lparr>se_lane := map_option (worker_turn e) (se_lane s)\<rparr>"

section \<open>Start\<close>

record load_io =
  lo_definitions_fail :: bool
  lo_metadata_fail :: bool
  lo_read_fail :: bool
  lo_secs :: nat
  lo_nanos :: nat
  lo_renamed :: bool
  lo_listed :: bool
  lo_removable :: "string \<Rightarrow> bool"

definition quarantine_runtime_state :: "load_io \<Rightarrow> state_dir \<Rightarrow> state_dir" where
  "quarantine_runtime_state io d =
     quarantine_invalid_state runtime_state_file (lo_secs io) (lo_nanos io) (lo_renamed io) (lo_listed io)
       (lo_removable io) d"

definition load_runtime_state ::
  "session_env \<Rightarrow> load_io \<Rightarrow> state_dir
     \<Rightarrow> (string option \<times> (string, runtime_snapshot) mapping) \<times> state_dir" where
  "load_runtime_state cx io d =
     (let none = (None, Mapping.empty) in
      if lo_metadata_fail io then (none, d)
      else case Mapping.lookup d runtime_state_file of
        None \<Rightarrow> (none, d)
      | Some bytes \<Rightarrow>
          if max_runtime_state_bytes < length bytes then (none, quarantine_runtime_state io d)
          else if lo_read_fail io then (none, quarantine_runtime_state io d)
          else case sx_parse_state cx bytes of
            None \<Rightarrow> (none, quarantine_runtime_state io d)
          | Some st \<Rightarrow>
              if ps_schema_version st = runtime_state_schema_version
                 \<and> Mapping.size (ps_snapshots st) \<le> max_snapshot_entries
              then ((ps_active st, Mapping.filter (\<lambda>_ sn. snapshot_validate sn = Inr ()) (ps_snapshots st)), d)
              else (none, quarantine_runtime_state io d))"

definition read_definitions :: "load_io \<Rightarrow> directory \<Rightarrow> file_read" where
  "read_definitions io d =
     (if lo_definitions_fail io then ReadFailed
      else case d definitions_file of None \<Rightarrow> ReadNotFound | Some bytes \<Rightarrow> ReadBytes bytes)"

record session_config =
  sc_supervisor :: bool
  sc_valid_ids :: "string set"
  sc_output :: "string option"
  sc_apply :: bool

text \<open>\<open>SessionRuntime::new\<close>; \<open>started\<close> is the instant of the start.\<close>

definition session_new ::
  "session_env \<Rightarrow> session_config \<Rightarrow> load_io \<Rightarrow> u64 \<Rightarrow> nat \<Rightarrow> directory \<Rightarrow> state_dir \<Rightarrow> session" where
  "session_new cx c io elapsed started defs disk0 =
     (let (playlists, store_error) =
            (case store_load (sx_parse_playlists cx) (read_definitions io defs) of
               Inr ps \<Rightarrow> (ps, None) | Inl e \<Rightarrow> ([], Some e));
          ((persisted_active, snapshots), disk) = load_runtime_state cx io disk0;
          active = Option.bind persisted_active (\<lambda>i. map_option pl_id (find_playlist i playlists));
          s = \<lparr>se_supervisor = sc_supervisor c, se_output = sc_output c, se_lane = None,
               se_playlists = playlists, se_store_error = store_error, se_runtimes = Mapping.empty,
               se_snapshots = snapshots, se_active = active, se_last_decision = None,
               se_last_waiting_persist = started, se_valid_ids = sc_valid_ids c, se_quarantined_ids = {},
               se_gate_refused_ids = {}, se_applied_wallpaper = None, se_apply_failures = 0,
               se_next_apply_retry = started, se_apply_in_flight = False, se_last_status_error = None,
               se_clock_offset_ms = 0, se_clock_skipped_ms = 0, se_defs = defs, se_disk = disk\<rparr>
      in case active of
           None \<Rightarrow> s
         | Some ident \<Rightarrow>
             (case find_playlist ident playlists of
                None \<Rightarrow> s
              | Some p \<Rightarrow>
                  (let rt = runtime_entry ident s in
                   case Mapping.lookup snapshots (pl_id p) of
                     None \<Rightarrow> put_runtime ident rt s
                   | Some sn \<Rightarrow> put_runtime ident (snd (rt_restore sn p (now_ms elapsed s) rt)) s)))"

definition start_apply_worker :: "session_config \<Rightarrow> session \<Rightarrow> session" where
  "start_apply_worker c s =
     (if sc_apply c
      then s\<lparr>se_lane := Some \<lparr>al_requests = [], al_worker = WorkerIdle, al_done = []\<rparr>\<rparr> else s)"

section \<open>Runs\<close>

datatype session_event = SessionTurn session_receive | WorkerTurn worker_event

text \<open>The session thread and the worker in any order; nothing of the session moves after its loop ended.\<close>

fun session_run ::
  "session_env \<Rightarrow> (session_event \<times> session_answer) list \<Rightarrow> bool \<times> session \<Rightarrow> bool \<times> session" where
  "session_run cx [] st = st"
| "session_run cx ((WorkerTurn e, a) # evs) (running, s) = session_run cx evs (running, worker_step e s)"
| "session_run cx ((SessionTurn r, a) # evs) (running, s) =
     session_run cx evs (if running then session_turn cx a r s else (False, s))"

end
