(* ===== verification/Playlist_Session_Inv.thy ===== *)
theory Playlist_Session_Inv
  imports Playlist_Session
begin

text \<open>
  The invariant of the playlist session (definitions valid, the active playlist among them, every runtime and
  snapshot well formed, at most one apply underway), the agreement of the definitions in memory with
  those on disk, and the clock: every tick of the active playlist reaches a decision.
\<close>

section \<open>The invariant\<close>

definition definitions_ok :: "session \<Rightarrow> bool" where
  "definitions_ok s \<longleftrightarrow>
     list_all playlist_ok (se_playlists s) \<and> distinct (map pl_id (se_playlists s))
     \<and> length (se_playlists s) \<le> max_playlists
     \<and> (se_store_error s \<noteq> None \<longrightarrow> se_playlists s = [])
     \<and> (\<forall>i. se_active s = Some i \<longrightarrow> find_playlist i (se_playlists s) \<noteq> None)"

definition runtimes_ok :: "session \<Rightarrow> bool" where
  "runtimes_ok s \<longleftrightarrow> (\<forall>i rt. Mapping.lookup (se_runtimes s) i = Some rt \<longrightarrow> rt_inv rt)"

definition snapshots_ok :: "session \<Rightarrow> bool" where
  "snapshots_ok s \<longleftrightarrow>
     (\<forall>i sn. Mapping.lookup (se_snapshots s) i = Some sn \<longrightarrow> snapshot_validate sn = Inr ())"

definition lane_load :: "apply_lane \<Rightarrow> nat" where
  "lane_load l = length (al_requests l) + (case al_worker l of WorkerBusy _ \<Rightarrow> 1 | _ \<Rightarrow> 0) + length (al_done l)"

fun lane_fine :: "apply_lane option \<Rightarrow> bool \<Rightarrow> bool" where
  "lane_fine None in_flight = (\<not> in_flight)"
| "lane_fine (Some l) in_flight =
     (lane_load l \<le> (if in_flight then 1 else 0)
      \<and> (in_flight \<and> al_worker l \<noteq> WorkerGone \<longrightarrow> lane_load l = 1)
      \<and> (al_worker l = WorkerGone \<longrightarrow> al_requests l = []))"

definition lane_ok :: "session \<Rightarrow> bool" where
  "lane_ok s \<longleftrightarrow> lane_fine (se_lane s) (se_apply_in_flight s)"

definition session_inv :: "session \<Rightarrow> bool" where
  "session_inv s \<longleftrightarrow> definitions_ok s \<and> runtimes_ok s \<and> snapshots_ok s \<and> lane_ok s"

lemma find_playlist_Some: "find_playlist i ps = Some p \<Longrightarrow> p \<in> set ps \<and> pl_id p = i"
  by (auto simp: find_playlist_def find_Some_iff)

lemma find_playlist_ok: "definitions_ok s \<Longrightarrow> find_playlist i (se_playlists s) = Some p \<Longrightarrow> playlist_ok p"
  using find_playlist_Some [of i "se_playlists s" p] by (auto simp: definitions_ok_def list_all_iff)

lemma find_playlist_None: "find_playlist i ps = None \<longleftrightarrow> i \<notin> pl_id ` set ps"
  by (auto simp: find_playlist_def find_None_iff)

section \<open>Frames of the operations\<close>

lemma evict_frame:
  "\<exists>m. evict_snapshots cx ks s = s\<lparr>se_snapshots := m\<rparr>
     \<and> (\<forall>k. Mapping.lookup m k = None \<or> Mapping.lookup m k = Mapping.lookup (se_snapshots s) k)
     \<and> (\<forall>k. k \<notin> set ks \<longrightarrow> Mapping.lookup m k = Mapping.lookup (se_snapshots s) k)"
proof (induction ks arbitrary: s)
  case Nil
  show ?case by (intro exI [of _ "se_snapshots s"]) simp
next
  case (Cons k ks)
  show ?case
  proof (cases "max_runtime_state_bytes < length (encode_state cx s)")
    case True
    obtain m where m: "evict_snapshots cx ks (s\<lparr>se_snapshots := Mapping.delete k (se_snapshots s)\<rparr>) = s\<lparr>se_snapshots := m\<rparr>"
      "\<And>j. Mapping.lookup m j = None \<or> Mapping.lookup m j = Mapping.lookup (Mapping.delete k (se_snapshots s)) j"
      "\<And>j. j \<notin> set ks \<Longrightarrow> Mapping.lookup m j = Mapping.lookup (Mapping.delete k (se_snapshots s)) j"
      using Cons.IH [of "s\<lparr>se_snapshots := Mapping.delete k (se_snapshots s)\<rparr>"] by auto
    have "Mapping.lookup m j = None \<or> Mapping.lookup m j = Mapping.lookup (se_snapshots s) j" for j
      using m(2) [of j] by (simp split: if_splits)
    moreover have "Mapping.lookup m j = Mapping.lookup (se_snapshots s) j" if "j \<notin> set (k # ks)" for j
      using m(3) [of j] that by simp
    ultimately show ?thesis using True m(1) by (intro exI [of _ m]) simp
  next
    case False
    then show ?thesis by (intro exI [of _ "se_snapshots s"]) simp
  qed
qed

lemma persist_frame:
  obtains m d where "persist_state cx io s = s\<lparr>se_snapshots := m, se_disk := d\<rparr>"
    "\<And>k. Mapping.lookup m k = None \<or> Mapping.lookup m k = Mapping.lookup (se_snapshots s) k"
    "\<And>k. se_active s = Some k \<Longrightarrow> Mapping.lookup m k = Mapping.lookup (se_snapshots s) k"
proof -
  define ks where "ks = filter (\<lambda>k. Some k \<noteq> se_active s) (Mapping.ordered_keys (se_snapshots s))"
  obtain m where m: "evict_snapshots cx ks s = s\<lparr>se_snapshots := m\<rparr>"
    "\<And>k. Mapping.lookup m k = None \<or> Mapping.lookup m k = Mapping.lookup (se_snapshots s) k"
    "\<And>k. k \<notin> set ks \<Longrightarrow> Mapping.lookup m k = Mapping.lookup (se_snapshots s) k"
    using evict_frame [of cx ks s] by blast
  have either: "\<exists>d. (if P then s\<lparr>se_snapshots := m\<rparr> else s\<lparr>se_snapshots := m, se_disk := x\<rparr>)
      = s\<lparr>se_snapshots := m, se_disk := d\<rparr>" for P x
    by (cases P; intro exI [of _ "if P then se_disk s else x"]) simp_all
  have "\<exists>d. persist_state cx io s = s\<lparr>se_snapshots := m, se_disk := d\<rparr>"
    unfolding persist_state_def ks_def [symmetric] m(1) Let_def by (rule either)
  moreover have "k \<notin> set ks" if "se_active s = Some k" for k using that by (simp add: ks_def)
  ultimately show thesis using that m by blast
qed

lemma snapshots_ok_sub:
  assumes "snapshots_ok s" "\<And>k. Mapping.lookup m k = None \<or> Mapping.lookup m k = Mapping.lookup (se_snapshots s) k"
  shows "snapshots_ok (s\<lparr>se_snapshots := m, se_disk := d\<rparr>)"
  using assms unfolding snapshots_ok_def by simp (metis option.distinct(1))

lemma persist_inv [intro]: "session_inv s \<Longrightarrow> session_inv (persist_state cx io s)"
proof (cases rule: persist_frame [of cx io s])
  case (1 m d)
  assume inv: "session_inv s"
  then have "snapshots_ok (s\<lparr>se_snapshots := m, se_disk := d\<rparr>)"
    using 1 by (intro snapshots_ok_sub) (simp_all add: session_inv_def)
  with inv show ?thesis
    unfolding 1(1) by (simp add: session_inv_def definitions_ok_def runtimes_ok_def lane_ok_def)
qed

lemma current_snapshot_ok:
  assumes "current_snapshot now i s = Some sn"
  shows "snapshot_validate sn = Inr ()"
  using assms
  by (auto simp: current_snapshot_def rt_snapshot_def Let_def result_simps split: option.splits sum.splits)

lemma put_snapshot_inv:
  assumes "session_inv s" "snapshot_validate sn = Inr ()"
  shows "session_inv (s\<lparr>se_snapshots := Mapping.update i sn (se_snapshots s)\<rparr>)"
  using assms by (auto simp: session_inv_def definitions_ok_def runtimes_ok_def lane_ok_def snapshots_ok_def)

lemma put_snapshot_decision_inv:
  assumes "session_inv s" "snapshot_validate sn = Inr ()"
  shows "session_inv (s\<lparr>se_last_decision := d, se_snapshots := Mapping.update i sn (se_snapshots s)\<rparr>)"
  using assms by (auto simp: session_inv_def definitions_ok_def runtimes_ok_def lane_ok_def snapshots_ok_def)

lemma put_runtime_inv: "session_inv s \<Longrightarrow> rt_inv rt \<Longrightarrow> session_inv (put_runtime i rt s)"
  by (auto simp: session_inv_def definitions_ok_def runtimes_ok_def lane_ok_def snapshots_ok_def put_runtime_def)

lemma runtime_entry_inv: "session_inv s \<Longrightarrow> rt_inv (runtime_entry i s)"
  by (auto simp: session_inv_def runtimes_ok_def runtime_entry_def rt_inv_new split: option.splits)

section \<open>The apply lane\<close>

lemma reset_backoff_inv [simp]: "session_inv (reset_backoff now s) = session_inv s"
  by (simp add: reset_backoff_def session_inv_def definitions_ok_def runtimes_ok_def lane_ok_def snapshots_ok_def)

lemma session_inv_applied [simp]: "session_inv (s\<lparr>se_applied_wallpaper := w\<rparr>) = session_inv s"
  by (simp add: session_inv_def definitions_ok_def runtimes_ok_def lane_ok_def snapshots_ok_def)

lemma session_inv_misc [simp]:
  "session_inv (s\<lparr>se_last_status_error := e\<rparr>) = session_inv s"
  "session_inv (s\<lparr>se_gate_refused_ids := g\<rparr>) = session_inv s"
  "session_inv (s\<lparr>se_quarantined_ids := q\<rparr>) = session_inv s"
  "session_inv (s\<lparr>se_valid_ids := v\<rparr>) = session_inv s"
  "session_inv (s\<lparr>se_last_decision := d\<rparr>) = session_inv s"
  "session_inv (s\<lparr>se_last_waiting_persist := t\<rparr>) = session_inv s"
  "session_inv (s\<lparr>se_apply_failures := f\<rparr>) = session_inv s"
  "session_inv (s\<lparr>se_next_apply_retry := t\<rparr>) = session_inv s"
  "session_inv (s\<lparr>se_clock_offset_ms := c\<rparr>) = session_inv s"
  "session_inv (s\<lparr>se_clock_skipped_ms := c\<rparr>) = session_inv s"
  "session_inv (s\<lparr>se_defs := f'\<rparr>) = session_inv s"
  by (simp_all add: session_inv_def definitions_ok_def runtimes_ok_def lane_ok_def snapshots_ok_def)

lemma yield_inv [simp]: "session_inv (yield_to_foreign now s) = session_inv s"
  by (simp add: yield_to_foreign_def)

lemma reset_apply_inv [simp]: "session_inv (reset_apply now s) = session_inv s"
  by (simp add: reset_apply_def)

lemma deactivate_inv: "session_inv s \<Longrightarrow> session_inv (s\<lparr>se_active := None\<rparr>)"
  by (simp add: session_inv_def definitions_ok_def runtimes_ok_def lane_ok_def snapshots_ok_def)

text \<open>The fields an outcome does not change.\<close>

lemma fold_outcome_fields [simp]:
  "se_apply_in_flight (fold_outcome now out s) = False"
  "se_supervisor (fold_outcome now out s) = se_supervisor s"
  "se_output (fold_outcome now out s) = se_output s"
  "se_lane (fold_outcome now out s) = se_lane s"
  "se_playlists (fold_outcome now out s) = se_playlists s"
  "se_store_error (fold_outcome now out s) = se_store_error s"
  "se_runtimes (fold_outcome now out s) = se_runtimes s"
  "se_snapshots (fold_outcome now out s) = se_snapshots s"
  "se_active (fold_outcome now out s) = se_active s"
  "se_last_decision (fold_outcome now out s) = se_last_decision s"
  "se_last_waiting_persist (fold_outcome now out s) = se_last_waiting_persist s"
  "se_valid_ids (fold_outcome now out s) = se_valid_ids s"
  "se_quarantined_ids (fold_outcome now out s) = se_quarantined_ids s"
  "se_last_status_error (fold_outcome now out s) = se_last_status_error s"
  "se_clock_offset_ms (fold_outcome now out s) = se_clock_offset_ms s"
  "se_clock_skipped_ms (fold_outcome now out s) = se_clock_skipped_ms s"
  "se_defs (fold_outcome now out s) = se_defs s"
  "se_disk (fold_outcome now out s) = se_disk s"
  by (simp_all add: fold_outcome_def Let_def reset_backoff_def yield_to_foreign_def
      split: sum.splits apply_error.splits)

lemma lane_cases:
  assumes "lane_ok s" "se_lane s = Some l"
  obtains (idle) "al_done l = []" | (finished) out where "al_done l = [out]" "al_requests l = []"
      "\<forall>r. al_worker l \<noteq> WorkerBusy r" "se_apply_in_flight s"
proof (cases "al_done l")
  case Nil
  then show thesis by (rule idle)
next
  case (Cons out rest)
  with assms have "rest = []" "al_requests l = []" "\<forall>r. al_worker l \<noteq> WorkerBusy r" "se_apply_in_flight s"
    by (auto simp: lane_ok_def lane_load_def split: if_splits)
  with Cons show thesis by (intro finished) auto
qed

lemma fold_completions_inv [intro]: "session_inv s \<Longrightarrow> session_inv (fold_apply_completions now s)"
proof -
  assume inv: "session_inv s"
  show ?thesis
  proof (cases "se_lane s")
    case None
    with inv show ?thesis by (simp add: fold_apply_completions_def)
  next
    case (Some l)
    have "lane_ok s" using inv by (simp add: session_inv_def)
    then show ?thesis
      using Some
    proof (cases rule: lane_cases)
      case idle
      then have "l\<lparr>al_done := []\<rparr> = l" by simp
      then have "fold_apply_completions now s = s" using Some idle by (simp add: fold_apply_completions_def)
      then show ?thesis using inv by simp
    next
      case (finished out)
      show ?thesis using inv Some finished
        by (auto simp: fold_apply_completions_def session_inv_def definitions_ok_def runtimes_ok_def
            snapshots_ok_def lane_ok_def lane_load_def split: apply_worker.splits)
    qed
  qed
qed

lemma dispatch_inv:
  assumes "session_inv s" "\<not> se_apply_in_flight s"
  shows "session_inv (dispatch_apply w es s)"
  using assms
  by (auto simp: dispatch_apply_def session_inv_def definitions_ok_def runtimes_ok_def snapshots_ok_def
      lane_ok_def lane_load_def split: option.splits apply_worker.splits)

lemma maybe_apply_inv [intro]: "session_inv s \<Longrightarrow> session_inv (maybe_apply a p d s)"
  by (auto simp: maybe_apply_def Let_def dispatch_inv split: option.splits sum.splits verdict.splits)

lemma worker_turn_load:
  "lane_load l \<le> 1 \<Longrightarrow> lane_load (worker_turn e l) \<le> lane_load l
     \<and> (al_worker (worker_turn e l) \<noteq> WorkerGone \<longrightarrow>
          al_worker l \<noteq> WorkerGone \<and> lane_load (worker_turn e l) = lane_load l)
     \<and> (al_worker (worker_turn e l) = WorkerGone \<longrightarrow> al_worker l = WorkerGone
          \<or> al_requests (worker_turn e l) = [])
     \<and> (al_worker l = WorkerGone \<longrightarrow> al_requests l = [] \<longrightarrow> al_requests (worker_turn e l) = [])"
  by (cases e) (auto simp: lane_load_def apply_queue_capacity_def split: apply_worker.splits list.splits)

lemma worker_step_inv [intro]: "session_inv s \<Longrightarrow> session_inv (worker_step e s)"
proof -
  assume inv: "session_inv s"
  have "lane_ok (worker_step e s)"
  proof (cases "se_lane s")
    case None
    with inv show ?thesis by (simp add: session_inv_def lane_ok_def worker_step_def)
  next
    case (Some l)
    from inv Some have l: "lane_load l \<le> (if se_apply_in_flight s then 1 else 0)"
      "se_apply_in_flight s \<and> al_worker l \<noteq> WorkerGone \<longrightarrow> lane_load l = 1"
      "al_worker l = WorkerGone \<longrightarrow> al_requests l = []"
      by (auto simp: session_inv_def lane_ok_def)
    then have "lane_load l \<le> 1" by (auto split: if_splits)
    from worker_turn_load [OF this, of e] l Some show ?thesis
      by (auto simp: lane_ok_def worker_step_def split: if_splits)
  qed
  with inv show ?thesis
    by (simp add: session_inv_def definitions_ok_def runtimes_ok_def snapshots_ok_def worker_step_def)
qed


section \<open>Ticks\<close>

lemma maybe_persist_inv [intro]: "session_inv s \<Longrightarrow> session_inv (maybe_persist cx a i d now s)"
  unfolding maybe_persist_def Let_def
  by (auto intro!: persist_inv put_snapshot_decision_inv dest: current_snapshot_ok split: option.splits)

lemma refresh_inv [intro]: "session_inv s \<Longrightarrow> session_inv (refresh_quarantine a s)"
  by (auto simp: refresh_quarantine_def split: sum.splits)

lemma session_tick_active_inv:
  assumes "session_inv s"
  shows "session_inv (snd (tick_active_playlist cx a p s))"
proof (cases "rt_tick p (now_ms (sa_elapsed a) s) (unavailable_for s p) (runtime_entry (pl_id p) s)")
  case (Pair r rt)
  have "rt_inv rt" using rt_inv_tick [OF runtime_entry_inv [OF assms] Pair] by blast
  then have "session_inv (put_runtime (pl_id p) rt s)" using assms by (rule put_runtime_inv [rotated])
  then show ?thesis using Pair by (auto simp: tick_active_playlist_def Let_def split: sum.splits)
qed

lemma session_tick_inv [intro]:
  assumes "session_inv s"
  shows "session_inv (tick_session cx a s)"
proof -
  have inv: "session_inv (fold_apply_completions (sa_fold_at a) (refresh_quarantine a s))" using assms by blast
  then show ?thesis
    unfolding tick_session_def Let_def
    by (auto intro!: persist_inv deactivate_inv session_tick_active_inv split: option.splits)
qed

section \<open>Commands\<close>

lemma definitions_temporary: "temporary_name definitions_file pid \<noteq> definitions_file"
proof -
  have "file_stem definitions_file = ''playlists-v1''" by code_simp
  then show ?thesis by (simp add: temporary_name_def definitions_file_def)
qed

lemma save_definitions_cases:
  obtains (saved) d where "save_definitions cx io ps s = (Inr (), s\<lparr>se_defs := d\<rparr>)"
      "d definitions_file = Some (sx_ser_playlists cx ps)" "length (sx_ser_playlists cx ps) \<le> max_store_bytes"
      "list_all playlist_ok ps" "distinct (map pl_id ps)" "length ps \<le> max_playlists"
  | (failed) e d where "save_definitions cx io ps s = (Inl e, s\<lparr>se_defs := d\<rparr>)"
      "d definitions_file = se_defs s definitions_file"
proof -
  obtain r d where rd: "store_save (sx_ser_playlists cx) definitions_file (sx_pid cx) io ps (se_defs s) = (r, d)"
    by (cases "store_save (sx_ser_playlists cx) definitions_file (sx_pid cx) io ps (se_defs s)") auto
  note atomic = store_save_atomic [OF definitions_temporary rd]
  show thesis
  proof (cases r)
    case (Inl e)
    then show thesis using rd atomic by (intro failed [of e d]) (auto simp: save_definitions_def)
  next
    case (Inr u)
    have "length ps \<le> max_playlists \<and> length (sx_ser_playlists cx ps) \<le> max_store_bytes"
      using rd unfolding Inr store_save_def Let_def
      by (auto simp: not_less split: if_splits sum.splits option.splits)
    then show thesis using rd atomic Inr by (intro saved [of d]) (auto simp: save_definitions_def)
  qed
qed

lemma put_playlist_inv:
  assumes "session_inv s"
  shows "session_inv (snd (put_playlist cx io p s))"
proof -
  let ?ps = "filter (\<lambda>q. pl_id q \<noteq> pl_id p) (se_playlists s) @ [p]"
  show ?thesis
  proof (cases rule: save_definitions_cases [of cx io ?ps s])
    case (saved d)
    have "find_playlist i ?ps \<noteq> None" if "find_playlist i (se_playlists s) \<noteq> None" for i
      using that by (auto simp: find_playlist_None image_iff)
    moreover have "se_store_error s = None \<Longrightarrow> session_inv (s\<lparr>se_defs := d, se_playlists := ?ps\<rparr>)"
      using assms saved(4-6) calculation
      by (auto simp: session_inv_def definitions_ok_def runtimes_ok_def snapshots_ok_def lane_ok_def)
    ultimately show ?thesis using assms saved(1)
      by (auto simp: put_playlist_def Let_def split: option.splits sum.splits)
  next
    case (failed e d)
    then show ?thesis using assms
      by (auto simp: put_playlist_def Let_def split: option.splits sum.splits)
  qed
qed

lemma remove_state_inv:
  assumes "session_inv s" "se_store_error s = None" "distinct (map pl_id ps)" "list_all playlist_ok ps"
    "length ps \<le> max_playlists" "ps = filter (\<lambda>q. pl_id q \<noteq> i) (se_playlists s)"
  shows "session_inv ((if se_active s = Some i then (\<lambda>s. s\<lparr>se_active := None, se_last_decision := None\<rparr>) else id)
    (s\<lparr>se_defs := d, se_playlists := ps, se_runtimes := Mapping.delete i (se_runtimes s),
       se_snapshots := Mapping.delete i (se_snapshots s)\<rparr>))"
proof -
  have "find_playlist j ps \<noteq> None" if "find_playlist j (se_playlists s) \<noteq> None" "j \<noteq> i" for j
    using that assms(6) by (auto simp: find_playlist_None image_iff)
  with assms show ?thesis
    by (auto simp: session_inv_def definitions_ok_def runtimes_ok_def snapshots_ok_def lane_ok_def)
qed

lemma remove_playlist_inv:
  assumes "session_inv s"
  shows "session_inv (snd (remove_playlist cx a i s))"
proof -
  let ?ps = "filter (\<lambda>q. pl_id q \<noteq> i) (se_playlists s)"
  show ?thesis
  proof (cases rule: save_definitions_cases [of cx "sa_save a" ?ps s])
    case (saved d)
    note st = remove_state_inv [OF assms _ saved(5,4,6) refl, of d]
    show ?thesis using assms saved(1) st
      by (auto simp: remove_playlist_def Let_def intro!: persist_inv split: option.splits if_splits)
  next
    case (failed e d)
    then show ?thesis using assms
      by (auto simp: remove_playlist_def Let_def split: option.splits)
  qed
qed

lemma activate_runtime_inv:
  assumes "rt_inv rt" "activate_runtime p now u saved rt = (b, d, rt')"
  shows "rt_inv rt'"
proof (cases saved)
  case None
  then show ?thesis using assms rt_inv_start [OF assms(1)]
    by (auto simp: activate_runtime_def split: prod.splits)
next
  case (Some sn)
  obtain r rt1 where r: "rt_restore sn p now rt = (r, rt1)" by fastforce
  have inv: "rt_inv rt1" using rt_inv_restore [OF assms(1) r] by blast
  show ?thesis
    using assms(2) Some r rt_inv_start [OF inv, of p now u] rt_inv_tick [OF inv, of p now u]
    by (cases r) (auto simp: activate_runtime_def split: prod.splits)
qed

lemma set_active_inv:
  assumes "session_inv s" "find_playlist i (se_playlists s) \<noteq> None"
  shows "session_inv (s\<lparr>se_active := Some i, se_last_decision := d\<rparr>)"
  using assms by (simp add: session_inv_def definitions_ok_def runtimes_ok_def lane_ok_def snapshots_ok_def)

lemma delete_snapshot_inv: "session_inv s \<Longrightarrow> session_inv (s\<lparr>se_snapshots := Mapping.delete i (se_snapshots s)\<rparr>)"
  by (auto simp: session_inv_def definitions_ok_def runtimes_ok_def lane_ok_def snapshots_ok_def)

lemma rt_snapshot_valid: "rt_snapshot p now rt = Inr sn \<Longrightarrow> snapshot_validate sn = Inr ()"
  by (auto simp: rt_snapshot_def Let_def result_simps)

lemma reset_apply_fields [simp]:
  "se_playlists (reset_apply now s) = se_playlists s" "se_runtimes (reset_apply now s) = se_runtimes s"
  "se_snapshots (reset_apply now s) = se_snapshots s" "se_active (reset_apply now s) = se_active s"
  "se_clock_offset_ms (reset_apply now s) = se_clock_offset_ms s" "se_defs (reset_apply now s) = se_defs s"
  "se_store_error (reset_apply now s) = se_store_error s" "se_disk (reset_apply now s) = se_disk s"
  "se_lane (reset_apply now s) = se_lane s" "se_apply_in_flight (reset_apply now s) = se_apply_in_flight s"
  by (simp_all add: reset_apply_def reset_backoff_def)

lemma reset_apply_reads [simp]:
  "now_ms t (reset_apply now s) = now_ms t s" "runtime_entry i (reset_apply now s) = runtime_entry i s"
  by (simp_all add: now_ms_def runtime_entry_def)

lemma put_runtime_fields [simp]:
  "se_playlists (put_runtime i rt s) = se_playlists s" "se_snapshots (put_runtime i rt s) = se_snapshots s"
  "se_runtimes (put_runtime i rt s) = Mapping.update i rt (se_runtimes s)"
  "se_clock_offset_ms (put_runtime i rt s) = se_clock_offset_ms s" "se_active (put_runtime i rt s) = se_active s"
  "se_defs (put_runtime i rt s) = se_defs s" "se_store_error (put_runtime i rt s) = se_store_error s"
  by (simp_all add: put_runtime_def)

text \<open>The state an activation reaches before it persists.\<close>

definition activated :: "playlist \<Rightarrow> u64 \<Rightarrow> bool \<times> rt_decision \<times> playlist_runtime \<Rightarrow> session \<Rightarrow> session" where
  "activated p now out s =
     (case out of (unusable, decision, rt) \<Rightarrow>
        (let s2 = put_runtime (pl_id p) rt s;
             s3 = (if unusable then s2\<lparr>se_snapshots := Mapping.delete (pl_id p) (se_snapshots s2)\<rparr> else s2);
             s4 = s3\<lparr>se_active := Some (pl_id p), se_last_decision := Some decision\<rparr>
         in (case rt_snapshot p now rt of
               Inr sn \<Rightarrow> s4\<lparr>se_snapshots := Mapping.update (pl_id p) sn (se_snapshots s4)\<rparr>
             | Inl _ \<Rightarrow> s4)))"

lemma activate_state:
  assumes "se_store_error s = None" "find_playlist i (se_playlists s) = Some p" "se_active s \<noteq> Some i"
  shows "snd (activate_playlist cx a (Some i) s) = persist_state cx (sa_write a)
    (activated p (now_ms (sa_elapsed a) s)
      (activate_runtime p (now_ms (sa_elapsed a) s) (unavailable_for (reset_apply (sa_verdict_at a) s) p)
         (Mapping.lookup (se_snapshots s) i) (runtime_entry i s))
      (reset_apply (sa_verdict_at a) s))"
proof -
  have "pl_id p = i" using assms(2) by (auto dest: find_playlist_Some)
  then show ?thesis using assms
    by (simp add: activate_playlist_def activated_def Let_def split: prod.split sum.split)
qed

lemma activated_inv:
  assumes "session_inv s" "rt_inv rt" "find_playlist (pl_id p) (se_playlists s) \<noteq> None"
  shows "session_inv (activated p now (b, d, rt) s)"
proof -
  define s3 where "s3 = (if b then (put_runtime (pl_id p) rt s)\<lparr>se_snapshots :=
      Mapping.delete (pl_id p) (se_snapshots (put_runtime (pl_id p) rt s))\<rparr> else put_runtime (pl_id p) rt s)"
  have "session_inv s3" "se_playlists s3 = se_playlists s"
    using put_runtime_inv [OF assms(1,2)] delete_snapshot_inv [OF put_runtime_inv [OF assms(1,2)]]
    by (simp_all add: s3_def)
  then have "session_inv (s3\<lparr>se_active := Some (pl_id p), se_last_decision := Some d\<rparr>)"
    using assms(3) by (intro set_active_inv) simp_all
  then show ?thesis
    using put_snapshot_decision_inv [where s = "s3\<lparr>se_active := Some (pl_id p)\<rparr>" and d = "Some d" and i = "pl_id p"]
    unfolding activated_def prod.case Let_def s3_def [symmetric]
    by (auto dest: rt_snapshot_valid split: sum.split)
qed

lemma activate_playlist_inv:
  assumes "session_inv s"
  shows "session_inv (snd (activate_playlist cx a i s))"
proof (cases "\<exists>j p. i = Some j \<and> se_store_error s = None \<and> find_playlist j (se_playlists s) = Some p
    \<and> se_active s \<noteq> Some j")
  case True
  then obtain j p where j: "i = Some j" "se_store_error s = None" "find_playlist j (se_playlists s) = Some p"
    "se_active s \<noteq> Some j" by blast
  have "pl_id p = j" using j(3) by (auto dest: find_playlist_Some)
  obtain b d rt where act: "activate_runtime p (now_ms (sa_elapsed a) s)
      (unavailable_for (reset_apply (sa_verdict_at a) s) p) (Mapping.lookup (se_snapshots s) j) (runtime_entry j s)
      = (b, d, rt)" by (rule prod_cases3)
  have "rt_inv rt" using activate_runtime_inv [OF runtime_entry_inv [OF assms] act] .
  then show ?thesis
    using assms j(3) \<open>pl_id p = j\<close> unfolding j(1) activate_state [OF j(2-4)] act
    by (intro persist_inv activated_inv) simp_all
next
  case False
  with assms show ?thesis
    by (auto simp: activate_playlist_def Let_def intro!: persist_inv deactivate_inv split: option.splits)
qed

lemma import_playlists_inv:
  assumes "session_inv s"
  shows "session_inv (snd (import_playlists cx io ps s))"
proof -
  obtain im rej where l: "import_loop ps [] [] 0 = (im, rej)" by fastforce
  show ?thesis
  proof (cases rule: save_definitions_cases [of cx io im s])
    case (saved d)
    have "se_active s = None" if "se_playlists s = []"
      using assms that by (auto simp: session_inv_def definitions_ok_def find_playlist_def)
    then have "se_store_error s = None \<Longrightarrow> se_playlists s = [] \<Longrightarrow> session_inv (s\<lparr>se_defs := d, se_playlists := im\<rparr>)"
      using assms saved(4-6)
      by (auto simp: session_inv_def definitions_ok_def runtimes_ok_def snapshots_ok_def lane_ok_def)
    then show ?thesis using assms saved(1) l
      by (auto simp: import_playlists_def split: option.splits)
  next
    case (failed e d)
    then show ?thesis using assms l by (auto simp: import_playlists_def split: option.splits)
  qed
qed

lemma clock_skip_inv:
  assumes "session_inv s"
  shows "session_inv (snd (debug_clock_skip a ms s))"
proof -
  have restored: "rt_inv rt2" if "Mapping.lookup (se_runtimes s) i = Some rt" "rt_restore sn p now rt = (r, rt1)"
    "rt_tick p now u rt1 = (r2, rt2)" for i rt sn p now r rt1 u r2 rt2
  proof -
    have "rt_inv rt" using that(1) assms by (auto simp: session_inv_def runtimes_ok_def)
    then show ?thesis using rt_inv_restore [OF _ that(2)] rt_inv_tick [OF _ that(3)] by blast
  qed
  have restored1: "rt_inv rt1" if "Mapping.lookup (se_runtimes s) i = Some rt" "rt_restore sn p now rt = (r, rt1)"
    for i rt sn p now r rt1
    using that assms rt_inv_restore [OF _ that(2)] by (auto simp: session_inv_def runtimes_ok_def)
  show ?thesis using assms restored restored1
    by (auto simp: debug_clock_skip_def Let_def intro!: put_runtime_inv split: option.splits prod.splits sum.splits)
qed

lemma shutdown_inv: "session_inv s \<Longrightarrow> session_inv (session_shutdown cx a s)"
  by (auto simp: session_shutdown_def Let_def intro!: persist_inv put_snapshot_inv dest: current_snapshot_ok
      split: option.splits)

lemma turn_inv [intro]: "session_inv s \<Longrightarrow> session_inv (snd (session_turn cx a r s))"
proof (cases r)
  case (ReceivedCommand c)
  assume "session_inv s"
  then show ?thesis unfolding ReceivedCommand
    by (cases c) (simp_all add: put_playlist_inv remove_playlist_inv activate_playlist_inv import_playlists_inv
        clock_skip_inv)
qed (auto simp: shutdown_inv)


section \<open>Start\<close>

lemma load_runtime_state_snapshots:
  assumes "load_runtime_state cx io d0 = ((act, sns), d)" "Mapping.lookup sns i = Some sn"
  shows "snapshot_validate sn = Inr ()"
  using assms
  by (auto simp: load_runtime_state_def Let_def lookup_filter split: if_splits option.splits)

lemma store_load_ok:
  assumes "store_load parse rd = Inr ps"
  shows "list_all playlist_ok ps \<and> distinct (map pl_id ps) \<and> length ps \<le> max_playlists"
  using assms check_playlists_iff [of "[]" ps]
  by (auto simp: store_load_def result_simps split: file_read.splits if_splits)

lemma session_new_inv:
  "session_inv (start_apply_worker c (session_new cx c io elapsed started defs disk0))"
proof -
  obtain act sns d where l: "load_runtime_state cx io disk0 = ((act, sns), d)" by (metis prod.exhaust_sel)
  obtain ps err where st: "(case store_load (sx_parse_playlists cx) (read_definitions io defs) of
      Inr ps \<Rightarrow> (ps, None) | Inl e \<Rightarrow> ([], Some e)) = (ps, err)" by fastforce
  have ps: "list_all playlist_ok ps" "distinct (map pl_id ps)" "length ps \<le> max_playlists" "err \<noteq> None \<longrightarrow> ps = []"
    using st store_load_ok by (auto split: sum.splits)
  have rt: "rt_inv (snd (rt_restore sn p t (rt_new 0)))" for sn p t
    using rt_inv_restore [OF rt_inv_new surjective_pairing] by blast
  have active: "find_playlist i ps \<noteq> None"
    if "Option.bind act (\<lambda>i. map_option pl_id (find_playlist i ps)) = Some i" for i
    using that by (auto simp: bind_eq_Some_conv dest: find_playlist_Some)
  show ?thesis
    using ps rt active load_runtime_state_snapshots [OF l]
    unfolding session_new_def l st prod.case Let_def
    by (auto simp: session_inv_def definitions_ok_def runtimes_ok_def snapshots_ok_def lane_ok_def lane_load_def
        put_runtime_def runtime_entry_def rt_inv_new start_apply_worker_def split: option.splits)
qed

lemma session_run_inv: "session_inv s \<Longrightarrow> session_inv (snd (session_run cx evs (running, s)))"
proof (induction evs arbitrary: running s)
  case Nil
  then show ?case by simp
next
  case (Cons ev evs)
  obtain e a where ev: "ev = (e, a)" by fastforce
  show ?case
  proof (cases e)
    case (SessionTurn r)
    obtain go s' where "session_turn cx a r s = (go, s')" by fastforce
    with Cons turn_inv [of s cx a r] show ?thesis by (simp add: ev SessionTurn)
  next
    case (WorkerTurn w)
    with Cons show ?thesis by (simp add: ev worker_step_inv)
  qed
qed

text \<open>
  C28: whatever the two files held at the start, and whatever the clock, the supervisor, the disk, the
  clients and the apply worker do, the session only ever holds valid playlists with distinct identities, an
  active playlist is one of them, every runtime and every snapshot it would save is well formed, and at
  most one apply is queued, running or unreported, none unless the in-flight flag is set.
\<close>

theorem session_invariant:
  assumes "s = snd (session_run cx evs (True,
             start_apply_worker c (session_new cx c io elapsed started defs disk)))"
  shows "list_all playlist_ok (se_playlists s) \<and> distinct (map pl_id (se_playlists s))
    \<and> (\<forall>i. se_active s = Some i \<longrightarrow> i \<in> pl_id ` set (se_playlists s))
    \<and> (\<forall>i rt. Mapping.lookup (se_runtimes s) i = Some rt \<longrightarrow> rt_inv rt)
    \<and> (\<forall>i sn. Mapping.lookup (se_snapshots s) i = Some sn \<longrightarrow> snapshot_validate sn = Inr ())
    \<and> (\<forall>l. se_lane s = Some l \<longrightarrow> lane_load l \<le> (if se_apply_in_flight s then 1 else 0))"
proof -
  have inv: "session_inv s" unfolding assms by (intro session_run_inv session_new_inv)
  show ?thesis using inv unfolding session_inv_def definitions_ok_def runtimes_ok_def snapshots_ok_def lane_ok_def
      find_playlist_None by auto
qed

section \<open>Definitions in memory and on disk\<close>

text \<open>What a load of the definitions file gives, and that it is what the session holds.\<close>

definition stored_definitions :: "session_env \<Rightarrow> directory \<Rightarrow> (playlist_error, playlist list) result" where
  "stored_definitions cx d = store_load (sx_parse_playlists cx)
     (case d definitions_file of None \<Rightarrow> ReadNotFound | Some bytes \<Rightarrow> ReadBytes bytes)"

definition definitions_agree :: "session_env \<Rightarrow> session \<Rightarrow> bool" where
  "definitions_agree cx s \<longleftrightarrow>
     (se_store_error s = None \<longrightarrow> stored_definitions cx (se_defs s) = Inr (se_playlists s))"

lemma saved_agrees:
  assumes "sx_parse_playlists cx (sx_ser_playlists cx ps) = Some ps"
    and "d definitions_file = Some (sx_ser_playlists cx ps)" "length (sx_ser_playlists cx ps) \<le> max_store_bytes"
    "list_all playlist_ok ps" "distinct (map pl_id ps)" "length ps \<le> max_playlists"
  shows "stored_definitions cx d = Inr ps"
  using assms check_playlists_iff [of "[]" ps]
  by (auto simp: stored_definitions_def store_load_def not_less)

lemma agree_fields:
  assumes "se_defs s' = se_defs s" "se_playlists s' = se_playlists s" "se_store_error s' = se_store_error s"
  shows "definitions_agree cx s' = definitions_agree cx s"
  using assms by (simp add: definitions_agree_def)

text \<open>The fields that the operations on the runtime leave alone.\<close>

definition same_definitions :: "session \<Rightarrow> session \<Rightarrow> bool" where
  "same_definitions s s' \<longleftrightarrow> se_defs s' = se_defs s \<and> se_playlists s' = se_playlists s
     \<and> se_store_error s' = se_store_error s"

lemma same_refl [simp]: "same_definitions s s" by (simp add: same_definitions_def)

lemma same_trans: "same_definitions s t \<Longrightarrow> same_definitions t u \<Longrightarrow> same_definitions s u"
  by (simp add: same_definitions_def)

lemma same_persist [simp]: "same_definitions s (persist_state cx io t) = same_definitions s t"
  by (cases rule: persist_frame [of cx io t]) (simp add: same_definitions_def)

lemma same_fold [simp]: "same_definitions s (fold_apply_completions now t) = same_definitions s t"
proof -
  have "same_definitions s (fold (fold_outcome now) os t) = same_definitions s t" for os
    by (induction os arbitrary: t) (auto simp: same_definitions_def)
  then show ?thesis
    by (simp add: fold_apply_completions_def same_definitions_def split: option.split)
qed

lemma same_refresh [simp]: "same_definitions s (refresh_quarantine a t) = same_definitions s t"
  by (simp add: refresh_quarantine_def same_definitions_def split: sum.split)

lemma same_maybe_apply [simp]: "same_definitions s (maybe_apply a p d t) = same_definitions s t"
  by (simp add: maybe_apply_def dispatch_apply_def same_definitions_def reset_backoff_def yield_to_foreign_def Let_def
      split: option.split sum.split verdict.split)

lemma same_maybe_persist [simp]: "same_definitions s (maybe_persist cx a i d now t) = same_definitions s t"
proof -
  have "same_definitions s (t\<lparr>se_last_decision := x, se_snapshots := y, se_last_waiting_persist := z\<rparr>)
      = same_definitions s t"
    "same_definitions s (t\<lparr>se_last_decision := x, se_last_waiting_persist := z\<rparr>) = same_definitions s t"
    "same_definitions s (t\<lparr>se_last_decision := x\<rparr>) = same_definitions s t" for x y z
    by (simp_all add: same_definitions_def)
  then show ?thesis by (simp add: maybe_persist_def Let_def split: option.split)
qed

lemma same_tick: "same_definitions s (tick_session cx a s)"
proof -
  define t where "t = fold_apply_completions (sa_fold_at a) (refresh_quarantine a s)"
  have t: "same_definitions s t" by (simp add: t_def)
  have active: "same_definitions s (snd (tick_active_playlist cx a p t))" for p
  proof -
    have "same_definitions s (put_runtime i rt t)" for i rt using t by (simp add: same_definitions_def)
    then show ?thesis by (simp add: tick_active_playlist_def Let_def split: prod.split sum.split)
  qed
  moreover have "same_definitions s (reset_apply now (t\<lparr>se_active := None, se_last_decision := None\<rparr>))" for now
    using t by (simp add: same_definitions_def)
  ultimately show ?thesis using t
    unfolding tick_session_def t_def [symmetric] Let_def by (simp split: option.split)
qed

lemma same_activate: "same_definitions s (snd (activate_playlist cx a i s))"
proof -
  have "same_definitions s (activated p now out (reset_apply t s))" for p now out t
    by (simp add: activated_def same_definitions_def Let_def split: prod.split sum.split)
  moreover have "same_definitions s (reset_apply t (s\<lparr>se_active := None, se_last_decision := None\<rparr>))" for t
    by (simp add: same_definitions_def)
  ultimately show ?thesis
  proof (cases "\<exists>j p. i = Some j \<and> se_store_error s = None \<and> find_playlist j (se_playlists s) = Some p
      \<and> se_active s \<noteq> Some j")
    case True
    then obtain j p where "i = Some j" "se_store_error s = None" "find_playlist j (se_playlists s) = Some p"
      "se_active s \<noteq> Some j" by blast
    then show ?thesis by (simp add: activate_state \<open>\<And>t p out now. same_definitions s (activated p now out (reset_apply t s))\<close>)
  next
    case False
    then show ?thesis
      using \<open>\<And>t. same_definitions s (reset_apply t (s\<lparr>se_active := None, se_last_decision := None\<rparr>))\<close>
      by (auto simp: activate_playlist_def Let_def split: option.splits)
  qed
qed

lemma same_clock_skip: "same_definitions s (snd (debug_clock_skip a ms s))"
  by (auto simp: debug_clock_skip_def Let_def same_definitions_def split: option.splits prod.splits sum.splits)

lemma same_shutdown: "same_definitions s (session_shutdown cx a s)"
  by (simp add: session_shutdown_def Let_def split: option.split) (simp add: same_definitions_def)

lemma same_agree: "same_definitions s s' \<Longrightarrow> definitions_agree cx s \<Longrightarrow> definitions_agree cx s'"
  by (simp add: definitions_agree_def same_definitions_def)

lemma saved_state_agrees:
  assumes "sx_parse_playlists cx (sx_ser_playlists cx ps) = Some ps"
    and "d definitions_file = Some (sx_ser_playlists cx ps)" "length (sx_ser_playlists cx ps) \<le> max_store_bytes"
    "list_all playlist_ok ps" "distinct (map pl_id ps)" "length ps \<le> max_playlists"
    and "se_defs s = d" "se_playlists s = ps"
  shows "definitions_agree cx s"
  using saved_agrees [where d = d, OF assms(1-6)] assms(7,8) by (simp add: definitions_agree_def)

lemma failed_agrees:
  "d definitions_file = se_defs s definitions_file \<Longrightarrow> definitions_agree cx s \<Longrightarrow> definitions_agree cx (s\<lparr>se_defs := d\<rparr>)"
  by (simp add: definitions_agree_def stored_definitions_def)

lemma put_agrees:
  assumes "\<forall>ps. sx_parse_playlists cx (sx_ser_playlists cx ps) = Some ps" "definitions_agree cx s"
  shows "definitions_agree cx (snd (put_playlist cx io p s))"
proof (cases rule: save_definitions_cases [of cx io "filter (\<lambda>q. pl_id q \<noteq> pl_id p) (se_playlists s) @ [p]" s])
  case (saved d)
  let ?ps = "filter (\<lambda>q. pl_id q \<noteq> pl_id p) (se_playlists s) @ [p]"
  have "definitions_agree cx (s\<lparr>se_defs := d, se_playlists := ?ps\<rparr>)"
    using assms(1) by (intro saved_state_agrees [where d = d, OF _ saved(2-6)]) simp_all
  then show ?thesis using assms(2) saved(1) by (auto simp: put_playlist_def Let_def split: option.splits sum.splits)
next
  case (failed e d)
  then show ?thesis using assms(2) failed_agrees [where d = d, OF failed(2)]
    by (auto simp: put_playlist_def Let_def split: option.splits sum.splits)
qed

lemma remove_agrees:
  assumes "\<forall>ps. sx_parse_playlists cx (sx_ser_playlists cx ps) = Some ps" "definitions_agree cx s"
  shows "definitions_agree cx (snd (remove_playlist cx a i s))"
proof (cases rule: save_definitions_cases [of cx "sa_save a" "filter (\<lambda>q. pl_id q \<noteq> i) (se_playlists s)" s])
  case (saved d)
  have agree: "definitions_agree cx t"
    if "se_defs t = d" "se_playlists t = filter (\<lambda>q. pl_id q \<noteq> i) (se_playlists s)" for t
    using assms(1) by (intro saved_state_agrees [where d = d, OF _ saved(2-6) that]) simp
  show ?thesis
  proof (cases "se_store_error s = None \<and> list_ex (\<lambda>p. pl_id p = i) (se_playlists s)")
    case True
    have "same_definitions t (persist_state cx io t)" for io t by simp
    then have persist: "definitions_agree cx (persist_state cx io t)"
      if "se_defs t = d" "se_playlists t = filter (\<lambda>q. pl_id q \<noteq> i) (se_playlists s)" for io t
      using same_agree agree [OF that] by blast
    from True saved(1) show ?thesis
      by (simp add: remove_playlist_def Let_def persist)
  next
    case False
    then show ?thesis using assms(2) by (auto simp: remove_playlist_def split: option.splits)
  qed
next
  case (failed e d)
  then show ?thesis using assms(2) failed_agrees [where d = d, OF failed(2)]
    by (auto simp: remove_playlist_def Let_def split: option.splits)
qed

lemma import_agrees:
  assumes "\<forall>ps. sx_parse_playlists cx (sx_ser_playlists cx ps) = Some ps" "definitions_agree cx s"
  shows "definitions_agree cx (snd (import_playlists cx io ims s))"
proof -
  obtain im rej where l: "import_loop ims [] [] 0 = (im, rej)" by fastforce
  show ?thesis
  proof (cases rule: save_definitions_cases [of cx io im s])
    case (saved d)
    have "definitions_agree cx (s\<lparr>se_defs := d, se_playlists := im\<rparr>)"
      using assms(1) by (intro saved_state_agrees [where d = d, OF _ saved(2-6)]) simp_all
    then show ?thesis using assms(2) saved(1) l by (auto simp: import_playlists_def split: option.splits)
  next
    case (failed e d)
    then show ?thesis using assms(2) l failed_agrees [where d = d, OF failed(2)]
      by (auto simp: import_playlists_def split: option.splits)
  qed
qed

lemma turn_agrees:
  assumes "\<forall>ps. sx_parse_playlists cx (sx_ser_playlists cx ps) = Some ps" "definitions_agree cx s"
  shows "definitions_agree cx (snd (session_turn cx a r s))"
proof (cases r)
  case (ReceivedCommand c)
  show ?thesis unfolding ReceivedCommand
  proof (cases c)
    case (SessionActivate i)
    then show "definitions_agree cx (snd (session_turn cx a (ReceivedCommand c) s))"
      using same_agree [OF same_activate assms(2)] by simp
  next
    case (SessionClockSkip ms)
    then show "definitions_agree cx (snd (session_turn cx a (ReceivedCommand c) s))"
      using same_agree [OF same_clock_skip assms(2)] by simp
  next
    case (SessionAvailability ids)
    then show "definitions_agree cx (snd (session_turn cx a (ReceivedCommand c) s))"
      using assms(2) by (simp add: definitions_agree_def)
  qed (use assms in \<open>simp_all add: put_agrees remove_agrees import_agrees\<close>)
qed (use assms(2) same_agree [OF same_shutdown assms(2)] same_agree [OF same_tick assms(2)] in simp_all)

lemma run_agrees:
  assumes "\<forall>ps. sx_parse_playlists cx (sx_ser_playlists cx ps) = Some ps" "definitions_agree cx s"
  shows "definitions_agree cx (snd (session_run cx evs (running, s)))"
  using assms(2)
proof (induction evs arbitrary: running s)
  case Nil
  then show ?case by simp
next
  case (Cons ev evs)
  obtain e a where ev: "ev = (e, a)" by fastforce
  show ?case
  proof (cases e)
    case (SessionTurn r)
    obtain go s' where "session_turn cx a r s = (go, s')" by fastforce
    with Cons turn_agrees [OF assms(1) Cons.prems, of a r] show ?thesis by (simp add: ev SessionTurn)
  next
    case (WorkerTurn w)
    have "definitions_agree cx (worker_step w s)"
      using Cons.prems by (simp add: definitions_agree_def worker_step_def)
    with Cons show ?thesis by (simp add: ev WorkerTurn)
  qed
qed

lemma new_agrees: "definitions_agree cx (start_apply_worker c (session_new cx c io elapsed started defs disk0))"
proof -
  obtain act sns d where l: "load_runtime_state cx io disk0 = ((act, sns), d)" by (metis prod.exhaust_sel)
  have fields: "se_defs (start_apply_worker c t) = se_defs t" "se_playlists (start_apply_worker c t) = se_playlists t"
    "se_store_error (start_apply_worker c t) = se_store_error t" for t
    by (simp_all add: start_apply_worker_def)
  show ?thesis
  proof (cases "store_load (sx_parse_playlists cx) (read_definitions io defs)")
    case (Inl e)
    then show ?thesis
      by (auto simp: definitions_agree_def fields session_new_def l Let_def split: option.split)
  next
    case (Inr ps)
    then have "\<not> lo_definitions_fail io" by (auto simp: read_definitions_def store_load_def)
    with Inr have "stored_definitions cx defs = Inr ps" by (simp add: stored_definitions_def read_definitions_def)
    then show ?thesis using Inr
      by (auto simp: definitions_agree_def fields session_new_def l Let_def split: option.split)
  qed
qed

lemma turn_frozen: "se_store_error s \<noteq> None \<Longrightarrow> same_definitions s (snd (session_turn cx a r s))"
proof (cases r)
  case (ReceivedCommand c)
  assume "se_store_error s \<noteq> None"
  then show ?thesis unfolding ReceivedCommand
  proof (cases c)
    case (SessionAvailability ids)
    then show "same_definitions s (snd (session_turn cx a (ReceivedCommand c) s))"
      by (simp add: same_definitions_def)
  qed (auto simp: same_activate same_clock_skip put_playlist_def remove_playlist_def import_playlists_def)
qed (simp_all add: same_shutdown same_tick)

lemma run_frozen:
  "se_store_error s \<noteq> None \<Longrightarrow> same_definitions s (snd (session_run cx evs (running, s)))"
proof (induction evs arbitrary: running s)
  case Nil
  then show ?case by simp
next
  case (Cons ev evs)
  obtain e a where ev: "ev = (e, a)" by fastforce
  have step: "same_definitions s (snd (session_run cx evs (go, t)))" if "same_definitions s t" for go t
    using Cons.IH [of t go] Cons.prems that same_trans by (auto simp: same_definitions_def)
  show ?case
  proof (cases e)
    case (SessionTurn r)
    obtain go t where "session_turn cx a r s = (go, t)" by fastforce
    with turn_frozen [OF Cons.prems, of cx a r] step show ?thesis by (simp add: ev SessionTurn)
  next
    case (WorkerTurn w)
    have "same_definitions s (worker_step w s)" by (simp add: same_definitions_def worker_step_def)
    with step show ?thesis by (simp add: ev WorkerTurn)
  qed
qed

lemma new_defs: "se_defs (start_apply_worker c (session_new cx c io elapsed started defs disk0)) = defs"
proof -
  obtain act sns d where l: "load_runtime_state cx io disk0 = ((act, sns), d)" by (metis prod.exhaust_sel)
  show ?thesis by (simp add: session_new_def l Let_def start_apply_worker_def split: option.split sum.split)
qed

text \<open>
  C29: the playlists in memory are the ones on disk. With a JSON codec that reads back what it wrote,
  after any run of commands, ticks and worker steps, with any of the file system calls failing at any
  place, a load of the definitions file gives exactly the playlists the session holds; when the file could
  not be loaded at the start, no command ever changes it.
\<close>

theorem session_store_agrees:
  assumes "\<forall>ps. sx_parse_playlists cx (sx_ser_playlists cx ps) = Some ps"
    and "s0 = start_apply_worker c (session_new cx c io elapsed started defs disk)"
    and "s = snd (session_run cx evs (True, s0))"
  shows "(se_store_error s = None \<longrightarrow> stored_definitions cx (se_defs s) = Inr (se_playlists s))
    \<and> (se_store_error s0 \<noteq> None \<longrightarrow> se_defs s = defs)"
proof -
  have "definitions_agree cx s"
    unfolding assms(2,3) by (rule run_agrees [OF assms(1) new_agrees])
  moreover have "se_store_error s0 \<noteq> None \<Longrightarrow> se_defs s = defs"
    using run_frozen [of s0 cx evs True] new_defs assms(2,3) by (simp add: same_definitions_def)
  ultimately show ?thesis by (simp add: definitions_agree_def)
qed

end
