(* ===== verification/Playlist_Session_Safety.thy ===== *)
theory Playlist_Session_Safety
  imports Playlist_Session_Inv
begin

text \<open>
  What a playlist session guarantees: an apply is dispatched only when the user's renderer is not displaced,
  a tick of the active playlist always reaches a decision, a restart and a clock skip keep the remaining
  time, and an import takes every legacy playlist it can.
\<close>

section \<open>Verdicts\<close>



section \<open>What a decision names\<close>

lemma set_unavailable: "set (unavailable_for s p) = {e \<in> set (pl_entries p). entry_unavailable s e}"
  by (auto simp: unavailable_for_def)



section \<open>The gate of an apply\<close>

definition lane_requests :: "session \<Rightarrow> apply_request list" where
  "lane_requests s = (case se_lane s of Some l \<Rightarrow> al_requests l | None \<Rightarrow> [])"


lemma maybe_persist_fields [simp]:
  "se_supervisor (maybe_persist cx a i d now s) = se_supervisor s"
  "se_lane (maybe_persist cx a i d now s) = se_lane s"
  "se_output (maybe_persist cx a i d now s) = se_output s"
  "se_applied_wallpaper (maybe_persist cx a i d now s) = se_applied_wallpaper s"
  "se_next_apply_retry (maybe_persist cx a i d now s) = se_next_apply_retry s"
  "se_apply_in_flight (maybe_persist cx a i d now s) = se_apply_in_flight s"
  "se_last_decision (maybe_persist cx a i d now s) = Some d"
  "se_clock_offset_ms (maybe_persist cx a i d now s) = se_clock_offset_ms s"
  "se_runtimes (maybe_persist cx a i d now s) = se_runtimes s"
proof -
  have persist: "se_supervisor (persist_state cx io t) = se_supervisor t"
    "se_lane (persist_state cx io t) = se_lane t" "se_output (persist_state cx io t) = se_output t"
    "se_applied_wallpaper (persist_state cx io t) = se_applied_wallpaper t"
    "se_next_apply_retry (persist_state cx io t) = se_next_apply_retry t"
    "se_apply_in_flight (persist_state cx io t) = se_apply_in_flight t"
    "se_last_decision (persist_state cx io t) = se_last_decision t"
    "se_clock_offset_ms (persist_state cx io t) = se_clock_offset_ms t"
    "se_runtimes (persist_state cx io t) = se_runtimes t" for io t
    by (cases rule: persist_frame [of cx io t], simp)+
  show "se_supervisor (maybe_persist cx a i d now s) = se_supervisor s"
    "se_lane (maybe_persist cx a i d now s) = se_lane s"
    "se_output (maybe_persist cx a i d now s) = se_output s"
    "se_applied_wallpaper (maybe_persist cx a i d now s) = se_applied_wallpaper s"
    "se_next_apply_retry (maybe_persist cx a i d now s) = se_next_apply_retry s"
    "se_apply_in_flight (maybe_persist cx a i d now s) = se_apply_in_flight s"
    "se_last_decision (maybe_persist cx a i d now s) = Some d"
    "se_clock_offset_ms (maybe_persist cx a i d now s) = se_clock_offset_ms s"
    "se_runtimes (maybe_persist cx a i d now s) = se_runtimes s"
    by (simp_all add: maybe_persist_def Let_def persist split: option.split)
qed

lemma put_runtime_lane [simp]:
  "se_supervisor (put_runtime i rt s) = se_supervisor s"
  "se_lane (put_runtime i rt s) = se_lane s" "se_output (put_runtime i rt s) = se_output s"
  "se_applied_wallpaper (put_runtime i rt s) = se_applied_wallpaper s"
  "se_next_apply_retry (put_runtime i rt s) = se_next_apply_retry s"
  "se_apply_in_flight (put_runtime i rt s) = se_apply_in_flight s"
  by (simp_all add: put_runtime_def)

text \<open>The session as a tick sees it: quarantine refreshed, completions folded.\<close>

definition tick_view :: "session_answer \<Rightarrow> session \<Rightarrow> session" where
  "tick_view a s = fold_apply_completions (sa_fold_at a) (refresh_quarantine a s)"



lemma tick_view_fields [simp]:
  "se_active (tick_view a s) = se_active s" "se_playlists (tick_view a s) = se_playlists s"
proof -
  have "se_active (fold (fold_outcome n) os t) = se_active t" for n os t
    by (induction os arbitrary: t) simp_all
  then show "se_active (tick_view a s) = se_active s"
    by (simp add: tick_view_def fold_apply_completions_def refresh_quarantine_def split: option.split sum.split)
  have "same_definitions s (tick_view a s)" by (simp add: tick_view_def)
  then show "se_playlists (tick_view a s) = se_playlists s" by (simp add: same_definitions_def)
qed

lemma lane_requests_frames [simp]:
  "lane_requests (reset_apply now s) = lane_requests s"
  "lane_requests (s\<lparr>se_active := x, se_last_decision := y\<rparr>) = lane_requests s"
  "lane_requests (put_runtime i rt s) = lane_requests s"
  "lane_requests (maybe_persist cx a i d t s) = lane_requests s"
  by (simp_all add: lane_requests_def)

lemma lane_requests_persist [simp]: "lane_requests (persist_state cx io t) = lane_requests t"
  by (cases rule: persist_frame [of cx io t]) (simp add: lane_requests_def)



text \<open>
  A paused playlist applies the entry it is paused on although that is missing, quarantined or refused:
  the decision does not look at availability. And a refusal of the capability gate closes no retry gate,
  so as long as no renderer runs every tick dispatches the refused entry again.
\<close>

lemma paused_dispatches_refused:
  assumes "se_active s = Some i" "find_playlist i (se_playlists s) = Some p"
    and "rt_tick p (now_ms (sa_elapsed a) (tick_view a s)) (unavailable_for (tick_view a s) p)
           (runtime_entry (pl_id p) (tick_view a s)) = (Inr (Paused w j left), rt)"
    and "se_supervisor (tick_view a s)" "sa_status a = Inr status" "\<not> phase_has_live_worker (ws_phase status)"
    and "se_next_apply_retry (tick_view a s) \<le> sa_verdict_at a" "\<not> se_apply_in_flight (tick_view a s)"
    and "se_lane (tick_view a s) = Some l" "al_worker l \<noteq> WorkerGone" "al_requests l = []"
  shows "\<exists>r. lane_requests (tick_session cx a s) = [r] \<and> ar_wallpaper_id r = w"
proof -
  let ?t = "tick_view a s"
  let ?u = "maybe_persist cx a (pl_id p) (Paused w j left) (now_ms (sa_elapsed a) ?t) (put_runtime (pl_id p) rt ?t)"
  have "tick_session cx a s = maybe_apply a p (Paused w j left) ?u"
    unfolding tick_session_def tick_view_def [symmetric] Let_def
    using assms(1-3) by (simp add: tick_active_playlist_def Let_def)
  then show ?thesis
    using assms(4-11)
    by (simp add: maybe_apply_def Let_def apply_verdict_def dispatch_apply_def lane_requests_def apply_queue_capacity_def)
qed

lemma gate_refusal_closes_no_gate:
  "se_next_apply_retry (fold_outcome now \<lparr>ao_wallpaper_id = w, ao_result = Inl (ApCapabilityGate x y z)\<rparr> s) = se_next_apply_retry s"
  "\<not> se_apply_in_flight (fold_outcome now \<lparr>ao_wallpaper_id = w, ao_result = Inl (ApCapabilityGate x y z)\<rparr> s)"
  "entry_unavailable (fold_outcome now \<lparr>ao_wallpaper_id = w, ao_result = Inl (ApCapabilityGate x y z)\<rparr> s) w"
  by (simp_all add: fold_outcome_def entry_unavailable_def)

section \<open>The clock\<close>

text \<open>
  The elapsed time never decreases from event to event and stays below \<open>2^62\<close> milliseconds; with at most
  \<open>2^40\<close> events, and so at most as many clock skips of at most an hour, the session clock does not overflow.
\<close>

fun times_ok :: "u64 \<Rightarrow> (session_event \<times> session_answer) list \<Rightarrow> bool" where
  "times_ok t [] = (unat t < 2 ^ 62)"
| "times_ok t ((e, a) # evs) =
     (t \<le> sa_elapsed a \<and> sa_elapsed a \<le> sa_elapsed_after a \<and> times_ok (sa_elapsed_after a) evs)"

fun end_time :: "u64 \<Rightarrow> (session_event \<times> session_answer) list \<Rightarrow> u64" where
  "end_time t [] = t"
| "end_time t ((e, a) # evs) = end_time (sa_elapsed_after a) evs"

definition observed_by :: "nat \<Rightarrow> playlist_runtime \<Rightarrow> bool" where
  "observed_by n rt \<longleftrightarrow> (\<forall>t. rt_last_now_ms rt = Some t \<longrightarrow> unat t \<le> n)"

definition clock_inv :: "u64 \<Rightarrow> nat \<Rightarrow> session \<Rightarrow> bool" where
  "clock_inv t k s \<longleftrightarrow> unat (se_clock_offset_ms s) \<le> 3600000 * k
     \<and> (\<forall>i rt. Mapping.lookup (se_runtimes s) i = Some rt \<longrightarrow>
          observed_by (unat t + unat (se_clock_offset_ms s)) rt)"

lemma observed_mono: "observed_by m rt \<Longrightarrow> m \<le> n \<Longrightarrow> observed_by n rt"
  by (fastforce simp: observed_by_def)

lemma select_last_now: "rt_last_now_ms (snd (rt_select p now u st rt)) = rt_last_now_ms rt"
  by (simp add: rt_select_def rt_select_with_def clear_current_def Let_def split: option.split sum.split)

lemma tick_last_now:
  "rt_tick p now u rt = (r, rt') \<Longrightarrow> rt_last_now_ms rt' = rt_last_now_ms rt \<or> rt_last_now_ms rt' = Some now"
proof -
  assume t: "rt_tick p now u rt = (r, rt')"
  have sel: "rt_select p now u False x = (r, rt') \<Longrightarrow> rt_last_now_ms rt' = rt_last_now_ms x" for x
    using select_last_now [of p now u False x] by simp
  show ?thesis
  proof (cases "observe_time rt now")
    case (Inl e)
    with t show ?thesis by (auto simp: rt_tick_def split: sum.splits)
  next
    case (Inr rt1)
    then have "rt_last_now_ms rt1 = Some now" by (auto simp: observe_time_def split: if_splits)
    with t Inr show ?thesis
      by (auto simp: rt_tick_def Let_def dest: sel split: sum.splits option.splits if_splits)
  qed
qed

lemma start_last_now:
  "rt_start p now u rt = (r, rt') \<Longrightarrow> rt_last_now_ms rt' = rt_last_now_ms rt \<or> rt_last_now_ms rt' = Some now"
  using select_last_now [of p now u True "(clear_current rt)\<lparr>rt_last_now_ms := Some now, rt_history := []\<rparr>"]
  by (auto simp: rt_start_def split: sum.splits)

lemma restore_last_now:
  "rt_restore sn p now rt = (r, rt') \<Longrightarrow> rt_last_now_ms rt' = rt_last_now_ms rt \<or> rt_last_now_ms rt' = Some now"
  by (auto simp: rt_restore_def split: sum.splits if_splits)

lemma observed_step:
  assumes "observed_by n rt" "rt_last_now_ms rt' = rt_last_now_ms rt \<or> rt_last_now_ms rt' = Some now" "unat now \<le> n"
  shows "observed_by n rt'"
  using assms by (auto simp: observed_by_def)

lemma observed_new: "observed_by n (rt_new seed)"
  by (simp add: observed_by_def rt_new_def)

lemma activate_observed:
  assumes "observed_by n rt" "activate_runtime p now u saved rt = (b, d, rt')" "unat now \<le> n"
  shows "observed_by n rt'"
proof (cases saved)
  case None
  with assms(2) obtain r where "rt_start p now u rt = (r, rt')"
    by (auto simp: activate_runtime_def split: prod.splits)
  from observed_step [OF assms(1) start_last_now [OF this] assms(3)] show ?thesis .
next
  case (Some sn)
  obtain r rt1 where r: "rt_restore sn p now rt = (r, rt1)" by fastforce
  have o1: "observed_by n rt1" by (rule observed_step [OF assms(1) restore_last_now [OF r] assms(3)])
  show ?thesis
  proof (cases r)
    case (Inl e)
    with assms(2) Some r obtain r2 where "rt_start p now u rt1 = (r2, rt')"
      by (auto simp: activate_runtime_def split: prod.splits)
    from observed_step [OF o1 start_last_now [OF this] assms(3)] show ?thesis .
  next
    case (Inr v)
    with assms(2) Some r obtain r2 where "rt_tick p now u rt1 = (r2, rt')"
      by (auto simp: activate_runtime_def split: prod.splits)
    from observed_step [OF o1 tick_last_now [OF this] assms(3)] show ?thesis .
  qed
qed

text \<open>Reading the clock within the bounds does not wrap around.\<close>

lemma now_ms_unat:
  assumes "clock_inv t k s" "unat e < 2 ^ 62" "k \<le> 2 ^ 40"
  shows "unat (now_ms e s) = unat e + unat (se_clock_offset_ms s)"
proof -
  have "3600000 * k \<le> 3600000 * 2 ^ 40" using assms(3) by simp
  then have "unat (se_clock_offset_ms s) \<le> 3600000 * 2 ^ 40"
    using assms(1) unfolding clock_inv_def by linarith
  then have "unat e + unat (se_clock_offset_ms s) < 2 ^ 64" using assms(2) by simp
  then show ?thesis by (simp add: now_ms_def unat_word_ariths)
qed


lemma clock_mono:
  assumes "clock_inv t k s" "t \<le> t'" "k \<le> k'"
  shows "clock_inv t' k' s"
proof -
  have "unat t + unat (se_clock_offset_ms s) \<le> unat t' + unat (se_clock_offset_ms s)"
    using assms(2) by (simp add: word_le_nat_alt)
  moreover have "3600000 * k \<le> 3600000 * k'" using assms(3) by simp
  ultimately show ?thesis using assms(1) observed_mono unfolding clock_inv_def by (meson order_trans)
qed

definition same_clock :: "session \<Rightarrow> session \<Rightarrow> bool" where
  "same_clock s s' \<longleftrightarrow> se_clock_offset_ms s' = se_clock_offset_ms s \<and> se_runtimes s' = se_runtimes s"

lemma same_clock_inv: "same_clock s s' \<Longrightarrow> clock_inv t k s' = clock_inv t k s"
  by (simp add: same_clock_def clock_inv_def)

lemma same_clock_refl [simp]: "same_clock s s" by (simp add: same_clock_def)

lemma same_clock_persist [simp]: "same_clock s (persist_state cx io u) = same_clock s u"
  by (cases rule: persist_frame [of cx io u]) (simp add: same_clock_def)

lemma clock_persist [simp]: "clock_inv t k (persist_state cx io u) = clock_inv t k u"
  by (rule same_clock_inv) simp

lemma clock_deactivate [simp]:
  "clock_inv t k (reset_apply n (s\<lparr>se_active := None, se_last_decision := None\<rparr>)) = clock_inv t k s"
  by (rule same_clock_inv) (simp add: same_clock_def)

lemma same_clock_view [simp]: "same_clock s (tick_view a s)"
proof -
  have "same_clock s (fold (fold_outcome now) os u) = same_clock s u" for now os u
    by (induction os arbitrary: u) (auto simp: same_clock_def)
  moreover have "same_clock s (refresh_quarantine a s)"
    by (simp add: refresh_quarantine_def same_clock_def split: sum.split)
  ultimately show ?thesis
    by (simp add: tick_view_def fold_apply_completions_def same_clock_def split: option.split)
qed

lemma maybe_apply_clock [simp]:
  "se_clock_offset_ms (maybe_apply a p d s) = se_clock_offset_ms s" "se_runtimes (maybe_apply a p d s) = se_runtimes s"
  "se_last_decision (maybe_apply a p d s) = se_last_decision s"
  by (simp_all add: maybe_apply_def Let_def dispatch_apply_def reset_backoff_def yield_to_foreign_def
      split: option.split sum.split verdict.split)

lemma clock_put:
  assumes "clock_inv t k s" "observed_by (unat t + unat (se_clock_offset_ms s)) rt"
  shows "clock_inv t k (put_runtime i rt s)"
  using assms by (auto simp: clock_inv_def)

lemma clock_entry: "clock_inv t k s \<Longrightarrow> observed_by (unat t + unat (se_clock_offset_ms s)) (runtime_entry i s)"
  by (auto simp: clock_inv_def runtime_entry_def observed_new split: option.split)

lemma clock_tick:
  assumes "clock_inv t k s" "t \<le> sa_elapsed a" "unat (sa_elapsed a) < 2 ^ 62" "k \<le> 2 ^ 40"
  shows "clock_inv (sa_elapsed a) k (tick_session cx a s)"
proof -
  let ?e = "sa_elapsed a" and ?v = "tick_view a s"
  have v: "clock_inv ?e k ?v" using clock_mono [OF assms(1,2), of k] same_clock_inv [of s ?v] by simp
  note now = now_ms_unat [OF v assms(3,4)]
  have active: "clock_inv ?e k (snd (tick_active_playlist cx a p ?v))" for p
  proof -
    obtain r rt where rt: "rt_tick p (now_ms ?e ?v) (unavailable_for ?v p) (runtime_entry (pl_id p) ?v) = (r, rt)"
      by fastforce
    have "observed_by (unat ?e + unat (se_clock_offset_ms ?v)) rt"
      using observed_step [OF clock_entry [OF v] tick_last_now [OF rt]] now by simp
    then have put: "clock_inv ?e k (put_runtime (pl_id p) rt ?v)" by (rule clock_put [OF v])
    show ?thesis
    proof (cases r)
      case (Inl e)
      with rt put show ?thesis by (simp add: tick_active_playlist_def Let_def)
    next
      case (Inr d)
      with rt have "same_clock (put_runtime (pl_id p) rt ?v) (snd (tick_active_playlist cx a p ?v))"
        by (simp add: tick_active_playlist_def Let_def same_clock_def)
      with put show ?thesis by (simp add: same_clock_inv)
    qed
  qed
  with v show ?thesis
    unfolding tick_session_def tick_view_def [symmetric] Let_def by (auto split: option.split)
qed

lemma clock_activate:
  assumes "clock_inv t k s" "t \<le> sa_elapsed a" "unat (sa_elapsed a) < 2 ^ 62" "k \<le> 2 ^ 40"
  shows "clock_inv (sa_elapsed a) k (snd (activate_playlist cx a i s))"
proof (cases "\<exists>j p. i = Some j \<and> se_store_error s = None \<and> find_playlist j (se_playlists s) = Some p
    \<and> se_active s \<noteq> Some j")
  case True
  let ?e = "sa_elapsed a" and ?s1 = "reset_apply (sa_verdict_at a) s"
  obtain j p where j: "i = Some j" "se_store_error s = None" "find_playlist j (se_playlists s) = Some p"
    "se_active s \<noteq> Some j" using True by blast
  have e: "clock_inv ?e k s" using clock_mono [OF assms(1,2)] by simp
  obtain b d rt where act: "activate_runtime p (now_ms ?e s) (unavailable_for ?s1 p)
      (Mapping.lookup (se_snapshots s) j) (runtime_entry j s) = (b, d, rt)" by (rule prod_cases3)
  have "observed_by (unat ?e + unat (se_clock_offset_ms s)) rt"
    using activate_observed [OF clock_entry [OF e] act] now_ms_unat [OF e assms(3,4)] by simp
  then have "clock_inv ?e k (put_runtime (pl_id p) rt s)" by (rule clock_put [OF e])
  moreover have "same_clock (put_runtime (pl_id p) rt s) (snd (activate_playlist cx a i s))"
    unfolding j(1) activate_state [OF j(2-4)] act
    by simp (simp add: activated_def same_clock_def Let_def split: sum.split)
  ultimately show ?thesis by (simp add: same_clock_inv)
next
  case False
  have "same_clock s (reset_apply n (s\<lparr>se_active := None, se_last_decision := None\<rparr>))" for n
    by (simp add: same_clock_def)
  with False have "same_clock s (snd (activate_playlist cx a i s))"
    by (auto simp: activate_playlist_def Let_def split: option.splits)
  with clock_mono [OF assms(1,2)] show ?thesis by (simp add: same_clock_inv)
qed

lemma skip_offset:
  assumes "clock_inv t k s" "ms \<le> max_clock_skip_ms" "k < 2 ^ 40"
  shows "unat (se_clock_offset_ms s + ms) = unat (se_clock_offset_ms s) + unat ms" "unat ms \<le> 3600000"
proof -
  show ms: "unat ms \<le> 3600000" using assms(2) by (simp add: word_le_nat_alt max_clock_skip_ms_def)
  have "3600000 * k \<le> 3600000 * 2 ^ 40" using assms(3) by simp
  then have "unat (se_clock_offset_ms s) \<le> 3600000 * 2 ^ 40"
    using assms(1) unfolding clock_inv_def by linarith
  with ms have "unat (se_clock_offset_ms s) + unat ms < 2 ^ 64" by simp
  then show "unat (se_clock_offset_ms s + ms) = unat (se_clock_offset_ms s) + unat ms"
    by (simp add: unat_word_ariths)
qed


lemma clock_skip:
  assumes "clock_inv t k s" "t \<le> sa_elapsed a" "sa_elapsed a \<le> sa_elapsed_after a"
    "unat (sa_elapsed_after a) < 2 ^ 62" "k < 2 ^ 40"
  shows "clock_inv (sa_elapsed_after a) (Suc k) (snd (debug_clock_skip a ms s))"
proof (cases "1 \<le> ms \<and> ms \<le> max_clock_skip_ms")
  case False
  have "t \<le> sa_elapsed_after a" using assms(2,3) by (rule order_trans)
  with False clock_mono [OF assms(1)] show ?thesis by (auto simp: debug_clock_skip_def)
next
  case True
  let ?e = "sa_elapsed_after a"
  define s1 where "s1 = s\<lparr>se_clock_offset_ms := se_clock_offset_ms s + ms, se_clock_skipped_ms := se_clock_skipped_ms s + ms\<rparr>"
  note off = skip_offset [OF assms(1) _ assms(5), of ms]
  have e: "t \<le> ?e" using assms(2,3) by (rule order_trans)
  have "clock_inv ?e k s" by (rule clock_mono [OF assms(1) e]) simp
  then have s1: "clock_inv ?e (Suc k) s1"
    using off True by (fastforce simp: clock_inv_def s1_def intro: observed_mono)
  note now = now_ms_unat [OF s1 assms(4)]
  have bound: "unat (now_ms ?e s1) \<le> unat ?e + unat (se_clock_offset_ms s1)" using now assms(5) by simp
  have restored: "clock_inv ?e (Suc k) (put_runtime i rt1 s1)"
    if "Mapping.lookup (se_runtimes s) i = Some rt" "rt_restore sn p (now_ms ?e s1) rt = (r, rt1)" for i rt sn p r rt1
  proof -
    have "observed_by (unat ?e + unat (se_clock_offset_ms s1)) rt"
      using s1 that(1) by (simp add: clock_inv_def s1_def)
    from observed_step [OF this restore_last_now [OF that(2)] bound] show ?thesis by (rule clock_put [OF s1])
  qed
  have ticked: "clock_inv ?e (Suc k) (put_runtime i rt2 s1)"
    if "Mapping.lookup (se_runtimes s) i = Some rt" "rt_restore sn p (now_ms ?e s1) rt = (r, rt1)"
      "rt_tick p (now_ms ?e s1) u rt1 = (r2, rt2)" for i rt sn p r rt1 u r2 rt2
  proof -
    have "observed_by (unat ?e + unat (se_clock_offset_ms s1)) rt"
      using s1 that(1) by (simp add: clock_inv_def s1_def)
    from observed_step [OF observed_step [OF this restore_last_now [OF that(2)] bound] tick_last_now [OF that(3)] bound]
    show ?thesis by (rule clock_put [OF s1])
  qed
  have decision: "clock_inv ?e (Suc k) (x\<lparr>se_last_decision := d\<rparr>) = clock_inv ?e (Suc k) x" for x d
    by (rule same_clock_inv) (simp add: same_clock_def)
  have runtimes: "se_runtimes s1 = se_runtimes s" by (simp add: s1_def)
  show ?thesis
    using True s1 restored ticked
    by (auto simp: debug_clock_skip_def s1_def [symmetric] Let_def decision runtimes
        split: option.splits prod.splits sum.splits)
qed

lemma clock_turn:
  assumes "clock_inv t k s" "t \<le> sa_elapsed a" "sa_elapsed a \<le> sa_elapsed_after a"
    "unat (sa_elapsed_after a) < 2 ^ 62" "k < 2 ^ 40"
  shows "clock_inv (sa_elapsed_after a) (Suc k) (snd (session_turn cx a r s))"
proof -
  have le: "t \<le> sa_elapsed_after a" using assms(2,3) by (rule order_trans)
  have e: "unat (sa_elapsed a) < 2 ^ 62" using assms(3,4) by (simp add: word_le_nat_alt)
  have k: "k \<le> 2 ^ 40" using assms(5) by simp
  have later: "clock_inv (sa_elapsed_after a) (Suc k) s'" if "clock_inv (sa_elapsed a) k s'" for s'
    by (rule clock_mono [OF that assms(3)]) simp
  have kept: "clock_inv (sa_elapsed_after a) (Suc k) s'" if "same_clock s s'" for s'
    using clock_mono [OF assms(1) le, of "Suc k"] same_clock_inv [OF that] by simp
  have save: "se_clock_offset_ms x = se_clock_offset_ms s \<and> se_runtimes x = se_runtimes s"
    if "save_definitions cx io ps s = (y, x)" for io ps x y
    using that by (auto simp: save_definitions_def split: prod.splits)
  show ?thesis
  proof (cases r)
    case (ReceivedCommand c)
    show ?thesis
    proof (cases c)
      case (SessionPut p)
      have "same_clock s (snd (put_playlist cx (sa_save a) p s))"
        by (auto simp: put_playlist_def Let_def same_clock_def dest: save split: option.splits sum.splits prod.splits)
      then show ?thesis using kept by (simp add: ReceivedCommand SessionPut)
    next
      case (SessionRemove i)
      have "clock_inv (sa_elapsed_after a) (Suc k) (snd (remove_playlist cx a i s))"
      proof (cases rule: save_definitions_cases [of cx "sa_save a" "filter (\<lambda>p. pl_id p \<noteq> i) (se_playlists s)" s])
        case (saved d)
        have "clock_inv (sa_elapsed_after a) (Suc k) s" by (rule kept) simp
        then have "clock_inv (sa_elapsed_after a) (Suc k) u"
          if "se_clock_offset_ms u = se_clock_offset_ms s" "se_runtimes u = Mapping.delete i (se_runtimes s)" for u
          using that by (auto simp: clock_inv_def)
        moreover have "clock_inv (sa_elapsed_after a) (Suc k) s" by (rule kept) simp
        ultimately show ?thesis using saved(1)
          by (auto simp: remove_playlist_def Let_def split: option.splits)
      next
        case (failed e d)
        have "clock_inv (sa_elapsed_after a) (Suc k) s" by (rule kept) simp
        moreover have "clock_inv (sa_elapsed_after a) (Suc k) (s\<lparr>se_defs := d\<rparr>)"
          by (rule kept) (simp add: same_clock_def)
        ultimately show ?thesis using failed(1)
          by (auto simp: remove_playlist_def Let_def split: option.splits)
      qed
      then show ?thesis by (simp add: ReceivedCommand SessionRemove)
    next
      case (SessionActivate i)
      then show ?thesis using later [OF clock_activate [OF assms(1,2) e k]] by (simp add: ReceivedCommand)
    next
      case (SessionImport ims)
      have "same_clock s (snd (import_playlists cx (sa_save a) ims s))"
        by (auto simp: import_playlists_def same_clock_def dest: save split: option.splits sum.splits prod.splits)
      then show ?thesis using kept by (simp add: ReceivedCommand SessionImport)
    next
      case (SessionClockSkip ms)
      then show ?thesis using clock_skip [OF assms] by (simp add: ReceivedCommand)
    next
      case (SessionAvailability ids)
      have "same_clock s (s\<lparr>se_valid_ids := ids\<rparr>)" by (simp add: same_clock_def)
      then show ?thesis using kept by (simp add: ReceivedCommand SessionAvailability)
    qed (use kept in \<open>simp_all add: ReceivedCommand\<close>)
  next
    case ReceivedShutdown
    have "same_clock s (session_shutdown cx a s)"
      by (simp add: session_shutdown_def Let_def split: option.split) (simp add: same_clock_def)
    then show ?thesis using kept by (simp add: ReceivedShutdown)
  next
    case ReceivedTimeout
    then show ?thesis using later [OF clock_tick [OF assms(1,2) e k]] by simp
  qed (use kept in simp_all)
qed


lemma times_ok_end: "times_ok t evs \<Longrightarrow> t \<le> end_time t evs \<and> unat (end_time t evs) < 2 ^ 62"
proof (induction t evs rule: times_ok.induct)
  case (2 t e a evs)
  then show ?case using order_trans by fastforce
qed simp

lemma clock_run:
  assumes "clock_inv t k s" "times_ok t evs" "k + length evs \<le> 2 ^ 40"
  shows "clock_inv (end_time t evs) (k + length evs) (snd (session_run cx evs (running, s)))"
  using assms
proof (induction evs arbitrary: t k running s)
  case Nil
  then show ?case by simp
next
  case (Cons ev evs)
  obtain e a where ev: "ev = (e, a)" by fastforce
  have times: "t \<le> sa_elapsed a" "sa_elapsed a \<le> sa_elapsed_after a" "times_ok (sa_elapsed_after a) evs"
    using Cons.prems(2) by (simp_all add: ev)
  have late: "unat (sa_elapsed_after a) < 2 ^ 62"
    using times_ok_end [OF times(3)] by (simp add: word_le_nat_alt)
  have k: "k < 2 ^ 40" "Suc k + length evs \<le> 2 ^ 40" using Cons.prems(3) by simp_all
  have le: "t \<le> sa_elapsed_after a" using times(1,2) by (rule order_trans)
  show ?case
  proof (cases e)
    case (SessionTurn r)
    obtain go s' where turn: "session_turn cx a r s = (go, s')" by fastforce
    have "clock_inv (sa_elapsed_after a) (Suc k) s'"
      using clock_turn [OF Cons.prems(1) times(1,2) late k(1), of cx r] turn by simp
    moreover have "clock_inv (sa_elapsed_after a) (Suc k) s" by (rule clock_mono [OF Cons.prems(1) le]) simp
    ultimately show ?thesis
      using Cons.IH [OF _ times(3) k(2)] turn by (simp add: ev SessionTurn)
  next
    case (WorkerTurn w)
    have "clock_inv (sa_elapsed_after a) (Suc k) s" by (rule clock_mono [OF Cons.prems(1) le]) simp
    then have "clock_inv (sa_elapsed_after a) (Suc k) (worker_step w s)"
      using same_clock_inv [of s "worker_step w s"] by (simp add: same_clock_def worker_step_def)
    from Cons.IH [OF this times(3) k(2)] show ?thesis by (simp add: ev WorkerTurn)
  qed
qed

lemma clock_new:
  "clock_inv elapsed 0 (start_apply_worker c (session_new cx c io elapsed started defs disk0))"
proof -
  obtain act sns d where l: "load_runtime_state cx io disk0 = ((act, sns), d)" by (metis prod.exhaust_sel)
  have rt: "observed_by (unat elapsed) (snd (rt_restore sn p elapsed (rt_new 0)))" for sn p
    by (rule observed_step [OF observed_new restore_last_now [OF surjective_pairing]]) simp
  show ?thesis
    using rt
    by (auto simp: session_new_def l clock_inv_def start_apply_worker_def put_runtime_def runtime_entry_def
        now_ms_def observed_new Let_def split: option.split sum.split prod.split)
qed

text \<open>An entry list of a valid playlist is always a legal list of unavailable entries.\<close>

lemma unavailable_valid:
  assumes "playlist_ok p"
  shows "validate_unavailable (unavailable_for s p) = Inr ()"
proof -
  have "length (unavailable_for s p) \<le> length (pl_entries p)"
    unfolding unavailable_for_def
    using remdups_adj_length [of "sort (filter (entry_unavailable s) (pl_entries p))"]
      length_filter_le [of "entry_unavailable s" "pl_entries p"]
    by (simp only: length_sort)
  moreover have "list_all entry_ok (unavailable_for s p)"
    using assms by (auto simp: list_all_iff set_unavailable playlist_ok_def)
  ultimately show ?thesis
    using assms
    by (auto simp: validate_unavailable_def fail_if_def list_ex_iff list_all_iff entry_ok_def playlist_ok_def
        max_entries_def max_runtime_entries_def not_less)
qed

lemma tick_decides:
  assumes "playlist_ok p" "rt_inv rt" "\<And>t. rt_last_now_ms rt = Some t \<Longrightarrow> t \<le> now"
    "validate_unavailable u = Inr ()"
  shows "\<exists>d. fst (rt_tick p now u rt) = Inr d"
  using assms(2,1)
proof (cases rule: observed_cases [of rt p now])
  case late
  with assms(3) show ?thesis
    by (auto simp: observe_time_def not_less split: if_splits option.splits)
next
  case (on_time rt1)
  have sel: "\<exists>d. fst (rt_select p now u False x) = Inr d" for x
    using surjective_pairing [of "rt_select p now u False x"] assms(1) by (cases rule: rt_select_cases) auto
  show ?thesis
    using on_time(1,4) assms(1,4) sel
    by (auto simp: rt_tick_def playlist_ok_validate Let_def entry_at_in split: option.split)
qed

text \<open>
  C32: a tick of the active playlist never fails. From the start of the session, over any run whose clock
  readings do not decrease, the tick finds the active playlist among the definitions, no error of the
  runtime is reached (neither a time regression nor an index out of range), and the decision it makes is
  the one the session then reports.
\<close>

theorem session_tick_decides:
  assumes "s = snd (session_run cx evs (True,
             start_apply_worker c (session_new cx c io elapsed started defs disk)))"
    and "times_ok elapsed evs" "length evs \<le> 2 ^ 40"
    and "end_time elapsed evs \<le> sa_elapsed a" "unat (sa_elapsed a) < 2 ^ 62" "se_active s = Some i"
  shows "\<exists>p d. find_playlist i (se_playlists s) = Some p
    \<and> fst (tick_active_playlist cx a p (tick_view a s)) = Inr d
    \<and> se_last_decision (tick_session cx a s) = Some d"
proof -
  let ?v = "tick_view a s" and ?e = "sa_elapsed a"
  have inv: "session_inv s" unfolding assms(1) by (intro session_run_inv session_new_inv)
  then have vinv: "session_inv ?v" unfolding tick_view_def by blast
  obtain p where p: "find_playlist i (se_playlists s) = Some p"
    using inv assms(6) by (auto simp: session_inv_def definitions_ok_def)
  have ok: "playlist_ok p" using inv p find_playlist_ok by (auto simp: session_inv_def)
  have "clock_inv (end_time elapsed evs) (length evs) s"
    unfolding assms(1) using clock_run [OF clock_new assms(2), where running = True] assms(3) by simp
  then have "clock_inv ?e (length evs) s" by (rule clock_mono [OF _ assms(4)]) simp
  then have clock: "clock_inv ?e (length evs) ?v" using same_clock_inv [of s ?v] by simp
  have past: "t \<le> now_ms ?e ?v" if "rt_last_now_ms (runtime_entry (pl_id p) ?v) = Some t" for t
    using clock_entry [OF clock, of "pl_id p"] that now_ms_unat [OF clock assms(5,3)]
    by (simp add: observed_by_def word_le_nat_alt)
  obtain d where d: "fst (rt_tick p (now_ms ?e ?v) (unavailable_for ?v p) (runtime_entry (pl_id p) ?v)) = Inr d"
    using tick_decides [OF ok runtime_entry_inv [OF vinv] past unavailable_valid [OF ok]] by blast
  have active: "fst (tick_active_playlist cx a p ?v) = Inr d"
    "se_last_decision (snd (tick_active_playlist cx a p ?v)) = Some d"
    using d by (auto simp: tick_active_playlist_def Let_def split: prod.split)
  moreover have "tick_session cx a s = snd (tick_active_playlist cx a p ?v)"
    using p assms(6) unfolding tick_session_def tick_view_def [symmetric] by simp
  ultimately show ?thesis using p by auto
qed

end
