(* ===== verification/Playlist_Session_Restart.thy ===== *)
theory Playlist_Session_Restart
  imports Playlist_Session_Safety "HOL-Library.Countable" "HOL-Library.Sublist"
begin

text \<open>
  The time a playlist has left survives a restart of the daemon and a clock skip; and the import of the
  manager's old playlists.
\<close>

section \<open>Restart\<close>

lemma evict_disk: "se_disk (evict_snapshots cx ks s) = se_disk s"
  using evict_frame [of cx ks s] by auto

lemma persist_writes:
  assumes "s' = persist_state cx io s" "length (encode_state cx s') \<le> max_runtime_state_bytes"
    "is_ok (fst (atomic_write runtime_state_file (encode_state cx s') io (se_disk s)))"
  shows "Mapping.lookup (se_disk s') runtime_state_file = Some (encode_state cx s')"
proof -
  define t where "t = evict_snapshots cx
      (filter (\<lambda>k. Some k \<noteq> se_active s) (Mapping.ordered_keys (se_snapshots s))) s"
  have s': "s' = (if max_runtime_state_bytes < length (encode_state cx t) then t
      else t\<lparr>se_disk := snd (atomic_write runtime_state_file (encode_state cx t) io (se_disk t))\<rparr>)"
    unfolding assms(1) persist_state_def t_def [symmetric] Let_def by simp
  then have same: "encode_state cx s' = encode_state cx t"
    by (simp add: encode_state_def persisted_state_def split: if_splits)
  have disk: "se_disk t = se_disk s" by (simp add: t_def evict_disk)
  obtain u d where "atomic_write runtime_state_file (encode_state cx t) io (se_disk s) = (Inr u, d)"
    using assms(3) unfolding same by (auto simp: is_ok_iff prod_eq_iff)
  from daemon_file.write_ok [OF this] this show ?thesis
    using assms(2) same disk s' by (auto split: if_splits)
qed

lemma shutdown_snapshot:
  assumes "se_active s = Some i" "current_snapshot (now_ms (sa_elapsed a) s) i s = Some sn"
  shows "Mapping.lookup (se_snapshots (session_shutdown cx a s)) i = Some sn"
    "se_active (session_shutdown cx a s) = Some i"
proof -
  let ?t = "s\<lparr>se_snapshots := Mapping.update i sn (se_snapshots s)\<rparr>"
  have eq: "session_shutdown cx a s = persist_state cx (sa_write a) ?t"
    using assms by (simp add: session_shutdown_def)
  show "Mapping.lookup (se_snapshots (session_shutdown cx a s)) i = Some sn"
    "se_active (session_shutdown cx a s) = Some i"
    by (cases rule: persist_frame [of cx "sa_write a" ?t], use assms(1) in \<open>simp add: eq\<close>)+
qed

lemma load_saved_state:
  assumes "Mapping.lookup d runtime_state_file = Some (encode_state cx s)"
    "length (encode_state cx s) \<le> max_runtime_state_bytes"
    "sx_parse_state cx (encode_state cx s) = Some (persisted_state s)"
    "Mapping.size (se_snapshots s) \<le> max_snapshot_entries"
    "\<not> lo_metadata_fail io" "\<not> lo_read_fail io"
  shows "load_runtime_state cx io d =
    ((se_active s, Mapping.filter (\<lambda>_ sn. snapshot_validate sn = Inr ()) (se_snapshots s)), d)"
  using assms
  by (simp add: load_runtime_state_def Let_def not_less [symmetric]) (simp add: persisted_state_def)

lemma new_runtime:
  assumes "load_runtime_state cx io d = ((Some i, sns), d)" "Mapping.lookup sns i = Some sn"
    "store_load (sx_parse_playlists cx) (read_definitions io defs) = Inr ps" "find_playlist i ps = Some p"
  shows "se_active (session_new cx c io e started defs d) = Some i"
    "Mapping.lookup (se_runtimes (session_new cx c io e started defs d)) i
       = Some (snd (rt_restore sn p e (rt_new 0)))"
proof -
  have "pl_id p = i" using assms(4) by (auto dest: find_playlist_Some)
  then show "se_active (session_new cx c io e started defs d) = Some i"
    "Mapping.lookup (se_runtimes (session_new cx c io e started defs d)) i
       = Some (snd (rt_restore sn p e (rt_new 0)))"
    using assms
    by (simp_all add: session_new_def Let_def put_runtime_def runtime_entry_def now_ms_def split: option.split)
qed

text \<open>
  C31: a restart resumes where the session stopped. When a session with an active playlist shuts down and
  its final write succeeds, a new session that starts later from the two files is active on the same
  playlist, and its runtime has the position, the remaining time, the seed and the history that the old
  one had at the shutdown, whatever time passed in between.
\<close>

theorem session_restart_resumes:
  assumes "session_inv s" "definitions_agree cx s" "se_store_error s = None"
    and "se_active s = Some i" "Mapping.lookup (se_runtimes s) i = Some rt"
    and "\<And>t. rt_last_now_ms rt = Some t \<Longrightarrow> t \<le> now_ms (sa_elapsed a) s"
    and "s' = session_shutdown cx a s"
    and "length (encode_state cx s') \<le> max_runtime_state_bytes"
    and "is_ok (fst (atomic_write runtime_state_file (encode_state cx s') (sa_write a) (se_disk s)))"
    and "sx_parse_state cx (encode_state cx s') = Some (persisted_state s')"
    and "Mapping.size (se_snapshots s') \<le> max_snapshot_entries"
    and "\<not> lo_definitions_fail io" "\<not> lo_metadata_fail io" "\<not> lo_read_fail io"
    and "unat later + unat max_snapshot_remaining_ms < 2 ^ 64"
  shows "\<exists>p rt'. find_playlist i (se_playlists s) = Some p
    \<and> se_active (session_new cx c io later started (se_defs s') (se_disk s')) = Some i
    \<and> Mapping.lookup (se_runtimes (session_new cx c io later started (se_defs s') (se_disk s'))) i = Some rt'
    \<and> rt_view later rt' = rt_view (now_ms (sa_elapsed a) s) (reconcile_current p rt)"
proof -
  let ?now = "now_ms (sa_elapsed a) s"
  obtain p where p: "find_playlist i (se_playlists s) = Some p"
    using assms(1,4) by (auto simp: session_inv_def definitions_ok_def)
  have ok: "playlist_ok p" using assms(1) p find_playlist_ok by (auto simp: session_inv_def)
  have inv: "rt_inv rt" using assms(1,5) by (auto simp: session_inv_def runtimes_ok_def)
  have past: "case rt_last_now_ms rt of Some t \<Rightarrow> t \<le> ?now | None \<Rightarrow> True"
    using assms(6) by (auto split: option.split)
  obtain sn rt' where sn: "rt_snapshot p ?now rt = Inr sn" "rt_restore sn p later (rt_new 0) = (Inr (), rt')"
    "rt_view later rt' = rt_view ?now (reconcile_current p rt)"
    using snapshot_restore_view [OF inv ok past assms(15), of "rt_new 0"] by blast
  have "current_snapshot ?now i s = Some sn" using p assms(5) sn(1) by (simp add: current_snapshot_def)
  note down = shutdown_snapshot [OF assms(4) this, of cx, folded assms(7)]
  have state: "s' = persist_state cx (sa_write a) (s\<lparr>se_snapshots := Mapping.update i sn (se_snapshots s)\<rparr>)"
    using assms(4) \<open>current_snapshot ?now i s = Some sn\<close> unfolding assms(7) by (simp add: session_shutdown_def)
  have "Mapping.lookup (se_disk s') runtime_state_file = Some (encode_state cx s')"
    using persist_writes [OF state assms(8)] assms(9) by simp
  from load_saved_state [OF this assms(8,10,11,13,14)]
  have load: "load_runtime_state cx io (se_disk s') =
      ((Some i, Mapping.filter (\<lambda>_ sn. snapshot_validate sn = Inr ()) (se_snapshots s')), se_disk s')"
    by (simp add: down(2))
  have kept: "Mapping.lookup (Mapping.filter (\<lambda>_ sn. snapshot_validate sn = Inr ()) (se_snapshots s')) i = Some sn"
    using down(1) rt_snapshot_valid [OF sn(1)] by (simp add: lookup_filter)
  have "se_defs s' = se_defs s"
    unfolding assms(7) using same_shutdown [of s cx a] by (simp add: same_definitions_def)
  then have "store_load (sx_parse_playlists cx) (read_definitions io (se_defs s')) = Inr (se_playlists s)"
    using assms(2,3,12) by (simp add: definitions_agree_def stored_definitions_def read_definitions_def)
  note new = new_runtime [OF load kept this p]
  show ?thesis using p new sn(2,3) by simp
qed

section \<open>The clock skip\<close>

lemma restore_state:
  assumes "rt_restore sn p now rt = (Inr (), rt1)"
  shows "rt_last_now_ms rt1 = Some now" "reconcile_current p rt1 = rt1" "playlist_ok p"
proof -
  obtain x where "rt1 = reconcile_current p x" "rt_last_now_ms x = Some now"
    using assms by (auto simp: rt_restore_def split: sum.splits if_splits)
  then show "rt_last_now_ms rt1 = Some now" "reconcile_current p rt1 = rt1" by (simp_all add: reconcile_idem)
  show "playlist_ok p"
    using assms by (cases p rule: validate_cases) (auto simp: rt_restore_def split: sum.splits)
qed

lemma reconcile_index:
  "rt_current_index (reconcile_current p rt) = Some j \<Longrightarrow>
     j < length (pl_entries p) \<and> rt_current_wallpaper_id rt = Some (pl_entries p ! j)"
  by (cases rule: reconcile_cases [of p rt]) auto

lemma tick_waiting:
  assumes "rt_last_now_ms rt = Some now" "reconcile_current p rt = rt" "playlist_ok p"
    "validate_unavailable u = Inr ()" "rt_current_index rt = Some j" "rt_current_wallpaper_id rt = Some w"
    "rt_paused_remaining_ms rt = None" "rt_deadline_ms rt = Some d" "now < d" "w \<notin> set u"
  shows "rt_tick p now u rt = (Inr (Waiting w j (d - now)), rt)"
proof -
  have j: "j < length (pl_entries p)" "pl_entries p ! j = w"
    using reconcile_index [of p rt j] assms(2,5,6) by simp_all
  have obs: "observe_time rt now = Inr rt"
    using assms(1) by (simp add: observe_time_def)
  show ?thesis using assms(2-10) j
    by (simp add: rt_tick_def playlist_ok_validate obs Let_def entry_at_in)
qed

text \<open>What a skip does to a session whose active runtime can be frozen and restored.\<close>

lemma clock_skip_state:
  assumes "1 \<le> ms" "ms \<le> max_clock_skip_ms" "se_active s = Some i" "find_playlist i (se_playlists s) = Some p"
    "Mapping.lookup (se_runtimes s) i = Some rt" "rt_snapshot p (now_ms (sa_elapsed a) s) rt = Inr sn"
    "sa_elapsed_after a = sa_elapsed a"
    "rt_restore sn p (now_ms (sa_elapsed a) s + ms) rt = (Inr (), rt1)"
    "rt_tick p (now_ms (sa_elapsed a) s + ms) (unavailable_for s p) rt1 = (Inr d, rt2)"
  shows "se_last_decision (snd (debug_clock_skip a ms s)) = Some d"
    "Mapping.lookup (se_runtimes (snd (debug_clock_skip a ms s))) i = Some rt2"
proof -
  let ?s1 = "s\<lparr>se_clock_offset_ms := se_clock_offset_ms s + ms, se_clock_skipped_ms := se_clock_skipped_ms s + ms\<rparr>"
  have now: "now_ms (sa_elapsed_after a) ?s1 = now_ms (sa_elapsed a) s + ms"
    using assms(7) by (simp add: now_ms_def)
  have unavailable: "unavailable_for ?s1 p = unavailable_for s p"
  proof -
    have "entry_unavailable ?s1 = entry_unavailable s" by (simp add: fun_eq_iff entry_unavailable_def)
    then show ?thesis by (simp add: unavailable_for_def)
  qed
  have frozen: "current_snapshot (now_ms (sa_elapsed a) s) i s = Some sn"
    using assms(4-6) by (simp add: current_snapshot_def)
  have "snd (debug_clock_skip a ms s) = (put_runtime i rt2 ?s1)\<lparr>se_last_decision := Some d\<rparr>"
    using assms(1-5,8,9) frozen by (simp add: debug_clock_skip_def Let_def now unavailable)
  then show "se_last_decision (snd (debug_clock_skip a ms s)) = Some d"
    "Mapping.lookup (se_runtimes (snd (debug_clock_skip a ms s))) i = Some rt2"
    by simp_all
qed

text \<open>
  a clock skip does not run down a playlist. With the clock read once (no time passes within the
  command), a skip inside its bounds keeps position, remaining time, seed and history of the active
  runtime when its entry still has time left and is available, and the session reports that the entry is
  waiting for exactly the time it had left; a skip outside its bounds changes nothing.
\<close>

theorem session_clock_skip:
  assumes "session_inv s" "se_active s = Some i" "find_playlist i (se_playlists s) = Some p"
    "Mapping.lookup (se_runtimes s) i = Some rt"
    "\<And>t. rt_last_now_ms rt = Some t \<Longrightarrow> t \<le> now_ms (sa_elapsed a) s"
    "sa_elapsed_after a = sa_elapsed a"
    "unat (now_ms (sa_elapsed a) s) + unat max_clock_skip_ms + unat max_snapshot_remaining_ms < 2 ^ 64"
  shows "(1 \<le> ms \<and> ms \<le> max_clock_skip_ms \<longrightarrow>
      (\<forall>j w left. rt_view (now_ms (sa_elapsed a) s) (reconcile_current p rt)
            = (Some j, Some w, Some left, None, rt_seed rt, rt_history rt) \<longrightarrow>
          0 < left \<longrightarrow> \<not> entry_unavailable s w \<longrightarrow>
          se_last_decision (snd (debug_clock_skip a ms s)) = Some (Waiting w j left)
          \<and> (\<exists>rt'. Mapping.lookup (se_runtimes (snd (debug_clock_skip a ms s))) i = Some rt'
               \<and> rt_view (now_ms (sa_elapsed a) s + ms) rt'
                   = rt_view (now_ms (sa_elapsed a) s) (reconcile_current p rt))))
    \<and> (\<not> (1 \<le> ms \<and> ms \<le> max_clock_skip_ms) \<longrightarrow> snd (debug_clock_skip a ms s) = s)"
proof (cases "1 \<le> ms \<and> ms \<le> max_clock_skip_ms")
  case False
  then show ?thesis by (auto simp: debug_clock_skip_def)
next
  case True
  let ?now = "now_ms (sa_elapsed a) s"
  let ?later = "?now + ms"
  have ok: "playlist_ok p" using assms(1,3) find_playlist_ok by (auto simp: session_inv_def)
  have inv: "rt_inv rt" using assms(1,4) by (auto simp: session_inv_def runtimes_ok_def)
  have past: "case rt_last_now_ms rt of Some t \<Rightarrow> t \<le> ?now | None \<Rightarrow> True"
    using assms(5) by (auto split: option.split)
  have "unat ms \<le> unat max_clock_skip_ms" using True by (simp add: word_le_nat_alt)
  then have "unat ?now + unat ms < 2 ^ 64" "unat ?now + unat ms + unat max_snapshot_remaining_ms < 2 ^ 64"
    using assms(7) by linarith+
  then have "unat ?later + unat max_snapshot_remaining_ms < 2 ^ 64" by (simp add: unat_word_ariths)
  from snapshot_restore_view [OF inv ok past this, of rt]
  obtain sn rt1 where sn: "rt_snapshot p ?now rt = Inr sn" "rt_restore sn p ?later rt = (Inr (), rt1)"
    "rt_view ?later rt1 = rt_view ?now (reconcile_current p rt)" by blast
  note st = restore_state [OF sn(2)]
  have "se_last_decision (snd (debug_clock_skip a ms s)) = Some (Waiting w j left)
      \<and> (\<exists>rt'. Mapping.lookup (se_runtimes (snd (debug_clock_skip a ms s))) i = Some rt'
           \<and> rt_view ?later rt' = rt_view ?now (reconcile_current p rt))"
    if view: "rt_view ?now (reconcile_current p rt) = (Some j, Some w, Some left, None, rt_seed rt, rt_history rt)"
      and left: "0 < left" and free: "\<not> entry_unavailable s w" for j w left
  proof -
    obtain d where d: "rt_current_index rt1 = Some j" "rt_current_wallpaper_id rt1 = Some w"
      "rt_paused_remaining_ms rt1 = None" "rt_deadline_ms rt1 = Some d" "sat_sub d ?later = left"
      using sn(3) view by (auto simp: rt_view_def split: if_splits)
    moreover have "d \<noteq> ?later" using d(5) left by (auto simp: sat_sub_def)
    ultimately have "?later < d" "d - ?later = left" using left by (auto simp: sat_sub_def split: if_splits)
    then have "rt_tick p ?later (unavailable_for s p) rt1 = (Inr (Waiting w j left), rt1)"
      using tick_waiting [OF st unavailable_valid [OF ok] d(1-4)] free by (simp add: set_unavailable)
    from clock_skip_state [OF _ _ assms(2-4) sn(1) assms(6) sn(2) this] True sn(3) show ?thesis by simp
  qed
  with True show ?thesis by blast
qed


section \<open>Import\<close>

lemma into_playlist_ok:
  assumes "into_playlist im i = Inr p"
  shows "playlist_ok p \<and> pl_id p = i \<and> pl_entries p = im_entries im \<and> pl_title p = str_take_chars 256 (im_title im)
    \<and> pl_shuffle p = im_shuffle im \<and> pl_repeat p = im_repeat im
    \<and> pl_duration_seconds p = im_duration_seconds im \<and> pl_transition_seconds p = im_transition_seconds im"
  using assms
  by (auto simp: into_playlist_def result_simps Let_def playlist_new_def playlist_set_timing_def
      split: if_splits dest: playlist_validate_ok)

lemma import_identity_fresh: "import_identity base used i n = Some j \<Longrightarrow> j \<noteq> [] \<and> j \<notin> set used"
proof (induction base used i n rule: import_identity.induct)
  case (1 base used i n)
  show ?case
  proof (cases "i \<noteq> [] \<and> i \<notin> set used")
    case True
    with 1(2) show ?thesis by (subst (asm) import_identity.simps) auto
  next
    case False
    with 1 show ?thesis by (subst (asm) (2) import_identity.simps) (auto split: if_splits)
  qed
qed

lemma import_identity_direct: "i \<noteq> [] \<Longrightarrow> i \<notin> set used \<Longrightarrow> import_identity base used i n = Some i"
  by (subst import_identity.simps) simp

declare import_identity.simps [simp del]

definition imported_from :: "import_playlist \<Rightarrow> playlist \<Rightarrow> bool" where
  "imported_from im p \<longleftrightarrow> into_playlist im (pl_id p) = Inr p"

lemma import_loop_result:
  assumes "import_loop es used ps n = (qs, m)" "set used = pl_id ` set ps" "distinct (map pl_id ps)"
    "list_all playlist_ok ps"
  shows "(\<exists>es' rs. qs = ps @ rs \<and> subseq es' es \<and> list_all2 imported_from es' rs)
    \<and> distinct (map pl_id qs) \<and> list_all playlist_ok qs \<and> length qs + m = length ps + n + length es"
  using assms
proof (induction es used ps n rule: import_loop.induct)
  case (1 used ps n)
  then show ?case by (auto intro: exI [of _ "[]"])
next
  case (2 e es used ps n)
  let ?base = "import_base (im_title e)"
  have skip: ?case if "import_loop es used ps (n + 1) = (qs, m)"
    and "(\<exists>es' rs. qs = ps @ rs \<and> subseq es' es \<and> list_all2 imported_from es' rs)
      \<and> distinct (map pl_id qs) \<and> list_all playlist_ok qs \<and> length qs + m = length ps + (n + 1) + length es"
    using that(2) by (auto intro: subseq_Cons')
  show ?case
  proof (cases "import_identity ?base used ?base 2")
    case None
    then have loop: "import_loop es used ps (n + 1) = (qs, m)" using 2(4) by simp
    from skip [OF this 2(1) [OF refl None this 2(5-7)]] show ?thesis .
  next
    case (Some i)
    show ?thesis
    proof (cases "into_playlist e i")
      case (Inl err)
      then have loop: "import_loop es used ps (n + 1) = (qs, m)" using 2(4) Some by simp
      from skip [OF this 2(2) [OF refl Some Inl this 2(5-7)]] show ?thesis .
    next
      case (Inr p)
      have p: "playlist_ok p" "pl_id p = i" using into_playlist_ok [OF Inr] by simp_all
      have fresh: "i \<notin> set used" using import_identity_fresh [OF Some] by simp
      have loop: "import_loop es (i # used) (ps @ [p]) n = (qs, m)" using 2(4) Some Inr by simp
      have "set (i # used) = pl_id ` set (ps @ [p])" "distinct (map pl_id (ps @ [p]))" "list_all playlist_ok (ps @ [p])"
        using 2(5-7) p fresh by auto
      from 2(3) [OF refl Some Inr loop this]
      obtain es' rs where rs: "qs = (ps @ [p]) @ rs" "subseq es' es" "list_all2 imported_from es' rs"
        and rest: "distinct (map pl_id qs)" "list_all playlist_ok qs"
          "length qs + m = length (ps @ [p]) + n + length es" by blast
      have "imported_from e p" using Inr p(2) by (simp add: imported_from_def)
      then have "qs = ps @ (p # rs)" "subseq (e # es') (e # es)" "list_all2 imported_from (e # es') (p # rs)"
        using rs by simp_all
      then show ?thesis using rest by (intro conjI exI [of _ "e # es'"] exI [of _ "p # rs"]) simp_all
    qed
  qed
qed

lemma import_loop_all:
  assumes "\<forall>e \<in> set es. into_playlist e (import_base (im_title e)) = Inr (f e)"
    "distinct (map (\<lambda>e. import_base (im_title e)) es)"
    "set used \<inter> (\<lambda>e. import_base (im_title e)) ` set es = {}"
  shows "import_loop es used ps n = (ps @ map f es, n)"
  using assms
proof (induction es arbitrary: used ps)
  case Nil
  then show ?case by simp
next
  case (Cons e es)
  let ?base = "import_base (im_title e)"
  have "into_playlist e ?base = Inr (f e)" using Cons.prems(1) by simp
  moreover have "import_identity ?base used ?base 2 = Some ?base"
    using Cons.prems(3) calculation
    by (intro import_identity_direct) (auto simp: into_playlist_def playlist_new_def result_simps split: if_splits)
  moreover have "import_loop es (?base # used) (ps @ [f e]) n = ((ps @ [f e]) @ map f es, n)"
    using Cons.prems by (intro Cons.IH) auto
  ultimately show ?case by simp
qed

text \<open>
  an import is exact. It succeeds only on a session without playlists; then the session holds a
  playlist for each legacy one it did not count as rejected, in their order, each converted field by field
  and valid, with pairwise distinct identities; it rejects none when the trimmed titles, cut to 124
  characters, differ and each converts under that title as its identity. A failed import leaves the
  playlists as they were.
\<close>

theorem session_import_exact:
  assumes "import_playlists cx io ims s = (r, s')"
  shows "(\<forall>sum. r = Inr sum \<longrightarrow> se_playlists s = [] \<and> is_imported sum = length (se_playlists s')
        \<and> is_imported sum + is_rejected sum = length ims
        \<and> list_all playlist_ok (se_playlists s') \<and> distinct (map pl_id (se_playlists s'))
        \<and> (\<exists>ims'. subseq ims' ims \<and> list_all2 imported_from ims' (se_playlists s'))
        \<and> ((\<forall>im \<in> set ims. is_ok (into_playlist im (import_base (im_title im))))
            \<longrightarrow> distinct (map (\<lambda>im. import_base (im_title im)) ims)
            \<longrightarrow> is_rejected sum = 0 \<and> map pl_id (se_playlists s') = map (\<lambda>im. import_base (im_title im)) ims))
    \<and> (\<not> is_ok r \<longrightarrow> se_playlists s' = se_playlists s)"
proof -
  obtain ps m where l: "import_loop ims [] [] 0 = (ps, m)" by fastforce
  have res: "distinct (map pl_id ps)" "list_all playlist_ok ps" "length ps + m = length ims"
    "\<exists>ims'. subseq ims' ims \<and> list_all2 imported_from ims' ps"
    using import_loop_result [OF l] by auto
  have none: "m = 0 \<and> map pl_id ps = map (\<lambda>im. import_base (im_title im)) ims"
    if "\<forall>im \<in> set ims. is_ok (into_playlist im (import_base (im_title im)))"
      "distinct (map (\<lambda>im. import_base (im_title im)) ims)"
  proof -
    define f where "f im = (case into_playlist im (import_base (im_title im)) of Inr p \<Rightarrow> p | Inl _ \<Rightarrow> undefined)" for im
    have f: "\<forall>im \<in> set ims. into_playlist im (import_base (im_title im)) = Inr (f im)"
      using that(1) by (fastforce simp: f_def is_ok_iff)
    have "import_loop ims [] [] 0 = ([] @ map f ims, 0)"
      by (rule import_loop_all [OF f that(2)]) simp
    moreover have "\<forall>im \<in> set ims. pl_id (f im) = import_base (im_title im)"
      using f into_playlist_ok by blast
    ultimately show ?thesis using l by simp
  qed
  show ?thesis
  proof (cases rule: save_definitions_cases [of cx io ps s])
    case (saved d)
    then show ?thesis using assms l res none
      by (auto simp: import_playlists_def split: option.splits if_splits)
  next
    case (failed e d)
    then show ?thesis using assms l
      by (auto simp: import_playlists_def split: option.splits if_splits)
  qed
qed

text \<open>
  The cut to 124 characters does not bound the identity to 128 bytes: a title of 65 two-byte characters,
  within every other limit, is rejected.
\<close>

definition accented_title :: string where
  "accented_title = chars_str (replicate 65 233)"

lemma import_accented_rejected:
  "import_base accented_title = accented_title \<and> length accented_title = 130
   \<and> (\<forall>im. im_title im = accented_title \<longrightarrow> \<not> is_ok (into_playlist im (import_base (im_title im))))"
proof -
  have chars: "str_chars accented_title = replicate 65 233"
    unfolding accented_title_def by (rule str_chars_chars_str) (simp add: list_all_iff is_scalar_def)
  have trim: "trim_chars (replicate 65 233) = replicate 65 233"
    by (simp add: trim_chars_def is_unicode_whitespace_def)
  have base: "import_base accented_title = accented_title"
    by (simp add: import_base_def chars trim) (simp add: accented_title_def)
  have len: "length accented_title = 130"
    by (simp add: accented_title_def chars_str_def bytes_str_def utf8_encode.simps length_concat sum_list_replicate)
  then show ?thesis using base
    by (auto simp: into_playlist_def playlist_new_def rbind_def split: sum.splits if_splits)
qed

end
