(* ===== verification/Playlist_Session_Samples.thy ===== *)
theory Playlist_Session_Samples
  imports Playlist_Session_Restart
begin

text \<open>The theorems on playlist sessions at concrete sessions, with concrete codecs and answers.\<close>

instance word :: (len) finite
  by standard (simp add: UNIV_word_eq_word_of_nat)

instance playlist_transition :: countable by countable_datatype

instance playlist_ext :: (countable) countable
  by (rule countable_classI [of "\<lambda>p. to_nat (pl_id p, pl_title p, pl_entries p, pl_shuffle p, pl_repeat p,
        pl_duration_seconds p, pl_transition p, pl_transition_seconds p, playlist.more p)"])
    (simp add: playlist.equality)

text \<open>A codec that reads back what it wrote: two lists have short encodings, the others unary ones.\<close>

definition sample_ser :: "playlist list \<Rightarrow> u8 list" where
  "sample_ser ps = (if ps = [] then [] else if ps = [sample_playlist] then [1] else replicate (to_nat ps + 2) 0)"

definition sample_parse :: "u8 list \<Rightarrow> playlist list option" where
  "sample_parse bs = (if bs = [] then Some [] else if bs = [1] then Some [sample_playlist]
     else Some (from_nat (length bs - 2)))"

definition sample_env :: session_env where
  "sample_env = \<lparr>sx_pid = 1, sx_ser_playlists = sample_ser, sx_parse_playlists = sample_parse,
     sx_ser_state = (\<lambda>_. [7]),
     sx_parse_state = (\<lambda>_. Some \<lparr>ps_schema_version = 1, ps_active = Some ''p'', ps_snapshots =
       Mapping.update ''p'' (snapshot_of sample_playlist 2000 sample_started) Mapping.empty\<rparr>)\<rparr>"

lemma sample_codec: "sx_parse_playlists sample_env (sx_ser_playlists sample_env ps) = Some ps"
  by (auto simp: sample_env_def sample_ser_def sample_parse_def)

definition idle_status :: worker_status where
  "idle_status = supervisor_status sample_context (supervisor_new fresh_state default_grants Mapping.empty)"


definition sample_session_answer :: session_answer where
  "sample_session_answer = \<lparr>sa_elapsed = 2000, sa_elapsed_after = 2000, sa_fold_at = 2000, sa_persist_at = 2000,
     sa_verdict_at = 2000, sa_quarantined = Inr {}, sa_status = Inr idle_status, sa_save = sample_save_io,
     sa_write = sample_write_io\<rparr>"

definition sample_session_config :: session_config where
  "sample_session_config = \<lparr>sc_supervisor = True, sc_valid_ids = {''a'', ''b'', ''c''}, sc_output = None,
     sc_apply = True\<rparr>"

definition sample_load_io :: load_io where
  "sample_load_io = \<lparr>lo_definitions_fail = False, lo_metadata_fail = False, lo_read_fail = False, lo_secs = 0,
     lo_nanos = 0, lo_renamed = True, lo_listed = True, lo_removable = (\<lambda>_. True)\<rparr>"

text \<open>A session that has played the first entry for a second.\<close>

definition sample_session :: session where
  "sample_session = \<lparr>se_supervisor = True, se_output = None,
     se_lane = Some \<lparr>al_requests = [], al_worker = WorkerIdle, al_done = []\<rparr>,
     se_playlists = [sample_playlist], se_store_error = None,
     se_runtimes = Mapping.update ''p'' sample_started Mapping.empty, se_snapshots = Mapping.empty,
     se_active = Some ''p'', se_last_decision = None, se_last_waiting_persist = 0,
     se_valid_ids = {''a'', ''b'', ''c''}, se_quarantined_ids = {}, se_gate_refused_ids = {},
     se_applied_wallpaper = None, se_apply_failures = 0, se_next_apply_retry = 0, se_apply_in_flight = False,
     se_last_status_error = None, se_clock_offset_ms = 0, se_clock_skipped_ms = 0,
     se_defs = [definitions_file \<mapsto> [1]], se_disk = Mapping.empty\<rparr>"

lemma sample_started_inv: "rt_inv sample_started"
  unfolding sample_start(1) [symmetric] by (rule rt_run_inv [OF rt_inv_new])

lemma sample_find: "find_playlist ''p'' [sample_playlist] = Some sample_playlist"
  by (simp add: find_playlist_def sample_playlist_def)

lemma sample_session_inv: "session_inv sample_session"
  using sample_playlist_ok sample_started_inv sample_find
  by (simp add: session_inv_def definitions_ok_def runtimes_ok_def snapshots_ok_def lane_ok_def lane_load_def
      sample_session_def max_playlists_def)

lemma sample_session_agrees: "definitions_agree sample_env sample_session"
proof -
  have "check_playlists [] [sample_playlist] = Inr ()" by (rule sample_store_check)
  then show ?thesis
    by (simp add: definitions_agree_def stored_definitions_def store_load_def sample_session_def sample_env_def
        sample_parse_def max_store_bytes_def max_playlists_def del: check_playlists.simps)
qed

lemma evict_small:
  "length (encode_state cx s) \<le> max_runtime_state_bytes \<Longrightarrow> evict_snapshots cx ks s = s"
  by (cases ks) simp_all

lemma sample_encode: "encode_state sample_env s = [7]"
  by (simp add: encode_state_def sample_env_def)

lemma sample_persist:
  "persist_state sample_env io s = s\<lparr>se_disk := snd (atomic_write runtime_state_file [7] io (se_disk s))\<rparr>"
  by (simp add: persist_state_def evict_small sample_encode max_runtime_state_bytes_def)

section \<open>Witnesses\<close>

lemma session_invariant_witness:
  "list_all playlist_ok (se_playlists (snd (session_run sample_env
     [(SessionTurn (ReceivedCommand (SessionPut sample_playlist)), sample_session_answer),
      (WorkerTurn WorkerTakes, sample_session_answer), (SessionTurn ReceivedTimeout, sample_session_answer)]
     (True, start_apply_worker sample_session_config
        (session_new sample_env sample_session_config sample_load_io 0 0 Map.empty Mapping.empty)))))"
  using session_invariant [OF refl] by blast

definition sample_saved_session :: session where
  "sample_saved_session = snd (session_run sample_env
     [(SessionTurn (ReceivedCommand (SessionPut sample_playlist)), sample_session_answer)]
     (True, start_apply_worker sample_session_config
        (session_new sample_env sample_session_config sample_load_io 0 0 Map.empty Mapping.empty)))"

lemma sample_saved: "se_playlists sample_saved_session = [sample_playlist]" "se_store_error sample_saved_session = None"
proof -
  have empty: "session_new sample_env sample_session_config sample_load_io 0 0 Map.empty Mapping.empty =
      (sample_session\<lparr>se_lane := None, se_playlists := [], se_runtimes := Mapping.empty, se_active := None,
         se_defs := Map.empty\<rparr>)"
    by (simp add: session_new_def load_runtime_state_def sample_load_io_def read_definitions_def store_load_def
        sample_session_config_def sample_session_def find_playlist_def)
  have "is_ok (fst (store_save sample_ser definitions_file 1 sample_save_io [sample_playlist] Map.empty))"
    using sample_store_check
    by (simp add: store_save_def sample_save_io_def playlist_limits sample_ser_def Let_def
        del: check_playlists.simps)
  then obtain d where save: "store_save sample_ser definitions_file 1 sample_save_io [sample_playlist] Map.empty
      = (Inr (), d)"
    by (cases "store_save sample_ser definitions_file 1 sample_save_io [sample_playlist] Map.empty")
      (auto simp: is_ok_iff)
  have saved: "save_definitions sample_env sample_save_io [sample_playlist] s = (Inr (), s\<lparr>se_defs := d\<rparr>)"
    if "se_defs s = Map.empty" for s
    using that save by (simp add: save_definitions_def sample_env_def)
  show "se_playlists sample_saved_session = [sample_playlist]" "se_store_error sample_saved_session = None"
    unfolding sample_saved_session_def empty
    by (simp_all add: put_playlist_def sample_store_validate saved sample_session_answer_def start_apply_worker_def
        sample_session_config_def sample_session_def)
qed

lemma session_store_agrees_witness:
  "stored_definitions sample_env (se_defs sample_saved_session) = Inr [sample_playlist]"
  using session_store_agrees [OF _ refl sample_saved_session_def] sample_codec sample_saved by simp




lemma sample_reconcile: "reconcile_current sample_playlist sample_started = sample_started"
  by (simp add: reconcile_current_def sample_started_def sample_playlist_def)

lemma sample_started_fields:
  "rt_current_index sample_started = Some 0" "rt_current_wallpaper_id sample_started = Some ''a''"
  "rt_deadline_ms sample_started = Some 301000" "rt_paused_remaining_ms sample_started = None"
  "rt_last_now_ms sample_started = Some 1000" "rt_seed sample_started = 1" "rt_history sample_started = [''a'']"
  by (simp_all add: sample_started_def)

lemma sample_entries: "pl_entries sample_playlist = [''a'', ''b'', ''c'']" "pl_id sample_playlist = ''p''"
  by (simp_all add: sample_playlist_def)

lemma sample_session_fields:
  "se_supervisor sample_session" "se_applied_wallpaper sample_session = None" "se_next_apply_retry sample_session = 0"
  "\<not> se_apply_in_flight sample_session" "se_active sample_session = Some ''p''"
  "se_lane sample_session = Some \<lparr>al_requests = [], al_worker = WorkerIdle, al_done = []\<rparr>"
  "se_playlists sample_session = [sample_playlist]" "se_output sample_session = None"
  "Mapping.lookup (se_runtimes sample_session) ''p'' = Some sample_started" "se_store_error sample_session = None"
  by (simp_all add: sample_session_def)

lemma sample_answer_fields:
  "sa_elapsed sample_session_answer = 2000" "sa_elapsed_after sample_session_answer = 2000"
  "sa_verdict_at sample_session_answer = 2000" "sa_status sample_session_answer = Inr idle_status"
  "sa_write sample_session_answer = sample_write_io"
  by (simp_all add: sample_session_answer_def)


lemma sample_now: "now_ms 2000 sample_session = 2000"
  by (simp add: now_ms_def sample_session_def)




definition sample_restarted :: session where
  "sample_restarted = snd (session_run sample_env [] (True, start_apply_worker sample_session_config
     (session_new sample_env sample_session_config sample_load_io 500 0 [definitions_file \<mapsto> [1]]
        (Mapping.update runtime_state_file [7] Mapping.empty))))"

lemma sample_restarted_active: "se_active sample_restarted = Some ''p''"
proof -
  have load: "load_runtime_state sample_env sample_load_io (Mapping.update runtime_state_file [7] Mapping.empty)
      = ((Some ''p'', Mapping.filter (\<lambda>_ sn. snapshot_validate sn = Inr ())
           (Mapping.update ''p'' (snapshot_of sample_playlist 2000 sample_started) Mapping.empty)),
         Mapping.update runtime_state_file [7] Mapping.empty)"
    by (simp add: load_runtime_state_def sample_load_io_def sample_env_def max_runtime_state_bytes_def
        runtime_state_schema_version_def max_snapshot_entries_def size_def Let_def)
  have "store_load (sx_parse_playlists sample_env) (read_definitions sample_load_io [definitions_file \<mapsto> [1]])
      = Inr [sample_playlist]"
    using sample_store_check
    by (simp add: store_load_def read_definitions_def sample_load_io_def sample_env_def sample_parse_def
        max_store_bytes_def max_playlists_def del: check_playlists.simps)
  then show ?thesis
    by (simp add: sample_restarted_def session_new_def load Let_def start_apply_worker_def sample_find sample_entries
        split: option.split)
qed

lemma session_tick_decides_witness:
  "\<exists>p d. find_playlist ''p'' (se_playlists sample_restarted) = Some p
    \<and> se_last_decision (tick_session sample_env sample_session_answer sample_restarted) = Some d"
proof -
  have "times_ok 500 []" "length ([] :: (session_event \<times> session_answer) list) \<le> 2 ^ 40"
    "end_time 500 [] \<le> sa_elapsed sample_session_answer" "unat (sa_elapsed sample_session_answer) < 2 ^ 62"
    by (simp_all add: sample_answer_fields)
  from session_tick_decides [OF sample_restarted_def this sample_restarted_active] show ?thesis by blast
qed

lemma sample_snapshot:
  "rt_snapshot sample_playlist 2000 sample_started = Inr (snapshot_of sample_playlist 2000 sample_started)"
  by (rule rt_snapshot_eq [OF sample_started_inv sample_playlist_ok]) (simp add: sample_started_fields)

lemma sample_shutdown:
  "session_shutdown sample_env sample_session_answer sample_session =
     sample_session\<lparr>se_snapshots := Mapping.update ''p'' (snapshot_of sample_playlist 2000 sample_started) Mapping.empty,
       se_disk := snd (atomic_write runtime_state_file [7] sample_write_io Mapping.empty)\<rparr>"
proof -
  have "current_snapshot 2000 ''p'' sample_session = Some (snapshot_of sample_playlist 2000 sample_started)"
    by (simp add: current_snapshot_def sample_session_fields sample_find sample_snapshot)
  moreover have "se_snapshots sample_session = Mapping.empty" "se_disk sample_session = Mapping.empty"
    by (simp_all add: sample_session_def)
  ultimately show ?thesis
    by (simp add: session_shutdown_def sample_session_fields sample_answer_fields sample_now sample_persist)
qed

lemma sample_write_ok: "is_ok (fst (atomic_write runtime_state_file [7] sample_write_io Mapping.empty))"
  by (simp add: atomic_write_def sample_write_io_def ensure_private_dir_def sample_dir_facts_def Let_def)

lemma session_restart_resumes_witness:
  "\<exists>rt'. Mapping.lookup (se_runtimes (session_new sample_env sample_session_config sample_load_io 77 0
       (se_defs (session_shutdown sample_env sample_session_answer sample_session))
       (se_disk (session_shutdown sample_env sample_session_answer sample_session)))) ''p'' = Some rt'
     \<and> rt_view 77 rt' = (Some 0, Some ''a'', Some 299000, None, 1, [''a''])"
proof -
  let ?s' = "session_shutdown sample_env sample_session_answer sample_session"
  have "sx_parse_state sample_env (encode_state sample_env ?s') = Some (persisted_state ?s')"
    by (simp add: sample_shutdown persisted_state_def sample_session_fields)
      (simp add: sample_env_def runtime_state_schema_version_def)
  moreover have "Mapping.size (se_snapshots ?s') \<le> max_snapshot_entries"
    by (simp add: sample_shutdown max_snapshot_entries_def size_def)
  moreover have "length (encode_state sample_env ?s') \<le> max_runtime_state_bytes"
    by (simp add: sample_encode max_runtime_state_bytes_def)
  moreover have "is_ok (fst (atomic_write runtime_state_file (encode_state sample_env ?s')
      (sa_write sample_session_answer) (se_disk sample_session)))"
    using sample_write_ok by (simp add: sample_encode sample_answer_fields) (simp add: sample_session_def)
  moreover have "unat (77 :: u64) + unat max_snapshot_remaining_ms < 2 ^ 64" by (simp add: max_remaining_unat)
  moreover have "t \<le> now_ms (sa_elapsed sample_session_answer) sample_session"
    if "rt_last_now_ms sample_started = Some t" for t
    using that by (simp add: sample_answer_fields sample_now sample_started_fields)
  moreover have "\<not> lo_definitions_fail sample_load_io" "\<not> lo_metadata_fail sample_load_io"
    "\<not> lo_read_fail sample_load_io" by (simp_all add: sample_load_io_def)
  moreover have "rt_view 2000 sample_started = (Some 0, Some ''a'', Some 299000, None, 1, [''a''])"
    by (simp add: rt_view_def sample_started_fields sat_sub_def)
  ultimately show ?thesis
    using session_restart_resumes [OF sample_session_inv sample_session_agrees sample_session_fields(10,5,9) _ refl,
        where a = sample_session_answer and io = sample_load_io and c = sample_session_config and later = 77
          and started = 0]
    by (auto simp: sample_answer_fields sample_now sample_session_fields sample_find sample_reconcile)
qed

lemma session_clock_skip_witness:
  "se_last_decision (snd (debug_clock_skip sample_session_answer 5000 sample_session)) = Some (Waiting ''a'' 0 299000)"
proof -
  have "t \<le> now_ms (sa_elapsed sample_session_answer) sample_session"
    if "rt_last_now_ms sample_started = Some t" for t
    using that by (simp add: sample_answer_fields sample_now sample_started_fields)
  moreover have "unat (now_ms (sa_elapsed sample_session_answer) sample_session) + unat max_clock_skip_ms
      + unat max_snapshot_remaining_ms < 2 ^ 64"
    by (simp add: sample_answer_fields sample_now max_remaining_unat max_clock_skip_ms_def)
  moreover have "find_playlist ''p'' (se_playlists sample_session) = Some sample_playlist"
    by (simp add: sample_session_fields sample_find)
  moreover have "1 \<le> (5000 :: u64) \<and> 5000 \<le> max_clock_skip_ms" by (simp add: max_clock_skip_ms_def)
  moreover have "rt_view 2000 sample_started = (Some 0, Some ''a'', Some 299000, None, 1, [''a''])"
    by (simp add: rt_view_def sample_started_fields sat_sub_def)
  moreover have "\<not> entry_unavailable sample_session ''a''"
    by (simp add: entry_unavailable_def sample_session_def)
  ultimately show ?thesis
    using session_clock_skip [OF sample_session_inv sample_session_fields(5) _ sample_session_fields(9),
        where a = sample_session_answer and ms = 5000 and p = sample_playlist]
    by (simp add: sample_answer_fields sample_now sample_reconcile sample_started_fields)
qed

definition sample_legacy :: import_playlist where
  "sample_legacy = \<lparr>im_title = ''x'', im_entries = [''a''], im_shuffle = False, im_repeat = True,
     im_duration_seconds = 300, im_transition = ''none'', im_transition_seconds = 0\<rparr>"

definition sample_converted :: playlist where
  "sample_converted = sample_playlist\<lparr>pl_id := ''x'', pl_entries := [''a'']\<rparr>"

lemma sample_converted_ok: "playlist_ok sample_converted"
  using sample_playlist_ok by (simp add: sample_converted_def playlist_ok_def entry_ok_def max_entries_def)

lemma char_120: "(char_of (120 :: nat) :: char) = CHR ''x''"
  by code_simp

lemma sample_base: "import_base ''x'' = ''x''"
  by (simp add: import_base_def title_x trim_chars_def is_unicode_whitespace_def chars_str_def bytes_str_def
      utf8_encode.simps char_120)

lemma sample_into: "into_playlist sample_legacy ''x'' = Inr sample_converted"
proof -
  have "str_take_chars 256 ''x'' = ''x''"
    by (simp add: str_take_chars_def title_x chars_str_def bytes_str_def utf8_encode.simps char_120)
  moreover have "\<not> trim_is_empty ''x''" by (simp add: trim_is_empty_def title_x is_unicode_whitespace_def)
  moreover have "playlist_validate sample_converted = Inr ()" by (rule playlist_ok_validate [OF sample_converted_ok])
  ultimately show ?thesis
    by (simp add: into_playlist_def sample_legacy_def playlist_new_def playlist_set_timing_def playlist_limits Let_def
        sample_converted_def sample_playlist_def)
qed

lemma session_import_exact_witness:
  "map pl_id (se_playlists (snd (import_playlists (sample_env\<lparr>sx_ser_playlists := \<lambda>_. [1]\<rparr>) sample_save_io
     [sample_legacy] (sample_session\<lparr>se_playlists := []\<rparr>)))) = [''x'']"
proof -
  let ?cx = "sample_env\<lparr>sx_ser_playlists := \<lambda>_. [1]\<rparr>" and ?s = "sample_session\<lparr>se_playlists := []\<rparr>"
  obtain r s' where run: "import_playlists ?cx sample_save_io [sample_legacy] ?s = (r, s')" by fastforce
  have title: "im_title sample_legacy = ''x''" by (simp add: sample_legacy_def)
  have loop: "import_loop [sample_legacy] [] [] 0 = ([sample_converted], 0)"
    by (simp add: title sample_base import_identity_direct sample_into)
  have "is_ok r"
  proof (cases rule: save_definitions_cases [of ?cx sample_save_io "[sample_converted]" ?s])
    case (saved d)
    then show ?thesis using run loop
      by (auto simp: import_playlists_def sample_session_fields simp del: import_loop.simps)
  next
    case (failed e d)
    have "check_playlists [] [sample_converted] = Inr ()"
      using check_playlists_iff [of "[]" "[sample_converted]"] sample_converted_ok by simp
    then have "is_ok (fst (save_definitions ?cx sample_save_io [sample_converted] ?s))"
      by (simp add: save_definitions_def store_save_def sample_save_io_def playlist_limits Let_def
          del: check_playlists.simps)
    with failed(1) show ?thesis by simp
  qed
  with session_import_exact [OF run] sample_into show ?thesis
    by (auto simp: run title sample_base is_ok_iff)
qed

end
