(* ===== verification/Pkg_Archive.thy ===== *)
theory Pkg_Archive
  imports Rust_Strings
begin

text \<open>
  \<open>crates/kwe-core/src/pkg.rs\<close>: the reader of \<open>scene.pkg\<close> archives. A file is its list of bytes, with a
  predicate for reads that the operating system fails; what \<open>open\<close> learns from the file system is a
  record. The LZ4 frame decoder is a parameter: the bytes it produces and whether the frame was valid.
\<close>

section \<open>Data\<close>

definition max_pkg_bytes :: u64 where "max_pkg_bytes = 512 * 1024 * 1024"
definition max_pkg_entries :: u64 where "max_pkg_entries = 65536"
definition max_pkg_path_bytes :: nat where "max_pkg_path_bytes = 512"
definition max_pkg_entry_bytes :: u64 where "max_pkg_entry_bytes = 64 * 1024 * 1024"
definition max_pkg_magic_bytes :: nat where "max_pkg_magic_bytes = 32"
definition lz4_frame_magic :: "u8 list" where "lz4_frame_magic = [0x04, 0x22, 0x4D, 0x18]"

record pkg_entry =
  pe_path :: string
  pe_offset :: u64
  pe_size :: u64
  pe_compressed :: bool

datatype pkg_error = Read | Format | UnsupportedVersion | PathTraversal | Bounds

record file_facts =
  ff_symlink :: bool
  ff_regular :: bool
  ff_len :: u64

text \<open>What one \<open>open\<close> sees: the path's metadata, the opened file's metadata before and after the parse
  (\<open>None\<close>: the call failed), whether the open succeeded, and the bytes behind the descriptor.\<close>

record pkg_file =
  pf_lstat :: "file_facts option"
  pf_open :: bool
  pf_fstat :: "file_facts option"
  pf_bytes :: "u8 list"
  pf_fault :: "nat \<Rightarrow> bool"
  pf_fstat_after :: "file_facts option"

record pkg_reader =
  rd_bytes :: "u8 list"
  rd_fault :: "nat \<Rightarrow> bool"
  rd_data_start :: u64
  rd_entries :: "pkg_entry list"

section \<open>The table\<close>

definition read_exact :: "u8 list \<Rightarrow> (nat \<Rightarrow> bool) \<Rightarrow> nat \<Rightarrow> nat \<Rightarrow> (pkg_error, u8 list) result" where
  "read_exact bytes fault pos n =
     (if fault pos then Inl Read
      else if length bytes < pos + n then Inl Format
      else Inr (take n (drop pos bytes)))"

definition validate_path :: "string \<Rightarrow> (pkg_error, unit) result" where
  "validate_path p =
     (if p = [] then Inl PathTraversal
      else if CHR 0x00 \<in> set p then Inl PathTraversal
      else if CHR 0x5C \<in> set p then Inl PathTraversal
      else if starts_with p ''/'' then Inl PathTraversal
      else if list_ex (\<lambda>c. c = ''..'') (split_on (CHR ''/'') p) then Inl PathTraversal
      else Inr ())"

definition ascii_digit_byte :: "u8 \<Rightarrow> bool" where "ascii_digit_byte b \<longleftrightarrow> 48 \<le> b \<and> b \<le> 57"

text \<open>One turn of the entry loop: the entry, the position after it and the new payload total.\<close>

definition parse_entry ::
  "u8 list \<Rightarrow> (nat \<Rightarrow> bool) \<Rightarrow> nat \<Rightarrow> u64 \<Rightarrow> (pkg_error, pkg_entry \<times> nat \<times> u64) result" where
  "parse_entry bytes fault pos acc =
     rbind (read_exact bytes fault pos 4) (\<lambda>len_buf.
       let path_len = le_nat len_buf in
       if max_pkg_path_bytes < path_len then Inl Bounds
       else rbind (read_exact bytes fault (pos + 4) path_len) (\<lambda>path_bytes.
         let path = bytes_to_str path_bytes; p1 = pos + 4 + path_len in
         if \<not> is_utf8 path then Inl Format
         else rbind (validate_path path) (\<lambda>_.
           rbind (read_exact bytes fault p1 4) (\<lambda>offset_buf.
           rbind (read_exact bytes fault (p1 + 4) 4) (\<lambda>size_buf.
             let size = (word_of_nat (le_nat size_buf) :: u64) in
             rbind (ok_or (checked_add acc size) Bounds) (\<lambda>acc'.
               if max_pkg_bytes < acc' then Inl Bounds
               else Inr (\<lparr>pe_path = path, pe_offset = word_of_nat (le_nat offset_buf), pe_size = size,
                          pe_compressed = False\<rparr>, p1 + 8, acc')))))))"

fun parse_entries ::
  "u8 list \<Rightarrow> (nat \<Rightarrow> bool) \<Rightarrow> nat \<Rightarrow> nat \<Rightarrow> u64 \<Rightarrow> (pkg_error, pkg_entry list \<times> nat) result" where
  "parse_entries bytes fault 0 pos acc = Inr ([], pos)"
| "parse_entries bytes fault (Suc n) pos acc =
     rbind (parse_entry bytes fault pos acc) (\<lambda>(e, pos', acc').
     rbind (parse_entries bytes fault n pos' acc') (\<lambda>(es, pos''). Inr (e # es, pos'')))"

fun check_ranges :: "u64 \<Rightarrow> pkg_entry list \<Rightarrow> (pkg_error, unit) result" where
  "check_ranges data_len [] = Inr ()"
| "check_ranges data_len (e # es) =
     rbind (ok_or (checked_add (pe_offset e) (pe_size e)) Format) (\<lambda>stop.
       if data_len < stop then Inl Format else check_ranges data_len es)"

fun flag_compressed ::
  "u8 list \<Rightarrow> (nat \<Rightarrow> bool) \<Rightarrow> nat \<Rightarrow> pkg_entry list \<Rightarrow> (pkg_error, pkg_entry list) result" where
  "flag_compressed bytes fault start [] = Inr []"
| "flag_compressed bytes fault start (e # es) =
     rbind (if 4 \<le> pe_size e
            then rbind (read_exact bytes fault (start + unat (pe_offset e)) 4) (\<lambda>peek.
                   Inr (e\<lparr>pe_compressed := (peek = lz4_frame_magic)\<rparr>))
            else Inr e) (\<lambda>e'.
     rbind (flag_compressed bytes fault start es) (\<lambda>es'. Inr (e' # es')))"

definition parse_table ::
  "u8 list \<Rightarrow> (nat \<Rightarrow> bool) \<Rightarrow> u64 \<Rightarrow> (pkg_error, pkg_entry list \<times> u64) result" where
  "parse_table bytes fault file_len =
     rbind (read_exact bytes fault 0 4) (\<lambda>magic_len_buf.
       let magic_len = le_nat magic_len_buf in
       if max_pkg_magic_bytes < magic_len then Inl Format
       else rbind (read_exact bytes fault 4 magic_len) (\<lambda>magic.
         if take 4 magic \<noteq> [0x50, 0x4B, 0x47, 0x56] then Inl Format
         else if length magic \<noteq> 8 \<or> \<not> list_all ascii_digit_byte (drop 4 magic) then Inl UnsupportedVersion
         else rbind (read_exact bytes fault (4 + magic_len) 4) (\<lambda>count_buf.
           let count = le_nat count_buf in
           if unat max_pkg_entries < count then Inl Bounds
           else rbind (parse_entries bytes fault count (8 + magic_len) 0) (\<lambda>(es, pos).
             let data_start = (word_of_nat pos :: u64) in
             rbind (ok_or (checked_sub file_len data_start) Read) (\<lambda>data_len.
             rbind (check_ranges data_len es) (\<lambda>_.
             rbind (flag_compressed bytes fault (unat data_start) es) (\<lambda>es'. Inr (es', data_start))))))))"

definition pkg_open :: "pkg_file \<Rightarrow> (pkg_error, pkg_reader) result" where
  "pkg_open f =
     rbind (ok_or (pf_lstat f) Read) (\<lambda>meta.
     rbind (fail_if (ff_symlink meta) Read) (\<lambda>_.
     rbind (fail_if (\<not> ff_regular meta) Read) (\<lambda>_.
     rbind (fail_if (max_pkg_bytes < ff_len meta) Bounds) (\<lambda>_.
     rbind (fail_if (\<not> pf_open f) Read) (\<lambda>_.
     rbind (ok_or (pf_fstat f) Read) (\<lambda>fd.
     rbind (fail_if (\<not> ff_regular fd) Read) (\<lambda>_.
     rbind (fail_if (max_pkg_bytes < ff_len fd) Bounds) (\<lambda>_.
     rbind (parse_table (pf_bytes f) (pf_fault f) (ff_len fd)) (\<lambda>(es, data_start).
     rbind (ok_or (pf_fstat_after f) Read) (\<lambda>after.
     rbind (fail_if (ff_len after \<noteq> ff_len fd) Read) (\<lambda>_.
       Inr \<lparr>rd_bytes = pf_bytes f, rd_fault = pf_fault f, rd_data_start = data_start,
            rd_entries = es\<rparr>)))))))))))"

section \<open>Reading entries\<close>

definition read_payload :: "pkg_reader \<Rightarrow> pkg_entry \<Rightarrow> (pkg_error, u8 list) result" where
  "read_payload r e =
     (let start = rd_data_start r + pe_offset e in
      if rd_fault r (unat start) then Inl Read
      else (let raw = take (unat (pe_size e)) (drop (unat start) (rd_bytes r)) in
        if length raw \<noteq> unat (pe_size e) then Inl Format else Inr raw))"

definition decompress_lz4_bounded ::
  "(u8 list \<Rightarrow> u8 list \<times> bool) \<Rightarrow> u8 list \<Rightarrow> u64 \<Rightarrow> (pkg_error, u8 list) result" where
  "decompress_lz4_bounded lz4 raw cap =
     (let (out, valid) = lz4 raw; got = take (unat cap + 1) out in
      if length got \<le> unat cap \<and> \<not> valid then Inl Format
      else if unat cap < length got then Inl Bounds
      else Inr got)"

definition nth_entry :: "pkg_reader \<Rightarrow> nat \<Rightarrow> (pkg_error, pkg_entry) result" where
  "nth_entry r idx = (if idx < length (rd_entries r) then Inr (rd_entries r ! idx) else Inl Bounds)"

definition read_entry_bounded ::
  "(u8 list \<Rightarrow> u8 list \<times> bool) \<Rightarrow> pkg_reader \<Rightarrow> nat \<Rightarrow> u64 \<Rightarrow> (pkg_error, u8 list) result" where
  "read_entry_bounded lz4 r idx cap =
     rbind (nth_entry r idx) (\<lambda>e.
       if cap < pe_size e then Inl Bounds
       else rbind (read_payload r e) (\<lambda>raw.
         if pe_compressed e
         then (case decompress_lz4_bounded lz4 raw cap of
                 Inr out \<Rightarrow> Inr out
               | Inl err \<Rightarrow> if err = Format then Inr raw else Inl err)
         else Inr raw))"

definition read_entry ::
  "(u8 list \<Rightarrow> u8 list \<times> bool) \<Rightarrow> pkg_reader \<Rightarrow> nat \<Rightarrow> (pkg_error, u8 list) result" where
  "read_entry lz4 r idx = read_entry_bounded lz4 r idx max_pkg_entry_bytes"

definition read_entry_raw :: "pkg_reader \<Rightarrow> nat \<Rightarrow> (pkg_error, u8 list) result" where
  "read_entry_raw r idx =
     rbind (nth_entry r idx) (\<lambda>e.
       if pe_compressed e then Inl Format
       else if max_pkg_entry_bytes < pe_size e then Inl Bounds
       else read_payload r e)"

section \<open>Resolving references\<close>

datatype resolve_error =
    NestedArchive | NoSceneJson | ManySceneJson | OutsidePackage | NoMatch | ManyMatches
  | EmptyReference | ArchiveReference | NotAScript

definition is_named :: "string \<Rightarrow> string \<Rightarrow> bool" where
  "is_named name path =
     (let parts = split_on (CHR ''/'') (to_ascii_lowercase path) in
      (length parts = 1 \<or> length parts = 2) \<and> last parts = name)"

definition matching_indices :: "(pkg_entry \<Rightarrow> bool) \<Rightarrow> pkg_entry list \<Rightarrow> nat list" where
  "matching_indices P es = filter (\<lambda>i. P (es ! i)) [0..<length es]"

definition scene_json_entry :: "pkg_entry list \<Rightarrow> (resolve_error, nat) result" where
  "scene_json_entry es =
     (case matching_indices (\<lambda>e. is_named ''scene.json'' (pe_path e)) es of
        [] \<Rightarrow> if list_ex (\<lambda>e. is_named ''scene.pkg'' (pe_path e)) es then Inl NestedArchive else Inl NoSceneJson
      | [i] \<Rightarrow> Inr i
      | _ \<Rightarrow> Inl ManySceneJson)"

definition entry_matches :: "string \<Rightarrow> pkg_entry \<Rightarrow> bool" where
  "entry_matches needle e =
     (let path = to_ascii_lowercase (pe_path e) in
      path = needle \<or> ends_with path (CHR ''/'' # needle))"

definition escaping_reference :: "string \<Rightarrow> bool" where
  "escaping_reference r \<longleftrightarrow> starts_with r ''/'' \<or> CHR 0x5C \<in> set r \<or> CHR 0x00 \<in> set r
     \<or> list_ex (\<lambda>c. c = ''..'') (split_on (CHR ''/'') r)"

definition resolve_pkg_entry :: "string \<Rightarrow> pkg_entry list \<Rightarrow> (resolve_error, nat) result" where
  "resolve_pkg_entry reference es =
     (if escaping_reference reference then Inl OutsidePackage
      else case matching_indices (entry_matches (to_ascii_lowercase reference)) es of
        [] \<Rightarrow> Inl NoMatch
      | [i] \<Rightarrow> Inr i
      | _ \<Rightarrow> Inl ManyMatches)"

definition script_entry :: "string \<Rightarrow> pkg_entry list \<Rightarrow> (resolve_error, nat) result" where
  "script_entry reference es =
     (if reference = [] then Inl EmptyReference
      else if ends_with (to_ascii_lowercase reference) ''.pkg'' then Inl ArchiveReference
      else if \<not> ends_with (to_ascii_lowercase reference) ''.js'' then Inl NotAScript
      else resolve_pkg_entry reference es)"

definition asset_entry :: "string \<Rightarrow> pkg_entry list \<Rightarrow> (resolve_error, nat) result" where
  "asset_entry reference es = (if reference = [] then Inl EmptyReference else resolve_pkg_entry reference es)"

definition image_entry :: "string \<Rightarrow> pkg_entry list \<Rightarrow> (resolve_error, nat) result" where
  "image_entry reference es = (if reference = [] then Inl EmptyReference else resolve_pkg_entry reference es)"

definition video_entry :: "string \<Rightarrow> pkg_entry list \<Rightarrow> (resolve_error, nat) result" where
  "video_entry reference es = (if reference = [] then Inl EmptyReference else resolve_pkg_entry reference es)"

section \<open>What the table guarantees\<close>

text \<open>A path that stays below the directory it is extracted into.\<close>

definition confined_path :: "string \<Rightarrow> bool" where
  "confined_path p \<longleftrightarrow> p \<noteq> [] \<and> CHR 0x00 \<notin> set p \<and> CHR 0x5C \<notin> set p
     \<and> (\<nexists>r. p = CHR ''/'' # r) \<and> ''..'' \<notin> set (split_on (CHR ''/'') p)"

definition entry_parsed :: "pkg_entry \<Rightarrow> bool" where
  "entry_parsed e \<longleftrightarrow> confined_path (pe_path e) \<and> is_utf8 (pe_path e)
     \<and> length (pe_path e) \<le> max_pkg_path_bytes"

definition payload_total :: "pkg_entry list \<Rightarrow> nat" where
  "payload_total es = sum_list (map (unat \<circ> pe_size) es)"

lemma validate_path_confined: "validate_path p = Inr u \<Longrightarrow> confined_path p"
  by (auto simp: validate_path_def confined_path_def starts_with_iff list_ex_iff split: if_splits)

lemma read_exact_length: "read_exact bytes fault pos n = Inr out \<Longrightarrow> length out = n \<and> pos + n \<le> length bytes"
  by (auto simp: read_exact_def split: if_splits)

lemma parse_entry_ok:
  assumes "parse_entry bytes fault pos acc = Inr (e, pos', acc')"
  shows "entry_parsed e" "pos' \<le> pos + 524" "unat acc' = unat acc + unat (pe_size e)"
    "acc' \<le> max_pkg_bytes" "unat (pe_offset e) < 2 ^ 32" "unat (pe_size e) < 2 ^ 32" "\<not> pe_compressed e"
proof -
  obtain lb pb ob sb where
    l: "le_nat lb \<le> max_pkg_path_bytes" and p: "read_exact bytes fault (pos + 4) (le_nat lb) = Inr pb"
    and u: "is_utf8 (bytes_to_str pb)" and v: "validate_path (bytes_to_str pb) = Inr ()"
    and o: "read_exact bytes fault (pos + 4 + le_nat lb) 4 = Inr ob"
    and s: "read_exact bytes fault (pos + 4 + le_nat lb + 4) 4 = Inr sb"
    and a: "checked_add acc (word_of_nat (le_nat sb)) = Some acc'" "acc' \<le> max_pkg_bytes"
    and e: "e = \<lparr>pe_path = bytes_to_str pb, pe_offset = word_of_nat (le_nat ob),
                pe_size = word_of_nat (le_nat sb), pe_compressed = False\<rparr>"
    and pos': "pos' = pos + 4 + le_nat lb + 8"
    using assms by (auto simp: parse_entry_def result_simps Let_def not_less split: if_splits)
  have "length pb = le_nat lb" using read_exact_length [OF p] by simp
  then show "entry_parsed e" using l u validate_path_confined [OF v]
    by (simp add: entry_parsed_def e bytes_to_str_def)
  show "pos' \<le> pos + 524" using l by (simp add: pos' max_pkg_path_bytes_def)
  show "unat acc' = unat acc + unat (pe_size e)" using a(1) by (simp add: e sat_simps)
  show "acc' \<le> max_pkg_bytes" by (rule a(2))
  have "le_nat ob < 2 ^ 32" using le_nat_less [of ob] read_exact_length [OF o] by simp
  then show "unat (pe_offset e) < 2 ^ 32" by (simp add: e unat_of_nat)
  have "le_nat sb < 2 ^ 32" using le_nat_less [of sb] read_exact_length [OF s] by simp
  then show "unat (pe_size e) < 2 ^ 32" by (simp add: e unat_of_nat)
  show "\<not> pe_compressed e" by (simp add: e)
qed

lemma parse_entries_ok:
  "parse_entries bytes fault n pos acc = Inr (es, pos') \<Longrightarrow> acc \<le> max_pkg_bytes \<Longrightarrow>
     length es = n \<and> list_all entry_parsed es \<and> pos' \<le> pos + n * 524
     \<and> unat acc + payload_total es \<le> unat max_pkg_bytes"
proof (induction n arbitrary: pos acc es)
  case 0
  then show ?case by (simp add: payload_total_def word_le_nat_alt)
next
  case (Suc n)
  then obtain e p a r where e: "parse_entry bytes fault pos acc = Inr (e, p, a)"
    and r: "parse_entries bytes fault n p a = Inr (r, pos')" and es: "es = e # r"
    by (auto simp: result_simps)
  note ok = parse_entry_ok [OF e]
  from Suc.IH [OF r ok(4)] ok(1-3) show ?case by (simp add: es payload_total_def)
qed

lemma check_ranges_ok:
  "check_ranges n es = Inr u \<Longrightarrow> list_all (\<lambda>e. unat (pe_offset e) + unat (pe_size e) \<le> unat n) es"
  by (induction es) (auto simp: result_simps sat_simps not_less word_le_nat_alt split: if_splits)

lemma flag_compressed_ok:
  "flag_compressed bytes fault start es = Inr es' \<Longrightarrow>
     map pe_path es' = map pe_path es \<and> map pe_offset es' = map pe_offset es \<and> map pe_size es' = map pe_size es"
  by (induction es arbitrary: es') (auto simp: result_simps split: if_splits)

lemma list_all_fields:
  assumes "map pe_path es' = map pe_path es" "map pe_offset es' = map pe_offset es"
    "map pe_size es' = map pe_size es" "list_all P es"
    and "\<And>e e'. pe_path e' = pe_path e \<Longrightarrow> pe_offset e' = pe_offset e \<Longrightarrow> pe_size e' = pe_size e \<Longrightarrow> P e \<Longrightarrow> P e'"
  shows "list_all P es'"
proof -
  have len: "length es' = length es" using arg_cong [OF assms(1), of length] by simp
  have "P (es' ! i)" if i: "i < length es'" for i
  proof (rule assms(5) [of _ "es ! i"])
    show "pe_path (es' ! i) = pe_path (es ! i)" "pe_offset (es' ! i) = pe_offset (es ! i)"
      "pe_size (es' ! i) = pe_size (es ! i)"
      using assms(1-3) i len by (metis nth_map)+
    show "P (es ! i)" using assms(4) i len by (simp add: list_all_length)
  qed
  then show ?thesis by (simp add: list_all_length)
qed

definition entry_in_range :: "u64 \<Rightarrow> u64 \<Rightarrow> pkg_entry \<Rightarrow> bool" where
  "entry_in_range start n e \<longleftrightarrow> unat start + unat (pe_offset e) + unat (pe_size e) \<le> unat n"

lemma parse_table_ok:
  assumes "parse_table bytes fault file_len = Inr (es, start)"
  shows "length es \<le> unat max_pkg_entries" "list_all entry_parsed es"
    "list_all (entry_in_range start file_len) es" "payload_total es \<le> unat max_pkg_bytes"
proof -
  obtain cb es0 pos ml data_len where
    c: "le_nat cb \<le> unat max_pkg_entries"
    and p: "parse_entries bytes fault (le_nat cb) (8 + ml) 0 = Inr (es0, pos)" and ml: "ml \<le> 32"
    and d: "checked_sub file_len (word_of_nat pos) = Some data_len"
    and r: "check_ranges data_len es0 = Inr ()" and start: "start = word_of_nat pos"
    and f: "flag_compressed bytes fault (unat start) es0 = Inr es"
    using assms
    by (auto simp: parse_table_def result_simps Let_def not_less max_pkg_magic_bytes_def split: if_splits)
  note pe = parse_entries_ok [OF p] and fl = flag_compressed_ok [OF f]
  have len: "length es = length es0" using arg_cong [OF conjunct1 [OF fl], of length] by simp
  show "length es \<le> unat max_pkg_entries" using pe c len by simp
  show "list_all entry_parsed es"
    using pe fl by (intro list_all_fields [of es es0]) (auto simp: entry_parsed_def)
  have "unat file_len = unat start + unat data_len"
    using d unfolding checked_sub_Some start by (auto simp: unat_sub word_le_nat_alt)
  then show "list_all (entry_in_range start file_len) es"
    using fl check_ranges_ok [OF r]
    by (intro list_all_fields [of es es0]) (auto simp: entry_in_range_def list_all_iff)
  show "payload_total es \<le> unat max_pkg_bytes"
    using pe fl by (simp add: payload_total_def del: map_map add: map_map [symmetric])
qed

lemma pkg_open_parse:
  assumes "pkg_open f = Inr r"
  obtains fd where "pf_fstat f = Some fd" "ff_len fd \<le> max_pkg_bytes"
    "parse_table (pf_bytes f) (pf_fault f) (ff_len fd) = Inr (rd_entries r, rd_data_start r)"
    "rd_bytes r = pf_bytes f" "rd_fault r = pf_fault f"
  using assms by (auto simp: pkg_open_def result_simps not_less)

text \<open>
  C34: every entry of a package that opens has a path that stays below the package root (no \<open>..\<close>, no
  leading slash, no backslash, no NUL, valid UTF-8, at most 512 bytes) and a payload inside the file; the
  table has at most 65536 entries and the payloads at most 512 MiB in total.
\<close>

theorem pkg_open_safe:
  assumes "pkg_open f = Inr r" "pf_fstat f = Some fd"
  shows "list_all entry_parsed (rd_entries r) \<and> list_all (entry_in_range (rd_data_start r) (ff_len fd)) (rd_entries r)
    \<and> length (rd_entries r) \<le> 65536 \<and> payload_total (rd_entries r) \<le> 512 * 1024 * 1024"
proof -
  obtain fd' where fd': "pf_fstat f = Some fd'"
    "parse_table (pf_bytes f) (pf_fault f) (ff_len fd') = Inr (rd_entries r, rd_data_start r)"
    using pkg_open_parse [OF assms(1)] by metis
  then have "fd' = fd" using assms(2) by simp
  with parse_table_ok [OF fd'(2)] show ?thesis by (simp add: max_pkg_entries_def max_pkg_bytes_def)
qed

definition sample_pkg_bytes :: "u8 list" where
  "sample_pkg_bytes = [8, 0, 0, 0, 0x50, 0x4B, 0x47, 0x56, 48, 48, 48, 49, 1, 0, 0, 0,
     1, 0, 0, 0, 97, 0, 0, 0, 0, 2, 0, 0, 0, 7, 8]"

definition sample_facts :: file_facts where
  "sample_facts = \<lparr>ff_symlink = False, ff_regular = True, ff_len = 31\<rparr>"

definition sample_pkg :: pkg_file where
  "sample_pkg = \<lparr>pf_lstat = Some sample_facts, pf_open = True, pf_fstat = Some sample_facts,
     pf_bytes = sample_pkg_bytes, pf_fault = (\<lambda>_. False), pf_fstat_after = Some sample_facts\<rparr>"

definition sample_reader :: pkg_reader where
  "sample_reader = \<lparr>rd_bytes = sample_pkg_bytes, rd_fault = (\<lambda>_. False), rd_data_start = 29,
     rd_entries = [\<lparr>pe_path = ''a'', pe_offset = 0, pe_size = 2, pe_compressed = False\<rparr>]\<rparr>"

lemma sample_utf8: "is_utf8 ''a''"
  by (simp add: is_utf8_def str_bytes_def byte_val_def utf8_chunks.simps)

lemma sample_path: "bytes_to_str [97] = ''a''"
  unfolding bytes_to_str_def by code_simp

lemma sample_open: "pkg_open sample_pkg = Inr sample_reader"
  by (simp add: pkg_open_def sample_pkg_def sample_facts_def max_pkg_bytes_def parse_table_def
      read_exact_def sample_pkg_bytes_def max_pkg_magic_bytes_def ascii_digit_byte_def
      max_pkg_entries_def parse_entry_def max_pkg_path_bytes_def Let_def sample_path sample_utf8
      validate_path_def starts_with_def checked_add_def checked_sub_def sample_reader_def)

lemma pkg_open_safe_witness: "list_all entry_parsed (rd_entries sample_reader)"
  using pkg_open_safe [OF sample_open, of sample_facts] by (simp add: sample_pkg_def)

section \<open>What a read returns\<close>

definition payload_slice :: "pkg_reader \<Rightarrow> pkg_entry \<Rightarrow> u8 list" where
  "payload_slice r e =
     take (unat (pe_size e)) (drop (unat (rd_data_start r) + unat (pe_offset e)) (rd_bytes r))"

lemma read_payload_slice:
  assumes "entry_in_range (rd_data_start r) n e" "unat n = length (rd_bytes r)" "\<And>p. \<not> rd_fault r p"
  shows "read_payload r e = Inr (payload_slice r e)"
proof -
  have "unat (rd_data_start r) + unat (pe_offset e) + unat (pe_size e) \<le> unat n"
    using assms(1) by (simp add: entry_in_range_def)
  moreover have "unat n < 2 ^ 64" using unsigned_less [of n, where 'a = nat] by simp
  ultimately have "unat (rd_data_start r + pe_offset e) = unat (rd_data_start r) + unat (pe_offset e)"
    and "length (payload_slice r e) = unat (pe_size e)"
    using assms(2) by (simp_all add: unat_word_ariths payload_slice_def)
  then show ?thesis using assms(3) by (simp add: read_payload_def payload_slice_def Let_def)
qed

lemma decompress_bounded: "decompress_lz4_bounded lz4 raw cap = Inr out \<Longrightarrow> length out \<le> unat cap"
  by (auto simp: decompress_lz4_bounded_def Let_def not_less split: prod.splits if_splits)

lemma read_entry_bounded_le:
  assumes "read_entry_bounded lz4 r idx cap = Inr out"
  shows "length out \<le> unat cap"
proof -
  obtain e where e: "nth_entry r idx = Inr e" "\<not> cap < pe_size e"
    using assms by (auto simp: read_entry_bounded_def result_simps split: if_splits)
  obtain raw where raw: "read_payload r e = Inr raw"
    using assms e by (auto simp: read_entry_bounded_def result_simps)
  have out: "out = raw \<or> decompress_lz4_bounded lz4 raw cap = Inr out"
    using assms e raw by (auto simp: read_entry_bounded_def split: if_splits sum.splits)
  have "length raw = unat (pe_size e)"
    using raw by (auto simp: read_payload_def Let_def split: if_splits)
  then have "length raw \<le> unat cap" using e(2) by (simp add: not_less word_le_nat_alt)
  with out decompress_bounded show ?thesis by blast
qed

text \<open>
  reading an entry of an opened package whose file still has its size is never truncated: an
  uncompressed entry within the cap reads as exactly its slice of the data section, for every
  decompressor no read returns more than the cap, and a compressed entry that does not decode reads raw.
\<close>

theorem pkg_read_correct:
  assumes "pkg_open f = Inr r" "pf_fstat f = Some fd" "unat (ff_len fd) = length (pf_bytes f)"
    and "\<And>p. \<not> pf_fault f p" "idx < length (rd_entries r)" "pe_size (rd_entries r ! idx) \<le> cap"
  shows "(\<not> pe_compressed (rd_entries r ! idx) \<longrightarrow>
           read_entry_bounded lz4 r idx cap = Inr (payload_slice r (rd_entries r ! idx)))
    \<and> (\<forall>out. pe_compressed (rd_entries r ! idx) \<longrightarrow> lz4 (payload_slice r (rd_entries r ! idx)) = (out, False)
           \<longrightarrow> length out \<le> unat cap \<longrightarrow>
           read_entry_bounded lz4 r idx cap = Inr (payload_slice r (rd_entries r ! idx)))
    \<and> length (payload_slice r (rd_entries r ! idx)) = unat (pe_size (rd_entries r ! idx))
    \<and> (\<forall>out cap'. read_entry_bounded lz4 r idx cap' = Inr out \<longrightarrow> length out \<le> unat cap')"
proof -
  let ?e = "rd_entries r ! idx"
  obtain fd' where fd': "pf_fstat f = Some fd'" "rd_bytes r = pf_bytes f" "rd_fault r = pf_fault f"
    "parse_table (pf_bytes f) (pf_fault f) (ff_len fd') = Inr (rd_entries r, rd_data_start r)"
    using pkg_open_parse [OF assms(1)] by metis
  then have fd: "fd' = fd" using assms(2) by simp
  have rng: "entry_in_range (rd_data_start r) (ff_len fd) ?e"
    using parse_table_ok(3) [OF fd'(4)] assms(5) by (simp add: fd list_all_length)
  have p: "read_payload r ?e = Inr (payload_slice r ?e)"
    using read_payload_slice [OF rng] assms(3,4) fd'(2,3) by simp
  have len: "length (payload_slice r ?e) = unat (pe_size ?e)"
    using rng assms(3) fd'(2) by (simp add: entry_in_range_def payload_slice_def)
  have n: "nth_entry r idx = Inr ?e" "\<not> cap < pe_size ?e" using assms(5,6) by (simp_all add: nth_entry_def not_less)
  show ?thesis
  proof (intro conjI allI impI)
    show "read_entry_bounded lz4 r idx cap = Inr (payload_slice r ?e)" if "\<not> pe_compressed ?e"
      using that n p by (simp add: read_entry_bounded_def)
    show "read_entry_bounded lz4 r idx cap = Inr (payload_slice r ?e)"
      if "pe_compressed ?e" "lz4 (payload_slice r ?e) = (out, False)" "length out \<le> unat cap" for out
      using that n p by (simp add: read_entry_bounded_def decompress_lz4_bounded_def)
    show "length (payload_slice r ?e) = unat (pe_size ?e)" by (rule len)
    show "length out \<le> unat cap'" if "read_entry_bounded lz4 r idx cap' = Inr out" for out cap'
      by (rule read_entry_bounded_le [OF that])
  qed
qed

lemma pkg_read_correct_witness:
  "read_entry_bounded (\<lambda>_. ([], False)) sample_reader 0 64 = Inr [7, 8]"
proof -
  have "unat (ff_len sample_facts) = length (pf_bytes sample_pkg)"
    by (simp add: sample_facts_def sample_pkg_def sample_pkg_bytes_def)
  moreover have "payload_slice sample_reader (rd_entries sample_reader ! 0) = [7, 8]"
    by (simp add: payload_slice_def sample_reader_def sample_pkg_bytes_def)
  ultimately show ?thesis
    using pkg_read_correct [OF sample_open, of sample_facts 0 64 "\<lambda>_. ([], False)"]
    by (simp add: sample_pkg_def sample_reader_def)
qed

section \<open>What a reference resolves to\<close>

lemma singleton_iff_set: "distinct xs \<Longrightarrow> xs = [i] \<longleftrightarrow> set xs = {i}"
  by (cases xs; cases "tl xs") auto

lemma matching_singleton:
  "matching_indices P es = [i] \<longleftrightarrow> i < length es \<and> P (es ! i) \<and> (\<forall>j < length es. P (es ! j) \<longrightarrow> j = i)"
proof -
  have "matching_indices P es = [i] \<longleftrightarrow> set (matching_indices P es) = {i}"
    by (rule singleton_iff_set) (simp add: matching_indices_def)
  also have "set (matching_indices P es) = {j. j < length es \<and> P (es ! j)}"
    by (auto simp: matching_indices_def)
  also have "\<dots> = {i} \<longleftrightarrow> i < length es \<and> P (es ! i) \<and> (\<forall>j < length es. P (es ! j) \<longrightarrow> j = i)"
    by blast
  finally show ?thesis .
qed

text \<open>
  a reference resolves exactly when it stays inside the package and one entry matches it, ignoring
  ASCII case, as its whole path or as the end of its path after a slash; the result is that entry's index.
\<close>

theorem resolve_unique:
  "resolve_pkg_entry reference es = Inr i \<longleftrightarrow>
     \<not> escaping_reference reference \<and> i < length es
     \<and> (\<forall>j < length es.
          (eq_ignore_ascii_case (pe_path (es ! j)) reference
           \<or> (\<exists>dir. to_ascii_lowercase (pe_path (es ! j)) = dir @ CHR ''/'' # to_ascii_lowercase reference))
          \<longleftrightarrow> j = i)"
proof -
  let ?P = "entry_matches (to_ascii_lowercase reference)"
  have m: "?P e \<longleftrightarrow> eq_ignore_ascii_case (pe_path e) reference
      \<or> (\<exists>dir. to_ascii_lowercase (pe_path e) = dir @ CHR ''/'' # to_ascii_lowercase reference)" for e
    by (simp add: entry_matches_def Let_def eq_ignore_ascii_case_def ends_with_iff)
  have "resolve_pkg_entry reference es = Inr i \<longleftrightarrow>
      \<not> escaping_reference reference \<and> matching_indices ?P es = [i]"
    by (auto simp: resolve_pkg_entry_def split: list.splits)
  then show ?thesis unfolding matching_singleton m by blast
qed

lemma resolve_unique_witness:
  "resolve_pkg_entry ''A.JS'' [\<lparr>pe_path = ''d/a.js'', pe_offset = 0, pe_size = 0, pe_compressed = False\<rparr>] = Inr 0"
proof -
  have "to_ascii_lowercase ''A.JS'' = ''a.js''" "to_ascii_lowercase ''d/a.js'' = ''d/a.js''"
    "\<not> escaping_reference ''A.JS''"
    by code_simp+
  then show ?thesis by (simp add: resolve_unique)
qed

end
