(* ===== verification/Texv_Header.thy ===== *)
theory Texv_Header
  imports Prelude
begin

text \<open>
  \<open>crates/kwe-core/src/texvheader.rs\<close>: the structural check of a texture container's fixed header.
\<close>

definition max_texture_dimension :: u32 where "max_texture_dimension = 8192"
definition max_image_count :: u32 where "max_image_count = 16"
definition max_single_texture_budget_bytes :: u64 where "max_single_texture_budget_bytes = 256 * 1024 * 1024"

datatype texv_error =
    Truncated | ContainerMagic | SubContainerMagic | DimensionOutOfRange | UnknownVersion
  | ImageCountOutOfRange | FormatNotImplemented

definition magic_texv :: "u8 list" where "magic_texv = [0x54, 0x45, 0x58, 0x56, 0x30, 0x30, 0x30, 0x35]"
definition magic_texi :: "u8 list" where "magic_texi = [0x54, 0x45, 0x58, 0x49, 0x30, 0x30, 0x30, 0x31, 0]"
definition magic_texb :: "u8 \<Rightarrow> u8 list" where
  "magic_texb v = [0x54, 0x45, 0x58, 0x42, 0x30, 0x30, 0x30, v, 0]"

definition is_texv :: "u8 list \<Rightarrow> bool" where
  "is_texv bytes \<longleftrightarrow> 8 \<le> length bytes \<and> take 8 bytes = magic_texv"

definition u32_at :: "u8 list \<Rightarrow> nat \<Rightarrow> (texv_error, u32) result" where
  "u32_at bytes off = (if off + 4 \<le> length bytes then Inr (read_u32 bytes off) else Inl Truncated)"

definition magic9_at :: "u8 list \<Rightarrow> nat \<Rightarrow> (texv_error, u8 list) result" where
  "magic9_at bytes off = (if off + 9 \<le> length bytes then Inr (take 9 (drop off bytes)) else Inl Truncated)"

definition implemented_formats :: "u32 list" where "implemented_formats = [0, 9, 8, 7, 6, 4, 12]"

fun check_dimensions :: "u32 list \<Rightarrow> (texv_error, unit) result" where
  "check_dimensions [] = Inr ()"
| "check_dimensions (d # ds) =
     (if d = 0 \<or> max_texture_dimension < d then Inl DimensionOutOfRange else check_dimensions ds)"

definition check_header :: "u8 list \<Rightarrow> (texv_error, u64) result" where
  "check_header bytes =
     rbind (magic9_at bytes 0) (\<lambda>m0. if m0 \<noteq> magic_texv @ [0] then Inl ContainerMagic else
     rbind (magic9_at bytes 9) (\<lambda>m1. if m1 \<noteq> magic_texi then Inl SubContainerMagic else
     rbind (u32_at bytes 18) (\<lambda>format.
     rbind (u32_at bytes 22) (\<lambda>flags.
     rbind (u32_at bytes 26) (\<lambda>texture_width.
     rbind (u32_at bytes 30) (\<lambda>texture_height.
     rbind (u32_at bytes 34) (\<lambda>width.
     rbind (u32_at bytes 38) (\<lambda>height.
     rbind (check_dimensions [texture_width, texture_height, width, height]) (\<lambda>_.
     rbind (magic9_at bytes 46) (\<lambda>container_magic.
     rbind (u32_at bytes 55) (\<lambda>image_count.
     rbind (if container_magic = magic_texb 0x34 \<or> container_magic = magic_texb 0x33
            then rbind (u32_at bytes 59) (\<lambda>v. Inr (Some v))
            else if container_magic = magic_texb 0x32 \<or> container_magic = magic_texb 0x31 then Inr None
            else Inl UnknownVersion) (\<lambda>fif.
       let fif_active = (case fif of Some v \<Rightarrow> v \<noteq> - 1 | None \<Rightarrow> False) in
       if image_count = 0 \<or> max_image_count < image_count then Inl ImageCountOutOfRange
       else if \<not> fif_active \<and> format \<notin> set implemented_formats then Inl FormatNotImplemented
       else Inr (ucast width * ucast height * 4)))))))))))))"

lemma u32_at_ok: "u32_at bytes off = Inr v \<longleftrightarrow> off + 4 \<le> length bytes \<and> v = read_u32 bytes off"
  by (auto simp: u32_at_def)

lemma magic9_at_ok: "magic9_at bytes off = Inr m \<longleftrightarrow> off + 9 \<le> length bytes \<and> m = take 9 (drop off bytes)"
  by (auto simp: magic9_at_def)

lemma check_dimensions_ok:
  "check_dimensions ds = Inr u \<longleftrightarrow> list_all (\<lambda>d. d \<noteq> 0 \<and> d \<le> max_texture_dimension) ds"
  by (induction ds) (auto simp: not_less)

lemma rgba_bytes:
  assumes "w \<le> max_texture_dimension" "h \<le> max_texture_dimension"
  shows "unat (ucast w * ucast h * 4 :: u64) = unat w * unat h * 4" "unat w * unat h * 4 \<le> 268435456"
proof -
  have "unat w \<le> 8192" "unat h \<le> 8192"
    using assms by (simp_all add: max_texture_dimension_def word_le_nat_alt)
  then have p: "unat w * unat h \<le> 8192 * 8192" by (rule mult_le_mono)
  define q where "q = unat w * unat h"
  have q: "q \<le> 67108864" using p by (simp add: q_def)
  have "unat (ucast w * ucast h :: u64) = q mod 2 ^ 64"
    by (simp add: unat_word_ariths ucast_u32_u64 q_def)
  then have wh: "unat (ucast w * ucast h :: u64) = q" using q by simp
  have "unat (ucast w * ucast h * 4 :: u64) = unat (ucast w * ucast h :: u64) * 4 mod 2 ^ 64"
    by (simp only: unat_word_ariths) simp
  then have "unat (ucast w * ucast h * 4 :: u64) = q * 4" using q by (simp add: wh)
  then show "unat (ucast w * ucast h * 4 :: u64) = unat w * unat h * 4" by (simp add: q_def)
  have "q * 4 \<le> 268435456" using q by simp
  then show "unat w * unat h * 4 \<le> 268435456" unfolding q_def .
qed

text \<open>
  a header that passes the check is complete and sane: it is at least 59 bytes long, starts with the
  texture magic, all four dimensions are 1 to 8192, it has 1 to 16 images, and the reported size is
  exactly width times height times 4 as a natural number, at most 256 MiB, the single-texture budget.
\<close>

theorem check_header_sound:
  assumes "check_header bytes = Inr n"
  shows "is_texv bytes \<and> 59 \<le> length bytes
    \<and> (\<forall>off \<in> {26, 30, 34, 38}. 0 < unat (read_u32 bytes off) \<and> unat (read_u32 bytes off) \<le> 8192)
    \<and> 0 < unat (read_u32 bytes 55) \<and> unat (read_u32 bytes 55) \<le> 16
    \<and> unat n = unat (read_u32 bytes 34) * unat (read_u32 bytes 38) * 4
    \<and> n \<le> max_single_texture_budget_bytes"
proof -
  have len: "59 \<le> length bytes" and m: "take 9 bytes = magic_texv @ [0]"
    and d: "check_dimensions [read_u32 bytes 26, read_u32 bytes 30, read_u32 bytes 34, read_u32 bytes 38] = Inr ()"
    and c: "read_u32 bytes 55 \<noteq> 0" "read_u32 bytes 55 \<le> max_image_count"
    and n: "n = ucast (read_u32 bytes 34) * ucast (read_u32 bytes 38) * 4"
    using assms
    by (auto simp: check_header_def result_simps u32_at_ok magic9_at_ok Let_def not_less split: if_splits)
  have "take 8 bytes = take 8 (take 9 bytes)" by simp
  then have t: "is_texv bytes" using len by (simp add: m is_texv_def magic_texv_def)
  have dims: "read_u32 bytes off \<noteq> 0 \<and> read_u32 bytes off \<le> max_texture_dimension"
    if "off \<in> {26, 30, 34, 38}" for off
    using d that unfolding check_dimensions_ok by auto
  then have "\<forall>off \<in> {26, 30, 34, 38}. 0 < unat (read_u32 bytes off) \<and> unat (read_u32 bytes off) \<le> 8192"
    by (auto simp: max_texture_dimension_def word_le_nat_alt unat_gt_0)
  moreover note rgba_bytes [of "read_u32 bytes 34" "read_u32 bytes 38"]
  ultimately show ?thesis using t len c n dims
    by (simp add: max_image_count_def max_single_texture_budget_bytes_def word_le_nat_alt unat_gt_0)
qed

definition sample_texture :: "u8 list" where
  "sample_texture = [0x54, 0x45, 0x58, 0x56, 0x30, 0x30, 0x30, 0x35, 0, 0x54, 0x45, 0x58, 0x49, 0x30, 0x30, 0x30,
     0x31, 0, 0, 0, 0, 0, 0, 0, 0, 0, 2, 0, 0, 0, 2, 0, 0, 0, 2, 0, 0, 0, 3, 0, 0, 0, 0, 0, 0, 0,
     0x54, 0x45, 0x58, 0x42, 0x30, 0x30, 0x30, 0x32, 0, 1, 0, 0, 0]"

lemma sample_texture_ok: "check_header sample_texture = Inr 24"
proof -
  have m: "magic9_at sample_texture 0 = Inr (magic_texv @ [0])" "magic9_at sample_texture 9 = Inr magic_texi"
    "magic9_at sample_texture 46 = Inr (magic_texb 0x32)"
    by (simp_all add: magic9_at_def sample_texture_def magic_texv_def magic_texi_def magic_texb_def)
  have u: "u32_at sample_texture 18 = Inr 0" "u32_at sample_texture 22 = Inr 0"
    "u32_at sample_texture 26 = Inr 2" "u32_at sample_texture 30 = Inr 2" "u32_at sample_texture 34 = Inr 2"
    "u32_at sample_texture 38 = Inr 3" "u32_at sample_texture 55 = Inr 1"
    by (simp_all add: u32_at_def sample_texture_def read_u32_def)
  show ?thesis
    by (simp add: check_header_def m u magic_texb_def max_texture_dimension_def max_image_count_def
        implemented_formats_def)
qed

lemma check_header_sound_witness: "is_texv sample_texture \<and> 59 \<le> length sample_texture"
  using check_header_sound [OF sample_texture_ok] by blast

end
