(* ===== verification/Supervisor_Inv.thy ===== *)
theory Supervisor_Inv
  imports Supervisor "HOL-Library.Multiset"
begin

text \<open>
  The invariant of the supervisor and its preservation by every command and by the tick: the child
  processes are exactly the workers in its three slots, the slots, the phase and the display generation
  agree, the failure records are bounded, and each worker's pipes are within their bounds.
\<close>

section \<open>The invariant\<close>

definition pids :: "active_worker option \<Rightarrow> nat multiset" where
  "pids w = (case w of None \<Rightarrow> {#} | Some v \<Rightarrow> {#wk_pid v#})"

definition held :: "supervisor \<Rightarrow> nat multiset" where
  "held s = pids (sv_active s) + pids (sv_candidate s) + pids (map_option rw_worker (sv_retired s))"

text \<open>No orphan and no ghost: the processes that exist are those of the slots.\<close>

definition children_ok :: "supervisor \<Rightarrow> bool" where
  "children_ok s \<longleftrightarrow> mset (sv_children s) = held s"

definition workers_ok :: "supervisor \<Rightarrow> bool" where
  "workers_ok s \<longleftrightarrow> pred_option worker_ok (sv_active s) \<and> pred_option worker_ok (sv_candidate s)
     \<and> pred_option (worker_ok \<circ> rw_worker) (sv_retired s)"

definition records_ok :: "supervisor \<Rightarrow> bool" where
  "records_ok s \<longleftrightarrow> records_bounded (st_records (sv_persisted s))"

definition slots_ok :: "supervisor \<Rightarrow> bool" where
  "slots_ok s \<longleftrightarrow>
     (\<forall>r. sv_retired s = Some r \<longrightarrow> sv_active s \<noteq> None \<and> sv_candidate s = None \<and> sv_pending s = None
        \<and> rw_generation r = sv_display_generation s \<and> sv_phase s = AwaitingAck)
     \<and> (sv_phase s = AwaitingAck \<longrightarrow> sv_retired s \<noteq> None)
     \<and> (sv_candidate s \<noteq> None \<longrightarrow> sv_pending s = None)
     \<and> (sv_phase s = Live \<longrightarrow> sv_active s \<noteq> None \<and> sv_candidate s = None)
     \<and> (sv_phase s = Quarantined \<longrightarrow> sv_active s = None \<and> sv_candidate s = None)"

text \<open>What holds between the steps of an operation too.\<close>

definition sv_base :: "supervisor \<Rightarrow> bool" where
  "sv_base s \<longleftrightarrow> children_ok s \<and> workers_ok s \<and> records_ok s
     \<and> (sv_active s \<noteq> None \<longrightarrow> sv_display_generation s \<noteq> 0)"

definition sv_inv :: "supervisor \<Rightarrow> bool" where
  "sv_inv s \<longleftrightarrow> sv_base s \<and> slots_ok s"

lemmas base_defs = sv_base_def children_ok_def workers_ok_def records_ok_def held_def
lemmas inv_defs = sv_inv_def slots_ok_def

lemma pids_simps [simp]: "pids None = {#}" "pids (Some v) = {#wk_pid v#}"
  by (simp_all add: pids_def)

section \<open>What the primitive steps change\<close>

named_theorems sv_fields \<open>the fields that the steps of the supervisor keep\<close>

lemma asked_fields [simp]:
  "sv_persisted (asked s) = sv_persisted s" "sv_active (asked s) = sv_active s"
  "sv_candidate (asked s) = sv_candidate s" "sv_retired (asked s) = sv_retired s"
  "sv_pending (asked s) = sv_pending s" "sv_requested (asked s) = sv_requested s"
  "sv_phase (asked s) = sv_phase s" "sv_display_generation (asked s) = sv_display_generation s"
  "sv_children (asked s) = sv_children s" "sv_disk (asked s) = sv_disk s" "sv_grants (asked s) = sv_grants s"
  "sv_last_failure (asked s) = sv_last_failure s" "sv_restart_count (asked s) = sv_restart_count s"
  "sv_launch_serial (asked s) = sv_launch_serial s" "sv_audio_grant_dropped (asked s) = sv_audio_grant_dropped s"
  by (simp_all add: asked_def)

lemma save_state_fields [sv_fields]:
  "sv_persisted (snd (save_state cx s)) = sv_persisted s" "sv_active (snd (save_state cx s)) = sv_active s"
  "sv_candidate (snd (save_state cx s)) = sv_candidate s" "sv_retired (snd (save_state cx s)) = sv_retired s"
  "sv_pending (snd (save_state cx s)) = sv_pending s" "sv_requested (snd (save_state cx s)) = sv_requested s"
  "sv_phase (snd (save_state cx s)) = sv_phase s"
  "sv_display_generation (snd (save_state cx s)) = sv_display_generation s"
  "sv_children (snd (save_state cx s)) = sv_children s"
  "sv_last_failure (snd (save_state cx s)) = sv_last_failure s" "sv_grants (snd (save_state cx s)) = sv_grants s"
  by (simp_all add: save_state_def split_beta)

lemma persist_records:
  "st_records (fst (snd (persist_last_good ser spec snap unix io1 io2 (p, d)))) = st_records p"
  by (auto simp: persist_last_good_def Let_def split: prod.splits sum.splits)

lemma persist_good_fields [sv_fields]:
  "st_records (sv_persisted (snd (persist_good cx spec snap s))) = st_records (sv_persisted s)"
  "sv_active (snd (persist_good cx spec snap s)) = sv_active s"
  "sv_candidate (snd (persist_good cx spec snap s)) = sv_candidate s"
  "sv_retired (snd (persist_good cx spec snap s)) = sv_retired s"
  "sv_pending (snd (persist_good cx spec snap s)) = sv_pending s"
  "sv_requested (snd (persist_good cx spec snap s)) = sv_requested s"
  "sv_phase (snd (persist_good cx spec snap s)) = sv_phase s"
  "sv_display_generation (snd (persist_good cx spec snap s)) = sv_display_generation s"
  "sv_children (snd (persist_good cx spec snap s)) = sv_children s"
  "sv_last_failure (snd (persist_good cx spec snap s)) = sv_last_failure s"
  "sv_grants (snd (persist_good cx spec snap s)) = sv_grants s"
  by (simp_all add: persist_good_def split_beta persist_records)

lemma stop_worker_fields [sv_fields]:
  "st_records (sv_persisted (stop_worker cx w b s)) = st_records (sv_persisted s)"
  "st_last_good (sv_persisted (stop_worker cx w b s)) = st_last_good (sv_persisted s)"
  "sv_active (stop_worker cx w b s) = sv_active s" "sv_candidate (stop_worker cx w b s) = sv_candidate s"
  "sv_retired (stop_worker cx w b s) = sv_retired s" "sv_pending (stop_worker cx w b s) = sv_pending s"
  "sv_requested (stop_worker cx w b s) = sv_requested s" "sv_phase (stop_worker cx w b s) = sv_phase s"
  "sv_display_generation (stop_worker cx w b s) = sv_display_generation s"
  "sv_children (stop_worker cx w b s) = remove1 (wk_pid w) (sv_children s)"
  "sv_last_failure (stop_worker cx w b s) = sv_last_failure s" "sv_disk (stop_worker cx w b s) = sv_disk s"
  "sv_grants (stop_worker cx w b s) = sv_grants s"
  by (simp_all add: stop_worker_def Let_def add_forced_kill_def)

lemma clear_success_fields [sv_fields]:
  "st_records (sv_persisted (clear_success_record cx spec s)) = clear_records spec (st_records (sv_persisted s))"
  "sv_active (clear_success_record cx spec s) = sv_active s"
  "sv_candidate (clear_success_record cx spec s) = sv_candidate s"
  "sv_retired (clear_success_record cx spec s) = sv_retired s"
  "sv_pending (clear_success_record cx spec s) = sv_pending s"
  "sv_phase (clear_success_record cx spec s) = sv_phase s"
  "sv_display_generation (clear_success_record cx spec s) = sv_display_generation s"
  "sv_children (clear_success_record cx spec s) = sv_children s"
  by (simp_all add: clear_success_record_def sv_fields)

lemma record_failure_fields [sv_fields]:
  "st_records (sv_persisted (snd (record_failure cx kind detail spec s)))
     = fst (strike (cfg_max_failures (cx_config cx)) kind detail (os_unix (answer cx s)) spec
              (st_records (sv_persisted s)))"
  "sv_active (snd (record_failure cx kind detail spec s)) = sv_active s"
  "sv_candidate (snd (record_failure cx kind detail spec s)) = sv_candidate s"
  "sv_retired (snd (record_failure cx kind detail spec s)) = sv_retired s"
  "sv_pending (snd (record_failure cx kind detail spec s)) = sv_pending s"
  "sv_requested (snd (record_failure cx kind detail spec s)) = sv_requested s"
  "sv_phase (snd (record_failure cx kind detail spec s)) = sv_phase s"
  "sv_display_generation (snd (record_failure cx kind detail spec s)) = sv_display_generation s"
  "sv_children (snd (record_failure cx kind detail spec s)) = sv_children s"
  by (simp_all add: record_failure_def split_beta sv_fields)

lemma schedule_restart_fields [sv_fields]:
  "sv_persisted (schedule_restart cx spec s) = sv_persisted s"
  "sv_active (schedule_restart cx spec s) = sv_active s"
  "sv_candidate (schedule_restart cx spec s) = sv_candidate s"
  "sv_retired (schedule_restart cx spec s) = sv_retired s"
  "sv_phase (schedule_restart cx spec s) = Restarting"
  "sv_display_generation (schedule_restart cx spec s) = sv_display_generation s"
  "sv_children (schedule_restart cx spec s) = sv_children s"
  "sv_requested (schedule_restart cx spec s) = sv_requested s"
  "sv_last_failure (schedule_restart cx spec s) = sv_last_failure s"
  by (simp_all add: schedule_restart_def)

lemma strike_bounded: "records_bounded m \<Longrightarrow> records_bounded (fst (strike mx kind detail unix spec m))"
  using evict_room [OF migrate_bounded, of m spec]
  by (simp add: strike_def Let_def records_bounded_update)

lemma next_generation_nonzero: "next_generation g \<noteq> 0"
  using max.cobounded2 [of 1 "g + 1"] by (auto simp: next_generation_def word_le_nat_alt)

section \<open>Failures\<close>

lemma candidate_failure_keeps [sv_fields]:
  "sv_active (handle_candidate_failure cx kind detail spec s) = sv_active s"
  "sv_display_generation (handle_candidate_failure cx kind detail spec s) = sv_display_generation s"
  "sv_children (handle_candidate_failure cx kind detail spec s) = sv_children s"
  "sv_retired (handle_candidate_failure cx kind detail spec s) = sv_retired s"
  "sv_candidate (handle_candidate_failure cx kind detail spec s) = sv_candidate s"
  by (simp_all add: handle_candidate_failure_def sv_fields split_beta)

lemma candidate_failure_records:
  "records_ok s \<Longrightarrow> records_ok (handle_candidate_failure cx kind detail spec s)"
  by (auto simp: handle_candidate_failure_def records_ok_def sv_fields split_beta strike_bounded)

lemma candidate_failure_base:
  "sv_base s \<Longrightarrow> sv_base (handle_candidate_failure cx kind detail spec s)"
  using candidate_failure_records [of s cx kind detail spec]
  by (simp add: sv_base_def children_ok_def workers_ok_def held_def sv_fields)

lemma candidate_failure_slots:
  assumes "sv_candidate s = None" "sv_retired s = None"
  shows "slots_ok (handle_candidate_failure cx kind detail spec s)"
  using assms by (auto simp: handle_candidate_failure_def slots_ok_def sv_fields split_beta)

lemma candidate_failure_inv:
  assumes "sv_base s" "sv_candidate s = None" "sv_retired s = None"
  shows "sv_inv (handle_candidate_failure cx kind detail spec s)"
  using assms by (simp add: sv_inv_def candidate_failure_base candidate_failure_slots)

lemma active_failure_inv:
  assumes "sv_inv s"
  shows "sv_inv (handle_active_failure cx kind detail s)"
proof (cases "sv_active s")
  case None
  then show ?thesis using assms by (simp add: handle_active_failure_def)
next
  case (Some w)
  show ?thesis
  proof (cases "sv_retired s")
    case None
    then show ?thesis
      using assms Some
      by (auto simp: handle_active_failure_def Let_def base_defs inv_defs sv_fields split_beta strike_bounded)
  next
    case (Some r)
    then show ?thesis
      using assms \<open>sv_active s = Some w\<close> next_generation_nonzero
      by (auto simp: handle_active_failure_def Let_def base_defs inv_defs sv_fields split_beta strike_bounded)
  qed
qed

section \<open>Launching and stopping\<close>

lemma launch_fields [sv_fields]:
  "sv_persisted (snd (launch cx spec s)) = sv_persisted s" "sv_active (snd (launch cx spec s)) = sv_active s"
  "sv_candidate (snd (launch cx spec s)) = sv_candidate s" "sv_retired (snd (launch cx spec s)) = sv_retired s"
  "sv_pending (snd (launch cx spec s)) = sv_pending s" "sv_phase (snd (launch cx spec s)) = sv_phase s"
  "sv_requested (snd (launch cx spec s)) = sv_requested s" "sv_disk (snd (launch cx spec s)) = sv_disk s"
  "sv_display_generation (snd (launch cx spec s)) = sv_display_generation s"
  by (auto simp: launch_def Let_def split: sum.splits)

lemma launch_children:
  "sv_children (snd (launch cx spec s)) =
     (case fst (launch cx spec s) of Inr w \<Rightarrow> wk_pid w # sv_children s | Inl _ \<Rightarrow> sv_children s)"
  by (auto simp: launch_def Let_def split: sum.splits)

lemma launch_worker:
  "fst (launch cx spec s) = Inr w \<Longrightarrow> worker_ok w \<and> wk_spec w = spec"
  by (auto simp: launch_def Let_def dest: spawn_worker_ok)

lemma launch_candidate_inv:
  assumes "sv_base s" "sv_candidate s = None" "sv_retired s = None" "sv_pending s = None"
  shows "sv_inv (launch_candidate cx spec s)"
proof (cases "fst (launch cx spec s)")
  case (Inl msg)
  let ?s = "snd (launch cx spec s)"
  have "sv_base ?s" using assms Inl by (simp add: base_defs sv_fields launch_children)
  then show ?thesis
    using assms Inl by (simp add: launch_candidate_def split_beta candidate_failure_inv sv_fields)
next
  case (Inr w)
  then show ?thesis
    using assms launch_worker [OF Inr]
    by (simp add: launch_candidate_def split_beta base_defs inv_defs sv_fields launch_children)
qed

lemma stop_candidate_fields [sv_fields]:
  "sv_active (stop_candidate cx b s) = sv_active s" "sv_candidate (stop_candidate cx b s) = None"
  "sv_retired (stop_candidate cx b s) = sv_retired s" "sv_pending (stop_candidate cx b s) = sv_pending s"
  "sv_phase (stop_candidate cx b s) = sv_phase s" "sv_disk (stop_candidate cx b s) = sv_disk s"
  "sv_display_generation (stop_candidate cx b s) = sv_display_generation s"
  "st_records (sv_persisted (stop_candidate cx b s)) = st_records (sv_persisted s)"
  "st_last_good (sv_persisted (stop_candidate cx b s)) = st_last_good (sv_persisted s)"
  by (simp_all add: stop_candidate_def sv_fields split: option.splits)

lemma stop_candidate_base: "sv_base s \<Longrightarrow> sv_base (stop_candidate cx b s)"
  by (cases "sv_candidate s") (auto simp: stop_candidate_def base_defs sv_fields)

lemma stop_retired_base: "sv_base s \<Longrightarrow> sv_base (stop_retired cx b s)"
  by (cases "sv_retired s") (auto simp: stop_retired_def base_defs sv_fields)

lemma stop_active_base: "sv_base s \<Longrightarrow> sv_base (stop_active cx b s)"
  by (cases "sv_active s") (auto simp: stop_active_def base_defs sv_fields)

lemma stop_retired_fields [sv_fields]:
  "sv_active (stop_retired cx b s) = sv_active s" "sv_candidate (stop_retired cx b s) = sv_candidate s"
  "sv_retired (stop_retired cx b s) = None" "sv_pending (stop_retired cx b s) = sv_pending s"
  "st_last_good (sv_persisted (stop_retired cx b s)) = st_last_good (sv_persisted s)"
  "sv_disk (stop_retired cx b s) = sv_disk s"
  by (simp_all add: stop_retired_def sv_fields split: option.splits)

lemma stop_active_fields [sv_fields]:
  "sv_active (stop_active cx b s) = None" "sv_candidate (stop_active cx b s) = sv_candidate s"
  "sv_retired (stop_active cx b s) = sv_retired s" "sv_pending (stop_active cx b s) = sv_pending s"
  "st_last_good (sv_persisted (stop_active cx b s)) = st_last_good (sv_persisted s)"
  "sv_disk (stop_active cx b s) = sv_disk s"
  "sv_display_generation (stop_active cx b s) = sv_display_generation s"
  by (simp_all add: stop_active_def sv_fields split: option.splits)

lemma stop_all_base: "sv_base s \<Longrightarrow> sv_base (stop_all cx b s)"
  by (simp add: stop_all_def stop_active_base stop_retired_base stop_candidate_base)

lemma stop_all_fields [sv_fields]:
  "sv_active (stop_all cx b s) = None" "sv_candidate (stop_all cx b s) = None"
  "sv_retired (stop_all cx b s) = None" "sv_pending (stop_all cx b s) = sv_pending s"
  "st_last_good (sv_persisted (stop_all cx b s)) = st_last_good (sv_persisted s)"
  "sv_disk (stop_all cx b s) = sv_disk s"
  by (simp_all add: stop_all_def sv_fields)

lemma stop_all_children: "sv_base s \<Longrightarrow> sv_children (stop_all cx b s) = []"
  using stop_all_base [of s cx b] by (simp add: base_defs sv_fields)

section \<open>Commands\<close>

lemma base_update:
  assumes "sv_base s" "sv_children t = sv_children s" "sv_active t = sv_active s" "sv_candidate t = sv_candidate s"
    "sv_retired t = sv_retired s" "sv_display_generation t = sv_display_generation s"
    "records_bounded (st_records (sv_persisted t))"
  shows "sv_base t"
  using assms by (simp add: base_defs)

lemma base_records: "sv_base s \<Longrightarrow> records_bounded (st_records (sv_persisted s))"
  by (simp add: base_defs)

lemma start_selected_inv:
  assumes "sv_inv s"
  shows "sv_inv (snd (start_selected cx spec clear s))"
proof (cases "sv_retired s = None")
  case True
  define s1 where "s1 = (stop_candidate cx False s)\<lparr>sv_pending := None, sv_restart_count := 0, sv_last_failure := None\<rparr>"
  have b: "sv_base (stop_candidate cx False s)"
    using assms by (simp add: sv_inv_def stop_candidate_base)
  then have b1: "sv_base s1" by (rule base_update) (use b in \<open>simp_all add: s1_def base_records\<close>)
  have n1: "sv_candidate s1 = None" "sv_retired s1 = None" "sv_pending s1 = None"
    using True by (simp_all add: s1_def sv_fields)
  have l: "sv_inv (launch_candidate cx spec (s1\<lparr>sv_requested := Some spec\<rparr>))"
    using b1 n1 by (intro launch_candidate_inv) (simp_all add: base_defs)
  show ?thesis
  proof (cases clear)
    case False
    then show ?thesis
      using True b1 n1 l
      by (auto simp: start_selected_def s1_def [symmetric] Let_def base_defs inv_defs split: option.splits)
  next
    case clear: True
    define s2 where "s2 = s1\<lparr>sv_persisted := (sv_persisted s1)\<lparr>st_records := clear_records spec (st_records (sv_persisted s1))\<rparr>\<rparr>"
    have b2: "sv_base (snd (save_state cx s2))"
      using b1 by (intro base_update [OF b1]) (simp_all add: s2_def sv_fields base_records records_bounded_clear)
    have n2: "sv_candidate (snd (save_state cx s2)) = None" "sv_retired (snd (save_state cx s2)) = None"
      "sv_pending (snd (save_state cx s2)) = None" "sv_phase (snd (save_state cx s2)) = sv_phase s"
      using n1 by (simp_all add: s2_def sv_fields s1_def)
    have "sv_inv (launch_candidate cx spec ((snd (save_state cx s2))\<lparr>sv_requested := Some spec\<rparr>))"
      using b2 n2 by (intro launch_candidate_inv) (simp_all add: base_defs)
    moreover have "sv_inv (snd (save_state cx s2))"
      using b2 n2 assms True by (auto simp: inv_defs s2_def s1_def sv_fields)
    ultimately show ?thesis
      using True clear
      by (simp add: start_selected_def s1_def [symmetric] s2_def [symmetric] Let_def split_beta split: sum.split)
  qed
next
  case False
  then show ?thesis using assms by (simp add: start_selected_def)
qed

lemma stop_selected_inv:
  assumes "sv_inv s"
  shows "sv_inv (snd (stop_selected cx s))"
proof -
  have "sv_base (s\<lparr>sv_pending := None\<rparr>)" using assms by (simp add: sv_inv_def base_defs)
  then have b: "sv_base (stop_all cx True (s\<lparr>sv_pending := None\<rparr>))" by (rule stop_all_base)
  then show ?thesis
    by (simp add: stop_selected_def split_beta base_defs inv_defs sv_fields)
qed

lemma go_live_inv: "sv_base s \<Longrightarrow> sv_retired s = None \<Longrightarrow> sv_candidate s \<noteq> None \<longrightarrow> sv_pending s = None \<Longrightarrow>
    slots_ok s \<or> sv_active s \<noteq> None \<and> sv_candidate s = None \<Longrightarrow> sv_inv (go_live s)"
  by (auto simp: go_live_def base_defs inv_defs)

lemma retire_base:
  assumes "sv_base s" "sv_retired s = Some r"
  shows "sv_base (stop_worker cx (rw_worker r) b (snd (persist_good cx spec snap (s\<lparr>sv_retired := None\<rparr>))))"
  using assms by (auto simp: base_defs sv_fields)

lemma clear_success_base: "sv_base s \<Longrightarrow> sv_base (clear_success_record cx spec s)"
  by (rule base_update) (simp_all add: sv_fields base_records records_bounded_clear)

lemma acknowledge_inv:
  assumes "sv_inv s"
  shows "sv_inv (snd (acknowledge_display cx g s))"
proof (cases "sv_retired s")
  case None
  then show ?thesis
    using assms go_live_inv [of s] by (auto simp: acknowledge_display_def Let_def sv_inv_def slots_ok_def)
next
  case (Some r)
  then obtain w where w: "sv_active s = Some w" "sv_candidate s = None" "sv_pending s = None"
    using assms by (auto simp: inv_defs)
  let ?p = "persist_good cx (wk_spec w) (rw_snapshot r) (s\<lparr>sv_retired := None\<rparr>)"
  have "sv_base (clear_success_record cx (wk_spec w) (stop_worker cx (rw_worker r) True (snd ?p)))"
    using assms Some by (intro clear_success_base retire_base) (simp_all add: sv_inv_def)
  then have "sv_inv (go_live (clear_success_record cx (wk_spec w) (stop_worker cx (rw_worker r) True (snd ?p))))"
    using w by (intro go_live_inv) (simp_all add: sv_fields)
  moreover have "sv_inv ((snd ?p)\<lparr>sv_retired := Some r\<rparr>)"
    using assms Some w by (auto simp: base_defs inv_defs sv_fields)
  ultimately show ?thesis
    using assms Some w by (simp add: acknowledge_display_def Let_def split_beta split: sum.split)
qed

text \<open>A change of the active worker's pipes.\<close>

lemma active_update_inv:
  assumes "sv_inv s" "sv_active s = Some w" "wk_pid w' = wk_pid w" "worker_ok w'"
    and "t = (asked s)\<lparr>sv_active := Some w'\<rparr>"
  shows "sv_inv t"
  using assms by (auto simp: base_defs inv_defs)

lemma ack_ok_mono: "ack_ok n a \<Longrightarrow> n \<le> m \<Longrightarrow> ack_ok m a"
  by (auto simp: ack_ok_def)

lemma checked_add_le: "checked_add a b = Some c \<Longrightarrow> a \<le> c" for a :: u64
  by (auto simp: checked_add_Some word_le_nat_alt)

lemma pipe_update_inv:
  assumes "sv_inv s" "sv_active s = Some w"
    and "wk_pid w' = wk_pid w" "wk_stderr_ring w' = wk_stderr_ring w" "wk_ack w' = wk_ack w"
    and "wk_input_sequence w \<le> wk_input_sequence w'"
  shows "sv_inv (asked s\<lparr>sv_active := Some w'\<rparr>)"
proof -
  have "worker_ok w" using assms(1,2) by (auto simp: base_defs sv_inv_def)
  with assms ack_ok_mono have "worker_ok w'" by (auto simp: worker_ok_def)
  with assms show ?thesis by (intro active_update_inv [OF assms(1,2,3) _ refl])
qed

lemma forward_pointer_inv:
  assumes "sv_inv s"
  shows "sv_inv (snd (forward_pointer_input cx g ph x y b s))"
proof (cases "sv_active s")
  case (Some w)
  show ?thesis
    using assms Some
    by (auto simp: forward_pointer_input_def Let_def result_simps split_beta
        intro!: pipe_update_inv [OF assms Some] dest: checked_add_le split: sum.splits)
qed (use assms in \<open>simp add: forward_pointer_input_def\<close>)

lemma forward_audio_inv:
  assumes "sv_inv s"
  shows "sv_inv (snd (forward_audio_frame cx g f s))"
proof (cases "sv_active s")
  case (Some w)
  have "sv_inv (s\<lparr>sv_audio_grant_dropped := n\<rparr>)" for n
    using assms by (simp add: base_defs inv_defs)
  then show ?thesis
    using assms Some
    by (auto simp: forward_audio_frame_def Let_def split_beta raise_ack_ceiling_def intro!: pipe_update_inv [OF assms Some] split: sum.splits)
qed (use assms in \<open>simp add: forward_audio_frame_def\<close>)

lemma forward_media_inv:
  assumes "sv_inv s"
  shows "sv_inv (snd (forward_media_state cx g m s))"
proof (cases "sv_active s")
  case (Some w)
  show ?thesis
    using assms Some
    by (auto simp: forward_media_state_def Let_def split_beta raise_ack_ceiling_def intro!: pipe_update_inv [OF assms Some] split: sum.splits)
qed (use assms in \<open>simp add: forward_media_state_def\<close>)

lemma permissions_set_inv: "sv_inv s \<Longrightarrow> sv_inv (snd (permissions_set cx w p s))"
  by (simp add: permissions_set_def split_beta base_defs inv_defs)

lemma handle_command_inv: "sv_inv s \<Longrightarrow> sv_inv (snd (handle_command cx cmd s))"
  by (cases cmd) (simp_all add: status_reply_def split_beta start_selected_inv stop_selected_inv acknowledge_inv
      forward_pointer_inv forward_audio_inv forward_media_inv permissions_set_inv)

section \<open>The tick\<close>

lemma sv_inv_asked: "sv_inv s \<Longrightarrow> sv_inv (asked s)"
  by (simp add: base_defs inv_defs)

lemma tick_service_inv:
  assumes "sv_inv s"
  shows "sv_inv (tick_service cx s)"
proof (cases "sv_active s")
  case (Some w)
  then have "worker_ok w" using assms by (auto simp: base_defs sv_inv_def)
  then show ?thesis
    using Some active_update_inv [OF assms Some _ service_ok refl]
    by (simp add: tick_service_def service_keeps)
qed (use assms in \<open>simp add: tick_service_def\<close>)

lemma handoff_timeout_inv:
  assumes "sv_inv s"
  shows "sv_inv (complete_handoff_timeout cx s)"
proof (cases "sv_retired s")
  case None
  then show ?thesis using assms by (simp add: complete_handoff_timeout_def)
next
  case (Some r)
  then obtain w where w: "sv_active s = Some w" "sv_candidate s = None" "sv_pending s = None"
    using assms by (auto simp: inv_defs)
  let ?p = "persist_good cx (wk_spec w) (rw_snapshot r) (s\<lparr>sv_retired := None\<rparr>)"
  let ?done = "clear_success_record cx (wk_spec w) (stop_worker cx (rw_worker r) True (snd ?p))"
  have "sv_base ?done"
    using assms Some by (intro clear_success_base retire_base) (simp_all add: sv_inv_def)
  then have "sv_inv (?done\<lparr>sv_phase := Live\<rparr>)"
    using w by (auto simp: base_defs inv_defs sv_fields)
  moreover have "sv_inv (handle_candidate_failure cx kind detail spec
      ((stop_active cx False (snd ?p))\<lparr>sv_active := Some (rw_worker r),
          sv_display_generation := next_generation (sv_display_generation (stop_active cx False (snd ?p)))\<rparr>))"
    for kind detail spec
    using assms Some w next_generation_nonzero
    by (intro candidate_failure_inv) (auto simp: stop_active_def base_defs inv_defs sv_fields)
  ultimately show ?thesis
    using Some w by (simp add: complete_handoff_timeout_def Let_def split_beta split: sum.split)
qed

lemma tick_handoff_inv: "sv_inv s \<Longrightarrow> sv_inv (tick_handoff cx s)"
  by (simp add: tick_handoff_def sv_inv_asked handoff_timeout_inv split: option.splits)

lemma tick_pending_inv:
  assumes "sv_inv s"
  shows "sv_inv (tick_pending cx s)"
proof (cases "sv_candidate s = None")
  case True
  show ?thesis
  proof (cases "sv_pending s")
    case None
    then show ?thesis using assms True by (simp add: tick_pending_def)
  next
    case (Some p)
    then have "sv_retired s = None" using assms by (cases "sv_retired s") (auto simp: inv_defs)
    then have "sv_inv (launch_candidate cx (pn_spec p) (asked s\<lparr>sv_pending := None\<rparr>))"
      using assms True by (intro launch_candidate_inv) (auto simp: base_defs sv_inv_def)
    then show ?thesis using assms True Some by (simp add: tick_pending_def sv_inv_asked)
  qed
qed (use assms in \<open>simp add: tick_pending_def\<close>)

lemma inspected:
  assumes "inspect_worker cfg c w0 = (w, obs)" "worker_ok w0"
  shows "worker_ok w" "wk_pid w = wk_pid w0" "wk_spec w = wk_spec w0"
  using inspect_keeps [OF assms(1)] assms(2) by (auto simp: same_worker_def)

lemma persist_good_inv: "sv_inv s \<Longrightarrow> sv_inv (snd (persist_good cx spec snap s))"
  by (simp add: base_defs inv_defs sv_fields)

lemma tick_active_inv:
  assumes "sv_inv s"
  shows "sv_inv (tick_active cx s)"
proof (cases "sv_active s")
  case (Some w0)
  obtain w obs where i: "inspect_worker (cx_config cx) (os_inspect (answer cx s)) w0 = (w, obs)"
    by (cases "inspect_worker (cx_config cx) (os_inspect (answer cx s)) w0") simp
  have "worker_ok w0" using assms Some by (auto simp: base_defs sv_inv_def)
  note w = inspected [OF i this]
  have s1: "sv_inv (asked s\<lparr>sv_active := Some w\<rparr>)"
    by (rule active_update_inv [OF assms Some w(2,1) refl])
  moreover have "sv_inv ((asked (asked s\<lparr>sv_active := Some w\<rparr>))\<lparr>sv_active := Some (w\<lparr>wk_last_snapshot_saved := t\<rparr>)\<rparr>)" for t
    by (rule active_update_inv [OF s1, of w]) (use w in \<open>simp_all add: worker_ok_def\<close>)
  ultimately show ?thesis
    using Some i
    by (auto simp: tick_active_def Let_def sv_inv_asked active_failure_inv persist_good_inv
        split: option.split worker_observation.split)
qed (use assms in \<open>simp add: tick_active_def\<close>)

lemma candidate_update_inv:
  assumes "sv_inv s" "sv_candidate s = Some w" "wk_pid w' = wk_pid w" "worker_ok w'"
  shows "sv_inv (asked s\<lparr>sv_candidate := Some w'\<rparr>)"
  using assms by (auto simp: base_defs inv_defs)

lemma promote_first_inv:
  assumes "sv_inv s" "sv_candidate s = Some w" "sv_active s = None"
  shows "sv_inv (promote_candidate cx snap s)"
proof -
  let ?w = "w\<lparr>wk_last_snapshot_saved := Some (os_now (answer cx s))\<rparr>"
  let ?p = "persist_good cx (wk_spec w) snap (asked s\<lparr>sv_candidate := None, sv_active := None\<rparr>)"
  have n: "sv_retired s = None" "sv_pending s = None" using assms by (auto simp: inv_defs)
  have "sv_base (stop_worker cx ?w False (snd ?p))"
    using assms n by (auto simp: base_defs sv_inv_def sv_fields)
  then have "sv_inv (handle_candidate_failure cx k d spec (stop_worker cx ?w False (snd ?p)))" for k d spec
    using assms n by (intro candidate_failure_inv) (simp_all add: sv_fields)
  moreover have "sv_inv (install_promoted cx ?w None snap (snd ?p))"
    using assms n next_generation_nonzero
    by (auto simp: install_promoted_def Let_def base_defs inv_defs sv_fields records_bounded_clear worker_ok_def)
  ultimately show ?thesis
    using assms by (simp add: promote_candidate_def Let_def split_beta split: sum.split)
qed

lemma promote_next_inv:
  assumes "sv_inv s" "sv_candidate s = Some w" "sv_active s = Some v"
  shows "sv_inv (promote_candidate cx snap s)"
  using assms next_generation_nonzero
  by (auto simp: promote_candidate_def install_promoted_def Let_def base_defs inv_defs worker_ok_def)

lemma promote_inv: "sv_inv s \<Longrightarrow> sv_inv (promote_candidate cx snap s)"
  using promote_first_inv promote_next_inv
  by (cases "sv_candidate s"; cases "sv_active s") (auto simp: promote_candidate_def)

lemma tick_candidate_inv:
  assumes "sv_inv s"
  shows "sv_inv (tick_candidate cx s)"
proof (cases "sv_candidate s")
  case (Some w0)
  obtain w obs where i: "inspect_worker (cx_config cx) (os_inspect (answer cx s)) w0 = (w, obs)"
    by (cases "inspect_worker (cx_config cx) (os_inspect (answer cx s)) w0") simp
  have "worker_ok w0" using assms Some by (auto simp: base_defs sv_inv_def)
  note w = inspected [OF i this]
  define s1 where "s1 = asked s\<lparr>sv_candidate := Some w\<rparr>"
  have s1: "sv_inv s1" unfolding s1_def by (rule candidate_update_inv [OF assms Some w(2,1)])
  have n: "sv_retired s1 = None" using s1 by (cases "sv_retired s1") (auto simp: inv_defs s1_def)
  have "sv_inv (handle_candidate_failure cx k d spec (stop_candidate cx False s1))" for k d spec
    using s1 n by (intro candidate_failure_inv) (simp_all add: sv_inv_def stop_candidate_base sv_fields)
  moreover have "sv_inv ((asked s1)\<lparr>sv_phase := Canary\<rparr>)" if "sv_active s1 \<noteq> None"
    using s1 n that by (auto simp: base_defs inv_defs)
  ultimately show ?thesis
    using Some i s1
    by (auto simp: tick_candidate_def s1_def [symmetric] Let_def sv_inv_asked promote_inv
        split: option.split worker_observation.split)
qed (use assms in \<open>simp add: tick_candidate_def\<close>)

lemma tick_inv: "sv_inv s \<Longrightarrow> sv_inv (tick cx s)"
  by (simp add: tick_def tick_candidate_inv tick_active_inv tick_pending_inv tick_handoff_inv tick_service_inv)

section \<open>Runs\<close>

lemma supervisor_new_inv: "records_bounded (st_records p) \<Longrightarrow> sv_inv (supervisor_new p g d)"
  by (simp add: supervisor_new_def base_defs inv_defs)

lemma supervisor_step_inv: "sv_inv s \<Longrightarrow> sv_inv (supervisor_step cx s cmd)"
  by (simp add: supervisor_step_def tick_inv handle_command_inv)

lemma supervisor_serve_inv: "sv_inv s \<Longrightarrow> sv_inv (supervisor_serve cx cmds s)"
  unfolding supervisor_serve_def
  by (induction cmds arbitrary: s) (simp_all add: supervisor_step_inv)

text \<open>
  C2: over any sequence of commands and any behaviour of the operating system, the child processes are
  exactly the workers in the active, candidate and retired slots, with no orphan and none lost; a retired
  worker exists exactly while the display's acknowledgement is awaited, beside an active worker and with
  nothing else launched or scheduled; the records stay bounded; and a shutdown leaves no child.
\<close>

theorem supervisor_no_orphans:
  assumes "records_bounded (st_records p)" "s = supervisor_serve cx cmds (supervisor_new p g d)"
  shows "mset (sv_children s) = held s
    \<and> (sv_phase s = AwaitingAck \<longleftrightarrow> sv_retired s \<noteq> None)
    \<and> (sv_retired s \<noteq> None \<longrightarrow> sv_active s \<noteq> None \<and> sv_candidate s = None \<and> sv_pending s = None)
    \<and> (sv_candidate s \<noteq> None \<longrightarrow> sv_pending s = None)
    \<and> (sv_phase s = Live \<longrightarrow> sv_active s \<noteq> None \<and> sv_candidate s = None)
    \<and> Mapping.size (st_records (sv_persisted s)) \<le> max_records
    \<and> sv_children (supervisor_run cx cmds (supervisor_new p g d)) = []"
proof -
  have "sv_inv s" unfolding assms(2) by (rule supervisor_serve_inv [OF supervisor_new_inv [OF assms(1)]])
  then show ?thesis
    using stop_all_children [of s cx False] assms(2)
    by (auto simp: supervisor_run_def base_defs inv_defs records_bounded_def)
qed

lemma fresh_bounded: "records_bounded (st_records fresh_state)"
  by (simp add: fresh_state_def records_bounded_def Mapping.size_def)

lemma supervisor_no_orphans_witness:
  "sv_children (supervisor_run sample_context [CmdStart sample_start, CmdTimeout] (supervisor_new fresh_state default_grants Mapping.empty)) = []"
  using supervisor_no_orphans [OF fresh_bounded refl, of sample_context "[CmdStart sample_start, CmdTimeout]"] by blast

end
