(* ===== verification/Supervisor_Fallback.thy ===== *)
theory Supervisor_Fallback
  imports Supervisor_Inv
begin

text \<open>
  The last good frame over whole runs of the supervisor: whatever commands arrive and whichever writes
  fail, the state file on disk and the state in memory name complete images at every moment, so a daemon
  that is restarted always finds a fallback to show.
\<close>

section \<open>The state directory\<close>

definition fallback_ok :: "bool \<Rightarrow> (u8 list \<Rightarrow> persisted_state option) \<Rightarrow> supervisor \<Rightarrow> bool" where
  "fallback_ok exact parse s \<longleftrightarrow>
     disk_complete parse (sv_disk s) \<and> names_complete exact (sv_disk s) (sv_persisted s)"

lemma fallback_cong:
  "sv_disk t = sv_disk s \<Longrightarrow> st_last_good (sv_persisted t) = st_last_good (sv_persisted s) \<Longrightarrow>
     fallback_ok exact parse t = fallback_ok exact parse s"
  by (simp add: fallback_ok_def names_complete_def)

lemma fallback_updates [simp]:
  "fallback_ok exact parse (s\<lparr>sv_active := a\<rparr>) = fallback_ok exact parse s"
  "fallback_ok exact parse (s\<lparr>sv_candidate := a\<rparr>) = fallback_ok exact parse s"
  "fallback_ok exact parse (s\<lparr>sv_retired := r\<rparr>) = fallback_ok exact parse s"
  "fallback_ok exact parse (s\<lparr>sv_pending := p\<rparr>) = fallback_ok exact parse s"
  "fallback_ok exact parse (s\<lparr>sv_requested := q\<rparr>) = fallback_ok exact parse s"
  "fallback_ok exact parse (s\<lparr>sv_phase := ph\<rparr>) = fallback_ok exact parse s"
  "fallback_ok exact parse (s\<lparr>sv_restart_count := n\<rparr>) = fallback_ok exact parse s"
  "fallback_ok exact parse (s\<lparr>sv_last_failure := f\<rparr>) = fallback_ok exact parse s"
  "fallback_ok exact parse (s\<lparr>sv_display_generation := g\<rparr>) = fallback_ok exact parse s"
  "fallback_ok exact parse (s\<lparr>sv_audio_grant_dropped := g\<rparr>) = fallback_ok exact parse s"
  "fallback_ok exact parse (asked s) = fallback_ok exact parse s"
  by (rule fallback_cong; simp)+

lemma fallback_records [simp]:
  "st_last_good p = st_last_good (sv_persisted s) \<Longrightarrow> fallback_ok exact parse (s\<lparr>sv_persisted := p\<rparr>) = fallback_ok exact parse s"
  by (rule fallback_cong) simp_all

section \<open>The steps\<close>

lemma save_state_fallback:
  assumes "keeps_last_good (cx_state_json cx) parse" "fallback_ok exact parse s"
  shows "fallback_ok exact parse (snd (save_state cx s))"
proof -
  obtain r d where "state_save (cx_state_json cx) (sv_persisted s) (os_write (answer cx s)) (sv_disk s) = (r, d)"
    by (cases "state_save (cx_state_json cx) (sv_persisted s) (os_write (answer cx s)) (sv_disk s)") simp
  with state_save_complete [OF this assms(1), where exact = exact] assms(2) show ?thesis
    by (simp add: save_state_def fallback_ok_def)
qed

lemma persist_good_fallback:
  assumes "keeps_last_good (cx_state_json cx) parse" "fallback_ok exact parse s"
  shows "fallback_ok exact parse (snd (persist_good cx spec snap s))"
proof -
  obtain r p d where "persist_last_good (cx_state_json cx) spec snap (os_unix (answer cx s)) (os_write (answer cx s))
      (os_write (answer cx (asked s))) (sv_persisted s, sv_disk s) = (r, p, d)"
    by (metis prod.collapse)
  with persist_last_good_complete [OF this assms(1), where exact = exact] assms(2) show ?thesis
    by (simp add: persist_good_def fallback_ok_def)
qed

lemma stop_worker_fallback [simp]: "fallback_ok exact parse (stop_worker cx w b s) = fallback_ok exact parse s"
  by (rule fallback_cong) (simp_all add: sv_fields)

lemma stop_fallback [simp]:
  "fallback_ok exact parse (stop_candidate cx b s) = fallback_ok exact parse s"
  "fallback_ok exact parse (stop_active cx b s) = fallback_ok exact parse s"
  "fallback_ok exact parse (stop_all cx b s) = fallback_ok exact parse s"
  by (rule fallback_cong; simp add: sv_fields)+

lemma launch_fallback [simp]: "fallback_ok exact parse (snd (launch cx spec s)) = fallback_ok exact parse s"
  by (rule fallback_cong) (simp_all add: sv_fields)

lemma schedule_restart_fallback [simp]: "fallback_ok exact parse (schedule_restart cx spec s) = fallback_ok exact parse s"
  by (rule fallback_cong) (simp_all add: schedule_restart_def)

lemma clear_success_fallback:
  "keeps_last_good (cx_state_json cx) parse \<Longrightarrow> fallback_ok exact parse s \<Longrightarrow> fallback_ok exact parse (clear_success_record cx spec s)"
  unfolding clear_success_record_def by (rule save_state_fallback) simp_all

lemma record_failure_fallback:
  "keeps_last_good (cx_state_json cx) parse \<Longrightarrow> fallback_ok exact parse s \<Longrightarrow>
     fallback_ok exact parse (snd (record_failure cx kind detail spec s))"
  unfolding record_failure_def split_beta snd_conv by (rule save_state_fallback) simp_all

lemma candidate_failure_fallback:
  "keeps_last_good (cx_state_json cx) parse \<Longrightarrow> fallback_ok exact parse s \<Longrightarrow>
     fallback_ok exact parse (handle_candidate_failure cx kind detail spec s)"
  by (simp add: handle_candidate_failure_def split_beta record_failure_fallback)

lemma active_failure_fallback:
  "keeps_last_good (cx_state_json cx) parse \<Longrightarrow> fallback_ok exact parse s \<Longrightarrow>
     fallback_ok exact parse (handle_active_failure cx kind detail s)"
  by (simp add: handle_active_failure_def Let_def split_beta record_failure_fallback split: option.splits)

lemma launch_candidate_fallback:
  "keeps_last_good (cx_state_json cx) parse \<Longrightarrow> fallback_ok exact parse s \<Longrightarrow>
     fallback_ok exact parse (launch_candidate cx spec s)"
  by (simp add: launch_candidate_def split_beta candidate_failure_fallback split: sum.split)

lemmas step_fallback = save_state_fallback persist_good_fallback clear_success_fallback record_failure_fallback
  candidate_failure_fallback active_failure_fallback launch_candidate_fallback

lemma grants_set_disk:
  assumes "grants_set ser io w p (g, d) = (r, g', d')" "disk_complete parse d" "names_complete exact d s"
  shows "disk_complete parse d' \<and> names_complete exact d' s"
proof -
  have "d' = d \<or> (\<exists>bs q. atomic_write grants_file bs io d = (q, d'))"
    using assms(1)
    by (auto simp: grants_set_def grants_save_def Let_def split: if_splits prod.splits sum.splits)
  moreover have other: "Mapping.lookup d' n = Mapping.lookup d n"
    if "atomic_write grants_file bs io d = (q, d')" "n \<in> {last_good_a, last_good_b, state_file_name}" for n bs q
    using atomic_write_other [OF that(1), of n] that(2) file_names
    by (auto simp: grants_file_def last_good_a_def last_good_b_def state_file_name_def)
  ultimately have same: "Mapping.lookup d' n = Mapping.lookup d n"
    if "n \<in> {last_good_a, last_good_b, state_file_name}" for n
    using that by blast
  then have "complete_image e d' lg = complete_image e d lg" for e lg
    unfolding complete_image_def by (metis insert_iff)
  then have "complete_image e d' = complete_image e d" for e by blast
  then have "names_complete e d' = names_complete e d" for e unfolding names_complete_def by simp
  with same [of state_file_name] assms(2,3) show ?thesis by (simp add: disk_complete_def)
qed

section \<open>Commands and the tick\<close>

lemma command_fallback:
  assumes codec: "keeps_last_good (cx_state_json cx) parse" and "fallback_ok exact parse s"
  shows "fallback_ok exact parse (snd (handle_command cx cmd s))"
proof -
  have start: "fallback_ok exact parse (snd (start_selected cx spec clear s))" for spec clear
    using assms by (auto simp: start_selected_def Let_def split_beta step_fallback split: sum.split option.split)
  have stop: "fallback_ok exact parse (snd (stop_selected cx s))"
    using assms by (simp add: stop_selected_def split_beta step_fallback)
  have ack: "fallback_ok exact parse (snd (acknowledge_display cx g s))" for g
    using assms by (auto simp: acknowledge_display_def go_live_def Let_def split_beta step_fallback split: sum.split option.split)
  have pointer: "fallback_ok exact parse (snd (forward_pointer_input cx g ph x y b s))" for g ph x y b
    using assms(2) by (auto simp: forward_pointer_input_def Let_def split_beta split: sum.split option.split)
  have audio: "fallback_ok exact parse (snd (forward_audio_frame cx g f s))" for g f
    using assms(2) by (auto simp: forward_audio_frame_def Let_def split_beta split: sum.split option.split)
  have media: "fallback_ok exact parse (snd (forward_media_state cx g f s))" for g f
    using assms(2) by (auto simp: forward_media_state_def Let_def split_beta split: sum.split option.split)
  have perm: "fallback_ok exact parse (snd (permissions_set cx w p s))" for w p
    using assms(2) grants_set_disk [where s = "sv_persisted s" and d = "sv_disk s"]
    by (auto simp: permissions_set_def fallback_ok_def split: prod.split)
  show ?thesis
    using assms(2) by (cases cmd) (simp_all add: status_reply_def split_beta start stop ack pointer audio media perm)
qed

lemma tick_fallback:
  assumes codec: "keeps_last_good (cx_state_json cx) parse" and "fallback_ok exact parse s"
  shows "fallback_ok exact parse (tick cx s)"
proof -
  have 1: "fallback_ok exact parse (tick_service cx s)" if "fallback_ok exact parse s" for s
    using that by (simp add: tick_service_def split: option.split)
  have "fallback_ok exact parse (complete_handoff_timeout cx s)" if "fallback_ok exact parse s" for s
    using that codec
    by (auto simp: complete_handoff_timeout_def Let_def split_beta step_fallback split: option.split sum.split)
  then have 2: "fallback_ok exact parse (tick_handoff cx s)" if "fallback_ok exact parse s" for s
    using that by (simp add: tick_handoff_def split: option.split)
  have 3: "fallback_ok exact parse (tick_pending cx s)" if "fallback_ok exact parse s" for s
    using that codec by (simp add: tick_pending_def step_fallback split: option.split)
  have 4: "fallback_ok exact parse (tick_active cx s)" if "fallback_ok exact parse s" for s
    using that codec
    by (simp add: tick_active_def Let_def split_beta step_fallback split: option.split worker_observation.split)
  have "fallback_ok exact parse (install_promoted cx w v snap s)" if "fallback_ok exact parse s" for w v snap s
    using that codec by (simp add: install_promoted_def Let_def step_fallback split: option.split)
  then have "fallback_ok exact parse (promote_candidate cx snap s)" if "fallback_ok exact parse s" for snap s
    using that codec
    by (auto simp: promote_candidate_def Let_def split_beta step_fallback split: option.split sum.split)
  then have 5: "fallback_ok exact parse (tick_candidate cx s)" if "fallback_ok exact parse s" for s
    using that codec
    by (simp add: tick_candidate_def Let_def split_beta step_fallback split: option.split worker_observation.split)
  from 1 2 3 4 5 assms(2) show ?thesis by (simp add: tick_def)
qed

lemma step_run_fallback:
  "keeps_last_good (cx_state_json cx) parse \<Longrightarrow> fallback_ok exact parse s \<Longrightarrow> fallback_ok exact parse (supervisor_step cx s cmd)"
  by (simp add: supervisor_step_def tick_fallback command_fallback)

lemma serve_fallback:
  "keeps_last_good (cx_state_json cx) parse \<Longrightarrow> fallback_ok exact parse s \<Longrightarrow>
     fallback_ok exact parse (supervisor_serve cx cmds s)"
  unfolding supervisor_serve_def by (induction cmds arbitrary: s) (simp_all add: step_run_fallback)

text \<open>
  C12: a fallback survives every run: for a codec that keeps the last good record, after any commands under
  any behaviour of processes and disks (every failing, partial or unsynced write included) the state
  file, when there is one, names a complete image file, and so does the state in memory; and once the
  image that memory names is exactly the frame it describes, it stays so, because a frame is never
  written over the image in use.
\<close>

theorem fallback_always_complete:
  assumes "keeps_last_good (cx_state_json cx) parse"
    and "disk_complete parse d" "names_complete exact d p"
    and "s = supervisor_serve cx cmds (supervisor_new p g d)"
  shows "disk_complete parse (sv_disk s) \<and> names_complete exact (sv_disk s) (sv_persisted s)
    \<and> disk_complete parse (sv_disk (supervisor_run cx cmds (supervisor_new p g d)))"
proof -
  have "fallback_ok exact parse (supervisor_new p g d)" using assms(2,3) by (simp add: fallback_ok_def supervisor_new_def)
  from serve_fallback [OF assms(1) this, of cmds] show ?thesis
    unfolding assms(4) supervisor_run_def by (simp add: fallback_ok_def sv_fields)
qed

lemma fallback_always_complete_witness:
  "disk_complete (\<lambda>b. if b = [1] then Some (fresh_state\<lparr>st_last_good := Some sample_last_good\<rparr>) else None)
     (sv_disk (supervisor_serve sample_context [CmdStart sample_start, CmdTimeout]
        (supervisor_new fresh_state default_grants Mapping.empty)))"
proof -
  let ?parse = "\<lambda>b. if b = [1] then Some (fresh_state\<lparr>st_last_good := Some sample_last_good\<rparr>) else None"
  have "keeps_last_good (cx_state_json sample_context) ?parse"
    by (auto simp: keeps_last_good_def sample_context_def split: if_splits)
  moreover have "disk_complete ?parse Mapping.empty" "names_complete True Mapping.empty fresh_state"
    by (simp_all add: disk_complete_def names_complete_def fresh_state_def)
  ultimately show ?thesis using fallback_always_complete [OF _ _ _ refl] by blast
qed

end
