(* ===== verification/Supervisor_Safety.thy ===== *)
theory Supervisor_Safety
  imports Supervisor_Inv
begin

text \<open>
  What the supervisor promises to the display and to its user: the handoff commits only what is on disk, the
  shown wallpaper changes only by promotion, failures are bounded by the budget, refusals never strike,
  and input reaches only the worker the display shows.
\<close>

section \<open>Acknowledgement\<close>

lemma clear_success_good [sv_fields]:
  "st_last_good (sv_persisted (clear_success_record cx spec s)) = st_last_good (sv_persisted s)"
  by (simp add: clear_success_record_def sv_fields)

lemma persist_good_ok:
  assumes "persist_good cx spec snap s = (Inr (), s')"
  shows "\<exists>lg ppm. st_last_good (sv_persisted s') = Some lg \<and> lg_wallpaper_id lg = ss_wallpaper_id spec
    \<and> encode_ppm snap = Inr ppm \<and> Mapping.lookup (sv_disk s') (lg_file lg) = Some ppm
    \<and> Mapping.lookup (sv_disk s') state_file_name = Some (cx_state_json cx (sv_persisted s'))"
proof -
  obtain p d where r: "persist_last_good (cx_state_json cx) spec snap (os_unix (answer cx s)) (os_write (answer cx s))
      (os_write (answer cx (asked s))) (sv_persisted s, sv_disk s) = (Inr (), p, d)"
    and s': "sv_persisted s' = p" "sv_disk s' = d"
    using assms by (auto simp: persist_good_def split: prod.splits)
  from persist_last_good_ok [OF r] show ?thesis by (simp add: s')
qed

text \<open>
  C16: an acknowledgement is exact and commits only what is durable: with any other generation than the one
  awaited nothing changes; when it is accepted the state file and the fallback image of the promoted
  wallpaper are on disk and only then is the previous worker gone; when they cannot be written the
  previous worker, the active one and the phase stay as they were.
\<close>

theorem acknowledge_durable:
  assumes "acknowledge_display cx g s = (r, s')" "sv_retired s = Some rw" "sv_active s = Some w" "sv_candidate s = None"
  shows "(g \<noteq> rw_generation rw \<longrightarrow> r = Inl (GenerationMismatch (rw_generation rw)) \<and> s' = s)
    \<and> (r = Inr () \<longrightarrow> sv_retired s' = None \<and> sv_active s' = Some w \<and> sv_phase s' = Live
         \<and> sv_children s' = remove1 (wk_pid (rw_worker rw)) (sv_children s)
         \<and> (\<exists>s1 lg ppm. persist_good cx (wk_spec w) (rw_snapshot rw) (s\<lparr>sv_retired := None\<rparr>) = (Inr (), s1)
              \<and> st_last_good (sv_persisted s') = Some lg \<and> lg_wallpaper_id lg = ss_wallpaper_id (wk_spec w)
              \<and> encode_ppm (rw_snapshot rw) = Inr ppm \<and> Mapping.lookup (sv_disk s1) (lg_file lg) = Some ppm
              \<and> Mapping.lookup (sv_disk s1) state_file_name = Some (cx_state_json cx (sv_persisted s1))))
    \<and> (\<forall>e. r = Inl (PromotionNotPersisted e) \<longrightarrow> sv_retired s' = Some rw \<and> sv_active s' = Some w
         \<and> sv_phase s' = sv_phase s \<and> sv_children s' = sv_children s)"
proof (cases "g = rw_generation rw")
  case False
  then show ?thesis using assms by (auto simp: acknowledge_display_def Let_def)
next
  case True
  obtain q s1 where p: "persist_good cx (wk_spec w) (rw_snapshot rw) (s\<lparr>sv_retired := None\<rparr>) = (q, s1)"
    by (cases "persist_good cx (wk_spec w) (rw_snapshot rw) (s\<lparr>sv_retired := None\<rparr>)") simp
  then have f: "sv_active s1 = Some w" "sv_candidate s1 = None" "sv_retired s1 = None" "sv_phase s1 = sv_phase s"
    "sv_children s1 = sv_children s"
    using assms persist_good_fields [of cx "wk_spec w" "rw_snapshot rw" "s\<lparr>sv_retired := None\<rparr>"] by simp_all
  show ?thesis
  proof (cases q)
    case (Inl e)
    then show ?thesis using assms True p f by (auto simp: acknowledge_display_def Let_def)
  next
    case (Inr u)
    then have "s' = go_live (clear_success_record cx (wk_spec w) (stop_worker cx (rw_worker rw) True s1))" "r = Inr ()"
      using assms True p by (simp_all add: acknowledge_display_def Let_def)
    moreover from Inr p have "persist_good cx (wk_spec w) (rw_snapshot rw) (s\<lparr>sv_retired := None\<rparr>) = (Inr (), s1)" by simp
    note persist_good_ok [OF this]
    ultimately show ?thesis using True Inr p f by (auto simp: go_live_def sv_fields)
  qed
qed

definition sample_worker :: "nat \<Rightarrow> active_worker" where
  "sample_worker pid = new_worker sample_start pid [] [] ''/h'' ''/f'' 0"

text \<open>A handoff in progress: worker 41 is shown as generation 2, worker 40 waits to be acknowledged away.\<close>

definition sample_handoff :: supervisor where
  "sample_handoff = (supervisor_new fresh_state default_grants Mapping.empty)
     \<lparr>sv_active := Some (sample_worker 41), sv_display_generation := 2, sv_phase := AwaitingAck,
      sv_children := [41, 40], sv_retired := Some \<lparr>rw_worker = sample_worker 40, rw_generation = 2,
        rw_deadline = 7, rw_snapshot = sample_snapshot\<rparr>\<rparr>"

lemma acknowledge_durable_witness:
  "acknowledge_display sample_context 1 sample_handoff = (Inl (GenerationMismatch 2), sample_handoff)"
  using acknowledge_durable [where cx = sample_context and g = 1 and s = sample_handoff, OF surjective_pairing]
  by (simp add: sample_handoff_def supervisor_new_def prod_eq_iff)

section \<open>Promotion\<close>

text \<open>The outcome of one look at the candidate.\<close>

definition canary_passed :: "sv_context \<Rightarrow> active_worker \<Rightarrow> nat \<Rightarrow> bool" where
  "canary_passed cx w now \<longleftrightarrow> 3 \<le> wk_sequence w \<and> cfg_canary_duration (cx_config cx) \<le> now - wk_started w"

lemma promote_over:
  assumes "sv_candidate s = Some w" "sv_active s = Some v"
  shows "sv_active (promote_candidate cx snap s) = Some (w\<lparr>wk_last_snapshot_saved := Some (os_now (answer cx s))\<rparr>)"
    and "sv_candidate (promote_candidate cx snap s) = None"
    and "sv_display_generation (promote_candidate cx snap s) = next_generation (sv_display_generation s)"
    and "\<exists>r. sv_retired (promote_candidate cx snap s) = Some r \<and> rw_worker r = v
           \<and> rw_generation r = next_generation (sv_display_generation s)"
    and "sv_phase (promote_candidate cx snap s) = AwaitingAck"
    and "sv_children (promote_candidate cx snap s) = sv_children s"
  using assms by (simp_all add: promote_candidate_def install_promoted_def Let_def)

lemma promote_first:
  fixes cx snap
  assumes "sv_candidate s = Some w" "sv_active s = None"
  defines "p \<equiv> persist_good cx (wk_spec w) snap (asked s\<lparr>sv_candidate := None, sv_active := None\<rparr>)"
  shows "fst p = Inr () \<Longrightarrow>
           sv_active (promote_candidate cx snap s) = Some (w\<lparr>wk_last_snapshot_saved := Some (os_now (answer cx s))\<rparr>)
           \<and> sv_candidate (promote_candidate cx snap s) = None
           \<and> sv_display_generation (promote_candidate cx snap s) = next_generation (sv_display_generation s)
           \<and> sv_phase (promote_candidate cx snap s) = Live
           \<and> sv_retired (promote_candidate cx snap s) = sv_retired s"
    and "fst p \<noteq> Inr () \<Longrightarrow>
           sv_active (promote_candidate cx snap s) = None \<and> sv_candidate (promote_candidate cx snap s) = None
           \<and> sv_children (promote_candidate cx snap s) = remove1 (wk_pid w) (sv_children s)
           \<and> sv_display_generation (promote_candidate cx snap s) = sv_display_generation s
           \<and> sv_retired (promote_candidate cx snap s) = sv_retired s"
  using assms(1,2)
  by (auto simp: p_def promote_candidate_def install_promoted_def Let_def sv_fields split_beta split: sum.splits)

text \<open>
  C13: what is on the screen changes only by promotion: one look at the candidate leaves the active worker,
  the generation and every other process alone unless the candidate made a newer frame, has published at
  least three and has survived the canary time; then it becomes the active worker under the next
  generation, the worker it replaces is kept, still running, until the display acknowledges, and without
  a worker to fall back to it becomes live only when its frame was stored as the fallback, and is
  stopped otherwise. A failing candidate is stopped without touching what is shown.
\<close>

theorem promotion_gated:
  assumes "sv_inv s" "sv_candidate s = Some w0"
    and "inspect_worker (cx_config cx) (os_inspect (answer cx s)) w0 = (w, obs)"
    and "now = os_now (answer cx (asked s))" "s' = tick_candidate cx s"
  shows "(sv_active s' = sv_active s \<and> sv_display_generation s' = sv_display_generation s
          \<and> sv_retired s' = None \<and> (sv_children s' = sv_children s \<or> sv_candidate s' = None
              \<and> sv_children s' = remove1 (wk_pid w0) (sv_children s)))
       \<or> (\<exists>snap. obs = Some (Progress snap) \<and> canary_passed cx w now
          \<and> map_option wk_pid (sv_active s') = Some (wk_pid w0) \<and> sv_candidate s' = None
          \<and> sv_display_generation s' = next_generation (sv_display_generation s)
          \<and> (case sv_active s of
                Some v \<Rightarrow> sv_phase s' = AwaitingAck \<and> map_option rw_worker (sv_retired s') = Some v
                       \<and> sv_children s' = sv_children s
              | None \<Rightarrow> sv_phase s' = Live \<and> sv_retired s' = None))"
proof -
  define s1 where "s1 = asked s\<lparr>sv_candidate := Some w\<rparr>"
  have none: "sv_retired s = None" using assms(1,2) by (cases "sv_retired s") (auto simp: inv_defs)
  have pid: "wk_pid w = wk_pid w0" using inspect_keeps [OF assms(3)] by (simp add: same_worker_def)
  have s1: "sv_active s1 = sv_active s" "sv_candidate s1 = Some w" "sv_retired s1 = None"
    "sv_children s1 = sv_children s" "sv_display_generation s1 = sv_display_generation s"
    using none by (simp_all add: s1_def)
  have time: "os_now (answer cx s1) = now" using assms(4) by (simp add: answer_def asked_def s1_def)
  have s': "s' = (case obs of None \<Rightarrow> s1
      | Some (Failure kind detail) \<Rightarrow> handle_candidate_failure cx kind detail (wk_spec w) (stop_candidate cx False s1)
      | Some (Progress snap) \<Rightarrow>
          if canary_passed cx w now then promote_candidate cx snap (asked s1)
          else if sv_active s1 \<noteq> None then asked s1\<lparr>sv_phase := Canary\<rparr> else asked s1)"
    using assms time
    by (simp add: tick_candidate_def s1_def [symmetric] Let_def canary_passed_def
        split: option.split worker_observation.split)
  have stop: "sv_children (stop_candidate cx False s1) = remove1 (wk_pid w0) (sv_children s)"
    using s1 pid by (simp add: stop_candidate_def sv_fields)
  show ?thesis
  proof (cases "\<exists>snap. obs = Some (Progress snap) \<and> canary_passed cx w now")
    case True
    then obtain snap where o: "obs = Some (Progress snap)" "canary_passed cx w now" by blast
    then have p: "s' = promote_candidate cx snap (asked s1)" using s' by simp
    show ?thesis
    proof (cases "sv_active s")
      case None
      then show ?thesis
        using o p pid promote_first [where s = "asked s1" and w = w and cx = cx and snap = snap] s1
        by (cases "fst (persist_good cx (wk_spec w) snap (asked (asked s1)\<lparr>sv_candidate := None, sv_active := None\<rparr>)) = Inr ()") auto
    next
      case (Some v)
      then show ?thesis
        using o p pid promote_over [where s = "asked s1" and w = w and v = v and cx = cx and snap = snap] s1 by auto
    qed
  next
    case False
    then show ?thesis
      using s' s1 stop by (auto simp: sv_fields split: option.splits worker_observation.splits)
  qed
qed

text \<open>A candidate that failed while worker 41 is shown.\<close>

definition sample_canary :: supervisor where
  "sample_canary = (supervisor_new fresh_state default_grants Mapping.empty)
     \<lparr>sv_active := Some (sample_worker 41), sv_candidate := Some (sample_worker 42), sv_display_generation := 1,
      sv_phase := Canary, sv_children := [42, 41]\<rparr>"

lemma sample_worker_ok: "worker_ok (sample_worker pid)"
  by (simp add: sample_worker_def new_worker_ok)

lemma sample_canary_inv: "sv_inv sample_canary"
  by (simp add: sample_canary_def supervisor_new_def base_defs inv_defs sample_worker_ok fresh_bounded)
    (simp add: sample_worker_def new_worker_def)

lemma promotion_gated_witness:
  "map_option wk_pid (sv_active (tick_candidate sample_context sample_canary)) \<in> {Some 41, Some 42}"
proof -
  have "sv_candidate sample_canary = Some (sample_worker 42)" "map_option wk_pid (sv_active sample_canary) = Some 41"
    "wk_pid (sample_worker 42) = 42"
    by (simp_all add: sample_canary_def supervisor_new_def sample_worker_def new_worker_def)
  with promotion_gated [OF sample_canary_inv this(1) surjective_pairing refl refl, of sample_context]
  show ?thesis by auto
qed

section \<open>The failure budget\<close>

lemma candidate_failure_step:
  assumes "records_ok s" "kind \<noteq> Refused" "s' = handle_candidate_failure cx kind detail spec s"
  shows "\<exists>r. record_of (sv_persisted s') spec = Some r \<and> records_ok s'
    \<and> fr_failures r = sat_add (case record_of (sv_persisted s) spec of Some q \<Rightarrow> fr_failures q | None \<Rightarrow> 0) 1
    \<and> (fr_quarantined r \<longleftrightarrow> cfg_max_failures (cx_config cx) \<le> fr_failures r)
    \<and> fr_last_failure r = kind
    \<and> (if fr_quarantined r
       then sv_pending s' = None \<and> sv_phase s' = (if sv_active s \<noteq> None then RolledBack else Quarantined)
       else map_option pn_spec (sv_pending s') = Some spec \<and> sv_phase s' = Restarting)"
proof -
  obtain m r where r: "strike (cfg_max_failures (cx_config cx)) kind detail (os_unix (answer cx s)) spec
      (st_records (sv_persisted s)) = (m, r)" by (meson surj_pair)
  note c = strike_counts [OF assms(1) [unfolded records_ok_def] r]
  have "record_of (sv_persisted s') spec = Some r"
    using r c(1) assms(2,3)
    by (auto simp: handle_candidate_failure_def record_failure_def record_of_known sv_fields split_beta)
  moreover have "if fr_quarantined r
      then sv_pending s' = None \<and> sv_phase s' = (if sv_active s \<noteq> None then RolledBack else Quarantined)
      else map_option pn_spec (sv_pending s') = Some spec \<and> sv_phase s' = Restarting"
    using r assms(2,3)
    by (simp add: handle_candidate_failure_def record_failure_def split_beta sv_fields)
      (simp add: schedule_restart_def)
  ultimately show ?thesis
    using c assms(1,3) by (auto simp: record_of_known intro: candidate_failure_records)
qed

definition fail_all :: "sv_context \<Rightarrow> start_spec \<Rightarrow> (failure_kind \<times> string) list \<Rightarrow> supervisor \<Rightarrow> supervisor" where
  "fail_all cx spec fs s = foldl (\<lambda>s (kind, detail). handle_candidate_failure cx kind detail spec s) s fs"

lemma fail_all_snoc:
  "fail_all cx spec (fs @ [(k, d)]) s = handle_candidate_failure cx k d spec (fail_all cx spec fs s)"
  by (simp add: fail_all_def)

lemma fail_all_fields:
  "sv_active (fail_all cx spec fs s) = sv_active s \<and> (records_ok s \<longrightarrow> records_ok (fail_all cx spec fs s))"
  by (induction fs rule: rev_induct)
    (auto simp: fail_all_snoc sv_fields candidate_failure_records, simp_all add: fail_all_def)

lemma fail_all_count:
  assumes "records_ok s" "record_of (sv_persisted s) spec = None" "\<forall>f \<in> set fs. fst f \<noteq> Refused"
    and "fs \<noteq> []" "length fs < 2 ^ 32" "s' = fail_all cx spec fs s"
  shows "\<exists>r. record_of (sv_persisted s') spec = Some r \<and> unat (fr_failures r) = length fs
    \<and> (fr_quarantined r \<longleftrightarrow> cfg_max_failures (cx_config cx) \<le> fr_failures r)
    \<and> fr_last_failure r = fst (last fs)
    \<and> (if fr_quarantined r
       then sv_pending s' = None \<and> sv_phase s' = (if sv_active s \<noteq> None then RolledBack else Quarantined)
       else map_option pn_spec (sv_pending s') = Some spec \<and> sv_phase s' = Restarting)"
  using assms(3-6)
proof (induction fs arbitrary: s' rule: rev_induct)
  case (snoc f fs)
  obtain k d where f: "f = (k, d)" by (cases f)
  define s1 where "s1 = fail_all cx spec fs s"
  have k: "k \<noteq> Refused" and s': "s' = handle_candidate_failure cx k d spec s1"
    using snoc.prems f by (simp_all add: s1_def fail_all_snoc)
  have s1: "records_ok s1" "sv_active s1 = sv_active s"
    using fail_all_fields [of cx spec fs s] assms(1) by (simp_all add: s1_def)
  define n where "n = (case record_of (sv_persisted s1) spec of Some q \<Rightarrow> fr_failures q | None \<Rightarrow> 0)"
  have "unat n = length fs"
  proof (cases "fs = []")
    case True
    then show ?thesis using assms(2) by (simp add: n_def s1_def fail_all_def)
  next
    case False
    then show ?thesis using snoc.IH [OF _ False _ s1_def] snoc.prems by (auto simp: n_def)
  qed
  then have count: "unat (sat_add n 1) = length (fs @ [f])"
    using snoc.prems(3) by (simp add: unat_sat_add)
  obtain r where "record_of (sv_persisted s') spec = Some r" "fr_failures r = sat_add n 1"
    and "fr_quarantined r \<longleftrightarrow> cfg_max_failures (cx_config cx) \<le> fr_failures r" "fr_last_failure r = k"
    and "if fr_quarantined r
       then sv_pending s' = None \<and> sv_phase s' = (if sv_active s \<noteq> None then RolledBack else Quarantined)
       else map_option pn_spec (sv_pending s') = Some spec \<and> sv_phase s' = Restarting"
    using candidate_failure_step [OF s1(1) k s'] unfolding n_def [symmetric] s1(2) by blast
  with count f show ?case by (intro exI [of _ r]) (simp only: fst_conv last_snoc simp_thms)
qed simp

text \<open>
  C15: a wallpaper that keeps failing is given up after exactly the configured number of failures: from a clean
  record, the n-th failure counts n, schedules another start while n is below the budget and quarantines
  the wallpaper when n reaches it, whatever the failures were; and a refusal, in which the renderer found
  nothing wrong with the host but nothing to draw, never counts, is not retried and is not stored.
\<close>

theorem failure_budget:
  assumes "records_ok s" "record_of (sv_persisted s) spec = None" "\<forall>f \<in> set fs. fst f \<noteq> Refused"
    and "fs \<noteq> []" "length fs < 2 ^ 32" "s' = fail_all cx spec fs s"
  shows "\<exists>r. record_of (sv_persisted s') spec = Some r \<and> unat (fr_failures r) = length fs
    \<and> (fr_quarantined r \<longleftrightarrow> unat (cfg_max_failures (cx_config cx)) \<le> length fs)
    \<and> (if unat (cfg_max_failures (cx_config cx)) \<le> length fs
       then sv_pending s' = None \<and> sv_phase s' = (if sv_active s \<noteq> None then RolledBack else Quarantined)
       else map_option pn_spec (sv_pending s') = Some spec \<and> sv_phase s' = Restarting)
    \<and> (\<forall>detail. let s2 = handle_candidate_failure cx Refused detail spec s' in
         sv_persisted s2 = sv_persisted s' \<and> sv_disk s2 = sv_disk s' \<and> sv_pending s2 = None)"
  using fail_all_count [OF assms]
  by (auto simp: word_le_nat_alt handle_candidate_failure_def Let_def)

lemma failure_budget_witness:
  "sv_pending (fail_all sample_context sample_start [(ProcessExit, []), (FrameTimeout, [])]
      (supervisor_new fresh_state default_grants Mapping.empty)) \<noteq> None
   \<and> sv_phase (fail_all sample_context sample_start [(ProcessExit, []), (FrameTimeout, []), (ProcessExit, [])]
      (supervisor_new fresh_state default_grants Mapping.empty)) = Quarantined"
proof -
  let ?s = "supervisor_new fresh_state default_grants Mapping.empty"
  have ok: "records_ok ?s" "record_of (sv_persisted ?s) sample_start = None" "sv_active ?s = None"
    using fresh_bounded by (simp_all add: records_ok_def supervisor_new_def record_of_def fresh_state_def)
  have mx: "cfg_max_failures (cx_config sample_context) = 3" by (simp add: sample_context_def sample_config_def)
  from failure_budget [OF ok(1,2) _ _ _ refl, of "[(ProcessExit, []), (FrameTimeout, [])]" sample_context]
    failure_budget [OF ok(1,2) _ _ _ refl, of "[(ProcessExit, []), (FrameTimeout, []), (ProcessExit, [])]" sample_context]
  show ?thesis by (auto simp: mx ok)
qed

section \<open>Quarantine\<close>

lemma stop_worker_serial [sv_fields]: "sv_launch_serial (stop_worker cx w b s) = sv_launch_serial s"
  by (simp add: stop_worker_def Let_def)

lemma stop_candidate_serial [sv_fields]: "sv_launch_serial (stop_candidate cx b s) = sv_launch_serial s"
  by (simp add: stop_candidate_def sv_fields split: option.split)

lemma save_state_serial [sv_fields]: "sv_launch_serial (snd (save_state cx s)) = sv_launch_serial s"
  by (simp add: save_state_def split_beta)

lemma candidate_failure_serial [sv_fields]:
  "sv_launch_serial (handle_candidate_failure cx k d spec s) = sv_launch_serial s"
  by (simp add: handle_candidate_failure_def record_failure_def schedule_restart_def split_beta sv_fields)

lemma launch_candidate_serial: "sv_launch_serial (launch_candidate cx spec s) = sv_launch_serial s + 1"
proof -
  have "sv_launch_serial (snd (launch cx spec s)) = sv_launch_serial s + 1"
    by (simp add: launch_def Let_def asked_def split: sum.split)
  then show ?thesis
    by (simp add: launch_candidate_def split_beta candidate_failure_serial split: sum.split)
qed

lemma launch_candidate_records:
  "sv_candidate s = None \<Longrightarrow> sv_candidate (launch_candidate cx spec s) \<noteq> None \<Longrightarrow>
     sv_persisted (launch_candidate cx spec s) = sv_persisted s"
  by (auto simp: launch_candidate_def split_beta sv_fields split: sum.splits)

lemma known_cleared: "known_record spec (clear_records spec m) = None"
  using identity_neq_legacy [of spec] by (simp add: known_record_def clear_records_def)

text \<open>
  C17: a quarantined wallpaper is not started again by itself: a start of it answers without launching a
  process, stops only the candidate it replaces, leaves what is shown alone, and nothing is scheduled;
  an explicit retry first clears the record, on disk as well, and then launches exactly once. While a
  handoff is pending neither does anything.
\<close>

theorem quarantine_enforced:
  assumes "start_selected cx spec clear s = (r, s')"
  shows "(sv_retired s \<noteq> None \<longrightarrow> r = Inl HandoffPending \<and> s' = s)
    \<and> (sv_retired s = None \<and> \<not> clear \<and> record_of (sv_persisted s) spec = Some q \<and> fr_quarantined q \<longrightarrow>
         r = Inr () \<and> sv_launch_serial s' = sv_launch_serial s
         \<and> sv_children s' = sv_children (stop_candidate cx False s)
         \<and> sv_active s' = sv_active s \<and> sv_candidate s' = None \<and> sv_pending s' = None
         \<and> sv_requested s' = Some spec \<and> sv_last_failure s' = Some (fr_last_failure q, fr_last_detail q)
         \<and> sv_phase s' = (if sv_active s \<noteq> None then RolledBack else Quarantined))
    \<and> (sv_retired s = None \<and> (clear \<longrightarrow> r = Inr ())
         \<and> (\<not> clear \<longrightarrow> \<not> pred_option fr_quarantined (record_of (sv_persisted s) spec)) \<longrightarrow>
         r = Inr () \<and> sv_launch_serial s' = sv_launch_serial s + 1
         \<and> (clear \<and> sv_candidate s' \<noteq> None \<longrightarrow> record_of (sv_persisted s') spec = None))"
proof -
  define s1 where "s1 = (stop_candidate cx False s)\<lparr>sv_pending := None, sv_restart_count := 0, sv_last_failure := None\<rparr>"
  define s2 where "s2 = snd (save_state cx (s1\<lparr>sv_persisted := (sv_persisted s1)\<lparr>st_records :=
      clear_records spec (st_records (sv_persisted s1))\<rparr>\<rparr>))"
  have s1: "sv_launch_serial s1 = sv_launch_serial s" "sv_candidate s1 = None" "sv_active s1 = sv_active s"
    "record_of (sv_persisted s1) spec = record_of (sv_persisted s) spec"
    "sv_children s1 = sv_children (stop_candidate cx False s)"
    by (simp_all add: s1_def sv_fields record_of_known)
  have s2: "sv_launch_serial s2 = sv_launch_serial s" "sv_candidate s2 = None"
    "record_of (sv_persisted s2) spec = None"
    using s1 by (simp_all add: s2_def sv_fields record_of_known known_cleared)
  have l2: "sv_candidate (launch_candidate cx spec (s2\<lparr>sv_requested := Some spec\<rparr>)) \<noteq> None \<Longrightarrow>
      record_of (sv_persisted (launch_candidate cx spec (s2\<lparr>sv_requested := Some spec\<rparr>))) spec = None"
    using s2 launch_candidate_records [of "s2\<lparr>sv_requested := Some spec\<rparr>" cx spec] by simp
  show ?thesis
  proof (cases "sv_retired s = None \<and> clear")
    case True
    then have "(r, s') = (case fst (save_state cx (s1\<lparr>sv_persisted := (sv_persisted s1)\<lparr>st_records :=
                      clear_records spec (st_records (sv_persisted s1))\<rparr>\<rparr>)) of
        Inl e \<Rightarrow> (Inl (SaveFailed e), s2)
      | Inr _ \<Rightarrow> (Inr (), launch_candidate cx spec (s2\<lparr>sv_requested := Some spec\<rparr>)))"
      using assms by (simp add: start_selected_def s1_def [symmetric] s2_def Let_def split_beta split: sum.splits)
    then show ?thesis
      using True l2 s2 by (auto simp: launch_candidate_serial split: sum.splits)
  next
    case False
    have r: "sv_retired s = None \<Longrightarrow> (r, s') = (case record_of (sv_persisted s) spec of
        Some r \<Rightarrow>
          if fr_quarantined r
          then (Inr (), s1\<lparr>sv_last_failure := Some (fr_last_failure r, fr_last_detail r), sv_requested := Some spec,
                 sv_phase := (if sv_active s \<noteq> None then RolledBack else Quarantined)\<rparr>)
          else (Inr (), launch_candidate cx spec (s1\<lparr>sv_requested := Some spec\<rparr>))
      | None \<Rightarrow> (Inr (), launch_candidate cx spec (s1\<lparr>sv_requested := Some spec\<rparr>)))"
      using assms False s1
      by (cases "record_of (sv_persisted s) spec") (auto simp: start_selected_def s1_def [symmetric] Let_def)
    have pending: "sv_pending s1 = None" by (simp add: s1_def)
    show ?thesis
    proof (cases "sv_retired s = None")
      case True
      then show ?thesis
        using False r s1 pending by (auto simp: launch_candidate_serial split: option.splits if_splits)
    next
      case False
      then show ?thesis using assms by (auto simp: start_selected_def)
    qed
  qed
qed

definition sample_quarantined :: supervisor where
  "sample_quarantined = (supervisor_new (fresh_state\<lparr>st_records := Mapping.update (spec_identity sample_start)
     ((fresh_record ProcessExit sample_start)\<lparr>fr_quarantined := True\<rparr>) Mapping.empty\<rparr>)
     default_grants Mapping.empty)"

lemma quarantine_enforced_witness:
  "sv_phase (snd (start_selected sample_context sample_start False sample_quarantined)) = Quarantined
   \<and> sv_launch_serial (snd (start_selected sample_context sample_start False sample_quarantined)) = 0"
  using quarantine_enforced [where cx = sample_context and spec = sample_start and clear = False and s = sample_quarantined
      and q = "(fresh_record ProcessExit sample_start)\<lparr>fr_quarantined := True\<rparr>", OF surjective_pairing]
  by (simp add: sample_quarantined_def supervisor_new_def record_of_def)

section \<open>Input\<close>

text \<open>What forwarding a message may change: the pipes of the worker that is shown.\<close>

definition same_but_pipes :: "active_worker \<Rightarrow> active_worker \<Rightarrow> bool" where
  "same_but_pipes w v \<longleftrightarrow>
     v = w\<lparr>wk_pending_input := wk_pending_input v, wk_input_coalesced := wk_input_coalesced v,
          wk_input_sequence := wk_input_sequence v, wk_pointer_inside := wk_pointer_inside v,
          wk_pointer_x := wk_pointer_x v, wk_pointer_y := wk_pointer_y v,
          wk_pending_audio := wk_pending_audio v, wk_audio_coalesced := wk_audio_coalesced v,
          wk_pending_media := wk_pending_media v, wk_media_coalesced := wk_media_coalesced v\<rparr>"

definition input_target_ok :: "supervisor \<Rightarrow> supervisor \<Rightarrow> bool" where
  "input_target_ok s s' \<longleftrightarrow>
     s' = s\<lparr>sv_active := sv_active s', sv_audio_grant_dropped := sv_audio_grant_dropped s', sv_events := sv_events s'\<rparr>
     \<and> rel_option same_but_pipes (sv_active s) (sv_active s')"

definition input_command :: "sv_command \<Rightarrow> u64 option" where
  "input_command cmd = (case cmd of CmdPointer g _ _ _ _ \<Rightarrow> Some g | CmdAudio g _ \<Rightarrow> Some g | CmdMedia g _ \<Rightarrow> Some g | _ \<Rightarrow> None)"

lemma same_but_pipes_refl [simp]: "same_but_pipes w w" by (simp add: same_but_pipes_def)

lemma input_target_refl: "input_target_ok s s"
  by (simp add: input_target_ok_def option.rel_refl)

lemma pointer_target: "input_target_ok s (snd (forward_pointer_input cx g ph x y b s))"
  by (auto simp: forward_pointer_input_def Let_def split_beta input_target_refl input_target_ok_def same_but_pipes_def
      asked_def option.rel_refl split: sum.splits option.splits)

lemma audio_target: "input_target_ok s (snd (forward_audio_frame cx g f s))"
  by (auto simp: forward_audio_frame_def Let_def split_beta input_target_refl input_target_ok_def same_but_pipes_def
      asked_def option.rel_refl split: sum.splits option.splits)

lemma media_target: "input_target_ok s (snd (forward_media_state cx g m s))"
  by (auto simp: forward_media_state_def Let_def split_beta input_target_refl input_target_ok_def same_but_pipes_def
      asked_def option.rel_refl split: sum.splits option.splits)

text \<open>
  C18: pointer, audio and media input reaches only the worker the display shows: a message stamped with
  generation 0 or with any generation but the current one is refused and changes nothing, and an accepted
  one changes nothing but the pipes and the pointer of the active worker; without the audio grant of the
  shown wallpaper no audio reaches its worker and only the drop counter grows; a pointer message that is
  accepted carries the next sequence number, which never wraps around.
\<close>

theorem input_gated:
  assumes "input_command cmd = Some g" "handle_command cx cmd s = (reply, s')"
  shows "(g = 0 \<or> g \<noteq> sv_display_generation s \<longrightarrow> reply = ReplyStatus (Inl StaleGeneration) \<and> s' = s)
    \<and> (sv_active s = None \<longrightarrow> s' = s) \<and> input_target_ok s s'
    \<and> (\<forall>w f. sv_active s = Some w \<and> cmd = CmdAudio g f
          \<and> \<not> gr_audio (grant_of (sv_grants s) (ss_wallpaper_id (wk_spec w))) \<longrightarrow> sv_active s' = Some w)
    \<and> (\<forall>w ph x y b. sv_active s = Some w \<and> cmd = CmdPointer g ph x y b \<and> reply = ReplyStatus (Inr (supervisor_status cx s'))
          \<longrightarrow> map_option (unat \<circ> wk_input_sequence) (sv_active s') = Some (Suc (unat (wk_input_sequence w))))"
proof -
  obtain r where r: "reply = ReplyStatus (rbind r (\<lambda>_. Inr (supervisor_status cx s')))"
    and op: "(\<exists>ph x y b. cmd = CmdPointer g ph x y b \<and> forward_pointer_input cx g ph x y b s = (r, s'))
      \<or> (\<exists>f. cmd = CmdAudio g f \<and> forward_audio_frame cx g f s = (r, s'))
      \<or> (\<exists>m. cmd = CmdMedia g m \<and> forward_media_state cx g m s = (r, s'))"
    using assms by (cases cmd) (auto simp: input_command_def status_reply_def split: prod.splits)
  have "input_target_ok s s'"
    using op pointer_target [of s cx g] audio_target [of s cx g] media_target [of s cx g] by (metis snd_conv)
  moreover have "r = Inl StaleGeneration \<and> s' = s" if "g = 0 \<or> g \<noteq> sv_display_generation s"
    using op that
    by (auto simp: forward_pointer_input_def forward_audio_frame_def forward_media_state_def current_generation_def)
  moreover have "s' = s" if "sv_active s = None"
    using op that
    by (auto simp: forward_pointer_input_def forward_audio_frame_def forward_media_state_def split: if_splits)
  moreover have "sv_active s' = Some w"
    if "sv_active s = Some w" "cmd = CmdAudio g f" "\<not> gr_audio (grant_of (sv_grants s) (ss_wallpaper_id (wk_spec w)))"
    for w f
    using op that by (auto simp: forward_audio_frame_def split: if_splits)
  moreover have "map_option (unat \<circ> wk_input_sequence) (sv_active s') = Some (Suc (unat (wk_input_sequence w)))"
    if "sv_active s = Some w" "cmd = CmdPointer g ph x y b" "r = Inr ()" for w ph x y b
    using op that
    by (auto simp: forward_pointer_input_def Let_def split_beta result_simps checked_add_Some
        split: if_splits sum.splits)
  ultimately show ?thesis using r by (cases r) (auto simp: result_simps)
qed

lemma input_gated_witness:
  "handle_command sample_context (CmdAudio 1 sample_audio) sample_handoff = (ReplyStatus (Inl StaleGeneration), sample_handoff)"
  using input_gated [where cmd = "CmdAudio 1 sample_audio" and g = 1 and cx = sample_context and s = sample_handoff,
      OF _ surjective_pairing]
  by (simp add: input_command_def prod_eq_iff sample_handoff_def supervisor_new_def)

end
