(* ===== verification/Supervisor_Display.thy ===== *)
theory Supervisor_Display
  imports Supervisor_Inv
begin

text \<open>
  What the display may rely on, as an abstract machine of three fields: the worker it shows, the worker it
  may still be showing while an acknowledgement is awaited, and the generation that stamps them. Every
  step of the supervisor, a command with the tick after it, is a sequence of steps of this machine.
\<close>

section \<open>The abstract display\<close>

record display =
  ds_current :: "nat option"
  ds_previous :: "nat option"
  ds_generation :: u64

text \<open>
  A promotion takes a new worker under the next generation, from nothing or beside the worker shown before;
  a commit lets go of the previous worker; a rollback returns to it under yet another generation; a loss
  leaves nothing on the screen.
\<close>

inductive display_step :: "display \<Rightarrow> display \<Rightarrow> bool" where
  Promote: "ds_previous d = None \<Longrightarrow>
    display_step d \<lparr>ds_current = Some w, ds_previous = ds_current d,
      ds_generation = next_generation (ds_generation d)\<rparr>"
| Commit: "ds_current d = Some w \<Longrightarrow> ds_previous d = Some v \<Longrightarrow> display_step d (d\<lparr>ds_previous := None\<rparr>)"
| Rollback: "ds_current d = Some w \<Longrightarrow> ds_previous d = Some v \<Longrightarrow>
    display_step d \<lparr>ds_current = Some v, ds_previous = None, ds_generation = next_generation (ds_generation d)\<rparr>"
| Lose: "ds_previous d = None \<Longrightarrow> display_step d (d\<lparr>ds_current := None\<rparr>)"

inductive_cases display_stepE: "display_step d d'"

text \<open>At most so many steps.\<close>

definition display_within :: "nat \<Rightarrow> display \<Rightarrow> display \<Rightarrow> bool" where
  "display_within k d e \<longleftrightarrow> (\<exists>n \<le> k. (display_step ^^ n) d e)"

lemma within_refl [simp]: "display_within k d d"
  unfolding display_within_def by (intro exI [of _ 0]) simp

lemma within_one: "display_step d e \<Longrightarrow> display_within 1 d e"
  unfolding display_within_def by (intro exI [of _ 1]) auto

lemmas within_one' = within_one [unfolded One_nat_def]

lemma within_trans: "display_within j d e \<Longrightarrow> display_within k e f \<Longrightarrow> display_within (j + k) d f"
  unfolding display_within_def by (metis add_mono relcomppI relpowp_add)

lemma within_mono: "display_within j d e \<Longrightarrow> j \<le> k \<Longrightarrow> display_within k d e"
  unfolding display_within_def by (meson order.trans)

text \<open>The display of a state of the supervisor.\<close>

definition display_of :: "supervisor \<Rightarrow> display" where
  "display_of s = \<lparr>ds_current = map_option wk_pid (sv_active s),
     ds_previous = map_option (wk_pid \<circ> rw_worker) (sv_retired s), ds_generation = sv_display_generation s\<rparr>"

lemma display_of_eq:
  "map_option wk_pid (sv_active t) = map_option wk_pid (sv_active s) \<Longrightarrow>
   map_option (wk_pid \<circ> rw_worker) (sv_retired t) = map_option (wk_pid \<circ> rw_worker) (sv_retired s) \<Longrightarrow>
   sv_display_generation t = sv_display_generation s \<Longrightarrow> display_of t = display_of s"
  by (simp add: display_of_def)

section \<open>Steps of the supervisor as steps of the display\<close>

lemma lose_step:
  "sv_retired s = None \<Longrightarrow> sv_retired t = None \<Longrightarrow> sv_active t = None \<Longrightarrow>
   sv_display_generation t = sv_display_generation s \<Longrightarrow> display_step (display_of s) (display_of t)"
  using display_step.Lose [of "display_of s"] by (simp add: display_of_def)

lemma commit_step:
  "sv_retired s = Some r \<Longrightarrow> sv_active s = Some w \<Longrightarrow> sv_retired t = None \<Longrightarrow> sv_active t = sv_active s \<Longrightarrow>
   sv_display_generation t = sv_display_generation s \<Longrightarrow> display_step (display_of s) (display_of t)"
  using display_step.Commit [of "display_of s"] by (simp add: display_of_def)

lemma rollback_step:
  "sv_retired s = Some r \<Longrightarrow> sv_active s = Some w \<Longrightarrow> sv_retired t = None \<Longrightarrow> sv_active t = Some (rw_worker r) \<Longrightarrow>
   sv_display_generation t = next_generation (sv_display_generation s) \<Longrightarrow>
   display_step (display_of s) (display_of t)"
  using display_step.Rollback [of "display_of s"] by (simp add: display_of_def)

lemma promote_step:
  "sv_retired s = None \<Longrightarrow> sv_active t = Some w \<Longrightarrow>
   map_option (wk_pid \<circ> rw_worker) (sv_retired t) = map_option wk_pid (sv_active s) \<Longrightarrow>
   sv_display_generation t = next_generation (sv_display_generation s) \<Longrightarrow>
   display_step (display_of s) (display_of t)"
  using display_step.Promote [of "display_of s" "wk_pid w"] by (simp add: display_of_def)

lemma candidate_failure_display [simp]:
  "display_of (handle_candidate_failure cx kind detail spec s) = display_of s"
  by (rule display_of_eq) (simp_all add: sv_fields)

lemma launch_candidate_display [simp]: "display_of (launch_candidate cx spec s) = display_of s"
  unfolding launch_candidate_def split_beta
  by (cases "fst (launch cx spec s)") (simp_all add: display_of_def sv_fields)

lemma stop_candidate_display [simp]: "display_of (stop_candidate cx b s) = display_of s"
  by (rule display_of_eq) (simp_all add: sv_fields)

lemma asked_display [simp]: "display_of (asked s) = display_of s"
  by (simp add: display_of_def)

lemma save_state_display [simp]: "display_of (snd (save_state cx s)) = display_of s"
  by (simp add: display_of_def sv_fields)

lemma persist_good_display [simp]: "display_of (snd (persist_good cx spec snap s)) = display_of s"
  by (simp add: display_of_def sv_fields)

lemma display_updates [simp]:
  "display_of (s\<lparr>sv_persisted := p\<rparr>) = display_of s" "display_of (s\<lparr>sv_pending := q\<rparr>) = display_of s"
  "display_of (s\<lparr>sv_candidate := c\<rparr>) = display_of s" "display_of (s\<lparr>sv_requested := q'\<rparr>) = display_of s"
  "display_of (s\<lparr>sv_phase := ph\<rparr>) = display_of s" "display_of (s\<lparr>sv_restart_count := n\<rparr>) = display_of s"
  "display_of (s\<lparr>sv_last_failure := f\<rparr>) = display_of s" "display_of (s\<lparr>sv_grants := g\<rparr>) = display_of s"
  "display_of (s\<lparr>sv_disk := k\<rparr>) = display_of s" "display_of (s\<lparr>sv_audio_grant_dropped := m\<rparr>) = display_of s"
  by (simp_all add: display_of_def)

section \<open>Commands\<close>

lemma start_display: "display_of (snd (start_selected cx spec clear s)) = display_of s"
  by (auto simp: start_selected_def Let_def split_beta split: sum.split option.split)

lemma stop_display:
  assumes "sv_inv s"
  shows "display_within 2 (display_of s) (display_of (snd (stop_selected cx s)))"
proof -
  define t where "t = snd (stop_selected cx s)"
  have t: "sv_active t = None" "sv_retired t = None" "sv_display_generation t = sv_display_generation s"
    by (simp_all add: t_def stop_selected_def split_beta stop_all_def stop_retired_def sv_fields split: option.split)
  define u where "u = s\<lparr>sv_retired := None\<rparr>"
  have "display_within 1 (display_of s) (display_of u)"
  proof (cases "sv_retired s")
    case None
    then show ?thesis by (simp add: u_def display_of_def)
  next
    case (Some r)
    then obtain w where "sv_active s = Some w" using assms by (auto simp: inv_defs)
    with Some show ?thesis by (intro within_one commit_step [of s r w u]) (simp_all add: u_def)
  qed
  moreover have "display_within 1 (display_of u) (display_of t)"
    by (intro within_one lose_step) (simp_all add: u_def t)
  ultimately show ?thesis using within_trans [of 1 _ _ 1] by (simp add: t_def numeral_2_eq_2)
qed

lemma acknowledge_display_steps:
  assumes "sv_inv s"
  shows "display_within 1 (display_of s) (display_of (snd (acknowledge_display cx g s)))"
proof (cases "sv_retired s")
  case None
  then show ?thesis by (simp add: acknowledge_display_def Let_def go_live_def)
next
  case (Some r)
  then obtain w where w: "sv_active s = Some w" using assms by (auto simp: inv_defs)
  let ?p = "persist_good cx (wk_spec w) (rw_snapshot r) (s\<lparr>sv_retired := None\<rparr>)"
  let ?t = "go_live (clear_success_record cx (wk_spec w) (stop_worker cx (rw_worker r) True (snd ?p)))"
  have "display_step (display_of s) (display_of ?t)"
    by (rule commit_step [OF Some w]) (simp_all add: go_live_def sv_fields)
  moreover have "display_of ((snd ?p)\<lparr>sv_retired := Some r\<rparr>) = display_of s"
    using Some by (simp add: display_of_def sv_fields)
  ultimately show ?thesis
    using Some w by (auto simp: acknowledge_display_def Let_def split_beta within_one' split: sum.split)
qed

lemma forward_display:
  "display_of (snd (forward_pointer_input cx g ph x y b s)) = display_of s"
  "display_of (snd (forward_audio_frame cx g f s)) = display_of s"
  "display_of (snd (forward_media_state cx g m s)) = display_of s"
  by (auto simp: forward_pointer_input_def forward_audio_frame_def forward_media_state_def display_of_def
      Let_def split_beta split: sum.split option.split)

lemma command_display:
  "sv_inv s \<Longrightarrow> display_within 2 (display_of s) (display_of (snd (handle_command cx cmd s)))"
  by (cases cmd) (simp_all add: status_reply_def split_beta start_display stop_display within_mono [OF acknowledge_display_steps]
      forward_display permissions_set_def)

section \<open>The tick\<close>

lemma tick_service_display: "display_of (tick_service cx s) = display_of s"
  by (auto simp: tick_service_def display_of_def service_keeps split: option.split)

lemma tick_pending_display: "display_of (tick_pending cx s) = display_of s"
  by (simp add: tick_pending_def split: option.split)

lemma handoff_timeout_display:
  assumes "sv_inv s"
  shows "display_within 1 (display_of s) (display_of (complete_handoff_timeout cx s))"
proof (cases "sv_retired s")
  case None
  then show ?thesis by (simp add: complete_handoff_timeout_def)
next
  case (Some r)
  then obtain w where w: "sv_active s = Some w" using assms by (auto simp: inv_defs)
  define p where "p = persist_good cx (wk_spec w) (rw_snapshot r) (s\<lparr>sv_retired := None\<rparr>)"
  let ?t = "(clear_success_record cx (wk_spec w) (stop_worker cx (rw_worker r) True (snd p)))\<lparr>sv_phase := Live\<rparr>"
  let ?u = "(stop_active cx False (snd p))\<lparr>sv_active := Some (rw_worker r),
      sv_display_generation := next_generation (sv_display_generation (stop_active cx False (snd p)))\<rparr>"
  have "display_step (display_of s) (display_of ?t)"
    by (rule commit_step [OF Some w]) (simp_all add: p_def sv_fields)
  moreover have "display_step (display_of s) (display_of ?u)"
    by (rule rollback_step [OF Some w]) (simp_all add: p_def sv_fields)
  ultimately show ?thesis
    using Some w
    by (auto simp: complete_handoff_timeout_def p_def [symmetric] Let_def split_beta within_one' split: sum.split)
qed

lemma tick_handoff_display:
  "sv_inv s \<Longrightarrow> display_within 1 (display_of s) (display_of (tick_handoff cx s))"
  using handoff_timeout_display [OF sv_inv_asked, of s cx]
  by (auto simp: tick_handoff_def split: option.split)

lemma schedule_restart_display [simp]: "display_of (schedule_restart cx spec s) = display_of s"
  by (simp add: display_of_def sv_fields)

lemma record_failure_display [simp]: "display_of (snd (record_failure cx kind detail spec s)) = display_of s"
  by (simp add: display_of_def sv_fields)

lemma active_failure_display:
  assumes "sv_active s = Some w"
  shows "display_step (display_of s) (display_of (handle_active_failure cx kind detail s))"
proof (cases "sv_retired s")
  case None
  let ?s = "stop_worker cx w False (s\<lparr>sv_active := None\<rparr>)"
  have "display_of (handle_active_failure cx kind detail s) = display_of ?s"
    using None assms by (simp add: handle_active_failure_def Let_def split_beta sv_fields)
  moreover have "display_step (display_of s) (display_of ?s)"
    by (rule lose_step [OF None]) (simp_all add: None sv_fields)
  ultimately show ?thesis by simp
next
  case (Some r)
  let ?s = "stop_worker cx w False (s\<lparr>sv_active := None\<rparr>)"
  let ?t = "?s\<lparr>sv_retired := None, sv_active := Some (rw_worker r),
      sv_display_generation := next_generation (sv_display_generation ?s), sv_requested := Some (wk_spec w)\<rparr>"
  have "display_of (handle_active_failure cx kind detail s) = display_of ?t"
    using Some assms by (simp add: handle_active_failure_def Let_def split_beta sv_fields)
  moreover have "display_step (display_of s) (display_of ?t)"
    by (rule rollback_step [OF Some assms]) (simp_all add: sv_fields)
  ultimately show ?thesis by simp
qed

lemma tick_active_display: "display_within 1 (display_of s) (display_of (tick_active cx s))"
proof (cases "sv_active s")
  case (Some w0)
  obtain w obs where i: "inspect_worker (cx_config cx) (os_inspect (answer cx s)) w0 = (w, obs)"
    by (cases "inspect_worker (cx_config cx) (os_inspect (answer cx s)) w0") simp
  define s1 where "s1 = asked s\<lparr>sv_active := Some w\<rparr>"
  have s1: "display_of s1 = display_of s" and w: "sv_active s1 = Some w"
    using inspect_keeps [OF i] Some by (simp_all add: s1_def display_of_def same_worker_def)
  have saved: "display_of ((asked s1)\<lparr>sv_active := Some (w\<lparr>wk_last_snapshot_saved := t\<rparr>)\<rparr>) = display_of s" for t
    using s1 w by (simp add: display_of_def)
  show ?thesis
    using active_failure_display [OF w] Some i
    by (auto simp: tick_active_def s1_def [symmetric] s1 saved Let_def within_one' split: option.split worker_observation.split)
qed (simp add: tick_active_def)

lemma promote_display:
  assumes "sv_retired s = None"
  shows "display_within 1 (display_of s) (display_of (promote_candidate cx snap s))"
proof (cases "sv_candidate s")
  case (Some w)
  show ?thesis
  proof (cases "sv_active s")
    case None
    let ?w = "w\<lparr>wk_last_snapshot_saved := Some (os_now (answer cx s))\<rparr>"
    define p where "p = persist_good cx (wk_spec w) snap (asked s\<lparr>sv_candidate := None, sv_active := None\<rparr>)"
    have "display_of (stop_worker cx ?w False (snd p)) = display_of s"
      using None assms by (simp add: display_of_def p_def sv_fields)
    moreover have "display_step (display_of s) (display_of (install_promoted cx ?w None snap (snd p)))"
      by (rule promote_step) (use assms None in \<open>simp_all add: install_promoted_def Let_def p_def sv_fields\<close>)
    ultimately show ?thesis
      using Some None
      by (auto simp: promote_candidate_def p_def [symmetric] Let_def split_beta within_one' split: sum.split)
  next
    case active: (Some v)
    have "display_step (display_of s) (display_of (promote_candidate cx snap s))"
      by (rule promote_step [OF assms])
        (use Some active in \<open>simp_all add: promote_candidate_def install_promoted_def Let_def\<close>)
    then show ?thesis by (rule within_one)
  qed
qed (simp add: promote_candidate_def)

lemma tick_candidate_display:
  assumes "sv_inv s"
  shows "display_within 1 (display_of s) (display_of (tick_candidate cx s))"
proof (cases "sv_candidate s")
  case (Some w0)
  obtain w obs where i: "inspect_worker (cx_config cx) (os_inspect (answer cx s)) w0 = (w, obs)"
    by (cases "inspect_worker (cx_config cx) (os_inspect (answer cx s)) w0") simp
  have r: "sv_retired s = None" using assms Some by (cases "sv_retired s") (auto simp: inv_defs)
  define s1 where "s1 = asked s\<lparr>sv_candidate := Some w\<rparr>"
  have s1: "display_of s1 = display_of s" "sv_retired (asked s1) = None" using r by (simp_all add: s1_def)
  from promote_display [OF s1(2)] s1(1) show ?thesis
    using Some i
    by (auto simp: tick_candidate_def s1_def [symmetric] s1 Let_def split: option.split worker_observation.split)
qed (simp add: tick_candidate_def)

lemma tick_display:
  assumes "sv_inv s"
  shows "display_within 3 (display_of s) (display_of (tick cx s))"
proof -
  let ?h = "tick_handoff cx (tick_service cx s)"
  have h: "sv_inv ?h" using assms by (simp add: tick_handoff_inv tick_service_inv)
  have 1: "display_within 1 (display_of s) (display_of ?h)"
    using tick_handoff_display [OF tick_service_inv [OF assms]] by (metis tick_service_display)
  have 2: "display_within 1 (display_of ?h) (display_of (tick_active cx (tick_pending cx ?h)))"
    using tick_active_display by (metis tick_pending_display)
  have 3: "display_within 1 (display_of (tick_active cx (tick_pending cx ?h))) (display_of (tick cx s))"
    unfolding tick_def by (rule tick_candidate_display) (simp add: h tick_active_inv tick_pending_inv)
  from within_trans [OF within_trans [OF 1 2] 3] show ?thesis by (simp add: numeral_3_eq_3)
qed

lemma supervisor_step_display:
  assumes "sv_inv s"
  shows "display_within 5 (display_of s) (display_of (supervisor_step cx s cmd))"
  using within_trans [OF command_display [OF assms] tick_display [OF handle_command_inv [OF assms]]]
  by (simp add: supervisor_step_def)

lemma serve_display:
  "sv_inv s \<Longrightarrow> display_within (5 * length cmds) (display_of s) (display_of (supervisor_serve cx cmds s))"
proof (induction cmds arbitrary: s)
  case (Cons cmd cmds)
  from within_trans [OF supervisor_step_display [OF Cons.prems] Cons.IH [OF supervisor_step_inv [OF Cons.prems]]]
  show ?case by (simp add: supervisor_serve_def)
qed (simp add: supervisor_serve_def)

section \<open>What the abstract machine promises\<close>

text \<open>The generations go round through all the numbers but 0, so one recurs only after \<open>2 ^ 64 - 1\<close> changes.\<close>

definition generations :: nat where "generations = 2 ^ 64 - 1"

lemma unat_last: "unat (- 1 :: u64) = generations"
  by (simp add: unsigned_minus_1_eq_mask mask_eq_exp_minus_1 generations_def)

lemma unat_next_generation: "unat (next_generation g) = Suc (unat g mod generations)"
proof (cases "g = - 1")
  case True
  then show ?thesis using unat_last by (simp add: next_generation_def)
next
  case False
  then have "unat g \<noteq> generations" unfolding unat_last [symmetric] by (simp add: word_unat_eq_iff)
  moreover have "unat g < 2 ^ 64" using unsigned_less [of g] by simp
  ultimately have "unat g < generations" by (simp add: generations_def)
  moreover from this have "unat (g + 1) = Suc (unat g)"
    by (simp add: generations_def unat_word_ariths)
  ultimately show ?thesis by (simp add: next_generation_def max_def word_le_nat_alt)
qed

lemma unat_generations:
  "unat ((next_generation ^^ Suc n) g) = Suc ((unat g + n) mod generations)"
  by (induction n) (simp_all add: unat_next_generation mod_Suc_eq)

lemma generation_recurs: "0 < n \<Longrightarrow> n < generations \<Longrightarrow> (next_generation ^^ n) g \<noteq> g"
proof
  assume n: "0 < n" "n < generations" and eq: "(next_generation ^^ n) g = g"
  then obtain m where m: "n = Suc m" by (cases n) auto
  have e: "Suc ((unat g + m) mod generations) = unat g"
    using unat_generations [of m g] eq m by simp
  then have "(unat g + m) mod generations + n = unat g + m" using m by simp
  then have "n = generations * ((unat g + m) div generations)"
    by (metis add_left_cancel mod_mult_div_eq mult.commute)
  then show False using n by (cases "(unat g + m) div generations") auto
qed

lemma step_generation:
  "display_step d e \<Longrightarrow> (ds_generation e = ds_generation d \<and> ds_current e \<in> {ds_current d, None})
     \<or> ds_generation e = next_generation (ds_generation d)"
  by (erule display_stepE) auto

lemma steps_generation:
  "(display_step ^^ n) d e \<Longrightarrow> \<exists>k \<le> n. ds_generation e = (next_generation ^^ k) (ds_generation d)
     \<and> (k = 0 \<longrightarrow> ds_current e \<in> {ds_current d, None})"
proof (induction n arbitrary: e)
  case (Suc n)
  then obtain c where c: "(display_step ^^ n) d c" "display_step c e" by (auto elim: relpowp_Suc_E)
  from Suc.IH [OF c(1)] obtain k where "k \<le> n" "ds_generation c = (next_generation ^^ k) (ds_generation d)"
    "k = 0 \<longrightarrow> ds_current c \<in> {ds_current d, None}" by blast
  with step_generation [OF c(2)] show ?case
    by (elim disjE) (intro exI [of _ k], force, intro exI [of _ "Suc k"], simp)
qed (intro exI [of _ 0], simp)

text \<open>
  C1: the supervisor refines the abstract display: over any run it goes through at most five of its steps
  for each command, so what the screen shows changes only by a promotion under a new generation, by a
  commit, by a rollback to the previous worker under a new generation, or by the loss of the worker; and,
  short of \<open>2 ^ 64 - 1\<close> changes, a generation stands for one worker: when it is the same at two moments,
  the same worker is shown at both or it is gone.
\<close>

theorem supervisor_refines_display:
  assumes "records_bounded (st_records p)" "s = supervisor_serve cx cmds (supervisor_new p g d)"
    and "s' = supervisor_serve cx cmds' s"
  shows "display_within (5 * length cmds') (display_of s) (display_of s')
    \<and> (5 * length cmds' < 2 ^ 64 - 1 \<and> sv_display_generation s' = sv_display_generation s \<longrightarrow>
         map_option wk_pid (sv_active s') \<in> {map_option wk_pid (sv_active s), None})"
proof -
  have "sv_inv s" unfolding assms(2) by (rule supervisor_serve_inv [OF supervisor_new_inv [OF assms(1)]])
  then have w: "display_within (5 * length cmds') (display_of s) (display_of s')"
    unfolding assms(3) by (rule serve_display)
  then obtain n where n: "n \<le> 5 * length cmds'" "(display_step ^^ n) (display_of s) (display_of s')"
    by (auto simp: display_within_def)
  from steps_generation [OF n(2)] obtain k where k: "k \<le> n"
    "sv_display_generation s' = (next_generation ^^ k) (sv_display_generation s)"
    "k = 0 \<longrightarrow> map_option wk_pid (sv_active s') \<in> {map_option wk_pid (sv_active s), None}"
    by (auto simp: display_of_def)
  have "k = 0" if "5 * length cmds' < generations" "sv_display_generation s' = sv_display_generation s"
    using generation_recurs [of k "sv_display_generation s"] that n k by fastforce
  with w k show ?thesis unfolding generations_def by blast
qed

lemma supervisor_refines_display_witness:
  "display_within 10 \<lparr>ds_current = None, ds_previous = None, ds_generation = 0\<rparr>
     (display_of (supervisor_serve sample_context [CmdStart sample_start, CmdTimeout]
        (supervisor_serve sample_context [] (supervisor_new fresh_state default_grants Mapping.empty))))"
  using supervisor_refines_display [OF fresh_bounded refl refl,
      where cx = sample_context and cmds = "[]" and cmds' = "[CmdStart sample_start, CmdTimeout]"]
  by (simp add: supervisor_serve_def display_of_def supervisor_new_def)

end
