(* ===== verification/Apply_Store.thy ===== *)
theory Apply_Store
  imports Supervisor_Config Grants
begin

text \<open>
  \<open>crates/kwe-daemon/src/apply.rs\<close>, the assignments store: which wallpaper was applied on each output and
  the configuration it replaced. The file \<open>assignments-v1.json\<close> lives in a private directory (\<open>Persist\<close>);
  \<open>serde\_json\<close> is a parameter, as are the answers of the system calls of a load and of a write.
\<close>

section \<open>Data\<close>

definition assignments_file :: string where "assignments_file = ''assignments-v1.json''"
definition max_assigned_outputs :: nat where "max_assigned_outputs = 16"
definition max_assignment_bytes :: nat where "max_assignment_bytes = 1024 * 1024"
definition max_content_chars :: nat where "max_content_chars = 4096"
definition max_image_chars :: nat where "max_image_chars = 4096"

record previous_wallpaper =
  pw_wallpaper_plugin :: string
  pw_config_group :: "string list"
  pw_image :: "string option"

record assignment =
  an_wallpaper_id :: string
  an_kind :: renderer_kind
  an_content :: string
  an_width :: u32
  an_height :: u32
  an_fps :: u32
  an_scaling :: scaling_mode
  an_capability_limitations :: "string list"
  an_applied_at :: u64
  an_previous :: "previous_wallpaper option"

record persisted_assignments =
  pa_schema_version :: u32
  pa_outputs :: "(string, assignment) mapping"

definition default_assignments :: persisted_assignments where
  "default_assignments = \<lparr>pa_schema_version = 1, pa_outputs = Mapping.empty\<rparr>"

datatype assignment_error =
    AsOutput | AsWallpaperId | AsKind | AsContent | AsDimensions | AsFps
  | AsPlugin | AsGroupCount | AsGroupPart | AsImage
  | AsTooMany | AsTooLarge | AsWrite persist_error

definition validate_previous :: "previous_wallpaper \<Rightarrow> (assignment_error, unit) result" where
  "validate_previous p =
     rbind (fail_if (\<not> validate_identity_part (pw_wallpaper_plugin p)) AsPlugin) (\<lambda>_.
     rbind (fail_if (pw_config_group p = [] \<or> 4 < length (pw_config_group p)) AsGroupCount) (\<lambda>_.
     rbind (fail_if (\<not> list_all validate_identity_part (pw_config_group p)) AsGroupPart) (\<lambda>_.
     case pw_image p of
       None \<Rightarrow> Inr ()
     | Some i \<Rightarrow> fail_if (i = [] \<or> max_image_chars < length i) AsImage)))"

definition validate_assignment :: "string \<Rightarrow> assignment \<Rightarrow> (assignment_error, unit) result" where
  "validate_assignment output_name a =
     rbind (fail_if (\<not> validate_identity_part output_name) AsOutput) (\<lambda>_.
     rbind (fail_if (\<not> validate_identity_part (an_wallpaper_id a)) AsWallpaperId) (\<lambda>_.
     rbind (fail_if (an_kind a = KindTest) AsKind) (\<lambda>_.
     rbind (fail_if (an_content a = [] \<or> max_content_chars < length (an_content a)) AsContent) (\<lambda>_.
     rbind (fail_if (an_width a = 0 \<or> 8192 < an_width a \<or> an_height a = 0 \<or> 8192 < an_height a)
       AsDimensions) (\<lambda>_.
     rbind (fail_if (\<not> (1 \<le> an_fps a \<and> an_fps a \<le> 240)) AsFps) (\<lambda>_.
     case an_previous a of None \<Rightarrow> Inr () | Some p \<Rightarrow> validate_previous p))))))"

section \<open>Operations\<close>

definition assignment_of :: "string \<Rightarrow> persisted_assignments \<Rightarrow> assignment option" where
  "assignment_of output_name s = Mapping.lookup (pa_outputs s) output_name"

definition assignments_save ::
  "(persisted_assignments \<Rightarrow> u8 list) \<Rightarrow> persisted_assignments \<Rightarrow> write_io \<Rightarrow> state_dir
     \<Rightarrow> (assignment_error, unit) result \<times> state_dir" where
  "assignments_save ser s io d =
     (let bytes = ser s in
      if max_assignment_bytes < length bytes then (Inl AsTooLarge, d)
      else (let (r, d') = atomic_write assignments_file bytes io d in (map_err AsWrite r, d')))"

text \<open>The state and the directory; the state in memory is replaced only after the write.\<close>

type_synonym assignment_store = "persisted_assignments \<times> state_dir"

definition assignments_commit ::
  "(persisted_assignments \<Rightarrow> u8 list) \<Rightarrow> write_io \<Rightarrow> persisted_assignments \<Rightarrow> assignment_store
     \<Rightarrow> (assignment_error, unit) result \<times> assignment_store" where
  "assignments_commit ser io next sd =
     (case assignments_save ser next io (snd sd) of
        (Inl e, d') \<Rightarrow> (Inl e, (fst sd, d'))
      | (Inr u, d') \<Rightarrow> (Inr (), (next, d')))"

definition assignments_set ::
  "(persisted_assignments \<Rightarrow> u8 list) \<Rightarrow> write_io \<Rightarrow> string \<Rightarrow> assignment \<Rightarrow> assignment_store
     \<Rightarrow> (assignment_error, unit) result \<times> assignment_store" where
  "assignments_set ser io output_name a sd =
     (case validate_assignment output_name a of
        Inl e \<Rightarrow> (Inl e, sd)
      | Inr _ \<Rightarrow>
          if assignment_of output_name (fst sd) = None
             \<and> max_assigned_outputs \<le> Mapping.size (pa_outputs (fst sd))
          then (Inl AsTooMany, sd)
          else assignments_commit ser io
            ((fst sd)\<lparr>pa_outputs := Mapping.update output_name a (pa_outputs (fst sd))\<rparr>) sd)"

definition assignments_remove ::
  "(persisted_assignments \<Rightarrow> u8 list) \<Rightarrow> write_io \<Rightarrow> string \<Rightarrow> assignment_store
     \<Rightarrow> (assignment_error, bool) result \<times> assignment_store" where
  "assignments_remove ser io output_name sd =
     (if assignment_of output_name (fst sd) = None then (Inr False, sd)
      else (case assignments_commit ser io
              ((fst sd)\<lparr>pa_outputs := Mapping.delete output_name (pa_outputs (fst sd))\<rparr>) sd of
          (Inl e, sd') \<Rightarrow> (Inl e, sd')
        | (Inr _, sd') \<Rightarrow> (Inr True, sd')))"

record assignments_io =
  ai_dir :: dir_facts
  ai_open_fails :: bool
  ai_metadata_fails :: bool
  ai_regular :: bool
  ai_read_fails :: bool
  ai_secs :: nat
  ai_nanos :: nat
  ai_renamed :: bool
  ai_listed :: bool
  ai_removable :: "string \<Rightarrow> bool"

definition assignments_quarantine :: "assignments_io \<Rightarrow> state_dir \<Rightarrow> state_dir" where
  "assignments_quarantine io d =
     quarantine_invalid_state assignments_file (ai_secs io) (ai_nanos io) (ai_renamed io) (ai_listed io)
       (ai_removable io) d"

definition assignments_valid :: "persisted_assignments \<Rightarrow> bool" where
  "assignments_valid s \<longleftrightarrow> pa_schema_version s = 1 \<and> Mapping.size (pa_outputs s) \<le> max_assigned_outputs
     \<and> (\<forall>n \<in> Mapping.keys (pa_outputs s).
          case assignment_of n s of Some a \<Rightarrow> is_ok (validate_assignment n a) | None \<Rightarrow> True)"

definition assignments_load ::
  "(u8 list \<Rightarrow> persisted_assignments option) \<Rightarrow> assignments_io \<Rightarrow> state_dir \<Rightarrow> assignment_store" where
  "assignments_load parse io d =
     (let fresh = (default_assignments, assignments_quarantine io d) in
      if ai_open_fails io then fresh
      else case Mapping.lookup d assignments_file of
        None \<Rightarrow> (default_assignments, d)
      | Some bytes \<Rightarrow>
          if ai_metadata_fails io then fresh
          else if \<not> ai_regular io \<or> max_assignment_bytes < length bytes then fresh
          else if ai_read_fails io then fresh
          else case parse bytes of
            None \<Rightarrow> fresh
          | Some s \<Rightarrow> if assignments_valid s then (s, d) else fresh)"

definition assignments_open ::
  "(u8 list \<Rightarrow> persisted_assignments option) \<Rightarrow> assignments_io \<Rightarrow> state_dir
     \<Rightarrow> (persist_error, assignment_store) result" where
  "assignments_open parse io d =
     rbind (ensure_private_dir (ai_dir io)) (\<lambda>_. Inr (assignments_load parse io d))"

section \<open>The interface of a record store\<close>

text \<open>
  What the apply transaction relies on: a successful change is exact, a failed one changes no record, and
  the records other than the changed one stay as they are.
\<close>

locale record_store =
  fixes find :: "string \<Rightarrow> 's \<Rightarrow> 'r option"
    and put :: "'io \<Rightarrow> string \<Rightarrow> 'r \<Rightarrow> 's \<Rightarrow> ('e, unit) result \<times> 's"
    and drop :: "'io \<Rightarrow> string \<Rightarrow> 's \<Rightarrow> ('e, bool) result \<times> 's"
  assumes put_ok: "put io k r s = (Inr u, s') \<Longrightarrow> find n s' = (if n = k then Some r else find n s)"
    and put_failed: "put io k r s = (Inl e, s') \<Longrightarrow> find n s' = find n s"
    and drop_ok: "drop io k s = (Inr b, s') \<Longrightarrow> find n s' = (if n = k then None else find n s)"
    and drop_failed: "drop io k s = (Inl e, s') \<Longrightarrow> find n s' = find n s"
begin

text \<open>Putting the record back that was there before.\<close>

definition revert :: "'io \<Rightarrow> string \<Rightarrow> 'r option \<Rightarrow> 's \<Rightarrow> 's" where
  "revert io k old s = (case old of Some r \<Rightarrow> snd (put io k r s) | None \<Rightarrow> snd (drop io k s))"

definition reverted :: "'io \<Rightarrow> string \<Rightarrow> 'r option \<Rightarrow> 's \<Rightarrow> bool" where
  "reverted io k old s =
     (case old of Some r \<Rightarrow> is_ok (fst (put io k r s)) | None \<Rightarrow> is_ok (fst (drop io k s)))"

lemma put_other: "n \<noteq> k \<Longrightarrow> find n (snd (put io k r s)) = find n s"
  using put_ok [of io k r s _ "snd (put io k r s)" n] put_failed [of io k r s _ "snd (put io k r s)" n]
  by (cases "put io k r s"; cases "fst (put io k r s)") auto

lemma drop_other: "n \<noteq> k \<Longrightarrow> find n (snd (drop io k s)) = find n s"
  using drop_ok [of io k s _ "snd (drop io k s)" n] drop_failed [of io k s _ "snd (drop io k s)" n]
  by (cases "drop io k s"; cases "fst (drop io k s)") auto

lemma revert_other: "n \<noteq> k \<Longrightarrow> find n (revert io k old s) = find n s"
  by (auto simp: revert_def put_other drop_other split: option.splits)

lemma revert_ok: "reverted io k old s \<Longrightarrow> find k (revert io k old s) = old"
proof (cases old)
  case None
  assume "reverted io k old s"
  with None obtain b where "drop io k s = (Inr b, snd (drop io k s))"
    by (auto simp: reverted_def is_ok_iff prod_eq_iff)
  from drop_ok [OF this, of k] None show ?thesis by (simp add: revert_def)
next
  case (Some r)
  assume "reverted io k old s"
  with Some obtain u where "put io k r s = (Inr u, snd (put io k r s))"
    by (auto simp: reverted_def is_ok_iff prod_eq_iff)
  from put_ok [OF this, of k] Some show ?thesis by (simp add: revert_def)
qed

text \<open>A change followed by a revert that is written leaves every record as it was.\<close>

lemma put_revert:
  assumes "old = find k s" "reverted io' k old (snd (put io k r s))"
  shows "find n (revert io' k old (snd (put io k r s))) = find n s"
  using assms by (cases "n = k") (simp_all add: revert_ok revert_other put_other)

end

lemma assignments_commit_cases:
  assumes "assignments_commit ser io next sd = (r, sd')"
  obtains (failed) e where "r = Inl e" "fst sd' = fst sd"
  | (written) "r = Inr ()" "fst sd' = next" "length (ser next) \<le> max_assignment_bytes"
      "Mapping.lookup (snd sd') assignments_file = Some (ser next)"
proof (cases "assignments_save ser next io (snd sd)")
  case (Pair q d')
  show thesis
  proof (cases q)
    case (Inl e)
    with Pair assms show thesis by (intro failed [of e]) (auto simp: assignments_commit_def)
  next
    case (Inr u)
    with Pair have "length (ser next) \<le> max_assignment_bytes"
      "atomic_write assignments_file (ser next) io (snd sd) = (Inr (), d')"
      by (auto simp: assignments_save_def Let_def map_err_def split: if_splits prod.splits sum.splits)
    moreover from this(2) have "Mapping.lookup d' assignments_file = Some (ser next)"
      by (rule daemon_file.write_ok)
    ultimately show thesis using Pair Inr assms by (intro written) (auto simp: assignments_commit_def)
  qed
qed

lemma assignments_set_cases:
  assumes "assignments_set ser io k a sd = (r, sd')"
  obtains (failed) e where "r = Inl e" "fst sd' = fst sd"
  | (changed) "r = Inr ()" "validate_assignment k a = Inr ()"
      "fst sd' = (fst sd)\<lparr>pa_outputs := Mapping.update k a (pa_outputs (fst sd))\<rparr>"
      "assignment_of k (fst sd) \<noteq> None \<or> Mapping.size (pa_outputs (fst sd)) < max_assigned_outputs"
      "length (ser (fst sd')) \<le> max_assignment_bytes"
      "Mapping.lookup (snd sd') assignments_file = Some (ser (fst sd'))"
proof (cases "validate_assignment k a")
  case (Inl e)
  then show thesis using assms by (intro failed [of e]) (auto simp: assignments_set_def)
next
  case (Inr u)
  let ?next = "(fst sd)\<lparr>pa_outputs := Mapping.update k a (pa_outputs (fst sd))\<rparr>"
  show thesis
  proof (cases "assignment_of k (fst sd) = None \<and> max_assigned_outputs \<le> Mapping.size (pa_outputs (fst sd))")
    case True
    then show thesis using assms Inr by (intro failed [of AsTooMany]) (auto simp: assignments_set_def)
  next
    case False
    then have "assignments_commit ser io ?next sd = (r, sd')"
      using assms Inr by (auto simp: assignments_set_def)
    then show thesis
      by (cases rule: assignments_commit_cases) (use False Inr in \<open>auto intro: failed changed\<close>)
  qed
qed

lemma assignments_remove_cases:
  assumes "assignments_remove ser io k sd = (r, sd')"
  obtains (failed) e where "r = Inl e" "fst sd' = fst sd"
  | (absent) "r = Inr False" "sd' = sd" "assignment_of k (fst sd) = None"
  | (removed) "r = Inr True" "assignment_of k (fst sd) \<noteq> None"
      "fst sd' = (fst sd)\<lparr>pa_outputs := Mapping.delete k (pa_outputs (fst sd))\<rparr>"
      "Mapping.lookup (snd sd') assignments_file = Some (ser (fst sd'))"
proof (cases "assignment_of k (fst sd) = None")
  case True
  then show thesis using assms by (intro absent) (auto simp: assignments_remove_def)
next
  case False
  let ?next = "(fst sd)\<lparr>pa_outputs := Mapping.delete k (pa_outputs (fst sd))\<rparr>"
  obtain q sd1 where c: "assignments_commit ser io ?next sd = (q, sd1)" by (cases "assignments_commit ser io ?next sd")
  then have "sd' = sd1" "r = (case q of Inl e \<Rightarrow> Inl e | Inr _ \<Rightarrow> Inr True)"
    using assms False by (auto simp: assignments_remove_def split: sum.splits)
  with c show thesis
    by (cases rule: assignments_commit_cases) (use False in \<open>auto intro: failed removed\<close>)
qed

interpretation assigned: record_store
  "\<lambda>n sd. assignment_of n (fst sd)" "assignments_set ser" "assignments_remove ser" for ser
proof
  fix io k r s u s' n e b
  show "assignments_set ser io k r s = (Inr u, s') \<Longrightarrow>
      assignment_of n (fst s') = (if n = k then Some r else assignment_of n (fst s))"
    by (erule assignments_set_cases) (auto simp: assignment_of_def)
  show "assignments_set ser io k r s = (Inl e, s') \<Longrightarrow> assignment_of n (fst s') = assignment_of n (fst s)"
    by (erule assignments_set_cases) auto
  show "assignments_remove ser io k s = (Inr b, s') \<Longrightarrow>
      assignment_of n (fst s') = (if n = k then None else assignment_of n (fst s))"
    by (erule assignments_remove_cases) (auto simp: assignment_of_def)
  show "assignments_remove ser io k s = (Inl e, s') \<Longrightarrow> assignment_of n (fst s') = assignment_of n (fst s)"
    by (erule assignments_remove_cases) auto
qed

section \<open>The invariant\<close>

definition assignments_ok :: "persisted_assignments \<Rightarrow> bool" where
  "assignments_ok s \<longleftrightarrow> assignments_valid s \<and> finite (Mapping.keys (pa_outputs s))"

lemma assignments_valid_lookup:
  "assignments_valid s \<longleftrightarrow> pa_schema_version s = 1 \<and> Mapping.size (pa_outputs s) \<le> max_assigned_outputs
     \<and> (\<forall>n a. assignment_of n s = Some a \<longrightarrow> validate_assignment n a = Inr ())"
  by (auto simp: assignments_valid_def keys_lookup assignment_of_def is_ok_iff split: option.splits)

lemma default_assignments_ok: "assignments_ok default_assignments"
  by (simp add: assignments_ok_def assignments_valid_def default_assignments_def size_keys)

lemma assignments_set_ok:
  assumes "assignments_ok (fst sd)" "assignments_set ser io k a sd = (r, sd')"
  shows "assignments_ok (fst sd')"
  using assms(2)
proof (cases rule: assignments_set_cases)
  case failed
  then show ?thesis using assms(1) by simp
next
  case changed
  have "card (insert k (Mapping.keys (pa_outputs (fst sd)))) \<le> max_assigned_outputs"
    using assms(1) changed(4)
    by (auto simp: assignments_ok_def assignments_valid_def size_keys keys_lookup assignment_of_def card_insert_if)
  then show ?thesis
    using assms(1) changed(2,3)
    by (auto simp: assignments_ok_def assignments_valid_lookup size_keys assignment_of_def)
qed

lemma assignments_remove_ok:
  assumes "assignments_ok (fst sd)" "assignments_remove ser io k sd = (r, sd')"
  shows "assignments_ok (fst sd')"
  using assms(2)
proof (cases rule: assignments_remove_cases)
  case removed
  have "card (Mapping.keys (pa_outputs (fst sd)) - {k}) \<le> card (Mapping.keys (pa_outputs (fst sd)))"
    using assms(1) by (intro card_mono) (auto simp: assignments_ok_def)
  then show ?thesis
    using assms(1) removed(3)
    by (auto simp: assignments_ok_def assignments_valid_lookup size_keys assignment_of_def)
qed (use assms(1) in simp_all)

lemma assignments_load_ok:
  assumes "\<And>bs s. parse bs = Some s \<Longrightarrow> finite (Mapping.keys (pa_outputs s))"
  shows "assignments_ok (fst (assignments_load parse io d))"
  using assms default_assignments_ok
  by (auto simp: assignments_load_def assignments_ok_def Let_def split: option.splits)

end
