(* ===== verification/Apply_Script.thy ===== *)
theory Apply_Script
  imports Apply_Store
begin

text \<open>
  \<open>crates/kwe-daemon/src/apply.rs\<close>, the scripts the daemon sends to the Plasma shell: the switch, the restore
  and the read-only probe, as texts. What a script may hold is stated with a reader of JavaScript text
  that separates code from string literals: the code of every script is fixed by the operation, and the
  data only ever appears as the value of a literal.
\<close>

section \<open>Texts\<close>

definition quoted :: "string \<Rightarrow> string" where "quoted s = CHR 0x22 # s @ [CHR 0x22]"

definition line_feed :: string where "line_feed = [CHR 0x0A]"

definition str_ascii :: "string \<Rightarrow> bool" where "str_ascii s \<longleftrightarrow> list_all (\<lambda>c. byte_val c < 128) s"

text \<open>\<open>str::replace\<close> of a pattern that is not empty.\<close>

function str_replace :: "string \<Rightarrow> string \<Rightarrow> string \<Rightarrow> string" where
  "str_replace pat rep [] = []"
| "str_replace pat rep (c # cs) =
     (if pat \<noteq> [] \<and> starts_with (c # cs) pat then rep @ str_replace pat rep (drop (length pat) (c # cs))
      else c # str_replace pat rep cs)"
  by pat_completeness auto

termination
  by (relation "measure (\<lambda>(pat, rep, s). length s)") auto

section \<open>Scripts\<close>

datatype script_error = ScriptPlugin | ScriptGroupCount | ScriptGroupPart | ScriptImage | ScriptConnector

definition js_escape_char :: "nat \<Rightarrow> nat list" where
  "js_escape_char cp =
     (if cp = 92 then [92, 92]
      else if cp = 34 then [92, 34]
      else if cp = 10 then [92, 110]
      else if cp = 13 then [92, 114]
      else if cp = 0x2028 then str_bytes (CHR 0x5C # ''u2028'')
      else if cp = 0x2029 then str_bytes (CHR 0x5C # ''u2029'')
      else [cp])"

definition escape_js_string :: "string \<Rightarrow> string" where
  "escape_js_string v = chars_str (concat (map js_escape_char (str_chars v)))"

definition apply_script :: "nat \<Rightarrow> string \<Rightarrow> (script_error, string) result" where
  "apply_script index plugin =
     rbind (fail_if (\<not> validate_identity_part plugin) ScriptPlugin) (\<lambda>_.
       Inr (''var d = desktops()['' @ show_nat index @ '']; if (!d) throw ''
         @ quoted (''no desktop '' @ show_nat index) @ ''; d.wallpaperPlugin = '' @ quoted plugin @ '';''))"

definition restore_script ::
  "nat \<Rightarrow> string \<Rightarrow> string list \<Rightarrow> string option \<Rightarrow> (script_error, string) result" where
  "restore_script index plugin grp img =
     rbind (fail_if (\<not> validate_identity_part plugin) ScriptPlugin) (\<lambda>_.
     rbind (fail_if (grp = [] \<or> 4 < length grp) ScriptGroupCount) (\<lambda>_.
     rbind (fail_if (\<not> list_all validate_identity_part grp) ScriptGroupPart) (\<lambda>_.
     rbind (case img of
              None \<Rightarrow> Inr []
            | Some i \<Rightarrow> rbind (fail_if (i = [] \<or> max_image_chars < length i) ScriptImage) (\<lambda>_.
                Inr (''d.writeConfig('' @ quoted ''Image'' @ '', '' @ quoted (escape_js_string i) @ '');'' @ line_feed)))
       (\<lambda>image_line.
       Inr (''var d = desktops()['' @ show_nat index @ ''];'' @ line_feed
         @ ''if (!d) throw '' @ quoted (''no desktop '' @ show_nat index) @ '';'' @ line_feed
         @ ''d.currentConfigGroup = ['' @ str_join '', '' (map quoted grp) @ ''];'' @ line_feed
         @ image_line
         @ ''d.wallpaperPlugin = '' @ quoted plugin @ '';'')))))"

definition probe_head :: string where
  "probe_head =
     ''var d = desktops();'' @ line_feed
     @ ''var out = [];'' @ line_feed
     @ ''for (var i = 0; i < d.length; i++) {'' @ line_feed
     @ ''  var image = null;'' @ line_feed
     @ ''  var wp = d[i].wallpaperPlugin;'' @ line_feed
     @ ''  if (/^[A-Za-z0-9._-]+$/.test(wp)) {'' @ line_feed
     @ ''    var g = d[i].currentConfigGroup;'' @ line_feed
     @ ''    try {'' @ line_feed
     @ ''      d[i].currentConfigGroup = ['' @ quoted ''Wallpaper'' @ '', wp, '' @ quoted ''General'' @ ''];'' @ line_feed
     @ ''      image = d[i].readConfig('' @ quoted ''Image'' @ '');'' @ line_feed
     @ ''    } catch (e) { }'' @ line_feed
     @ ''    d[i].currentConfigGroup = g;'' @ line_feed
     @ ''  }'' @ line_feed
     @ ''  out.push({index: i, id: d[i].id, screen: d[i].screen, wp: wp, image: image});'' @ line_feed
     @ ''}'' @ line_feed
     @ ''var c = ''"

definition probe_tail :: string where
  "probe_tail = '';'' @ line_feed @ ''print(JSON.stringify({desktops: out, connectors: c}));''"

definition desktop_probe_template :: string where
  "desktop_probe_template = probe_head @ ''{__CONNECTORS__}'' @ probe_tail"

definition connector_entry :: "string \<Rightarrow> string" where
  "connector_entry name = quoted name @ '': screenForConnector('' @ quoted name @ '')''"

definition connector_map :: "string list \<Rightarrow> string" where
  "connector_map names =
     (if names = [] then ''{}'' else ''{'' @ str_join '', '' (map connector_entry names) @ ''}'')"

definition probe_script :: "string list \<Rightarrow> (script_error, string) result" where
  "probe_script names =
     rbind (fail_if (\<not> list_all validate_identity_part names) ScriptConnector) (\<lambda>_.
       Inr (str_replace ''{__CONNECTORS__}'' (connector_map names) desktop_probe_template))"

section \<open>Reading a script\<close>

text \<open>
  The reader: outside a literal (\<open>None\<close>) every character is code until a double quote opens a literal; inside
  (\<open>Some acc\<close>) an unescaped quote closes it, a line terminator (also U+2028 and U+2029) or an
  unfinished escape is an error. The result is the code, with one quote where a literal stands, and the
  values of the literals in order. Apostrophes, templates, comments and regular expressions that hold a
  quote do not occur in the scripts.
\<close>

definition hex_digit :: "nat \<Rightarrow> nat option" where
  "hex_digit c =
     (if 48 \<le> c \<and> c \<le> 57 then Some (c - 48) else if 97 \<le> c \<and> c \<le> 102 then Some (c - 87)
      else if 65 \<le> c \<and> c \<le> 70 then Some (c - 55) else None)"

definition hex4 :: "nat \<Rightarrow> nat \<Rightarrow> nat \<Rightarrow> nat \<Rightarrow> nat option" where
  "hex4 a b c d =
     (case (hex_digit a, hex_digit b, hex_digit c, hex_digit d) of
        (Some w, Some x, Some y, Some z) \<Rightarrow> Some (4096 * w + 256 * x + 16 * y + z)
      | _ \<Rightarrow> None)"

definition js_plain :: "nat \<Rightarrow> bool" where
  "js_plain c \<longleftrightarrow> c \<noteq> 34 \<and> c \<noteq> 92 \<and> c \<noteq> 10 \<and> c \<noteq> 13 \<and> c \<noteq> 0x2028 \<and> c \<noteq> 0x2029"

fun js_escape :: "nat list \<Rightarrow> (nat \<times> nat) option" where
  "js_escape (e # r) =
     (if e = 92 \<or> e = 34 then Some (e, 1)
      else if e = 110 then Some (10, 1)
      else if e = 114 then Some (13, 1)
      else if e = 117 then
        (case r of a # b # c # d # _ \<Rightarrow> map_option (\<lambda>v. (v, 5)) (hex4 a b c d) | _ \<Rightarrow> None)
      else None)"
| "js_escape [] = None"

function js_scan :: "nat list option \<Rightarrow> nat list \<Rightarrow> (nat list \<times> nat list list) option" where
  "js_scan None [] = Some ([], [])"
| "js_scan (Some acc) [] = None"
| "js_scan None (c # cs) =
     (if c = 34 then map_option (\<lambda>(code, ls). (34 # code, ls)) (js_scan (Some []) cs)
      else map_option (\<lambda>(code, ls). (c # code, ls)) (js_scan None cs))"
| "js_scan (Some acc) (c # cs) =
     (if c = 34 then map_option (\<lambda>(code, ls). (code, acc # ls)) (js_scan None cs)
      else if c = 92 then
        (case js_escape cs of
           None \<Rightarrow> None
         | Some (v, n) \<Rightarrow> js_scan (Some (acc @ [v])) (drop n cs))
      else if js_plain c then js_scan (Some (acc @ [c])) cs
      else None)"
  by pat_completeness auto

termination
  by (relation "measure (\<lambda>(acc, s). length s)") auto

definition read_script :: "string \<Rightarrow> (nat list \<times> nat list list) option" where
  "read_script s = js_scan None (str_chars s)"

lemma js_scan_code:
  assumes "34 \<notin> set a"
  shows "js_scan None (a @ b) = map_option (\<lambda>(code, ls). (a @ code, ls)) (js_scan None b)"
  using assms by (induction a) (auto simp: option.map_comp comp_def case_prod_unfold option.map_ident)

lemma js_scan_plain: "list_all js_plain a \<Longrightarrow> js_scan (Some acc) (a @ b) = js_scan (Some (acc @ a)) b"
  by (induction a arbitrary: acc) (auto simp: js_plain_def)

lemma js_scan_escape_char:
  "js_scan (Some acc) (js_escape_char cp @ b) = js_scan (Some (acc @ [cp])) b"
  by (auto simp: js_escape_char_def js_plain_def str_bytes_def byte_val_def hex4_def hex_digit_def)

lemma js_scan_escaped:
  "js_scan (Some acc) (concat (map js_escape_char v) @ b) = js_scan (Some (acc @ v)) b"
  by (induction v arbitrary: acc) (simp_all add: js_scan_escape_char)

lemma utf8_chunks_ascii: "b < 128 \<Longrightarrow> utf8_chunks (b # bs) = Some b # utf8_chunks bs"
  by (subst utf8_chunks.simps) simp

lemma str_chars_ascii: "str_ascii a \<Longrightarrow> str_chars (a @ b) = str_bytes a @ str_chars b"
  by (induction a) (auto simp: str_chars_def str_bytes_def str_ascii_def utf8_chunks_ascii)

lemma str_chars_Nil [simp]: "str_chars [] = []"
  by (simp add: str_chars_def str_bytes_def)

lemma str_chars_all_ascii: "str_ascii a \<Longrightarrow> str_chars a = str_bytes a"
  using str_chars_ascii [of a "[]"] by simp

lemma utf8_chunks_encode_append:
  "list_all is_scalar cps \<Longrightarrow> utf8_chunks (concat (map utf8_encode cps) @ r) = map Some cps @ utf8_chunks r"
proof (induction cps)
  case (Cons cp cps)
  then show ?case by (subst utf8_chunks.simps) (simp add: utf8_step_encode)
qed simp

lemma str_chars_encoded: "list_all is_scalar cps \<Longrightarrow> str_chars (chars_str cps @ b) = cps @ str_chars b"
  by (simp add: str_chars_def str_bytes_def flip: map_append)
    (simp add: str_bytes_chars_str [unfolded str_bytes_def] utf8_chunks_encode_append comp_def)

lemma js_escape_scalar: "is_scalar cp \<Longrightarrow> list_all is_scalar (js_escape_char cp)"
  by (auto simp: js_escape_char_def is_scalar_def str_bytes_def byte_val_def)

lemma escaped_scalar: "list_all is_scalar (concat (map js_escape_char (str_chars v)))"
  using str_chars_scalar [of v] js_escape_scalar by (fastforce simp: list_all_iff)

definition js_safe :: "string \<Rightarrow> bool" where
  "js_safe s \<longleftrightarrow> list_all (\<lambda>c. byte_val c < 128 \<and> js_plain (byte_val c)) s"

lemma js_safe_ascii: "js_safe s \<Longrightarrow> str_ascii s"
  by (auto simp: js_safe_def str_ascii_def list_all_iff)

lemma identity_js_safe: "validate_identity_part v \<Longrightarrow> js_safe v"
  unfolding validate_identity_part_def js_safe_def list_all_iff
  by (auto simp: is_ascii_alphanumeric_def is_ascii_digit_def is_ascii_upper_def is_ascii_lower_def
      js_plain_def byte_val_def)

lemma show_nat_js_safe: "js_safe (show_nat n)"
  using show_nat_digits [of n] by (auto simp: js_safe_def list_all_iff is_ascii_digit_def js_plain_def)

lemma js_safe_append [simp]: "js_safe (a @ b) \<longleftrightarrow> js_safe a \<and> js_safe b"
  by (simp add: js_safe_def)

definition js_code_text :: "string \<Rightarrow> bool" where
  "js_code_text s \<longleftrightarrow> list_all (\<lambda>c. byte_val c < 128 \<and> byte_val c \<noteq> 34) s"

lemma js_code_append [simp]: "js_code_text (a @ b) \<longleftrightarrow> js_code_text a \<and> js_code_text b"
  by (simp add: js_code_text_def)

lemma js_safe_code: "js_safe s \<Longrightarrow> js_code_text s"
  by (auto simp: js_safe_def js_code_text_def js_plain_def list_all_iff)

lemma read_code:
  assumes "js_code_text a"
  shows "read_script (a @ b) = map_option (\<lambda>(code, ls). (str_bytes a @ code, ls)) (read_script b)"
proof -
  have "str_ascii a" "34 \<notin> set (str_bytes a)"
    using assms by (auto simp: js_code_text_def str_ascii_def list_all_iff str_bytes_def)
  then show ?thesis by (simp add: read_script_def str_chars_ascii js_scan_code)
qed

lemma read_quote: "read_script (CHR 0x22 # b) = map_option (\<lambda>(code, ls). (34 # code, ls)) (js_scan (Some []) (str_chars b))"
proof -
  have "str_chars ([CHR 0x22] @ b) = [34] @ str_chars b"
    by (subst str_chars_ascii) (simp_all add: str_ascii_def str_bytes_def byte_val_def)
  then show ?thesis by (simp add: read_script_def)
qed

lemma scan_closing: "js_scan (Some acc) (str_chars (CHR 0x22 # b)) = map_option (\<lambda>(code, ls). (code, acc # ls)) (read_script b)"
proof -
  have "str_chars ([CHR 0x22] @ b) = [34] @ str_chars b"
    by (subst str_chars_ascii) (simp_all add: str_ascii_def str_bytes_def byte_val_def)
  then show ?thesis by (simp add: read_script_def)
qed

lemma read_literal:
  assumes "js_safe v"
  shows "read_script (quoted v @ b) = map_option (\<lambda>(code, ls). (34 # code, str_chars v # ls)) (read_script b)"
proof -
  have "list_all js_plain (str_bytes v)"
    using assms by (auto simp: js_safe_def str_bytes_def list_all_iff)
  then have "js_scan (Some []) (str_chars (v @ CHR 0x22 # b)) = js_scan (Some (str_bytes v)) (str_chars (CHR 0x22 # b))"
    using js_safe_ascii [OF assms] by (simp add: str_chars_ascii js_scan_plain)
  then show ?thesis
    using str_chars_all_ascii [OF js_safe_ascii [OF assms]]
    by (simp add: quoted_def read_quote scan_closing option.map_comp comp_def case_prod_unfold)
qed

lemma read_escaped:
  "read_script (quoted (escape_js_string v) @ b) =
     map_option (\<lambda>(code, ls). (34 # code, str_chars v # ls)) (read_script b)"
proof -
  have "js_scan (Some []) (str_chars (escape_js_string v @ CHR 0x22 # b)) =
      js_scan (Some (str_chars v)) (str_chars (CHR 0x22 # b))"
    by (simp add: escape_js_string_def str_chars_encoded escaped_scalar js_scan_escaped)
  then show ?thesis
    by (simp add: quoted_def read_quote scan_closing option.map_comp comp_def case_prod_unfold)
qed

section \<open>What the scripts hold\<close>

text \<open>The code of each script, with a single quote where a literal stands.\<close>

definition hole :: string where "hole = [CHR 0x22]"

definition apply_code :: "nat \<Rightarrow> string" where
  "apply_code index =
     ''var d = desktops()['' @ show_nat index @ '']; if (!d) throw '' @ hole @ ''; d.wallpaperPlugin = ''
       @ hole @ '';''"

definition restore_code :: "nat \<Rightarrow> nat \<Rightarrow> bool \<Rightarrow> string" where
  "restore_code index parts has_image =
     ''var d = desktops()['' @ show_nat index @ ''];'' @ line_feed @ ''if (!d) throw '' @ hole @ '';'' @ line_feed
       @ ''d.currentConfigGroup = ['' @ str_join '', '' (replicate parts hole) @ ''];'' @ line_feed
       @ (if has_image then ''d.writeConfig('' @ hole @ '', '' @ hole @ '');'' @ line_feed else [])
       @ ''d.wallpaperPlugin = '' @ hole @ '';''"

lemma code_text_simps [simp]:
  "js_code_text line_feed" "js_code_text (show_nat n)"
  "js_code_text (c # s) \<longleftrightarrow> byte_val c < 128 \<and> byte_val c \<noteq> 34 \<and> js_code_text s" "js_code_text []"
  using js_safe_code [OF show_nat_js_safe] by (simp_all add: js_code_text_def line_feed_def byte_val_def)

lemma str_bytes_append [simp]: "str_bytes (a @ b) = str_bytes a @ str_bytes b"
  by (simp add: str_bytes_def)

lemma str_bytes_hole [simp]: "str_bytes hole = [34]"
  by (simp add: hole_def str_bytes_def byte_val_def)

lemma read_script_Nil [simp]: "read_script [] = Some ([], [])"
  by (simp add: read_script_def)

lemma read_code_Nil: "js_code_text a \<Longrightarrow> read_script a = Some (str_bytes a, [])"
  using read_code [of a "[]"] by simp

lemma read_literals:
  assumes "list_all js_safe grp" "grp \<noteq> []"
  shows "read_script (str_join '', '' (map quoted grp) @ b) =
     map_option (\<lambda>(code, ls). (str_bytes (str_join '', '' (replicate (length grp) hole)) @ code,
       map str_chars grp @ ls)) (read_script b)"
  using assms
proof (induction grp)
  case (Cons p grp)
  show ?case
  proof (cases grp)
    case Nil
    then show ?thesis using Cons.prems by (simp add: read_literal)
  next
    case (Cons q grp')
    have "str_join '', '' (map quoted (p # grp)) @ b = quoted p @ '', '' @ str_join '', '' (map quoted grp) @ b"
      using Cons by simp
    moreover have "js_code_text '', ''" by (simp add: byte_val_def)
    ultimately show ?thesis
      using Cons.IH Cons.prems Cons
      by (simp add: read_literal read_code option.map_comp comp_def case_prod_unfold del: append_Cons)
        (simp add: case_prod_unfold)
  qed
qed simp

lemma js_safe_no_desktop: "js_safe (''no desktop '' @ show_nat n)"
  unfolding js_safe_append by (intro conjI show_nat_js_safe) (simp add: js_safe_def js_plain_def byte_val_def)

lemma js_safe_image: "js_safe ''Image''"
  by (simp add: js_safe_def js_plain_def byte_val_def)

lemma code_pieces:
  "js_code_text ''var d = desktops()[''" "js_code_text '']; if (!d) throw ''" "js_code_text ''; d.wallpaperPlugin = ''"
  "js_code_text '';''" "js_code_text ''];''" "js_code_text ''if (!d) throw ''"
  "js_code_text ''d.currentConfigGroup = [''" "js_code_text ''d.writeConfig(''" "js_code_text '', ''"
  "js_code_text '');''" "js_code_text ''d.wallpaperPlugin = ''"
  by (simp_all add: byte_val_def)

lemma read_image_line:
  "read_script (''d.writeConfig('' @ quoted ''Image'' @ '', '' @ quoted (escape_js_string i) @ '');'' @ line_feed @ b)
   = map_option (\<lambda>(code, ls). (str_bytes (''d.writeConfig('' @ hole @ '', '' @ hole @ '');'' @ line_feed) @ code,
       str_chars ''Image'' # str_chars i # ls)) (read_script b)"
  by (simp only: read_code read_literal [OF js_safe_image] read_escaped code_pieces code_text_simps(1))
    (simp add: option.map_comp comp_def case_prod_unfold str_bytes_def hole_def byte_val_def)

lemma read_throw:
  "read_script (quoted (''no desktop '' @ show_nat n) @ b) =
     map_option (\<lambda>(code, ls). (34 # code, str_chars (''no desktop '' @ show_nat n) # ls)) (read_script b)"
  by (rule read_literal [OF js_safe_no_desktop])

lemma apply_script_read:
  assumes "apply_script index plugin = Inr script"
  shows "read_script script =
    Some (str_bytes (apply_code index), [str_chars (''no desktop '' @ show_nat index), str_chars plugin])"
proof -
  have v: "js_safe plugin" using assms by (auto simp: apply_script_def result_simps intro: identity_js_safe)
  have script: "script = ''var d = desktops()['' @ show_nat index @ '']; if (!d) throw ''
      @ quoted (''no desktop '' @ show_nat index) @ ''; d.wallpaperPlugin = '' @ quoted plugin @ '';''"
    using assms by (auto simp: apply_script_def result_simps)
  show ?thesis
    unfolding script
    by (simp only: read_code read_throw read_literal [OF v] read_code_Nil code_pieces code_text_simps(2))
      (simp add: apply_code_def str_bytes_def hole_def byte_val_def)
qed

lemma restore_script_text:
  assumes "restore_script index plugin grp img = Inr script"
  shows "validate_identity_part plugin" "grp \<noteq> []" "list_all validate_identity_part grp"
    "script = ''var d = desktops()['' @ show_nat index @ ''];'' @ line_feed
         @ ''if (!d) throw '' @ quoted (''no desktop '' @ show_nat index) @ '';'' @ line_feed
         @ ''d.currentConfigGroup = ['' @ str_join '', '' (map quoted grp) @ ''];'' @ line_feed
         @ (case img of None \<Rightarrow> [] | Some i \<Rightarrow>
              ''d.writeConfig('' @ quoted ''Image'' @ '', '' @ quoted (escape_js_string i) @ '');'' @ line_feed)
         @ ''d.wallpaperPlugin = '' @ quoted plugin @ '';''"
  using assms by (auto simp: restore_script_def result_simps split: option.splits)

text \<open>
  C40: no data can become code. Whatever plugin, group and image a restore was stored with, the script read
  as JavaScript text is the fixed code of a restore, and its string literals have exactly the desktop
  message, the group, the image and the plugin as their values.
\<close>

theorem restore_script_safe:
  assumes "restore_script index plugin grp img = Inr script"
  shows "read_script script =
    Some (str_bytes (restore_code index (length grp) (img \<noteq> None)),
      [str_chars (''no desktop '' @ show_nat index)] @ map str_chars grp
        @ (case img of None \<Rightarrow> [] | Some i \<Rightarrow> [str_chars ''Image'', str_chars i]) @ [str_chars plugin])"
proof -
  note shape = restore_script_text [OF assms]
  have v: "js_safe plugin" and g: "list_all js_safe grp"
    using shape(1,3) identity_js_safe by (auto simp: list_all_iff)
  show ?thesis
  proof (cases img)
    case None
    show ?thesis
      unfolding shape(4) None option.case append_Nil
      by (simp only: read_code read_throw read_literal [OF v] read_literals [OF g shape(2)] read_code_Nil
          code_pieces code_text_simps(1,2))
        (simp add: restore_code_def str_bytes_def hole_def byte_val_def)
  next
    case (Some i)
    show ?thesis
      unfolding shape(4) Some option.case append_assoc
      by (simp only: read_code read_throw read_literal [OF v] read_literals [OF g shape(2)] read_code_Nil
          read_image_line code_pieces code_text_simps(1,2))
        (simp add: restore_code_def str_bytes_def hole_def byte_val_def)
  qed
qed

lemma restore_script_safe_witness:
  "\<exists>script. restore_script 1 ''org.kde.image'' [''Wallpaper''] (Some (''a'' @ [CHR 0x22] @ '';x()'')) = Inr script
     \<and> read_script script = Some (str_bytes (restore_code 1 1 True),
         [str_chars (''no desktop '' @ show_nat 1), str_chars ''Wallpaper'', str_chars ''Image'',
          str_chars (''a'' @ [CHR 0x22] @ '';x()''), str_chars ''org.kde.image''])"
proof -
  let ?r = "restore_script 1 ''org.kde.image'' [''Wallpaper''] (Some (''a'' @ [CHR 0x22] @ '';x()''))"
  have "is_ok ?r"
    by (simp add: restore_script_def validate_identity_part_def is_ascii_alphanumeric_def is_ascii_lower_def
        is_ascii_upper_def is_ascii_digit_def byte_val_def max_image_chars_def)
  then obtain script where "?r = Inr script" by (auto simp: is_ok_iff)
  with restore_script_safe [OF this] show ?thesis by auto
qed

section \<open>The probe\<close>

text \<open>A pattern that starts with two given characters is not found where no such pair stands.\<close>

fun has_pair :: "char \<Rightarrow> char \<Rightarrow> string \<Rightarrow> bool" where
  "has_pair a b (x # y # s) \<longleftrightarrow> x = a \<and> y = b \<or> has_pair a b (y # s)"
| "has_pair a b _ \<longleftrightarrow> False"

lemma str_replace_skip:
  "\<not> has_pair a b (s @ [c]) \<Longrightarrow> str_replace (a # b # pat) rep (s @ c # t) = s @ str_replace (a # b # pat) rep (c # t)"
proof (induction s)
  case (Cons x s)
  have "\<not> starts_with (x # s @ c # t) (a # b # pat)"
    using Cons.prems by (cases s) (auto simp: starts_with_def)
  moreover have "\<not> has_pair a b (s @ [c])" using Cons.prems by (cases s) auto
  ultimately show ?case using Cons.IH by simp
qed simp

lemma str_replace_none: "\<not> has_pair a b s \<Longrightarrow> str_replace (a # b # pat) rep s = s"
proof (induction s)
  case (Cons x s)
  have "\<not> starts_with (x # s) (a # b # pat)" using Cons.prems by (cases s) (auto simp: starts_with_def)
  moreover have "\<not> has_pair a b s" using Cons.prems by (cases s) auto
  ultimately show ?case using Cons.IH by simp
qed simp

lemma probe_script_text:
  assumes "probe_script names = Inr script"
  shows "script = probe_head @ connector_map names @ probe_tail"
proof -
  have h: "\<not> has_pair (CHR ''{'') (CHR ''_'') (probe_head @ [CHR ''{''])"
    by (simp add: probe_head_def quoted_def line_feed_def)
  have t: "\<not> has_pair (CHR ''{'') (CHR ''_'') probe_tail"
    by (simp add: probe_tail_def quoted_def line_feed_def)
  have "script = str_replace ''{__CONNECTORS__}'' (connector_map names) (probe_head @ ''{__CONNECTORS__}'' @ probe_tail)"
    using assms by (simp add: probe_script_def result_simps desktop_probe_template_def)
  also have "\<dots> = probe_head @ str_replace ''{__CONNECTORS__}'' (connector_map names) (''{__CONNECTORS__}'' @ probe_tail)"
    using str_replace_skip [OF h, of "''_CONNECTORS__}''" "connector_map names" "''__CONNECTORS__}'' @ probe_tail"]
    by simp
  also have "\<dots> = probe_head @ connector_map names @ probe_tail"
    using str_replace_none [OF t, of "''_CONNECTORS__}''" "connector_map names"] by (simp add: starts_with_def)
  finally show ?thesis .
qed

end
