(* ===== verification/Apply_Outputs.thy ===== *)
theory Apply_Outputs
  imports Apply_Script Playlist_Session
begin

text \<open>
  \<open>crates/kwe-daemon/src/apply.rs\<close>, how the daemon looks at the desktop: the bounded run of an external
  program, the display environment recovered from the user manager, the text of \<open>kscreen-doctor\<close>, and
  the outputs assembled from the system's list and the shell's reply. Text is a list of code points
  here. Programs, clocks and the environment are answers; \<open>serde\_json\<close> is a parameter.
\<close>

section \<open>Probe failures\<close>

datatype probe_error =
    PbUnreachable string | PbRejected string | PbTimedOut string | PbParse string
  | PbDisplayUnavailable string

fun probe_detail :: "probe_error \<Rightarrow> string" where
  "probe_detail (PbUnreachable d) = d"
| "probe_detail (PbRejected d) = d"
| "probe_detail (PbTimedOut d) = d"
| "probe_detail (PbParse d) = d"
| "probe_detail (PbDisplayUnavailable d) = d"

fun enumeration_error :: "probe_error \<Rightarrow> apply_error" where
  "enumeration_error (PbDisplayUnavailable d) = ApDisplayUnavailable d"
| "enumeration_error e = ApShellUnreachable (probe_detail e)"

fun str_contains :: "string \<Rightarrow> string \<Rightarrow> bool" where
  "str_contains [] pat \<longleftrightarrow> pat = []"
| "str_contains (c # cs) pat \<longleftrightarrow> starts_with (c # cs) pat \<or> str_contains cs pat"

definition classify_probe_failure :: "string \<Rightarrow> probe_error" where
  "classify_probe_failure detail =
     (if str_contains detail ''timed out'' then PbTimedOut detail else PbUnreachable detail)"

section \<open>Bounded runs\<close>

definition max_probe_output_bytes :: nat where "max_probe_output_bytes = 64 * 1024"
definition pipe_chunk_bytes :: nat where "pipe_chunk_bytes = 8192"

text \<open>A read of a nonblocking pipe: bytes (at most the chunk asked for), end of file, nothing yet, an error.\<close>

datatype probe_read = ReadChunk "u8 list" | ReadEnd | ReadBlocked | ReadBroken string

text \<open>\<open>drain_pipe\<close>: whether the end was reached, and the capped buffer.\<close>

fun drain_pipe :: "probe_read list \<Rightarrow> u8 list \<Rightarrow> (string, bool) result \<times> u8 list" where
  "drain_pipe [] buffer = (Inr False, buffer)"
| "drain_pipe (rd # rds) buffer =
     (case rd of
        ReadChunk bytes \<Rightarrow>
          (let chunk = take pipe_chunk_bytes bytes in
           if chunk = [] then (Inr True, buffer)
           else drain_pipe rds
             (if length buffer < max_probe_output_bytes
              then buffer @ take (max_probe_output_bytes - length buffer) chunk else buffer))
      | ReadEnd \<Rightarrow> (Inr True, buffer)
      | ReadBlocked \<Rightarrow> (Inr False, buffer)
      | ReadBroken e \<Rightarrow> (Inl (''pipe read failed: '' @ e), buffer))"

datatype child_wait = ChildExited bool string | ChildRunning | ChildWaitFailed string

text \<open>What is left of the child: reaped, killed and reaped, or still there.\<close>

datatype child_end = NeverSpawned | ChildReaped | ChildKilled | ChildLeft

record run_outcome =
  ro_success :: bool
  ro_status :: string
  ro_stdout :: "u8 list"
  ro_stderr :: "u8 list"

record run_turn =
  rn_wait :: child_wait
  rn_stdout :: "probe_read list"
  rn_stderr :: "probe_read list"
  rn_now :: nat

record run_answers =
  ra_spawn :: "string option"
  ra_pipes :: "string option"
  ra_start :: nat
  ra_turns :: "run_turn list"
  ra_tail :: "(probe_read list \<times> probe_read list) list"

text \<open>The reads after the child has exited: at most 51 rounds, one millisecond apart.\<close>

fun drain_tail ::
  "nat \<Rightarrow> (probe_read list \<times> probe_read list) list \<Rightarrow> bool \<Rightarrow> bool \<Rightarrow> u8 list \<Rightarrow> u8 list
     \<Rightarrow> (string, u8 list \<times> u8 list) result" where
  "drain_tail waits reads out_eof err_eof out err =
     (if out_eof \<and> err_eof then Inr (out, err)
      else (case reads of
          [] \<Rightarrow> Inl ''pipe drain stalled after child exit''
        | (o_reads, e_reads) # rest \<Rightarrow>
            (case drain_pipe o_reads out of
               (Inl e, _) \<Rightarrow> Inl e
             | (Inr o1, out1) \<Rightarrow>
                 (case drain_pipe e_reads err of
                    (Inl e, _) \<Rightarrow> Inl e
                  | (Inr e1, err1) \<Rightarrow>
                      if (out_eof \<or> o1) \<and> (err_eof \<or> e1) then Inr (out1, err1)
                      else if 50 \<le> waits then Inl ''pipe drain stalled after child exit''
                      else drain_tail (waits + 1) rest (out_eof \<or> o1) (err_eof \<or> e1) out1 err1))))"

text \<open>The loop; None when the answers end before it does. Durations are in nanoseconds.\<close>

fun run_loop ::
  "nat \<Rightarrow> nat \<Rightarrow> (probe_read list \<times> probe_read list) list \<Rightarrow> run_turn list \<Rightarrow> u8 list \<Rightarrow> u8 list
     \<Rightarrow> ((string, run_outcome) result \<times> child_end) option" where
  "run_loop timeout deadline tail [] out err = None"
| "run_loop timeout deadline tail (t # ts) out err =
     (case rn_wait t of
        ChildWaitFailed e \<Rightarrow> Some (Inl (''wait failed: '' @ e), ChildLeft)
      | w \<Rightarrow>
          (let left = (case w of ChildExited ok st \<Rightarrow> ChildReaped | _ \<Rightarrow> ChildLeft) in
           case drain_pipe (rn_stdout t) out of
             (Inl e, _) \<Rightarrow> Some (Inl e, left)
           | (Inr out_eof, out1) \<Rightarrow>
               (case drain_pipe (rn_stderr t) err of
                  (Inl e, _) \<Rightarrow> Some (Inl e, left)
                | (Inr err_eof, err1) \<Rightarrow>
                    (case w of
                       ChildExited ok st \<Rightarrow>
                         Some (rbind (drain_tail 0 tail out_eof err_eof out1 err1) (\<lambda>(o2, e2).
                           Inr \<lparr>ro_success = ok, ro_status = st, ro_stdout = o2, ro_stderr = e2\<rparr>), ChildReaped)
                     | _ \<Rightarrow>
                         if deadline \<le> rn_now t
                         then Some (Inl (''timed out after '' @ show_nat (timeout div 1000000)
                                @ '' ms and was killed''), ChildKilled)
                         else run_loop timeout deadline tail ts out1 err1))))"

definition run_bounded ::
  "nat \<Rightarrow> run_answers \<Rightarrow> ((string, run_outcome) result \<times> child_end) option" where
  "run_bounded timeout a =
     (case ra_spawn a of
        Some e \<Rightarrow> Some (Inl (''spawn failed: '' @ e), NeverSpawned)
      | None \<Rightarrow>
          (case ra_pipes a of
             Some e \<Rightarrow> Some (Inl e, ChildLeft)
           | None \<Rightarrow> run_loop timeout (ra_start a + timeout) (ra_tail a) (ra_turns a) [] []))"

lemma drain_pipe_bound:
  "drain_pipe rds buffer = (r, buffer') \<Longrightarrow> length buffer \<le> max_probe_output_bytes
     \<Longrightarrow> length buffer' \<le> max_probe_output_bytes"
  by (induction rds buffer rule: drain_pipe.induct)
    (auto simp: Let_def split: probe_read.splits if_splits)

lemma drain_tail_bound:
  assumes "drain_tail w reads oe ee out err = Inr (o2, e2)"
    "length out \<le> max_probe_output_bytes" "length err \<le> max_probe_output_bytes"
  shows "length o2 \<le> max_probe_output_bytes \<and> length e2 \<le> max_probe_output_bytes"
  using assms
proof (induction reads arbitrary: w oe ee out err)
  case Nil
  then show ?case by (auto split: if_splits)
next
  case (Cons rd reads)
  obtain ro re where rd: "rd = (ro, re)" by (cases rd)
  obtain a out1 where o1: "drain_pipe ro out = (a, out1)" by (cases "drain_pipe ro out")
  obtain b err1 where e1: "drain_pipe re err = (b, err1)" by (cases "drain_pipe re err")
  note bounds = drain_pipe_bound [OF o1 Cons.prems(2)] drain_pipe_bound [OF e1 Cons.prems(3)]
  show ?case
    using Cons.prems bounds Cons.IH [of "w + 1" _ _ out1 err1]
    by (subst (asm) drain_tail.simps)
      (auto simp: rd o1 e1 split: if_splits sum.splits simp del: drain_tail.simps)
qed

lemma run_loop_bound:
  assumes "run_loop timeout deadline tail ts out err = Some (Inr ro, ce)"
    "length out \<le> max_probe_output_bytes" "length err \<le> max_probe_output_bytes"
  shows "length (ro_stdout ro) \<le> max_probe_output_bytes \<and> length (ro_stderr ro) \<le> max_probe_output_bytes
    \<and> ce = ChildReaped"
  using assms
proof (induction ts arbitrary: out err)
  case (Cons t ts)
  obtain a out1 where o1: "drain_pipe (rn_stdout t) out = (a, out1)" by (cases "drain_pipe (rn_stdout t) out")
  obtain b err1 where e1: "drain_pipe (rn_stderr t) err = (b, err1)" by (cases "drain_pipe (rn_stderr t) err")
  note bounds = drain_pipe_bound [OF o1 Cons.prems(2)] drain_pipe_bound [OF e1 Cons.prems(3)]
  show ?case
    using Cons.prems bounds Cons.IH [of out1 err1] drain_tail_bound [of 0 tail _ _ out1 err1]
    by (auto simp: o1 e1 Let_def result_simps simp del: drain_tail.simps
        split: child_wait.splits if_splits sum.splits)
qed simp

lemma run_loop_ends:
  "t \<in> set ts \<Longrightarrow> deadline \<le> rn_now t \<Longrightarrow> run_loop timeout deadline tail ts out err \<noteq> None"
  by (induction ts arbitrary: out err)
    (auto simp: Let_def simp del: drain_tail.simps split: child_wait.splits sum.splits prod.splits)

definition reads_clean :: "probe_read list \<Rightarrow> bool" where
  "reads_clean rds \<longleftrightarrow> list_all (\<lambda>rd. case rd of ReadBroken _ \<Rightarrow> False | _ \<Rightarrow> True) rds"

definition turn_clean :: "run_turn \<Rightarrow> bool" where
  "turn_clean t \<longleftrightarrow> (case rn_wait t of ChildWaitFailed _ \<Rightarrow> False | _ \<Rightarrow> True)
     \<and> reads_clean (rn_stdout t) \<and> reads_clean (rn_stderr t)"

lemma drain_pipe_clean: "reads_clean rds \<Longrightarrow> \<exists>b. fst (drain_pipe rds buffer) = Inr b"
  by (induction rds buffer rule: drain_pipe.induct)
    (auto simp: reads_clean_def Let_def split: probe_read.splits if_splits)

lemma run_loop_clean:
  "list_all turn_clean ts \<Longrightarrow> run_loop timeout deadline tail ts out err = Some (r, c) \<Longrightarrow> c \<noteq> ChildLeft"
proof (induction ts arbitrary: out err)
  case (Cons t ts)
  then have t: "turn_clean t" and ts: "list_all turn_clean ts" by simp_all
  obtain a out1 where o1: "drain_pipe (rn_stdout t) out = (Inr a, out1)"
    using drain_pipe_clean [of "rn_stdout t" out] t by (auto simp: turn_clean_def prod_eq_iff)
  obtain b err1 where e1: "drain_pipe (rn_stderr t) err = (Inr b, err1)"
    using drain_pipe_clean [of "rn_stderr t" err] t by (auto simp: turn_clean_def prod_eq_iff)
  show ?case
    using Cons.IH [OF ts, of out1 err1] Cons.prems(2) t
    by (auto simp: o1 e1 Let_def turn_clean_def simp del: drain_tail.simps split: child_wait.splits if_splits)
qed simp

text \<open>
  a bounded run ends at the first turn of its loop past the deadline; what it returns of the child's
  output is at most 64 KiB from each pipe and then the child has been reaped; and as long as no wait
  and no read of a pipe fails, the child is reaped or killed whatever it does.
\<close>

theorem run_bounded_contained:
  assumes "ra_spawn a = None" "ra_pipes a = None" "t \<in> set (ra_turns a)" "ra_start a + timeout \<le> rn_now t"
  shows "\<exists>r c. run_bounded timeout a = Some (r, c)
    \<and> (\<forall>ro. r = Inr ro \<longrightarrow> c = ChildReaped \<and> length (ro_stdout ro) \<le> max_probe_output_bytes
         \<and> length (ro_stderr ro) \<le> max_probe_output_bytes)
    \<and> (list_all turn_clean (ra_turns a) \<longrightarrow> c \<noteq> ChildLeft)"
proof -
  have eq: "run_bounded timeout a = run_loop timeout (ra_start a + timeout) (ra_tail a) (ra_turns a) [] []"
    using assms by (simp add: run_bounded_def)
  then obtain r c where rc: "run_bounded timeout a = Some (r, c)"
    using run_loop_ends [OF assms(3,4), of timeout "ra_tail a" "[]" "[]"] by (cases "run_bounded timeout a") auto
  then have loop: "run_loop timeout (ra_start a + timeout) (ra_tail a) (ra_turns a) [] [] = Some (r, c)"
    by (simp add: eq)
  have "\<forall>ro. r = Inr ro \<longrightarrow> c = ChildReaped \<and> length (ro_stdout ro) \<le> max_probe_output_bytes
      \<and> length (ro_stderr ro) \<le> max_probe_output_bytes"
    using run_loop_bound [of timeout _ "ra_tail a" "ra_turns a" "[]" "[]" _ c] loop by auto
  with rc run_loop_clean [OF _ loop] show ?thesis by blast
qed

lemma run_bounded_contained_witness:
  "\<exists>r c. run_bounded 10 \<lparr>ra_spawn = None, ra_pipes = None, ra_start = 0,
       ra_turns = [\<lparr>rn_wait = ChildRunning, rn_stdout = [], rn_stderr = [], rn_now = 10\<rparr>], ra_tail = []\<rparr>
     = Some (r, c) \<and> c \<noteq> ChildLeft"
proof -
  let ?t = "\<lparr>rn_wait = ChildRunning, rn_stdout = [], rn_stderr = [], rn_now = 10\<rparr>"
  let ?a = "\<lparr>ra_spawn = None, ra_pipes = None, ra_start = 0, ra_turns = [?t], ra_tail = []\<rparr>"
  have "turn_clean ?t" by (simp add: turn_clean_def reads_clean_def)
  with run_bounded_contained [of ?a ?t 10] show ?thesis by auto
qed

text \<open>A read that fails ends the run and leaves the child behind, neither killed nor reaped.\<close>

lemma run_bounded_leaves_child:
  "run_bounded timeout \<lparr>ra_spawn = None, ra_pipes = None, ra_start = start,
     ra_turns = \<lparr>rn_wait = ChildRunning, rn_stdout = [ReadBroken e], rn_stderr = er, rn_now = n\<rparr> # ts, ra_tail = rest\<rparr>
   = Some (Inl (''pipe read failed: '' @ e), ChildLeft)"
  by (simp add: run_bounded_def)

section \<open>Lines and words\<close>

text \<open>\<open>str::lines\<close>, \<open>split\_once\<close>, \<open>split\_whitespace\<close>, \<open>strip\_prefix\<close> on code points.\<close>

fun split_lines :: "nat list \<Rightarrow> nat list \<Rightarrow> nat list list" where
  "split_lines acc [] = (if acc = [] then [] else [rev acc])"
| "split_lines acc (c # cs) = (if c = 10 then rev acc # split_lines [] cs else split_lines (c # acc) cs)"

definition chomp :: "nat list \<Rightarrow> nat list" where
  "chomp l = (if l \<noteq> [] \<and> last l = 13 then butlast l else l)"

definition str_lines :: "nat list \<Rightarrow> nat list list" where
  "str_lines cs =
     (let ls = split_lines [] cs in
      if cs \<noteq> [] \<and> last cs \<noteq> 10 then map chomp (butlast ls) @ [last ls] else map chomp ls)"

fun split_once :: "nat \<Rightarrow> nat list \<Rightarrow> (nat list \<times> nat list) option" where
  "split_once d [] = None"
| "split_once d (c # cs) =
     (if c = d then Some ([], cs) else map_option (\<lambda>(a, b). (c # a, b)) (split_once d cs))"

fun words_of :: "nat list \<Rightarrow> nat list \<Rightarrow> nat list list" where
  "words_of acc [] = (if acc = [] then [] else [rev acc])"
| "words_of acc (c # cs) =
     (if is_unicode_whitespace c then (if acc = [] then words_of [] cs else rev acc # words_of [] cs)
      else words_of (c # acc) cs)"

definition split_whitespace :: "nat list \<Rightarrow> nat list list" where
  "split_whitespace cs = words_of [] cs"

definition strip_prefix :: "nat list \<Rightarrow> nat list \<Rightarrow> nat list option" where
  "strip_prefix p s = (if take (length p) s = p then Some (drop (length p) s) else None)"

definition strip_suffix :: "nat list \<Rightarrow> nat list \<Rightarrow> nat list option" where
  "strip_suffix p s = map_option rev (strip_prefix (rev p) (rev s))"

section \<open>The display environment\<close>

definition display_env_keys :: "string list" where "display_env_keys = [''WAYLAND_DISPLAY'', ''DISPLAY'']"
definition recovery_timeout :: nat where "recovery_timeout = 1500000000"
definition max_display_value_bytes :: nat where "max_display_value_bytes = 128"

definition display_unavailable_hint :: string where
  "display_unavailable_hint =
     ''the wallpaper service cannot reach the display server (it started before the desktop session did); run ''
     @ [CHR 0x60] @ ''systemctl --user restart kwe-daemon'' @ [CHR 0x60]"

definition valid_display_value :: "string \<Rightarrow> bool" where
  "valid_display_value v \<longleftrightarrow> v \<noteq> [] \<and> length v \<le> max_display_value_bytes
     \<and> list_all (\<lambda>c. 33 \<le> byte_val c \<and> byte_val c \<le> 126 \<and> byte_val c \<notin> {34, 39, 96, 36, 92}) v"

definition unquote :: "nat list \<Rightarrow> nat list" where
  "unquote v = (case Option.bind (strip_prefix [34] v) (strip_suffix [34]) of Some u \<Rightarrow> u | None \<Rightarrow> v)"

definition display_entry :: "nat list \<Rightarrow> (string \<times> string) option" where
  "display_entry line =
     (case split_once 61 line of
        None \<Rightarrow> None
      | Some (key, v) \<Rightarrow>
          if chars_str key \<notin> set display_env_keys then None
          else (let u = chars_str (unquote v) in if valid_display_value u then Some (chars_str key, u) else None))"

definition parse_display_env :: "string \<Rightarrow> (string \<times> string) list" where
  "parse_display_env s = List.map_filter display_entry (str_lines (str_chars s))"

definition find_in_path ::
  "(string \<Rightarrow> bool) \<Rightarrow> string option \<Rightarrow> string list \<Rightarrow> string option" where
  "find_in_path is_file path_var names =
     Option.bind path_var (\<lambda>p.
       List.find is_file (concat (map (\<lambda>dir. map (path_join dir) names) (split_on (CHR '':'') p))))"

definition resolve_systemctl ::
  "(string \<Rightarrow> bool) \<Rightarrow> string option \<Rightarrow> string option \<Rightarrow> (probe_error, string) result" where
  "resolve_systemctl is_file path_var binary =
     (case binary of
        Some b \<Rightarrow> Inr b
      | None \<Rightarrow> ok_or (find_in_path is_file path_var [''systemctl''])
          (PbDisplayUnavailable (display_unavailable_hint @ '' (systemctl is not on PATH)'')))"

definition resolve_qdbus ::
  "(string \<Rightarrow> bool) \<Rightarrow> string option \<Rightarrow> string option \<Rightarrow> (probe_error, string) result" where
  "resolve_qdbus is_file path_var binary =
     (case binary of
        Some b \<Rightarrow> Inr b
      | None \<Rightarrow> ok_or (find_in_path is_file path_var [''qdbus'', ''qdbus6''])
          (PbUnreachable ''qdbus (or qdbus6) is not on PATH''))"

text \<open>The probe: its evaluator and configuration, and the recovered display environment it keeps.\<close>

datatype shell_evaluator = EvQdbus string "string option" | EvExternal string

type_synonym command_line = "string \<times> string list"

record shell_probe =
  sh_evaluator :: shell_evaluator
  sh_kscreen_binary :: string
  sh_systemctl_binary :: "string option"
  sh_timeout :: nat
  sh_display_env :: "(string \<times> string) list option"

text \<open>What the process sees of its system: \<open>sy\_run\<close> is the outcome of one bounded run of a command.\<close>

record system_view =
  sy_env :: "string \<Rightarrow> string option"
  sy_is_file :: "string \<Rightarrow> bool"
  sy_run :: "command_line \<Rightarrow> (string \<times> string) list \<Rightarrow> nat \<Rightarrow> (string, run_outcome) result"

definition ambient_present :: "system_view \<Rightarrow> bool" where
  "ambient_present y \<longleftrightarrow>
     list_ex (\<lambda>k. case sy_env y k of Some v \<Rightarrow> v \<noteq> [] | None \<Rightarrow> False) display_env_keys"

definition text_of :: "u8 list \<Rightarrow> string" where
  "text_of bytes = from_utf8_lossy (bytes_to_str bytes)"

definition trim_text :: "string \<Rightarrow> string" where
  "trim_text s = chars_str (trim_chars (str_chars s))"

definition recover_display_env ::
  "system_view \<Rightarrow> shell_probe \<Rightarrow> (probe_error, (string \<times> string) list) result" where
  "recover_display_env y p =
     rbind (resolve_systemctl (sy_is_file y) (sy_env y ''PATH'') (sh_systemctl_binary p)) (\<lambda>binary.
     rbind (map_err (\<lambda>e. PbDisplayUnavailable (display_unavailable_hint
              @ '' (systemctl show-environment: '' @ e @ '')''))
              (sy_run y (binary, [''--user'', ''show-environment'']) [] (min (sh_timeout p) recovery_timeout)))
       (\<lambda>ro.
     if \<not> ro_success ro
     then Inl (PbDisplayUnavailable (display_unavailable_hint
            @ '' (systemctl show-environment exited '' @ ro_status ro @ '')''))
     else (let entries = parse_display_env (text_of (ro_stdout ro)) in
           if entries = [] then Inl (PbDisplayUnavailable display_unavailable_hint) else Inr entries)))"

definition display_env ::
  "system_view \<Rightarrow> shell_probe \<Rightarrow> (probe_error, (string \<times> string) list) result \<times> shell_probe" where
  "display_env y p =
     (if ambient_present y then (Inr [], p)
      else case sh_display_env p of
        Some entries \<Rightarrow> (Inr entries, p)
      | None \<Rightarrow>
          (case recover_display_env y p of
             Inl e \<Rightarrow> (Inl e, p)
           | Inr entries \<Rightarrow> (Inr entries, p\<lparr>sh_display_env := Some entries\<rparr>)))"

definition evaluate_command :: "system_view \<Rightarrow> shell_probe \<Rightarrow> string \<Rightarrow> (probe_error, command_line) result" where
  "evaluate_command y p script =
     (case sh_evaluator p of
        EvQdbus service binary \<Rightarrow>
          rbind (resolve_qdbus (sy_is_file y) (sy_env y ''PATH'') binary) (\<lambda>b.
            Inr (b, [service, ''/PlasmaShell'', ''evaluateScript'', script]))
      | EvExternal path \<Rightarrow> Inr (path, [script]))"

definition refusal :: "string \<Rightarrow> run_outcome \<Rightarrow> probe_error" where
  "refusal name ro =
     (let detail = trim_text (text_of (ro_stderr ro)) in
      PbRejected (if detail = [] then name @ '' exited '' @ ro_status ro else detail))"

definition evaluate_script :: "system_view \<Rightarrow> shell_probe \<Rightarrow> string \<Rightarrow> (probe_error, string) result" where
  "evaluate_script y p script =
     rbind (evaluate_command y p script) (\<lambda>cmd.
     rbind (map_err classify_probe_failure (sy_run y cmd [] (sh_timeout p))) (\<lambda>ro.
     if \<not> ro_success ro then Inl (refusal ''evaluateScript'' ro)
     else Inr (trim_text (text_of (ro_stdout ro)))))"

section \<open>The system's outputs\<close>

record system_output =
  so_name :: string
  so_enabled :: bool
  so_connected :: bool
  so_geometry :: "(int \<times> int \<times> int \<times> int) option"

definition ascii_alphabetic :: "nat \<Rightarrow> bool" where
  "ascii_alphabetic c \<longleftrightarrow> 65 \<le> c \<and> c \<le> 90 \<or> 97 \<le> c \<and> c \<le> 122"

lemma drop_while_short: "length (dropWhile P xs) - Suc 0 < Suc (Suc (length xs))"
  using length_dropWhile_le [of P xs] by linarith

function strip_ansi :: "nat list \<Rightarrow> nat list" where
  "strip_ansi [] = []"
| "strip_ansi (c # cs) =
     (if c \<noteq> 27 then c # strip_ansi cs
      else case cs of
        [] \<Rightarrow> []
      | d # r \<Rightarrow>
          if d = 91 then strip_ansi (drop 1 (dropWhile (\<lambda>x. \<not> ascii_alphabetic x) r))
          else if d = 93 then strip_ansi (drop 1 (dropWhile (\<lambda>x. x \<noteq> 7) r))
          else strip_ansi r)"
  by pat_completeness auto
termination
  by (relation "measure length") (auto simp: drop_while_short)

definition all_digits :: "nat list \<Rightarrow> bool" where
  "all_digits cs \<longleftrightarrow> cs \<noteq> [] \<and> list_all (\<lambda>c. 48 \<le> c \<and> c \<le> 57) cs"

definition digits_value :: "nat list \<Rightarrow> int" where
  "digits_value cs = foldl (\<lambda>v c. 10 * v + int (c - 48)) 0 cs"

text \<open>\<open>i32::from\_str\<close>.\<close>

definition parse_i32 :: "nat list \<Rightarrow> int option" where
  "parse_i32 cs =
     (let (neg, ds) = (case cs of c # r \<Rightarrow> if c = 45 then (True, r) else if c = 43 then (False, r) else (False, cs)
                                | [] \<Rightarrow> (False, [])) in
      if \<not> all_digits ds then None
      else (let v = (if neg then - digits_value ds else digits_value ds) in
            if - 2147483648 \<le> v \<and> v \<le> 2147483647 then Some v else None))"

definition parse_geometry :: "nat list \<Rightarrow> (int \<times> int \<times> int \<times> int) option" where
  "parse_geometry s =
     (case split_whitespace s of
        position # extent # _ \<Rightarrow>
          Option.bind (split_once 44 position) (\<lambda>(x, y).
          Option.bind (split_once 120 extent) (\<lambda>(w, h).
          Option.bind (parse_i32 x) (\<lambda>x'.
          Option.bind (parse_i32 y) (\<lambda>y'.
          Option.bind (parse_i32 w) (\<lambda>w'.
          Option.bind (parse_i32 h) (\<lambda>h'. Some (x', y', w', h')))))))
      | _ \<Rightarrow> None)"

text \<open>One line: the outputs that are complete, and the one that is being read.\<close>

definition kscreen_attribute :: "nat list \<Rightarrow> system_output \<Rightarrow> system_output" where
  "kscreen_attribute line out =
     (if line = str_bytes ''enabled'' then out\<lparr>so_enabled := True\<rparr>
      else if line = str_bytes ''disabled'' then out\<lparr>so_enabled := False\<rparr>
      else if line = str_bytes ''connected'' then out\<lparr>so_connected := True\<rparr>
      else if line = str_bytes ''disconnected'' then out\<lparr>so_connected := False\<rparr>
      else case strip_prefix (str_bytes ''Geometry: '') line of
        Some g \<Rightarrow> out\<lparr>so_geometry := parse_geometry g\<rparr>
      | None \<Rightarrow> out)"

definition kscreen_line ::
  "nat list \<Rightarrow> system_output list \<times> system_output option \<Rightarrow> system_output list \<times> system_output option" where
  "kscreen_line raw st =
     (case st of (outs, current) \<Rightarrow>
      let line = trim_chars (strip_ansi raw) in
      case strip_prefix (str_bytes ''Output: '') line of
        Some rest \<Rightarrow>
          (let outs' = (case current of Some o1 \<Rightarrow> outs @ [o1] | None \<Rightarrow> outs) in
           case split_whitespace rest of
             _ # name # _ \<Rightarrow> (outs', Some \<lparr>so_name = chars_str name, so_enabled = True, so_connected = False,
                                so_geometry = None\<rparr>)
           | _ \<Rightarrow> (outs', None))
      | None \<Rightarrow> (outs, map_option (kscreen_attribute line) current))"

definition parse_kscreen_doctor :: "string \<Rightarrow> system_output list" where
  "parse_kscreen_doctor s =
     (case fold kscreen_line (str_lines (str_chars s)) ([], None) of
        (outs, Some o1) \<Rightarrow> outs @ [o1]
      | (outs, None) \<Rightarrow> outs)"

definition system_outputs ::
  "system_view \<Rightarrow> shell_probe \<Rightarrow> (probe_error, system_output list) result \<times> shell_probe" where
  "system_outputs y p =
     (case display_env y p of
        (Inl e, p1) \<Rightarrow> (Inl e, p1)
      | (Inr recovered, p1) \<Rightarrow>
          (let forget = (if recovered = [] then p1 else p1\<lparr>sh_display_env := None\<rparr>) in
           case sy_run y (sh_kscreen_binary p1, [''-o'']) recovered (sh_timeout p1) of
             Inl e \<Rightarrow> (Inl (classify_probe_failure (''kscreen-doctor: '' @ e)), forget)
           | Inr ro \<Rightarrow>
               if \<not> ro_success ro then (Inl (refusal ''kscreen-doctor'' ro), forget)
               else (Inr (parse_kscreen_doctor (text_of (ro_stdout ro))), p1)))"

section \<open>The outputs as the daemon sees them\<close>

record output_info =
  oi_name :: string
  oi_screen :: int
  oi_desktop_id :: "u64 option"
  oi_desktop_index :: "nat option"
  oi_geometry :: "(int \<times> int \<times> int \<times> int) option"
  oi_enabled :: bool
  oi_connected :: bool
  oi_wallpaper_plugin :: "string option"
  oi_config_group :: "string list"
  oi_image :: "string option"

record probe_desktop =
  dk_index :: nat
  dk_id :: u64
  dk_screen :: int
  dk_wp :: string
  dk_image :: "string option"

record probe_reply =
  rp_desktops :: "probe_desktop list"
  rp_connectors :: "(string, int) mapping"

definition parse_probe_reply ::
  "(string \<Rightarrow> (string, probe_reply) result) \<Rightarrow> string \<Rightarrow> (probe_error, probe_reply) result" where
  "parse_probe_reply json s =
     (if s = [] then Inl (PbParse ''empty probe reply (the shell returned no print() output)'')
      else map_err (\<lambda>e. PbParse (''probe reply is not the expected JSON: '' @ e)) (json s))"

definition assemble_output :: "probe_desktop list \<Rightarrow> (string, int) mapping \<Rightarrow> system_output \<Rightarrow> output_info" where
  "assemble_output desktops connectors out =
     (let screen = (case Mapping.lookup connectors (so_name out) of Some n \<Rightarrow> n | None \<Rightarrow> - 1);
          desktop = (if 0 \<le> screen then List.find (\<lambda>d. dk_screen d = screen) desktops else None)
      in \<lparr>oi_name = so_name out, oi_screen = screen,
          oi_desktop_id = map_option dk_id desktop, oi_desktop_index = map_option dk_index desktop,
          oi_geometry = so_geometry out, oi_enabled = so_enabled out, oi_connected = so_connected out,
          oi_wallpaper_plugin = map_option dk_wp desktop,
          oi_config_group = (case desktop of Some d \<Rightarrow> [''Wallpaper'', dk_wp d, ''General''] | None \<Rightarrow> []),
          oi_image = Option.bind (Option.bind desktop dk_image) (\<lambda>i. if i = [] then None else Some i)\<rparr>)"

definition assemble_outputs ::
  "system_output list \<Rightarrow> probe_desktop list \<Rightarrow> (string, int) mapping \<Rightarrow> output_info list" where
  "assemble_outputs outs desktops connectors = map (assemble_output desktops connectors) outs"

text \<open>\<open>enumerate\_fresh\<close> over the answers of the probe.\<close>

definition enumerate_fresh ::
  "(string \<Rightarrow> (string, probe_reply) result) \<Rightarrow> (probe_error, system_output list) result
     \<Rightarrow> (string \<Rightarrow> (probe_error, string) result) \<Rightarrow> (apply_error, output_info list) result" where
  "enumerate_fresh json listed evaluate =
     rbind (map_err enumeration_error listed) (\<lambda>outs.
     rbind (map_err (\<lambda>_. ApShellUnreachable ''cannot build the enumeration script'')
              (probe_script (map so_name outs))) (\<lambda>script.
     rbind (map_err enumeration_error (evaluate script)) (\<lambda>reply.
     rbind (map_err enumeration_error (parse_probe_reply json reply)) (\<lambda>r.
       Inr (assemble_outputs outs (rp_desktops r) (rp_connectors r))))))"

definition output_cache_ttl :: nat where "output_cache_ttl = 5000000000"

record output_cache =
  oc_entries :: "output_info list"
  oc_cached_at :: "nat option"

definition cache_stale :: output_cache where
  "cache_stale = \<lparr>oc_entries = [], oc_cached_at = None\<rparr>"

definition cache_fresh :: "nat \<Rightarrow> output_cache \<Rightarrow> bool" where
  "cache_fresh now c \<longleftrightarrow> (case oc_cached_at c of Some at \<Rightarrow> now - at < output_cache_ttl | None \<Rightarrow> False)"

definition outputs_call ::
  "nat \<Rightarrow> (apply_error, output_info list) result \<Rightarrow> output_cache
     \<Rightarrow> (apply_error, output_info list) result \<times> output_cache" where
  "outputs_call now fresh_answer c =
     (if cache_fresh now c then (Inr (oc_entries c), c)
      else case fresh_answer of
        Inl e \<Rightarrow> (Inl e, c)
      | Inr entries \<Rightarrow> (Inr entries, \<lparr>oc_entries = entries, oc_cached_at = Some now\<rparr>))"

section \<open>Properties\<close>

lemma find_first: "List.find P xs = Some x \<Longrightarrow> P x \<and> x \<in> set xs"
  by (auto simp: find_Some_iff)

definition bound_desktop :: "probe_desktop list \<Rightarrow> (string, int) mapping \<Rightarrow> system_output \<Rightarrow> probe_desktop option" where
  "bound_desktop desktops connectors out =
     (case Mapping.lookup connectors (so_name out) of
        None \<Rightarrow> None
      | Some n \<Rightarrow> if 0 \<le> n then List.find (\<lambda>d. dk_screen d = n) desktops else None)"

lemma bound_desktop_Some:
  "bound_desktop desktops connectors out = Some d \<Longrightarrow>
     d \<in> set desktops \<and> 0 \<le> dk_screen d \<and> Mapping.lookup connectors (so_name out) = Some (dk_screen d)"
  by (auto simp: bound_desktop_def split: option.splits if_splits dest!: find_first)

lemma bound_desktop_None:
  "bound_desktop desktops connectors out = None \<Longrightarrow>
     Mapping.lookup connectors (so_name out) = Some n \<Longrightarrow> 0 \<le> n \<Longrightarrow> d \<in> set desktops \<Longrightarrow> dk_screen d \<noteq> n"
  by (auto simp: bound_desktop_def find_None_iff split: option.splits if_splits)

lemma assemble_output_unbound:
  assumes "bound_desktop desktops connectors out = None"
  shows "oi_name (assemble_output desktops connectors out) = so_name out"
    "oi_desktop_index (assemble_output desktops connectors out) = None"
    "oi_wallpaper_plugin (assemble_output desktops connectors out) = None"
    "oi_image (assemble_output desktops connectors out) = None"
    "oi_config_group (assemble_output desktops connectors out) = []"
  using assms by (simp_all add: assemble_output_def bound_desktop_def Let_def split: option.splits if_splits)

lemma assemble_output_bound:
  assumes "bound_desktop desktops connectors out = Some d"
  shows "assemble_output desktops connectors out =
    \<lparr>oi_name = so_name out, oi_screen = dk_screen d, oi_desktop_id = Some (dk_id d),
     oi_desktop_index = Some (dk_index d), oi_geometry = so_geometry out, oi_enabled = so_enabled out,
     oi_connected = so_connected out, oi_wallpaper_plugin = Some (dk_wp d),
     oi_config_group = [''Wallpaper'', dk_wp d, ''General''],
     oi_image = Option.bind (dk_image d) (\<lambda>i. if i = [] then None else Some i)\<rparr>"
  using assms bound_desktop_Some [OF assms]
  by (simp add: assemble_output_def bound_desktop_def)

text \<open>
  every output of the system appears once and in its place; a desktop is bound to it only through a
  connector with a screen that is not negative, and plugin, group and image are those of that desktop: an
  orphaned containment (screen -1) is never taken for the desktop of an output.
\<close>

theorem assemble_outputs_bound:
  assumes "infos = assemble_outputs outs desktops connectors" "i < length outs"
  shows "length infos = length outs \<and> oi_name (infos ! i) = so_name (outs ! i)
    \<and> (case oi_desktop_index (infos ! i) of
         None \<Rightarrow> oi_wallpaper_plugin (infos ! i) = None \<and> oi_image (infos ! i) = None
           \<and> oi_config_group (infos ! i) = []
           \<and> (\<forall>n. Mapping.lookup connectors (so_name (outs ! i)) = Some n \<longrightarrow> 0 \<le> n \<longrightarrow>
                (\<forall>d \<in> set desktops. dk_screen d \<noteq> n))
       | Some k \<Rightarrow> \<exists>d \<in> set desktops. dk_index d = k \<and> 0 \<le> dk_screen d
           \<and> Mapping.lookup connectors (so_name (outs ! i)) = Some (dk_screen d)
           \<and> oi_screen (infos ! i) = dk_screen d \<and> oi_wallpaper_plugin (infos ! i) = Some (dk_wp d)
           \<and> oi_config_group (infos ! i) = [''Wallpaper'', dk_wp d, ''General'']
           \<and> oi_image (infos ! i) \<noteq> Some [])"
proof -
  let ?o = "outs ! i" and ?b = "infos ! i"
  have b: "?b = assemble_output desktops connectors ?o" and len: "length infos = length outs"
    using assms by (simp_all add: assemble_outputs_def)
  show ?thesis
  proof (cases "bound_desktop desktops connectors ?o")
    case None
    then show ?thesis using len by (auto simp: b assemble_output_unbound dest: bound_desktop_None)
  next
    case (Some d)
    have "oi_image ?b \<noteq> Some []"
      by (auto simp: b assemble_output_bound [OF Some] split: bind_splits if_splits)
    with bound_desktop_Some [OF Some] len show ?thesis
      by (auto simp: b assemble_output_bound [OF Some])
  qed
qed

lemma assemble_outputs_bound_witness:
  "\<exists>d \<in> set [\<lparr>dk_index = 0, dk_id = 7, dk_screen = - 1, dk_wp = ''w'', dk_image = None\<rparr>,
        \<lparr>dk_index = 1, dk_id = 8, dk_screen = 0, dk_wp = ''v'', dk_image = None\<rparr>].
     dk_index d = 1 \<and> 0 \<le> dk_screen d"
proof -
  let ?ds = "[\<lparr>dk_index = 0, dk_id = 7, dk_screen = - 1, dk_wp = ''w'', dk_image = None\<rparr>,
        \<lparr>dk_index = 1, dk_id = 8, dk_screen = 0, dk_wp = ''v'', dk_image = None\<rparr>] :: probe_desktop list"
  let ?outs = "[\<lparr>so_name = ''DP-1'', so_enabled = True, so_connected = True, so_geometry = None\<rparr>]"
  let ?c = "Mapping.update ''DP-1'' 0 Mapping.empty"
  have "oi_desktop_index (assemble_outputs ?outs ?ds ?c ! 0) = Some 1"
    by (simp add: assemble_outputs_def assemble_output_def)
  with assemble_outputs_bound [OF refl, of 0 ?outs ?ds ?c] show ?thesis by simp
qed

end
