(* ===== verification/Apply_Transaction.thy ===== *)
theory Apply_Transaction
  imports Apply_Outputs
begin

text \<open>
  \<open>crates/kwe-daemon/src/apply.rs\<close>, the apply transaction of both lanes and the restore. A record of answers
  holds what the supervisor, the shell, the clock and the file system returned to one call; the state
  is the assignments store and the trace of what was done to the supervisor and the shell. The preparation of
  a transaction only reads, so it is a function of the store. A detail that prints values in their debug
  form is kept as its fixed first part. \<open>canonicalize\<close>, SHA-256 and \<open>serde\_json\<close> are parameters.
\<close>

section \<open>Data\<close>

definition kwe_plugin :: string where "kwe_plugin = ''org.kde.kwe.wallpaper''"
definition image_plugin :: string where "image_plugin = ''org.kde.image''"
definition promotion_poll :: nat where "promotion_poll = 200000000"
definition max_frame_edge :: nat where "max_frame_edge = 2560"
definition min_frame_edge :: nat where "min_frame_edge = 64"
definition default_apply_width :: u32 where "default_apply_width = 960"
definition default_apply_height :: u32 where "default_apply_height = 540"
definition default_apply_fps :: u32 where "default_apply_fps = 30"

datatype project_kind = ProjectScene | ProjectVideo | ProjectWeb | ProjectUnknown | ProjectInvalid

text \<open>The fields of a catalog item that an apply reads (\<open>crates/kwe-core/src/scan.rs\<close>).\<close>

record catalog_item =
  ci_workshop_id :: string
  ci_kind :: project_kind
  ci_content_root :: string
  ci_entry_file :: "string option"
  ci_metadata_hash :: "string option"
  ci_workshop_state :: string

record apply_params =
  ap_output :: string
  ap_wallpaper_id :: string
  ap_kind :: renderer_kind
  ap_content :: "string option"
  ap_width :: "u32 option"
  ap_height :: "u32 option"
  ap_fps :: u32
  ap_scaling :: scaling_mode
  ap_retry :: bool

text \<open>The reply of the scene inspector, as far as the gate reads it; a required entry that is no string is None.\<close>

record inspection =
  iv_outcome :: "string option"
  iv_required :: "string option list option"
  iv_reason :: "string option"

record gate_outcome =
  ga_limitations :: "string list"
  ga_inspection_reason :: "string option"

text \<open>A view of the desktop: one list of the system's outputs and the shell that answers scripts.\<close>

record desktop_view =
  dv_listed :: "(probe_error, system_output list) result"
  dv_evaluate :: "string \<Rightarrow> (probe_error, string) result"

record promotion_answer =
  po_status :: "(string, worker_status) result"
  po_now :: nat

datatype store_access = AccessResolve | AccessPrevious | AccessOld | AccessSet | AccessRevert

record apply_context =
  ac_json :: "string \<Rightarrow> (string, probe_reply) result"
  ac_serialize :: "persisted_assignments \<Rightarrow> u8 list"
  ac_sha256 :: "string \<Rightarrow> string"
  ac_assets :: "string option"
  ac_promotion_timeout :: nat

record apply_answers =
  aa_lock_held :: bool
  aa_catalog :: "catalog_item list"
  aa_catalog_poisoned :: bool
  aa_canonical :: "string \<Rightarrow> string option"
  aa_preflights :: preflights
  aa_inspection :: inspection
  aa_poisoned :: "store_access \<Rightarrow> bool"
  aa_foreign :: "(string, worker_status) result"
  aa_resolve_view :: desktop_view
  aa_view :: desktop_view
  aa_start :: "(string, worker_status) result"
  aa_promotion_start :: nat
  aa_polls :: "promotion_answer list"
  aa_owner :: "(string, worker_status) result"
  aa_unix :: u64
  aa_write :: write_io
  aa_switch :: "string \<Rightarrow> (probe_error, string) result"
  aa_verify_view :: desktop_view
  aa_rollback_status :: "(string, worker_status) result"
  aa_revert_write :: write_io

datatype apply_effect = EfStart start_spec | EfRetry start_spec | EfStop | EfScript string

record apply_state =
  ax_store :: assignment_store
  ax_trace :: "apply_effect list"

definition emit :: "apply_effect \<Rightarrow> apply_state \<Rightarrow> apply_state" where
  "emit e st = st\<lparr>ax_trace := ax_trace st @ [e]\<rparr>"

definition stored :: "string \<Rightarrow> apply_state \<Rightarrow> assignment option" where
  "stored n st = assignment_of n (fst (ax_store st))"

section \<open>The specification of the renderer\<close>

definition opt_or :: "'a \<Rightarrow> 'a option \<Rightarrow> 'a" where
  "opt_or d x = (case x of Some v \<Rightarrow> v | None \<Rightarrow> d)"

definition even_down :: "nat \<Rightarrow> nat" where "even_down n = n - n mod 2"

definition clamp_edge :: "nat \<Rightarrow> nat" where "clamp_edge n = max min_frame_edge (min n max_frame_edge)"

definition frame_size_for ::
  "u32 option \<Rightarrow> u32 option \<Rightarrow> (int \<times> int \<times> int \<times> int) option \<Rightarrow> u32 \<times> u32" where
  "frame_size_for width height geometry =
     (case (width, height) of
        (Some w, Some h) \<Rightarrow> (w, h)
      | _ \<Rightarrow>
          (let fallback = (opt_or default_apply_width width, opt_or default_apply_height height) in
           case geometry of
             None \<Rightarrow> fallback
           | Some (_, _, out_w, out_h) \<Rightarrow>
               if out_w \<le> 0 \<or> out_h \<le> 0 then fallback
               else (let w = nat out_w; h = nat out_h; long = max w h;
                         scale = (\<lambda>n. if max_frame_edge < long then even_down (n * max_frame_edge div long) else n)
                     in (opt_or (word_of_nat (clamp_edge (scale w))) width,
                         opt_or (word_of_nat (clamp_edge (scale h))) height))))"

definition content_spec_for :: "renderer_kind \<Rightarrow> string \<Rightarrow> content_spec option" where
  "content_spec_for kind path =
     (case kind of KindVideo \<Rightarrow> Some (ContentVideo path) | KindWeb \<Rightarrow> Some (ContentWeb path)
      | KindScene \<Rightarrow> Some (ContentScene path) | KindTest \<Rightarrow> None)"

definition catalog_content_path :: "catalog_item \<Rightarrow> renderer_kind \<Rightarrow> string" where
  "catalog_content_path item kind =
     (if kind = KindWeb then ci_content_root item
      else case ci_entry_file item of
        Some entry \<Rightarrow> entry
      | None \<Rightarrow> path_join (ci_content_root item) ''scene.json'')"

definition content_hash_for :: "apply_context \<Rightarrow> apply_answers \<Rightarrow> catalog_item \<Rightarrow> string \<Rightarrow> string" where
  "content_hash_for cx a item content =
     (case ci_metadata_hash item of
        Some hash \<Rightarrow> hash
      | None \<Rightarrow> ac_sha256 cx (opt_or content (aa_canonical a content)))"

fun renderer_kind_for :: "project_kind \<Rightarrow> renderer_kind option" where
  "renderer_kind_for ProjectScene = Some KindScene"
| "renderer_kind_for ProjectVideo = Some KindVideo"
| "renderer_kind_for ProjectWeb = Some KindWeb"
| "renderer_kind_for ProjectUnknown = None"
| "renderer_kind_for ProjectInvalid = None"

fun project_kind_name :: "project_kind \<Rightarrow> string" where
  "project_kind_name ProjectScene = ''scene''"
| "project_kind_name ProjectVideo = ''video''"
| "project_kind_name ProjectWeb = ''web''"
| "project_kind_name ProjectUnknown = ''unknown''"
| "project_kind_name ProjectInvalid = ''invalid''"

definition char_count :: "string \<Rightarrow> nat" where
  "char_count path = length (str_chars path)"

definition validated_spec ::
  "apply_context \<Rightarrow> apply_answers \<Rightarrow> start_spec \<Rightarrow> (apply_error, start_spec) result" where
  "validated_spec cx a spec =
     map_err (\<lambda>_. ApInvalid ''start specification'') (into_validated (aa_preflights a) (aa_canonical a) (ac_assets cx) spec)"

definition pending_spec ::
  "string \<Rightarrow> u32 \<Rightarrow> u32 \<Rightarrow> u32 \<Rightarrow> renderer_kind \<Rightarrow> content_spec option \<Rightarrow> scaling_mode \<Rightarrow> start_spec" where
  "pending_spec wid w h fps kind content scaling =
     \<lparr>ss_wallpaper_id = wid, ss_content_hash = ''pending'', ss_width = w, ss_height = h, ss_fps = fps,
      ss_kind = kind, ss_content = content, ss_test_fault = None, ss_stderr_lines = None,
      ss_scaling = scaling, ss_capability_limitations = []\<rparr>"

definition build_apply_spec ::
  "apply_context \<Rightarrow> apply_answers \<Rightarrow> apply_params \<Rightarrow> (apply_error, start_spec) result" where
  "build_apply_spec cx a p =
     (let base = pending_spec (ap_wallpaper_id p) (opt_or default_apply_width (ap_width p))
                   (opt_or default_apply_height (ap_height p)) (ap_fps p) (ap_kind p) None (ap_scaling p) in
      rbind (fail_if (ap_kind p = KindTest)
               (ApInvalid ''wallpaper.apply does not accept the test renderer kind'')) (\<lambda>_.
      case ap_content p of
        None \<Rightarrow> Inr base
      | Some content \<Rightarrow>
          rbind (fail_if (char_count content = 0 \<or> max_content_chars < char_count content)
                   (ApInvalid ''content path must be 1..=4096 characters'')) (\<lambda>_.
          validated_spec cx a (base\<lparr>ss_content := content_spec_for (ap_kind p) content\<rparr>))))"

definition catalog_lookup :: "apply_answers \<Rightarrow> string \<Rightarrow> (apply_error, catalog_item) result" where
  "catalog_lookup a wid =
     rbind (fail_if (aa_catalog_poisoned a) (ApTransaction ''catalog lock poisoned'')) (\<lambda>_.
     rbind (ok_or (List.find (\<lambda>i. ci_workshop_id i = wid) (aa_catalog a)) (ApUnknownWallpaper wid)) (\<lambda>item.
     if ci_kind item \<noteq> ProjectInvalid \<and> ci_kind item \<noteq> ProjectUnknown
        \<and> ci_workshop_state item \<in> {''local'', ''subscribed_installed''}
     then Inr item else Inl (ApUnknownWallpaper wid)))"

section \<open>The capability gate\<close>

definition capabilities_implemented :: "string list" where
  "capabilities_implemented =
     [''scene.audio-buffers'', ''scene.blend'', ''scene.effects'', ''scene.input.cursor-events'',
      ''scene.layer.image'', ''scene.layer.text'', ''scene.layer.video'', ''scene.material'',
      ''scene.package'', ''scene.particle'', ''scene.property.binding'',
      ''scene.property.unknown-preservation'', ''scene.render-target'', ''scene.script.lifecycle'',
      ''scene.script.objects'', ''scene.shader'', ''scene.simulation-pause'', ''scene.texture.animated'',
      ''scene.texture.compressed'', ''scene.texture.static'', ''scene.texture.texv'']"

definition capabilities_tolerated :: "string list" where
  "capabilities_tolerated = [''scene.layer.sound'', ''scene.lighting'']"

definition required_ids :: "inspection \<Rightarrow> string set" where
  "required_ids iv = set (List.map_filter (\<lambda>r. r) (opt_or [] (iv_required iv)))"

definition scene_capability_gate :: "inspection \<Rightarrow> (apply_error, gate_outcome) result" where
  "scene_capability_gate iv =
     (if iv_outcome iv = Some ''inventoried'' then
        (let missing = required_ids iv - set capabilities_implemented;
             blocking = sorted_list_of_set (missing - set capabilities_tolerated);
             limitations = sorted_list_of_set (missing \<inter> set capabilities_tolerated) in
         if blocking \<noteq> []
         then Inl (ApCapabilityGate (''scene requires capabilities this build does not implement: ''
                @ str_join '', '' blocking) blocking None)
         else Inr \<lparr>ga_limitations = limitations, ga_inspection_reason = None\<rparr>)
      else if iv_outcome iv = Some ''incompatible'' then
        (let reason = opt_or ''incompatible'' (iv_reason iv) in
         Inl (ApCapabilityGate (''scene inspection refused the content: '' @ reason) [] (Some reason)))
      else Inr \<lparr>ga_limitations = [], ga_inspection_reason = Some (opt_or ''unavailable'' (iv_reason iv))\<rparr>)"

definition gate_for ::
  "apply_answers \<Rightarrow> start_spec \<Rightarrow> (apply_error, start_spec \<times> gate_outcome) result" where
  "gate_for a spec =
     (if ss_kind spec = KindScene
      then rbind (scene_capability_gate (aa_inspection a)) (\<lambda>g.
        Inr (if ga_limitations g = [] then spec else spec\<lparr>ss_capability_limitations := ga_limitations g\<rparr>, g))
      else Inr (spec, \<lparr>ga_limitations = [], ga_inspection_reason = None\<rparr>))"

section \<open>Preparing a transaction\<close>

record prepared =
  prep_spec :: start_spec
  prep_content :: string
  prep_output :: string
  prep_index :: nat
  prep_previous :: previous_wallpaper
  prep_old :: "assignment option"
  prep_gate :: gate_outcome

definition view_outputs :: "apply_context \<Rightarrow> desktop_view \<Rightarrow> (apply_error, output_info list) result" where
  "view_outputs cx v = enumerate_fresh (ac_json cx) (dv_listed v) (dv_evaluate v)"

definition stored_assignment ::
  "apply_answers \<Rightarrow> store_access \<Rightarrow> string \<Rightarrow> apply_state \<Rightarrow> (apply_error, assignment option) result" where
  "stored_assignment a access n st =
     rbind (fail_if (aa_poisoned a access) (ApTransaction ''assignment store lock poisoned'')) (\<lambda>_.
       Inr (stored n st))"

definition live_previous :: "output_info \<Rightarrow> (apply_error, previous_wallpaper) result" where
  "live_previous out =
     rbind (ok_or (oi_wallpaper_plugin out)
              (ApTransaction (''output '' @ oi_name out @ '' has no wallpaper plugin to save as previous'')))
       (\<lambda>plugin. Inr \<lparr>pw_wallpaper_plugin = plugin, pw_config_group = oi_config_group out, pw_image = oi_image out\<rparr>)"

definition previous_for ::
  "apply_answers \<Rightarrow> output_info \<Rightarrow> apply_state \<Rightarrow> (apply_error, previous_wallpaper) result" where
  "previous_for a out st =
     (if oi_wallpaper_plugin out = Some kwe_plugin
      then rbind (stored_assignment a AccessPrevious (oi_name out) st) (\<lambda>old.
        case Option.bind old an_previous of Some previous \<Rightarrow> Inr previous | None \<Rightarrow> live_previous out)
      else live_previous out)"

definition find_output :: "string \<Rightarrow> output_info list \<Rightarrow> output_info option" where
  "find_output n outs = List.find (\<lambda>i. oi_name i = n) outs"

definition desktop_of :: "output_info \<Rightarrow> (apply_error, nat) result" where
  "desktop_of out =
     ok_or (oi_desktop_index out) (ApTransaction (''output '' @ oi_name out @ '' has no desktop containment''))"

definition content_bounded :: "string \<Rightarrow> (apply_error, unit) result" where
  "content_bounded content =
     fail_if (max_content_chars < char_count content) (ApInvalid ''catalog content path exceeds 4096 characters'')"

definition sized_spec :: "u32 option \<Rightarrow> u32 option \<Rightarrow> output_info \<Rightarrow> start_spec \<Rightarrow> start_spec" where
  "sized_spec w h out spec =
     (case frame_size_for w h (oi_geometry out) of (w', h') \<Rightarrow> spec\<lparr>ss_width := w', ss_height := h'\<rparr>)"

definition client_content_matches :: "apply_answers \<Rightarrow> string option \<Rightarrow> string \<Rightarrow> (apply_error, unit) result" where
  "client_content_matches a client content =
     (case client of
        None \<Rightarrow> Inr ()
      | Some c \<Rightarrow> fail_if (aa_canonical a c \<noteq> aa_canonical a content)
          (ApInvalid (''content '' @ c @ '' does not match the catalog item's resolved content '' @ content)))"

definition prepare_apply ::
  "apply_context \<Rightarrow> apply_answers \<Rightarrow> apply_params \<Rightarrow> apply_state \<Rightarrow> (apply_error, prepared) result" where
  "prepare_apply cx a p st =
     rbind (build_apply_spec cx a p) (\<lambda>spec0.
     rbind (catalog_lookup a (ap_wallpaper_id p)) (\<lambda>item.
     rbind (fail_if (renderer_kind_for (ci_kind item) \<noteq> Some (ap_kind p))
              (ApIncompatible (ap_wallpaper_id p @ '' is a '' @ project_kind_name (ci_kind item)
                 @ '' project, not '' @ kind_str (ap_kind p)))) (\<lambda>_.
     let content = catalog_content_path item (ap_kind p) in
     rbind (client_content_matches a (ap_content p) content) (\<lambda>_.
     rbind (content_bounded content) (\<lambda>_.
     rbind (validated_spec cx a (spec0\<lparr>ss_content := content_spec_for (ap_kind p) content\<rparr>)) (\<lambda>spec1.
     let spec2 = spec1\<lparr>ss_content_hash := content_hash_for cx a item content\<rparr> in
     rbind (view_outputs cx (aa_view a)) (\<lambda>outs.
     rbind (ok_or (find_output (ap_output p) outs) (ApOutputMissing (ap_output p))) (\<lambda>out.
     rbind (desktop_of out) (\<lambda>index.
     let spec3 = sized_spec (ap_width p) (ap_height p) out spec2 in
     rbind (previous_for a out st) (\<lambda>previous.
     rbind (stored_assignment a AccessOld (oi_name out) st) (\<lambda>old.
     rbind (gate_for a spec3) (\<lambda>(spec4, gate).
       Inr \<lparr>prep_spec = spec4, prep_content = content, prep_output = oi_name out, prep_index = index,
            prep_previous = previous, prep_old = old, prep_gate = gate\<rparr>))))))))))))"

text \<open>The playlist lane: the output is resolved, and kind, content and size come from the catalog.\<close>

definition resolve_playlist_output ::
  "apply_context \<Rightarrow> apply_answers \<Rightarrow> string option \<Rightarrow> string set \<Rightarrow> apply_state \<Rightarrow> (apply_error, string) result" where
  "resolve_playlist_output cx a output entries st =
     (case output of
        Some n \<Rightarrow> if validate_identity_part n then Inr n else Inl (ApInvalid ''output'')
      | None \<Rightarrow>
          rbind (fail_if (aa_poisoned a AccessResolve) (ApTransaction ''assignment store lock poisoned'')) (\<lambda>_.
          let last = List.find (\<lambda>n. case stored n st of Some an \<Rightarrow> an_wallpaper_id an \<in> entries | None \<Rightarrow> False)
                (sorted_list_of_set (Mapping.keys (pa_outputs (fst (ax_store st))))) in
          rbind (view_outputs cx (aa_resolve_view a)) (\<lambda>outs.
          case last of
            Some n \<Rightarrow>
              if list_ex (\<lambda>i. oi_name i = n) outs then Inr n
              else map_err (\<lambda>_. ApOutputMissing ''no enabled, connected output'')
                (ok_or (map_option oi_name (List.find (\<lambda>i. oi_enabled i \<and> oi_connected i) outs)) ())
          | None \<Rightarrow> map_err (\<lambda>_. ApOutputMissing ''no enabled, connected output'')
              (ok_or (map_option oi_name (List.find (\<lambda>i. oi_enabled i \<and> oi_connected i) outs)) ()))))"

definition kept_rate :: "assignment option \<Rightarrow> u32 option" where
  "kept_rate old = Option.bind old (\<lambda>an. if 1 \<le> an_fps an \<and> an_fps an \<le> 240 then Some (an_fps an) else None)"

definition prepare_playlist ::
  "apply_context \<Rightarrow> apply_answers \<Rightarrow> string option \<Rightarrow> string \<Rightarrow> string set \<Rightarrow> string option \<Rightarrow> apply_state
     \<Rightarrow> (apply_error, prepared) result" where
  "prepare_playlist cx a output wid entries applied st =
     rbind (case aa_foreign a of
              Inr status \<Rightarrow> fail_if (foreign_renderer_live status wid applied)
                (ApYielded (''foreign renderer '' @ opt_or ''none'' (ws_requested_wallpaper_id status)
                   @ '' is live; the playlist yields''))
            | Inl _ \<Rightarrow> Inr ()) (\<lambda>_.
     rbind (resolve_playlist_output cx a output entries st) (\<lambda>resolved.
     rbind (catalog_lookup a wid) (\<lambda>item.
     rbind (ok_or (renderer_kind_for (ci_kind item))
              (ApIncompatible (ci_workshop_id item @ '' is not an apply-able project kind''))) (\<lambda>kind.
     let content = catalog_content_path item kind in
     rbind (content_bounded content) (\<lambda>_.
     rbind (validated_spec cx a (pending_spec wid default_apply_width default_apply_height default_apply_fps
              kind (content_spec_for kind content) Aspect)) (\<lambda>spec1.
     let spec2 = spec1\<lparr>ss_content_hash := content_hash_for cx a item content\<rparr> in
     rbind (view_outputs cx (aa_view a)) (\<lambda>outs.
     rbind (ok_or (find_output resolved outs) (ApOutputMissing resolved)) (\<lambda>out.
     rbind (desktop_of out) (\<lambda>index.
     rbind (previous_for a out st) (\<lambda>previous.
     let spec3 = sized_spec None None out spec2 in
     rbind (stored_assignment a AccessOld resolved st) (\<lambda>old.
     rbind (gate_for a spec3) (\<lambda>(spec4, gate).
     let spec5 = spec4\<lparr>ss_scaling := (case old of Some an \<Rightarrow> an_scaling an | None \<Rightarrow> Aspect)\<rparr>;
         spec6 = (case kept_rate old of Some fps \<Rightarrow> spec5\<lparr>ss_fps := fps\<rparr> | None \<Rightarrow> spec5) in
       Inr \<lparr>prep_spec = spec6, prep_content = content, prep_output = resolved, prep_index = index,
            prep_previous = previous, prep_old = old, prep_gate = gate\<rparr>))))))))))))"

section \<open>The steps after the renderer was started\<close>

definition status_ours :: "start_spec \<Rightarrow> worker_status \<Rightarrow> bool" where
  "status_ours spec ws \<longleftrightarrow> ws_requested_wallpaper_id ws = Some (ss_wallpaper_id spec)
     \<and> ws_requested_content_hash ws = Some (ss_content_hash spec)"

fun phase_name :: "worker_phase \<Rightarrow> string" where
  "phase_name Idle = ''idle''"
| "phase_name Starting = ''starting''"
| "phase_name Canary = ''canary''"
| "phase_name Live = ''live''"
| "phase_name Restarting = ''restarting''"
| "phase_name AwaitingAck = ''awaiting_ack''"
| "phase_name RolledBack = ''rolled_back''"
| "phase_name Stopped = ''stopped''"
| "phase_name Quarantined = ''quarantined''"

definition promotion_verdict ::
  "worker_phase \<Rightarrow> bool \<Rightarrow> string option \<Rightarrow> (string, unit) result option" where
  "promotion_verdict ph ours detail =
     (if ours \<and> (ph = Live \<or> ph = AwaitingAck) then Some (Inr ())
      else if ph = RolledBack \<or> ph = Quarantined \<or> ph = Stopped then Some (Inl (opt_or (phase_name ph) detail))
      else None)"

definition ownership_changed :: "start_spec \<Rightarrow> worker_status \<Rightarrow> apply_error" where
  "ownership_changed spec ws =
     ApTransaction (''renderer ownership changed (requested ''
       @ opt_or ''none'' (ws_requested_wallpaper_id ws) @ '':'' @ opt_or ''none'' (ws_requested_content_hash ws)
       @ '', expected '' @ ss_wallpaper_id spec @ '':'' @ ss_content_hash spec @ '')'')"

text \<open>The poll of \<open>wait\_for\_promotion\<close>; a list of answers that ends stands for a clock past the deadline.\<close>

fun wait_for_promotion ::
  "start_spec \<Rightarrow> nat \<Rightarrow> nat \<Rightarrow> promotion_answer list \<Rightarrow> (apply_error, unit) result" where
  "wait_for_promotion spec timeout deadline [] =
     Inl (ApTransaction (''renderer did not promote within '' @ show_nat (timeout div 1000000) @ '' ms''))"
| "wait_for_promotion spec timeout deadline (po # pos) =
     (case po_status po of
        Inl e \<Rightarrow> Inl (ApTransaction (''renderer.status failed: '' @ e))
      | Inr ws \<Rightarrow>
          if \<not> status_ours spec ws \<and> ws_phase ws \<noteq> Idle then Inl (ownership_changed spec ws)
          else (case promotion_verdict (ws_phase ws) (status_ours spec ws) (ws_last_failure_detail ws) of
              Some (Inr _) \<Rightarrow> Inr ()
            | Some (Inl detail) \<Rightarrow> Inl (ApTransaction (''renderer did not promote ('' @ detail @ '')''))
            | None \<Rightarrow>
                if deadline \<le> po_now po
                then Inl (ApTransaction (''renderer did not promote within '' @ show_nat (timeout div 1000000) @ '' ms''))
                else wait_for_promotion spec timeout deadline pos))"

definition ensure_ours :: "start_spec \<Rightarrow> (string, worker_status) result \<Rightarrow> (apply_error, unit) result" where
  "ensure_ours spec answer_status =
     rbind (map_err (\<lambda>e. ApTransaction (''renderer.status failed: '' @ e)) answer_status) (\<lambda>ws.
       fail_if (\<not> status_ours spec ws) (ownership_changed spec ws))"

definition start_renderer ::
  "apply_context \<Rightarrow> apply_answers \<Rightarrow> start_spec \<Rightarrow> bool \<Rightarrow> apply_state \<Rightarrow> (apply_error, unit) result \<times> apply_state" where
  "start_renderer cx a spec retry st =
     (rbind (map_err (\<lambda>e. ApTransaction (''renderer.start failed: '' @ e)) (aa_start a)) (\<lambda>ws.
        if ws_phase ws = Quarantined \<or> ws_phase ws = RolledBack
        then (let detail = opt_or (phase_name (ws_phase ws)) (ws_last_failure_detail ws) in
              if ws_quarantined ws
              then Inl (ApQuarantined (''disabled after '' @ show_nat (unat (ws_failures ws))
                     @ '' failures under this build; last failure: '' @ detail))
              else Inl (ApTransaction (''renderer rejected the start ('' @ phase_name (ws_phase ws) @ '': '' @ detail @ '')'')))
        else
          rbind (wait_for_promotion spec (ac_promotion_timeout cx) (aa_promotion_start a + ac_promotion_timeout cx)
                   (aa_polls a)) (\<lambda>_.
          ensure_ours spec (aa_owner a))),
      emit (if retry then EfRetry spec else EfStart spec) st)"

definition assignment_for :: "apply_answers \<Rightarrow> prepared \<Rightarrow> assignment" where
  "assignment_for a pr =
     (let spec = prep_spec pr in
      \<lparr>an_wallpaper_id = ss_wallpaper_id spec, an_kind = ss_kind spec,
       an_content = from_utf8_lossy (prep_content pr), an_width = ss_width spec, an_height = ss_height spec,
       an_fps = ss_fps spec, an_scaling = ss_scaling spec,
       an_capability_limitations = ss_capability_limitations spec, an_applied_at = aa_unix a,
       an_previous = Some (prep_previous pr)\<rparr>)"

definition persist_assignment ::
  "apply_context \<Rightarrow> apply_answers \<Rightarrow> prepared \<Rightarrow> apply_state \<Rightarrow> (apply_error, unit) result \<times> apply_state" where
  "persist_assignment cx a pr st =
     (if aa_poisoned a AccessSet then (Inl (ApTransaction ''assignment store lock poisoned''), st)
      else case assignments_set (ac_serialize cx) (aa_write a) (prep_output pr) (assignment_for a pr) (ax_store st) of
        (r, sd) \<Rightarrow> (map_err (\<lambda>_. ApTransaction ''persist assignment failed'') r, st\<lparr>ax_store := sd\<rparr>))"

definition verify_switch ::
  "apply_context \<Rightarrow> desktop_view \<Rightarrow> string \<Rightarrow> nat \<Rightarrow> (apply_error, unit) result" where
  "verify_switch cx v n index =
     rbind (view_outputs cx v) (\<lambda>outs.
     rbind (ok_or (find_output n outs)
              (ApTransaction (''post-switch verification: output '' @ n @ '' is gone''))) (\<lambda>out.
     fail_if (oi_wallpaper_plugin out \<noteq> Some kwe_plugin \<or> oi_desktop_index out \<noteq> Some index)
       (ApTransaction (''post-switch verification failed: output '' @ n))))"

definition switch_error :: "(string \<Rightarrow> apply_error) \<Rightarrow> probe_error \<Rightarrow> apply_error" where
  "switch_error other e = (case e of PbUnreachable d \<Rightarrow> ApShellUnreachable d | _ \<Rightarrow> other (probe_detail e))"

definition switch_wallpaper ::
  "apply_context \<Rightarrow> apply_answers \<Rightarrow> string \<Rightarrow> nat \<Rightarrow> apply_state \<Rightarrow> (apply_error, unit) result \<times> apply_state" where
  "switch_wallpaper cx a n index st =
     (case apply_script index kwe_plugin of
        Inl _ \<Rightarrow> (Inl (ApTransaction ''script error''), st)
      | Inr script \<Rightarrow>
          (rbind (map_err (switch_error (\<lambda>d. ApTransaction (''wallpaper switch failed: '' @ d))) (aa_switch a script))
             (\<lambda>_. verify_switch cx (aa_verify_view a) n index),
           emit (EfScript script) st))"

definition step_then ::
  "(apply_error, unit) result \<times> apply_state \<Rightarrow> (apply_state \<Rightarrow> (apply_error, unit) result \<times> apply_state)
     \<Rightarrow> (apply_error, unit) result \<times> apply_state" where
  "step_then r f = (case r of (Inl e, st) \<Rightarrow> (Inl e, st) | (Inr _, st) \<Rightarrow> f st)"

definition complete_apply ::
  "apply_context \<Rightarrow> apply_answers \<Rightarrow> prepared \<Rightarrow> bool \<Rightarrow> apply_state \<Rightarrow> (apply_error, unit) result \<times> apply_state" where
  "complete_apply cx a pr retry st =
     step_then (start_renderer cx a (prep_spec pr) retry st) (\<lambda>st1.
     step_then (persist_assignment cx a pr st1) (\<lambda>st2.
     switch_wallpaper cx a (prep_output pr) (prep_index pr) st2))"

definition rollback_after_failure ::
  "apply_context \<Rightarrow> apply_answers \<Rightarrow> prepared \<Rightarrow> apply_state \<Rightarrow> apply_state" where
  "rollback_after_failure cx a pr st =
     (let st1 = (case aa_rollback_status a of
                   Inr ws \<Rightarrow> if status_ours (prep_spec pr) ws then emit EfStop st else st
                 | Inl _ \<Rightarrow> st) in
      if aa_poisoned a AccessRevert then st1
      else st1\<lparr>ax_store :=
        (case prep_old pr of
           Some old \<Rightarrow> snd (assignments_set (ac_serialize cx) (aa_revert_write a) (prep_output pr) old (ax_store st1))
         | None \<Rightarrow> snd (assignments_remove (ac_serialize cx) (aa_revert_write a) (prep_output pr) (ax_store st1)))\<rparr>)"

record applied =
  ad_output :: string
  ad_assignment :: assignment
  ad_gate :: gate_outcome

definition finish_apply ::
  "apply_context \<Rightarrow> apply_answers \<Rightarrow> bool \<Rightarrow> (apply_error, prepared) result \<Rightarrow> apply_state
     \<Rightarrow> (apply_error, applied) result \<times> apply_state" where
  "finish_apply cx a retry prep st =
     (case prep of
        Inl e \<Rightarrow> (Inl e, st)
      | Inr pr \<Rightarrow>
          (case complete_apply cx a pr retry st of
             (Inr _, st1) \<Rightarrow> (Inr \<lparr>ad_output = prep_output pr, ad_assignment = assignment_for a pr,
                 ad_gate = prep_gate pr\<rparr>, st1)
           | (Inl e, st1) \<Rightarrow> (Inl e, rollback_after_failure cx a pr st1)))"

definition apply_wallpaper ::
  "apply_context \<Rightarrow> apply_answers \<Rightarrow> apply_params \<Rightarrow> apply_state \<Rightarrow> (apply_error, applied) result \<times> apply_state" where
  "apply_wallpaper cx a p st =
     (if aa_lock_held a then (Inl ApBusy, st)
      else finish_apply cx a (ap_retry p) (prepare_apply cx a p st) st)"

definition apply_playlist ::
  "apply_context \<Rightarrow> apply_answers \<Rightarrow> string option \<Rightarrow> string \<Rightarrow> string set \<Rightarrow> string option \<Rightarrow> apply_state
     \<Rightarrow> (apply_error, applied) result \<times> apply_state" where
  "apply_playlist cx a output wid entries applied_id st =
     (if aa_lock_held a then (Inl ApBusy, st)
      else finish_apply cx a False (prepare_playlist cx a output wid entries applied_id st) st)"

text \<open>A call of one of the two lanes.\<close>

datatype apply_call =
    CallUser apply_params
  | CallPlaylist "string option" string "string set" "string option"

fun prepare_call ::
  "apply_context \<Rightarrow> apply_answers \<Rightarrow> apply_call \<Rightarrow> apply_state \<Rightarrow> (apply_error, prepared) result" where
  "prepare_call cx a (CallUser p) st = prepare_apply cx a p st"
| "prepare_call cx a (CallPlaylist output wid entries applied_id) st =
     prepare_playlist cx a output wid entries applied_id st"

fun call_retry :: "apply_call \<Rightarrow> bool" where
  "call_retry (CallUser p) = ap_retry p"
| "call_retry (CallPlaylist output wid entries applied_id) = False"

fun call_wallpaper :: "apply_call \<Rightarrow> string" where
  "call_wallpaper (CallUser p) = ap_wallpaper_id p"
| "call_wallpaper (CallPlaylist output wid entries applied_id) = wid"

fun apply_call_step ::
  "apply_context \<Rightarrow> apply_answers \<Rightarrow> apply_call \<Rightarrow> apply_state \<Rightarrow> (apply_error, applied) result \<times> apply_state" where
  "apply_call_step cx a (CallUser p) st = apply_wallpaper cx a p st"
| "apply_call_step cx a (CallPlaylist output wid entries applied_id) st =
     apply_playlist cx a output wid entries applied_id st"

fun apply_run :: "apply_context \<Rightarrow> (apply_answers \<times> apply_call) list \<Rightarrow> apply_state \<Rightarrow> apply_state" where
  "apply_run cx [] st = st"
| "apply_run cx ((a, c) # calls) st = apply_run cx calls (snd (apply_call_step cx a c st))"

section \<open>Restore\<close>

datatype restore_mode = RestoreAssignment | RestoreStock

record restore_target =
  rg_wallpaper_plugin :: string
  rg_config_group :: "string list"
  rg_image :: "string option"
  rg_mode :: restore_mode

definition stock_image_candidates :: "string list" where
  "stock_image_candidates =
     [''/usr/share/wallpapers/cachyos-wallpapers/Cachy depths 5K.png'',
      ''/usr/share/wallpapers/cachyos-wallpapers/Abstract.png'',
      ''/usr/share/wallpapers/Next/contents/images/Next.jpg'']"

definition stock_image_path :: "(string \<Rightarrow> bool) \<Rightarrow> string option" where
  "stock_image_path is_file = List.find is_file stock_image_candidates"

definition restore_target_for :: "assignment option \<Rightarrow> string option \<Rightarrow> restore_target" where
  "restore_target_for old stock =
     (case Option.bind old an_previous of
        Some previous \<Rightarrow>
          \<lparr>rg_wallpaper_plugin = pw_wallpaper_plugin previous, rg_config_group = pw_config_group previous,
           rg_image = pw_image previous, rg_mode = RestoreAssignment\<rparr>
      | None \<Rightarrow>
          \<lparr>rg_wallpaper_plugin = image_plugin, rg_config_group = [''Wallpaper'', image_plugin, ''General''],
           rg_image = stock, rg_mode = RestoreStock\<rparr>)"

record restore_answers =
  rs_view :: desktop_view
  rs_poisoned :: bool
  rs_is_file :: "string \<Rightarrow> bool"
  rs_evaluate :: "string \<Rightarrow> (probe_error, string) result"
  rs_verify_view :: desktop_view
  rs_remove_poisoned :: bool
  rs_write :: write_io

definition verify_restore ::
  "apply_context \<Rightarrow> desktop_view \<Rightarrow> string \<Rightarrow> string \<Rightarrow> (apply_error, unit) result" where
  "verify_restore cx v n expected =
     rbind (view_outputs cx v) (\<lambda>outs.
     rbind (ok_or (find_output n outs)
              (ApRestoreFailed (''post-restore verification: output '' @ n @ '' is gone''))) (\<lambda>out.
     fail_if (oi_wallpaper_plugin out \<noteq> Some expected)
       (ApRestoreFailed (''post-restore verification failed: output '' @ n))))"

definition prepare_restore ::
  "apply_context \<Rightarrow> restore_answers \<Rightarrow> string \<Rightarrow> apply_state
     \<Rightarrow> (apply_error, assignment option \<times> restore_target \<times> string) result" where
  "prepare_restore cx a n st =
     rbind (view_outputs cx (rs_view a)) (\<lambda>outs.
     rbind (ok_or (find_output n outs) (ApOutputMissing n)) (\<lambda>out.
     rbind (desktop_of out) (\<lambda>index.
     rbind (fail_if (rs_poisoned a) (ApTransaction ''assignment store lock poisoned'')) (\<lambda>_.
     let old = stored n st; target = restore_target_for old (stock_image_path (rs_is_file a)) in
     rbind (map_err (\<lambda>_. ApRestoreFailed ''script error'')
              (restore_script index (rg_wallpaper_plugin target) (rg_config_group target) (rg_image target)))
       (\<lambda>script. Inr (old, target, script))))))"

definition restore_wallpaper ::
  "apply_context \<Rightarrow> restore_answers \<Rightarrow> string \<Rightarrow> apply_state \<Rightarrow> (apply_error, restore_target) result \<times> apply_state" where
  "restore_wallpaper cx a n st =
     (case prepare_restore cx a n st of
        Inl e \<Rightarrow> (Inl e, st)
      | Inr (old, target, script) \<Rightarrow>
          (let st1 = emit (EfScript script) st in
           case rbind (map_err (switch_error ApRestoreFailed) (rs_evaluate a script))
                  (\<lambda>_. verify_restore cx (rs_verify_view a) n (rg_wallpaper_plugin target)) of
             Inl e \<Rightarrow> (Inl e, st1)
           | Inr _ \<Rightarrow>
               (Inr target,
                if old = None \<or> rs_remove_poisoned a then st1
                else st1\<lparr>ax_store := snd (assignments_remove (ac_serialize cx) (rs_write a) n (ax_store st1))\<rparr>)))"

end
