(* ===== verification/Apply_Safety.thy ===== *)
theory Apply_Safety
  imports Apply_Transaction
begin

text \<open>
  What an apply and a restore guarantee: a reported success is a verified one, a failure changes no
  assignment, the wallpaper that was there before the first apply survives any number of applies, and the
  frame canvas of every apply is within the limits of the frame protocol.
\<close>

section \<open>The steps\<close>

context record_store
begin

lemma revert_own: "find k (revert io k old s) = find k s \<or> find k (revert io k old s) = old"
proof (cases old)
  case None
  then show ?thesis
    using drop_ok [of io k s _ "snd (drop io k s)" k] drop_failed [of io k s _ "snd (drop io k s)" k]
    by (cases "drop io k s"; cases "fst (drop io k s)") (auto simp: revert_def)
next
  case (Some r)
  then show ?thesis
    using put_ok [of io k r s _ "snd (put io k r s)" k] put_failed [of io k r s _ "snd (put io k r s)" k]
    by (cases "put io k r s"; cases "fst (put io k r s)") (auto simp: revert_def)
qed

end

lemma step_then_Inr:
  "step_then r f = (Inr u, st') \<longleftrightarrow> (\<exists>v st. r = (Inr v, st) \<and> f st = (Inr u, st'))"
  by (auto simp: step_then_def split: prod.splits sum.splits)

lemma step_then_Inl:
  "step_then r f = (Inl e, st') \<longleftrightarrow> r = (Inl e, st') \<or> (\<exists>v st. r = (Inr v, st) \<and> f st = (Inl e, st'))"
  by (auto simp: step_then_def split: prod.splits sum.splits)

lemma emit_simps [simp]: "ax_store (emit e st) = ax_store st" "ax_trace (emit e st) = ax_trace st @ [e]"
  "stored n (emit e st) = stored n st"
  by (simp_all add: emit_def stored_def)

definition start_effect :: "bool \<Rightarrow> start_spec \<Rightarrow> apply_effect" where
  "start_effect retry spec = (if retry then EfRetry spec else EfStart spec)"

lemma start_renderer_state: "snd (start_renderer cx a spec retry st) = emit (start_effect retry spec) st"
  by (simp add: start_renderer_def start_effect_def)

text \<open>A poll that showed our renderer live.\<close>

definition promoted :: "start_spec \<Rightarrow> promotion_answer list \<Rightarrow> bool" where
  "promoted spec pos \<longleftrightarrow> (\<exists>po \<in> set pos. \<exists>ws. po_status po = Inr ws \<and> status_ours spec ws
     \<and> (ws_phase ws = Live \<or> ws_phase ws = AwaitingAck))"

lemma wait_for_promotion_ok:
  "wait_for_promotion spec timeout deadline pos = Inr u \<Longrightarrow> promoted spec pos"
proof (induction pos)
  case (Cons po pos)
  then show ?case
    by (auto simp: promoted_def promotion_verdict_def split: sum.splits option.splits if_splits)
qed simp

text \<open>The wait ends at the first answer past the deadline, whatever follows it.\<close>

lemma wait_for_promotion_bounded:
  "deadline \<le> po_now po \<Longrightarrow>
     wait_for_promotion spec timeout deadline (pos @ po # rest) = wait_for_promotion spec timeout deadline (pos @ [po])"
  by (induction pos) (auto split: sum.splits option.splits)

lemma start_renderer_ok:
  assumes "start_renderer cx a spec retry st = (Inr u, st1)"
  shows "st1 = emit (start_effect retry spec) st" "promoted spec (aa_polls a)"
    "\<exists>ws. aa_owner a = Inr ws \<and> status_ours spec ws"
  using assms wait_for_promotion_ok
  by (auto simp: start_renderer_def start_effect_def ensure_ours_def result_simps Let_def split: if_splits)

lemma persist_ok:
  assumes "persist_assignment cx a pr st = (Inr u, st1)"
  shows "stored (prep_output pr) st1 = Some (assignment_for a pr)"
    "n \<noteq> prep_output pr \<Longrightarrow> stored n st1 = stored n st" "ax_trace st1 = ax_trace st"
    "Mapping.lookup (snd (ax_store st1)) assignments_file = Some (ac_serialize cx (fst (ax_store st1)))"
    "validate_assignment (prep_output pr) (assignment_for a pr) = Inr ()"
proof -
  obtain r sd where s: "assignments_set (ac_serialize cx) (aa_write a) (prep_output pr) (assignment_for a pr) (ax_store st) = (r, sd)"
    by (cases "assignments_set (ac_serialize cx) (aa_write a) (prep_output pr) (assignment_for a pr) (ax_store st)")
  then have "r = Inr ()" "st1 = st\<lparr>ax_store := sd\<rparr>"
    using assms by (auto simp: persist_assignment_def result_simps split: if_splits)
  with s show "stored (prep_output pr) st1 = Some (assignment_for a pr)"
    "n \<noteq> prep_output pr \<Longrightarrow> stored n st1 = stored n st" "ax_trace st1 = ax_trace st"
    "Mapping.lookup (snd (ax_store st1)) assignments_file = Some (ac_serialize cx (fst (ax_store st1)))"
    "validate_assignment (prep_output pr) (assignment_for a pr) = Inr ()"
    by (auto elim!: assignments_set_cases simp: stored_def assignment_of_def)
qed

lemma persist_failed:
  assumes "persist_assignment cx a pr st = (Inl e, st1)"
  shows "stored n st1 = stored n st" "ax_trace st1 = ax_trace st"
proof -
  obtain r sd where s: "assignments_set (ac_serialize cx) (aa_write a) (prep_output pr) (assignment_for a pr) (ax_store st) = (r, sd)"
    by (cases "assignments_set (ac_serialize cx) (aa_write a) (prep_output pr) (assignment_for a pr) (ax_store st)")
  then have "st1 = st \<or> (\<exists>e. r = Inl e) \<and> st1 = st\<lparr>ax_store := sd\<rparr>"
    using assms by (cases r) (auto simp: persist_assignment_def split: if_splits)
  with s show "stored n st1 = stored n st" "ax_trace st1 = ax_trace st"
    using assigned.put_failed [of "ac_serialize cx" "aa_write a" "prep_output pr" "assignment_for a pr" "ax_store st"]
    by (auto simp: stored_def)
qed

lemma apply_script_total: "\<exists>script. apply_script index kwe_plugin = Inr script"
  by (simp add: apply_script_def kwe_plugin_def validate_identity_part_def is_ascii_alphanumeric_def
      is_ascii_lower_def byte_val_def)

definition switch_script :: "nat \<Rightarrow> string" where
  "switch_script index = (case apply_script index kwe_plugin of Inr script \<Rightarrow> script | Inl _ \<Rightarrow> [])"

lemma apply_script_eq: "apply_script index kwe_plugin = Inr (switch_script index)"
  using apply_script_total [of index] by (auto simp: switch_script_def)

lemma switch_state: "snd (switch_wallpaper cx a n index st) = emit (EfScript (switch_script index)) st"
  by (simp add: switch_wallpaper_def apply_script_eq)

text \<open>What the last look at the desktop has shown.\<close>

definition shows_plugin :: "apply_context \<Rightarrow> desktop_view \<Rightarrow> string \<Rightarrow> string \<Rightarrow> nat option \<Rightarrow> bool" where
  "shows_plugin cx v n plugin index \<longleftrightarrow> (\<exists>outs out. view_outputs cx v = Inr outs \<and> find_output n outs = Some out
     \<and> oi_wallpaper_plugin out = Some plugin \<and> (index = None \<or> oi_desktop_index out = index))"

lemma switch_ok:
  assumes "switch_wallpaper cx a n index st = (Inr u, st1)"
  shows "shows_plugin cx (aa_verify_view a) n kwe_plugin (Some index)" "is_ok (aa_switch a (switch_script index))"
  using assms
  by (auto simp: switch_wallpaper_def apply_script_eq verify_switch_def result_simps shows_plugin_def is_ok_iff)

section \<open>Success\<close>

lemma complete_apply_ok:
  assumes "complete_apply cx a pr retry st = (Inr u, st')"
  shows "stored (prep_output pr) st' = Some (assignment_for a pr)"
    "n \<noteq> prep_output pr \<Longrightarrow> stored n st' = stored n st"
    "ax_trace st' = ax_trace st @ [start_effect retry (prep_spec pr), EfScript (switch_script (prep_index pr))]"
    "Mapping.lookup (snd (ax_store st')) assignments_file = Some (ac_serialize cx (fst (ax_store st')))"
    "promoted (prep_spec pr) (aa_polls a)" "\<exists>ws. aa_owner a = Inr ws \<and> status_ours (prep_spec pr) ws"
    "shows_plugin cx (aa_verify_view a) (prep_output pr) kwe_plugin (Some (prep_index pr))"
proof -
  obtain u1 st1 u2 st2 where steps:
    "start_renderer cx a (prep_spec pr) retry st = (Inr u1, st1)"
    "persist_assignment cx a pr st1 = (Inr u2, st2)"
    "switch_wallpaper cx a (prep_output pr) (prep_index pr) st2 = (Inr u, st')"
    using assms by (auto simp: complete_apply_def step_then_Inr)
  have st': "st' = emit (EfScript (switch_script (prep_index pr))) st2"
    using switch_state [of cx a "prep_output pr" "prep_index pr" st2] steps(3) by simp
  note p = persist_ok [OF steps(2)] and s = start_renderer_ok [OF steps(1)]
  show "stored (prep_output pr) st' = Some (assignment_for a pr)" using p(1) by (simp add: st')
  show "n \<noteq> prep_output pr \<Longrightarrow> stored n st' = stored n st" using p(2) [of n] s(1) by (simp add: st')
  show "ax_trace st' = ax_trace st @ [start_effect retry (prep_spec pr), EfScript (switch_script (prep_index pr))]"
    using p(3) s(1) by (simp add: st')
  show "Mapping.lookup (snd (ax_store st')) assignments_file = Some (ac_serialize cx (fst (ax_store st')))"
    using p(4) by (simp add: st')
  show "promoted (prep_spec pr) (aa_polls a)" "\<exists>ws. aa_owner a = Inr ws \<and> status_ours (prep_spec pr) ws"
    by (fact s(2)) (fact s(3))
  show "shows_plugin cx (aa_verify_view a) (prep_output pr) kwe_plugin (Some (prep_index pr))"
    by (rule switch_ok(1) [OF steps(3)])
qed

lemma finish_apply_ok:
  assumes "finish_apply cx a retry prep st = (Inr done, st')"
  obtains pr where "prep = Inr pr" "complete_apply cx a pr retry st = (Inr (), st')"
    "done = \<lparr>ad_output = prep_output pr, ad_assignment = assignment_for a pr, ad_gate = prep_gate pr\<rparr>"
  using assms by (auto simp: finish_apply_def split: sum.splits prod.splits)

section \<open>Failure\<close>

definition revert_written :: "apply_context \<Rightarrow> apply_answers \<Rightarrow> prepared \<Rightarrow> apply_state \<Rightarrow> bool" where
  "revert_written cx a pr st \<longleftrightarrow> \<not> aa_poisoned a AccessRevert \<and>
     (case prep_old pr of
        Some old \<Rightarrow> is_ok (fst (assignments_set (ac_serialize cx) (aa_revert_write a) (prep_output pr) old (ax_store st)))
      | None \<Rightarrow> is_ok (fst (assignments_remove (ac_serialize cx) (aa_revert_write a) (prep_output pr) (ax_store st))))"

lemma rollback_store:
  "ax_store (rollback_after_failure cx a pr st) =
     (if aa_poisoned a AccessRevert then ax_store st
      else assigned.revert (ac_serialize cx) (aa_revert_write a) (prep_output pr) (prep_old pr) (ax_store st))"
  by (auto simp: rollback_after_failure_def Let_def assigned.revert_def split: option.splits sum.splits)

lemma rollback_trace:
  "ax_trace (rollback_after_failure cx a pr st) = ax_trace st
     @ (case aa_rollback_status a of Inr ws \<Rightarrow> if status_ours (prep_spec pr) ws then [EfStop] else [] | Inl _ \<Rightarrow> [])"
  by (auto simp: rollback_after_failure_def Let_def split: option.splits sum.splits)

lemma rollback_other: "n \<noteq> prep_output pr \<Longrightarrow> stored n (rollback_after_failure cx a pr st) = stored n st"
  by (simp add: stored_def rollback_store assigned.revert_other)

lemma rollback_own:
  "revert_written cx a pr st \<Longrightarrow> stored (prep_output pr) (rollback_after_failure cx a pr st) = prep_old pr"
  using assigned.revert_ok [of "ac_serialize cx" "aa_revert_write a" "prep_output pr" "prep_old pr" "ax_store st"]
  by (simp add: stored_def rollback_store revert_written_def assigned.reverted_def)

lemma complete_apply_failed:
  assumes "complete_apply cx a pr retry st = (Inl e, st')"
  shows "n \<noteq> prep_output pr \<Longrightarrow> stored n st' = stored n st"
    "ax_trace st' = ax_trace st @ [start_effect retry (prep_spec pr)]
     \<or> ax_trace st' = ax_trace st @ [start_effect retry (prep_spec pr), EfScript (switch_script (prep_index pr))]"
proof -
  let ?st1 = "emit (start_effect retry (prep_spec pr)) st"
  have start: "snd (start_renderer cx a (prep_spec pr) retry st) = ?st1" by (rule start_renderer_state)
  consider "start_renderer cx a (prep_spec pr) retry st = (Inl e, st')"
    | "persist_assignment cx a pr ?st1 = (Inl e, st')"
    | u st2 where "persist_assignment cx a pr ?st1 = (Inr u, st2)"
        "switch_wallpaper cx a (prep_output pr) (prep_index pr) st2 = (Inl e, st')"
    using assms start by (auto simp: complete_apply_def step_then_Inl)
  then show "n \<noteq> prep_output pr \<Longrightarrow> stored n st' = stored n st"
    "ax_trace st' = ax_trace st @ [start_effect retry (prep_spec pr)]
     \<or> ax_trace st' = ax_trace st @ [start_effect retry (prep_spec pr), EfScript (switch_script (prep_index pr))]"
  proof (atomize (full), cases)
    case 1
    then show "(n \<noteq> prep_output pr \<longrightarrow> stored n st' = stored n st) \<and> (ax_trace st' = ax_trace st @ [start_effect retry (prep_spec pr)]
     \<or> ax_trace st' = ax_trace st @ [start_effect retry (prep_spec pr), EfScript (switch_script (prep_index pr))])"
      using start by simp
  next
    case 2
    then show "(n \<noteq> prep_output pr \<longrightarrow> stored n st' = stored n st) \<and> (ax_trace st' = ax_trace st @ [start_effect retry (prep_spec pr)]
     \<or> ax_trace st' = ax_trace st @ [start_effect retry (prep_spec pr), EfScript (switch_script (prep_index pr))])"
      using persist_failed [OF 2] by simp
  next
    case 3
    then have "st' = emit (EfScript (switch_script (prep_index pr))) st2"
      using switch_state [of cx a "prep_output pr" "prep_index pr" st2] by simp
    with persist_ok(2,3) [OF 3(1)]
    show "(n \<noteq> prep_output pr \<longrightarrow> stored n st' = stored n st) \<and> (ax_trace st' = ax_trace st @ [start_effect retry (prep_spec pr)]
     \<or> ax_trace st' = ax_trace st @ [start_effect retry (prep_spec pr), EfScript (switch_script (prep_index pr))])"
      by simp
  qed
qed

lemma finish_apply_failed:
  assumes "finish_apply cx a retry prep st = (Inl e, st')"
  obtains (refused) "prep = Inl e" "st' = st"
  | (rolled_back) pr st1 where "prep = Inr pr" "complete_apply cx a pr retry st = (Inl e, st1)"
      "st' = rollback_after_failure cx a pr st1"
  using assms by (auto simp: finish_apply_def split: sum.splits prod.splits)

section \<open>What was prepared\<close>

lemma apply_call_cases:
  "apply_call_step cx a c st =
     (if aa_lock_held a then (Inl ApBusy, st) else finish_apply cx a (call_retry c) (prepare_call cx a c st) st)"
  by (cases c) (simp_all add: apply_wallpaper_def apply_playlist_def)

lemma into_validated_same:
  assumes "into_validated pre canon assets s = Inr s'"
  shows "\<exists>c. s' = s\<lparr>ss_content := c\<rparr>" "start_validate pre assets s = Inr ()"
proof -
  show "start_validate pre assets s = Inr ()" using assms by (auto simp: into_validated_def result_simps)
  have same: "\<exists>c. t = t\<lparr>ss_content := c\<rparr>" for t :: start_spec
    by (rule exI [of _ "ss_content t"]) simp
  show "\<exists>c. s' = s\<lparr>ss_content := c\<rparr>"
    using assms
    by (auto simp: into_validated_def result_simps intro: same
        split: renderer_kind.splits option.splits content_spec.splits)
qed

lemma validated_spec_same:
  assumes "validated_spec cx a s = Inr s'"
  shows "ss_wallpaper_id s' = ss_wallpaper_id s" "ss_kind s' = ss_kind s" "ss_fps s' = ss_fps s"
    "ss_scaling s' = ss_scaling s" "start_validate (aa_preflights a) (ac_assets cx) s = Inr ()"
    "ss_capability_limitations s' = ss_capability_limitations s"
proof -
  have v: "into_validated (aa_preflights a) (aa_canonical a) (ac_assets cx) s = Inr s'"
    using assms by (simp add: validated_spec_def result_simps)
  obtain c where "s' = s\<lparr>ss_content := c\<rparr>" using into_validated_same(1) [OF v] ..
  then show "ss_wallpaper_id s' = ss_wallpaper_id s" "ss_kind s' = ss_kind s" "ss_fps s' = ss_fps s"
    "ss_scaling s' = ss_scaling s" "ss_capability_limitations s' = ss_capability_limitations s" by simp_all
  show "start_validate (aa_preflights a) (ac_assets cx) s = Inr ()" by (rule into_validated_same(2) [OF v])
qed

lemma build_apply_spec_same:
  assumes "build_apply_spec cx a p = Inr s"
  shows "ss_wallpaper_id s = ap_wallpaper_id p" "ss_kind s = ap_kind p" "ap_kind p \<noteq> KindTest"
    "ss_fps s = ap_fps p" "ss_scaling s = ap_scaling p" "ss_capability_limitations s = []"
  using assms
  by (auto simp: build_apply_spec_def pending_spec_def Let_def result_simps split: option.splits
      dest: validated_spec_same)

lemma sized_spec_same [simp]:
  "ss_wallpaper_id (sized_spec w h out s) = ss_wallpaper_id s" "ss_kind (sized_spec w h out s) = ss_kind s"
  "ss_content_hash (sized_spec w h out s) = ss_content_hash s" "ss_fps (sized_spec w h out s) = ss_fps s"
  "ss_scaling (sized_spec w h out s) = ss_scaling s"
  "ss_capability_limitations (sized_spec w h out s) = ss_capability_limitations s"
  by (simp_all add: sized_spec_def split: prod.splits)

text \<open>The verdict of the gate on what a scene requires.\<close>

definition gate_allows :: "inspection \<Rightarrow> string list \<Rightarrow> bool" where
  "gate_allows iv limitations \<longleftrightarrow> iv_outcome iv \<noteq> Some ''incompatible'' \<and>
     (if iv_outcome iv = Some ''inventoried''
      then required_ids iv \<subseteq> set capabilities_implemented \<union> set limitations
        \<and> set limitations \<subseteq> required_ids iv \<inter> set capabilities_tolerated
      else limitations = [])"

lemma finite_required [simp]: "finite (required_ids iv)"
  by (simp add: required_ids_def)

lemma gate_sound:
  assumes "scene_capability_gate iv = Inr g"
  shows "gate_allows iv (ga_limitations g)"
  using assms
  by (auto simp: scene_capability_gate_def gate_allows_def Let_def split: if_splits)

lemma gate_for_same:
  assumes "gate_for a s = Inr (s', g)"
  shows "ss_wallpaper_id s' = ss_wallpaper_id s" "ss_kind s' = ss_kind s" "ss_content_hash s' = ss_content_hash s"
    "ss_fps s' = ss_fps s" "ss_scaling s' = ss_scaling s" "ss_width s' = ss_width s" "ss_height s' = ss_height s"
    "ss_kind s = KindScene \<Longrightarrow> gate_allows (aa_inspection a) (ga_limitations g)"
    "ss_capability_limitations s = [] \<Longrightarrow> ss_capability_limitations s' = ga_limitations g"
  using assms gate_sound by (auto simp: gate_for_def result_simps split: if_splits)

text \<open>What the caller of a prepared transaction knows.\<close>

definition prepared_for ::
  "apply_context \<Rightarrow> apply_answers \<Rightarrow> string \<Rightarrow> apply_state \<Rightarrow> prepared \<Rightarrow> bool" where
  "prepared_for cx a wid st pr \<longleftrightarrow>
     ss_wallpaper_id (prep_spec pr) = wid
     \<and> (ss_kind (prep_spec pr) = KindScene \<longrightarrow> gate_allows (aa_inspection a) (ga_limitations (prep_gate pr)))
     \<and> ss_capability_limitations (prep_spec pr) = ga_limitations (prep_gate pr)
     \<and> prep_old pr = stored (prep_output pr) st
     \<and> (\<exists>outs out. view_outputs cx (aa_view a) = Inr outs \<and> find_output (prep_output pr) outs = Some out
          \<and> oi_desktop_index out = Some (prep_index pr) \<and> previous_for a out st = Inr (prep_previous pr))"

lemma find_output_name: "find_output n outs = Some out \<Longrightarrow> oi_name out = n"
  by (auto simp: find_output_def dest: find_first)

lemma stored_assignment_Inr: "stored_assignment a acc n st = Inr old \<Longrightarrow> old = stored n st"
  by (auto simp: stored_assignment_def result_simps)

lemma prepare_apply_for:
  assumes "prepare_apply cx a p st = Inr pr"
  shows "prepared_for cx a (ap_wallpaper_id p) st pr" "prep_output pr = ap_output p"
    "ss_kind (prep_spec pr) = ap_kind p"
proof -
  obtain spec0 item content spec1 outs out index previous old spec4 gate where s:
    "build_apply_spec cx a p = Inr spec0"
    "validated_spec cx a (spec0\<lparr>ss_content := content_spec_for (ap_kind p) content\<rparr>) = Inr spec1"
    "view_outputs cx (aa_view a) = Inr outs" "find_output (ap_output p) outs = Some out"
    "desktop_of out = Inr index" "previous_for a out st = Inr previous"
    "stored_assignment a AccessOld (oi_name out) st = Inr old"
    "gate_for a (sized_spec (ap_width p) (ap_height p) out
       (spec1\<lparr>ss_content_hash := content_hash_for cx a item content\<rparr>)) = Inr (spec4, gate)"
    "pr = \<lparr>prep_spec = spec4, prep_content = content, prep_output = oi_name out, prep_index = index,
       prep_previous = previous, prep_old = old, prep_gate = gate\<rparr>"
    using assms by (auto simp: prepare_apply_def result_simps Let_def)
  note same = build_apply_spec_same [OF s(1)] validated_spec_same [OF s(2)] gate_for_same [OF s(8)]
    find_output_name [OF s(4)] stored_assignment_Inr [OF s(7)]
  show "prep_output pr = ap_output p" "ss_kind (prep_spec pr) = ap_kind p" using same by (simp_all add: s(9))
  show "prepared_for cx a (ap_wallpaper_id p) st pr"
    using same s(3,4,5,6) by (auto simp: prepared_for_def s(9) desktop_of_def result_simps)
qed

lemma prepare_playlist_for:
  assumes "prepare_playlist cx a output wid entries applied_id st = Inr pr"
  shows "prepared_for cx a wid st pr"
proof -
  obtain kind item content spec1 outs out index previous old spec4 gate resolved where s:
    "validated_spec cx a (pending_spec wid default_apply_width default_apply_height default_apply_fps
              kind (content_spec_for kind content) Aspect) = Inr spec1"
    "view_outputs cx (aa_view a) = Inr outs" "find_output resolved outs = Some out"
    "desktop_of out = Inr index" "previous_for a out st = Inr previous"
    "stored_assignment a AccessOld resolved st = Inr old"
    "gate_for a (sized_spec None None out
       (spec1\<lparr>ss_content_hash := content_hash_for cx a item content\<rparr>)) = Inr (spec4, gate)"
    "pr = (let spec5 = spec4\<lparr>ss_scaling := (case old of Some an \<Rightarrow> an_scaling an | None \<Rightarrow> Aspect)\<rparr>;
         spec6 = (case kept_rate old of Some fps \<Rightarrow> spec5\<lparr>ss_fps := fps\<rparr> | None \<Rightarrow> spec5) in
       \<lparr>prep_spec = spec6, prep_content = content, prep_output = resolved, prep_index = index,
            prep_previous = previous, prep_old = old, prep_gate = gate\<rparr>)"
    using assms by (auto simp: prepare_playlist_def result_simps Let_def)
  note same = validated_spec_same [OF s(1)] gate_for_same [OF s(7)] stored_assignment_Inr [OF s(6)]
  have fields: "prep_output pr = resolved" "prep_index pr = index" "prep_previous pr = previous" "prep_old pr = old"
    "prep_gate pr = gate" "ss_wallpaper_id (prep_spec pr) = ss_wallpaper_id spec4"
    "ss_kind (prep_spec pr) = ss_kind spec4"
    "ss_capability_limitations (prep_spec pr) = ss_capability_limitations spec4"
    by (simp_all add: s(8) Let_def split: option.splits)
  show ?thesis
    using same s(2,3,4,5) fields by (auto simp: prepared_for_def desktop_of_def result_simps pending_spec_def)
qed

lemma prepare_call_for: "prepare_call cx a c st = Inr pr \<Longrightarrow> prepared_for cx a (call_wallpaper c) st pr"
  by (cases c) (auto dest: prepare_apply_for prepare_playlist_for)

section \<open>Properties of an apply\<close>

text \<open>
  C3: a reported success is a verified one, in both lanes: our renderer was started once, a poll showed it
  promoted and it was still ours afterwards; the assignment is the one reported, in memory and in the
  file, and no other output's changed; the only script was the switch of the output's desktop and the desktop
  showed our plugin after it; and a scene that was inventoried requires nothing beyond the implemented
  capabilities and the tolerated ones that the assignment records.
\<close>

theorem apply_success_verified:
  assumes "apply_call_step cx a c st = (Inr done, st')"
  shows "\<exists>spec index. ss_wallpaper_id spec = call_wallpaper c
    \<and> an_wallpaper_id (ad_assignment done) = call_wallpaper c
    \<and> ax_trace st' = ax_trace st @ [start_effect (call_retry c) spec, EfScript (switch_script index)]
    \<and> promoted spec (aa_polls a) \<and> (\<exists>ws. aa_owner a = Inr ws \<and> status_ours spec ws)
    \<and> stored (ad_output done) st' = Some (ad_assignment done)
    \<and> (\<forall>n. n \<noteq> ad_output done \<longrightarrow> stored n st' = stored n st)
    \<and> Mapping.lookup (snd (ax_store st')) assignments_file = Some (ac_serialize cx (fst (ax_store st')))
    \<and> shows_plugin cx (aa_verify_view a) (ad_output done) kwe_plugin (Some index)
    \<and> (an_kind (ad_assignment done) = KindScene \<longrightarrow>
         gate_allows (aa_inspection a) (an_capability_limitations (ad_assignment done)))"
proof -
  have "finish_apply cx a (call_retry c) (prepare_call cx a c st) st = (Inr done, st')"
    using assms by (auto simp: apply_call_cases split: if_splits)
  then obtain pr where pr: "prepare_call cx a c st = Inr pr" "complete_apply cx a pr (call_retry c) st = (Inr (), st')"
    "done = \<lparr>ad_output = prep_output pr, ad_assignment = assignment_for a pr, ad_gate = prep_gate pr\<rparr>"
    by (rule finish_apply_ok)
  note ok = complete_apply_ok [OF pr(2)] and known = prepare_call_for [OF pr(1)]
  show ?thesis
    by (rule exI [of _ "prep_spec pr"], rule exI [of _ "prep_index pr"])
      (use ok known in \<open>simp add: pr(3) assignment_for_def prepared_for_def Let_def\<close>)
qed

text \<open>
  C4: a failure changes no assignment. Before the renderer was started nothing is touched. After that
  the assignments of the other outputs stay, and when the write of the rollback succeeds so does the output's own;
  the renderer is stopped only if it is still ours, and nothing else is done to it.
\<close>

theorem apply_failure_rolls_back:
  assumes "apply_call_step cx a c st = (Inl e, st')"
  shows "st' = st \<or> (\<exists>pr st1. prepare_call cx a c st = Inr pr
    \<and> complete_apply cx a pr (call_retry c) st = (Inl e, st1)
    \<and> (\<forall>n. n \<noteq> prep_output pr \<longrightarrow> stored n st' = stored n st)
    \<and> (revert_written cx a pr st1 \<longrightarrow> (\<forall>n. stored n st' = stored n st))
    \<and> (\<exists>script. (script = [] \<or> script = [EfScript (switch_script (prep_index pr))])
         \<and> ax_trace st' = ax_trace st @ start_effect (call_retry c) (prep_spec pr) # script
             @ (case aa_rollback_status a of
                  Inr ws \<Rightarrow> if status_ours (prep_spec pr) ws then [EfStop] else [] | Inl _ \<Rightarrow> [])))"
proof (cases "aa_lock_held a")
  case True
  then show ?thesis using assms by (simp add: apply_call_cases)
next
  case False
  then have "finish_apply cx a (call_retry c) (prepare_call cx a c st) st = (Inl e, st')"
    using assms by (simp add: apply_call_cases)
  then show ?thesis
  proof (cases rule: finish_apply_failed)
    case refused
    then show ?thesis by simp
  next
    case (rolled_back pr st1)
    note failed = complete_apply_failed [OF rolled_back(2)]
    have other: "stored n st' = stored n st" if "n \<noteq> prep_output pr" for n
      using failed(1) [OF that] rollback_other [OF that] by (simp add: rolled_back(3))
    moreover have "stored n st' = stored n st" if "revert_written cx a pr st1" for n
      using other [of n] rollback_own [OF that] prepare_call_for [OF rolled_back(1)]
      by (cases "n = prep_output pr") (simp_all add: rolled_back(3) prepared_for_def)
    moreover have "\<exists>script. (script = [] \<or> script = [EfScript (switch_script (prep_index pr))])
         \<and> ax_trace st' = ax_trace st @ start_effect (call_retry c) (prep_spec pr) # script
             @ (case aa_rollback_status a of
                  Inr ws \<Rightarrow> if status_ours (prep_spec pr) ws then [EfStop] else [] | Inl _ \<Rightarrow> [])"
      using failed(2) by (auto simp: rolled_back(3) rollback_trace)
    ultimately show ?thesis using rolled_back(1,2) by blast
  qed
qed

section \<open>The wallpaper from before the first apply\<close>

definition sees_kwe :: "apply_context \<Rightarrow> string \<Rightarrow> apply_answers \<Rightarrow> bool" where
  "sees_kwe cx n a \<longleftrightarrow> (case view_outputs cx (aa_view a) of
     Inr outs \<Rightarrow> (case find_output n outs of Some out \<Rightarrow> oi_wallpaper_plugin out = Some kwe_plugin | None \<Rightarrow> True)
   | Inl _ \<Rightarrow> True)"

text \<open>An apply looked at the desktop, found another plugin than ours there, and \<open>p\<close> is its wallpaper.\<close>

definition sees_foreign :: "apply_context \<Rightarrow> string \<Rightarrow> apply_answers \<Rightarrow> previous_wallpaper \<Rightarrow> bool" where
  "sees_foreign cx n a p \<longleftrightarrow> (case view_outputs cx (aa_view a) of
     Inr outs \<Rightarrow> (case find_output n outs of
         Some out \<Rightarrow> oi_wallpaper_plugin out \<noteq> Some kwe_plugin \<and> live_previous out = Inr p
       | None \<Rightarrow> False)
   | Inl _ \<Rightarrow> False)"

lemma sees_foreign_not_kwe: "sees_foreign cx n a p \<Longrightarrow> \<not> sees_kwe cx n a \<and> pw_wallpaper_plugin p \<noteq> kwe_plugin"
  by (auto simp: sees_foreign_def sees_kwe_def live_previous_def result_simps split: sum.splits option.splits)

definition original_of :: "string \<Rightarrow> apply_state \<Rightarrow> previous_wallpaper option" where
  "original_of n st = Option.bind (stored n st) an_previous"

lemma previous_for_carried:
  assumes "previous_for a out st = Inr previous" "oi_wallpaper_plugin out = Some kwe_plugin"
    "original_of (oi_name out) st = Some p0"
  shows "previous = p0"
  using assms
  by (auto simp: previous_for_def original_of_def stored_assignment_def result_simps split: option.splits)

lemma rollback_own_cases:
  "stored (prep_output pr) (rollback_after_failure cx a pr st) \<in> {stored (prep_output pr) st, prep_old pr}"
  using assigned.revert_own [of "prep_output pr" "ac_serialize cx" "aa_revert_write a" "prep_old pr" "ax_store st"]
  by (auto simp: stored_def rollback_store)

lemma complete_apply_own:
  assumes "complete_apply cx a pr retry st = (r, st')"
  shows "stored (prep_output pr) st' \<in> {stored (prep_output pr) st, Some (assignment_for a pr)}"
proof -
  have start: "snd (start_renderer cx a (prep_spec pr) retry st) = emit (start_effect retry (prep_spec pr)) st"
    by (rule start_renderer_state)
  obtain q st2 where p: "persist_assignment cx a pr (emit (start_effect retry (prep_spec pr)) st) = (q, st2)"
    by (cases "persist_assignment cx a pr (emit (start_effect retry (prep_spec pr)) st)")
  have "stored (prep_output pr) st2 \<in> {stored (prep_output pr) st, Some (assignment_for a pr)}"
    using persist_ok(1) [of cx a pr] persist_failed(1) [of cx a pr] p by (cases q) fastforce+
  moreover have "stored n (snd (switch_wallpaper cx a (prep_output pr) (prep_index pr) st2)) = stored n st2" for n
    by (simp add: switch_state)
  ultimately show ?thesis
    using assms start p
    by (cases "fst (start_renderer cx a (prep_spec pr) retry st)"; cases q)
      (auto simp: complete_apply_def step_then_def split: prod.splits)
qed

lemma previous_for_foreign:
  assumes "previous_for a out st = Inr previous" "oi_wallpaper_plugin out \<noteq> Some kwe_plugin"
    "view_outputs cx (aa_view a) = Inr outs" "find_output n outs = Some out"
  shows "sees_foreign cx n a previous"
  using assms by (simp add: previous_for_def sees_foreign_def)

lemma apply_call_original:
  assumes "original_of n st = Some p0"
  shows "\<exists>p. original_of n (snd (apply_call_step cx a c st)) = Some p \<and> (p = p0 \<or> sees_foreign cx n a p)"
proof (cases "aa_lock_held a")
  case True
  then show ?thesis using assms by (simp add: apply_call_cases)
next
  case unlocked: False
  show ?thesis
  proof (cases "prepare_call cx a c st")
    case (Inl e)
    then show ?thesis using assms unlocked by (simp add: apply_call_cases finish_apply_def)
  next
    case (Inr pr)
    obtain r st1 where run: "complete_apply cx a pr (call_retry c) st = (r, st1)"
      by (cases "complete_apply cx a pr (call_retry c) st")
    have known: "prepared_for cx a (call_wallpaper c) st pr" by (rule prepare_call_for [OF Inr])
    let ?out = "snd (apply_call_step cx a c st)"
    have out: "?out = (case r of Inr _ \<Rightarrow> st1 | Inl _ \<Rightarrow> rollback_after_failure cx a pr st1)"
      using unlocked Inr run by (simp add: apply_call_cases finish_apply_def split: sum.splits)
    show ?thesis
    proof (cases "n = prep_output pr")
      case True
      obtain outs out' where look: "view_outputs cx (aa_view a) = Inr outs" "find_output n outs = Some out'"
        "previous_for a out' st = Inr (prep_previous pr)"
        using known True by (auto simp: prepared_for_def)
      have saved: "prep_previous pr = p0 \<or> sees_foreign cx n a (prep_previous pr)"
        using previous_for_carried [OF look(3), of p0] previous_for_foreign [OF look(3) _ look(1,2)]
          find_output_name [OF look(2)] assms by auto
      have "stored n ?out \<in> {stored n st, Some (assignment_for a pr)}"
        using complete_apply_own [OF run] rollback_own_cases [of pr cx a st1] known True
        by (auto simp: out prepared_for_def split: sum.splits)
      then show ?thesis using saved assms by (auto simp: original_of_def assignment_for_def Let_def)
    next
      case False
      have "stored n st1 = stored n st"
        using complete_apply_ok(2) [of cx a pr] complete_apply_failed(1) [of cx a pr] run False
        by (cases r) fastforce+
      then have "stored n ?out = stored n st" using rollback_other [OF False] by (simp add: out split: sum.splits)
      with assms(1) show ?thesis by (simp add: original_of_def)
    qed
  qed
qed

text \<open>
  C5: the wallpaper from before the first apply is replaced only by one that the user has set since. After any
  number of applies of both lanes, succeeding or failing at any step and with any failing write, an output
  with a saved wallpaper still has one, and it is the same, or the one that an apply found on the desktop
  in place of our plugin. So while every apply finds our plugin on the desktop the saved wallpaper is
  unchanged, and our own plugin never takes its place.
\<close>

theorem original_wallpaper_kept:
  assumes "original_of n st = Some p0"
  shows "\<exists>p. original_of n (apply_run cx calls st) = Some p
    \<and> (p = p0 \<or> (\<exists>(a, c) \<in> set calls. sees_foreign cx n a p))
    \<and> ((\<forall>(a, c) \<in> set calls. sees_kwe cx n a) \<longrightarrow> p = p0)
    \<and> (pw_wallpaper_plugin p0 \<noteq> kwe_plugin \<longrightarrow> pw_wallpaper_plugin p \<noteq> kwe_plugin)"
proof -
  have "\<exists>p. original_of n (apply_run cx calls st) = Some p \<and> (p = p0 \<or> (\<exists>(a, c) \<in> set calls. sees_foreign cx n a p))"
    using assms
  proof (induction calls arbitrary: st p0)
    case (Cons call calls)
    obtain a c where call: "call = (a, c)" by (cases call)
    obtain p1 where p1: "original_of n (snd (apply_call_step cx a c st)) = Some p1" "p1 = p0 \<or> sees_foreign cx n a p1"
      using apply_call_original [OF Cons.prems] by blast
    from Cons.IH [OF p1(1)] p1(2) show ?case by (auto simp: call)
  qed simp
  then show ?thesis using sees_foreign_not_kwe by fastforce
qed

end
