(* ===== verification/Apply_Restore.thy ===== *)
theory Apply_Restore
  imports Apply_Safety
begin

text \<open>
  What a restore guarantees, the bounds of the frame canvas, and three situations in which the code
  does not do what its comments say: a restore between the halves of an apply, a first apply whose
  verification fails, and a frame canvas of which the client gives one edge.
\<close>

section \<open>Restore\<close>

lemma prepare_restore_ok:
  assumes "prepare_restore cx a n st = Inr (old, target, script)"
  shows "old = stored n st" "target = restore_target_for (stored n st) (stock_image_path (rs_is_file a))"
    "\<exists>index. restore_script index (rg_wallpaper_plugin target) (rg_config_group target) (rg_image target) = Inr script"
  using assms by (auto simp: prepare_restore_def Let_def result_simps)

lemma verify_restore_ok: "verify_restore cx v n plugin = Inr u \<Longrightarrow> shows_plugin cx v n plugin None"
  by (auto simp: verify_restore_def result_simps shows_plugin_def)

definition removal_written :: "apply_context \<Rightarrow> restore_answers \<Rightarrow> string \<Rightarrow> apply_state \<Rightarrow> bool" where
  "removal_written cx a n st \<longleftrightarrow> \<not> rs_remove_poisoned a
     \<and> is_ok (fst (assignments_remove (ac_serialize cx) (rs_write a) n (ax_store st)))"

lemma removed_store:
  "stored m (st\<lparr>ax_store := snd (assignments_remove ser io n (ax_store st))\<rparr>) =
     assignment_of m (fst (snd (assignments_remove ser io n (ax_store st))))"
  by (simp add: stored_def)

text \<open>What a restore looks up before it acts: the output, its desktop and the script of the saved wallpaper.\<close>

definition restore_ready :: "apply_context \<Rightarrow> restore_answers \<Rightarrow> string \<Rightarrow> apply_state \<Rightarrow> restore_target \<Rightarrow> string \<Rightarrow> bool" where
  "restore_ready cx a n st target script \<longleftrightarrow> \<not> rs_poisoned a
     \<and> target = restore_target_for (stored n st) (stock_image_path (rs_is_file a))
     \<and> (\<exists>outs out index. view_outputs cx (rs_view a) = Inr outs \<and> find_output n outs = Some out
          \<and> oi_desktop_index out = Some index
          \<and> restore_script index (rg_wallpaper_plugin target) (rg_config_group target) (rg_image target) = Inr script)"

lemma prepare_restore_ready:
  "(\<exists>old. prepare_restore cx a n st = Inr (old, target, script)) \<longleftrightarrow> restore_ready cx a n st target script"
  by (auto simp: prepare_restore_def restore_ready_def Let_def desktop_of_def result_simps)

lemma verify_restore_iff: "verify_restore cx v n plugin = Inr () \<longleftrightarrow> shows_plugin cx v n plugin None"
  by (auto simp: verify_restore_def result_simps shows_plugin_def)

text \<open>
  C6: a restore succeeds exactly when the output and its desktop were found, the one script, which is the script of
  exactly the saved configuration on that desktop (or of the stock image without one), ran without an
  error, and the desktop was then seen with the plugin of that configuration. The image and the
  configuration keys are written by that script and, as in the code, not read back. Until then every
  assignment is as before, and nothing but that script was run; on success only the output's own record
  goes, when the write succeeds.
\<close>

theorem restore_verified:
  assumes "restore_wallpaper cx a n st = (r, st')"
  shows "(\<forall>m. m \<noteq> n \<longrightarrow> stored m st' = stored m st)
    \<and> (\<forall>target. r = Inr target \<longleftrightarrow>
         (\<exists>script reply. restore_ready cx a n st target script \<and> rs_evaluate a script = Inr reply
            \<and> shows_plugin cx (rs_verify_view a) n (rg_wallpaper_plugin target) None))
    \<and> (case r of
         Inl e \<Rightarrow> ax_store st' = ax_store st
           \<and> (ax_trace st' = ax_trace st
              \<or> (\<exists>target script. restore_ready cx a n st target script \<and> ax_trace st' = ax_trace st @ [EfScript script]))
       | Inr target \<Rightarrow>
           (\<exists>script. restore_ready cx a n st target script \<and> ax_trace st' = ax_trace st @ [EfScript script])
           \<and> (removal_written cx a n st \<or> stored n st = None \<longrightarrow> stored n st' = None)
           \<and> (stored n st' = None \<or> stored n st' = stored n st))"
proof (cases "prepare_restore cx a n st")
  case (Inl e)
  then have "\<not> restore_ready cx a n st target script" for target script
    using prepare_restore_ready [of cx a n st target script] by auto
  with Inl show ?thesis using assms by (auto simp: restore_wallpaper_def)
next
  case (Inr x)
  obtain old target script where x: "x = (old, target, script)" by (cases x)
  note prep = prepare_restore_ok [OF Inr [unfolded x]]
  have ready: "restore_ready cx a n st t' s' \<longleftrightarrow> t' = target \<and> s' = script" for t' s'
    using prepare_restore_ready [of cx a n st t' s'] Inr x by auto
  let ?st1 = "emit (EfScript script) st"
  let ?st2 = "if old = None \<or> rs_remove_poisoned a then ?st1
     else ?st1\<lparr>ax_store := snd (assignments_remove (ac_serialize cx) (rs_write a) n (ax_store ?st1))\<rparr>"
  let ?check = "rbind (map_err (switch_error ApRestoreFailed) (rs_evaluate a script))
                  (\<lambda>_. verify_restore cx (rs_verify_view a) n (rg_wallpaper_plugin target))"
  have step: "(r, st') = (case ?check of Inl e \<Rightarrow> (Inl e, ?st1) | Inr _ \<Rightarrow> (Inr target, ?st2))"
    using assms Inr x by (simp add: restore_wallpaper_def Let_def)
  have checked: "?check = Inr () \<longleftrightarrow> (\<exists>reply. rs_evaluate a script = Inr reply)
      \<and> shows_plugin cx (rs_verify_view a) n (rg_wallpaper_plugin target) None"
    by (cases "rs_evaluate a script") (simp_all add: verify_restore_iff [symmetric])
  have other: "stored m ?st2 = stored m st" if "m \<noteq> n" for m
    using assigned.drop_other [OF that, of "ac_serialize cx" "rs_write a" "ax_store st"]
    by (simp add: removed_store) (simp add: stored_def)
  show ?thesis
  proof (cases ?check)
    case (Inl e)
    then show ?thesis using step checked ready by auto
  next
    case ok: (Inr u)
    then have res: "r = Inr target" "st' = ?st2" using step by auto
    have trace: "ax_trace ?st2 = ax_trace st @ [EfScript script]" by simp
    have own: "(removal_written cx a n st \<or> stored n st = None \<longrightarrow> stored n ?st2 = None)
        \<and> (stored n ?st2 = None \<or> stored n ?st2 = stored n st)"
      using assigned.revert_ok [of "ac_serialize cx" "rs_write a" n None "ax_store st"]
        assigned.revert_own [of n "ac_serialize cx" "rs_write a" None "ax_store st"]
      by (auto simp: removed_store removal_written_def assigned.reverted_def assigned.revert_def prep(1))
        (auto simp: stored_def)
    have seen: "(\<exists>reply. rs_evaluate a script = Inr reply)"
      "shows_plugin cx (rs_verify_view a) n (rg_wallpaper_plugin target) None" using ok checked by auto
    show ?thesis
      using other own trace ready seen unfolding res by auto
  qed
qed

section \<open>The frame canvas\<close>

lemma clamp_edge_range: "min_frame_edge \<le> clamp_edge n \<and> clamp_edge n \<le> max_frame_edge"
  by (simp add: clamp_edge_def min_frame_edge_def max_frame_edge_def)

lemma unat_clamp: "unat (word_of_nat (clamp_edge n) :: u32) = clamp_edge n"
  using clamp_edge_range [of n] by (simp add: unat_of_nat max_frame_edge_def)

lemma frame_size_derived:
  "frame_size_for None None geometry = (w, h) \<Longrightarrow> 64 \<le> unat w \<and> unat w \<le> 2560 \<and> 64 \<le> unat h \<and> unat h \<le> 2560"
  using clamp_edge_range
  by (auto simp: frame_size_for_def Let_def opt_or_def default_apply_width_def default_apply_height_def
      unat_clamp min_frame_edge_def max_frame_edge_def split: option.splits if_splits)

text \<open>
  a canvas derived from an output, whatever geometry was reported, is accepted by the frame
  protocol and its mapping stays below the cap of the supervisor.
\<close>

theorem frame_size_bounded:
  assumes "frame_size_for None None geometry = (w, h)"
  shows "\<exists>spec. frame_spec_new w h = Inr spec \<and> fs_file_bytes spec \<le> max_supervised_mapping_bytes"
proof -
  note b = frame_size_derived [OF assms]
  have prod: "unat w * unat h \<le> 2560 * 2560" using b by (intro mult_mono) simp_all
  have "\<exists>spec. frame_spec_new w h = Inr spec"
    by (rule frame_spec_accepts) (use b prod in \<open>simp_all add: mult.commute\<close>)
  then obtain spec where spec: "frame_spec_new w h = Inr spec" ..
  then have "unat (fs_file_bytes spec) \<le> 134217728"
    using prod frame_spec_new_sizes(8,9) [OF spec] by (simp add: mult.commute)
  then show ?thesis using spec by (simp add: word_le_nat_alt max_supervised_mapping_bytes_def)
qed

section \<open>Three situations\<close>

text \<open>
  With one edge given by the client the other is derived, and the pair is checked by nothing: a width of
  8192 is fine with the height of 540 that the specification was validated with, but on a portrait output
  of 1440x2560 it asks for a mapping above the cap.
\<close>

lemma frame_size_one_given:
  "frame_size_for (Some 8192) None (Some (0, 0, 1440, 2560)) = (8192, 2560)"
  "\<exists>spec. frame_spec_new 8192 2560 = Inr spec \<and> max_supervised_mapping_bytes < fs_file_bytes spec"
  by (simp_all add: frame_size_for_def Let_def opt_or_def clamp_edge_def max_frame_edge_def min_frame_edge_def
      even_down_def frame_spec_new_def checked_mul_def checked_add_def frame_constants
      max_supervised_mapping_bytes_def)

text \<open>
  A restore takes no lock. One that runs after a playlist apply has stored its assignment, and before
  that apply switches the desktop, puts the wallpaper back and removes the record; the apply then switches the desktop
  to our plugin and reports success, and the record of what was there before is gone.
\<close>

lemma restore_between_halves:
  assumes "persist_assignment cx a pr st = (Inr u, st1)" "prep_output pr = n"
    and "restore_wallpaper cx b n st1 = (Inr target, st2)" "removal_written cx b n st1"
    and "switch_wallpaper cx a n (prep_index pr) st2 = (Inr v, st3)"
  shows "stored n st3 = None \<and> shows_plugin cx (aa_verify_view a) n kwe_plugin (Some (prep_index pr))"
proof -
  have own: "stored n st1 = Some (assignment_for a pr)" using persist_ok(1) [OF assms(1)] assms(2) by simp
  obtain old target' script where prep: "prepare_restore cx b n st1 = Inr (old, target', script)"
    using assms(3) by (cases "prepare_restore cx b n st1") (auto simp: restore_wallpaper_def)
  have "old = Some (assignment_for a pr)" using prepare_restore_ok(1) [OF prep] own by simp
  then have "st2 = emit (EfScript script) st1\<lparr>ax_store := snd (assignments_remove (ac_serialize cx) (rs_write b) n (ax_store st1))\<rparr>"
    using assms(3,4) prep by (auto simp: restore_wallpaper_def Let_def removal_written_def emit_def split: sum.splits)
  then have "stored n st2 = None"
    using assms(4) assigned.revert_ok [of "ac_serialize cx" "rs_write b" n None "ax_store st1"]
    by (simp add: stored_def removal_written_def assigned.reverted_def assigned.revert_def)
  moreover have "st3 = emit (EfScript (switch_script (prep_index pr))) st2"
    using switch_state [of cx a n "prep_index pr" st2] assms(5) by simp
  ultimately show ?thesis using switch_ok(1) [OF assms(5)] by simp
qed

text \<open>
  On a desktop that already shows our plugin and has no record, the plugin itself is saved as the wallpaper
  from before, and a restore puts it back.
\<close>

lemma previous_without_record:
  assumes "oi_wallpaper_plugin out = Some kwe_plugin" "stored (oi_name out) st = None"
    "previous_for a out st = Inr previous"
  shows "pw_wallpaper_plugin previous = kwe_plugin
    \<and> rg_wallpaper_plugin (restore_target_for (Some (an\<lparr>an_previous := Some previous\<rparr>)) stock) = kwe_plugin"
  using assms
  by (auto simp: previous_for_def stored_assignment_def live_previous_def restore_target_for_def result_simps)

text \<open>
  So it comes to that: the first apply of an output switches the desktop, its verification fails, and the
  rollback removes the record with the saved wallpaper but leaves the desktop switched.
\<close>

lemma failed_first_apply:
  assumes "prepare_call cx a c st = Inr pr" "complete_apply cx a pr (call_retry c) st = (Inl e, st1)"
    and "st' = rollback_after_failure cx a pr st1" "revert_written cx a pr st1" "prep_old pr = None"
    and "EfScript (switch_script (prep_index pr)) \<in> set (ax_trace st1)"
  shows "stored (prep_output pr) st' = None
    \<and> EfScript (switch_script (prep_index pr)) \<in> set (ax_trace st')
    \<and> set (ax_trace st') \<subseteq> set (ax_trace st1) \<union> {EfStop}"
  using rollback_own [OF assms(4)] assms(5,6)
  by (auto simp: assms(3) rollback_trace split: sum.splits if_splits)

end
