(* ===== verification/Apply_Samples.thy ===== *)
theory Apply_Samples
  imports Apply_Restore
begin

text \<open>
  One desktop and one web wallpaper: an apply that succeeds, one whose verification fails, a second apply
  over the first, and a restore. The shell's reply is the name of the plugin the desktop shows.
\<close>

definition sample_desktop :: "string \<Rightarrow> desktop_view" where
  "sample_desktop plugin =
     \<lparr>dv_listed = Inr [\<lparr>so_name = ''DP-1'', so_enabled = True, so_connected = True, so_geometry = None\<rparr>],
      dv_evaluate = (\<lambda>_. Inr plugin)\<rparr>"

definition sample_outputs :: "string \<Rightarrow> output_info list" where
  "sample_outputs plugin =
     [\<lparr>oi_name = ''DP-1'', oi_screen = 0, oi_desktop_id = Some 1, oi_desktop_index = Some 0, oi_geometry = None,
       oi_enabled = True, oi_connected = True, oi_wallpaper_plugin = Some plugin,
       oi_config_group = [''Wallpaper'', plugin, ''General''], oi_image = None\<rparr>]"

definition sample_apply_context :: apply_context where
  "sample_apply_context =
     \<lparr>ac_json = (\<lambda>s. Inr \<lparr>rp_desktops = [\<lparr>dk_index = 0, dk_id = 1, dk_screen = 0, dk_wp = s, dk_image = None\<rparr>],
         rp_connectors = Mapping.update ''DP-1'' 0 Mapping.empty\<rparr>),
      ac_serialize = (\<lambda>_. [1]), ac_sha256 = (\<lambda>_. ''00''), ac_assets = None, ac_promotion_timeout = 1000000000\<rparr>"

definition sample_live :: worker_status where
  "sample_live = (supervisor_status sample_context (supervisor_new fresh_state default_grants Mapping.empty))
     \<lparr>ws_phase := Live, ws_requested_wallpaper_id := Some ''w'', ws_requested_content_hash := Some ''h''\<rparr>"

definition sample_apply_answers :: apply_answers where
  "sample_apply_answers =
     \<lparr>aa_lock_held = False,
      aa_catalog = [\<lparr>ci_workshop_id = ''w'', ci_kind = ProjectWeb, ci_content_root = ''/c'', ci_entry_file = None,
        ci_metadata_hash = Some ''h'', ci_workshop_state = ''local''\<rparr>],
      aa_catalog_poisoned = False, aa_canonical = (\<lambda>p. Some p),
      aa_preflights = \<lparr>pre_video = (\<lambda>_. False), pre_web = (\<lambda>_. True), pre_scene = (\<lambda>_ _. False)\<rparr>,
      aa_inspection = \<lparr>iv_outcome = None, iv_required = None, iv_reason = None\<rparr>,
      aa_poisoned = (\<lambda>_. False), aa_foreign = Inl [], aa_resolve_view = sample_desktop image_plugin,
      aa_view = sample_desktop image_plugin, aa_start = Inr sample_live, aa_promotion_start = 0,
      aa_polls = [\<lparr>po_status = Inr sample_live, po_now = 0\<rparr>], aa_owner = Inr sample_live, aa_unix = 7,
      aa_write = sample_write_io, aa_switch = (\<lambda>_. Inr []), aa_verify_view = sample_desktop kwe_plugin,
      aa_rollback_status = Inr sample_live, aa_revert_write = sample_write_io\<lparr>aw_nanos := 3\<rparr>\<rparr>"

definition sample_params :: apply_params where
  "sample_params =
     \<lparr>ap_output = ''DP-1'', ap_wallpaper_id = ''w'', ap_kind = KindWeb, ap_content = None, ap_width = None,
      ap_height = None, ap_fps = 30, ap_scaling = Aspect, ap_retry = False\<rparr>"

definition sample_apply_spec :: start_spec where
  "sample_apply_spec = (pending_spec ''w'' 960 540 30 KindWeb (Some (ContentWeb ''/c'')) Aspect)
     \<lparr>ss_content_hash := ''h''\<rparr>"

definition sample_prepared :: "previous_wallpaper \<Rightarrow> assignment option \<Rightarrow> prepared" where
  "sample_prepared previous old =
     \<lparr>prep_spec = sample_apply_spec, prep_content = ''/c'', prep_output = ''DP-1'', prep_index = 0,
      prep_previous = previous, prep_old = old,
      prep_gate = \<lparr>ga_limitations = [], ga_inspection_reason = None\<rparr>\<rparr>"

definition sample_original :: previous_wallpaper where
  "sample_original = \<lparr>pw_wallpaper_plugin = image_plugin, pw_config_group = [''Wallpaper'', image_plugin, ''General''],
     pw_image = None\<rparr>"

definition sample_apply_state :: apply_state where
  "sample_apply_state = \<lparr>ax_store = (default_assignments, Mapping.empty), ax_trace = []\<rparr>"

lemma sample_view [simp]:
  assumes "plugin \<noteq> []"
  shows "view_outputs sample_apply_context (sample_desktop plugin) = Inr (sample_outputs plugin)"
proof -
  have "is_ok (probe_script [''DP-1''])"
    by (simp add: probe_script_def validate_identity_part_def is_ascii_alphanumeric_def is_ascii_upper_def
        is_ascii_digit_def byte_val_def)
  then obtain script where "probe_script [''DP-1''] = Inr script" by (auto simp: is_ok_iff)
  then show ?thesis
    using assms
    by (simp add: view_outputs_def enumerate_fresh_def sample_desktop_def sample_apply_context_def
        parse_probe_reply_def assemble_outputs_def assemble_output_def sample_outputs_def)
qed

lemma plugins_not_empty [simp]: "kwe_plugin \<noteq> []" "image_plugin \<noteq> []"
  by (simp_all add: kwe_plugin_def image_plugin_def)

lemma sample_identities:
  "validate_identity_part ''w''" "validate_identity_part ''pending''" "validate_identity_part ''DP-1''"
  "validate_identity_part image_plugin" "validate_identity_part ''Wallpaper''" "validate_identity_part ''General''"
  by (simp_all add: validate_identity_part_def is_ascii_alphanumeric_def is_ascii_upper_def is_ascii_lower_def
      is_ascii_digit_def byte_val_def image_plugin_def)

lemma apply_sample_find: "find_output ''DP-1'' (sample_outputs plugin) = Some (hd (sample_outputs plugin))"
  by (simp add: find_output_def sample_outputs_def)

lemma sample_ours: "status_ours sample_apply_spec sample_live" "ws_phase sample_live = Live"
  by (simp_all add: status_ours_def sample_live_def sample_apply_spec_def pending_spec_def)

lemma sample_validated:
  "into_validated (aa_preflights sample_apply_answers) (aa_canonical sample_apply_answers) None
     (pending_spec ''w'' 960 540 30 KindWeb (Some (ContentWeb ''/c'')) Aspect)
   = Inr (pending_spec ''w'' 960 540 30 KindWeb (Some (ContentWeb ''/c'')) Aspect)"
  by (simp add: into_validated_def start_validate_def pending_spec_def sample_identities content_validate_def
      frame_spec_new_def checked_mul_def checked_add_def frame_constants max_supervised_mapping_bytes_def
      sample_apply_answers_def)

lemma sample_chars: "char_count ''/c'' \<le> max_content_chars"
proof -
  have "str_chars ''/c'' = str_bytes ''/c''" by (rule str_chars_all_ascii) (simp add: str_ascii_def byte_val_def)
  then show ?thesis by (simp add: char_count_def str_bytes_def max_content_chars_def)
qed

lemma sample_prepare:
  assumes "previous_for a (hd (sample_outputs plugin)) st = Inr previous" "plugin \<noteq> []"
    and "a = sample_apply_answers\<lparr>aa_view := sample_desktop plugin, aa_verify_view := v\<rparr>"
  shows "prepare_call sample_apply_context a (CallUser sample_params) st = Inr (sample_prepared previous (stored ''DP-1'' st))"
proof -
  have "build_apply_spec sample_apply_context a sample_params = Inr (pending_spec ''w'' 960 540 30 KindWeb None Aspect)"
    by (simp add: build_apply_spec_def sample_params_def opt_or_def default_apply_width_def default_apply_height_def)
  moreover have "catalog_lookup a ''w'' = Inr (hd (aa_catalog a))"
    by (simp add: catalog_lookup_def assms(3) sample_apply_answers_def)
  moreover have "validated_spec sample_apply_context a (pending_spec ''w'' 960 540 30 KindWeb (Some (ContentWeb ''/c'')) Aspect)
      = Inr (pending_spec ''w'' 960 540 30 KindWeb (Some (ContentWeb ''/c'')) Aspect)"
    using sample_validated by (simp add: validated_spec_def assms(3) sample_apply_context_def)
  moreover have "(pending_spec ''w'' 960 540 30 KindWeb None Aspect)\<lparr>ss_content := Some (ContentWeb ''/c'')\<rparr>
      = pending_spec ''w'' 960 540 30 KindWeb (Some (ContentWeb ''/c'')) Aspect"
    by (simp add: pending_spec_def)
  moreover have "view_outputs sample_apply_context (aa_view a) = Inr (sample_outputs plugin)"
    using assms(2) by (simp add: assms(3))
  moreover have "sized_spec None None (hd (sample_outputs plugin))
      ((pending_spec ''w'' 960 540 30 KindWeb (Some (ContentWeb ''/c'')) Aspect)\<lparr>ss_content_hash := ''h''\<rparr>) = sample_apply_spec"
    by (simp add: sized_spec_def frame_size_for_def sample_outputs_def opt_or_def default_apply_width_def
        default_apply_height_def sample_apply_spec_def pending_spec_def)
  moreover have "gate_for a sample_apply_spec = Inr (sample_apply_spec, \<lparr>ga_limitations = [], ga_inspection_reason = None\<rparr>)"
    by (simp add: gate_for_def sample_apply_spec_def pending_spec_def)
  ultimately show ?thesis
    using assms(1) sample_chars
    by (simp add: prepare_apply_def sample_params_def apply_sample_find Let_def catalog_content_path_def
        content_spec_for_def client_content_matches_def content_bounded_def content_hash_for_def
        desktop_of_def stored_assignment_def sample_prepared_def)
      (simp add: sample_outputs_def assms(3) sample_apply_answers_def)
qed

section \<open>An apply that succeeds\<close>

lemma sample_answers_views:
  "sample_apply_answers = sample_apply_answers\<lparr>aa_view := sample_desktop image_plugin, aa_verify_view := sample_desktop kwe_plugin\<rparr>"
  by (simp add: sample_apply_answers_def)

lemma sample_first_previous:
  "previous_for a (hd (sample_outputs image_plugin)) st = Inr sample_original"
  by (simp add: previous_for_def live_previous_def sample_outputs_def sample_original_def kwe_plugin_def image_plugin_def)

lemma sample_started:
  "aa_start a = Inr sample_live \<Longrightarrow> aa_owner a = Inr sample_live \<Longrightarrow> aa_polls a = [\<lparr>po_status = Inr sample_live, po_now = 0\<rparr>]
     \<Longrightarrow> start_renderer cx a sample_apply_spec False st = (Inr (), emit (EfStart sample_apply_spec) st)"
  using sample_ours by (simp add: start_renderer_def promotion_verdict_def ensure_ours_def)

lemma from_utf8_lossy_ascii: "str_ascii s \<Longrightarrow> from_utf8_lossy s = s"
  by (induction s)
    (auto simp: from_utf8_lossy_def str_chars_all_ascii str_ascii_def str_bytes_def chars_str_def bytes_str_def
      utf8_encode.simps byte_val_def)

lemma sample_valid: "validate_assignment ''DP-1'' (assignment_for a (sample_prepared sample_original old)) = Inr ()"
proof -
  have "from_utf8_lossy ''/c'' = ''/c''"
    by (rule from_utf8_lossy_ascii) (simp add: str_ascii_def byte_val_def)
  then show ?thesis
    by (simp add: validate_assignment_def assignment_for_def sample_prepared_def sample_identities
        sample_apply_spec_def pending_spec_def max_content_chars_def validate_previous_def sample_original_def)
qed

lemma sample_persisted:
  assumes "aa_write a = sample_write_io" "aa_poisoned a = (\<lambda>_. False)"
    and "st = emit e sample_apply_state"
  shows "\<exists>st1. persist_assignment sample_apply_context a (sample_prepared sample_original old) st = (Inr (), st1)"
  using assms sample_valid [of a old]
  by (simp add: persist_assignment_def assignments_set_def sample_prepared_def
      sample_apply_state_def emit_def assignments_commit_def assignments_save_def atomic_write_def sample_write_io_def
      sample_dir_facts_def ensure_private_dir_def default_assignments_def size_keys max_assigned_outputs_def
      max_assignment_bytes_def sample_apply_context_def Let_def)

lemma sample_complete:
  assumes "a = sample_apply_answers\<lparr>aa_view := v, aa_verify_view := sample_desktop kwe_plugin\<rparr>"
  shows "\<exists>st1. complete_apply sample_apply_context a (sample_prepared sample_original old) False sample_apply_state = (Inr (), st1)"
proof -
  let ?st = "emit (EfStart sample_apply_spec) sample_apply_state"
  have "start_renderer sample_apply_context a sample_apply_spec False sample_apply_state = (Inr (), ?st)"
    by (rule sample_started) (simp_all add: assms sample_apply_answers_def)
  moreover obtain st1 where "persist_assignment sample_apply_context a (sample_prepared sample_original old) ?st = (Inr (), st1)"
    using sample_persisted [of a ?st] by (auto simp: assms sample_apply_answers_def)
  moreover have "verify_switch sample_apply_context (sample_desktop kwe_plugin) ''DP-1'' 0 = Inr ()"
    by (simp add: verify_switch_def apply_sample_find) (simp add: sample_outputs_def)
  ultimately show ?thesis
    by (simp add: complete_apply_def step_then_def sample_prepared_def switch_wallpaper_def apply_script_eq)
      (simp add: assms sample_apply_answers_def)
qed

lemma sample_success:
  "\<exists>st'. apply_call_step sample_apply_context sample_apply_answers (CallUser sample_params) sample_apply_state
     = (Inr \<lparr>ad_output = ''DP-1'', ad_assignment = assignment_for sample_apply_answers (sample_prepared sample_original None),
           ad_gate = \<lparr>ga_limitations = [], ga_inspection_reason = None\<rparr>\<rparr>, st')"
proof -
  have "prepare_call sample_apply_context sample_apply_answers (CallUser sample_params) sample_apply_state
      = Inr (sample_prepared sample_original (stored ''DP-1'' sample_apply_state))"
    by (rule sample_prepare [OF sample_first_previous _ sample_answers_views]) simp
  moreover have "stored ''DP-1'' sample_apply_state = None"
    by (simp add: stored_def sample_apply_state_def assignment_of_def default_assignments_def)
  moreover obtain st1 where "complete_apply sample_apply_context sample_apply_answers (sample_prepared sample_original None)
      False sample_apply_state = (Inr (), st1)"
    using sample_complete [OF sample_answers_views] by blast
  moreover have "\<not> aa_lock_held sample_apply_answers" "\<not> ap_retry sample_params"
    by (simp_all add: sample_apply_answers_def sample_params_def)
  ultimately show ?thesis
    by (simp add: apply_call_cases finish_apply_def sample_prepared_def)
qed

lemma apply_success_verified_witness:
  "\<exists>st' spec index. ax_trace st' = [EfStart spec, EfScript (switch_script index)]
     \<and> stored ''DP-1'' st' = Some (assignment_for sample_apply_answers (sample_prepared sample_original None))
     \<and> shows_plugin sample_apply_context (sample_desktop kwe_plugin) ''DP-1'' kwe_plugin (Some index)"
proof -
  obtain st' where run: "apply_call_step sample_apply_context sample_apply_answers (CallUser sample_params) sample_apply_state
     = (Inr \<lparr>ad_output = ''DP-1'', ad_assignment = assignment_for sample_apply_answers (sample_prepared sample_original None),
           ad_gate = \<lparr>ga_limitations = [], ga_inspection_reason = None\<rparr>\<rparr>, st')"
    using sample_success by blast
  have "ax_trace sample_apply_state = []" "call_retry (CallUser sample_params) = False"
    "aa_verify_view sample_apply_answers = sample_desktop kwe_plugin"
    by (simp_all add: sample_apply_state_def sample_params_def sample_apply_answers_def)
  with apply_success_verified [OF run] show ?thesis by (auto simp: start_effect_def)
qed

section \<open>An apply that fails\<close>

definition sample_failing_answers :: apply_answers where
  "sample_failing_answers = sample_apply_answers\<lparr>aa_verify_view := sample_desktop image_plugin\<rparr>"

lemma sample_failure:
  "\<exists>e st'. apply_call_step sample_apply_context sample_failing_answers (CallUser sample_params) sample_apply_state = (Inl e, st')"
proof (cases "apply_call_step sample_apply_context sample_failing_answers (CallUser sample_params) sample_apply_state")
  case (Pair r st')
  show ?thesis
  proof (cases r)
    case (Inl e)
    with Pair show ?thesis by blast
  next
    case (Inr ok)
    then have "finish_apply sample_apply_context sample_failing_answers (call_retry (CallUser sample_params))
        (prepare_call sample_apply_context sample_failing_answers (CallUser sample_params) sample_apply_state)
        sample_apply_state = (Inr ok, st')"
      using Pair by (auto simp: apply_call_cases split: if_splits)
    then obtain pr where "complete_apply sample_apply_context sample_failing_answers pr
        (call_retry (CallUser sample_params)) sample_apply_state = (Inr (), st')"
      by (rule finish_apply_ok)
    from complete_apply_ok(7) [OF this] have False
      by (auto simp: sample_failing_answers_def shows_plugin_def sample_outputs_def find_output_def kwe_plugin_def
          image_plugin_def split: if_splits)
    then show ?thesis ..
  qed
qed

lemma apply_failure_rolls_back_witness:
  "\<exists>e st'. apply_call_step sample_apply_context sample_failing_answers (CallUser sample_params) sample_apply_state = (Inl e, st')
     \<and> (\<forall>n. n \<noteq> ''DP-1'' \<longrightarrow> stored n st' = None)"
proof -
  obtain e st' where run: "apply_call_step sample_apply_context sample_failing_answers (CallUser sample_params) sample_apply_state = (Inl e, st')"
    using sample_failure by blast
  have none: "stored n sample_apply_state = None" for n
    by (simp add: stored_def sample_apply_state_def assignment_of_def default_assignments_def)
  have "prep_output pr = ''DP-1''"
    if "prepare_call sample_apply_context sample_failing_answers (CallUser sample_params) sample_apply_state = Inr pr" for pr
    using that prepare_apply_for(2) by (fastforce simp: sample_params_def)
  with apply_failure_rolls_back [OF run] run none show ?thesis by fastforce
qed

section \<open>A second apply and a restore\<close>

definition sample_applied_state :: apply_state where
  "sample_applied_state =
     \<lparr>ax_store = (default_assignments\<lparr>pa_outputs := Mapping.update ''DP-1''
        (assignment_for sample_apply_answers (sample_prepared sample_original None)) Mapping.empty\<rparr>, Mapping.empty),
      ax_trace = []\<rparr>"

lemma sample_applied_stored: "stored ''DP-1'' sample_applied_state
    = Some (assignment_for sample_apply_answers (sample_prepared sample_original None))"
  by (simp add: stored_def sample_applied_state_def assignment_of_def)

lemma original_wallpaper_kept_witness:
  "original_of ''DP-1'' (apply_run sample_apply_context
     [(sample_apply_answers\<lparr>aa_view := sample_desktop kwe_plugin\<rparr>, CallUser sample_params)] sample_applied_state)
   = Some sample_original"
proof -
  have "original_of ''DP-1'' sample_applied_state = Some sample_original"
    by (simp add: original_of_def sample_applied_stored assignment_for_def sample_prepared_def)
  moreover have "sees_kwe sample_apply_context ''DP-1'' (sample_apply_answers\<lparr>aa_view := sample_desktop kwe_plugin\<rparr>)"
    by (simp add: sees_kwe_def apply_sample_find) (simp add: sample_outputs_def)
  ultimately show ?thesis
    using original_wallpaper_kept [of "''DP-1''" sample_applied_state sample_original sample_apply_context
        "[(sample_apply_answers\<lparr>aa_view := sample_desktop kwe_plugin\<rparr>, CallUser sample_params)]"]
    by fastforce
qed

definition sample_restore :: restore_answers where
  "sample_restore =
     \<lparr>rs_view = sample_desktop kwe_plugin, rs_poisoned = False, rs_is_file = (\<lambda>_. False), rs_evaluate = (\<lambda>_. Inr []),
      rs_verify_view = sample_desktop image_plugin, rs_remove_poisoned = False, rs_write = sample_write_io\<rparr>"

lemma restore_verified_witness:
  "\<exists>target st'. restore_wallpaper sample_apply_context sample_restore ''DP-1'' sample_applied_state = (Inr target, st')
     \<and> rg_wallpaper_plugin target = image_plugin
     \<and> shows_plugin sample_apply_context (sample_desktop image_plugin) ''DP-1'' image_plugin None"
proof -
  let ?old = "assignment_for sample_apply_answers (sample_prepared sample_original None)"
  let ?t = "restore_target_for (Some ?old) None"
  have t: "rg_wallpaper_plugin ?t = image_plugin" "rg_config_group ?t = [''Wallpaper'', image_plugin, ''General'']"
    "rg_image ?t = None"
    by (simp_all add: restore_target_for_def assignment_for_def sample_prepared_def sample_original_def Let_def)
  obtain script where script: "restore_script 0 image_plugin [''Wallpaper'', image_plugin, ''General''] None = Inr script"
    by (auto simp: restore_script_def sample_identities)
  have "stock_image_path (rs_is_file sample_restore) = None"
    by (simp add: stock_image_path_def stock_image_candidates_def sample_restore_def)
  then have prep: "prepare_restore sample_apply_context sample_restore ''DP-1'' sample_applied_state = Inr (Some ?old, ?t, script)"
    using script t
    by (simp add: prepare_restore_def apply_sample_find sample_applied_stored desktop_of_def)
      (simp add: sample_restore_def find_output_def desktop_of_def sample_outputs_def Let_def)
  have "verify_restore sample_apply_context (sample_desktop image_plugin) ''DP-1'' image_plugin = Inr ()"
    by (simp add: verify_restore_def apply_sample_find) (simp add: sample_outputs_def)
  then obtain st' where run: "restore_wallpaper sample_apply_context sample_restore ''DP-1'' sample_applied_state = (Inr ?t, st')"
    by (simp add: restore_wallpaper_def prep t) (simp add: sample_restore_def)
  have "shows_plugin sample_apply_context (rs_verify_view sample_restore) ''DP-1'' (rg_wallpaper_plugin ?t) None"
    using restore_verified [OF run] by blast
  then have "shows_plugin sample_apply_context (sample_desktop image_plugin) ''DP-1'' image_plugin None"
    unfolding t by (simp add: sample_restore_def)
  with run t show ?thesis by blast
qed

lemma frame_size_bounded_witness:
  "\<exists>spec. frame_spec_new 960 540 = Inr spec \<and> fs_file_bytes spec \<le> max_supervised_mapping_bytes"
proof -
  have "frame_size_for None None None = (960, 540)"
    by (simp add: frame_size_for_def opt_or_def default_apply_width_def default_apply_height_def)
  from frame_size_bounded [OF this] show ?thesis .
qed

end
