(* ===== verification/Report_Protocol.thy ===== *)
theory Report_Protocol
  imports Rust_Strings
begin

text \<open>
  \<open>crates/kwe-report-protocol/src/lib.rs\<close>, the frame codec: a 12-byte header and a payload, written
  with \<open>write_frame\<close> and read back by \<open>FrameReader\<close> under the caps of its stream. A stream is the list
  of what its \<open>read\<close> calls find: some bytes, or an error; past the end a read returns no bytes. The
  same codec carries the report of a worker and both directions of the shader helper.
\<close>

section \<open>Constants\<close>

definition report_magic :: "u8 list" where "report_magic = [0x4B, 0x57, 0x52, 0x31]"
definition report_header_bytes :: nat where "report_header_bytes = 12"
definition max_payload_bytes :: nat where "max_payload_bytes = 64 * 1024"
definition max_frames_per_stream :: nat where "max_frames_per_stream = 16"
definition max_total_payload_bytes :: nat where "max_total_payload_bytes = 1024 * 1024"
definition shader_request_max_frames :: nat where "shader_request_max_frames = 4"
definition shader_request_max_total :: nat where "shader_request_max_total = 1024 * 1024"
definition shader_response_max_frames :: nat where "shader_response_max_frames = 132"
definition shader_response_max_total :: nat where "shader_response_max_total = 8 * 1024 * 1024"

record stream_caps =
  sc_max_frames :: nat
  sc_max_total :: nat

definition caps_report :: stream_caps where
  "caps_report = \<lparr>sc_max_frames = max_frames_per_stream, sc_max_total = max_total_payload_bytes\<rparr>"

definition caps_shader_request :: stream_caps where
  "caps_shader_request =
     \<lparr>sc_max_frames = shader_request_max_frames, sc_max_total = shader_request_max_total\<rparr>"

definition caps_shader_response :: stream_caps where
  "caps_shader_response =
     \<lparr>sc_max_frames = shader_response_max_frames, sc_max_total = shader_response_max_total\<rparr>"

section \<open>Frames\<close>

datatype frame_kind =
    SceneInspectionV1 | SceneRenderReportV1 | ShaderCompileRequestV1 | ShaderCompileResponseV1
  | SpirvChunkV1 | UnknownKind u8

definition kind_from_u8 :: "u8 \<Rightarrow> frame_kind" where
  "kind_from_u8 v =
     (if v = 1 then SceneInspectionV1 else if v = 2 then SceneRenderReportV1
      else if v = 16 then ShaderCompileRequestV1 else if v = 17 then ShaderCompileResponseV1
      else if v = 18 then SpirvChunkV1 else UnknownKind v)"

fun kind_as_u8 :: "frame_kind \<Rightarrow> u8" where
  "kind_as_u8 SceneInspectionV1 = 1"
| "kind_as_u8 SceneRenderReportV1 = 2"
| "kind_as_u8 ShaderCompileRequestV1 = 16"
| "kind_as_u8 ShaderCompileResponseV1 = 17"
| "kind_as_u8 SpirvChunkV1 = 18"
| "kind_as_u8 (UnknownKind v) = v"

fun known_kind :: "frame_kind \<Rightarrow> bool" where
  "known_kind (UnknownKind v) = False"
| "known_kind _ = True"

record report_frame =
  rf_kind :: frame_kind
  rf_payload :: "u8 list"

datatype io_error_kind = IoInterrupted | IoUnexpectedEof | IoTimedOut | IoOther string

datatype report_error =
    BadMagic | BadFlags u8 | BadReserved u16 | PayloadOversize u32 | HeaderTruncated | PayloadTruncated
  | FrameCountExceeded nat | TotalBytesExceeded nat | ReportIo io_error_kind

text \<open>The messages of the errors, as \<open>Display\<close> writes them; the text of an I/O error is the system's.\<close>

fun report_error_text :: "(io_error_kind \<Rightarrow> string) \<Rightarrow> report_error \<Rightarrow> string" where
  "report_error_text io BadMagic = ''frame magic is invalid''"
| "report_error_text io (BadFlags f) = ''frame flags must be 0 in v1, got '' @ show_nat (unat f)"
| "report_error_text io (BadReserved r) = ''frame reserved bytes must be 0, got '' @ show_nat (unat r)"
| "report_error_text io (PayloadOversize n) =
     ''frame payload is '' @ show_nat (unat n) @ '' bytes; maximum is '' @ show_nat max_payload_bytes"
| "report_error_text io HeaderTruncated = ''frame header truncated''"
| "report_error_text io PayloadTruncated = ''frame payload truncated''"
| "report_error_text io (FrameCountExceeded n) = ''stream exceeded '' @ show_nat n @ '' frames''"
| "report_error_text io (TotalBytesExceeded n) =
     ''stream exceeded '' @ show_nat n @ '' total payload bytes''"
| "report_error_text io (ReportIo k) = io k"

lemma kind_round_trip [simp]: "known_kind k \<Longrightarrow> kind_from_u8 (kind_as_u8 k) = k"
  by (cases k) (simp_all add: kind_from_u8_def)

lemma kind_as_u8_from [simp]: "kind_as_u8 (kind_from_u8 v) = v"
  by (simp add: kind_from_u8_def)

section \<open>Writing\<close>

datatype write_error = WriteRefused string | WriteBroken string

definition frame_header :: "frame_kind \<Rightarrow> nat \<Rightarrow> u8 list" where
  "frame_header k n = report_magic @ [kind_as_u8 k, 0] @ le_bytes 2 0 @ le_bytes 4 n"

text \<open>The writer is a state with its \<open>write_all\<close>; a failed call leaves whatever it wrote.\<close>

definition write_frame ::
    "(u8 list \<Rightarrow> 'w \<Rightarrow> (string, unit) result \<times> 'w) \<Rightarrow> frame_kind \<Rightarrow> u8 list \<Rightarrow> 'w
       \<Rightarrow> (write_error, unit) result \<times> 'w" where
  "write_frame write_all k payload w =
     (if \<not> known_kind k then (Inl (WriteRefused ''cannot write an Unknown frame kind''), w)
      else if max_payload_bytes < length payload
      then (Inl (WriteRefused (''payload is '' @ show_nat (length payload) @ '' bytes; maximum is ''
                               @ show_nat max_payload_bytes)), w)
      else
        (case write_all (frame_header k (length payload)) w of
           (Inl e, w) \<Rightarrow> (Inl (WriteBroken e), w)
         | (Inr _, w) \<Rightarrow>
             (case write_all payload w of
                (Inl e, w) \<Rightarrow> (Inl (WriteBroken e), w)
              | (Inr _, w) \<Rightarrow> (Inr (), w))))"

text \<open>A \<open>Vec<u8>\<close> is a writer that never fails.\<close>

definition vec_write_all :: "u8 list \<Rightarrow> u8 list \<Rightarrow> (string, unit) result \<times> u8 list" where
  "vec_write_all bs w = (Inr (), w @ bs)"

fun write_frames :: "report_frame list \<Rightarrow> u8 list \<Rightarrow> (write_error, unit) result \<times> u8 list" where
  "write_frames [] w = (Inr (), w)"
| "write_frames (f # fs) w =
     (case write_frame vec_write_all (rf_kind f) (rf_payload f) w of
        (Inl e, w) \<Rightarrow> (Inl e, w)
      | (Inr _, w) \<Rightarrow> write_frames fs w)"

section \<open>Streams\<close>

datatype read_event = GotBytes "u8 list" | ReadFailed io_error_kind

definition read_some :: "nat \<Rightarrow> read_event list \<Rightarrow> (io_error_kind, u8 list) result \<times> read_event list" where
  "read_some n es =
     (case es of
        [] \<Rightarrow> (Inr [], [])
      | GotBytes c # rest \<Rightarrow>
          if length c \<le> n then (Inr c, rest) else (Inr (take n c), GotBytes (drop n c) # rest)
      | ReadFailed k # rest \<Rightarrow> (Inl k, rest))"

fun event_weight :: "read_event \<Rightarrow> nat" where
  "event_weight (GotBytes c) = Suc (length c)"
| "event_weight (ReadFailed k) = 1"

definition stream_weight :: "read_event list \<Rightarrow> nat" where
  "stream_weight es = sum_list (map event_weight es)"

lemma read_some_weight:
  assumes "(r, es') = read_some n es" "0 < n" "es \<noteq> []"
  shows "stream_weight es' < stream_weight es"
  using assms by (auto simp: read_some_def stream_weight_def split: list.splits read_event.splits if_splits)

lemma read_some_nonempty:
  "(Inl k, es') = read_some n es \<Longrightarrow> es \<noteq> []" "(Inr (b # bs), es') = read_some n es \<Longrightarrow> es \<noteq> []"
  by (auto simp: read_some_def)

lemma read_some_length: "read_some n es = (Inr got, es') \<Longrightarrow> length got \<le> n"
  by (auto simp: read_some_def split: list.splits read_event.splits if_splits)

lemma diff_less_appended: "xs \<noteq> [] \<Longrightarrow> \<not> n \<le> m \<Longrightarrow> n - (m + length xs) < n - m"
  by (cases xs) auto

text \<open>The header loop of \<open>next_frame\<close>.\<close>

function read_header ::
    "u8 list \<Rightarrow> read_event list \<Rightarrow> (report_error, u8 list option) result \<times> read_event list" where
  "read_header acc es =
     (if report_header_bytes \<le> length acc then (Inr (Some acc), es)
      else
        (case read_some (report_header_bytes - length acc) es of
           (Inl k, es) \<Rightarrow> (Inl (ReportIo k), es)
         | (Inr got, es) \<Rightarrow>
             if got = [] then (if acc = [] then (Inr None, es) else (Inl HeaderTruncated, es))
             else read_header (acc @ got) es))"
  by pat_completeness auto
termination
  by (relation "measure (\<lambda>(acc, es). report_header_bytes - length acc)")
     (auto simp: diff_less_appended)

text \<open>\<open>Read::read_exact\<close>: an interrupted read is tried again.\<close>

function fill_exact ::
    "nat \<Rightarrow> u8 list \<Rightarrow> read_event list \<Rightarrow> (io_error_kind, u8 list) result \<times> read_event list" where
  "fill_exact n acc es =
     (if n \<le> length acc then (Inr acc, es)
      else
        (case read_some (n - length acc) es of
           (Inl k, es') \<Rightarrow>
             if k = IoInterrupted then fill_exact n acc es' else (Inl k, es')
         | (Inr got, es') \<Rightarrow>
             if got = [] then (Inl IoUnexpectedEof, es') else fill_exact n (acc @ got) es'))"
  by pat_completeness auto
termination
proof (relation "measure (\<lambda>(n, acc, es). stream_weight es)", goal_cases)
  case 1
  then show ?case by simp
next
  case (2 n acc es r es' k)
  then show ?case using read_some_weight [of r es'] read_some_nonempty(1) [of k es'] by auto
next
  case (3 n acc es r es' got)
  then show ?case
    using read_some_weight [of r es'] read_some_nonempty(2) [of _ _ es'] by (cases got) auto
qed

declare read_header.simps [simp del] fill_exact.simps [simp del]

section \<open>The reader\<close>

record frame_reader =
  fr_events :: "read_event list"
  fr_frames_read :: nat
  fr_total_bytes :: nat
  fr_caps :: stream_caps

definition reader_with_caps :: "read_event list \<Rightarrow> stream_caps \<Rightarrow> frame_reader" where
  "reader_with_caps es caps =
     \<lparr>fr_events = es, fr_frames_read = 0, fr_total_bytes = 0, fr_caps = caps\<rparr>"

definition reader_new :: "read_event list \<Rightarrow> frame_reader" where
  "reader_new es = reader_with_caps es caps_report"

text \<open>The checks on the twelve header bytes: the kind and the payload length.\<close>

definition parse_header :: "u8 list \<Rightarrow> (report_error, u8 \<times> nat) result" where
  "parse_header h =
     rbind (fail_if (take 4 h \<noteq> report_magic) BadMagic) (\<lambda>_.
     let flags = h ! 5 in
     rbind (fail_if (flags \<noteq> 0) (BadFlags flags)) (\<lambda>_.
     let reserved = word_of_nat (le_nat (take 2 (drop 6 h))) in
     rbind (fail_if (reserved \<noteq> 0) (BadReserved reserved)) (\<lambda>_.
     let payload_len = read_u32 h 8 in
     rbind (fail_if (max_payload_bytes < unat payload_len) (PayloadOversize payload_len)) (\<lambda>_.
       Inr (h ! 4, unat payload_len)))))"

definition payload_error :: "io_error_kind \<Rightarrow> report_error" where
  "payload_error k = (if k = IoUnexpectedEof then PayloadTruncated else ReportIo k)"

definition next_frame :: "frame_reader \<Rightarrow> (report_error, report_frame option) result \<times> frame_reader" where
  "next_frame r =
     (case read_header [] (fr_events r) of
        (Inl e, es) \<Rightarrow> (Inl e, r\<lparr>fr_events := es\<rparr>)
      | (Inr None, es) \<Rightarrow> (Inr None, r\<lparr>fr_events := es\<rparr>)
      | (Inr (Some h), es) \<Rightarrow>
          (let r = r\<lparr>fr_events := es\<rparr> in
           case parse_header h of
             Inl e \<Rightarrow> (Inl e, r)
           | Inr (kind, len) \<Rightarrow>
               (let r = r\<lparr>fr_total_bytes := fr_total_bytes r + len\<rparr> in
                if sc_max_total (fr_caps r) < fr_total_bytes r
                then (Inl (TotalBytesExceeded (sc_max_total (fr_caps r))), r)
                else
                  (let r = r\<lparr>fr_frames_read := fr_frames_read r + 1\<rparr> in
                   if sc_max_frames (fr_caps r) < fr_frames_read r
                   then (Inl (FrameCountExceeded (sc_max_frames (fr_caps r))), r)
                   else
                     (case fill_exact len [] es of
                        (Inl k, es) \<Rightarrow> (Inl (payload_error k), r\<lparr>fr_events := es\<rparr>)
                      | (Inr payload, es) \<Rightarrow>
                          (Inr (Some \<lparr>rf_kind = kind_from_u8 kind, rf_payload = payload\<rparr>),
                           r\<lparr>fr_events := es\<rparr>))))))"

lemma next_frame_Some:
  assumes "next_frame r = (Inr (Some f), r')"
  shows "fr_frames_read r' = Suc (fr_frames_read r)" "fr_frames_read r' \<le> sc_max_frames (fr_caps r)"
    "fr_caps r' = fr_caps r"
  using assms
  by (auto simp: next_frame_def Let_def split: prod.splits sum.splits option.splits if_splits)

text \<open>Reading a stream to its end: the loop the callers write around \<open>next_frame\<close>.\<close>

function read_stream :: "frame_reader \<Rightarrow> report_frame list \<times> report_error option" where
  "read_stream r =
     (case next_frame r of
        (Inl e, _) \<Rightarrow> ([], Some e)
      | (Inr None, _) \<Rightarrow> ([], None)
      | (Inr (Some f), r) \<Rightarrow> (case read_stream r of (fs, e) \<Rightarrow> (f # fs, e)))"
  by pat_completeness auto
termination
proof (relation "measure (\<lambda>r. sc_max_frames (fr_caps r) - fr_frames_read r)", goal_cases)
  case 1
  then show ?case by simp
next
  case (2 r x r' y f)
  then show ?case using next_frame_Some [of r f r'] by simp
qed

declare read_stream.simps [simp del]

section \<open>Chunks\<close>

text \<open>A stream without errors or empty reads carries its bytes, however they are cut.\<close>

fun event_ok :: "read_event \<Rightarrow> bool" where
  "event_ok (GotBytes c) = (c \<noteq> [])"
| "event_ok (ReadFailed k) = False"

fun event_bytes :: "read_event \<Rightarrow> u8 list" where
  "event_bytes (GotBytes c) = c"
| "event_bytes (ReadFailed k) = []"

definition clean_stream :: "read_event list \<Rightarrow> bool" where "clean_stream es = list_all event_ok es"
definition stream_bytes :: "read_event list \<Rightarrow> u8 list" where "stream_bytes es = concat (map event_bytes es)"

lemma stream_bytes_simps [simp]:
  "stream_bytes [] = []" "stream_bytes (e # es) = event_bytes e @ stream_bytes es"
  "clean_stream []" "clean_stream (e # es) \<longleftrightarrow> event_ok e \<and> clean_stream es"
  by (simp_all add: stream_bytes_def clean_stream_def)

lemma clean_stream_cases:
  assumes "clean_stream es"
  obtains "es = []" "stream_bytes es = []"
  | c rest where "es = GotBytes c # rest" "c \<noteq> []" "clean_stream rest" "stream_bytes es = c @ stream_bytes rest"
proof (cases es)
  case Nil
  then show ?thesis using that(1) by simp
next
  case (Cons e rest)
  then show ?thesis using that(2) assms by (cases e) auto
qed

lemma read_some_clean:
  assumes "clean_stream es" "0 < n" "stream_bytes es \<noteq> []"
  obtains got es' where "read_some n es = (Inr got, es')" "got \<noteq> []" "length got \<le> n"
    "stream_bytes es = got @ stream_bytes es'" "clean_stream es'"
  using assms(1)
proof (cases rule: clean_stream_cases)
  case 1
  then show ?thesis using assms(3) by simp
next
  case (2 c rest)
  show ?thesis
  proof (cases "length c \<le> n")
    case True
    then show ?thesis using that [of c rest] 2 by (simp add: read_some_def)
  next
    case False
    then show ?thesis
      using that [of "take n c" "GotBytes (drop n c) # rest"] 2 assms(2) by (auto simp: read_some_def)
  qed
qed

lemma read_some_end: "clean_stream es \<Longrightarrow> stream_bytes es = [] \<Longrightarrow> read_some n es = (Inr [], [])"
  by (erule clean_stream_cases) (auto simp: read_some_def)

lemma read_header_clean:
  assumes "clean_stream es" "length acc < report_header_bytes"
    "report_header_bytes \<le> length acc + length (stream_bytes es)"
  shows "\<exists>es'. read_header acc es =
           (Inr (Some (acc @ take (report_header_bytes - length acc) (stream_bytes es))), es')
         \<and> clean_stream es' \<and> stream_bytes es' = drop (report_header_bytes - length acc) (stream_bytes es)"
  using assms
proof (induction acc es rule: read_header.induct)
  case (1 acc es)
  have "stream_bytes es \<noteq> []" using "1.prems" by auto
  then obtain got es' where got: "read_some (report_header_bytes - length acc) es = (Inr got, es')"
      "got \<noteq> []" "length got \<le> report_header_bytes - length acc"
      "stream_bytes es = got @ stream_bytes es'" "clean_stream es'"
    using read_some_clean [of es "report_header_bytes - length acc"] "1.prems" by (metis zero_less_diff)
  have unfold: "read_header acc es = read_header (acc @ got) es'"
    using got "1.prems" by (subst read_header.simps) simp
  show ?case
  proof (cases "length acc + length got < report_header_bytes")
    case True
    then have "\<exists>es''. read_header (acc @ got) es' =
        (Inr (Some ((acc @ got) @ take (report_header_bytes - length (acc @ got)) (stream_bytes es'))), es'')
        \<and> clean_stream es'' \<and> stream_bytes es'' = drop (report_header_bytes - length (acc @ got)) (stream_bytes es')"
      using got "1.prems" by (intro "1.IH") auto
    then show ?thesis using got(3,4) unfold by simp
  next
    case False
    then have "length got = report_header_bytes - length acc" using got(3) "1.prems"(2) by simp
    then show ?thesis using got(4,5) unfold "1.prems"(2) by (simp add: read_header.simps [of "acc @ got"])
  qed
qed

lemma fill_exact_clean:
  assumes "clean_stream es" "length acc \<le> n" "n \<le> length acc + length (stream_bytes es)"
  shows "\<exists>es'. fill_exact n acc es = (Inr (acc @ take (n - length acc) (stream_bytes es)), es')
         \<and> clean_stream es' \<and> stream_bytes es' = drop (n - length acc) (stream_bytes es)"
  using assms
proof (induction n acc es rule: fill_exact.induct)
  case (1 n acc es)
  show ?case
  proof (cases "n \<le> length acc")
    case True
    then show ?thesis using "1.prems" by (simp add: fill_exact.simps)
  next
    case False
    have "stream_bytes es \<noteq> []" using "1.prems" False by auto
    then obtain got es' where got: "read_some (n - length acc) es = (Inr got, es')"
        "got \<noteq> []" "length got \<le> n - length acc" "stream_bytes es = got @ stream_bytes es'" "clean_stream es'"
      using read_some_clean [of es "n - length acc"] "1.prems" False by (metis zero_less_diff not_le)
    have unfold: "fill_exact n acc es = fill_exact n (acc @ got) es'"
      using got False by (subst fill_exact.simps) simp
    have "\<exists>es''. fill_exact n (acc @ got) es' =
        (Inr ((acc @ got) @ take (n - length (acc @ got)) (stream_bytes es')), es'')
        \<and> clean_stream es'' \<and> stream_bytes es'' = drop (n - length (acc @ got)) (stream_bytes es')"
      using got "1.prems" False by (intro "1.IH"(2)) auto
    then show ?thesis using got(3,4) unfold by simp
  qed
qed

lemma fill_exact_length:
  "fill_exact n acc es = (Inr p, es') \<Longrightarrow> length acc \<le> n \<Longrightarrow> length p = n"
proof (induction n acc es arbitrary: p es' rule: fill_exact.induct)
  case (1 n acc es)
  obtain r es1 where read: "read_some (n - length acc) es = (r, es1)" by (cases "read_some (n - length acc) es")
  show ?case
  proof (cases "n \<le> length acc")
    case True
    then show ?thesis using "1.prems" by (simp add: fill_exact.simps)
  next
    case False
    note step = "1.prems"(1)[unfolded fill_exact.simps [of n acc es]] and IH = "1.IH"[OF False read [symmetric]]
    show ?thesis
    proof (cases r)
      case (Inl k)
      then show ?thesis using step False read IH(1)[of k] "1.prems"(2) by (auto split: if_splits)
    next
      case (Inr got)
      then show ?thesis
        using step False read IH(2)[of got] read_some_length [of "n - length acc" es got es1] "1.prems"(2)
        by (auto split: if_splits)
    qed
  qed
qed

lemma parse_header_bound: "parse_header h = Inr (k, n) \<Longrightarrow> n \<le> max_payload_bytes"
  by (auto simp: parse_header_def Let_def result_simps)

lemma next_frame_payload:
  assumes "next_frame r = (Inr (Some f), r')"
  shows "fr_total_bytes r' = fr_total_bytes r + length (rf_payload f)"
    "fr_total_bytes r' \<le> sc_max_total (fr_caps r)" "length (rf_payload f) \<le> max_payload_bytes"
  using assms
  by (auto simp: next_frame_def Let_def fill_exact_length dest: parse_header_bound
      split: prod.splits sum.splits option.splits if_splits)

section \<open>The caps of a stream\<close>

definition frames_payload :: "report_frame list \<Rightarrow> nat" where
  "frames_payload fs = sum_list (map (\<lambda>f. length (rf_payload f)) fs)"

definition frame_fits :: "report_frame \<Rightarrow> bool" where
  "frame_fits f \<longleftrightarrow> length (rf_payload f) \<le> max_payload_bytes"

lemma frames_payload_simps [simp]:
  "frames_payload [] = 0" "frames_payload (f # fs) = length (rf_payload f) + frames_payload fs"
  by (simp_all add: frames_payload_def)

lemma read_stream_bounds:
  assumes "fst (read_stream r) = f # fs"
  shows "fr_frames_read r + length (f # fs) \<le> sc_max_frames (fr_caps r)
       \<and> fr_total_bytes r + frames_payload (f # fs) \<le> sc_max_total (fr_caps r)
       \<and> list_all frame_fits (f # fs)"
  using assms
proof (induction r arbitrary: f fs rule: read_stream.induct)
  case (1 r)
  obtain r' where step: "next_frame r = (Inr (Some f), r')" and rest: "fs = fst (read_stream r')"
    using "1.prems" by (subst (asm) read_stream.simps) (auto split: prod.splits sum.splits option.splits)
  note n = next_frame_Some [OF step] next_frame_payload [OF step]
  show ?case
  proof (cases fs)
    case Nil
    then show ?thesis using n by (simp add: frame_fits_def)
  next
    case (Cons g gs)
    then show ?thesis using "1.IH" [OF step [symmetric] refl refl, of g gs] rest n by (auto simp: frame_fits_def)
  qed
qed

text \<open>
  C22: A reader hands out no more than its stream allows, whatever a hostile or broken writer sends and
  however its bytes and errors arrive: the frames before the end or the first error are within the
  frame and byte caps, and each is within the payload cap.
\<close>

theorem report_stream_bounded:
  "length (fst (read_stream (reader_with_caps es caps))) \<le> sc_max_frames caps
   \<and> frames_payload (fst (read_stream (reader_with_caps es caps))) \<le> sc_max_total caps
   \<and> list_all frame_fits (fst (read_stream (reader_with_caps es caps)))"
proof (cases "fst (read_stream (reader_with_caps es caps))")
  case Nil
  then show ?thesis by simp
next
  case (Cons f fs)
  then show ?thesis using read_stream_bounds [of "reader_with_caps es caps" f fs] by (simp add: reader_with_caps_def)
qed

section \<open>Round trip\<close>

lemma length_frame_header [simp]: "length (frame_header k n) = report_header_bytes"
  by (simp add: frame_header_def report_magic_def report_header_bytes_def)

lemma frame_header_fields:
  "take 4 (frame_header k n) = report_magic" "frame_header k n ! 4 = kind_as_u8 k" "frame_header k n ! 5 = 0"
  "take 2 (drop 6 (frame_header k n)) = le_bytes 2 0" "take 4 (drop 8 (frame_header k n)) = le_bytes 4 n"
  by (simp_all add: frame_header_def report_magic_def take_Cons' drop_Cons' nth_Cons')

lemma parse_frame_header:
  assumes "n \<le> max_payload_bytes"
  shows "parse_header (frame_header k n) = Inr (kind_as_u8 k, n)"
proof -
  have small: "n < 4294967296" using assms by (simp add: max_payload_bytes_def)
  then have len: "unat (read_u32 (frame_header k n) 8) = n"
    by (simp add: read_u32_def frame_header_fields le_nat_le_bytes unat_of_nat)
  show ?thesis
    using assms len by (simp add: parse_header_def Let_def frame_header_fields le_nat_le_bytes)
qed

definition frames_bytes :: "report_frame list \<Rightarrow> u8 list" where
  "frames_bytes fs = concat (map (\<lambda>f. frame_header (rf_kind f) (length (rf_payload f)) @ rf_payload f) fs)"

lemma write_frames_bytes:
  assumes "\<forall>f \<in> set fs. known_kind (rf_kind f) \<and> frame_fits f"
  shows "write_frames fs w = (Inr (), w @ frames_bytes fs)"
  using assms
  by (induction fs arbitrary: w)
     (auto simp: write_frame_def vec_write_all_def frame_fits_def frames_bytes_def)

lemma write_frames_ok:
  "write_frames fs w = (Inr u, w') \<Longrightarrow> \<forall>f \<in> set fs. known_kind (rf_kind f) \<and> frame_fits f"
  by (induction fs arbitrary: w)
     (auto simp: write_frame_def vec_write_all_def frame_fits_def split: if_splits prod.splits sum.splits)

lemma next_frame_written:
  assumes clean: "clean_stream (fr_events r)"
    and bytes: "stream_bytes (fr_events r) = frame_header (rf_kind f) (length (rf_payload f)) @ rf_payload f @ rest"
    and ok: "known_kind (rf_kind f)" "frame_fits f"
    and caps: "fr_total_bytes r + length (rf_payload f) \<le> sc_max_total (fr_caps r)"
      "fr_frames_read r < sc_max_frames (fr_caps r)"
  obtains r' where "next_frame r = (Inr (Some f), r')" "clean_stream (fr_events r')"
    "stream_bytes (fr_events r') = rest" "fr_total_bytes r' = fr_total_bytes r + length (rf_payload f)"
    "fr_frames_read r' = Suc (fr_frames_read r)" "fr_caps r' = fr_caps r"
proof -
  obtain es where head: "read_header [] (fr_events r)
        = (Inr (Some (frame_header (rf_kind f) (length (rf_payload f)))), es)"
      and es: "clean_stream es" "stream_bytes es = rf_payload f @ rest"
    using read_header_clean [OF clean, of "[]"] bytes by (auto simp: report_header_bytes_def)
  obtain es' where body: "fill_exact (length (rf_payload f)) [] es = (Inr (rf_payload f), es')"
      and es': "clean_stream es'" "stream_bytes es' = rest"
    using fill_exact_clean [OF es(1), of "[]" "length (rf_payload f)"] es(2) by auto
  have "next_frame r = (Inr (Some f), r\<lparr>fr_events := es', fr_total_bytes := fr_total_bytes r + length (rf_payload f),
      fr_frames_read := Suc (fr_frames_read r)\<rparr>)"
    using head body ok caps by (simp add: next_frame_def frame_fits_def Let_def parse_frame_header)
  then show ?thesis by (rule that) (simp_all add: es')
qed

lemma next_frame_end:
  "clean_stream (fr_events r) \<Longrightarrow> stream_bytes (fr_events r) = [] \<Longrightarrow> fst (next_frame r) = Inr None"
  by (subst next_frame_def, subst read_header.simps) (simp add: read_some_end report_header_bytes_def)

lemma read_stream_written:
  assumes "clean_stream (fr_events r)" "stream_bytes (fr_events r) = frames_bytes fs"
    "\<forall>f \<in> set fs. known_kind (rf_kind f) \<and> frame_fits f"
    "fr_frames_read r + length fs \<le> sc_max_frames (fr_caps r)"
    "fr_total_bytes r + frames_payload fs \<le> sc_max_total (fr_caps r)"
  shows "read_stream r = (fs, None)"
  using assms
proof (induction fs arbitrary: r)
  case Nil
  then have "fst (next_frame r) = Inr None" by (intro next_frame_end) (simp_all add: frames_bytes_def)
  then show ?case by (subst read_stream.simps) (auto split: prod.splits)
next
  case (Cons f fs)
  obtain r' where r': "next_frame r = (Inr (Some f), r')" "clean_stream (fr_events r')"
    "stream_bytes (fr_events r') = frames_bytes fs" "fr_total_bytes r' = fr_total_bytes r + length (rf_payload f)"
    "fr_frames_read r' = Suc (fr_frames_read r)" "fr_caps r' = fr_caps r"
    using next_frame_written [of r f "frames_bytes fs"] Cons.prems by (auto simp: frames_bytes_def)
  then have "read_stream r' = (fs, None)" using Cons.prems by (intro Cons.IH) auto
  then show ?case using r'(1) by (subst read_stream.simps) simp
qed

lemma le_bytes_numeral:
  "le_bytes (numeral k) n = word_of_nat (n mod 256) # le_bytes (pred_numeral k) (n div 256)"
  by (simp only: numeral_eq_Suc [of k] le_bytes.simps)

text \<open>
  C21: What \<open>write_frame\<close> accepts is read back: frames written one after the other, within the caps
  of the stream, come out of a reader in their order and are followed by the clean end of the
  stream, however the pipe cuts the bytes into chunks.
\<close>

theorem report_frames_round_trip:
  assumes "write_frames fs [] = (Inr (), bytes)"
    and "clean_stream es" "stream_bytes es = bytes"
    and "length fs \<le> sc_max_frames caps" "frames_payload fs \<le> sc_max_total caps"
  shows "read_stream (reader_with_caps es caps) = (fs, None)"
proof (rule read_stream_written)
  show "\<forall>f \<in> set fs. known_kind (rf_kind f) \<and> frame_fits f" by (rule write_frames_ok [OF assms(1)])
  then show "stream_bytes (fr_events (reader_with_caps es caps)) = frames_bytes fs"
    using assms(1,3) write_frames_bytes [of fs "[]"] by (simp add: reader_with_caps_def)
qed (use assms in \<open>simp_all add: reader_with_caps_def\<close>)

theorem report_frames_round_trip_witness:
  "read_stream (reader_with_caps
       [GotBytes [0x4B], GotBytes [0x57, 0x52, 0x31, 1, 0, 0, 0, 2, 0, 0, 0, 7],
        GotBytes [8, 0x4B, 0x57, 0x52, 0x31, 2, 0], GotBytes [0, 0, 0, 0, 0, 0]] caps_report)
     = ([\<lparr>rf_kind = SceneInspectionV1, rf_payload = [7, 8]\<rparr>, \<lparr>rf_kind = SceneRenderReportV1, rf_payload = []\<rparr>], None)"
proof (rule report_frames_round_trip)
  show "write_frames [\<lparr>rf_kind = SceneInspectionV1, rf_payload = [7, 8]\<rparr>,
                      \<lparr>rf_kind = SceneRenderReportV1, rf_payload = []\<rparr>] []
        = (Inr (), [0x4B, 0x57, 0x52, 0x31, 1, 0, 0, 0, 2, 0, 0, 0, 7, 8,
                    0x4B, 0x57, 0x52, 0x31, 2, 0, 0, 0, 0, 0, 0, 0])"
    by (simp add: write_frame_def vec_write_all_def frame_header_def report_magic_def max_payload_bytes_def
        le_bytes_numeral)
qed (simp_all add: caps_report_def max_frames_per_stream_def max_total_payload_bytes_def)

end
