(* ===== verification/Report_Records.thy ===== *)
theory Report_Records
  imports Report_Protocol
begin

text \<open>
  \<open>crates/kwe-report-protocol/src/lib.rs\<close>, the records: the validators of the inspection record and of
  the shader helper's request and response. A JSON value is what the JSON library parses, with an
  object as its keys in the order of its map; parsing and serializing are that library's, and SHA-256
  in hexadecimal is its crates', so all three are arguments.
\<close>

section \<open>JSON values\<close>

text \<open>A number is an unsigned or a negative 64-bit integer, or the bits of a float.\<close>

datatype record_number = PosInt u64 | NegInt u64 | FloatBits u64

datatype record_value =
    RvNull | RvBool bool | RvNumber record_number | RvString string | RvArray "record_value list"
  | RvObject "(string \<times> record_value) list"

type_synonym record_map = "(string \<times> record_value) list"

fun number_as_u64 :: "record_number \<Rightarrow> u64 option" where
  "number_as_u64 (PosInt n) = Some n"
| "number_as_u64 _ = None"

fun pick_string :: "record_value \<Rightarrow> string option" where
  "pick_string (RvString s) = Some s"
| "pick_string _ = None"

fun pick_object :: "record_value \<Rightarrow> record_map option" where
  "pick_object (RvObject m) = Some m"
| "pick_object _ = None"

fun pick_array :: "record_value \<Rightarrow> record_value list option" where
  "pick_array (RvArray vs) = Some vs"
| "pick_array _ = None"

fun pick_number :: "record_value \<Rightarrow> unit option" where
  "pick_number (RvNumber n) = Some ()"
| "pick_number _ = None"

fun pick_bool :: "record_value \<Rightarrow> unit option" where
  "pick_bool (RvBool b) = Some ()"
| "pick_bool _ = None"

fun pick_null_or_object :: "record_value \<Rightarrow> unit option" where
  "pick_null_or_object RvNull = Some ()"
| "pick_null_or_object (RvObject m) = Some ()"
| "pick_null_or_object _ = None"

fun pick_u64 :: "record_value \<Rightarrow> u64 option" where
  "pick_u64 (RvNumber n) = number_as_u64 n"
| "pick_u64 _ = None"

text \<open>The shape of every \<open>require_\<close> function: absent, present with the type, or present without it.\<close>

definition require_field ::
    "(string \<Rightarrow> 'e) \<Rightarrow> (string \<Rightarrow> 'e) \<Rightarrow> (record_value \<Rightarrow> 'a option) \<Rightarrow> record_map \<Rightarrow> string \<Rightarrow> string
       \<Rightarrow> ('e, 'a) result" where
  "require_field missing wrong pick m key path =
     (case map_of m key of
        None \<Rightarrow> Inl (missing path)
      | Some v \<Rightarrow> ok_or (pick v) (wrong path))"

lemma require_field_ok [result_simps]:
  "require_field missing wrong pick m key path = Inr a \<longleftrightarrow> (\<exists>v. map_of m key = Some v \<and> pick v = Some a)"
  by (auto simp: require_field_def result_simps split: option.splits)

lemma pick_simps [simp]:
  "pick_string v = Some s \<longleftrightarrow> v = RvString s" "pick_object v = Some m \<longleftrightarrow> v = RvObject m"
  "pick_array v = Some vs \<longleftrightarrow> v = RvArray vs" "pick_u64 v = Some n \<longleftrightarrow> v = RvNumber (PosInt n)"
proof -
  have "number_as_u64 k = Some n \<longleftrightarrow> k = PosInt n" for k by (cases k) auto
  then show "pick_u64 v = Some n \<longleftrightarrow> v = RvNumber (PosInt n)" by (cases v) auto
qed (cases v; auto)+

section \<open>The inspection record\<close>

datatype validation_error =
    InsParse string | InsNotAnObject | InsWrongSchema | InsWrongCapabilitiesSchema | InsMissingField string
  | InsWrongType string | InsDigestMismatch

definition debug_quoted :: "string \<Rightarrow> string" where "debug_quoted s = [CHR 0x22] @ s @ [CHR 0x22]"

definition scene_inspection_schema :: string where "scene_inspection_schema = ''scene-inspection-v1''"
definition scene_capabilities_schema :: string where "scene_capabilities_schema = ''scene-capabilities-v1''"

definition require_str :: "record_map \<Rightarrow> string \<Rightarrow> string \<Rightarrow> (validation_error, string) result" where
  "require_str = require_field InsMissingField InsWrongType pick_string"
definition require_object :: "record_map \<Rightarrow> string \<Rightarrow> string \<Rightarrow> (validation_error, record_map) result" where
  "require_object = require_field InsMissingField InsWrongType pick_object"
definition require_array :: "record_map \<Rightarrow> string \<Rightarrow> string \<Rightarrow> (validation_error, record_value list) result" where
  "require_array = require_field InsMissingField InsWrongType pick_array"
definition require_number :: "record_map \<Rightarrow> string \<Rightarrow> string \<Rightarrow> (validation_error, unit) result" where
  "require_number = require_field InsMissingField InsWrongType pick_number"
definition require_bool :: "record_map \<Rightarrow> string \<Rightarrow> string \<Rightarrow> (validation_error, unit) result" where
  "require_bool = require_field InsMissingField InsWrongType pick_bool"
definition require_null_or_object :: "record_map \<Rightarrow> string \<Rightarrow> string \<Rightarrow> (validation_error, unit) result" where
  "require_null_or_object = require_field InsMissingField InsWrongType pick_null_or_object"

fun validation_error_text :: "validation_error \<Rightarrow> string" where
  "validation_error_text (InsParse e) = ''payload is not valid JSON: '' @ e"
| "validation_error_text InsNotAnObject = ''payload is not a JSON object''"
| "validation_error_text InsWrongSchema =
     debug_quoted ''schema'' @ '' does not match '' @ debug_quoted scene_inspection_schema"
| "validation_error_text InsWrongCapabilitiesSchema =
     debug_quoted ''capabilities_schema'' @ '' does not match '' @ debug_quoted scene_capabilities_schema"
| "validation_error_text (InsMissingField f) = ''missing required field '' @ debug_quoted f"
| "validation_error_text (InsWrongType f) = ''field '' @ debug_quoted f @ '' has the wrong JSON type''"
| "validation_error_text InsDigestMismatch = ''digest does not match the record's own recomputed content hash''"

lemmas require_defs =
  require_str_def require_object_def require_array_def require_number_def require_bool_def
  require_null_or_object_def

text \<open>The record with its digest emptied, as it was when the digest was taken.\<close>

fun set_key :: "string \<Rightarrow> record_value \<Rightarrow> record_map \<Rightarrow> record_map" where
  "set_key k v [] = [(k, v)]"
| "set_key k v ((k', v') # m) = (if k' = k then (k, v) # m else (k', v') # set_key k v m)"

record record_codec =
  rc_parse :: "u8 list \<Rightarrow> (string, record_value) result"
  rc_serialize :: "record_value \<Rightarrow> u8 list"
  rc_sha256_hex :: "u8 list \<Rightarrow> string"

definition record_digest :: "record_codec \<Rightarrow> record_map \<Rightarrow> string" where
  "record_digest rc m = rc_sha256_hex rc (rc_serialize rc (RvObject (set_key ''digest'' (RvString '''') m)))"

definition validate_content :: "record_map \<Rightarrow> (validation_error, unit) result" where
  "validate_content m =
     rbind (require_object m ''content'' ''content'') (\<lambda>content.
     rbind (require_str content ''hash'' ''content.hash'') (\<lambda>_.
     rbind (require_number content ''source_bytes'' ''content.source_bytes'') (\<lambda>_.
     rbind (require_str content ''kind'' ''content.kind'') (\<lambda>_. Inr ()))))"

definition validate_inspector :: "record_map \<Rightarrow> (validation_error, unit) result" where
  "validate_inspector m =
     rbind (require_object m ''inspector'' ''inspector'') (\<lambda>inspector.
     rbind (require_str inspector ''build'' ''inspector.build'') (\<lambda>_.
     rbind (require_number inspector ''abi'' ''inspector.abi'') (\<lambda>_. Inr ())))"

definition validate_unknown :: "record_map \<Rightarrow> (validation_error, unit) result" where
  "validate_unknown m =
     rbind (require_object m ''unknown'' ''unknown'') (\<lambda>unknown.
     rbind (require_number unknown ''keys'' ''unknown.keys'') (\<lambda>_.
     rbind (require_number unknown ''types'' ''unknown.types'') (\<lambda>_.
     rbind (require_number unknown ''objects'' ''unknown.objects'') (\<lambda>_.
     rbind (require_array unknown ''samples'' ''unknown.samples'') (\<lambda>_.
     rbind (require_bool unknown ''truncated'' ''unknown.truncated'') (\<lambda>_. Inr ()))))))"

definition validate_bounds :: "record_map \<Rightarrow> (validation_error, unit) result" where
  "validate_bounds m =
     rbind (require_object m ''bounds'' ''bounds'') (\<lambda>bounds.
     rbind (require_number bounds ''wall_ms'' ''bounds.wall_ms'') (\<lambda>_.
     rbind (require_array bounds ''limits_hit'' ''bounds.limits_hit'') (\<lambda>_. Inr ())))"

definition validate_inspection :: "record_codec \<Rightarrow> u8 list \<Rightarrow> (validation_error, record_value) result" where
  "validate_inspection rc payload =
     rbind (map_err InsParse (rc_parse rc payload)) (\<lambda>v.
     rbind (ok_or (pick_object v) InsNotAnObject) (\<lambda>m.
     rbind (require_str m ''schema'' ''schema'') (\<lambda>schema.
     rbind (fail_if (schema \<noteq> scene_inspection_schema) InsWrongSchema) (\<lambda>_.
     rbind (require_str m ''capabilities_schema'' ''capabilities_schema'') (\<lambda>capabilities.
     rbind (fail_if (capabilities \<noteq> scene_capabilities_schema) InsWrongCapabilitiesSchema) (\<lambda>_.
     rbind (validate_content m) (\<lambda>_.
     rbind (validate_inspector m) (\<lambda>_.
     rbind (require_str m ''outcome'' ''outcome'') (\<lambda>_.
     rbind (require_str m ''reason'' ''reason'') (\<lambda>_.
     rbind (require_array m ''required'' ''required'') (\<lambda>_.
     rbind (require_array m ''detected'' ''detected'') (\<lambda>_.
     rbind (validate_unknown m) (\<lambda>_.
     rbind (validate_bounds m) (\<lambda>_.
     rbind (require_null_or_object m ''backend'' ''backend'') (\<lambda>_.
     rbind (require_str m ''digest'' ''digest'') (\<lambda>digest.
     rbind (fail_if (record_digest rc m \<noteq> digest) InsDigestMismatch) (\<lambda>_.
       Inr v)))))))))))))))))"

text \<open>The schema as a table: a path of keys and the type its value has.\<close>

datatype field_type = TyString | TyNumber | TyArray | TyBool | TyObject | TyNullOrObject | TyExactly string

fun has_type :: "field_type \<Rightarrow> record_value \<Rightarrow> bool" where
  "has_type TyString v \<longleftrightarrow> pick_string v \<noteq> None"
| "has_type TyNumber v \<longleftrightarrow> pick_number v \<noteq> None"
| "has_type TyArray v \<longleftrightarrow> pick_array v \<noteq> None"
| "has_type TyBool v \<longleftrightarrow> pick_bool v \<noteq> None"
| "has_type TyObject v \<longleftrightarrow> pick_object v \<noteq> None"
| "has_type TyNullOrObject v \<longleftrightarrow> pick_null_or_object v \<noteq> None"
| "has_type (TyExactly s) v \<longleftrightarrow> v = RvString s"

fun value_at :: "string list \<Rightarrow> record_value \<Rightarrow> record_value option" where
  "value_at [] v = Some v"
| "value_at (k # ks) (RvObject m) = Option.bind (map_of m k) (value_at ks)"
| "value_at (k # ks) _ = None"

definition inspection_table :: "(string list \<times> field_type) list" where
  "inspection_table =
     [([''schema''], TyExactly ''scene-inspection-v1''),
      ([''capabilities_schema''], TyExactly ''scene-capabilities-v1''),
      ([''content'', ''hash''], TyString), ([''content'', ''source_bytes''], TyNumber),
      ([''content'', ''kind''], TyString),
      ([''inspector'', ''build''], TyString), ([''inspector'', ''abi''], TyNumber),
      ([''outcome''], TyString), ([''reason''], TyString), ([''required''], TyArray), ([''detected''], TyArray),
      ([''unknown'', ''keys''], TyNumber), ([''unknown'', ''types''], TyNumber),
      ([''unknown'', ''objects''], TyNumber), ([''unknown'', ''samples''], TyArray),
      ([''unknown'', ''truncated''], TyBool),
      ([''bounds'', ''wall_ms''], TyNumber), ([''bounds'', ''limits_hit''], TyArray),
      ([''backend''], TyNullOrObject), ([''digest''], TyString)]"

definition typed_at :: "record_value \<Rightarrow> string list \<times> field_type \<Rightarrow> bool" where
  "typed_at v e = (case value_at (fst e) v of None \<Rightarrow> False | Some w \<Rightarrow> has_type (snd e) w)"

lemma typed_at_key [simp]:
  "typed_at (RvObject m) ([k], t) \<longleftrightarrow> (\<exists>w. map_of m k = Some w \<and> has_type t w)"
  by (cases "map_of m k") (simp_all add: typed_at_def)

lemma typed_at_nested:
  "typed_at (RvObject m) ([k, k'], t) \<longleftrightarrow> (\<exists>m'. map_of m k = Some (RvObject m') \<and> typed_at (RvObject m') ([k'], t))"
proof (cases "map_of m k")
  case None
  then show ?thesis by (simp add: typed_at_def)
next
  case (Some w)
  then show ?thesis by (cases w) (auto simp: typed_at_def split: option.splits)
qed

lemma validate_content_ok:
  "validate_content m = Inr () \<longleftrightarrow> list_all (typed_at (RvObject m))
     [([''content'', ''hash''], TyString), ([''content'', ''source_bytes''], TyNumber), ([''content'', ''kind''], TyString)]"
  by (auto simp: validate_content_def require_defs result_simps typed_at_nested)

lemma validate_inspector_ok:
  "validate_inspector m = Inr () \<longleftrightarrow> list_all (typed_at (RvObject m))
     [([''inspector'', ''build''], TyString), ([''inspector'', ''abi''], TyNumber)]"
  by (auto simp: validate_inspector_def require_defs result_simps typed_at_nested)

lemma validate_unknown_ok:
  "validate_unknown m = Inr () \<longleftrightarrow> list_all (typed_at (RvObject m))
     [([''unknown'', ''keys''], TyNumber), ([''unknown'', ''types''], TyNumber), ([''unknown'', ''objects''], TyNumber),
      ([''unknown'', ''samples''], TyArray), ([''unknown'', ''truncated''], TyBool)]"
  by (auto simp: validate_unknown_def require_defs result_simps typed_at_nested)

lemma validate_bounds_ok:
  "validate_bounds m = Inr () \<longleftrightarrow> list_all (typed_at (RvObject m))
     [([''bounds'', ''wall_ms''], TyNumber), ([''bounds'', ''limits_hit''], TyArray)]"
  by (auto simp: validate_bounds_def require_defs result_simps typed_at_nested)

text \<open>
  C23: The inspection validator accepts exactly the records of the schema: the payload parses to an
  object, every path of the table is there with its type (the two schema tags with their values),
  and the digest is the hash of the record with the digest emptied. What it returns is the record.
\<close>

theorem inspection_accepts_exactly:
  "validate_inspection rc payload = Inr v \<longleftrightarrow>
     rc_parse rc payload = Inr v
     \<and> list_all (typed_at v) inspection_table
     \<and> (\<exists>m. v = RvObject m \<and> map_of m ''digest'' = Some (RvString (record_digest rc m)))"
proof (cases "\<exists>m. v = RvObject m")
  case False
  then show ?thesis by (auto simp: validate_inspection_def result_simps)
next
  case True
  then obtain m where v: "v = RvObject m" by blast
  have "list_all (typed_at v) inspection_table \<longleftrightarrow>
      map_of m ''schema'' = Some (RvString scene_inspection_schema)
      \<and> map_of m ''capabilities_schema'' = Some (RvString scene_capabilities_schema)
      \<and> validate_content m = Inr () \<and> validate_inspector m = Inr ()
      \<and> typed_at v ([''outcome''], TyString) \<and> typed_at v ([''reason''], TyString)
      \<and> typed_at v ([''required''], TyArray) \<and> typed_at v ([''detected''], TyArray)
      \<and> validate_unknown m = Inr () \<and> validate_bounds m = Inr ()
      \<and> typed_at v ([''backend''], TyNullOrObject) \<and> typed_at v ([''digest''], TyString)"
    unfolding validate_content_ok validate_inspector_ok validate_unknown_ok validate_bounds_ok v
    by (simp add: inspection_table_def scene_inspection_schema_def scene_capabilities_schema_def)
  then show ?thesis
    by (auto simp: v validate_inspection_def require_defs result_simps)
qed

text \<open>A minimal record and a codec it is the only text of.\<close>

definition sample_record :: "string \<Rightarrow> record_map" where
  "sample_record digest =
     [(''backend'', RvNull),
      (''bounds'', RvObject [(''limits_hit'', RvArray []), (''wall_ms'', RvNumber (PosInt 1))]),
      (''capabilities_schema'', RvString ''scene-capabilities-v1''),
      (''content'', RvObject [(''hash'', RvString ''h''), (''kind'', RvString ''k''),
                              (''source_bytes'', RvNumber (PosInt 1))]),
      (''detected'', RvArray []), (''digest'', RvString digest),
      (''inspector'', RvObject [(''abi'', RvNumber (PosInt 0)), (''build'', RvString ''dev'')]),
      (''outcome'', RvString ''inventoried''), (''reason'', RvString ''ok''), (''required'', RvArray []),
      (''schema'', RvString ''scene-inspection-v1''),
      (''unknown'', RvObject [(''keys'', RvNumber (PosInt 0)), (''objects'', RvNumber (PosInt 0)),
                             (''samples'', RvArray []), (''truncated'', RvBool False),
                             (''types'', RvNumber (PosInt 0))])]"

definition sample_codec :: record_codec where
  "sample_codec = \<lparr>rc_parse = (\<lambda>bs. if bs = [1] then Inr (RvObject (sample_record ''d'')) else Inl ''syntax''),
                   rc_serialize = (\<lambda>v. [2]), rc_sha256_hex = (\<lambda>bs. ''d'')\<rparr>"

lemma sample_record_accepted:
  "validate_inspection sample_codec [1] = Inr (RvObject (sample_record ''d''))"
  by (simp add: validate_inspection_def sample_codec_def sample_record_def require_defs require_field_def
      scene_inspection_schema_def scene_capabilities_schema_def validate_content_def validate_inspector_def
      validate_unknown_def validate_bounds_def record_digest_def)

section \<open>The shader helper's request\<close>

definition shader_request_schema :: string where "shader_request_schema = ''shader-compile-request-v1''"
definition shader_response_schema :: string where "shader_response_schema = ''shader-compile-response-v1''"
definition max_shader_includes :: nat where "max_shader_includes = 32"
definition max_shader_include_bytes :: nat where "max_shader_include_bytes = 64 * 1024"
definition max_shader_combos :: nat where "max_shader_combos = 128"
definition max_shader_defines :: nat where "max_shader_defines = 128"
definition max_shader_option_bytes :: nat where "max_shader_option_bytes = 128"
definition max_spirv_chunks :: nat where "max_spirv_chunks = shader_response_max_frames - 1"
definition max_spirv_total_bytes :: nat where "max_spirv_total_bytes = shader_response_max_total"
definition max_compile_log_bytes :: nat where "max_compile_log_bytes = 4 * 1024"

datatype shader_request_error =
    RqParse string | RqNotAnObject | RqWrongSchema | RqMissingField string | RqWrongType string
  | RqInvalidStage | RqSourceOversize nat nat | RqTooManyIncludes | RqInvalidInclude string
  | RqTooManyCombos | RqTooManyDefines | RqOptionOversize string

definition shader_require_str :: "record_map \<Rightarrow> string \<Rightarrow> string \<Rightarrow> (shader_request_error, string) result" where
  "shader_require_str = require_field RqMissingField RqWrongType pick_string"
definition shader_require_object :: "record_map \<Rightarrow> string \<Rightarrow> string \<Rightarrow> (shader_request_error, record_map) result" where
  "shader_require_object = require_field RqMissingField RqWrongType pick_object"

fun check_includes :: "record_map \<Rightarrow> (shader_request_error, unit) result" where
  "check_includes [] = Inr ()"
| "check_includes ((name, v) # m) =
     (case v of
        RvString s \<Rightarrow> if length s \<le> max_shader_include_bytes then check_includes m else Inl (RqInvalidInclude name)
      | _ \<Rightarrow> Inl (RqInvalidInclude name))"

definition option_fields :: "(string \<times> string) list" where
  "option_fields =
     [(''target_env'', ''options.target_env''), (''target_env_version'', ''options.target_env_version''),
      (''optimization_level'', ''options.optimization_level'')]"

fun check_options :: "record_map \<Rightarrow> (string \<times> string) list \<Rightarrow> (shader_request_error, unit) result" where
  "check_options m [] = Inr ()"
| "check_options m ((field, path) # rest) =
     (case map_of m field of
        None \<Rightarrow> check_options m rest
      | Some (RvString s) \<Rightarrow>
          if max_shader_option_bytes < length s then Inl (RqOptionOversize path) else check_options m rest
      | Some _ \<Rightarrow> Inl (RqWrongType path))"

definition validate_options :: "record_map \<Rightarrow> (shader_request_error, unit) result" where
  "validate_options m =
     (case map_of m ''options'' of
        None \<Rightarrow> Inr ()
      | Some (RvObject opts) \<Rightarrow> check_options opts option_fields
      | Some _ \<Rightarrow> Inl (RqWrongType ''options''))"

definition validate_shader_request ::
    "record_codec \<Rightarrow> u8 list \<Rightarrow> nat \<Rightarrow> (shader_request_error, record_value) result" where
  "validate_shader_request rc payload max_source_bytes =
     rbind (map_err RqParse (rc_parse rc payload)) (\<lambda>v.
     rbind (ok_or (pick_object v) RqNotAnObject) (\<lambda>m.
     rbind (shader_require_str m ''schema'' ''schema'') (\<lambda>schema.
     rbind (fail_if (schema \<noteq> shader_request_schema) RqWrongSchema) (\<lambda>_.
     rbind (shader_require_str m ''stage'' ''stage'') (\<lambda>stage.
     rbind (fail_if (stage \<noteq> ''vertex'' \<and> stage \<noteq> ''fragment'') RqInvalidStage) (\<lambda>_.
     rbind (shader_require_str m ''source'' ''source'') (\<lambda>source.
     rbind (fail_if (max_source_bytes < length source) (RqSourceOversize (length source) max_source_bytes)) (\<lambda>_.
     rbind (shader_require_object m ''includes'' ''includes'') (\<lambda>includes.
     rbind (fail_if (max_shader_includes < length includes) RqTooManyIncludes) (\<lambda>_.
     rbind (check_includes includes) (\<lambda>_.
     rbind (shader_require_object m ''combos'' ''combos'') (\<lambda>combos.
     rbind (fail_if (max_shader_combos < length combos) RqTooManyCombos) (\<lambda>_.
     rbind (shader_require_object m ''defines'' ''defines'') (\<lambda>defines.
     rbind (fail_if (max_shader_defines < length defines) RqTooManyDefines) (\<lambda>_.
     rbind (validate_options m) (\<lambda>_. Inr v))))))))))))))))"

lemma validate_shader_request_parts:
  assumes "validate_shader_request rc payload max_bytes = Inr v"
  obtains m stage source where "rc_parse rc payload = Inr v" "v = RvObject m"
    "map_of m ''stage'' = Some (RvString stage)" "stage \<in> {''vertex'', ''fragment''}"
    "map_of m ''source'' = Some (RvString source)" "length source \<le> max_bytes"
    "validate_options m = Inr ()"
  using assms
  by (auto simp: validate_shader_request_def shader_require_str_def shader_require_object_def result_simps)

section \<open>The shader helper's response\<close>

datatype shader_response_error =
    RsParse string | RsNotAnObject | RsWrongSchema | RsMissingField string | RsWrongType string
  | RsTooManySpirvChunks u64 | RsSpirvTotalBytesTooLarge u64 | RsLogOversize nat

fun response_error_text :: "shader_response_error \<Rightarrow> string" where
  "response_error_text (RsParse e) = ''payload is not valid JSON: '' @ e"
| "response_error_text RsNotAnObject = ''payload is not a JSON object''"
| "response_error_text RsWrongSchema = debug_quoted ''schema'' @ '' does not match '' @ debug_quoted shader_response_schema"
| "response_error_text (RsMissingField f) = ''missing required field '' @ debug_quoted f"
| "response_error_text (RsWrongType f) = ''field '' @ debug_quoted f @ '' has the wrong JSON type''"
| "response_error_text (RsTooManySpirvChunks n) =
     debug_quoted ''spirv_chunks'' @ '' is '' @ show_nat (unat n) @ ''; maximum is '' @ show_nat max_spirv_chunks"
| "response_error_text (RsSpirvTotalBytesTooLarge n) =
     debug_quoted ''spirv_total_bytes'' @ '' is '' @ show_nat (unat n) @ ''; maximum is '' @ show_nat max_spirv_total_bytes"
| "response_error_text (RsLogOversize n) =
     debug_quoted ''log'' @ '' is '' @ show_nat n @ '' bytes; maximum is '' @ show_nat max_compile_log_bytes"

definition response_require_str :: "record_map \<Rightarrow> string \<Rightarrow> (shader_response_error, string) result" where
  "response_require_str m key = require_field RsMissingField RsWrongType pick_string m key key"

definition response_require_u64 :: "record_map \<Rightarrow> string \<Rightarrow> (shader_response_error, u64) result" where
  "response_require_u64 m path = require_field RsMissingField RsWrongType pick_u64 m path path"

definition validate_shader_response ::
    "record_codec \<Rightarrow> u8 list \<Rightarrow> (shader_response_error, record_value) result" where
  "validate_shader_response rc payload =
     rbind (map_err RsParse (rc_parse rc payload)) (\<lambda>v.
     rbind (ok_or (pick_object v) RsNotAnObject) (\<lambda>m.
     rbind (response_require_str m ''schema'') (\<lambda>schema.
     rbind (fail_if (schema \<noteq> shader_response_schema) RsWrongSchema) (\<lambda>_.
     rbind (response_require_str m ''status'') (\<lambda>status.
     rbind (if status = ''ok'' then
              rbind (response_require_u64 m ''spirv_chunks'') (\<lambda>chunks.
              rbind (fail_if (max_spirv_chunks < unat chunks) (RsTooManySpirvChunks chunks)) (\<lambda>_.
              rbind (response_require_u64 m ''spirv_total_bytes'') (\<lambda>total.
                fail_if (max_spirv_total_bytes < unat total) (RsSpirvTotalBytesTooLarge total))))
            else if status = ''compile-error'' then
              rbind (response_require_str m ''log'') (\<lambda>log.
                fail_if (max_compile_log_bytes < length log) (RsLogOversize (length log)))
            else rbind (response_require_str m ''reason'') (\<lambda>_. Inr ())) (\<lambda>_.
       Inr v))))))"

end
