(* ===== verification/Child_Drain.thy ===== *)
theory Child_Drain
  imports Report_Records Worker_Pipes
begin

text \<open>
  What the two one-shot callers of a child process share, \<open>crates/kwe-daemon/src/inspect.rs\<close> for the
  scene inspector and \<open>crates/kwe-scene-renderer/src/shader_helper.rs\<close> for the shader helper: the
  bounded non-blocking drains of the child's pipes, the texts cut on a character boundary, and what a
  poll of the child says. The reads a call of a drain would find are a list; a read returns at most
  the 4096 bytes of its buffer.
\<close>

section \<open>Bounded drains\<close>

definition drain_chunk :: nat where "drain_chunk = 4096"
definition stderr_chunks_per_tick :: nat where "stderr_chunks_per_tick = 16"

fun drain_capped_loop :: "nat \<Rightarrow> pipe_read list \<Rightarrow> u8 list \<Rightarrow> bool \<times> u8 list" where
  "drain_capped_loop cap [] buffer = (False, buffer)"
| "drain_capped_loop cap (rd # rds) buffer =
     (case rd of
        PipeBytes bs \<Rightarrow>
          (let chunk = take drain_chunk bs; buffer' = buffer @ chunk in
           if chunk = [] then (False, buffer)
           else if cap < length buffer' then (True, buffer')
           else drain_capped_loop cap rds buffer')
      | _ \<Rightarrow> (False, buffer))"

definition drain_capped :: "nat \<Rightarrow> pipe_read list \<Rightarrow> u8 list \<Rightarrow> bool \<times> u8 list" where
  "drain_capped cap reads buffer =
     (if cap < length buffer then (True, buffer) else drain_capped_loop cap reads buffer)"

fun drain_stderr_keep :: "nat \<Rightarrow> nat \<Rightarrow> pipe_read list \<Rightarrow> u8 list \<Rightarrow> u8 list" where
  "drain_stderr_keep keep 0 reads tail = tail"
| "drain_stderr_keep keep (Suc n) [] tail = tail"
| "drain_stderr_keep keep (Suc n) (rd # rds) tail =
     (case rd of
        PipeBytes bs \<Rightarrow>
          (let chunk = take drain_chunk bs; tail' = tail @ chunk in
           if chunk = [] then tail
           else drain_stderr_keep keep n rds (drop (length tail' - keep) tail'))
      | _ \<Rightarrow> tail)"

text \<open>The bytes a drain finds before the pipe blocks, fails or ends.\<close>

fun reads_bytes :: "pipe_read list \<Rightarrow> u8 list" where
  "reads_bytes [] = []"
| "reads_bytes (PipeBytes bs # rds) =
     (let chunk = take drain_chunk bs in if chunk = [] then [] else chunk @ reads_bytes rds)"
| "reads_bytes (_ # rds) = []"

lemma drain_capped_loop_bounds:
  assumes "drain_capped_loop cap reads buffer = (over, b)" "length buffer \<le> cap"
  shows "length b \<le> cap + drain_chunk" "\<not> over \<Longrightarrow> length b \<le> cap \<and> b = buffer @ reads_bytes reads"
    "over \<Longrightarrow> cap < length (buffer @ reads_bytes reads)"
  using assms
  by (induction cap reads buffer rule: drain_capped_loop.induct)
     (auto simp: Let_def split: pipe_read.splits if_splits)

lemma drain_capped_bounds:
  assumes "drain_capped cap reads buffer = (over, b)" "length buffer \<le> cap"
  shows "length b \<le> cap + drain_chunk" "\<not> over \<Longrightarrow> length b \<le> cap \<and> b = buffer @ reads_bytes reads"
    "over \<Longrightarrow> cap < length (buffer @ reads_bytes reads)"
  using assms drain_capped_loop_bounds [of cap reads buffer over b] by (auto simp: drain_capped_def)

lemma drain_capped_ok:
  "drain_capped cap reads buffer = (False, b) \<Longrightarrow> length b \<le> cap \<and> b = buffer @ reads_bytes reads"
  using drain_capped_bounds(2) [of cap reads buffer False b] by (cases "cap < length buffer") (auto simp: drain_capped_def)

lemma drain_stderr_keep_bound: "length tail \<le> keep \<Longrightarrow> length (drain_stderr_keep keep n reads tail) \<le> keep"
  by (induction keep n reads tail rule: drain_stderr_keep.induct) (auto simp: Let_def split: pipe_read.splits)

lemma drain_stderr_keep_numeral [simp]:
  "drain_stderr_keep keep (numeral k) [] tail = tail"
  "drain_stderr_keep keep (numeral k) (PipeBytes bs # rds) tail =
     (let chunk = take drain_chunk bs; tail' = tail @ chunk in
      if chunk = [] then tail else drain_stderr_keep keep (pred_numeral k) rds (drop (length tail' - keep) tail'))"
  "drain_stderr_keep keep (numeral k) (PipeBlocked # rds) tail = tail"
  by (simp_all only: numeral_eq_Suc [of k] drain_stderr_keep.simps pipe_read.simps)

section \<open>Texts\<close>

definition is_char_boundary :: "string \<Rightarrow> nat \<Rightarrow> bool" where
  "is_char_boundary s i \<longleftrightarrow> i = 0 \<or> i = length s \<or> (i < length s \<and> \<not> cont_byte (byte_val (s ! i)))"

fun floor_boundary :: "string \<Rightarrow> nat \<Rightarrow> nat" where
  "floor_boundary s 0 = 0"
| "floor_boundary s (Suc n) = (if is_char_boundary s (Suc n) then Suc n else floor_boundary s n)"

definition bounded_text :: "nat \<Rightarrow> string \<Rightarrow> string" where
  "bounded_text limit s = (if length s \<le> limit then s else take (floor_boundary s limit) s)"

lemma floor_boundary_le: "floor_boundary s n \<le> n"
  by (induction n) auto

lemma floor_boundary_ok: "is_char_boundary s (floor_boundary s n)"
  by (induction n) (auto simp: is_char_boundary_def)

lemma bounded_text_length: "length (bounded_text limit s) \<le> limit"
  using floor_boundary_le [of s limit] by (auto simp: bounded_text_def)

section \<open>The child\<close>

datatype poll_result = PollExited bool | PollRunning | PollFailed

datatype child_life = LifeNone | LifeRunning | LifeReaped

end
