(* ===== verification/Inspection.thy ===== *)
theory Inspection
  imports Child_Drain Worker_Launch
begin

text \<open>
  \<open>crates/kwe-daemon/src/inspect.rs\<close>: one bounded run of the scene inspector. The daemon makes a home
  directory and the report pipe, starts the inspector, drains its pipes until it exits, floods, or runs
  past the deadline, reaps it, and gives one JSON value: the record the inspector reported, when it is
  the only one and verifies, or an \<open>unknown\<close> outcome with the reason. The state kept here is what a
  leak would show in: the home directory, the two ends of the pipe, and the child.
\<close>

section \<open>Constants\<close>

definition report_fd :: nat where "report_fd = 3"
definition max_report_bytes :: nat where "max_report_bytes = 65536"
definition report_stream_max_bytes :: nat where
  "report_stream_max_bytes = max_total_payload_bytes + max_frames_per_stream * report_header_bytes + 1"
definition max_detail_bytes :: nat where "max_detail_bytes = 256"
definition stderr_tail_bytes :: nat where "stderr_tail_bytes = 512"

section \<open>Results\<close>

text \<open>A refusal as an object, with its keys in the order of the map.\<close>

definition unknown_outcome :: "string \<Rightarrow> string option \<Rightarrow> u8 list option \<Rightarrow> record_value" where
  "unknown_outcome reason detail stderr =
     RvObject
       ((case detail of None \<Rightarrow> [] | Some d \<Rightarrow> [(''detail'', RvString d)])
        @ [(''outcome'', RvString ''unknown''), (''reason'', RvString reason)]
        @ (case stderr of None \<Rightarrow> []
           | Some bs \<Rightarrow> [(''stderr_tail'', RvString (from_utf8_lossy (bytes_to_str bs)))]))"

definition inspector_unavailable :: record_value where
  "inspector_unavailable = unknown_outcome ''inspector-unavailable'' None None"

definition bounded_detail :: "string \<Rightarrow> string" where
  "bounded_detail s = bounded_text max_detail_bytes s"

section \<open>Classifying a finished run\<close>

text \<open>\<open>Cursor\<close>: the whole buffer, as one chunk.\<close>

definition cursor :: "u8 list \<Rightarrow> read_event list" where
  "cursor bs = (if bs = [] then [] else [GotBytes bs])"

definition inspection_payloads :: "report_frame list \<Rightarrow> u8 list list" where
  "inspection_payloads fs = map rf_payload (filter (\<lambda>f. rf_kind f = SceneInspectionV1) fs)"

definition inspect_finalize ::
    "record_codec \<Rightarrow> (io_error_kind \<Rightarrow> string) \<Rightarrow> bool \<Rightarrow> u8 list \<Rightarrow> u8 list \<Rightarrow> record_value" where
  "inspect_finalize rc io success report stderr_tail =
     (if \<not> success then unknown_outcome ''inspector-failed'' None (Some stderr_tail)
      else
        (case read_stream (reader_new (cursor report)) of
           (fs, Some e) \<Rightarrow>
             unknown_outcome ''report-malformed'' (Some (bounded_detail (report_error_text io e))) (Some stderr_tail)
         | (fs, None) \<Rightarrow>
             (case inspection_payloads fs of
                [] \<Rightarrow> unknown_outcome ''report-missing'' None (Some stderr_tail)
              | [payload] \<Rightarrow>
                  (case validate_inspection rc payload of
                     Inr v \<Rightarrow> v
                   | Inl e \<Rightarrow> unknown_outcome ''report-malformed'' (Some (bounded_detail (validation_error_text e)))
                              (Some stderr_tail))
              | _ \<Rightarrow> unknown_outcome ''report-duplicate'' None None)))"

section \<open>Supervision\<close>

text \<open>
  One turn of the loop: what the three drains find, what the poll says, what the drains after an exit
  find, and whether the deadline has passed.
\<close>

record inspect_turn =
  it_stdout :: "pipe_read list"
  it_stderr :: "pipe_read list"
  it_report :: "pipe_read list"
  it_wait :: poll_result
  it_last_stdout :: "pipe_read list"
  it_last_stderr :: "pipe_read list"
  it_last_report :: "pipe_read list"
  it_past_deadline :: bool

record inspect_buffers =
  ib_stdout :: "u8 list"
  ib_stderr :: "u8 list"
  ib_report :: "u8 list"

definition inspect_drain ::
    "pipe_read list \<Rightarrow> pipe_read list \<Rightarrow> pipe_read list \<Rightarrow> inspect_buffers \<Rightarrow> bool \<times> inspect_buffers" where
  "inspect_drain out err rep b =
     (let (out_over, out_buf) = drain_capped max_report_bytes out (ib_stdout b);
          err_buf = drain_stderr_keep stderr_tail_bytes stderr_chunks_per_tick err (ib_stderr b);
          (rep_over, rep_buf) = drain_capped report_stream_max_bytes rep (ib_report b)
      in (out_over \<or> rep_over, \<lparr>ib_stdout = out_buf, ib_stderr = err_buf, ib_report = rep_buf\<rparr>))"

record inspect_world =
  iw_home :: bool
  iw_read_fd :: bool
  iw_write_fd :: bool
  iw_child :: child_life
  iw_group_killed :: bool

definition inspect_kill_and_reap :: "inspect_world \<Rightarrow> inspect_world" where
  "inspect_kill_and_reap w = w\<lparr>iw_group_killed := True, iw_child := LifeReaped\<rparr>"

fun supervise_loop ::
    "record_codec \<Rightarrow> (io_error_kind \<Rightarrow> string) \<Rightarrow> inspect_turn list \<Rightarrow> inspect_buffers \<Rightarrow> inspect_world
       \<Rightarrow> record_value option \<times> inspect_world" where
  "supervise_loop rc io [] b w = (None, w)"
| "supervise_loop rc io (t # ts) b w =
     (let (over, b) = inspect_drain (it_stdout t) (it_stderr t) (it_report t) b in
      if over then (Some (unknown_outcome ''report-oversize'' None None), inspect_kill_and_reap w)
      else
        (case it_wait t of
           PollExited success \<Rightarrow>
             (let w = w\<lparr>iw_child := LifeReaped\<rparr>;
                  (over, b) = inspect_drain (it_last_stdout t) (it_last_stderr t) (it_last_report t) b in
              if over then (Some (unknown_outcome ''report-oversize'' None None), w)
              else (Some (inspect_finalize rc io success (ib_report b) (ib_stderr b)), w))
         | PollRunning \<Rightarrow>
             if it_past_deadline t then (Some (unknown_outcome ''timeout'' None None), inspect_kill_and_reap w)
             else supervise_loop rc io ts b w
         | PollFailed \<Rightarrow> (Some inspector_unavailable, inspect_kill_and_reap w)))"

definition inspect_supervise ::
    "record_codec \<Rightarrow> (io_error_kind \<Rightarrow> string) \<Rightarrow> bool \<Rightarrow> bool \<Rightarrow> inspect_turn list \<Rightarrow> inspect_world
       \<Rightarrow> record_value option \<times> inspect_world" where
  "inspect_supervise rc io captured nonblocking turns w =
     (let (r, w) =
        (if \<not> captured then (Some inspector_unavailable, inspect_kill_and_reap w)
         else if \<not> nonblocking then (Some inspector_unavailable, inspect_kill_and_reap w)
         else supervise_loop rc io turns \<lparr>ib_stdout = [], ib_stderr = [], ib_report = []\<rparr> w)
      in (r, if r = None then w else w\<lparr>iw_read_fd := False\<rparr>))"

section \<open>A run\<close>

record inspection_calls =
  iq_home_created :: bool
  iq_home_protected :: bool
  iq_pid :: nat
  iq_pipe_made :: bool
  iq_spawned :: "nat option"
  iq_captured :: bool
  iq_nonblocking :: bool
  iq_turns :: "inspect_turn list"
  iq_home_facts :: home_facts

definition inspector_args :: "string \<Rightarrow> nat \<Rightarrow> string list" where
  "inspector_args input wall_ms =
     [''--input'', input, ''--max-wall-ms'', show_nat (min wall_ms u64_max), ''--report-fd'', show_nat report_fd]"

definition inspect_cleanup :: "home_facts \<Rightarrow> inspect_world \<Rightarrow> inspect_world" where
  "inspect_cleanup h w = (if cleanup_renderer_home h then w\<lparr>iw_home := False\<rparr> else w)"

definition inspect_start :: inspect_world where
  "inspect_start = \<lparr>iw_home = False, iw_read_fd = False, iw_write_fd = False, iw_child = LifeNone,
                    iw_group_killed = False\<rparr>"

definition run_inspection ::
    "record_codec \<Rightarrow> (io_error_kind \<Rightarrow> string) \<Rightarrow> bool \<Rightarrow> inspection_calls
       \<Rightarrow> (record_value \<times> nat option) option \<times> inspect_world" where
  "run_inspection rc io configured c =
     (let w = inspect_start in
      if \<not> configured then (Some (inspector_unavailable, None), w)
      else if \<not> iq_home_created c then (Some (inspector_unavailable, None), w)
      else
        (let w = w\<lparr>iw_home := True\<rparr> in
         if \<not> iq_home_protected c \<or> 2 ^ 31 \<le> iq_pid c \<or> \<not> iq_pipe_made c
         then (Some (inspector_unavailable, None), inspect_cleanup (iq_home_facts c) w)
         else
           (let w = w\<lparr>iw_read_fd := True, iw_write_fd := True\<rparr>;
                w = (if iq_spawned c = None then w else w\<lparr>iw_child := LifeRunning\<rparr>);
                w = w\<lparr>iw_write_fd := False\<rparr> in
            case iq_spawned c of
              None \<Rightarrow>
                (Some (inspector_unavailable, None),
                 inspect_cleanup (iq_home_facts c) (w\<lparr>iw_read_fd := False\<rparr>))
            | Some pid \<Rightarrow>
                (case inspect_supervise rc io (iq_captured c) (iq_nonblocking c) (iq_turns c) w of
                   (None, w) \<Rightarrow> (None, w)
                 | (Some v, w) \<Rightarrow> (Some (v, Some pid), inspect_cleanup (iq_home_facts c) w)))))"

section \<open>Nothing is left behind\<close>

lemma supervise_loop_child:
  "supervise_loop rc io ts b w = (Some v, w') \<Longrightarrow>
     iw_child w' = LifeReaped \<and> iw_home w' = iw_home w \<and> iw_read_fd w' = iw_read_fd w \<and> iw_write_fd w' = iw_write_fd w"
  by (induction rc io ts b w rule: supervise_loop.induct)
     (auto simp: Let_def inspect_kill_and_reap_def split: prod.splits poll_result.splits if_splits)

lemma inspect_supervise_child:
  "inspect_supervise rc io captured nonblocking ts w = (Some v, w') \<Longrightarrow>
     iw_child w' = LifeReaped \<and> iw_home w' = iw_home w \<and> \<not> iw_read_fd w' \<and> iw_write_fd w' = iw_write_fd w"
  by (auto simp: inspect_supervise_def inspect_kill_and_reap_def Let_def dest: supervise_loop_child
      split: prod.splits if_splits)

lemma inspect_cleanup_simps [simp]:
  "iw_read_fd (inspect_cleanup h w) = iw_read_fd w" "iw_write_fd (inspect_cleanup h w) = iw_write_fd w"
  "iw_child (inspect_cleanup h w) = iw_child w"
  "iw_home (inspect_cleanup h w) \<longleftrightarrow> iw_home w \<and> \<not> cleanup_renderer_home h"
  by (auto simp: inspect_cleanup_def)

text \<open>
  C19: However a run of the inspector ends, it leaves nothing behind: both ends of the report pipe are
  closed, no child is left running or unreaped, and the home directory is gone unless its removal
  failed or was refused.
\<close>

theorem inspection_leaves_nothing:
  assumes "run_inspection rc io configured c = (Some (v, pid), w)"
  shows "\<not> iw_read_fd w \<and> \<not> iw_write_fd w \<and> iw_child w \<noteq> LifeRunning
       \<and> (pid \<noteq> None \<longrightarrow> iw_child w = LifeReaped)
       \<and> (cleanup_renderer_home (iq_home_facts c) \<longrightarrow> \<not> iw_home w)"
  using assms
  by (auto simp: run_inspection_def inspect_start_def Let_def dest!: inspect_supervise_child
      split: if_splits option.splits prod.splits)

section \<open>A run ends\<close>

fun turn_ends :: "inspect_turn \<Rightarrow> bool" where
  "turn_ends t \<longleftrightarrow> it_wait t \<noteq> PollRunning \<or> it_past_deadline t"

lemma supervise_loop_ends:
  "list_ex turn_ends ts \<Longrightarrow> fst (supervise_loop rc io ts b w) \<noteq> None"
  by (induction rc io ts b w rule: supervise_loop.induct)
     (auto simp: Let_def split: prod.splits poll_result.splits if_splits)

section \<open>Only a verified record counts\<close>

definition verified_report :: "record_codec \<Rightarrow> u8 list \<Rightarrow> record_value \<Rightarrow> bool" where
  "verified_report rc report v \<longleftrightarrow>
     (case read_stream (reader_new (cursor report)) of
        (fs, e) \<Rightarrow> e = None \<and> (case inspection_payloads fs of
                                 [payload] \<Rightarrow> validate_inspection rc payload = Inr v | _ \<Rightarrow> False))"

definition is_refusal :: "record_value \<Rightarrow> bool" where
  "is_refusal v \<longleftrightarrow> value_at [''outcome''] v = Some (RvString ''unknown'')"

lemma unknown_outcome_refusal [simp]: "is_refusal (unknown_outcome reason detail stderr)"
  by (auto simp: is_refusal_def unknown_outcome_def split: option.splits)

lemma inspect_finalize_verified:
  "\<not> is_refusal (inspect_finalize rc io success report tail)
   \<Longrightarrow> success \<and> verified_report rc report (inspect_finalize rc io success report tail)"
  by (auto simp: inspect_finalize_def verified_report_def split: prod.splits option.splits list.splits sum.splits if_splits)

lemma inspect_drain_ok:
  assumes "inspect_drain out err rep b = (False, b')"
  shows "ib_report b' = ib_report b @ reads_bytes rep" "length (ib_report b') \<le> report_stream_max_bytes"
    "length (ib_stdout b') \<le> max_report_bytes"
  using assms by (auto simp: inspect_drain_def Let_def dest!: drain_capped_ok split: prod.splits)

text \<open>All that the report pipe gave, up to the turn in which the child was found to have exited.\<close>

fun report_until_exit :: "inspect_turn list \<Rightarrow> u8 list" where
  "report_until_exit [] = []"
| "report_until_exit (t # ts) =
     reads_bytes (it_report t)
     @ (if it_wait t = PollRunning then report_until_exit ts else reads_bytes (it_last_report t))"

fun exit_of :: "inspect_turn list \<Rightarrow> bool option" where
  "exit_of [] = None"
| "exit_of (t # ts) =
     (case it_wait t of
        PollExited success \<Rightarrow> Some success
      | PollRunning \<Rightarrow> if it_past_deadline t then None else exit_of ts
      | PollFailed \<Rightarrow> None)"

lemma supervise_loop_verified:
  assumes "supervise_loop rc io ts b w = (Some v, w')" "\<not> is_refusal v"
  shows "exit_of ts = Some True \<and> verified_report rc (ib_report b @ report_until_exit ts) v"
  using assms
proof (induction rc io ts b w rule: supervise_loop.induct)
  case (2 rc io t ts b w)
  obtain over b1 where d: "inspect_drain (it_stdout t) (it_stderr t) (it_report t) b = (over, b1)"
    by (cases "inspect_drain (it_stdout t) (it_stderr t) (it_report t) b")
  have over: "\<not> over" using "2.prems" d by (auto simp: Let_def)
  note rep = inspect_drain_ok(1) [of "it_stdout t" "it_stderr t" "it_report t" b b1]
  show ?case
  proof (cases "it_wait t")
    case (PollExited success)
    obtain over2 b2 where d2: "inspect_drain (it_last_stdout t) (it_last_stderr t) (it_last_report t) b1 = (over2, b2)"
      by (cases "inspect_drain (it_last_stdout t) (it_last_stderr t) (it_last_report t) b1")
    have "\<not> over2" "v = inspect_finalize rc io success (ib_report b2) (ib_stderr b2)"
      using "2.prems" d d2 over PollExited by (auto simp: Let_def split: if_splits)
    then have "success \<and> verified_report rc (ib_report b2) v"
      using "2.prems"(2) inspect_finalize_verified [of rc io success "ib_report b2" "ib_stderr b2"]
      by (cases success) auto
    moreover have "ib_report b2 = ib_report b @ reads_bytes (it_report t) @ reads_bytes (it_last_report t)"
      using \<open>\<not> over2\<close> d d2 over rep
        inspect_drain_ok(1) [of "it_last_stdout t" "it_last_stderr t" "it_last_report t" b1 b2] by simp
    ultimately show ?thesis using PollExited by simp
  next
    case PollRunning
    then show ?thesis using "2.prems" "2.IH" [OF d [symmetric] refl over] d over rep by (auto simp: Let_def split: if_splits)
  next
    case PollFailed
    then show ?thesis using "2.prems" d over by (auto simp: Let_def inspector_unavailable_def)
  qed
qed simp

text \<open>
  A run gives anything but an unknown outcome only when the inspector was found to have exited with
  success, and then the value is the record of the only inspection frame in everything its report pipe
  gave, the stream ended cleanly and the record passed the validator, digest included.
\<close>

lemma inspection_record_verified:
  assumes "run_inspection rc io configured c = (Some (v, pid), w)" "\<not> is_refusal v"
  shows "exit_of (iq_turns c) = Some True \<and> verified_report rc (report_until_exit (iq_turns c)) v"
proof -
  let ?b = "\<lparr>ib_stdout = [], ib_stderr = [], ib_report = []\<rparr>"
  have unavailable: "is_refusal inspector_unavailable" by (simp add: inspector_unavailable_def)
  obtain w0 w1 where "supervise_loop rc io (iq_turns c) ?b w0 = (Some v, w1)"
    using assms unavailable
    by (auto simp: run_inspection_def inspect_supervise_def Let_def split: if_splits option.splits prod.splits)
  then show ?thesis using supervise_loop_verified [of rc io "iq_turns c" ?b w0 v w1] assms(2) by simp
qed

end
