(* ===== verification/Inspection_Gate.thy ===== *)
theory Inspection_Gate
  imports Inspection Apply_Transaction
begin

text \<open>
  The inspection as the capability gate of \<open>crates/kwe-daemon/src/apply.rs\<close> reads it: the three fields
  it takes from the JSON value that \<open>inspect::run_inspection\<close> gave, and what the gate can say about a
  scene. With it the gate of the apply transaction rests on the inspector's verified record. A run on
  concrete pipes shows that the hypotheses can hold.
\<close>

definition get_field :: "string \<Rightarrow> record_value \<Rightarrow> record_value option" where
  "get_field k v = (case v of RvObject m \<Rightarrow> map_of m k | _ \<Rightarrow> None)"

definition inspection_view :: "record_value \<Rightarrow> inspection" where
  "inspection_view v =
     \<lparr>iv_outcome = Option.bind (get_field ''outcome'' v) pick_string,
      iv_required = map_option (map pick_string) (Option.bind (get_field ''required'' v) pick_array),
      iv_reason = Option.bind (get_field ''reason'' v) pick_string\<rparr>"

definition gate_by_inspection ::
    "record_codec \<Rightarrow> (io_error_kind \<Rightarrow> string) \<Rightarrow> bool \<Rightarrow> inspection_calls \<Rightarrow> (apply_error, gate_outcome) result option" where
  "gate_by_inspection rc io configured c =
     (case fst (run_inspection rc io configured c) of
        None \<Rightarrow> None
      | Some (v, pid) \<Rightarrow> Some (scene_capability_gate (inspection_view v)))"

lemma get_field_value_at: "get_field k v = value_at [k] v"
proof (cases v)
  case (RvObject m)
  then show ?thesis by (cases "map_of m k") (simp_all add: get_field_def)
qed (simp_all add: get_field_def)

lemma refusal_gate:
  assumes "is_refusal v"
  obtains reason where "scene_capability_gate (inspection_view v)
     = Inr \<lparr>ga_limitations = [], ga_inspection_reason = Some reason\<rparr>"
  using assms by (auto simp: is_refusal_def scene_capability_gate_def inspection_view_def get_field_value_at)

text \<open>
  C9: The capability gate speaks about a scene, to refuse it, to admit it with limitations or to admit
  it as inspected, only on a record that the inspector completed and that verified. Whatever goes wrong
  with the inspector admits the scene as not inspected, with the reason and without limitations.
\<close>

theorem scene_gate_needs_verified_record:
  assumes "gate_by_inspection rc io configured c = Some gate"
    and "\<nexists>reason. gate = Inr \<lparr>ga_limitations = [], ga_inspection_reason = Some reason\<rparr>"
  shows "\<exists>v. gate = scene_capability_gate (inspection_view v) \<and> exit_of (iq_turns c) = Some True
       \<and> verified_report rc (report_until_exit (iq_turns c)) v"
proof -
  obtain v pid w where run: "run_inspection rc io configured c = (Some (v, pid), w)"
    and gate: "gate = scene_capability_gate (inspection_view v)"
    using assms(1) by (cases "run_inspection rc io configured c") (auto simp: gate_by_inspection_def split: option.splits)
  have "\<not> is_refusal v" using refusal_gate [of v] gate assms(2) by metis
  then show ?thesis using inspection_record_verified [OF run] gate by blast
qed

section \<open>A run on concrete pipes\<close>

definition sample_report_bytes :: "u8 list" where
  "sample_report_bytes = frames_bytes [\<lparr>rf_kind = SceneInspectionV1, rf_payload = [1]\<rparr>]"

definition sample_inspect_turn :: inspect_turn where
  "sample_inspect_turn =
     \<lparr>it_stdout = [], it_stderr = [PipeBytes [65], PipeBlocked], it_report = [PipeBytes sample_report_bytes],
      it_wait = PollExited True, it_last_stdout = [], it_last_stderr = [], it_last_report = [],
      it_past_deadline = False\<rparr>"

definition sample_inspect_calls :: inspection_calls where
  "sample_inspect_calls =
     \<lparr>iq_home_created = True, iq_home_protected = True, iq_pid = 7, iq_pipe_made = True, iq_spawned = Some 8,
      iq_captured = True, iq_nonblocking = True, iq_turns = [sample_inspect_turn],
      iq_home_facts = PlainDirectory True\<rparr>"

lemma sample_report_length [simp]: "length sample_report_bytes = 13"
  by (simp add: sample_report_bytes_def frames_bytes_def report_header_bytes_def)

lemma sample_report_read:
  "read_stream (reader_new (cursor sample_report_bytes)) = ([\<lparr>rf_kind = SceneInspectionV1, rf_payload = [1]\<rparr>], None)"
proof (rule read_stream_written)
  have "sample_report_bytes \<noteq> []" using sample_report_length by force
  then show "clean_stream (fr_events (reader_new (cursor sample_report_bytes)))"
    "stream_bytes (fr_events (reader_new (cursor sample_report_bytes)))
       = frames_bytes [\<lparr>rf_kind = SceneInspectionV1, rf_payload = [1]\<rparr>]"
    by (simp_all add: reader_new_def reader_with_caps_def cursor_def) (simp add: sample_report_bytes_def)
qed (simp_all add: frame_fits_def max_payload_bytes_def reader_new_def reader_with_caps_def caps_report_def
      max_frames_per_stream_def max_total_payload_bytes_def)

lemma sample_finalize:
  "inspect_finalize sample_codec io True sample_report_bytes tail = RvObject (sample_record ''d'')"
  by (simp add: inspect_finalize_def sample_report_read inspection_payloads_def sample_record_accepted)

lemma sample_inspection:
  "run_inspection sample_codec io True sample_inspect_calls =
     (Some (RvObject (sample_record ''d''), Some 8),
      \<lparr>iw_home = False, iw_read_fd = False, iw_write_fd = False, iw_child = LifeReaped, iw_group_killed = False\<rparr>)"
proof -
  have "inspect_drain [] [PipeBytes [65], PipeBlocked] [PipeBytes sample_report_bytes]
      \<lparr>ib_stdout = [], ib_stderr = [], ib_report = []\<rparr>
    = (False, \<lparr>ib_stdout = [], ib_stderr = [65], ib_report = sample_report_bytes\<rparr>)"
    using sample_report_length
    by (simp add: inspect_drain_def drain_capped_def drain_chunk_def stderr_chunks_per_tick_def
        stderr_tail_bytes_def report_stream_max_bytes_def max_total_payload_bytes_def Let_def)
  moreover have "inspect_drain [] [] [] b = (False, b)"
    if "b = \<lparr>ib_stdout = [], ib_stderr = [65], ib_report = sample_report_bytes\<rparr>" for b
    by (simp add: that inspect_drain_def drain_capped_def report_stream_max_bytes_def max_total_payload_bytes_def
        stderr_chunks_per_tick_def)
  ultimately show ?thesis
    by (simp add: run_inspection_def sample_inspect_calls_def inspect_start_def inspect_supervise_def
        sample_inspect_turn_def sample_finalize inspect_cleanup_def cleanup_renderer_home_def)
qed

theorem inspection_leaves_nothing_witness:
  "\<not> iw_read_fd (snd (run_inspection sample_codec (\<lambda>_. []) True sample_inspect_calls))
   \<and> \<not> iw_home (snd (run_inspection sample_codec (\<lambda>_. []) True sample_inspect_calls))"
proof -
  note run = sample_inspection [of "\<lambda>_. []"]
  show ?thesis using inspection_leaves_nothing [OF run] unfolding run
    by (simp add: sample_inspect_calls_def cleanup_renderer_home_def)
qed

theorem scene_gate_needs_verified_record_witness:
  "\<exists>v. Inr \<lparr>ga_limitations = [], ga_inspection_reason = None\<rparr> = scene_capability_gate (inspection_view v)
     \<and> exit_of (iq_turns sample_inspect_calls) = Some True
     \<and> verified_report sample_codec (report_until_exit (iq_turns sample_inspect_calls)) v"
proof (rule scene_gate_needs_verified_record)
  have "inspection_view (RvObject (sample_record ''d''))
      = \<lparr>iv_outcome = Some ''inventoried'', iv_required = Some [], iv_reason = Some ''ok''\<rparr>"
    by (simp add: inspection_view_def get_field_def sample_record_def)
  then show "gate_by_inspection sample_codec (\<lambda>_. []) True sample_inspect_calls
      = Some (Inr \<lparr>ga_limitations = [], ga_inspection_reason = None\<rparr>)"
    by (simp add: gate_by_inspection_def sample_inspection scene_capability_gate_def required_ids_def opt_or_def
        List.map_filter_def)
qed simp

end
