(* ===== verification/Shader_Compiler.thy ===== *)
theory Shader_Compiler
  imports Child_Drain
begin

text \<open>
  \<open>crates/kwe-shader-compiler/src/main.rs\<close>, the killable shader helper: it reads one request frame from
  its standard input, refuses anything after it, resolves the wire options, compiles, and answers with
  one response frame and, on success, the compiled words in chunks. Compiling is the \<open>shaderc\<close>
  library, an argument; no answer from it means that the process died in the call. Where the soft
  watchdog strikes, the input shows \<open>IoTimedOut\<close>.
\<close>

section \<open>Arguments\<close>

definition exit_ok :: int where "exit_ok = 0"
definition exit_bad_arguments :: int where "exit_bad_arguments = 2"
definition exit_watchdog_expired :: int where "exit_watchdog_expired = 64"
definition exit_protocol_error :: int where "exit_protocol_error = 65"
definition exit_no_request :: int where "exit_no_request = 66"
definition exit_panic :: int where "exit_panic = 101"

lemmas helper_exits =
  exit_ok_def exit_bad_arguments_def exit_watchdog_expired_def exit_protocol_error_def exit_no_request_def
  exit_panic_def

record helper_arguments =
  ha_max_wall_ms :: nat
  ha_max_source_bytes :: nat

definition default_arguments :: helper_arguments where
  "default_arguments = \<lparr>ha_max_wall_ms = 10000, ha_max_source_bytes = 256 * 1024\<rparr>"

text \<open>\<open>str::parse\<close> of a 64-bit unsigned integer: an optional plus sign, digits, no overflow.\<close>

definition parse_unsigned :: "string \<Rightarrow> nat option" where
  "parse_unsigned s =
     (let ds = (case s of c # r \<Rightarrow> if byte_val c = 43 then r else s | [] \<Rightarrow> []) in
      if ds = [] \<or> \<not> list_all is_ascii_digit ds \<or> u64_max < read_nat ds 0 then None else Some (read_nat ds 0))"

fun parse_arguments :: "(string \<Rightarrow> string) \<Rightarrow> string list \<Rightarrow> helper_arguments \<Rightarrow> (string, helper_arguments) result" where
  "parse_arguments dbg [] a = Inr a"
| "parse_arguments dbg (flag # rest) a =
     (if flag = ''--max-wall-ms'' then
        (case rest of
           [] \<Rightarrow> Inl ''--max-wall-ms requires a value''
         | v # rest \<Rightarrow>
             rbind (ok_or (parse_unsigned v) (''--max-wall-ms: invalid number '' @ dbg v)) (\<lambda>n.
               parse_arguments dbg rest (a\<lparr>ha_max_wall_ms := n\<rparr>)))
      else if flag = ''--max-source-bytes'' then
        (case rest of
           [] \<Rightarrow> Inl ''--max-source-bytes requires a value''
         | v # rest \<Rightarrow>
             rbind (ok_or (parse_unsigned v) (''--max-source-bytes: invalid number '' @ dbg v)) (\<lambda>n.
               parse_arguments dbg rest (a\<lparr>ha_max_source_bytes := n\<rparr>)))
      else Inl (''unrecognized argument '' @ dbg flag))"

section \<open>Reasons\<close>

definition is_watchdog_timeout :: "report_error \<Rightarrow> bool" where
  "is_watchdog_timeout e \<longleftrightarrow> e = ReportIo IoTimedOut"

fun reason_for_frame_error :: "report_error \<Rightarrow> string" where
  "reason_for_frame_error BadMagic = ''bad-magic''"
| "reason_for_frame_error (BadFlags f) = ''bad-flags''"
| "reason_for_frame_error (BadReserved r) = ''bad-reserved''"
| "reason_for_frame_error (PayloadOversize n) = ''payload-oversize''"
| "reason_for_frame_error HeaderTruncated = ''truncated-header''"
| "reason_for_frame_error PayloadTruncated = ''truncated-payload''"
| "reason_for_frame_error (FrameCountExceeded n) = ''frame-count-exceeded''"
| "reason_for_frame_error (TotalBytesExceeded n) = ''total-bytes-exceeded''"
| "reason_for_frame_error (ReportIo k) = ''io-error''"

fun reason_for_request_error :: "shader_request_error \<Rightarrow> string" where
  "reason_for_request_error (RqParse e) = ''malformed-json''"
| "reason_for_request_error RqNotAnObject = ''not-an-object''"
| "reason_for_request_error RqWrongSchema = ''wrong-schema''"
| "reason_for_request_error (RqMissingField f) = ''missing-field:'' @ f"
| "reason_for_request_error (RqWrongType f) = ''wrong-type:'' @ f"
| "reason_for_request_error RqInvalidStage = ''invalid-stage''"
| "reason_for_request_error (RqSourceOversize n m) = ''source-oversize''"
| "reason_for_request_error RqTooManyIncludes = ''too-many-includes''"
| "reason_for_request_error (RqInvalidInclude name) = ''invalid-include:'' @ bounded_text 128 name"
| "reason_for_request_error RqTooManyCombos = ''too-many-combos''"
| "reason_for_request_error RqTooManyDefines = ''too-many-defines''"
| "reason_for_request_error (RqOptionOversize f) = ''option-oversize:'' @ f"

section \<open>Responses\<close>

text \<open>The records of the three answers, their keys in the order of the map.\<close>

definition protocol_error_record :: "string \<Rightarrow> record_value" where
  "protocol_error_record reason =
     RvObject [(''reason'', RvString reason), (''schema'', RvString shader_response_schema),
               (''status'', RvString ''protocol-error'')]"

definition ok_record :: "nat \<Rightarrow> nat \<Rightarrow> record_value" where
  "ok_record chunks len =
     RvObject [(''schema'', RvString shader_response_schema), (''spirv_chunks'', RvNumber (PosInt (word_of_nat chunks))),
               (''spirv_total_bytes'', RvNumber (PosInt (word_of_nat len))), (''status'', RvString ''ok'')]"

definition compile_error_record :: "string \<Rightarrow> record_value" where
  "compile_error_record log =
     RvObject [(''log'', RvString (bounded_text max_compile_log_bytes log)),
               (''schema'', RvString shader_response_schema), (''status'', RvString ''compile-error'')]"

type_synonym 'w writer = "u8 list \<Rightarrow> 'w \<Rightarrow> (string, unit) result \<times> 'w"

definition write_response :: "record_codec \<Rightarrow> 'w writer \<Rightarrow> record_value \<Rightarrow> 'w \<Rightarrow> 'w" where
  "write_response rc wr v w = snd (write_frame wr ShaderCompileResponseV1 (rc_serialize rc v) w)"

definition respond_protocol_error :: "record_codec \<Rightarrow> 'w writer \<Rightarrow> string \<Rightarrow> 'w \<Rightarrow> int \<times> 'w" where
  "respond_protocol_error rc wr reason w =
     (exit_protocol_error, write_response rc wr (protocol_error_record reason) w)"

function byte_chunks :: "nat \<Rightarrow> u8 list \<Rightarrow> u8 list list" where
  "byte_chunks n bs = (if bs = [] \<or> n = 0 then [] else take n bs # byte_chunks n (drop n bs))"
  by pat_completeness auto
termination by (relation "measure (\<lambda>(n, bs). length bs)") auto

declare byte_chunks.simps [simp del]

fun write_chunks :: "'w writer \<Rightarrow> u8 list list \<Rightarrow> 'w \<Rightarrow> 'w" where
  "write_chunks wr [] w = w"
| "write_chunks wr (c # cs) w =
     (case write_frame wr SpirvChunkV1 c w of
        (Inl e, w) \<Rightarrow> w
      | (Inr _, w) \<Rightarrow> write_chunks wr cs w)"

definition respond_ok :: "record_codec \<Rightarrow> 'w writer \<Rightarrow> u8 list \<Rightarrow> 'w \<Rightarrow> 'w" where
  "respond_ok rc wr spirv w =
     (let chunks = byte_chunks max_payload_bytes spirv in
      write_chunks wr chunks (write_response rc wr (ok_record (length chunks) (length spirv)) w))"

definition respond_compile_error :: "record_codec \<Rightarrow> 'w writer \<Rightarrow> string \<Rightarrow> 'w \<Rightarrow> 'w" where
  "respond_compile_error rc wr log w = write_response rc wr (compile_error_record log) w"

section \<open>Options\<close>

datatype target_env = TargetVulkan
datatype env_version = Vulkan1_0 | Vulkan1_1 | Vulkan1_2 | Vulkan1_3 | Vulkan1_4
datatype optimization_level = OptZero | OptSize | OptPerformance

record resolved_options =
  ro_target_env :: target_env
  ro_env_version :: env_version
  ro_optimization :: optimization_level

definition spec_target_env :: string where "spec_target_env = ''vulkan''"
definition spec_env_version :: string where "spec_env_version = ''1.2''"
definition spec_optimization :: string where "spec_optimization = ''zero''"

definition wire_option :: "record_value option \<Rightarrow> string \<Rightarrow> string \<Rightarrow> string" where
  "wire_option options field fallback =
     (case Option.bind (Option.bind options (value_at [field])) pick_string of
        None \<Rightarrow> fallback | Some s \<Rightarrow> s)"

definition env_version_of :: "string \<Rightarrow> env_version option" where
  "env_version_of s =
     (if s = ''1.0'' then Some Vulkan1_0 else if s = ''1.1'' then Some Vulkan1_1
      else if s = ''1.2'' then Some Vulkan1_2 else if s = ''1.3'' then Some Vulkan1_3
      else if s = ''1.4'' then Some Vulkan1_4 else None)"

definition optimization_of :: "string \<Rightarrow> optimization_level option" where
  "optimization_of s =
     (if s = ''zero'' then Some OptZero else if s = ''size'' then Some OptSize
      else if s = ''performance'' then Some OptPerformance else None)"

definition resolve_wire_options :: "record_value option \<Rightarrow> (unit, resolved_options) result" where
  "resolve_wire_options options =
     (let env = wire_option options ''target_env'' spec_target_env;
          version = wire_option options ''target_env_version'' spec_env_version;
          level = wire_option options ''optimization_level'' spec_optimization in
      if env \<noteq> ''vulkan'' then Inl ()
      else
        rbind (ok_or (env_version_of version) ()) (\<lambda>v.
        rbind (ok_or (optimization_of level) ()) (\<lambda>l.
          Inr \<lparr>ro_target_env = TargetVulkan, ro_env_version = v, ro_optimization = l\<rparr>)))"

section \<open>The exchange\<close>

datatype shader_stage = StageVertex | StageFragment

fun stage_text :: "shader_stage \<Rightarrow> string" where
  "stage_text StageVertex = ''vertex''"
| "stage_text StageFragment = ''fragment''"

type_synonym shaderc = "string \<Rightarrow> shader_stage \<Rightarrow> resolved_options \<Rightarrow> (string, u8 list) result option"

definition compile_source :: "shaderc \<Rightarrow> string \<Rightarrow> string \<Rightarrow> resolved_options \<Rightarrow> (string, u8 list) result option" where
  "compile_source shaderc source stage options =
     (if stage = ''vertex'' then shaderc source StageVertex options
      else if stage = ''fragment'' then shaderc source StageFragment options
      else Some (Inl (''unreachable stage '' @ debug_quoted stage)))"

definition text_at :: "string \<Rightarrow> record_value \<Rightarrow> string" where
  "text_at k v = (case Option.bind (value_at [k] v) pick_string of None \<Rightarrow> '''' | Some s \<Rightarrow> s)"

definition answer_request ::
    "record_codec \<Rightarrow> shaderc \<Rightarrow> 'w writer \<Rightarrow> record_value \<Rightarrow> 'w \<Rightarrow> int \<times> 'w" where
  "answer_request rc shaderc wr request w =
     (case resolve_wire_options (value_at [''options''] request) of
        Inl _ \<Rightarrow> respond_protocol_error rc wr ''bad-options'' w
      | Inr options \<Rightarrow>
          (case compile_source shaderc (text_at ''source'' request) (text_at ''stage'' request) options of
             None \<Rightarrow> (exit_panic, w)
           | Some (Inr spirv) \<Rightarrow> (exit_ok, respond_ok rc wr spirv w)
           | Some (Inl log) \<Rightarrow> (exit_ok, respond_compile_error rc wr log w)))"

definition helper_run ::
    "record_codec \<Rightarrow> shaderc \<Rightarrow> 'w writer \<Rightarrow> nat \<Rightarrow> read_event list \<Rightarrow> 'w \<Rightarrow> int \<times> 'w" where
  "helper_run rc shaderc wr max_source_bytes stdin w =
     (case next_frame (reader_with_caps stdin caps_shader_request) of
        (Inr None, _) \<Rightarrow> (exit_no_request, w)
      | (Inl e, _) \<Rightarrow>
          if is_watchdog_timeout e then (exit_watchdog_expired, w)
          else respond_protocol_error rc wr (reason_for_frame_error e) w
      | (Inr (Some first), r) \<Rightarrow>
          if rf_kind first \<noteq> ShaderCompileRequestV1 then respond_protocol_error rc wr ''wrong-kind'' w
          else
            (case validate_shader_request rc (rf_payload first) max_source_bytes of
               Inl e \<Rightarrow> respond_protocol_error rc wr (reason_for_request_error e) w
             | Inr request \<Rightarrow>
                 (case next_frame r of
                    (Inr None, _) \<Rightarrow> answer_request rc shaderc wr request w
                  | (Inr (Some _), _) \<Rightarrow> respond_protocol_error rc wr ''excess-request'' w
                  | (Inl e, _) \<Rightarrow>
                      if is_watchdog_timeout e then (exit_watchdog_expired, w)
                      else respond_protocol_error rc wr ''excess-request'' w)))"

definition helper_main ::
    "record_codec \<Rightarrow> shaderc \<Rightarrow> 'w writer \<Rightarrow> (string \<Rightarrow> string) \<Rightarrow> string list \<Rightarrow> read_event list \<Rightarrow> 'w \<Rightarrow> int \<times> 'w" where
  "helper_main rc shaderc wr dbg args stdin w =
     (case parse_arguments dbg args default_arguments of
        Inl _ \<Rightarrow> (exit_bad_arguments, w)
      | Inr a \<Rightarrow> helper_run rc shaderc wr (ha_max_source_bytes a) stdin w)"

section \<open>Chunks\<close>

lemma concat_byte_chunks: "0 < n \<Longrightarrow> concat (byte_chunks n bs) = bs"
proof (induction n bs rule: byte_chunks.induct)
  case (1 n bs)
  then show ?case by (subst byte_chunks.simps) auto
qed

lemma byte_chunks_size: "c \<in> set (byte_chunks n bs) \<Longrightarrow> length c \<le> n"
proof (induction n bs rule: byte_chunks.induct)
  case (1 n bs)
  from "1.prems" show ?case by (subst (asm) byte_chunks.simps) (use "1.IH" in \<open>auto split: if_splits\<close>)
qed

lemma length_byte_chunks: "0 < n \<Longrightarrow> length (byte_chunks n bs) = (length bs + n - 1) div n"
proof (induction n bs rule: byte_chunks.induct)
  case (1 n bs)
  show ?case
  proof (cases "bs = []")
    case True
    then show ?thesis using "1.prems" by (simp add: byte_chunks.simps)
  next
    case False
    then have "length (byte_chunks n bs) = Suc ((length (drop n bs) + n - 1) div n)"
      using "1.IH" "1.prems" by (subst byte_chunks.simps) auto
    moreover have "length bs + n - 1 = n + (length bs - 1)" using False by (cases bs) auto
    then have "(length bs + n - 1) div n = Suc ((length bs - 1) div n)"
      using "1.prems" div_add_self1 [of n "length bs - 1"] by (simp only: Suc_eq_plus1)
    moreover have "(length (drop n bs) + n - 1) div n = (length bs - 1) div n"
      using "1.prems" False by (cases "n \<le> length bs") (auto simp: div_eq_0_iff)
    ultimately show ?thesis by simp
  qed
qed

end
