(* ===== verification/Shader_Helper.thy ===== *)
theory Shader_Helper
  imports Shader_Compiler Worker_Launch
begin

text \<open>
  \<open>crates/kwe-scene-renderer/src/shader_helper.rs\<close>, the renderer's side of the shader helper: it sends
  one request to a fresh helper process, drains the answer under a deadline, reaps the process, puts
  the compiled words together, and falls back to the compiler in the renderer when the helper did not
  answer. The helper shares the renderer's process group, so signals go to its own process only. Words
  are read in the byte order of the hosts the program runs on, the little-endian one.
\<close>

section \<open>Outcomes\<close>

datatype helper_outcome =
    HoUnimplemented | HoProtocolError string | HoUnavailable string | HoTimeout
  | HoCompiled "u32 list" record_value | HoCompileError string

fun outcome_class :: "helper_outcome \<Rightarrow> string" where
  "outcome_class HoUnimplemented = ''unimplemented''"
| "outcome_class (HoProtocolError d) = ''protocol_error''"
| "outcome_class (HoUnavailable d) = ''unavailable''"
| "outcome_class HoTimeout = ''timeout''"
| "outcome_class (HoCompiled ws r) = ''compiled''"
| "outcome_class (HoCompileError l) = ''compile_error''"

text \<open>The texts of the system and of \<open>Debug\<close>, which the diagnostics carry.\<close>

record system_texts =
  tx_io :: "io_error_kind \<Rightarrow> string"
  tx_debug :: "string \<Rightarrow> string"

definition helper_bounded :: "string \<Rightarrow> string" where "helper_bounded s = str_take_chars 300 s"

fun kind_debug :: "frame_kind \<Rightarrow> string" where
  "kind_debug SceneInspectionV1 = ''SceneInspectionV1''"
| "kind_debug SceneRenderReportV1 = ''SceneRenderReportV1''"
| "kind_debug ShaderCompileRequestV1 = ''ShaderCompileRequestV1''"
| "kind_debug ShaderCompileResponseV1 = ''ShaderCompileResponseV1''"
| "kind_debug SpirvChunkV1 = ''SpirvChunkV1''"
| "kind_debug (UnknownKind v) = ''Unknown('' @ show_nat (unat v) @ '')''"

section \<open>The answer\<close>

fun ne_words :: "u8 list \<Rightarrow> u32 list" where
  "ne_words (a # b # c # d # rest) = word_of_nat (le_nat [a, b, c, d]) # ne_words rest"
| "ne_words _ = []"

definition cursor_bytes :: "u8 list \<Rightarrow> read_event list" where
  "cursor_bytes bs = (if bs = [] then [] else [GotBytes bs])"

text \<open>The loop over the declared chunks: \<open>left\<close> of them still to come, \<open>index\<close> the next one's number.\<close>

fun read_chunks ::
    "system_texts \<Rightarrow> nat \<Rightarrow> nat \<Rightarrow> nat \<Rightarrow> frame_reader \<Rightarrow> u8 list \<Rightarrow> (string, u8 list \<times> frame_reader) result" where
  "read_chunks tx declared 0 index r acc = Inr (acc, r)"
| "read_chunks tx declared (Suc left) index r acc =
     (case next_frame r of
        (Inr (Some f), r) \<Rightarrow>
          if rf_kind f = SpirvChunkV1 then read_chunks tx declared left (index + 1) r (acc @ rf_payload f)
          else Inl (''expected a spirv chunk frame, got kind '' @ kind_debug (rf_kind f) @ '' at index '' @ show_nat index)
      | (Inr None, r) \<Rightarrow>
          Inl (''helper declared '' @ show_nat declared @ '' spirv chunks but stopped after '' @ show_nat index)
      | (Inl e, r) \<Rightarrow> Inl (helper_bounded (report_error_text (tx_io tx) e)))"

definition reassemble_ok :: "system_texts \<Rightarrow> frame_reader \<Rightarrow> record_value \<Rightarrow> helper_outcome" where
  "reassemble_ok tx r response =
     (case (Option.bind (value_at [''spirv_chunks''] response) pick_u64,
            Option.bind (value_at [''spirv_total_bytes''] response) pick_u64) of
        (Some chunks, Some len) \<Rightarrow>
          (case read_chunks tx (unat chunks) (unat chunks) 0 r [] of
             Inl d \<Rightarrow> HoProtocolError d
           | Inr (bs, r) \<Rightarrow>
               (case fst (next_frame r) of
                  Inr (Some _) \<Rightarrow> HoProtocolError ''trailing frame(s) after the declared spirv chunk count''
                | Inl e \<Rightarrow> HoProtocolError (helper_bounded (report_error_text (tx_io tx) e))
                | Inr None \<Rightarrow>
                    if length bs \<noteq> unat len
                    then HoProtocolError (''spirv_total_bytes header said '' @ show_nat (unat len) @ '', reassembled ''
                           @ show_nat (length bs) @ '' bytes'')
                    else if length bs mod 4 \<noteq> 0
                    then HoProtocolError ''reassembled spirv byte length is not a multiple of 4''
                    else HoCompiled (ne_words bs) response))
      | _ \<Rightarrow> HoProtocolError ''ok response missing spirv fields'')"

definition text_or :: "string \<Rightarrow> string \<Rightarrow> record_value \<Rightarrow> string" where
  "text_or fallback k v =
     (case Option.bind (value_at [k] v) pick_string of None \<Rightarrow> fallback | Some s \<Rightarrow> s)"

definition helper_finalize :: "record_codec \<Rightarrow> system_texts \<Rightarrow> u8 list \<Rightarrow> helper_outcome" where
  "helper_finalize rc tx out =
     (case next_frame (reader_with_caps (cursor_bytes out) caps_shader_response) of
        (Inr None, _) \<Rightarrow> HoProtocolError ''helper exited with no response frame''
      | (Inl e, _) \<Rightarrow> HoProtocolError (helper_bounded (report_error_text (tx_io tx) e))
      | (Inr (Some f), r) \<Rightarrow>
          if rf_kind f \<noteq> ShaderCompileResponseV1 then HoProtocolError ''wrong-kind response frame''
          else
            (case validate_shader_response rc (rf_payload f) of
               Inl e \<Rightarrow> HoProtocolError (helper_bounded (response_error_text e))
             | Inr response \<Rightarrow>
                 (case Option.bind (value_at [''status''] response) pick_string of
                    None \<Rightarrow> HoProtocolError ''unrecognized response status None''
                  | Some status \<Rightarrow>
                      if status = ''unimplemented'' then HoUnimplemented
                      else if status = ''protocol-error''
                      then HoProtocolError (helper_bounded (text_or ''protocol-error'' ''reason'' response))
                      else if status = ''compile-error''
                      then HoCompileError (helper_bounded (text_or ''compile-error'' ''log'' response))
                      else if status = ''ok'' then reassemble_ok tx r response
                      else HoProtocolError (''unrecognized response status Some('' @ tx_debug tx status @ '')''))))"

section \<open>The child\<close>

record helper_world =
  hw_child :: child_life
  hw_signals :: "(int \<times> group_signal) list"

definition helper_signal :: "nat \<Rightarrow> group_signal \<Rightarrow> helper_world \<Rightarrow> helper_world" where
  "helper_signal pid s w = w\<lparr>hw_signals := hw_signals w @ [(int pid, s)]\<rparr>"

definition helper_reap :: "helper_world \<Rightarrow> helper_world" where
  "helper_reap w = w\<lparr>hw_child := LifeReaped\<rparr>"

definition helper_kill_and_reap :: "nat \<Rightarrow> helper_world \<Rightarrow> helper_world" where
  "helper_kill_and_reap pid w = helper_reap (if pid < 2 ^ 31 then helper_signal pid SigKill w else w)"

text \<open>\<open>gone\<close>: the child had exited at the deadline; \<open>polls\<close>: what the polls of the grace time say.\<close>

definition helper_terminate_and_reap :: "nat \<Rightarrow> bool \<Rightarrow> bool list \<Rightarrow> helper_world \<Rightarrow> helper_world" where
  "helper_terminate_and_reap pid gone polls w =
     (if gone then helper_reap w
      else if 2 ^ 31 \<le> pid then w
      else
        (let w = helper_signal pid SigTerm w in
         if list_ex id polls then helper_reap w
         else helper_reap (helper_signal pid SigKill w)))"

definition helper_stderr_tail_bytes :: nat where "helper_stderr_tail_bytes = 4096"

record helper_turn =
  ht_stdout :: "pipe_read list"
  ht_stderr :: "pipe_read list"
  ht_poll :: poll_result
  ht_poll_text :: string
  ht_last_stdout :: "pipe_read list"
  ht_last_stderr :: "pipe_read list"
  ht_past_deadline :: bool
  ht_gone :: bool
  ht_grace_polls :: "bool list"

fun helper_loop ::
    "record_codec \<Rightarrow> system_texts \<Rightarrow> nat \<Rightarrow> helper_turn list \<Rightarrow> u8 list \<Rightarrow> u8 list \<Rightarrow> helper_world
       \<Rightarrow> helper_outcome option \<times> helper_world" where
  "helper_loop rc tx pid [] out err w = (None, w)"
| "helper_loop rc tx pid (t # ts) out err w =
     (let (oversize, out) = drain_capped (sc_max_total caps_shader_response) (ht_stdout t) out;
          err = drain_stderr_keep helper_stderr_tail_bytes stderr_chunks_per_tick (ht_stderr t) err in
      if oversize then (Some (HoProtocolError ''response-oversize''), helper_kill_and_reap pid w)
      else
        (case ht_poll t of
           PollExited _ \<Rightarrow>
             (let (oversize, out) = drain_capped (sc_max_total caps_shader_response) (ht_last_stdout t) out;
                  err = drain_stderr_keep helper_stderr_tail_bytes stderr_chunks_per_tick (ht_last_stderr t) err;
                  w = helper_reap w in
              if oversize then (Some (HoProtocolError ''response-oversize''), w)
              else (Some (helper_finalize rc tx out), w))
         | PollRunning \<Rightarrow>
             if ht_past_deadline t
             then (Some HoTimeout, helper_terminate_and_reap pid (ht_gone t) (ht_grace_polls t) w)
             else helper_loop rc tx pid ts out err w
         | PollFailed \<Rightarrow> (Some (HoUnavailable (helper_bounded (ht_poll_text t))), helper_kill_and_reap pid w)))"

section \<open>The request\<close>

definition request_record :: "shader_stage \<Rightarrow> string \<Rightarrow> record_value" where
  "request_record stage source =
     RvObject
       [(''combos'', RvObject []), (''defines'', RvObject []), (''includes'', RvObject []),
        (''options'', RvObject [(''optimization_level'', RvString spec_optimization),
                               (''target_env'', RvString spec_target_env),
                               (''target_env_version'', RvString spec_env_version)]),
        (''schema'', RvString shader_request_schema), (''source'', RvString source),
        (''stage'', RvString (stage_text stage))]"

fun write_error_text :: "write_error \<Rightarrow> string" where
  "write_error_text (WriteRefused s) = s"
| "write_error_text (WriteBroken s) = s"

text \<open>
  What the calls of one exchange give. \<open>hq_stdin_written\<close> is the blocking write of the request: it
  succeeds, fails, or, with \<open>None\<close>, never returns, because nobody reads the pipe and it is full.
\<close>

record helper_calls =
  hq_own_pid :: nat
  hq_spawned :: "(string, nat) result"
  hq_stdin_taken :: bool
  hq_stdin_written :: "(string, unit) result option"
  hq_captured :: bool
  hq_nonblocking :: bool
  hq_turns :: "helper_turn list"

definition wait_and_read ::
    "record_codec \<Rightarrow> system_texts \<Rightarrow> helper_calls \<Rightarrow> nat \<Rightarrow> helper_world \<Rightarrow> helper_outcome option \<times> helper_world" where
  "wait_and_read rc tx c pid w =
     (if \<not> hq_captured c then (Some (HoUnavailable ''stdout/stderr not captured''), helper_kill_and_reap pid w)
      else if \<not> hq_nonblocking c
      then (Some (HoUnavailable ''failed to set pipes non-blocking''), helper_kill_and_reap pid w)
      else helper_loop rc tx pid (hq_turns c) [] [] w)"

definition helper_start :: helper_world where "helper_start = \<lparr>hw_child = LifeNone, hw_signals = []\<rparr>"

definition compile_inner ::
    "record_codec \<Rightarrow> system_texts \<Rightarrow> string option \<Rightarrow> helper_calls \<Rightarrow> shader_stage \<Rightarrow> string
       \<Rightarrow> helper_outcome option \<times> helper_world" where
  "compile_inner rc tx path c stage source =
     (let w = helper_start in
      case path of
        None \<Rightarrow> (Some (HoUnavailable ''not configured''), w)
      | Some _ \<Rightarrow>
          (case write_frame vec_write_all ShaderCompileRequestV1 (rc_serialize rc (request_record stage source)) [] of
             (Inl e, _) \<Rightarrow> (Some (HoUnavailable (helper_bounded (write_error_text e))), w)
           | (Inr _, wire) \<Rightarrow>
               if 2 ^ 31 \<le> hq_own_pid c then (Some (HoUnavailable ''renderer pid overflow''), w)
               else
                 (case hq_spawned c of
                    Inl e \<Rightarrow> (Some (HoUnavailable (helper_bounded e)), w)
                  | Inr pid \<Rightarrow>
                      (let w = w\<lparr>hw_child := LifeRunning\<rparr> in
                       if \<not> hq_stdin_taken c
                       then (Some (HoUnavailable ''stdin not captured''), helper_kill_and_reap pid w)
                       else
                         (case hq_stdin_written c of
                            None \<Rightarrow> (None, w)
                          | Some (Inl e) \<Rightarrow> (Some (HoUnavailable (helper_bounded e)), helper_kill_and_reap pid w)
                          | Some (Inr _) \<Rightarrow> wait_and_read rc tx c pid w)))))"

section \<open>Diagnostics\<close>

record shader_helper =
  sh_path :: "string option"
  sh_logged_unimplemented :: bool
  sh_logged_protocol_error :: bool
  sh_logged_unavailable :: bool
  sh_logged_timeout :: bool
  sh_compiled_count :: u64
  sh_lines :: "string list"

definition shader_helper_new :: "string option \<Rightarrow> string option \<Rightarrow> shader_helper" where
  "shader_helper_new explicit_path beside =
     \<lparr>sh_path = (case explicit_path of Some p \<Rightarrow> Some p | None \<Rightarrow> beside),
      sh_logged_unimplemented = False, sh_logged_protocol_error = False, sh_logged_unavailable = False,
      sh_logged_timeout = False, sh_compiled_count = 0, sh_lines = []\<rparr>"

definition outcome_line :: "helper_outcome \<Rightarrow> string option \<Rightarrow> string" where
  "outcome_line res detail =
     ''event=renderer.scene.shader_helper_outcome class='' @ outcome_class res
     @ (case detail of None \<Rightarrow> [] | Some d \<Rightarrow> '' detail='' @ d)"

definition say_line :: "string \<Rightarrow> shader_helper \<Rightarrow> shader_helper" where
  "say_line l h = h\<lparr>sh_lines := sh_lines h @ [l]\<rparr>"

fun log_once :: "helper_outcome \<Rightarrow> shader_helper \<Rightarrow> shader_helper" where
  "log_once HoUnimplemented h =
     (if sh_logged_unimplemented h then h
      else say_line (outcome_line HoUnimplemented None) (h\<lparr>sh_logged_unimplemented := True\<rparr>))"
| "log_once (HoProtocolError d) h =
     (if sh_logged_protocol_error h then h
      else say_line (outcome_line (HoProtocolError d) (Some d)) (h\<lparr>sh_logged_protocol_error := True\<rparr>))"
| "log_once (HoUnavailable d) h =
     (if sh_logged_unavailable h then h
      else say_line (outcome_line (HoUnavailable d) (Some d)) (h\<lparr>sh_logged_unavailable := True\<rparr>))"
| "log_once HoTimeout h =
     (if sh_logged_timeout h then h
      else say_line (outcome_line HoTimeout None) (h\<lparr>sh_logged_timeout := True\<rparr>))"
| "log_once (HoCompiled ws r) h = h\<lparr>sh_compiled_count := sh_compiled_count h + 1\<rparr>"
| "log_once (HoCompileError l) h = h"

definition helper_drop :: "shader_helper \<Rightarrow> shader_helper" where
  "helper_drop h =
     (if 0 < sh_compiled_count h
      then say_line (''event=shader_helper.compiled count='' @ show_nat (unat (sh_compiled_count h))) h else h)"

definition helper_compile ::
    "record_codec \<Rightarrow> system_texts \<Rightarrow> helper_calls \<Rightarrow> shader_stage \<Rightarrow> string \<Rightarrow> shader_helper
       \<Rightarrow> helper_outcome option \<times> shader_helper" where
  "helper_compile rc tx c stage source h =
     (case fst (compile_inner rc tx (sh_path h) c stage source) of
        None \<Rightarrow> (None, h)
      | Some res \<Rightarrow> (Some res, log_once res h))"

section \<open>The fallback\<close>

datatype compile_error = CompUnavailable | CompFailed string | CompTooLarge nat nat

definition max_shader_text_bytes :: nat where "max_shader_text_bytes = 256 * 1024"

text \<open>
  \<open>materialshader::compile_stage\<close>: \<open>available\<close> says whether the library's compiler exists, and the
  answer is the one the helper thread sent within its time, if any.
\<close>

definition compile_stage ::
    "bool \<Rightarrow> (string, u32 list) result option \<Rightarrow> string \<Rightarrow> (compile_error, u32 list) result" where
  "compile_stage available answer source =
     (if max_shader_text_bytes < length source then Inl (CompTooLarge (length source) max_shader_text_bytes)
      else if \<not> available then Inl CompUnavailable
      else
        (case answer of
           Some (Inr ws) \<Rightarrow> Inr ws
         | Some (Inl d) \<Rightarrow> Inl (CompFailed d)
         | None \<Rightarrow> Inl (CompFailed ''compile exceeded the 5s bound'')))"

definition compile_stage_or_fallback ::
    "record_codec \<Rightarrow> system_texts \<Rightarrow> helper_calls \<Rightarrow> bool \<Rightarrow> (string, u32 list) result option \<Rightarrow> shader_stage \<Rightarrow> string
       \<Rightarrow> shader_helper \<Rightarrow> (compile_error, u32 list) result option \<times> shader_helper" where
  "compile_stage_or_fallback rc tx c available answer stage source h =
     (case helper_compile rc tx c stage source h of
        (None, h) \<Rightarrow> (None, h)
      | (Some (HoCompiled ws _), h) \<Rightarrow> (Some (Inr ws), h)
      | (Some (HoCompileError log), h) \<Rightarrow> (Some (Inl (CompFailed log)), h)
      | (Some _, h) \<Rightarrow> (Some (compile_stage available answer source), h))"

end
