(* ===== verification/Shader_Exchange.thy ===== *)
theory Shader_Exchange
  imports Shader_Helper
begin

text \<open>
  The two ends of the shader helper together: what the renderer gets is what the helper compiled, and
  nothing that the helper did not finish is taken for compiled words. Then the containment of the
  process, the bound on the diagnostics, and two limits of the channel that its constants hide.
\<close>

section \<open>What the helper writes\<close>

definition chunk_frame :: "u8 list \<Rightarrow> report_frame" where
  "chunk_frame c = \<lparr>rf_kind = SpirvChunkV1, rf_payload = c\<rparr>"

definition response_frame :: "record_codec \<Rightarrow> record_value \<Rightarrow> report_frame" where
  "response_frame rc v = \<lparr>rf_kind = ShaderCompileResponseV1, rf_payload = rc_serialize rc v\<rparr>"

lemma chunk_frame_simps [simp]: "rf_kind (chunk_frame c) = SpirvChunkV1" "rf_payload (chunk_frame c) = c"
  by (simp_all add: chunk_frame_def)

lemma frames_bytes_simps [simp]:
  "frames_bytes [] = []"
  "frames_bytes (f # fs) = frame_header (rf_kind f) (length (rf_payload f)) @ rf_payload f @ frames_bytes fs"
  by (simp_all add: frames_bytes_def)

lemma write_response_vec:
  "length (rc_serialize rc v) \<le> max_payload_bytes \<Longrightarrow>
   write_response rc vec_write_all v w = w @ frames_bytes [response_frame rc v]"
  by (simp add: write_response_def write_frame_def vec_write_all_def response_frame_def)

lemma write_chunks_vec:
  "\<forall>c \<in> set cs. length c \<le> max_payload_bytes \<Longrightarrow>
   write_chunks vec_write_all cs w = w @ frames_bytes (map chunk_frame cs)"
  by (induction cs arbitrary: w) (simp_all add: write_frame_def vec_write_all_def)

lemma respond_ok_vec:
  assumes "length (rc_serialize rc (ok_record (length (byte_chunks max_payload_bytes spirv)) (length spirv))) \<le> max_payload_bytes"
  shows "respond_ok rc vec_write_all spirv w =
     w @ frames_bytes (response_frame rc (ok_record (length (byte_chunks max_payload_bytes spirv)) (length spirv))
                         # map chunk_frame (byte_chunks max_payload_bytes spirv))"
  using byte_chunks_size [of _ max_payload_bytes spirv]
  by (simp add: respond_ok_def Let_def write_response_vec [OF assms] write_chunks_vec)

section \<open>What the renderer puts together\<close>

lemma read_chunks_written:
  assumes "clean_stream (fr_events r)" "stream_bytes (fr_events r) = frames_bytes (map chunk_frame cs)"
    "\<forall>c \<in> set cs. length c \<le> max_payload_bytes"
    "fr_frames_read r + length cs \<le> sc_max_frames (fr_caps r)"
    "fr_total_bytes r + length (concat cs) \<le> sc_max_total (fr_caps r)"
  shows "\<exists>r'. read_chunks tx declared (length cs) i r acc = Inr (acc @ concat cs, r') \<and> fst (next_frame r') = Inr None"
  using assms
proof (induction cs arbitrary: r i acc)
  case Nil
  then show ?case by (simp add: next_frame_end)
next
  case (Cons c cs)
  obtain r' where r': "next_frame r = (Inr (Some (chunk_frame c)), r')" "clean_stream (fr_events r')"
    "stream_bytes (fr_events r') = frames_bytes (map chunk_frame cs)" "fr_total_bytes r' = fr_total_bytes r + length c"
    "fr_frames_read r' = Suc (fr_frames_read r)" "fr_caps r' = fr_caps r"
    using next_frame_written [of r "chunk_frame c" "frames_bytes (map chunk_frame cs)"] Cons.prems
    by (auto simp: frame_fits_def)
  have "\<exists>r''. read_chunks tx declared (length cs) (i + 1) r' (acc @ c) = Inr ((acc @ c) @ concat cs, r'')
      \<and> fst (next_frame r'') = Inr None"
    using Cons.prems r' by (intro Cons.IH) auto
  then show ?case using r'(1) by simp
qed

lemma read_chunks_frames:
  assumes "read_chunks tx declared n i r acc = Inr (bs, r')"
  shows "\<exists>cs. length cs = n \<and> bs = acc @ concat cs
     \<and> read_stream r = (map chunk_frame cs @ fst (read_stream r'), snd (read_stream r'))"
  using assms
proof (induction tx declared n i r acc rule: read_chunks.induct)
  case (1 tx declared i r acc)
  then show ?case by simp
next
  case (2 tx declared left i r acc)
  obtain f r1 where step: "next_frame r = (Inr (Some f), r1)" "rf_kind f = SpirvChunkV1"
    and rest: "read_chunks tx declared left (i + 1) r1 (acc @ rf_payload f) = Inr (bs, r')"
    using "2.prems" by (auto split: prod.splits sum.splits option.splits if_splits)
  obtain cs where cs: "length cs = left" "bs = (acc @ rf_payload f) @ concat cs"
      "read_stream r1 = (map chunk_frame cs @ fst (read_stream r'), snd (read_stream r'))"
    using "2.IH" [OF step(1) [symmetric] refl refl step(2) rest] by blast
  have f: "f = chunk_frame (rf_payload f)" using step(2) by (cases f) (simp add: chunk_frame_def)
  have "read_stream r = (f # map chunk_frame cs @ fst (read_stream r'), snd (read_stream r'))"
    using step(1) cs(3) by (subst read_stream.simps) simp
  then have "length (rf_payload f # cs) = Suc left \<and> bs = acc @ concat (rf_payload f # cs)
      \<and> read_stream r = (map chunk_frame (rf_payload f # cs) @ fst (read_stream r'), snd (read_stream r'))"
    using cs f by simp
  then show ?case by blast
qed

fun words_bytes :: "u32 list \<Rightarrow> u8 list" where
  "words_bytes [] = []"
| "words_bytes (w # ws) = le_bytes 4 (unat w) @ words_bytes ws"

lemma le_bytes_le_nat: "le_bytes (length bs) (le_nat bs) = bs"
proof (induction bs)
  case (Cons b bs)
  have "unat b < 256" using unsigned_less [of b] by simp
  then show ?case using Cons by (simp add: word_of_nat_eq_iff take_bit_eq_mod)
qed simp

section \<open>One exchange\<close>

definition json_round_trip :: "record_codec \<Rightarrow> record_value \<Rightarrow> bool" where
  "json_round_trip rc v \<longleftrightarrow> rc_parse rc (rc_serialize rc v) = Inr v"

definition spec_options :: resolved_options where
  "spec_options = \<lparr>ro_target_env = TargetVulkan, ro_env_version = Vulkan1_2, ro_optimization = OptZero\<rparr>"

fun answer_record :: "(string, u8 list) result \<Rightarrow> record_value" where
  "answer_record (Inr spirv) = ok_record (length (byte_chunks max_payload_bytes spirv)) (length spirv)"
| "answer_record (Inl log) = compile_error_record log"

fun answer_chunks :: "(string, u8 list) result \<Rightarrow> u8 list list" where
  "answer_chunks (Inr spirv) = byte_chunks max_payload_bytes spirv"
| "answer_chunks (Inl log) = []"

fun delivered_outcome :: "(string, u8 list) result \<Rightarrow> helper_outcome" where
  "delivered_outcome (Inr spirv) = HoCompiled (ne_words spirv) (answer_record (Inr spirv))"
| "delivered_outcome (Inl log) = HoCompileError (helper_bounded (bounded_text max_compile_log_bytes log))"

fun answer_size :: "(string, u8 list) result \<Rightarrow> nat" where
  "answer_size (Inr spirv) = length spirv"
| "answer_size (Inl log) = 0"

definition answer_fits :: "record_codec \<Rightarrow> (string, u8 list) result \<Rightarrow> bool" where
  "answer_fits rc a \<longleftrightarrow> length (rc_serialize rc (answer_record a)) \<le> max_payload_bytes
     \<and> answer_size a mod 4 = 0 \<and> answer_size a + length (rc_serialize rc (answer_record a)) \<le> max_spirv_total_bytes"

lemma request_accepted:
  assumes "json_round_trip rc (request_record stage source)" "length source \<le> max_bytes"
  shows "validate_shader_request rc (rc_serialize rc (request_record stage source)) max_bytes
     = Inr (request_record stage source)"
  using assms
  by (cases stage)
     (simp_all add: json_round_trip_def validate_shader_request_def request_record_def shader_require_str_def
        shader_require_object_def require_field_def validate_options_def option_fields_def max_shader_option_bytes_def
        spec_target_env_def spec_env_version_def spec_optimization_def)

lemma request_options: "resolve_wire_options (value_at [''options''] (request_record stage source)) = Inr spec_options"
  by (simp add: request_record_def resolve_wire_options_def wire_option_def env_version_of_def optimization_of_def
      spec_options_def spec_target_env_def spec_env_version_def spec_optimization_def)

lemma request_texts:
  "text_at ''source'' (request_record stage source) = source"
  "text_at ''stage'' (request_record stage source) = stage_text stage"
  by (simp_all add: text_at_def request_record_def)

lemma compile_source_stage: "compile_source shaderc source (stage_text stage) opts = shaderc source stage opts"
  by (cases stage) (simp_all add: compile_source_def)

lemma answer_request_vec:
  assumes "shaderc source stage spec_options = Some a" "length (rc_serialize rc (answer_record a)) \<le> max_payload_bytes"
  shows "answer_request rc shaderc vec_write_all (request_record stage source) []
     = (exit_ok, frames_bytes (response_frame rc (answer_record a) # map chunk_frame (answer_chunks a)))"
  using assms
  by (cases a)
     (simp_all add: answer_request_def request_options request_texts compile_source_stage respond_ok_vec
        respond_compile_error_def write_response_vec del: frames_bytes_simps)

lemma helper_run_request:
  assumes sent: "write_frame vec_write_all ShaderCompileRequestV1 (rc_serialize rc (request_record stage source)) [] = (Inr (), wire)"
    and stdin: "clean_stream stdin" "stream_bytes stdin = wire"
    and json: "json_round_trip rc (request_record stage source)" and small: "length source \<le> max_bytes"
  shows "helper_run rc shaderc wr max_bytes stdin w = answer_request rc shaderc wr (request_record stage source) w"
proof -
  let ?f = "\<lparr>rf_kind = ShaderCompileRequestV1, rf_payload = rc_serialize rc (request_record stage source)\<rparr>"
  let ?r = "reader_with_caps stdin caps_shader_request"
  have fits: "frame_fits ?f" and wire: "wire = frame_header (rf_kind ?f) (length (rf_payload ?f)) @ rf_payload ?f @ []"
    using sent by (auto simp: write_frame_def vec_write_all_def frame_fits_def split: if_splits)
  obtain r' where r': "next_frame ?r = (Inr (Some ?f), r')" "clean_stream (fr_events r')" "stream_bytes (fr_events r') = []"
    using next_frame_written [of ?r ?f "[]"] stdin wire fits
    by (auto simp: reader_with_caps_def caps_shader_request_def shader_request_max_total_def
        shader_request_max_frames_def frame_fits_def max_payload_bytes_def)
  obtain r2 where "next_frame r' = (Inr None, r2)" using next_frame_end [OF r'(2,3)] by (cases "next_frame r'") auto
  then show ?thesis using r'(1) request_accepted [OF json small] by (simp add: helper_run_def)
qed

lemma byte_chunks_count:
  assumes "length bs \<le> max_spirv_total_bytes"
  shows "length (byte_chunks max_payload_bytes bs) \<le> 128"
proof -
  have "(length bs + 65535) div 65536 \<le> (8388608 + 65535) div 65536"
    using assms by (intro div_le_mono) (simp add: max_spirv_total_bytes_def shader_response_max_total_def)
  then show ?thesis by (simp add: length_byte_chunks max_payload_bytes_def)
qed

lemma unat_small: "n \<le> 8388608 \<Longrightarrow> unat (word_of_nat n :: u64) = n"
  by (simp add: unat_of_nat)

lemma ok_record_accepted:
  assumes "json_round_trip rc (ok_record n m)" "n \<le> max_spirv_chunks" "m \<le> max_spirv_total_bytes"
  shows "validate_shader_response rc (rc_serialize rc (ok_record n m)) = Inr (ok_record n m)"
  using assms
  by (simp add: json_round_trip_def validate_shader_response_def ok_record_def response_require_str_def
      response_require_u64_def require_field_def max_spirv_chunks_def max_spirv_total_bytes_def
      shader_response_max_frames_def shader_response_max_total_def unat_small)

lemma compile_error_record_accepted:
  assumes "json_round_trip rc (compile_error_record log)"
  shows "validate_shader_response rc (rc_serialize rc (compile_error_record log)) = Inr (compile_error_record log)"
  using assms bounded_text_length [of max_compile_log_bytes log]
  by (simp add: json_round_trip_def validate_shader_response_def compile_error_record_def response_require_str_def
      require_field_def)

lemma helper_finalize_first:
  assumes "length (rc_serialize rc v) \<le> max_payload_bytes"
  obtains r' where
    "next_frame (reader_with_caps (cursor_bytes (frames_bytes (response_frame rc v # fs))) caps_shader_response)
       = (Inr (Some (response_frame rc v)), r')"
    "clean_stream (fr_events r')" "stream_bytes (fr_events r') = frames_bytes fs"
    "fr_total_bytes r' = length (rc_serialize rc v)" "fr_frames_read r' = 1" "fr_caps r' = caps_shader_response"
proof -
  let ?f = "response_frame rc v"
  let ?r = "reader_with_caps (cursor_bytes (frames_bytes (?f # fs))) caps_shader_response"
  have "frame_header (rf_kind ?f) n \<noteq> []" for n by (simp add: frame_header_def report_magic_def)
  then show ?thesis
    using next_frame_written [of ?r ?f "frames_bytes fs"] that assms
    by (auto simp: reader_with_caps_def cursor_bytes_def response_frame_def frame_fits_def caps_shader_response_def
        shader_response_max_total_def shader_response_max_frames_def max_payload_bytes_def)
qed

lemma reassemble_written:
  assumes r: "clean_stream (fr_events r)" "stream_bytes (fr_events r) = frames_bytes (map chunk_frame cs)"
      "fr_frames_read r = 1" "fr_caps r = caps_shader_response"
    and cs: "\<forall>c \<in> set cs. length c \<le> max_payload_bytes" "length cs \<le> 128"
    and size: "length (concat cs) mod 4 = 0" "fr_total_bytes r + length (concat cs) \<le> max_spirv_total_bytes"
  shows "reassemble_ok tx r (ok_record (length cs) (length (concat cs)))
     = HoCompiled (ne_words (concat cs)) (ok_record (length cs) (length (concat cs)))"
proof -
  have "fr_frames_read r + length cs \<le> sc_max_frames (fr_caps r)"
    "fr_total_bytes r + length (concat cs) \<le> sc_max_total (fr_caps r)"
    using r(3,4) cs(2) size(2)
    by (simp_all add: caps_shader_response_def shader_response_max_frames_def max_spirv_total_bytes_def)
  then obtain r' where "read_chunks tx (length cs) (length cs) 0 r [] = Inr ([] @ concat cs, r')"
      "fst (next_frame r') = Inr None"
    using read_chunks_written [OF r(1,2) cs(1), of tx "length cs" 0 "[]"] by blast
  moreover have "unat (word_of_nat (length cs) :: u64) = length cs"
    "unat (word_of_nat (length (concat cs)) :: u64) = length (concat cs)"
    using cs(2) size(2)
    by (intro unat_small; simp add: max_spirv_total_bytes_def shader_response_max_total_def)+
  ultimately show ?thesis using size(1) by (simp add: reassemble_ok_def ok_record_def)
qed

text \<open>
  C7: The exchange delivers what the compiler gave. The request that the renderer sends is accepted by
  the helper however the pipe cuts it, is compiled with exactly its source, stage and options, and the
  renderer puts the answer back together: the same words when the compiler succeeded, its log, cut to
  the limits of both ends, when it refused. The JSON library reads back the two records, and the
  answer fits the channel.
\<close>

theorem shader_exchange_delivers:
  assumes "write_frame vec_write_all ShaderCompileRequestV1 (rc_serialize rc (request_record stage source)) [] = (Inr (), wire)"
    and "clean_stream stdin" "stream_bytes stdin = wire" "length source \<le> max_bytes"
    and "json_round_trip rc (request_record stage source)" "json_round_trip rc (answer_record a)"
    and "shaderc source stage spec_options = Some a" "answer_fits rc a"
  shows "\<exists>out. helper_run rc shaderc vec_write_all max_bytes stdin [] = (exit_ok, out)
             \<and> helper_finalize rc tx out = delivered_outcome a"
proof -
  have fits: "length (rc_serialize rc (answer_record a)) \<le> max_payload_bytes" using assms(8) by (simp add: answer_fits_def)
  let ?out = "frames_bytes (response_frame rc (answer_record a) # map chunk_frame (answer_chunks a))"
  have "helper_run rc shaderc vec_write_all max_bytes stdin [] = (exit_ok, ?out)"
    by (simp only: helper_run_request [OF assms(1,2,3,5,4)] answer_request_vec [where shaderc = shaderc, OF assms(7) fits])
  moreover obtain r where r: "next_frame (reader_with_caps (cursor_bytes ?out) caps_shader_response)
        = (Inr (Some (response_frame rc (answer_record a))), r)"
      "clean_stream (fr_events r)" "stream_bytes (fr_events r) = frames_bytes (map chunk_frame (answer_chunks a))"
      "fr_total_bytes r = length (rc_serialize rc (answer_record a))" "fr_frames_read r = 1"
      "fr_caps r = caps_shader_response"
    by (rule helper_finalize_first [OF fits])
  moreover have "helper_finalize rc tx ?out = delivered_outcome a"
  proof (cases a)
    case (Inl log)
    then show ?thesis using r(1) assms(6) compile_error_record_accepted [of rc log]
      by (simp add: helper_finalize_def response_frame_def) (simp add: compile_error_record_def text_or_def)
  next
    case (Inr spirv)
    let ?cs = "byte_chunks max_payload_bytes spirv"
    have spirv: "concat ?cs = spirv" by (rule concat_byte_chunks) (simp add: max_payload_bytes_def)
    have room: "length spirv mod 4 = 0" "length spirv + length (rc_serialize rc (answer_record a)) \<le> max_spirv_total_bytes"
      using assms(8) Inr by (simp_all add: answer_fits_def)
    then have count: "length ?cs \<le> 128" by (intro byte_chunks_count) simp
    have "reassemble_ok tx r (ok_record (length ?cs) (length (concat ?cs)))
        = HoCompiled (ne_words (concat ?cs)) (ok_record (length ?cs) (length (concat ?cs)))"
      using r(2-6) room count Inr byte_chunks_size [of _ max_payload_bytes spirv]
      by (intro reassemble_written) (simp_all add: spirv)
    moreover have "validate_shader_response rc (rc_serialize rc (ok_record (length ?cs) (length spirv)))
        = Inr (ok_record (length ?cs) (length spirv))"
      using assms(6) Inr count room
      by (intro ok_record_accepted) (simp_all add: max_spirv_chunks_def shader_response_max_frames_def)
    ultimately show ?thesis using r(1) Inr spirv
      by (simp add: helper_finalize_def response_frame_def) (simp add: ok_record_def)
  qed
  ultimately show ?thesis by blast
qed

section \<open>Only complete words\<close>

lemma le_bytes_4: "length bs = 4 \<Longrightarrow> le_bytes 4 (le_nat bs) = bs"
  using le_bytes_le_nat [of bs] by simp

lemma unat_u32_small: "n < 4294967296 \<Longrightarrow> unat (word_of_nat n :: u32) = n"
  by (simp add: unat_of_nat)

lemma words_bytes_ne_words: "length bs mod 4 = 0 \<Longrightarrow> words_bytes (ne_words bs) = bs"
proof (induction bs rule: ne_words.induct)
  case (1 a b c d rest)
  have "le_nat [a, b, c, d] < 4294967296" using le_nat_less [of "[a, b, c, d]"] by simp
  then have "unat (word_of_nat (le_nat [a, b, c, d]) :: u32) = le_nat [a, b, c, d]" by (rule unat_u32_small)
  moreover have "le_bytes 4 (le_nat [a, b, c, d]) = [a, b, c, d]"
    by (rule le_bytes_4) simp
  moreover have "length rest mod 4 = 0" using "1.prems" by simp
  ultimately show ?case using "1.IH" by (simp del: le_nat.simps)
qed (simp_all)

definition complete_answer :: "record_codec \<Rightarrow> u8 list \<Rightarrow> record_value \<Rightarrow> u8 list \<Rightarrow> u8 list list \<Rightarrow> bool" where
  "complete_answer rc out response payload chunks \<longleftrightarrow>
     read_stream (reader_with_caps (cursor_bytes out) caps_shader_response)
       = (\<lparr>rf_kind = ShaderCompileResponseV1, rf_payload = payload\<rparr> # map chunk_frame chunks, None)
     \<and> validate_shader_response rc payload = Inr response
     \<and> Option.bind (value_at [''spirv_chunks''] response) pick_u64 = Some (word_of_nat (length chunks))
     \<and> Option.bind (value_at [''spirv_total_bytes''] response) pick_u64 = Some (word_of_nat (length (concat chunks)))"

lemma reassemble_ok_complete:
  assumes "reassemble_ok tx r response = HoCompiled ws v"
  shows "v = response \<and> (\<exists>cs. read_stream r = (map chunk_frame cs, None) \<and> words_bytes ws = concat cs
     \<and> Option.bind (value_at [''spirv_chunks''] response) pick_u64 = Some (word_of_nat (length cs))
     \<and> Option.bind (value_at [''spirv_total_bytes''] response) pick_u64 = Some (word_of_nat (length (concat cs))))"
proof -
  obtain chunks len bs r' where fields: "Option.bind (value_at [''spirv_chunks''] response) pick_u64 = Some chunks"
      "Option.bind (value_at [''spirv_total_bytes''] response) pick_u64 = Some len"
    and read: "read_chunks tx (unat chunks) (unat chunks) 0 r [] = Inr (bs, r')"
    and last: "fst (next_frame r') = Inr None" and len: "length bs = unat len" "length bs mod 4 = 0"
    and ws: "ws = ne_words bs" "v = response"
    using assms by (auto simp: reassemble_ok_def split: option.splits sum.splits prod.splits if_splits)
  obtain cs where cs: "length cs = unat chunks" "bs = concat cs"
      "read_stream r = (map chunk_frame cs @ fst (read_stream r'), snd (read_stream r'))"
    using read_chunks_frames [OF read] by auto
  have "read_stream r' = ([], None)" using last by (subst read_stream.simps) (auto split: prod.splits)
  then have "read_stream r = (map chunk_frame cs, None)" using cs(3) by simp
  moreover have "chunks = word_of_nat (length cs)" "len = word_of_nat (length (concat cs))"
    using cs(1,2) len(1) by (simp_all del: length_concat)
  ultimately show ?thesis using fields ws len(2) cs(2) words_bytes_ne_words by (metis (no_types, lifting))
qed

lemma helper_finalize_complete:
  assumes "helper_finalize rc tx out = HoCompiled ws response"
  shows "\<exists>payload chunks. complete_answer rc out response payload chunks \<and> words_bytes ws = concat chunks"
proof -
  let ?r = "reader_with_caps (cursor_bytes out) caps_shader_response"
  obtain f r where first: "next_frame ?r = (Inr (Some f), r)" "rf_kind f = ShaderCompileResponseV1"
      "validate_shader_response rc (rf_payload f) = Inr response"
      "reassemble_ok tx r response = HoCompiled ws response"
    using assms reassemble_ok_complete
    by (fastforce simp: helper_finalize_def Let_def split: prod.splits sum.splits option.splits if_splits)
  obtain cs where cs: "read_stream r = (map chunk_frame cs, None)" "words_bytes ws = concat cs"
      "Option.bind (value_at [''spirv_chunks''] response) pick_u64 = Some (word_of_nat (length cs))"
      "Option.bind (value_at [''spirv_total_bytes''] response) pick_u64 = Some (word_of_nat (length (concat cs)))"
    using reassemble_ok_complete [OF first(4)] by blast
  have "read_stream ?r = (f # map chunk_frame cs, None)" using first(1) cs(1) by (subst read_stream.simps) simp
  moreover have "f = \<lparr>rf_kind = ShaderCompileResponseV1, rf_payload = rf_payload f\<rparr>" using first(2) by (cases f) simp
  ultimately show ?thesis using first(3) cs unfolding complete_answer_def by metis
qed

text \<open>
  C8: The renderer takes compiled words only from a complete answer: what the helper wrote is a valid
  response frame, then exactly as many chunk frames as it declared with exactly the bytes it declared,
  then the end of the stream, and the words are those bytes. A helper that died in between, or added
  anything, gives no words.
\<close>

theorem shader_words_complete:
  assumes "helper_finalize rc tx out = HoCompiled ws response"
  shows "\<exists>payload chunks. complete_answer rc out response payload chunks \<and> words_bytes ws = concat chunks"
  by (rule helper_finalize_complete [OF assms])

section \<open>The limits of the channel\<close>

text \<open>
  The response may declare \<open>max_spirv_total_bytes\<close>, and 128 chunks of full size make exactly that. The
  payload of the response frame counts against the same total, so no such answer is ever delivered.
\<close>

lemma compiled_below_declared_limit:
  assumes "helper_finalize rc tx out = HoCompiled ws response" "\<nexists>v. rc_parse rc [] = Inr v"
  shows "4 * length ws < max_spirv_total_bytes"
proof -
  obtain payload cs where c: "complete_answer rc out response payload cs" "words_bytes ws = concat cs"
    using helper_finalize_complete [OF assms(1)] by blast
  let ?r = "reader_with_caps (cursor_bytes out) caps_shader_response"
  have "fst (read_stream ?r) = \<lparr>rf_kind = ShaderCompileResponseV1, rf_payload = payload\<rparr> # map chunk_frame cs"
    using c(1) by (simp add: complete_answer_def)
  from read_stream_bounds [OF this]
  have "length payload + frames_payload (map chunk_frame cs) \<le> max_spirv_total_bytes"
    by (simp add: reader_with_caps_def caps_shader_response_def max_spirv_total_bytes_def)
  moreover have "frames_payload (map chunk_frame cs) = length (concat cs)"
    by (induction cs) (simp_all add: frames_payload_def)
  moreover have "payload \<noteq> []" using c(1) assms(2)
    by (auto simp: complete_answer_def validate_shader_response_def result_simps)
  moreover have "length (words_bytes us) = 4 * length us" for us by (induction us) simp_all
  then have "4 * length ws = length (concat cs)" using c(2) by metis
  ultimately show ?thesis by (cases payload) (simp_all del: length_concat)
qed

text \<open>
  The helper accepts sources of up to 256 KiB, but a request is one frame of at most 64 KiB: with a
  longer source the renderer starts no helper at all.
\<close>

lemma large_source_starts_no_helper:
  assumes "max_payload_bytes < length (rc_serialize rc (request_record stage source))" "path \<noteq> None"
  shows "\<exists>d. compile_inner rc tx path c stage source = (Some (HoUnavailable d), helper_start)"
  using assms by (auto simp: compile_inner_def write_frame_def)

section \<open>The process\<close>

definition own_signals :: "nat \<Rightarrow> helper_world \<Rightarrow> bool" where
  "own_signals pid w \<longleftrightarrow> (\<forall>s \<in> set (hw_signals w). fst s = int pid)"

lemma helper_world_steps:
  "own_signals pid w \<Longrightarrow> own_signals pid (helper_kill_and_reap pid w)"
  "own_signals pid w \<Longrightarrow> own_signals pid (helper_terminate_and_reap pid gone polls w)"
  "own_signals pid (helper_reap w) \<longleftrightarrow> own_signals pid w"
  "hw_child (helper_kill_and_reap pid w) = LifeReaped" "hw_child (helper_reap w) = LifeReaped"
  "pid < 2 ^ 31 \<Longrightarrow> hw_child (helper_terminate_and_reap pid gone polls w) = LifeReaped"
  by (auto simp: own_signals_def helper_kill_and_reap_def helper_terminate_and_reap_def helper_reap_def
      helper_signal_def Let_def)

lemma helper_loop_world:
  assumes "helper_loop rc tx pid ts out err w = (res, w')" "own_signals pid w" "pid < 2 ^ 31"
  shows "own_signals pid w' \<and> (res \<noteq> None \<longrightarrow> hw_child w' = LifeReaped)"
  using assms
  by (induction rc tx pid ts out err w rule: helper_loop.induct)
     (auto simp: Let_def helper_world_steps split: prod.splits poll_result.splits if_splits)

text \<open>
  C20: The helper process is contained: a call of the renderer that returns leaves it reaped, and the
  only process that is ever signalled is that child, by its own positive number, so the process group
  that it shares with the renderer is never hit.
\<close>

theorem shader_helper_contained:
  assumes "compile_inner rc tx path c stage source = (Some res, w)"
    and "\<forall>pid. hq_spawned c = Inr pid \<longrightarrow> 0 < pid \<and> pid < 2 ^ 31"
  shows "hw_child w \<noteq> LifeRunning
       \<and> (\<forall>s \<in> set (hw_signals w). \<exists>pid. hq_spawned c = Inr pid \<and> fst s = int pid \<and> 0 < fst s)"
proof (cases "hq_spawned c")
  case (Inl e)
  then show ?thesis using assms(1)
    by (auto simp: compile_inner_def helper_start_def Let_def split: option.splits prod.splits sum.splits if_splits)
next
  case (Inr pid)
  have small: "0 < pid" "pid < 2 ^ 31" using assms(2) Inr by auto
  have "own_signals pid helper_start" "own_signals pid (helper_start\<lparr>hw_child := LifeRunning\<rparr>)"
    by (simp_all add: own_signals_def helper_start_def)
  then have "own_signals pid w \<and> hw_child w \<noteq> LifeRunning"
    using assms(1) Inr small(2) helper_loop_world [of rc tx pid]
    by (auto simp: compile_inner_def wait_and_read_def Let_def helper_world_steps helper_start_def
        split: option.splits prod.splits sum.splits if_splits)
  then show ?thesis using small(1) Inr by (auto simp: own_signals_def)
qed

section \<open>The diagnostics\<close>

definition logged_classes :: "shader_helper \<Rightarrow> nat" where
  "logged_classes h = of_bool (sh_logged_unimplemented h) + of_bool (sh_logged_protocol_error h)
     + of_bool (sh_logged_unavailable h) + of_bool (sh_logged_timeout h)"

lemma log_once_counts:
  "length (sh_lines h) = logged_classes h \<Longrightarrow> length (sh_lines (log_once res h)) = logged_classes (log_once res h)"
  by (cases res) (simp_all add: logged_classes_def say_line_def)

text \<open>However many materials compile, a process prints each kind of failure once.\<close>

lemma diagnostics_bounded:
  "length (sh_lines (fold log_once outcomes (shader_helper_new explicit_path beside))) \<le> 4"
proof -
  have "length (sh_lines (fold log_once outcomes h)) = logged_classes (fold log_once outcomes h)"
    if "length (sh_lines h) = logged_classes h" for h
    using that by (induction outcomes arbitrary: h) (simp_all add: log_once_counts)
  then have "length (sh_lines (fold log_once outcomes (shader_helper_new explicit_path beside)))
      = logged_classes (fold log_once outcomes (shader_helper_new explicit_path beside))"
    by (simp add: shader_helper_new_def logged_classes_def)
  then show ?thesis by (simp add: logged_classes_def of_bool_def split: if_splits)
qed

end
