(* ===== verification/Shader_Samples.thy ===== *)
theory Shader_Samples
  imports Shader_Exchange
begin

text \<open>
  One exchange on concrete bytes, for the properties of the shader helper: a codec that knows the two
  records of a one-word shader, and a compiler that gives that word.
\<close>

definition sample_request :: record_value where "sample_request = request_record StageFragment ''x''"
definition sample_spirv :: "(string, u8 list) result" where "sample_spirv = Inr [1, 0, 0, 0]"

definition sample_shader_codec :: record_codec where
  "sample_shader_codec =
     \<lparr>rc_parse = (\<lambda>bs. if bs = [1] then Inr sample_request
                        else if bs = [2] then Inr (ok_record 1 4) else Inl ''syntax''),
      rc_serialize = (\<lambda>v. if v = sample_request then [1] else [2]), rc_sha256_hex = (\<lambda>bs. '''')\<rparr>"

definition sample_shaderc :: shaderc where
  "sample_shaderc source stage options =
     (if source = ''x'' \<and> stage = StageFragment \<and> ro_env_version options = Vulkan1_2 then Some sample_spirv else None)"

definition sample_wire :: "u8 list" where "sample_wire = frame_header ShaderCompileRequestV1 1 @ [1]"

definition sample_texts :: system_texts where "sample_texts = \<lparr>tx_io = (\<lambda>_. ''''), tx_debug = (\<lambda>s. s)\<rparr>"

lemma sample_spirv_record [simp]: "answer_record sample_spirv = ok_record 1 4"
proof -
  have "length (byte_chunks max_payload_bytes [1, 0, 0, 0]) = 1" "length [1, 0, 0, 0 :: u8] = 4"
    by (simp_all add: byte_chunks.simps max_payload_bytes_def)
  then show ?thesis by (simp only: sample_spirv_def answer_record.simps)
qed

lemma sample_records_differ: "ok_record n m \<noteq> sample_request"
  by (simp add: ok_record_def sample_request_def request_record_def)

lemma sample_written:
  "write_frame vec_write_all ShaderCompileRequestV1 (rc_serialize sample_shader_codec sample_request) []
     = (Inr (), sample_wire)"
  by (simp add: write_frame_def vec_write_all_def sample_shader_codec_def sample_wire_def max_payload_bytes_def)

lemma sample_spirv_fits: "answer_fits sample_shader_codec sample_spirv"
  using sample_records_differ [of 1 4]
  by (simp add: answer_fits_def) (simp add: sample_shader_codec_def sample_spirv_def max_payload_bytes_def
      max_spirv_total_bytes_def shader_response_max_total_def)

lemma sample_json:
  "json_round_trip sample_shader_codec sample_request" "json_round_trip sample_shader_codec (ok_record 1 4)"
  using sample_records_differ [of 1 4] by (simp_all add: json_round_trip_def sample_shader_codec_def)

lemma sample_wire_nonempty: "sample_wire \<noteq> []" by (simp add: sample_wire_def)

lemma sample_delivered: "delivered_outcome sample_spirv = HoCompiled [1] (ok_record 1 4)"
  using sample_spirv_record by (simp add: sample_spirv_def)

theorem shader_exchange_delivers_witness:
  "\<exists>out. helper_run sample_shader_codec sample_shaderc vec_write_all 10 [GotBytes sample_wire] [] = (exit_ok, out)
       \<and> helper_finalize sample_shader_codec sample_texts out = HoCompiled [1] (ok_record 1 4)"
proof -
  have compiled: "sample_shaderc ''x'' StageFragment spec_options = Some sample_spirv"
    by (simp add: sample_shaderc_def spec_options_def)
  have "\<exists>out. helper_run sample_shader_codec sample_shaderc vec_write_all 10 [GotBytes sample_wire] [] = (exit_ok, out)
       \<and> helper_finalize sample_shader_codec sample_texts out = delivered_outcome sample_spirv"
    using sample_written sample_json sample_wire_nonempty sample_spirv_fits compiled
    by (intro shader_exchange_delivers [where source = "''x''" and stage = StageFragment and wire = sample_wire])
       (simp_all add: sample_request_def)
  then show ?thesis by (simp only: sample_delivered)
qed

definition sample_out :: "u8 list" where
  "sample_out = frames_bytes (response_frame sample_shader_codec (ok_record 1 4) # map chunk_frame [[1, 0, 0, 0]])"

lemma sample_out_finalized: "helper_finalize sample_shader_codec sample_texts sample_out = HoCompiled [1] (ok_record 1 4)"
proof -
  have fits: "length (rc_serialize sample_shader_codec (ok_record 1 4)) \<le> max_payload_bytes"
    using sample_spirv_fits by (simp add: answer_fits_def)
  have one: "length (rc_serialize sample_shader_codec (ok_record 1 4)) = 1"
    using sample_records_differ [of 1 4] by (simp add: sample_shader_codec_def)
  obtain r where r: "next_frame (reader_with_caps (cursor_bytes sample_out) caps_shader_response)
        = (Inr (Some (response_frame sample_shader_codec (ok_record 1 4))), r)"
      "clean_stream (fr_events r)" "stream_bytes (fr_events r) = frames_bytes (map chunk_frame [[1, 0, 0, 0]])"
      "fr_total_bytes r = length (rc_serialize sample_shader_codec (ok_record 1 4))" "fr_frames_read r = 1"
      "fr_caps r = caps_shader_response"
    unfolding sample_out_def by (rule helper_finalize_first [OF fits])
  let ?cs = "[[1, 0, 0, 0]] :: u8 list list"
  have "reassemble_ok sample_texts r (ok_record (length ?cs) (length (concat ?cs)))
      = HoCompiled (ne_words (concat ?cs)) (ok_record (length ?cs) (length (concat ?cs)))"
    using r(2-6) one by (intro reassemble_written)
      (simp_all add: max_payload_bytes_def max_spirv_total_bytes_def shader_response_max_total_def)
  moreover have "length ?cs = 1" "length (concat ?cs) = 4" "ne_words (concat ?cs) = [1]" by simp_all
  ultimately have "reassemble_ok sample_texts r (ok_record 1 4) = HoCompiled [1] (ok_record 1 4)" by (simp only:)
  moreover have "validate_shader_response sample_shader_codec (rc_serialize sample_shader_codec (ok_record 1 4)) = Inr (ok_record 1 4)"
    using sample_json(2)
    by (intro ok_record_accepted) (simp_all add: max_spirv_chunks_def shader_response_max_frames_def
        max_spirv_total_bytes_def shader_response_max_total_def)
  ultimately show ?thesis using r(1)
    by (simp add: helper_finalize_def response_frame_def) (simp add: ok_record_def)
qed

theorem shader_words_complete_witness:
  "\<exists>payload chunks. complete_answer sample_shader_codec sample_out (ok_record 1 4) payload chunks
     \<and> words_bytes [1] = concat chunks"
  by (rule shader_words_complete [OF sample_out_finalized])

definition sample_helper_calls :: helper_calls where
  "sample_helper_calls =
     \<lparr>hq_own_pid = 7, hq_spawned = Inr 8, hq_stdin_taken = True, hq_stdin_written = Some (Inr ()),
      hq_captured = True, hq_nonblocking = True,
      hq_turns = [\<lparr>ht_stdout = [], ht_stderr = [], ht_poll = PollRunning, ht_poll_text = [], ht_last_stdout = [],
                   ht_last_stderr = [], ht_past_deadline = True, ht_gone = False, ht_grace_polls = [False]\<rparr>]\<rparr>"

lemma sample_timeout:
  "compile_inner sample_shader_codec sample_texts (Some ''helper'') sample_helper_calls StageFragment ''x''
     = (Some HoTimeout, \<lparr>hw_child = LifeReaped, hw_signals = [(8, SigTerm), (8, SigKill)]\<rparr>)"
  using sample_written
  by (simp add: compile_inner_def sample_request_def sample_helper_calls_def wait_and_read_def drain_capped_def
      helper_terminate_and_reap_def helper_signal_def helper_reap_def helper_start_def stderr_chunks_per_tick_def)

theorem shader_helper_contained_witness:
  "hw_child (snd (compile_inner sample_shader_codec sample_texts (Some ''helper'') sample_helper_calls StageFragment ''x''))
     \<noteq> LifeRunning
   \<and> list_all (\<lambda>s. fst s = (8::int)) [(8, SigTerm), (8, SigKill)]"
  unfolding sample_timeout using shader_helper_contained [OF sample_timeout] by (simp add: sample_helper_calls_def)

end
