(* ===== verification/Vfs.thy ===== *)
theory Vfs
  imports Pkg_Archive
begin

text \<open>
  \<open>crates/kwe-core/src/vfs.rs\<close>: the confined lookup of scene assets, first in the package, then in the
  scene's directory, then in the assets directory. A canonical path is its list of components. The calls
  to the file system are answers by path, so they may say anything; a tree of files, directories and
  links is one such file system, and on it the lookup is shown to be a plain function of the package
  and the two subtrees.
\<close>

section \<open>References\<close>

definition max_reference_bytes :: nat where "max_reference_bytes = 512"

datatype asset_category =
  AssetTexture | AssetShaderText | AssetModel | AssetParticle | AssetScript | AssetJson | AssetVideo

datatype vfs_source = SourcePkgEntry | SourceSceneDir | SourceAssetsRoot

record vfs_caps =
  cap_texture :: u64
  cap_shader_text :: u64
  cap_model :: u64
  cap_particle :: u64
  cap_script :: u64
  cap_json :: u64
  cap_video_probe :: u64

definition max_model_json_bytes :: u64 where "max_model_json_bytes = 1024 * 1024"
definition max_particle_file_bytes :: u64 where "max_particle_file_bytes = 1024 * 1024"
definition max_script_bytes :: u64 where "max_script_bytes = 2 * 1024 * 1024"
definition max_scene_json_bytes :: u64 where "max_scene_json_bytes = 16 * 1024 * 1024"

definition default_caps :: vfs_caps where
  "default_caps =
     \<lparr>cap_texture = max_pkg_entry_bytes, cap_shader_text = 256 * 1024, cap_model = max_model_json_bytes,
      cap_particle = max_particle_file_bytes, cap_script = max_script_bytes, cap_json = max_scene_json_bytes,
      cap_video_probe = 256 * 1024\<rparr>"

datatype vfs_error =
    VfsBadReference string | VfsNotFound | VfsOversize asset_category u64 | VfsSymlinkRejected
  | VfsNotAddressable | VfsIo string

fun check_components :: "string list \<Rightarrow> (vfs_error, string list) result" where
  "check_components [] = Inr []"
| "check_components (part # parts) =
     (if part = [] then Inl (VfsBadReference ''reference must not contain an empty path component'')
      else if part = ''.'' \<or> part = ''..''
      then Inl (VfsBadReference (''reference must not contain a '' @ [CHR 0x22] @ ''.'' @ [CHR 0x22] @ '' or ''
                                 @ [CHR 0x22] @ ''..'' @ [CHR 0x22] @ '' component''))
      else rbind (check_components parts) (\<lambda>rest. Inr (part # rest)))"

definition normalize_reference :: "string \<Rightarrow> (vfs_error, string list) result" where
  "normalize_reference r =
     (if r = [] then Inl (VfsBadReference ''reference must not be empty'')
      else if max_reference_bytes < length r then Inl (VfsBadReference ''reference exceeds the 512 byte length limit'')
      else if CHR 0x00 \<in> set r then Inl (VfsBadReference ''reference must not contain a NUL byte'')
      else if CHR 0x5C \<in> set r then Inl (VfsBadReference ''reference must use forward slashes only'')
      else if starts_with r ''/'' then Inl (VfsBadReference ''reference must not be absolute'')
      else check_components (split_on (CHR ''/'') r))"

section \<open>The file system\<close>

datatype stat_answer = StatMissing | StatFailed string | StatFile nat | StatDir | StatLink | StatOther

text \<open>
  What opening a file gives: the metadata of the open file, its bytes as a read to the end finds them,
  and an error that the read ends with.
\<close>

record opened_file =
  of_stat :: stat_answer
  of_bytes :: "u8 list"
  of_fault :: "string option"

type_synonym path = "string list"

record vfs_calls =
  vc_lstat :: "path \<Rightarrow> stat_answer"
  vc_canonical :: "path \<Rightarrow> (string, path) result"
  vc_open :: "path \<Rightarrow> (string, opened_file) result"
  vc_leaf_length :: "path \<Rightarrow> (string, nat) result"

record vfs =
  vf_pkg :: "pkg_reader option"
  vf_scene_root :: path
  vf_assets_root :: "path option"
  vf_caps :: vfs_caps

definition vfs_new ::
    "pkg_reader option \<Rightarrow> (string, path) result \<Rightarrow> (string, path) result option \<Rightarrow> vfs_caps \<Rightarrow> (vfs_error, vfs) result" where
  "vfs_new pkg scene_root assets_root caps =
     rbind (map_err VfsIo scene_root) (\<lambda>root.
       Inr \<lparr>vf_pkg = pkg, vf_scene_root = root,
            vf_assets_root = Option.bind assets_root (\<lambda>r. case r of Inl e \<Rightarrow> None | Inr p \<Rightarrow> Some p),
            vf_caps = caps\<rparr>)"

fun cap_for :: "vfs_caps \<Rightarrow> asset_category \<Rightarrow> u64" where
  "cap_for caps AssetTexture = cap_texture caps"
| "cap_for caps AssetShaderText = cap_shader_text caps"
| "cap_for caps AssetModel = cap_model caps"
| "cap_for caps AssetParticle = cap_particle caps"
| "cap_for caps AssetScript = cap_script caps"
| "cap_for caps AssetJson = cap_json caps"
| "cap_for caps AssetVideo = cap_video_probe caps"

section \<open>The walk\<close>

fun walk_components :: "(path \<Rightarrow> stat_answer) \<Rightarrow> path \<Rightarrow> string list \<Rightarrow> (vfs_error, path) result" where
  "walk_components lstat current [] = Inr current"
| "walk_components lstat current (c # cs) =
     (let current = current @ [c] in
      case lstat current of
        StatMissing \<Rightarrow> Inl VfsNotFound
      | StatFailed e \<Rightarrow> Inl (VfsIo e)
      | StatLink \<Rightarrow> Inl VfsSymlinkRejected
      | StatFile n \<Rightarrow> if cs = [] then Inr current else Inl VfsNotFound
      | StatDir \<Rightarrow> if cs = [] then Inl VfsNotFound else walk_components lstat current cs
      | StatOther \<Rightarrow> Inl VfsNotFound)"

definition path_starts_with :: "path \<Rightarrow> path \<Rightarrow> bool" where
  "path_starts_with p root \<longleftrightarrow> take (length root) p = root"

definition confined_leaf :: "vfs_calls \<Rightarrow> path \<Rightarrow> string list \<Rightarrow> (vfs_error, path) result" where
  "confined_leaf cl root components =
     rbind (walk_components (vc_lstat cl) root components) (\<lambda>current.
     rbind (map_err VfsIo (vc_canonical cl current)) (\<lambda>canonical.
     rbind (fail_if (\<not> path_starts_with canonical root) VfsSymlinkRejected) (\<lambda>_. Inr canonical)))"

definition read_leaf_bytes :: "vfs_calls \<Rightarrow> path \<Rightarrow> u64 \<Rightarrow> asset_category \<Rightarrow> (vfs_error, u8 list) result" where
  "read_leaf_bytes cl p cap category =
     rbind (map_err VfsIo (vc_open cl p)) (\<lambda>f.
     case of_stat f of
       StatFailed e \<Rightarrow> Inl (VfsIo e)
     | StatFile n \<Rightarrow>
         (let limit = unat (sat_add cap 1); bytes = take limit (of_bytes f) in
          case of_fault f of
            Some e \<Rightarrow> if length bytes < limit then Inl (VfsIo e)
                      else if unat cap < length bytes then Inl (VfsOversize category cap) else Inr bytes
          | None \<Rightarrow> if unat cap < length bytes then Inl (VfsOversize category cap) else Inr bytes)
     | _ \<Rightarrow> Inl VfsNotFound)"

record resolved_asset =
  ra_logical_id :: string
  ra_source :: vfs_source
  ra_bytes :: "u8 list"

record resolved_path =
  rp_logical_id :: string
  rp_source :: vfs_source
  rp_path :: path

definition resolve_bytes_in_dir ::
    "vfs_calls \<Rightarrow> path \<Rightarrow> vfs_source \<Rightarrow> string list \<Rightarrow> string \<Rightarrow> u64 \<Rightarrow> asset_category
       \<Rightarrow> (vfs_error, resolved_asset) result option" where
  "resolve_bytes_in_dir cl root source components ident cap category =
     (case confined_leaf cl root components of
        Inr leaf \<Rightarrow>
          Some (rbind (read_leaf_bytes cl leaf cap category) (\<lambda>bytes.
                  Inr \<lparr>ra_logical_id = ident, ra_source = source, ra_bytes = bytes\<rparr>))
      | Inl e \<Rightarrow> if e = VfsNotFound then None else Some (Inl e))"

definition resolve_path_in_dir ::
    "vfs_calls \<Rightarrow> path \<Rightarrow> vfs_source \<Rightarrow> string list \<Rightarrow> string \<Rightarrow> u64 \<Rightarrow> asset_category
       \<Rightarrow> (vfs_error, resolved_path) result option" where
  "resolve_path_in_dir cl root source components ident cap category =
     (case confined_leaf cl root components of
        Inr leaf \<Rightarrow>
          Some (rbind (map_err VfsIo (vc_leaf_length cl leaf)) (\<lambda>n.
                rbind (fail_if (unat cap < n) (VfsOversize category cap)) (\<lambda>_.
                  Inr \<lparr>rp_logical_id = ident, rp_source = source, rp_path = leaf\<rparr>)))
      | Inl e \<Rightarrow> if e = VfsNotFound then None else Some (Inl e))"

definition resolve_in_dirs ::
    "vfs_calls \<Rightarrow> vfs \<Rightarrow> string list \<Rightarrow> string \<Rightarrow> u64 \<Rightarrow> asset_category \<Rightarrow> (vfs_error, resolved_asset) result" where
  "resolve_in_dirs cl v components reference cap category =
     (case resolve_bytes_in_dir cl (vf_scene_root v) SourceSceneDir components reference cap category of
        Some r \<Rightarrow> r
      | None \<Rightarrow>
          (case vf_assets_root v of
             None \<Rightarrow> Inl VfsNotFound
           | Some root \<Rightarrow>
               (case resolve_bytes_in_dir cl root SourceAssetsRoot components reference cap category of
                  Some r \<Rightarrow> r
                | None \<Rightarrow> Inl VfsNotFound)))"

definition resolve_in_pkg ::
    "(u8 list \<Rightarrow> u8 list \<times> bool) \<Rightarrow> (pkg_error \<Rightarrow> string) \<Rightarrow> pkg_reader option \<Rightarrow> string \<Rightarrow> u64 \<Rightarrow> asset_category
       \<Rightarrow> (vfs_error, resolved_asset) result option" where
  "resolve_in_pkg lz4 pkg_text pkg reference cap category =
     (case pkg of
        None \<Rightarrow> None
      | Some p \<Rightarrow>
          (case resolve_pkg_entry reference (rd_entries p) of
             Inl _ \<Rightarrow> None
           | Inr index \<Rightarrow>
               Some
                 (case read_entry_bounded lz4 p index cap of
                    Inr bytes \<Rightarrow> Inr \<lparr>ra_logical_id = reference, ra_source = SourcePkgEntry, ra_bytes = bytes\<rparr>
                  | Inl e \<Rightarrow> if e = Bounds then Inl (VfsOversize category cap) else Inl (VfsIo (pkg_text e)))))"

definition vfs_resolve ::
    "(u8 list \<Rightarrow> u8 list \<times> bool) \<Rightarrow> (pkg_error \<Rightarrow> string) \<Rightarrow> vfs_calls \<Rightarrow> vfs \<Rightarrow> string \<Rightarrow> asset_category
       \<Rightarrow> (vfs_error, resolved_asset) result" where
  "vfs_resolve lz4 pkg_text cl v reference category =
     (if category = AssetVideo
      then Inl (VfsBadReference ''video assets are resolved via resolve_path, not resolve'')
      else
        rbind (normalize_reference reference) (\<lambda>components.
        let cap = cap_for (vf_caps v) category in
        case resolve_in_pkg lz4 pkg_text (vf_pkg v) reference cap category of
          Some r \<Rightarrow> r
        | None \<Rightarrow> resolve_in_dirs cl v components reference cap category))"

definition vfs_resolve_path ::
    "vfs_calls \<Rightarrow> vfs \<Rightarrow> string \<Rightarrow> asset_category \<Rightarrow> (vfs_error, resolved_path) result" where
  "vfs_resolve_path cl v reference category =
     rbind (normalize_reference reference) (\<lambda>components.
     let cap = cap_for (vf_caps v) category in
     if (case vf_pkg v of None \<Rightarrow> False | Some pkg \<Rightarrow> is_ok (resolve_pkg_entry reference (rd_entries pkg)))
     then Inl VfsNotAddressable
     else
       (case resolve_path_in_dir cl (vf_scene_root v) SourceSceneDir components reference cap category of
          Some r \<Rightarrow> r
        | None \<Rightarrow>
            (case vf_assets_root v of
               None \<Rightarrow> Inl VfsNotFound
             | Some root \<Rightarrow>
                 (case resolve_path_in_dir cl root SourceAssetsRoot components reference cap category of
                    Some r \<Rightarrow> r
                  | None \<Rightarrow> Inl VfsNotFound))))"

section \<open>References\<close>

lemma check_components_ok:
  "check_components ps = Inr cs \<longleftrightarrow> cs = ps \<and> (\<forall>p \<in> set ps. p \<noteq> [] \<and> p \<noteq> ''.'' \<and> p \<noteq> ''..'')"
  by (induction ps arbitrary: cs) (auto simp: result_simps)

lemma split_on_absolute: "starts_with r ''/'' \<Longrightarrow> [] \<in> set (split_on (CHR ''/'') r)"
  by (auto simp: starts_with_iff)

text \<open>
  A reference is accepted exactly when it is a non-empty path of at most 512 bytes without NUL or
  backslash whose parts are all proper names, and the parts put together are the reference again.
\<close>

lemma normalize_reference_ok:
  "normalize_reference r = Inr cs \<longleftrightarrow>
     cs = split_on (CHR ''/'') r \<and> r \<noteq> [] \<and> length r \<le> 512 \<and> CHR 0x00 \<notin> set r \<and> CHR 0x5C \<notin> set r
     \<and> (\<forall>c \<in> set cs. c \<noteq> [] \<and> c \<noteq> ''.'' \<and> c \<noteq> ''..'')"
  using split_on_absolute [of r]
  by (auto simp: normalize_reference_def max_reference_bytes_def check_components_ok)

lemma normalize_reference_join: "normalize_reference r = Inr cs \<Longrightarrow> str_join ''/'' cs = r"
  by (simp add: normalize_reference_ok str_join_split_on)

section \<open>Any file system\<close>

definition real_path :: "(path \<Rightarrow> stat_answer) \<Rightarrow> path \<Rightarrow> string list \<Rightarrow> bool" where
  "real_path lstat root cs \<longleftrightarrow> cs \<noteq> []
     \<and> (\<forall>i < length cs - 1. lstat (root @ take (Suc i) cs) = StatDir) \<and> (\<exists>n. lstat (root @ cs) = StatFile n)"

lemma walk_components_ok:
  "walk_components lstat root cs = Inr p \<Longrightarrow> cs \<noteq> [] \<Longrightarrow> p = root @ cs \<and> real_path lstat root cs"
proof (induction lstat root cs arbitrary: p rule: walk_components.induct)
  case (1 lstat root)
  then show ?case by simp
next
  case (2 lstat root c cs)
  show ?case
  proof (cases "cs = []")
    case True
    then show ?thesis using "2.prems" by (auto simp: Let_def real_path_def split: stat_answer.splits)
  next
    case False
    then have dir: "lstat (root @ [c]) = StatDir" and rest: "walk_components lstat (root @ [c]) cs = Inr p"
      using "2.prems" by (auto simp: Let_def split: stat_answer.splits if_splits)
    have IH: "p = (root @ [c]) @ cs \<and> real_path lstat (root @ [c]) cs"
      using "2.IH" [OF refl dir False rest False] .
    have "lstat (root @ take (Suc i) (c # cs)) = StatDir" if "i < length cs" for i
      using that IH dir False by (cases i) (auto simp: real_path_def)
    then show ?thesis using IH by (auto simp: real_path_def)
  qed
qed

lemma normalize_nonempty: "normalize_reference r = Inr cs \<Longrightarrow> cs \<noteq> []"
  by (simp add: normalize_reference_ok)

lemma read_leaf_bytes_ok:
  assumes "read_leaf_bytes cl p cap category = Inr bytes"
  shows "length bytes \<le> unat cap \<and> (\<exists>f. vc_open cl p = Inr f \<and> bytes = take (length bytes) (of_bytes f))"
proof -
  let ?limit = "unat (sat_add cap 1)"
  obtain f where f: "vc_open cl p = Inr f" using assms by (auto simp: read_leaf_bytes_def result_simps)
  obtain n where n: "of_stat f = StatFile n"
    using assms f by (cases "of_stat f") (auto simp: read_leaf_bytes_def)
  have "bytes = take ?limit (of_bytes f) \<and> length bytes \<le> unat cap"
    using assms f n by (auto simp: read_leaf_bytes_def Let_def not_less split: option.splits if_splits)
  then have "bytes = take (length bytes) (of_bytes f)" "length bytes \<le> unat cap" by (auto simp: min_def)
  then show ?thesis using f by blast
qed

definition confined_in :: "vfs_calls \<Rightarrow> path \<Rightarrow> string list \<Rightarrow> path \<Rightarrow> bool" where
  "confined_in cl root cs leaf \<longleftrightarrow>
     real_path (vc_lstat cl) root cs \<and> vc_canonical cl (root @ cs) = Inr leaf \<and> path_starts_with leaf root"

lemma confined_leaf_ok:
  "confined_leaf cl root cs = Inr leaf \<Longrightarrow> cs \<noteq> [] \<Longrightarrow> confined_in cl root cs leaf"
  by (auto simp: confined_leaf_def confined_in_def result_simps dest: walk_components_ok)

lemma resolve_in_pkg_ok:
  assumes "resolve_in_pkg lz4 pkg_text pkg reference cap category = Some (Inr a)"
  shows "ra_source a = SourcePkgEntry \<and> ra_logical_id a = reference \<and> length (ra_bytes a) \<le> unat cap"
  using assms read_entry_bounded_le
  by (fastforce simp: resolve_in_pkg_def split: option.splits sum.splits if_splits)

lemma resolve_bytes_in_dir_ok:
  assumes "resolve_bytes_in_dir cl root src cs reference cap category = Some (Inr a)" "cs \<noteq> []"
  shows "ra_source a = src \<and> ra_logical_id a = reference \<and> length (ra_bytes a) \<le> unat cap
     \<and> (\<exists>leaf f. confined_in cl root cs leaf \<and> vc_open cl leaf = Inr f
                 \<and> ra_bytes a = take (length (ra_bytes a)) (of_bytes f))"
proof -
  obtain leaf bytes where "confined_leaf cl root cs = Inr leaf" "read_leaf_bytes cl leaf cap category = Inr bytes"
      "a = \<lparr>ra_logical_id = reference, ra_source = src, ra_bytes = bytes\<rparr>"
    using assms(1) by (auto simp: resolve_bytes_in_dir_def result_simps split: sum.splits if_splits)
  then show ?thesis using confined_leaf_ok [OF _ assms(2), of cl root leaf] read_leaf_bytes_ok by fastforce
qed

lemma resolve_in_dirs_ok:
  assumes "resolve_in_dirs cl v cs reference cap category = Inr a" "cs \<noteq> []"
  obtains root where "(root = vf_scene_root v \<and> ra_source a = SourceSceneDir)
       \<or> (vf_assets_root v = Some root \<and> ra_source a = SourceAssetsRoot)"
    "resolve_bytes_in_dir cl root (ra_source a) cs reference cap category = Some (Inr a)"
proof (cases "resolve_bytes_in_dir cl (vf_scene_root v) SourceSceneDir cs reference cap category")
  case (Some r)
  then have found: "resolve_bytes_in_dir cl (vf_scene_root v) SourceSceneDir cs reference cap category = Some (Inr a)"
    using assms(1) by (simp add: resolve_in_dirs_def)
  then have "ra_source a = SourceSceneDir" using resolve_bytes_in_dir_ok [OF _ assms(2)] by blast
  then show ?thesis using that found by simp
next
  case None
  then obtain root where root: "vf_assets_root v = Some root"
      "resolve_bytes_in_dir cl root SourceAssetsRoot cs reference cap category = Some (Inr a)"
    using assms(1) by (auto simp: resolve_in_dirs_def split: option.splits)
  then have "ra_source a = SourceAssetsRoot" using resolve_bytes_in_dir_ok [OF _ assms(2)] by blast
  then show ?thesis using that root by simp
qed

lemma vfs_resolve_cases:
  assumes "vfs_resolve lz4 pkg_text cl v reference category = Inr a"
  obtains cs where "normalize_reference reference = Inr cs" "cs \<noteq> []"
    "resolve_in_pkg lz4 pkg_text (vf_pkg v) reference (cap_for (vf_caps v) category) category = Some (Inr a)
     \<or> resolve_in_dirs cl v cs reference (cap_for (vf_caps v) category) category = Inr a"
  using assms normalize_nonempty
  by (auto simp: vfs_resolve_def result_simps Let_def split: if_splits option.splits)

text \<open>
  C11: Whatever the file system answers, an asset is within the cap of its category, and one that comes from
  a directory has been read from a path below that directory, every part of which was seen to be a real
  directory or, at the end, a real file, never a link.
\<close>

theorem vfs_resolve_confined:
  assumes "vfs_resolve lz4 pkg_text cl v reference category = Inr a"
  shows "ra_logical_id a = reference \<and> length (ra_bytes a) \<le> unat (cap_for (vf_caps v) category)
     \<and> (ra_source a \<noteq> SourcePkgEntry \<longrightarrow>
          (\<exists>root leaf f. ((root = vf_scene_root v \<and> ra_source a = SourceSceneDir)
                          \<or> (vf_assets_root v = Some root \<and> ra_source a = SourceAssetsRoot))
             \<and> confined_in cl root (split_on (CHR ''/'') reference) leaf
             \<and> vc_open cl leaf = Inr f \<and> ra_bytes a = take (length (ra_bytes a)) (of_bytes f)))"
proof -
  obtain cs where cs: "normalize_reference reference = Inr cs" "cs \<noteq> []"
    "resolve_in_pkg lz4 pkg_text (vf_pkg v) reference (cap_for (vf_caps v) category) category = Some (Inr a)
     \<or> resolve_in_dirs cl v cs reference (cap_for (vf_caps v) category) category = Inr a"
    by (rule vfs_resolve_cases [OF assms])
  have parts: "split_on (CHR ''/'') reference = cs" using cs(1) by (simp add: normalize_reference_ok)
  from cs(3) show ?thesis
  proof
    assume "resolve_in_pkg lz4 pkg_text (vf_pkg v) reference (cap_for (vf_caps v) category) category = Some (Inr a)"
    from resolve_in_pkg_ok [OF this] show ?thesis by simp
  next
    assume "resolve_in_dirs cl v cs reference (cap_for (vf_caps v) category) category = Inr a"
    then obtain root where "(root = vf_scene_root v \<and> ra_source a = SourceSceneDir)
         \<or> (vf_assets_root v = Some root \<and> ra_source a = SourceAssetsRoot)"
      "resolve_bytes_in_dir cl root (ra_source a) cs reference (cap_for (vf_caps v) category) category = Some (Inr a)"
      by (rule resolve_in_dirs_ok [OF _ cs(2)])
    with resolve_bytes_in_dir_ok [OF this(2) cs(2)] show ?thesis unfolding parts by blast
  qed
qed

section \<open>A tree of files, directories and links\<close>

datatype fnode = FsFile "u8 list" | FsDir "(string \<times> fnode) list" | FsLink path | FsOther

fun node_at :: "fnode \<Rightarrow> path \<Rightarrow> fnode option" where
  "node_at n [] = Some n"
| "node_at (FsDir m) (c # cs) = (case map_of m c of None \<Rightarrow> None | Some n \<Rightarrow> node_at n cs)"
| "node_at _ (c # cs) = None"

fun node_stat :: "fnode option \<Rightarrow> stat_answer" where
  "node_stat None = StatMissing"
| "node_stat (Some (FsFile b)) = StatFile (length b)"
| "node_stat (Some (FsDir m)) = StatDir"
| "node_stat (Some (FsLink p)) = StatLink"
| "node_stat (Some FsOther) = StatOther"

definition tree_calls :: "fnode \<Rightarrow> (path \<Rightarrow> (string, path) result) \<Rightarrow> vfs_calls" where
  "tree_calls tree canon =
     \<lparr>vc_lstat = (\<lambda>p. node_stat (node_at tree p)), vc_canonical = canon,
      vc_open = (\<lambda>p. case node_at tree p of
                        Some (FsFile b) \<Rightarrow> Inr \<lparr>of_stat = StatFile (length b), of_bytes = b, of_fault = None\<rparr>
                      | _ \<Rightarrow> Inl ''open failed''),
      vc_leaf_length = (\<lambda>p. case node_at tree p of Some (FsFile b) \<Rightarrow> Inr (length b) | _ \<Rightarrow> Inl ''no file'')\<rparr>"

text \<open>A path no part of which is a link is its own canonical form: this is what \<open>realpath\<close> promises.\<close>

definition canonical_ok :: "fnode \<Rightarrow> (path \<Rightarrow> (string, path) result) \<Rightarrow> bool" where
  "canonical_ok tree canon \<longleftrightarrow>
     (\<forall>p b. node_at tree p = Some (FsFile b) \<longrightarrow> canon p = Inr p)"

text \<open>A file has less than 2^64 bytes.\<close>

definition sizes_ok :: "fnode \<Rightarrow> bool" where
  "sizes_ok tree \<longleftrightarrow> (\<forall>p b. node_at tree p = Some (FsFile b) \<longrightarrow> length b < 18446744073709551616)"

lemma node_at_append: "node_at n (p @ q) = Option.bind (node_at n p) (\<lambda>m. node_at m q)"
proof (induction n p rule: node_at.induct)
  case (2 m c cs)
  then show ?case by (auto split: option.splits)
qed auto

datatype dir_entry = EntryAbsent | EntryLinked | EntryBytes "u8 list"

fun dir_lookup :: "fnode \<Rightarrow> string list \<Rightarrow> dir_entry" where
  "dir_lookup (FsDir m) (c # cs) =
     (case map_of m c of
        Some (FsLink p) \<Rightarrow> EntryLinked
      | Some (FsFile b) \<Rightarrow> if cs = [] then EntryBytes b else EntryAbsent
      | Some (FsDir d) \<Rightarrow> if cs = [] then EntryAbsent else dir_lookup (FsDir d) cs
      | _ \<Rightarrow> EntryAbsent)"
| "dir_lookup _ _ = EntryAbsent"

definition dir_outcome ::
    "vfs_source \<Rightarrow> string \<Rightarrow> u64 \<Rightarrow> asset_category \<Rightarrow> dir_entry \<Rightarrow> (vfs_error, resolved_asset) result option" where
  "dir_outcome src reference cap category e =
     (case e of
        EntryAbsent \<Rightarrow> None
      | EntryLinked \<Rightarrow> Some (Inl VfsSymlinkRejected)
      | EntryBytes b \<Rightarrow>
          Some (if unat cap < length b then Inl (VfsOversize category cap)
                else Inr \<lparr>ra_logical_id = reference, ra_source = src, ra_bytes = b\<rparr>))"

text \<open>The lookup as a function of the package and of what lies below the two roots, and of nothing else.\<close>

definition vfs_spec ::
    "(u8 list \<Rightarrow> u8 list \<times> bool) \<Rightarrow> (pkg_error \<Rightarrow> string) \<Rightarrow> pkg_reader option \<Rightarrow> vfs_caps \<Rightarrow> fnode \<Rightarrow> fnode option
       \<Rightarrow> string \<Rightarrow> asset_category \<Rightarrow> (vfs_error, resolved_asset) result" where
  "vfs_spec lz4 pkg_text pkg caps scene assets reference category =
     (if category = AssetVideo
      then Inl (VfsBadReference ''video assets are resolved via resolve_path, not resolve'')
      else
        rbind (normalize_reference reference) (\<lambda>cs.
        let cap = cap_for caps category;
            in_pkg = resolve_in_pkg lz4 pkg_text pkg reference cap category;
            in_scene = dir_outcome SourceSceneDir reference cap category (dir_lookup scene cs);
            in_assets = Option.bind assets (\<lambda>root. dir_outcome SourceAssetsRoot reference cap category (dir_lookup root cs))
        in case (in_pkg, in_scene, in_assets) of
             (Some r, _, _) \<Rightarrow> r
           | (None, Some r, _) \<Rightarrow> r
           | (None, None, Some r) \<Rightarrow> r
           | (None, None, None) \<Rightarrow> Inl VfsNotFound))"

fun walk_outcome :: "path \<Rightarrow> dir_entry \<Rightarrow> (vfs_error, path) result" where
  "walk_outcome p EntryAbsent = Inl VfsNotFound"
| "walk_outcome p EntryLinked = Inl VfsSymlinkRejected"
| "walk_outcome p (EntryBytes b) = Inr p"

lemma walk_tree:
  assumes "node_at tree root = Some d" "cs \<noteq> []"
  shows "walk_components (\<lambda>p. node_stat (node_at tree p)) root cs = walk_outcome (root @ cs) (dir_lookup d cs)
     \<and> (\<forall>b. dir_lookup d cs = EntryBytes b \<longrightarrow> node_at tree (root @ cs) = Some (FsFile b))"
  using assms
proof (induction cs arbitrary: root d)
  case (Cons c cs)
  have at: "node_at tree (root @ [c]) = node_at d [c]" using Cons.prems(1) by (simp add: node_at_append)
  show ?case
  proof (cases d)
    case (FsDir m)
    show ?thesis
    proof (cases "map_of m c")
      case None
      then show ?thesis using at FsDir by (simp add: Let_def)
    next
      case (Some n)
      then have n: "node_at tree (root @ [c]) = Some n" using at FsDir by simp
      show ?thesis
      proof (cases "\<exists>e. n = FsDir e \<and> cs \<noteq> []")
        case True
        then show ?thesis using Cons.IH [OF n] n Some FsDir by (auto simp: Let_def)
      next
        case False
        then show ?thesis using n Some FsDir by (cases n) (auto simp: Let_def)
      qed
    qed
  qed (use at in \<open>simp_all add: Let_def\<close>)
qed simp

lemma read_leaf_tree:
  assumes "node_at tree p = Some (FsFile b)" "length b < 18446744073709551616"
  shows "read_leaf_bytes (tree_calls tree canon) p cap category
     = (if unat cap < length b then Inl (VfsOversize category cap) else Inr b)"
proof -
  let ?limit = "unat (sat_add cap 1 :: u64)"
  have limit: "?limit = min (unat cap + 1) 18446744073709551615" by (simp add: sat_simps)
  have "unat cap < 18446744073709551616" using unsigned_less [of cap] by simp
  then have "unat cap \<le> ?limit" "unat cap < length b \<Longrightarrow> unat cap < ?limit" using limit assms(2) by simp_all
  then show ?thesis using assms(1) by (auto simp: read_leaf_bytes_def tree_calls_def Let_def)
qed

lemma resolve_bytes_in_tree:
  assumes "canonical_ok tree canon" "sizes_ok tree" "node_at tree root = Some d" "cs \<noteq> []"
  shows "resolve_bytes_in_dir (tree_calls tree canon) root src cs reference cap category
     = dir_outcome src reference cap category (dir_lookup d cs)"
proof (cases "dir_lookup d cs")
  case (EntryBytes b)
  then have leaf: "node_at tree (root @ cs) = Some (FsFile b)" using walk_tree [OF assms(3,4)] by blast
  have "confined_leaf (tree_calls tree canon) root cs = Inr (root @ cs)"
    using walk_tree [OF assms(3,4)] EntryBytes assms(1) leaf
    by (simp add: confined_leaf_def tree_calls_def canonical_ok_def path_starts_with_def)
  moreover have "length b < 18446744073709551616" using assms(2) leaf by (auto simp: sizes_ok_def)
  ultimately show ?thesis using EntryBytes read_leaf_tree [OF leaf]
    by (simp add: resolve_bytes_in_dir_def dir_outcome_def)
qed (use walk_tree [OF assms(3,4)] in \<open>simp_all add: resolve_bytes_in_dir_def confined_leaf_def dir_outcome_def tree_calls_def\<close>)

lemma vfs_resolve_tree:
  assumes "canonical_ok tree canon" "sizes_ok tree"
    and "node_at tree (vf_scene_root v) = Some scene"
    and "\<forall>root. vf_assets_root v = Some root \<longrightarrow> node_at tree root \<noteq> None"
  shows "vfs_resolve lz4 pkg_text (tree_calls tree canon) v reference category
     = vfs_spec lz4 pkg_text (vf_pkg v) (vf_caps v) scene
         (Option.bind (vf_assets_root v) (node_at tree)) reference category"
proof (cases "category = AssetVideo \<or> (\<exists>e. normalize_reference reference = Inl e)")
  case True
  then show ?thesis by (auto simp: vfs_resolve_def vfs_spec_def)
next
  case False
  then obtain cs where cs: "normalize_reference reference = Inr cs" by (cases "normalize_reference reference") auto
  note tree = resolve_bytes_in_tree [OF assms(1,2) _ normalize_nonempty [OF cs]]
  have "resolve_in_dirs (tree_calls tree canon) v cs reference cap category =
      (case (dir_outcome SourceSceneDir reference cap category (dir_lookup scene cs),
             Option.bind (Option.bind (vf_assets_root v) (node_at tree))
               (\<lambda>root. dir_outcome SourceAssetsRoot reference cap category (dir_lookup root cs))) of
         (Some r, _) \<Rightarrow> r | (None, Some r) \<Rightarrow> r | (None, None) \<Rightarrow> Inl VfsNotFound)" for cap
    using assms(4) tree [OF assms(3)] tree
    by (auto simp: resolve_in_dirs_def split: option.splits)
  then show ?thesis using False cs by (simp add: vfs_resolve_def vfs_spec_def Let_def split: option.splits)
qed

text \<open>
  C10: On a tree of files, directories and links, the lookup is exactly a function of the package and of
  the two subtrees: the package first, then the scene, then the assets; a link anywhere on the way is
  refused, a file over the cap is refused, both without trying the next source. So nothing outside the
  two directories can change what a reference finds.
\<close>

theorem vfs_resolve_refines:
  assumes "canonical_ok tree canon" "sizes_ok tree"
    and "node_at tree (vf_scene_root v) = Some scene"
    and "\<forall>root. vf_assets_root v = Some root \<longrightarrow> node_at tree root \<noteq> None"
  shows "vfs_resolve lz4 pkg_text (tree_calls tree canon) v reference category
     = vfs_spec lz4 pkg_text (vf_pkg v) (vf_caps v) scene
         (Option.bind (vf_assets_root v) (node_at tree)) reference category"
  by (rule vfs_resolve_tree [OF assms])

section \<open>An ambiguous reference\<close>

text \<open>
  A reference that matches two entries of the package resolves in none, so the lookup goes on to the
  directories, although the first source that knows a reference is meant to decide.
\<close>

lemma ambiguous_pkg_falls_through:
  assumes "vf_pkg v = Some p" "resolve_pkg_entry reference (rd_entries p) = Inl ManyMatches"
    and "normalize_reference reference = Inr cs" "category \<noteq> AssetVideo"
  shows "vfs_resolve lz4 pkg_text cl v reference category
     = resolve_in_dirs cl v cs reference (cap_for (vf_caps v) category) category"
  using assms by (simp add: vfs_resolve_def resolve_in_pkg_def)

section \<open>A concrete tree\<close>

definition sample_tree :: fnode where
  "sample_tree = FsDir [(''s'', FsDir [(''a'', FsFile [1]), (''l'', FsLink [''x''])]), (''x'', FsFile [9])]"

definition sample_vfs :: vfs where
  "sample_vfs = \<lparr>vf_pkg = None, vf_scene_root = [''s''], vf_assets_root = None, vf_caps = default_caps\<rparr>"

lemma sample_tree_files: "node_at sample_tree p = Some (FsFile b) \<Longrightarrow> b = [1] \<or> b = [9]"
proof -
  have leaf: "node_at (FsFile c) q = Some (FsFile b) \<Longrightarrow> b = c" "node_at (FsLink r) q = Some (FsFile b) \<Longrightarrow> False" for c q r
    by (cases q; simp)+
  have "node_at (FsDir [(''a'', FsFile [1]), (''l'', FsLink [''x''])]) q = Some (FsFile b) \<Longrightarrow> b = [1]" for q
    by (cases q) (auto dest: leaf split: if_splits)
  then show "node_at sample_tree p = Some (FsFile b) \<Longrightarrow> b = [1] \<or> b = [9]"
    by (cases p) (auto simp: sample_tree_def dest: leaf split: if_splits)
qed

lemma sample_tree_ok:
  "canonical_ok sample_tree Inr" "sizes_ok sample_tree"
  "node_at sample_tree (vf_scene_root sample_vfs) = Some (FsDir [(''a'', FsFile [1]), (''l'', FsLink [''x''])])"
  using sample_tree_files by (fastforce simp: canonical_ok_def sizes_ok_def sample_vfs_def sample_tree_def)+

lemma sample_names: "normalize_reference ''a'' = Inr [''a'']" "normalize_reference ''l'' = Inr [''l'']"
  by (simp_all add: normalize_reference_def max_reference_bytes_def starts_with_def)

lemmas sample_vfs_simps =
  sample_vfs_def vfs_spec_def resolve_in_pkg_def dir_outcome_def default_caps_def max_model_json_bytes_def

theorem vfs_resolve_refines_witness:
  "vfs_resolve (\<lambda>bs. (bs, True)) (\<lambda>_. []) (tree_calls sample_tree Inr) sample_vfs ''a'' AssetModel
     = Inr \<lparr>ra_logical_id = ''a'', ra_source = SourceSceneDir, ra_bytes = [1]\<rparr>
   \<and> vfs_resolve (\<lambda>bs. (bs, True)) (\<lambda>_. []) (tree_calls sample_tree Inr) sample_vfs ''l'' AssetModel = Inl VfsSymlinkRejected"
  using vfs_resolve_refines [OF sample_tree_ok] sample_names by (simp add: sample_vfs_simps)

lemma sample_resolved:
  "vfs_resolve (\<lambda>bs. (bs, True)) (\<lambda>_. []) (tree_calls sample_tree Inr) sample_vfs ''a'' AssetModel
     = Inr \<lparr>ra_logical_id = ''a'', ra_source = SourceSceneDir, ra_bytes = [1]\<rparr>"
  using vfs_resolve_tree [OF sample_tree_ok] sample_names by (simp add: sample_vfs_simps)

theorem vfs_resolve_confined_witness:
  "\<exists>root leaf f. root = [''s''] \<and> confined_in (tree_calls sample_tree Inr) root [''a''] leaf
     \<and> vc_open (tree_calls sample_tree Inr) leaf = Inr f \<and> [1] = take 1 (of_bytes f)"
  using vfs_resolve_confined [OF sample_resolved] by (auto simp: sample_vfs_def)

end
