(* ===== verification/Workshop_Cache.thy ===== *)
theory Workshop_Cache
  imports Persist Apply_Transaction
begin

text \<open>
  \<open>crates/kwe-daemon/src/workshop_cache.rs\<close>: the offline cache of Workshop metadata. Its items are the
  code's ordered map, here an association list with strictly ascending keys; \<open>merge\_and\_update\<close> and
  \<open>save\<close> are translated whole. The JSON codec of the file is a parameter (\<open>decode\<close>, \<open>encode\<close>).
\<close>

section \<open>Data\<close>

type_synonym u128 = "128 word"

definition cache_schema_version :: nat where "cache_schema_version = 1"
definition cache_file :: string where "cache_file = ''workshop-metadata-v1.json''"
definition max_cache_items :: nat where "max_cache_items = 25000"
definition max_cache_bytes :: nat where "max_cache_bytes = 16 * 1024 * 1024"
definition stale_entry_ms :: u128 where "stale_entry_ms = 30 * 24 * 60 * 60 * 1000"
definition max_catalog_items :: nat where "max_catalog_items = 25000"

record cached_item =
  ci_title :: string
  ci_kind :: project_kind
  ci_tags :: "string list"
  ci_preview :: bool
  ci_hash :: "string option"
  ci_state :: string
  ci_progress :: "u8 option"
  ci_seen :: u128

type_synonym cache_items = "(string \<times> cached_item) list"

datatype scan_compatibility = RendererDependent | BackendMissing | UnsupportedItem | InvalidItem

datatype diagnostic_level = DiagInfo | DiagWarning | DiagError

record scan_diagnostic =
  sd_code :: string
  sd_level :: diagnostic_level
  sd_message :: string

record scan_item =
  it_id :: string
  it_title :: string
  it_kind :: project_kind
  it_compatibility :: scan_compatibility
  it_compatibility_detail :: string
  it_content_root :: string
  it_project_file :: string
  it_entry_file :: "string option"
  it_preview_file :: "string option"
  it_hash :: "string option"
  it_tags :: "string list"
  it_permissions :: "string list"
  it_state :: string
  it_progress :: "u8 option"
  it_diagnostics :: "scan_diagnostic list"

record scan_stats =
  st_total :: nat
  st_scene :: nat
  st_video :: nat
  st_web :: nat
  st_unknown :: nat
  st_invalid :: nat
  st_subscribed :: nat
  st_missing :: nat
  st_downloading :: nat

text \<open>The two fields of a catalog that the merge touches; \<open>base\<close> statistics are \<open>from\_items\<close> of a scan.\<close>

record scan_catalog =
  cat_items :: "scan_item list"
  cat_stats :: scan_stats

definition empty_stats :: scan_stats where
  "empty_stats = \<lparr> st_total = 0, st_scene = 0, st_video = 0, st_web = 0, st_unknown = 0, st_invalid = 0,
     st_subscribed = 0, st_missing = 0, st_downloading = 0 \<rparr>"

definition count_kind :: "project_kind \<Rightarrow> scan_stats \<Rightarrow> scan_stats" where
  "count_kind k s = (case k of
     ProjectScene \<Rightarrow> s\<lparr> st_scene := usize_sat_add (st_scene s) 1 \<rparr>
   | ProjectVideo \<Rightarrow> s\<lparr> st_video := usize_sat_add (st_video s) 1 \<rparr>
   | ProjectWeb \<Rightarrow> s\<lparr> st_web := usize_sat_add (st_web s) 1 \<rparr>
   | ProjectUnknown \<Rightarrow> s\<lparr> st_unknown := usize_sat_add (st_unknown s) 1 \<rparr>
   | ProjectInvalid \<Rightarrow> s\<lparr> st_invalid := usize_sat_add (st_invalid s) 1 \<rparr>)"

section \<open>The ordered map\<close>

fun cache_put :: "string \<Rightarrow> cached_item \<Rightarrow> cache_items \<Rightarrow> cache_items" where
  "cache_put k v [] = [(k, v)]"
| "cache_put k v ((k', v') # rest) =
     (if k = k' then (k, v) # rest
      else if k < k' then (k, v) # (k', v') # rest
      else (k', v') # cache_put k v rest)"

definition cache_remove :: "string \<Rightarrow> cache_items \<Rightarrow> cache_items" where
  "cache_remove k c = filter (\<lambda>e. fst e \<noteq> k) c"

definition cache_ordered :: "cache_items \<Rightarrow> bool" where
  "cache_ordered c = sorted_wrt (<) (map fst c)"

section \<open>Opening\<close>

datatype cache_metadata = MetadataAbsent | MetadataError | MetadataLen nat

definition cache_load ::
  "(u8 list \<Rightarrow> (nat \<times> cache_items) option) \<Rightarrow> cache_metadata \<Rightarrow> u8 list option \<Rightarrow> cache_items \<times> bool" where
  "cache_load decode meta rd = (case meta of
     MetadataLen n \<Rightarrow>
       if max_cache_bytes < n then ([], True)
       else (case rd of
          Some bytes \<Rightarrow>
            (case decode bytes of
               Some (version, items) \<Rightarrow>
                 if version = cache_schema_version \<and> length items \<le> max_cache_items
                 then (items, False) else ([], True)
             | None \<Rightarrow> ([], True))
        | None \<Rightarrow> ([], True))
   | MetadataAbsent \<Rightarrow> ([], False)
   | MetadataError \<Rightarrow> ([], False))"

text \<open>\<open>open\<close> with its effect on the state directory.\<close>

definition cache_open ::
  "(u8 list \<Rightarrow> (nat \<times> cache_items) option) \<Rightarrow> cache_metadata \<Rightarrow> u8 list option
    \<Rightarrow> (state_dir \<Rightarrow> state_dir) \<Rightarrow> state_dir \<Rightarrow> cache_items \<times> state_dir" where
  "cache_open decode meta rd quarantine d =
     (let (items, bad) = cache_load decode meta rd in (items, if bad then quarantine d else d))"

section \<open>Merging a scan\<close>

definition is_subscribed_state :: "string \<Rightarrow> bool" where
  "is_subscribed_state s \<longleftrightarrow>
     s = ''subscribed_installed'' \<or> s = ''downloading'' \<or> s = ''subscribed_missing''"

definition item_placeholder :: "string \<Rightarrow> string" where
  "item_placeholder i = ''Workshop item '' @ i"

definition placeholder_title :: "scan_item \<Rightarrow> bool" where
  "placeholder_title it \<longleftrightarrow> it_title it = item_placeholder (it_id it)"

definition offline_diagnostic :: "string \<Rightarrow> scan_diagnostic" where
  "offline_diagnostic m = \<lparr> sd_code = ''workshop.offline_metadata'', sd_level = DiagInfo, sd_message = m \<rparr>"

definition restored_message :: string where
  "restored_message = ''Metadata restored from the offline cache; the Steam library is unavailable.''"

definition unavailable_message :: string where
  "unavailable_message = ''This subscription'' @ [CHR 0x27] @ ''s Steam library is currently unavailable; metadata is from the offline cache.''"

definition overlay_title :: "cached_item \<Rightarrow> scan_item \<Rightarrow> scan_item" where
  "overlay_title c it = (if placeholder_title it \<and> ci_title c \<noteq> [] then it\<lparr> it_title := ci_title c \<rparr> else it)"

definition overlay_kind :: "cached_item \<Rightarrow> scan_item \<Rightarrow> scan_item" where
  "overlay_kind c it =
     (if it_kind it = ProjectInvalid \<and> ci_kind c \<noteq> ProjectInvalid then it\<lparr> it_kind := ci_kind c \<rparr> else it)"

definition overlay_tags :: "cached_item \<Rightarrow> scan_item \<Rightarrow> scan_item" where
  "overlay_tags c it = (if it_tags it = [] \<and> ci_tags c \<noteq> [] then it\<lparr> it_tags := ci_tags c \<rparr> else it)"

definition overlay_hash :: "cached_item \<Rightarrow> scan_item \<Rightarrow> scan_item" where
  "overlay_hash c it = (if it_hash it = None \<and> ci_hash c \<noteq> None then it\<lparr> it_hash := ci_hash c \<rparr> else it)"

definition overlay_changes :: "cached_item \<Rightarrow> scan_item \<Rightarrow> bool" where
  "overlay_changes c it \<longleftrightarrow>
     placeholder_title it \<and> ci_title c \<noteq> []
     \<or> it_kind it = ProjectInvalid \<and> ci_kind c \<noteq> ProjectInvalid
     \<or> it_tags it = [] \<and> ci_tags c \<noteq> []
     \<or> it_hash it = None \<and> ci_hash c \<noteq> None"

definition overlay :: "cached_item \<Rightarrow> scan_item \<Rightarrow> scan_item" where
  "overlay c it =
     (let it' = overlay_hash c (overlay_tags c (overlay_kind c (overlay_title c it))) in
      if overlay_changes c it
      then it'\<lparr> it_diagnostics := it_diagnostics it' @ [offline_diagnostic restored_message] \<rparr> else it')"

definition merged_kind :: "cached_item option \<Rightarrow> scan_item \<Rightarrow> project_kind" where
  "merged_kind cached it =
     (if it_kind it = ProjectInvalid
      then (case cached of Some c \<Rightarrow> ci_kind c | None \<Rightarrow> it_kind it) else it_kind it)"

definition missing_entry :: "cached_item option \<Rightarrow> u128 \<Rightarrow> scan_item \<Rightarrow> cached_item" where
  "missing_entry cached now it = \<lparr>
     ci_title = (case cached of Some c \<Rightarrow> ci_title c | None \<Rightarrow> it_title it),
     ci_kind = merged_kind cached it,
     ci_tags = (case cached of Some c \<Rightarrow> ci_tags c | None \<Rightarrow> it_tags it),
     ci_preview = (case cached of Some c \<Rightarrow> ci_preview c | None \<Rightarrow> False),
     ci_hash = (case cached of Some c \<Rightarrow> ci_hash c | None \<Rightarrow> None),
     ci_state = it_state it, ci_progress = it_progress it, ci_seen = now \<rparr>"

definition installed_entry :: "cached_item option \<Rightarrow> u128 \<Rightarrow> scan_item \<Rightarrow> cached_item" where
  "installed_entry cached now it = \<lparr>
     ci_title = (if placeholder_title it
       then (case cached of Some c \<Rightarrow> ci_title c | None \<Rightarrow> it_title it) else it_title it),
     ci_kind = merged_kind cached it,
     ci_tags = (if it_tags it = [] then (case cached of Some c \<Rightarrow> ci_tags c | None \<Rightarrow> []) else it_tags it),
     ci_preview = (it_preview_file it \<noteq> None \<or> (case cached of Some c \<Rightarrow> ci_preview c | None \<Rightarrow> False)),
     ci_hash = (case it_hash it of Some h \<Rightarrow> Some h
       | None \<Rightarrow> (case cached of Some c \<Rightarrow> ci_hash c | None \<Rightarrow> None)),
     ci_state = it_state it, ci_progress = it_progress it, ci_seen = now \<rparr>"

text \<open>One item of the scan: the item as it is shown, and the entry the cache will take, if any.\<close>

definition scan_shown :: "cache_items \<Rightarrow> scan_item \<Rightarrow> scan_item" where
  "scan_shown c it =
     (if it_state it = ''subscribed_missing''
      then (case map_of c (it_id it) of Some e \<Rightarrow> overlay e it | None \<Rightarrow> it) else it)"

definition scan_update :: "cache_items \<Rightarrow> u128 \<Rightarrow> scan_item \<Rightarrow> (string \<times> cached_item) list" where
  "scan_update c now it =
     (let cached = map_of c (it_id it) in
      if it_state it = ''subscribed_missing''
      then [(it_id it, missing_entry cached now (scan_shown c it))]
      else if is_subscribed_state (it_state it) then [(it_id it, installed_entry cached now it)]
      else [])"

definition same_metadata :: "cached_item \<Rightarrow> cached_item \<Rightarrow> bool" where
  "same_metadata a b \<longleftrightarrow>
     ci_title a = ci_title b \<and> ci_kind a = ci_kind b \<and> ci_tags a = ci_tags b
     \<and> ci_preview a = ci_preview b \<and> ci_hash a = ci_hash b
     \<and> ci_state a = ci_state b \<and> ci_progress a = ci_progress b"

fun apply_updates :: "(string \<times> cached_item) list \<Rightarrow> cache_items \<times> bool \<Rightarrow> cache_items \<times> bool" where
  "apply_updates [] s = s"
| "apply_updates ((i, e) # us) (c, changed) =
     (let dominated = (case map_of c i of Some old \<Rightarrow> same_metadata old e | None \<Rightarrow> False) in
      apply_updates us (cache_put i e c, changed \<or> \<not> dominated))"

definition u128_sat_add :: "u128 \<Rightarrow> u128 \<Rightarrow> u128" where
  "u128_sat_add a b = (if a \<le> a + b then a + b else -1)"

definition entry_stale :: "u128 \<Rightarrow> cached_item \<Rightarrow> bool" where
  "entry_stale now e \<longleftrightarrow> u128_sat_add (ci_seen e) stale_entry_ms < now"

definition vanished :: "string list \<Rightarrow> cache_items \<Rightarrow> cache_items" where
  "vanished present c = filter (\<lambda>e. fst e \<notin> set present) c"

definition aged_out :: "u128 \<Rightarrow> string list \<Rightarrow> cache_items \<Rightarrow> string list" where
  "aged_out now present c = map fst (filter (\<lambda>e. entry_stale now (snd e)) (vanished present c))"

definition to_synthesize :: "u128 \<Rightarrow> string list \<Rightarrow> nat \<Rightarrow> cache_items \<Rightarrow> cache_items" where
  "to_synthesize now present shown c =
     (if shown < max_catalog_items then filter (\<lambda>e. \<not> entry_stale now (snd e)) (vanished present c) else [])"

definition synthesized_item :: "string \<Rightarrow> cached_item \<Rightarrow> scan_item" where
  "synthesized_item i e = \<lparr>
     it_id = i,
     it_title = (if ci_title e = [] then item_placeholder i else ci_title e),
     it_kind = ci_kind e,
     it_compatibility = RendererDependent,
     it_compatibility_detail = ''Subscribed in Steam, but the local Workshop files are unavailable'',
     it_content_root = [], it_project_file = [], it_entry_file = None, it_preview_file = None,
     it_hash = ci_hash e, it_tags = ci_tags e, it_permissions = [],
     it_state = ''subscribed_missing'', it_progress = ci_progress e,
     it_diagnostics = [offline_diagnostic unavailable_message] \<rparr>"

definition synthesize ::
  "u128 \<Rightarrow> string \<times> cached_item \<Rightarrow> scan_catalog \<times> cache_items \<Rightarrow> scan_catalog \<times> cache_items" where
  "synthesize now entry s = (case s of (cat, c) \<Rightarrow>
     (let (i, e) = entry;
          st = cat_stats cat;
          st1 = st\<lparr> st_total := usize_sat_add (st_total st) 1, st_missing := usize_sat_add (st_missing st) 1 \<rparr>
      in (\<lparr> cat_items = cat_items cat @ [synthesized_item i e], cat_stats = count_kind (ci_kind e) st1 \<rparr>,
          (case map_of c i of Some u \<Rightarrow> cache_put i (u\<lparr> ci_seen := now \<rparr>) c | None \<Rightarrow> c))))"

definition merge_and_update ::
  "u128 \<Rightarrow> scan_catalog \<Rightarrow> cache_items \<Rightarrow> scan_catalog \<times> cache_items \<times> bool" where
  "merge_and_update now cat c =
     (let shown = map (scan_shown c) (cat_items cat);
          (c1, changed1) = apply_updates (concat (map (scan_update c now) (cat_items cat))) (c, False);
          present = map it_id shown;
          old = aged_out now present c1;
          new = to_synthesize now present (length shown) c1;
          (cat2, c2) = fold (synthesize now) new
             (cat\<lparr> cat_items := shown \<rparr>, fold cache_remove old c1)
      in (cat2, c2, changed1 \<or> old \<noteq> [] \<or> new \<noteq> []))"

section \<open>Saving\<close>

text \<open>\<open>min\_by\_key\<close>: the first of the entries with the least time.\<close>

fun oldest_of :: "string \<times> cached_item \<Rightarrow> cache_items \<Rightarrow> string \<times> cached_item" where
  "oldest_of b [] = b"
| "oldest_of b (e # es) = oldest_of (if ci_seen (snd e) < ci_seen (snd b) then e else b) es"

fun evict :: "nat \<Rightarrow> cache_items \<Rightarrow> cache_items" where
  "evict 0 c = c"
| "evict (Suc n) [] = []"
| "evict (Suc n) (e # es) = evict n (cache_remove (fst (oldest_of e es)) (e # es))"

definition evict_count :: "nat \<Rightarrow> nat \<Rightarrow> nat" where
  "evict_count bytes items =
     (let overshoot = bytes - max_cache_bytes; per_entry = max (bytes div max items 1) 1 in
      min (overshoot div per_entry + 1) items)"

lemma cache_remove_length: "e \<in> set c \<Longrightarrow> length (cache_remove (fst e) c) < length c"
  unfolding cache_remove_def by (rule length_filter_less [where x = e]) auto

lemma oldest_of_mem: "oldest_of b es \<in> insert b (set es)"
  by (induction b es rule: oldest_of.induct) auto

lemma evict_length_le: "length (evict n c) \<le> length c"
proof (induction n c rule: evict.induct)
  case (3 n e es)
  have "length (cache_remove (fst (oldest_of e es)) (e # es)) \<le> length (e # es)"
    unfolding cache_remove_def by (rule length_filter_le)
  with 3 show ?case by (simp del: length_Cons)
qed auto

lemma evict_length_less: "0 < n \<Longrightarrow> c \<noteq> [] \<Longrightarrow> length (evict n c) < length c"
proof (induction n c rule: evict.induct)
  case (3 n e es)
  have "length (cache_remove (fst (oldest_of e es)) (e # es)) < length (e # es)"
    using oldest_of_mem [of e es] by (intro cache_remove_length) auto
  then show ?case using evict_length_le [of n "cache_remove (fst (oldest_of e es)) (e # es)"]
    by (simp del: length_Cons)
qed auto

function evict_to_fit :: "(cache_items \<Rightarrow> u8 list) \<Rightarrow> cache_items \<Rightarrow> cache_items" where
  "evict_to_fit encode c =
     (if max_cache_bytes < length (encode c) \<and> c \<noteq> []
      then evict_to_fit encode (evict (evict_count (length (encode c)) (length c)) c) else c)"
  by pat_completeness auto

termination
  by (relation "measure (\<lambda>(encode, c). length c)")
     (auto intro!: evict_length_less simp: evict_count_def Let_def)

declare evict_to_fit.simps [simp del]

definition cache_save ::
  "(cache_items \<Rightarrow> u8 list) \<Rightarrow> write_io \<Rightarrow> cache_items \<Rightarrow> state_dir \<Rightarrow> cache_items \<times> state_dir" where
  "cache_save encode io c d =
     (let c' = evict_to_fit encode c; bytes = encode c' in
      (c', if max_cache_bytes < length bytes then d else snd (atomic_write cache_file bytes io d)))"

end
