(* ===== verification/Workshop_Facts.thy ===== *)
theory Workshop_Facts
  imports Workshop_Cache
begin

text \<open>
  The Workshop cache is a map: its operations act on \<open>map\_of\<close> as the code's ordered map does, a merge
  never loses what was known of a subscription, and a save drops the oldest entries first.
\<close>

section \<open>The ordered map\<close>

lemma put_keys: "fst ` set (cache_put k v c) = insert k (fst ` set c)"
  by (induction k v c rule: cache_put.induct) auto

lemma put_ordered: "cache_ordered c \<Longrightarrow> cache_ordered (cache_put k v c)"
proof (induction k v c rule: cache_put.induct)
  case (2 k v k' v' rest)
  then have "cache_ordered rest" "\<forall>x \<in> fst ` set rest. k' < x" by (auto simp: cache_ordered_def)
  with 2 show ?case using put_keys [of k v rest]
    by (auto simp: cache_ordered_def)
qed (simp add: cache_ordered_def)

lemma put_map: "cache_ordered c \<Longrightarrow> map_of (cache_put k v c) = (map_of c)(k \<mapsto> v)"
  by (induction k v c rule: cache_put.induct) (auto simp: cache_ordered_def fun_eq_iff)

lemma remove_ordered: "cache_ordered c \<Longrightarrow> cache_ordered (cache_remove k c)"
  by (induction c) (auto simp: cache_ordered_def cache_remove_def)

lemma remove_map: "map_of (cache_remove k c) x = (if x = k then None else map_of c x)"
  by (induction c) (auto simp: cache_remove_def)

lemma ordered_distinct: "cache_ordered c \<Longrightarrow> distinct (map fst c)"
  by (induction c) (auto simp: cache_ordered_def)

lemma ordered_lookup: "cache_ordered c \<Longrightarrow> (k, v) \<in> set c \<longleftrightarrow> map_of c k = Some v"
  using ordered_distinct by (metis map_of_SomeD map_of_is_SomeI)

lemmas cache_map = put_ordered put_map remove_ordered remove_map

lemma fold_remove:
  "map_of (fold cache_remove ks c) x = (if x \<in> set ks then None else map_of c x)"
  "cache_ordered c \<Longrightarrow> cache_ordered (fold cache_remove ks c)"
  by (induction ks arbitrary: c) (auto simp: cache_map)

lemma updates_map:
  "cache_ordered c \<Longrightarrow> map_of (fst (apply_updates us (c, b))) = map_of c ++ map_of (rev us)"
proof (induction us arbitrary: c b)
  case (Cons u us)
  obtain i e where u: "u = (i, e)" by (cases u)
  show ?case using Cons.IH [OF put_ordered [OF Cons.prems]] Cons.prems
    by (simp add: u Let_def put_map fun_eq_iff map_add_def split: option.splits)
qed simp

lemma updates_ordered: "cache_ordered c \<Longrightarrow> cache_ordered (fst (apply_updates us (c, b)))"
  by (induction us arbitrary: c b) (auto simp: Let_def put_ordered)

section \<open>Synthesis\<close>

lemma synthesize_step:
  assumes "fold (synthesize now) ((i, e) # new) (cat, c) = r"
  obtains st where "fold (synthesize now) new (\<lparr> cat_items = cat_items cat @ [synthesized_item i e], cat_stats = st \<rparr>,
      case map_of c i of Some u \<Rightarrow> cache_put i (u\<lparr> ci_seen := now \<rparr>) c | None \<Rightarrow> c) = r"
proof -
  obtain st where "synthesize now (i, e) (cat, c) = (\<lparr> cat_items = cat_items cat @ [synthesized_item i e],
      cat_stats = st \<rparr>, case map_of c i of Some u \<Rightarrow> cache_put i (u\<lparr> ci_seen := now \<rparr>) c | None \<Rightarrow> c)"
    by (simp add: synthesize_def Let_def)
  with assms show thesis by (intro that [of st]) simp
qed

lemma synthesized_all:
  assumes "fold (synthesize now) new (cat, c) = (cat2, c2)"
  shows "cat_items cat2 = cat_items cat @ map (\<lambda>(i, e). synthesized_item i e) new"
  using assms
proof (induction new arbitrary: cat c)
  case (Cons n new)
  obtain i e where n: "n = (i, e)" by (cases n)
  from Cons.prems [unfolded n] show ?case
    by (rule synthesize_step) (drule Cons.IH, simp add: n)
qed simp

lemma synthesized_cache:
  assumes "fold (synthesize now) new (cat, c) = (cat2, c2)" "cache_ordered c"
  shows "cache_ordered c2 \<and> map_of c2 k =
    (if k \<in> fst ` set new then map_option (\<lambda>u. u\<lparr> ci_seen := now \<rparr>) (map_of c k) else map_of c k)"
  using assms
proof (induction new arbitrary: cat c)
  case (Cons n new)
  obtain i e where n: "n = (i, e)" by (cases n)
  let ?c = "case map_of c i of Some u \<Rightarrow> cache_put i (u\<lparr> ci_seen := now \<rparr>) c | None \<Rightarrow> c"
  have ord: "cache_ordered ?c" using Cons.prems(2) by (auto simp: put_ordered split: option.splits)
  have look: "map_of ?c k = (if k = i then map_option (\<lambda>u. u\<lparr> ci_seen := now \<rparr>) (map_of c k) else map_of c k)"
    using Cons.prems(2) by (auto simp: put_map split: option.splits)
  obtain cat' where step: "fold (synthesize now) new (cat', ?c) = (cat2, c2)"
    using Cons.prems(1) [unfolded n] by (rule synthesize_step)
  have upd: "map_option (\<lambda>u. u\<lparr> ci_seen := now \<rparr>) (map_option (\<lambda>u. u\<lparr> ci_seen := now \<rparr>) z)
      = map_option (\<lambda>u. u\<lparr> ci_seen := now \<rparr>) z" for z :: "cached_item option"
    by (cases z) auto
  show ?case using Cons.IH [OF step ord] look upd by (auto simp: n)
qed simp

section \<open>A merge\<close>

lemma shown_id [simp]: "it_id (scan_shown c it) = it_id it"
  by (auto simp: scan_shown_def overlay_def overlay_title_def overlay_kind_def overlay_tags_def
      overlay_hash_def Let_def split: option.splits)

definition scan_updates :: "cache_items \<Rightarrow> u128 \<Rightarrow> scan_item list \<Rightarrow> (string \<times> cached_item) list" where
  "scan_updates c now items = concat (map (scan_update c now) items)"

text \<open>The cache after the updates of the scan, and after the ageing and synthesis passes.\<close>

lemma merge_cache:
  assumes "merge_and_update now cat c = (cat2, c2, ch)" "cache_ordered c"
  defines "m \<equiv> map_of c ++ map_of (rev (scan_updates c now (cat_items cat)))"
    and "ids \<equiv> set (map it_id (cat_items cat))"
  shows "cache_ordered c2"
    and "i \<in> ids \<Longrightarrow> map_of c2 i = m i"
    and "i \<notin> ids \<Longrightarrow> m i = None \<Longrightarrow> map_of c2 i = None"
    and "i \<notin> ids \<Longrightarrow> m i = Some e \<Longrightarrow> entry_stale now e \<Longrightarrow> map_of c2 i = None"
    and "i \<notin> ids \<Longrightarrow> m i = Some e \<Longrightarrow> \<not> entry_stale now e \<Longrightarrow>
      map_of c2 i = Some (if length (cat_items cat) < max_catalog_items then e\<lparr> ci_seen := now \<rparr> else e)"
    and "\<exists>new. cat_items cat2 = map (scan_shown c) (cat_items cat) @ map (\<lambda>(i, e). synthesized_item i e) new
      \<and> (\<forall>i e. (i, e) \<in> set new \<longleftrightarrow> length (cat_items cat) < max_catalog_items \<and> i \<notin> ids
            \<and> m i = Some e \<and> \<not> entry_stale now e) \<and> distinct (map fst new)"
proof -
  define us where "us = scan_updates c now (cat_items cat)"
  obtain c1 ch1 where c1: "apply_updates us (c, False) = (c1, ch1)" by fastforce
  define present where "present = map it_id (map (scan_shown c) (cat_items cat))"
  define old where "old = aged_out now present c1"
  define new where "new = to_synthesize now present (length (cat_items cat)) c1"
  have run: "fold (synthesize now) new
      (cat\<lparr> cat_items := map (scan_shown c) (cat_items cat) \<rparr>, fold cache_remove old c1) = (cat2, c2)"
    using assms(1) c1
    by (auto simp: merge_and_update_def Let_def us_def scan_updates_def present_def old_def new_def
        split: prod.splits)
  have pres: "set present = ids" by (simp add: present_def ids_def image_image)
  have ord1: "cache_ordered c1" using updates_ordered [OF assms(2), of us False] c1 by simp
  have m1: "map_of c1 = m" using updates_map [OF assms(2), of us False] c1 by (simp add: m_def us_def)
  have old_iff: "k \<in> set old \<longleftrightarrow> k \<notin> ids \<and> (\<exists>e. m k = Some e \<and> entry_stale now e)" for k
    using ordered_lookup [OF ord1] by (force simp: old_def aged_out_def vanished_def pres m1)
  have new_iff: "(k, e) \<in> set new \<longleftrightarrow> length (cat_items cat) < max_catalog_items \<and> k \<notin> ids
      \<and> m k = Some e \<and> \<not> entry_stale now e" for k e
    using ordered_lookup [OF ord1] by (auto simp: new_def to_synthesize_def vanished_def pres m1)
  have ord2: "cache_ordered (fold cache_remove old c1)" using fold_remove(2) [OF ord1] .
  have c2: "cache_ordered c2" "map_of c2 k = (if k \<in> fst ` set new
      then map_option (\<lambda>u. u\<lparr> ci_seen := now \<rparr>) (if k \<in> set old then None else m k)
      else if k \<in> set old then None else m k)" for k
    using synthesized_cache [OF run ord2, of k] by (simp_all add: fold_remove(1) m1)
  have keys: "k \<in> fst ` set new \<longleftrightarrow> (\<exists>e. (k, e) \<in> set new)" for k by force
  show "cache_ordered c2" by (rule c2(1))
  show "i \<in> ids \<Longrightarrow> map_of c2 i = m i"
    and "i \<notin> ids \<Longrightarrow> m i = None \<Longrightarrow> map_of c2 i = None"
    and "i \<notin> ids \<Longrightarrow> m i = Some e \<Longrightarrow> entry_stale now e \<Longrightarrow> map_of c2 i = None"
    and "i \<notin> ids \<Longrightarrow> m i = Some e \<Longrightarrow> \<not> entry_stale now e \<Longrightarrow>
      map_of c2 i = Some (if length (cat_items cat) < max_catalog_items then e\<lparr> ci_seen := now \<rparr> else e)"
    by (auto simp: c2(2) keys old_iff new_iff)
  have "distinct (map fst new)" using ordered_distinct [OF ord1]
    by (auto simp: new_def to_synthesize_def vanished_def distinct_map inj_on_filter_key_eq
        intro: inj_on_subset)
  with synthesized_all [OF run] new_iff show "\<exists>new. cat_items cat2 =
      map (scan_shown c) (cat_items cat) @ map (\<lambda>(i, e). synthesized_item i e) new
      \<and> (\<forall>i e. (i, e) \<in> set new \<longleftrightarrow> length (cat_items cat) < max_catalog_items \<and> i \<notin> ids
            \<and> m i = Some e \<and> \<not> entry_stale now e) \<and> distinct (map fst new)"
    by (intro exI [of _ new]) simp
qed

text \<open>The updates of a scan only concern its own items.\<close>

lemma update_ids: "i \<notin> set (map it_id items) \<Longrightarrow> map_of (rev (scan_updates c now items)) i = None"
  by (auto simp: scan_updates_def scan_update_def map_of_eq_None_iff Let_def split: if_splits)

lemma update_source:
  assumes "map_of (rev (scan_updates c now items)) i = Some e"
  obtains it where "it \<in> set items" "it_id it = i" "(i, e) \<in> set (scan_update c now it)"
proof -
  have "(i, e) \<in> set (scan_updates c now items)" using map_of_SomeD [OF assms] by simp
  then obtain it where "it \<in> set items" "(i, e) \<in> set (scan_update c now it)"
    by (auto simp: scan_updates_def)
  moreover from this(2) have "it_id it = i" by (auto simp: scan_update_def Let_def split: if_splits)
  ultimately show thesis by (intro that)
qed

section \<open>What a merge keeps\<close>

definition metadata_kept :: "string \<Rightarrow> cached_item \<Rightarrow> cached_item \<Rightarrow> bool" where
  "metadata_kept i old new \<longleftrightarrow>
     (ci_title old \<noteq> item_placeholder i \<longrightarrow> ci_title new \<noteq> item_placeholder i)
     \<and> (ci_kind old \<noteq> ProjectInvalid \<longrightarrow> ci_kind new \<noteq> ProjectInvalid)
     \<and> (ci_tags old \<noteq> [] \<longrightarrow> ci_tags new \<noteq> [])
     \<and> (ci_preview old \<longrightarrow> ci_preview new)
     \<and> (ci_hash old \<noteq> None \<longrightarrow> ci_hash new \<noteq> None)"

lemma update_keeps:
  assumes "(i, e) \<in> set (scan_update c now it)" "map_of c i = Some old"
  shows "metadata_kept i old e"
  using assms
  by (auto simp: scan_update_def missing_entry_def installed_entry_def merged_kind_def metadata_kept_def
      placeholder_title_def Let_def scan_shown_def split: if_splits option.splits)

lemma merge_keeps_or_ages:
  assumes "merge_and_update now cat c = (cat2, c2, ch)" "cache_ordered c" "map_of c i = Some old"
  shows "(\<exists>e. map_of c2 i = Some e \<and> metadata_kept i old e)
    \<or> (map_of c2 i = None \<and> i \<notin> set (map it_id (cat_items cat)) \<and> entry_stale now old)"
proof (cases "i \<in> set (map it_id (cat_items cat))")
  case True
  note look = merge_cache(2) [OF assms(1,2) True]
  show ?thesis
  proof (cases "map_of (rev (scan_updates c now (cat_items cat))) i")
    case None
    then show ?thesis using look assms(3) by (auto simp: map_add_def metadata_kept_def)
  next
    case (Some e)
    then obtain it where "(i, e) \<in> set (scan_update c now it)" by (rule update_source)
    from update_keeps [OF this assms(3)] show ?thesis using look Some by (simp add: map_add_def)
  qed
next
  case False
  have m: "(map_of c ++ map_of (rev (scan_updates c now (cat_items cat)))) i = Some old"
    using update_ids [OF False] assms(3) by (simp add: map_add_def)
  show ?thesis
    using merge_cache(4) [OF assms(1,2) False m] merge_cache(5) [OF assms(1,2) False m] False
    by (cases "entry_stale now old") (auto simp: metadata_kept_def)
qed

lemma vanished_shown:
  assumes "merge_and_update now cat c = (cat2, c2, ch)" "cache_ordered c" "map_of c i = Some e"
    and "i \<notin> set (map it_id (cat_items cat))" "\<not> entry_stale now e"
    and "length (cat_items cat) < max_catalog_items"
  shows "synthesized_item i e \<in> set (cat_items cat2)" "map_of c2 i = Some (e\<lparr> ci_seen := now \<rparr>)"
    "filter (\<lambda>it. it_id it = i) (cat_items cat2) = [synthesized_item i e]"
proof -
  have m: "(map_of c ++ map_of (rev (scan_updates c now (cat_items cat)))) i = Some e"
    using update_ids [OF assms(4)] assms(3) by (simp add: map_add_def)
  show "map_of c2 i = Some (e\<lparr> ci_seen := now \<rparr>)"
    using merge_cache(5) [OF assms(1,2,4) m assms(5)] assms(6) by simp
  obtain new where items: "cat_items cat2 =
        map (scan_shown c) (cat_items cat) @ map (\<lambda>(i, e). synthesized_item i e) new"
      and mem: "\<forall>k u. (k, u) \<in> set new \<longleftrightarrow> length (cat_items cat) < max_catalog_items
        \<and> k \<notin> set (map it_id (cat_items cat))
        \<and> (map_of c ++ map_of (rev (scan_updates c now (cat_items cat)))) k = Some u \<and> \<not> entry_stale now u"
      and dist: "distinct (map fst new)"
    using merge_cache(6) [OF assms(1,2)] by (elim exE conjE)
  have "(i, e) \<in> set new" using mem m assms(4-6) by simp
  note new = items this dist
  then show "synthesized_item i e \<in> set (cat_items cat2)" by force
  have "filter (\<lambda>it. it_id it = i) (map (\<lambda>(i, e). synthesized_item i e) new) = [synthesized_item i e]"
    using new(2,3) by (induction new) (auto simp: synthesized_item_def filter_empty_conv rev_image_eqI)
  moreover have "filter (\<lambda>it. it_id it = i) (map (scan_shown c) (cat_items cat)) = []"
    using assms(4) by (auto simp: filter_empty_conv)
  ultimately show "filter (\<lambda>it. it_id it = i) (cat_items cat2) = [synthesized_item i e]"
    by (simp add: new(1))
qed

section \<open>Saving\<close>

lemma oldest_least: "x \<in> insert b (set es) \<Longrightarrow> ci_seen (snd (oldest_of b es)) \<le> ci_seen (snd x)"
proof (induction b es arbitrary: x rule: oldest_of.induct)
  case (2 b e es)
  let ?m = "if ci_seen (snd e) < ci_seen (snd b) then e else b"
  have "ci_seen (snd (oldest_of ?m es)) \<le> ci_seen (snd ?m)" by (rule "2.IH") simp
  moreover have "ci_seen (snd ?m) \<le> ci_seen (snd b)" "ci_seen (snd ?m) \<le> ci_seen (snd e)" by auto
  ultimately show ?case using "2.IH" [of x] "2.prems" by (auto split: if_splits)
qed simp

text \<open>\<open>c'\<close> is what eviction may leave of \<open>c\<close>: a part of it, nothing dropped being younger than anything kept.\<close>

definition evicts_oldest :: "cache_items \<Rightarrow> cache_items \<Rightarrow> bool" where
  "evicts_oldest c c' \<longleftrightarrow> (\<exists>keep. c' = filter keep c
     \<and> (\<forall>x \<in> set c. \<forall>y \<in> set c'. \<not> keep x \<longrightarrow> ci_seen (snd x) \<le> ci_seen (snd y)))"

lemma evicts_oldest_refl: "evicts_oldest c c"
  unfolding evicts_oldest_def by (intro exI [of _ "\<lambda>_. True"]) simp

lemma evicts_oldest_trans:
  assumes "evicts_oldest a b" "evicts_oldest b c"
  shows "evicts_oldest a c"
proof -
  obtain k where k: "b = filter k a" "\<forall>x \<in> set a. \<forall>y \<in> set b. \<not> k x \<longrightarrow> ci_seen (snd x) \<le> ci_seen (snd y)"
    using assms(1) by (auto simp: evicts_oldest_def)
  obtain l where l: "c = filter l b" "\<forall>x \<in> set b. \<forall>y \<in> set c. \<not> l x \<longrightarrow> ci_seen (snd x) \<le> ci_seen (snd y)"
    using assms(2) by (auto simp: evicts_oldest_def)
  have c: "c = filter (\<lambda>x. l x \<and> k x) a" by (simp add: k(1) l(1) conj_commute)
  have "ci_seen (snd x) \<le> ci_seen (snd y)" if "x \<in> set a" "y \<in> set c" "\<not> (l x \<and> k x)" for x y
  proof (cases "k x")
    case True
    with that k(1) have "x \<in> set b" "\<not> l x" by simp_all
    with l(2) that(2) show ?thesis by blast
  next
    case False
    from that(2) have "y \<in> set b" by (simp add: l(1))
    with False k(2) that(1) show ?thesis by blast
  qed
  then have "\<forall>x \<in> set a. \<forall>y \<in> set c. \<not> (l x \<and> k x) \<longrightarrow> ci_seen (snd x) \<le> ci_seen (snd y)" by blast
  with c show ?thesis unfolding evicts_oldest_def by blast
qed

lemma evict_one: "cache_ordered c \<Longrightarrow> c = e # es \<Longrightarrow> evicts_oldest c (cache_remove (fst (oldest_of e es)) c)"
proof -
  assume ord: "cache_ordered c" and c: "c = e # es"
  let ?x = "oldest_of e es"
  have x: "?x \<in> set c" using oldest_of_mem [of e es] c by simp
  have dropped: "y = ?x" if "y \<in> set c" "fst y = fst ?x" for y
    using ordered_distinct [OF ord] that x by (metis eq_key_imp_eq_value prod.collapse)
  have least: "ci_seen (snd ?x) \<le> ci_seen (snd y)" if "y \<in> set c" for y
    using oldest_least [of y e es] that c by simp
  show ?thesis unfolding evicts_oldest_def cache_remove_def
  proof (intro exI conjI ballI impI)
    fix y z assume "y \<in> set c" "z \<in> set (filter (\<lambda>y. fst y \<noteq> fst ?x) c)" "\<not> fst y \<noteq> fst ?x"
    with dropped least show "ci_seen (snd y) \<le> ci_seen (snd z)" by (metis filter_is_subset subsetD)
  qed (rule refl)
qed

lemma evict_oldest: "cache_ordered c \<Longrightarrow> evicts_oldest c (evict n c) \<and> cache_ordered (evict n c)"
proof (induction n c rule: evict.induct)
  case (3 n e es)
  note one = evict_one [OF 3(2) refl]
  show ?case using 3(1) [OF remove_ordered [OF 3(2)]] evicts_oldest_trans [OF one]
    by (simp del: )
qed (auto intro: evicts_oldest_refl)

lemma fit_oldest:
  "cache_ordered c \<Longrightarrow> evicts_oldest c (evict_to_fit encode c) \<and> cache_ordered (evict_to_fit encode c)"
proof (induction encode c rule: evict_to_fit.induct)
  case (1 encode c)
  show ?case
  proof (cases "max_cache_bytes < length (encode c) \<and> c \<noteq> []")
    case True
    note step = evict_oldest [OF "1.prems", of "evict_count (length (encode c)) (length c)"]
    show ?thesis using "1.IH" [OF True] step True
      by (subst (1 2) evict_to_fit.simps) (auto intro: evicts_oldest_trans)
  next
    case False
    then show ?thesis using "1.prems" by (subst (1 2) evict_to_fit.simps) (auto intro: evicts_oldest_refl)
  qed
qed

lemma fit_fits: "length (encode (evict_to_fit encode c)) \<le> max_cache_bytes \<or> evict_to_fit encode c = []"
proof (induction encode c rule: evict_to_fit.induct)
  case (1 encode c)
  then show ?case
    by (cases "max_cache_bytes < length (encode c) \<and> c \<noteq> []")
       (auto simp: evict_to_fit.simps [of encode c])
qed

lemma fit_same: "length (encode c) \<le> max_cache_bytes \<Longrightarrow> evict_to_fit encode c = c"
  by (subst evict_to_fit.simps) simp

end
