(* ===== verification/Workshop_Safety.thy ===== *)
theory Workshop_Safety
  imports Workshop_Facts
begin

text \<open>
  What the offline cache promises: known metadata survives every scan, a subscription whose library
  vanished is still listed, and a save keeps the newest entries within the size bound. The last section
  shows where the code differs from its comments.
\<close>

section \<open>Statistics of a scan\<close>

definition count_state :: "string \<Rightarrow> scan_stats \<Rightarrow> scan_stats" where
  "count_state state s =
     (if state = ''subscribed_installed'' then s\<lparr> st_subscribed := st_subscribed s + 1 \<rparr>
      else if state = ''subscribed_missing'' then s\<lparr> st_missing := st_missing s + 1 \<rparr>
      else if state = ''downloading'' then s\<lparr> st_downloading := st_downloading s + 1 \<rparr> else s)"

definition stats_of_items :: "scan_item list \<Rightarrow> scan_stats" where
  "stats_of_items items =
     fold (\<lambda>it s. count_state (it_state it) (count_kind (it_kind it) s)) items
       (empty_stats\<lparr> st_total := length items \<rparr>)"

section \<open>Samples\<close>

definition sample_entry :: "u128 \<Rightarrow> cached_item" where
  "sample_entry seen = \<lparr> ci_title = ''Aurora'', ci_kind = ProjectScene, ci_tags = [''space''], ci_preview = True,
     ci_hash = Some ''h'', ci_state = ''subscribed_installed'', ci_progress = None, ci_seen = seen \<rparr>"

definition sample_item :: "string \<Rightarrow> string \<Rightarrow> scan_item" where
  "sample_item i state = \<lparr> it_id = i, it_title = item_placeholder i, it_kind = ProjectInvalid,
     it_compatibility = InvalidItem, it_compatibility_detail = [], it_content_root = [], it_project_file = [],
     it_entry_file = None, it_preview_file = None, it_hash = None, it_tags = [], it_permissions = [],
     it_state = state, it_progress = None, it_diagnostics = [] \<rparr>"

definition sample_catalog :: "scan_item list \<Rightarrow> scan_catalog" where
  "sample_catalog items = \<lparr> cat_items = items, cat_stats = stats_of_items items \<rparr>"

lemmas merge_eval = merge_and_update_def sample_catalog_def sample_item_def sample_entry_def
  scan_shown_def scan_update_def missing_entry_def installed_entry_def merged_kind_def placeholder_title_def
  item_placeholder_def same_metadata_def aged_out_def to_synthesize_def vanished_def entry_stale_def
  u128_sat_add_def stale_entry_ms_def max_catalog_items_def is_subscribed_state_def synthesize_def
  synthesized_item_def cache_remove_def cache_ordered_def

section \<open>Properties\<close>

text \<open>
  A scan never downgrades what the cache knows of an item: after a merge, whatever the scan found on disk,
  the entry has kept its real title, its kind, its tags, its preview and its hash, or else the item was in
  no library and its entry was last seen more than thirty days before.
\<close>

theorem metadata_survives_scan:
  assumes "merge_and_update now cat c = (cat2, c2, changed)" "cache_ordered c" "map_of c i = Some old"
  shows "(\<exists>e. map_of c2 i = Some e \<and> metadata_kept i old e)
    \<or> (map_of c2 i = None \<and> i \<notin> set (map it_id (cat_items cat)) \<and> entry_stale now old)"
  by (rule merge_keeps_or_ages [OF assms])

lemma sample_merge: "merge_and_update 9 (sample_catalog [sample_item ''7'' ''downloading'']) [(''7'', sample_entry 5)]
  = (sample_catalog [sample_item ''7'' ''downloading''],
     [(''7'', (sample_entry 9)\<lparr> ci_state := ''downloading'' \<rparr>)], True)"
  by (simp add: merge_eval Let_def)

theorem metadata_survives_scan_witness:
  "\<exists>e. map_of [(''7'', (sample_entry 9)\<lparr> ci_state := ''downloading'' \<rparr>)] ''7'' = Some e
     \<and> metadata_kept ''7'' (sample_entry 5) e"
  using metadata_survives_scan [OF sample_merge, of "''7''" "sample_entry 5"]
  by (simp add: cache_ordered_def)

text \<open>
  A subscription whose library disappeared is listed exactly once, as a missing subscription with the
  cached title, kind, tags and hash, and its entry is kept alive, as long as the scan lacks it, the entry
  is younger than thirty days and the scan has room.
\<close>

theorem vanished_subscription_listed:
  assumes "merge_and_update now cat c = (cat2, c2, changed)" "cache_ordered c" "map_of c i = Some e"
    and "i \<notin> set (map it_id (cat_items cat))" "\<not> entry_stale now e"
    and "length (cat_items cat) < max_catalog_items"
  shows "filter (\<lambda>it. it_id it = i) (cat_items cat2) = [synthesized_item i e]
    \<and> map_of c2 i = Some (e\<lparr> ci_seen := now \<rparr>)"
  using vanished_shown(2,3) [OF assms] by simp

lemma sample_vanished: "\<exists>st. merge_and_update 9 (sample_catalog []) [(''7'', sample_entry 5)]
  = (\<lparr> cat_items = [synthesized_item ''7'' (sample_entry 5)], cat_stats = st \<rparr>, [(''7'', sample_entry 9)], True)"
  by (simp add: merge_eval Let_def)

theorem vanished_subscription_listed_witness:
  "filter (\<lambda>it. it_id it = ''7'') (cat_items (fst (merge_and_update 9 (sample_catalog []) [(''7'', sample_entry 5)])))
     = [synthesized_item ''7'' (sample_entry 5)]"
proof -
  obtain st where run: "merge_and_update 9 (sample_catalog []) [(''7'', sample_entry 5)]
    = (\<lparr> cat_items = [synthesized_item ''7'' (sample_entry 5)], cat_stats = st \<rparr>, [(''7'', sample_entry 9)], True)"
    using sample_vanished by blast
  show ?thesis using vanished_subscription_listed [OF run, of "''7''" "sample_entry 5"] unfolding run
    by (simp add: cache_ordered_def sample_catalog_def entry_stale_def u128_sat_add_def stale_entry_ms_def
        sample_entry_def max_catalog_items_def)
qed

text \<open>
  A save ends with a cache that fits the size bound or is empty; what it dropped is nowhere younger than
  what it kept; and the state file holds what it held before or the whole encoding of what was kept,
  within the bound.
\<close>

theorem cache_save_keeps_newest:
  assumes "cache_save encode io c d = (c', d')" "cache_ordered c"
  shows "(length (encode c') \<le> max_cache_bytes \<or> c' = []) \<and> evicts_oldest c c' \<and> cache_ordered c'
    \<and> (Mapping.lookup d' cache_file = Mapping.lookup d cache_file
       \<or> Mapping.lookup d' cache_file = Some (encode c') \<and> length (encode c') \<le> max_cache_bytes)"
proof -
  have c': "c' = evict_to_fit encode c"
    and d': "d' = (if max_cache_bytes < length (encode c') then d
      else snd (atomic_write cache_file (encode c') io d))"
    using assms(1) by (auto simp: cache_save_def Let_def)
  have "Mapping.lookup d' cache_file = Mapping.lookup d cache_file
      \<or> Mapping.lookup d' cache_file = Some (encode c') \<and> length (encode c') \<le> max_cache_bytes"
    using daemon_file.write_never_partial [of cache_file "encode c'" io d] d'
    by (cases "atomic_write cache_file (encode c') io d") auto
  then show ?thesis using fit_fits [of encode c] fit_oldest [OF assms(2), of encode] by (simp add: c')
qed

definition bulky_encode :: "cache_items \<Rightarrow> u8 list" where
  "bulky_encode c = replicate (length c * 10485760) 0"

lemma bulky_fit: "evict_to_fit bulky_encode [(''7'', sample_entry 5), (''8'', sample_entry 3)] = [(''7'', sample_entry 5)]"
proof -
  let ?c = "[(''7'', sample_entry 5), (''8'', sample_entry 3)]"
  have len: "length (bulky_encode ?c) = 20971520" by (simp add: bulky_encode_def)
  have "evict_count 20971520 2 = 1" by (simp add: evict_count_def max_cache_bytes_def Let_def max_def)
  then have count: "evict_count (length (bulky_encode ?c)) (length ?c) = Suc 0"
    unfolding len by (simp add: numeral_2_eq_2)
  have one: "evict (Suc 0) ?c = [(''7'', sample_entry 5)]"
    by (simp add: cache_remove_def sample_entry_def)
  have rest: "evict_to_fit bulky_encode [(''7'', sample_entry 5)] = [(''7'', sample_entry 5)]"
    by (intro fit_same) (simp add: bulky_encode_def max_cache_bytes_def)
  have big: "max_cache_bytes < length (bulky_encode ?c)" unfolding len by (simp add: max_cache_bytes_def)
  show ?thesis by (subst evict_to_fit.simps) (simp only: count one rest big, simp)
qed

theorem cache_save_keeps_newest_witness:
  "evicts_oldest [(''7'', sample_entry 5), (''8'', sample_entry 3)] [(''7'', sample_entry 5)]"
proof -
  obtain d' where run: "cache_save bulky_encode undefined [(''7'', sample_entry 5), (''8'', sample_entry 3)] Mapping.empty
      = ([(''7'', sample_entry 5)], d')"
    by (simp add: cache_save_def bulky_fit Let_def)
  have "evicts_oldest [(''7'', sample_entry 5), (''8'', sample_entry 3)] [(''7'', sample_entry 5)]"
    using cache_save_keeps_newest [OF run] by (simp add: cache_ordered_def)
  then show ?thesis .
qed

section \<open>Where the code differs from its comments\<close>

fun merge_runs :: "(u128 \<times> scan_catalog) list \<Rightarrow> cache_items \<Rightarrow> cache_items" where
  "merge_runs [] c = c"
| "merge_runs ((now, cat) # runs) c = merge_runs runs (fst (snd (merge_and_update now cat c)))"

text \<open>No scan of \<open>runs\<close> has the item, and no two of them are more than thirty days apart.\<close>

fun absent_runs :: "string \<Rightarrow> u128 \<Rightarrow> (u128 \<times> scan_catalog) list \<Rightarrow> bool" where
  "absent_runs i seen [] = True"
| "absent_runs i seen ((now, cat) # runs) =
     (i \<notin> set (map it_id (cat_items cat)) \<and> length (cat_items cat) < max_catalog_items
      \<and> \<not> u128_sat_add seen stale_entry_ms < now \<and> absent_runs i now runs)"

text \<open>An item absent from every scan is never dropped: listing it counts as seeing it.\<close>

lemma unsubscribed_never_fades:
  "cache_ordered c \<Longrightarrow> map_of c i = Some e \<Longrightarrow> absent_runs i (ci_seen e) runs
    \<Longrightarrow> \<exists>t. map_of (merge_runs runs c) i = Some (e\<lparr> ci_seen := t \<rparr>)"
proof (induction runs arbitrary: c e)
  case Nil
  then show ?case by (intro exI [of _ "ci_seen e"]) simp
next
  case (Cons run runs)
  obtain now cat where run: "run = (now, cat)" by (cases run)
  obtain cat2 c2 ch where merge: "merge_and_update now cat c = (cat2, c2, ch)" by (metis prod_cases3)
  have "map_of c2 i = Some (e\<lparr> ci_seen := now \<rparr>)" "cache_ordered c2"
    using vanished_shown(2) [OF merge Cons.prems(1,2)] merge_cache(1) [OF merge Cons.prems(1)] Cons.prems(3)
    by (simp_all add: run entry_stale_def)
  from Cons.IH [OF this(2,1)] Cons.prems(3) show ?case by (simp add: run merge)
qed

text \<open>A merge that only saw a live item again reports nothing to save.\<close>

lemma touch_reported_unchanged:
  "merge_and_update 9 (sample_catalog [sample_item ''7'' ''subscribed_installed'']) [(''7'', sample_entry 5)]
   = (sample_catalog [sample_item ''7'' ''subscribed_installed''], [(''7'', sample_entry 9)], False)"
  by (simp add: merge_eval Let_def)

text \<open>The kind restored on a missing item is not the kind it was counted under.\<close>

lemma overlay_leaves_statistics:
  "\<exists>items. merge_and_update 9 (sample_catalog [sample_item ''7'' ''subscribed_missing'']) [(''7'', sample_entry 5)]
     = (\<lparr> cat_items = items, cat_stats = stats_of_items [sample_item ''7'' ''subscribed_missing''] \<rparr>,
        [(''7'', (sample_entry 9)\<lparr> ci_state := ''subscribed_missing'' \<rparr>)], True)
   \<and> st_scene (stats_of_items items) = 1 \<and> st_scene (stats_of_items [sample_item ''7'' ''subscribed_missing'']) = 0"
  by (simp add: merge_eval Let_def overlay_def overlay_title_def overlay_kind_def overlay_tags_def
      overlay_hash_def overlay_changes_def stats_of_items_def count_state_def count_kind_def empty_stats_def
      usize_sat_add_def usize_max_def)

text \<open>Two vanished subscriptions push a scan one short of the cap beyond it.\<close>

lemma synthesis_exceeds_cap:
  assumes "merge_and_update now cat c = (cat2, c2, changed)" "cache_ordered c"
    and "map_of c i = Some e" "i \<notin> set (map it_id (cat_items cat))" "\<not> entry_stale now e"
    and "map_of c j = Some u" "j \<notin> set (map it_id (cat_items cat))" "\<not> entry_stale now u" "i \<noteq> j"
    and "Suc (length (cat_items cat)) = max_catalog_items"
  shows "max_catalog_items < length (cat_items cat2)"
proof -
  obtain new where new: "cat_items cat2 = map (scan_shown c) (cat_items cat) @ new"
    using merge_cache(6) [OF assms(1,2)] by blast
  have room: "length (cat_items cat) < max_catalog_items" using assms(10) by simp
  have "synthesized_item i e \<in> set new" "synthesized_item j u \<in> set new"
    using vanished_shown(1) [OF assms(1-5) room] vanished_shown(1) [OF assms(1,2,6-8) room] assms(4,7)
    by (auto simp: new synthesized_item_def dest: arg_cong [where f = it_id])
  moreover have "synthesized_item i e \<noteq> synthesized_item j u"
    using assms(9) by (simp add: synthesized_item_def)
  ultimately have "card {synthesized_item i e, synthesized_item j u} \<le> length new"
    by (meson card_length card_mono dual_order.trans empty_subsetI finite_set insert_subset)
  then show ?thesis using \<open>synthesized_item i e \<noteq> _\<close> assms(10) by (simp add: new)
qed

text \<open>A cache with more items than it may load is saved, and discarded whole by the next start.\<close>

lemma oversized_cache_discarded:
  assumes "length (encode c) \<le> max_cache_bytes" "max_cache_items < length c"
    and "decode (encode c) = Some (cache_schema_version, c)"
  shows "fst (cache_save encode io c d) = c"
    and "cache_load decode (MetadataLen (length (encode c))) (Some (encode c)) = ([], True)"
  using assms by (simp_all add: cache_save_def cache_load_def fit_same Let_def)

end
