(* ===== verification/Spec2Isabelle.thy ===== *)
theory Spec2Isabelle
  imports Playlist Playlist_Runtime Policy Key_Values Frame_Protocol Frame_Seqlock Cdp_Codec
    Cdp_Connection Input_Protocol Playlist_Session Playlist_Session_Inv
    Playlist_Session_Safety Playlist_Session_Samples Pkg_Archive Texv_Header Persist Grants Supervisor Supervisor_Inv
    Supervisor_Fallback Supervisor_Safety Supervisor_Display Apply_Samples Inspection_Gate Shader_Samples Vfs
    Workshop_Safety
begin

text \<open>
  A model of the core of the KDE Wallpaper Engine services: the supervisor that runs renderer processes and hands
  their frames to the display, the protocols between daemon, workers and display, the stores on disk,
  the playlist and policy engines, and the parsers of wallpaper content that is not trusted.

  Conventions. A Rust integer is a word of its width, \<open>usize\<close> a natural number with the bounds written
  out, a struct a record, an enum a datatype, \<open>Result\<close> the sum type \<open>result\<close> with the error on the left.
  A \<open>BTreeMap\<close> is a mapping, a file system a mapping from names to bytes. Calls to the operating
  system return answers that are arguments of the model: an operation takes a record of what each of its
  calls returned, so a theorem over all such records holds for every behaviour, failures included. JSON,
  LZ4 and other libraries are parameters; where a property relies on one, its contract is a hypothesis.

  Prelude and strings. \<open>Prelude\<close>: word arithmetic as Rust has it (checked, saturating), results, byte
  slices. \<open>Rust_Strings\<close>: characters, UTF-8 and the string functions of the standard library.

  Renderer supervisor (\<open>crates/kwe-daemon/src/supervisor.rs\<close>). \<open>Supervisor_Config\<close>: configuration, start
  specifications and their validation, quarantine identities. \<open>Supervisor_Store\<close>: the state file, the
  failure records, the alternating files of the last good frame. \<open>Worker_Pipes\<close>: the diagnostics ring,
  the latest-wins control channels, acknowledgements. \<open>Worker_Launch\<close>: command line, environment,
  resource limits, termination. \<open>Worker_Inspect\<close>: one look at a worker. \<open>Supervisor\<close>: the state of
  \<open>SupervisorRuntime\<close>, every command of its channel, the tick after each, and the loop. Clocks, child
  processes, pipes and disks are a stream of answers, one for each event, so a run over any stream is a
  run under any behaviour; the state also holds the disk and the children not yet reaped.
  \<open>Supervisor_Inv\<close>: the invariant and its preservation, with no orphan process as its consequence.
  \<open>Supervisor_Fallback\<close>: a complete fallback frame survives every run. \<open>Supervisor_Safety\<close>:
  acknowledgement, promotion, the failure budget, quarantine, input. \<open>Supervisor_Display\<close>: an abstract
  display machine with four transitions, and the refinement of it by the supervisor's runs.

  Protocols. \<open>Frame_Protocol\<close> and \<open>Frame_Seqlock\<close> (\<open>crates/kwe-frame-protocol\<close>): the shared frame
  file; opening, publication and snapshot as whole operations in which every access to the mapping is checked
  and the producer may write between any two of a reader, and one memory access at a time as a step
  relation of one writer and one reader, in which no torn frame is ever returned. \<open>Input_Protocol\<close>
  (\<open>crates/kwe-input-protocol\<close>): pointer, audio and media lines. \<open>Cdp_Codec\<close>
  (\<open>crates/kwe-cdp/src/codec.rs\<close>): the framing of the DevTools pipe. \<open>Cdp_Transport\<close> and
  \<open>Cdp_Connection\<close> (\<open>transport.rs\<close>, \<open>connection.rs\<close>, \<open>client.rs\<close> beside it): the pipe over the answers of its
  system calls, request correlation, the bounded event queue and the blocking request.

  Stores. \<open>Persist\<close> and \<open>Grants\<close> (\<open>crates/kwe-daemon/src/persist.rs\<close>, \<open>grants.rs\<close>): atomic writes with
  every failing step, quarantine of invalid state, permission grants. \<open>Workshop_Cache\<close>, \<open>Workshop_Facts\<close>
  and \<open>Workshop_Safety\<close> (\<open>workshop_cache.rs\<close> beside them): the offline metadata of subscriptions, the merge
  of a scan and the bounded save; known metadata survives a scan, a vanished subscription stays listed, a
  save keeps the newest entries, and five places where the code differs from its comments.

  Playlists and policy (\<open>crates/kwe-core/src/playlist.rs\<close>, \<open>playlist_runtime.rs\<close>, \<open>policy.rs\<close>):
  \<open>Playlist\<close>, \<open>Playlist_Runtime\<close>, \<open>Policy\<close>. \<open>Playlist_Session\<close>
  (\<open>crates/kwe-daemon/src/playlist_session.rs\<close>): the daemon's session over them, its command loop, its two
  files and the worker that applies wallpapers, as a run of events of the session and of the worker.
  \<open>Playlist_Session_Inv\<close>: the invariant, and the agreement of memory with the definitions file.
  \<open>Playlist_Session_Safety\<close>: what an apply is gated by, and that a tick always decides on a clock within
  2^62 milliseconds and 2^40 events. \<open>Playlist_Session_Restart\<close>: restart, clock skip and import.
  \<open>Playlist_Session_Samples\<close>: the theorems at concrete sessions.

  Apply transaction (\<open>crates/kwe-daemon/src/apply.rs\<close>). \<open>Apply_Store\<close>: the assignments of outputs and their file,
  over the interface of a record store. \<open>Apply_Script\<close>: the scripts for the Plasma shell, and a reader of
  JavaScript text that shows data never becomes code. \<open>Apply_Outputs\<close>: bounded runs of programs, the display
  environment, the parsers of \<open>kscreen-doctor\<close> and the outputs assembled from it. \<open>Apply_Transaction\<close>: both
  lanes of the transaction, over the answers of supervisor, shell and disk, with a trace of what was done
  to them; and restore. \<open>Apply_Safety\<close>: verified success, rollback, the original wallpaper over any
  number of applies. \<open>Apply_Restore\<close>: restore, the frame canvas, and three situations the code does not
  cover. \<open>Apply_Samples\<close>: the theorems at a concrete desktop.

  Reports and one-shot children. \<open>Report_Protocol\<close> (\<open>crates/kwe-report-protocol/src/lib.rs\<close>): the bounded
  frame codec, over streams of any chunks and errors. \<open>Report_Records\<close>: the validators of its records, with
  the inspection schema as a table. \<open>Child_Drain\<close>: the bounded drains both callers of one-shot children use.
  \<open>Inspection\<close> (\<open>crates/kwe-daemon/src/inspect.rs\<close>): one run of the scene inspector. \<open>Inspection_Gate\<close>: its
  record as the capability gate of the apply transaction reads it. \<open>Shader_Compiler\<close>
  (\<open>crates/kwe-shader-compiler/src/main.rs\<close>) and \<open>Shader_Helper\<close>
  (\<open>crates/kwe-scene-renderer/src/shader_helper.rs\<close>): the two ends of the shader helper.
  \<open>Shader_Exchange\<close>: both together, containment, and the limits of the channel. \<open>Shader_Samples\<close>: one
  exchange on concrete bytes.

  Content parsers (\<open>crates/kwe-core/src/keyvalues.rs\<close>, \<open>pkg.rs\<close>, \<open>texvheader.rs\<close>): \<open>Key_Values\<close>,
  \<open>Pkg_Archive\<close>, \<open>Texv_Header\<close>; of key-value text the parser is shown to accept exactly its grammar.
  \<open>Vfs\<close> (\<open>vfs.rs\<close> beside them): the confined lookup of assets, over any answers
  of the file system, and on a tree with links as a function of the package and two subtrees.

  Termination. Loops over bytes and entries are structural or have a measure; the tokenizer of key-value
  text may loop for ever and is a partial function into option, with both its termination without form
  feeds and its divergence on one proved. The snapshot's bounded retry is fuel as in the code, and the
  eviction loop of the Workshop cache has the number of its items as a measure.

  Not modelled: the renderers themselves (GPU work, floating point simulation, script execution), the other
  workers around mpv, Chromium and PipeWire, the daemon's socket loop and request routing, desktop and audio
  integration, the scene graph and scene model parsers, the preflight and scan of content directories, the
  command line client and the desktop applications; in the parts modelled, threads and locks are events or
  flags, and the system calls that open and map files are answers.
\<close>

end
